(* ===== verification/Oir_Prelude.thy ===== *)
theory Oir_Prelude
  imports Main "HOL-Library.AList" "HOL-Library.Char_ord" "HOL-Library.List_Lexorder"
    "HOL-Library.Product_Lexorder"
begin

text \<open>
  Vocabulary shared by every component model: identifiers, time stamps, JSON values with
  Python's equality and truth value, insertion-ordered dictionaries, and the error-or-value
  results that stand for Python exceptions.

  \<^item> Python's \<open>str\<close> is \<open>string\<close>; identifiers are strings.
  \<^item> A \<open>datetime\<close> is an instant, an \<open>int\<close> counting microseconds in UTC. All time stamps the
    modelled code compares are timezone-aware, so the helper \<open>_as_utc\<close> is the identity here.
  \<^item> A \<open>dict\<close> is an association list in insertion order with distinct keys: \<open>AList.update\<close>
    replaces in place or appends, as assignment to a Python dictionary does, and
    \<open>AList.delete\<close> is \<open>pop\<close>.
  \<^item> An exception is the \<open>Inl\<close> side of a sum; \<open>ebind\<close> sequences statements that may raise.
\<close>

type_synonym ident = string
type_synonym time = int
type_synonym ('k, 'v) dict = "('k \<times> 'v) list"

named_theorems oir_elim \<open>inversion facts for results that are Inr\<close>

subsection \<open>Results that may be exceptions\<close>

text \<open>
  The exception classes the modelled code raises or catches. \<open>is_value_error\<close> is Python's
  subclass test against \<open>ValueError\<close>: the conflict classes of the stores derive from it,
  \<open>PlanStateConflict\<close> derives from \<open>RuntimeError\<close>, \<open>TypeError\<close> is separate and the
  \<open>AppError\<close> classes derive from \<open>Exception\<close>. \<open>External_Error\<close> is any exception of a library or a
  remote system.
\<close>

datatype py_exn =
    Start_Conflict string
  | Turn_Ownership_Conflict string
  | Turn_Terminal_State string
  | Turn_Idempotency_Conflict string
  | Outbox_Claim_Conflict string
  | Ticket_Error string
  | Ticket_Conflict string
  | Value_Error string
  | Plan_State_Conflict string
  | Runtime_Error string
  | Canonical_Conflict string
  | Invocation_Error string
  | Agent_Unavailable string
  | Registry_Error string
  | Registry_Unavailable string
  | Registry_Version_Conflict string
  | External_Error string
  | Type_Error
  | Attribute_Error

fun is_value_error :: "py_exn \<Rightarrow> bool" where
  "is_value_error (Plan_State_Conflict _) = False"
| "is_value_error (Runtime_Error _) = False"
| "is_value_error (Invocation_Error _) = False"
| "is_value_error (Agent_Unavailable _) = False"
| "is_value_error (Registry_Error _) = False"
| "is_value_error (Registry_Unavailable _) = False"
| "is_value_error (Registry_Version_Conflict _) = False"
| "is_value_error (External_Error _) = False"
| "is_value_error Type_Error = False"
| "is_value_error Attribute_Error = False"
| "is_value_error _ = True"

definition ebind :: "'e + 'a \<Rightarrow> ('a \<Rightarrow> 'e + 'b) \<Rightarrow> 'e + 'b" where
  "ebind m f = (case m of Inl e \<Rightarrow> Inl e | Inr x \<Rightarrow> f x)"

definition ensure :: "'e \<Rightarrow> bool \<Rightarrow> 'e + unit" where
  "ensure e b = (if b then Inr () else Inl e)"

lemma ebind_simps [simp]:
  "ebind (Inl e) f = Inl e"
  "ebind (Inr x) f = f x"
  by (simp_all add: ebind_def)

lemma ebind_eq_Inr [oir_elim]: "ebind m f = Inr y \<longleftrightarrow> (\<exists>x. m = Inr x \<and> f x = Inr y)"
  by (cases m) simp_all

lemma ebind_eq_Inl: "ebind m f = Inl e \<longleftrightarrow> m = Inl e \<or> (\<exists>x. m = Inr x \<and> f x = Inl e)"
  by (cases m) simp_all

lemma ensure_simps [simp]:
  "ensure e True = Inr ()"
  "ensure e False = Inl e"
  by (simp_all add: ensure_def)

lemma ensure_eq_Inr [oir_elim]: "ensure e b = Inr u \<longleftrightarrow> b"
  by (simp add: ensure_def)

lemma ensure_eq_Inl: "ensure e b = Inl e' \<longleftrightarrow> \<not> b \<and> e' = e"
  by (auto simp: ensure_def)

lemma ebind_ensure: "ebind (ensure e b) f = (if b then f () else Inl e)"
  by (simp add: ensure_def)

subsection \<open>Dictionaries\<close>

abbreviation dget :: "('k, 'v) dict \<Rightarrow> 'k \<Rightarrow> 'v option" where
  "dget \<equiv> map_of"

abbreviation dput :: "'k \<Rightarrow> 'v \<Rightarrow> ('k, 'v) dict \<Rightarrow> ('k, 'v) dict" where
  "dput \<equiv> AList.update"

abbreviation dpop :: "'k \<Rightarrow> ('k, 'v) dict \<Rightarrow> ('k, 'v) dict" where
  "dpop \<equiv> AList.delete"

abbreviation dvalues :: "('k, 'v) dict \<Rightarrow> 'v list" where
  "dvalues d \<equiv> map snd d"

definition dict_ok :: "('k, 'v) dict \<Rightarrow> bool" where
  "dict_ok d \<longleftrightarrow> distinct (map fst d)"

lemma dget_dput [simp]: "dget (dput k v d) k' = (if k' = k then Some v else dget d k')"
  by (simp add: update_conv')

lemma dget_dpop [simp]: "dget (dpop k d) k' = (if k' = k then None else dget d k')"
  by (simp add: delete_conv')

lemma dict_ok_Nil [simp]: "dict_ok []"
  by (simp add: dict_ok_def)

lemma dict_ok_Cons [simp]: "dict_ok ((k, v) # d) \<longleftrightarrow> k \<notin> fst ` set d \<and> dict_ok d"
  by (simp add: dict_ok_def)

lemma dict_ok_dput [simp, intro]: "dict_ok d \<Longrightarrow> dict_ok (dput k v d)"
  by (simp add: dict_ok_def distinct_update)

lemma dict_ok_dpop [simp, intro]: "dict_ok d \<Longrightarrow> dict_ok (dpop k d)"
  by (simp add: dict_ok_def distinct_delete)

lemma dput_dput_same: "dict_ok d \<Longrightarrow> dput k v (dput k w d) = dput k v d"
  by (induction d) (auto simp: dict_ok_def)

lemma dput_restore:
  "dict_ok d \<Longrightarrow> dget d k = Some v \<Longrightarrow> dput k v (dput k w d) = d"
proof (induction d)
  case Nil
  then show ?case by simp
next
  case (Cons p d)
  then show ?case by (cases p) (auto simp: dict_ok_def)
qed

lemma dput_same: "dict_ok d \<Longrightarrow> dget d k = Some v \<Longrightarrow> dput k v d = d"
proof (induction d)
  case Nil
  then show ?case by simp
next
  case (Cons p d)
  then show ?case by (cases p) (auto simp: dict_ok_def)
qed

lemma dpop_dput_fresh: "dget d k = None \<Longrightarrow> dpop k (dput k v d) = d"
proof (induction d)
  case Nil
  then show ?case by simp
next
  case (Cons p d)
  then show ?case by (cases p) (auto simp: delete_conv split: if_splits)
qed

lemma dget_in_values: "dget d k = Some v \<Longrightarrow> v \<in> set (dvalues d)"
  by (induction d) (auto split: if_splits)

lemma in_values_dget: "dict_ok d \<Longrightarrow> v \<in> set (dvalues d) \<Longrightarrow> \<exists>k. dget d k = Some v"
  by (force simp: dict_ok_def)

subsection \<open>Searching lists\<close>

text \<open>\<open>find\<close> is \<open>next(\<dots>, None)\<close>.\<close>

lemma find_Some_D: "find P xs = Some x \<Longrightarrow> x \<in> set xs \<and> P x"
  by (auto simp: find_Some_iff)

lemma find_eq_None: "find P xs = None \<longleftrightarrow> (\<forall>x\<in>set xs. \<not> P x)"
  by (auto simp: find_None_iff)

text \<open>\<open>list(dict.fromkeys(xs))\<close>: the distinct elements in order of first occurrence.\<close>

fun dedupe :: "'a list \<Rightarrow> 'a list" where
  "dedupe [] = []"
| "dedupe (x # xs) = x # filter (\<lambda>y. y \<noteq> x) (dedupe xs)"

lemma set_dedupe [simp]: "set (dedupe xs) = set xs"
  by (induction xs) auto

lemma distinct_dedupe [simp]: "distinct (dedupe xs)"
  by (induction xs) auto

lemma dedupe_distinct: "distinct xs \<Longrightarrow> dedupe xs = xs"
proof (induction xs)
  case Nil
  then show ?case by simp
next
  case (Cons x xs)
  then show ?case by (auto simp: filter_id_conv)
qed

text \<open>The truth value of an optional string: \<open>None\<close> and the empty string are false.\<close>

fun str_set :: "string option \<Rightarrow> bool" where
  "str_set None = False"
| "str_set (Some s) = (s \<noteq> [])"

lemma str_set_iff: "str_set x \<longleftrightarrow> (\<exists>s. x = Some s \<and> s \<noteq> [])"
  by (cases x) auto

text \<open>\<open>x or y\<close> on optional strings.\<close>

definition or_else :: "string option \<Rightarrow> string option \<Rightarrow> string option" where
  "or_else x y = (if str_set x then x else y)"

text \<open>\<open>str(n)\<close> of a natural number, in decimal.\<close>

fun nat_str :: "nat \<Rightarrow> string" where
  "nat_str n =
     (if n < 10 then [char_of (n + 48)] else nat_str (n div 10) @ [char_of (n mod 10 + 48)])"

declare nat_str.simps [simp del]

text \<open>The separator \<open>\x1f\<close> of the joined identities that are hashed.\<close>

definition unit_sep :: char where
  "unit_sep = CHR 0x1F"

fun join_us :: "string list \<Rightarrow> string" where
  "join_us [] = []"
| "join_us [s] = s"
| "join_us (s # t # ss) = s @ unit_sep # join_us (t # ss)"

lemma split_at_sep:
  "c \<notin> set a \<Longrightarrow> c \<notin> set a' \<Longrightarrow> a @ c # r = a' @ c # r' \<longleftrightarrow> a = a' \<and> r = r'"
proof (induction a arbitrary: a')
  case Nil
  then show ?case by (cases a') auto
next
  case (Cons x a)
  then show ?case by (cases a') auto
qed

text \<open>Joining is injective on lists of equal length whose parts avoid the separator.\<close>

lemma join_us_inject:
  assumes "length xs = length ys" "\<forall>s\<in>set xs. unit_sep \<notin> set s" "\<forall>s\<in>set ys. unit_sep \<notin> set s"
    "join_us xs = join_us ys"
  shows "xs = ys"
  using assms
proof (induction xs arbitrary: ys rule: join_us.induct)
  case 1
  then show ?case by simp
next
  case (2 s)
  then obtain y where "ys = [y]" by (cases ys) auto
  with 2 show ?case by simp
next
  case (3 s t ss)
  then obtain s' t' ss' where ys: "ys = s' # t' # ss'"
    by (metis Suc_length_conv)
  with 3 have "s = s'" and rest: "join_us (t # ss) = join_us (t' # ss')"
    by (simp_all add: split_at_sep)
  moreover have "t # ss = t' # ss'"
    using "3.prems" ys by (intro "3.IH"[OF _ _ _ rest]) simp_all
  ultimately show ?case using ys by simp
qed

subsection \<open>JSON values\<close>

datatype json =
    JNull
  | JBool bool
  | JNum int
  | JStr string
  | JList "json list"
  | JObj "(string \<times> json) list"

fun is_obj :: "json \<Rightarrow> bool" where
  "is_obj (JObj _) = True"
| "is_obj _ = False"

fun obj_items :: "json \<Rightarrow> (string \<times> json) list" where
  "obj_items (JObj kvs) = kvs"
| "obj_items _ = []"

text \<open>Python's truth value of a JSON value.\<close>

fun truthy :: "json \<Rightarrow> bool" where
  "truthy JNull = False"
| "truthy (JBool b) = b"
| "truthy (JNum n) = (n \<noteq> 0)"
| "truthy (JStr s) = (s \<noteq> [])"
| "truthy (JList xs) = (xs \<noteq> [])"
| "truthy (JObj kvs) = (kvs \<noteq> [])"

text \<open>
  Python's \<open>==\<close> on JSON values: dictionaries compare without regard to insertion order, and
  the booleans equal the integers 0 and 1. \<open>py_eq\<close> adds the identity short cut that makes
  equality reflexive on every value.
\<close>

fun json_eq :: "json \<Rightarrow> json \<Rightarrow> bool"
  and json_eq_list :: "json list \<Rightarrow> json list \<Rightarrow> bool"
  and json_eq_obj :: "(string \<times> json) list \<Rightarrow> (string \<times> json) list \<Rightarrow> bool" where
  "json_eq JNull y = (y = JNull)"
| "json_eq (JBool b) y = (y = JBool b \<or> y = JNum (if b then 1 else 0))"
| "json_eq (JNum n) y = (y = JNum n \<or> y = JBool True \<and> n = 1 \<or> y = JBool False \<and> n = 0)"
| "json_eq (JStr s) y = (y = JStr s)"
| "json_eq (JList xs) y = (case y of JList ys \<Rightarrow> json_eq_list xs ys | _ \<Rightarrow> False)"
| "json_eq (JObj kvs) y =
     (case y of JObj kws \<Rightarrow> length kvs = length kws \<and> json_eq_obj kvs kws | _ \<Rightarrow> False)"
| "json_eq_list [] ys = (ys = [])"
| "json_eq_list (x # xs) ys =
     (case ys of [] \<Rightarrow> False | y # ys' \<Rightarrow> json_eq x y \<and> json_eq_list xs ys')"
| "json_eq_obj [] kws = True"
| "json_eq_obj ((k, v) # kvs) kws =
     (case dget kws k of None \<Rightarrow> False | Some w \<Rightarrow> json_eq v w \<and> json_eq_obj kvs kws)"

definition py_eq :: "json \<Rightarrow> json \<Rightarrow> bool" where
  "py_eq x y \<longleftrightarrow> x = y \<or> json_eq x y"

definition py_eq_opt :: "json option \<Rightarrow> json option \<Rightarrow> bool" where
  "py_eq_opt x y = (case (x, y) of (None, None) \<Rightarrow> True | (Some a, Some b) \<Rightarrow> py_eq a b | _ \<Rightarrow> False)"

lemma py_eq_refl [simp]: "py_eq x x"
  by (simp add: py_eq_def)

lemma py_eq_opt_refl [simp]: "py_eq_opt x x"
  by (simp add: py_eq_opt_def split: option.splits)

subsection \<open>Records filed under their own identifier\<close>

definition filed :: "('v \<Rightarrow> 'k) \<Rightarrow> ('k, 'v) dict \<Rightarrow> bool" where
  "filed key d \<longleftrightarrow> dict_ok d \<and> (\<forall>k v. dget d k = Some v \<longrightarrow> key v = k)"

definition put_all :: "('v \<Rightarrow> 'k) \<Rightarrow> 'v list \<Rightarrow> ('k, 'v) dict \<Rightarrow> ('k, 'v) dict" where
  "put_all key vs d = fold (\<lambda>v. dput (key v) v) vs d"

lemma put_all_simps [simp]:
  "put_all key [] d = d"
  "put_all key (v # vs) d = put_all key vs (dput (key v) v d)"
  by (simp_all add: put_all_def)

lemma filedD: "filed key d \<Longrightarrow> dget d k = Some v \<Longrightarrow> key v = k"
  by (simp add: filed_def)

lemma filed_dict_ok: "filed key d \<Longrightarrow> dict_ok d"
  by (simp add: filed_def)

lemma filed_Nil [simp]: "filed key []"
  by (simp add: filed_def)

lemma filed_dput [intro]: "filed key d \<Longrightarrow> key v = k \<Longrightarrow> filed key (dput k v d)"
  by (auto simp: filed_def)

lemma filed_put_all [intro]: "filed key d \<Longrightarrow> filed key (put_all key vs d)"
  by (induction vs arbitrary: d) auto

lemma filed_get: "filed key d \<Longrightarrow> v \<in> set (dvalues d) \<Longrightarrow> dget d (key v) = Some v"
  by (metis filedD filed_dict_ok in_values_dget)

lemma filed_values: "filed key d \<Longrightarrow> v \<in> set (dvalues d) \<longleftrightarrow> dget d (key v) = Some v"
  by (meson dget_in_values filed_get)

lemma filed_keys: "filed key d \<Longrightarrow> map key (dvalues d) = map fst d"
proof (induction d)
  case Nil
  then show ?case by simp
next
  case (Cons p d)
  obtain k v where p: "p = (k, v)" by (cases p)
  have "filed key d"
    unfolding filed_def
  proof (intro conjI allI impI)
    show "dict_ok d" using Cons.prems p by (simp add: filed_def)
    fix j w
    assume w: "dget d j = Some w"
    then have "j \<noteq> k" using Cons.prems p by (force simp: filed_def dest: map_of_SomeD)
    with w show "key w = j" using filedD[OF Cons.prems, of j w] p by simp
  qed
  moreover have "key v = k" using filedD[OF Cons.prems, of k v] p by simp
  ultimately show ?case using Cons.IH p by simp
qed

lemma filed_distinct: "filed key d \<Longrightarrow> distinct (map key (dvalues d))"
  using filed_dict_ok[of key d] by (simp only: filed_keys dict_ok_def)

lemma dget_put_all:
  "distinct (map key vs) \<Longrightarrow>
   dget (put_all key vs d) k = (case find (\<lambda>v. key v = k) vs of None \<Rightarrow> dget d k | Some v \<Rightarrow> Some v)"
proof (induction vs arbitrary: d)
  case Nil
  then show ?case by simp
next
  case (Cons v vs)
  have "find (\<lambda>x. key x = k) vs = None" if "key v = k"
  proof -
    have "k \<notin> key ` set vs" using Cons.prems that by simp
    then show ?thesis unfolding find_None_iff by (metis image_eqI)
  qed
  with Cons show ?case by (auto split: option.splits)
qed

text \<open>The values of a dictionary changed in place by an update that keeps their identifiers.\<close>

lemma dget_put_all_map:
  assumes d: "filed key d" and f: "\<And>v. key (f v) = key v"
  shows "dget (put_all key (map f (filter P (dvalues d))) d) k =
    map_option (\<lambda>v. if P v then f v else v) (dget d k)"
proof -
  let ?vs = "map f (filter P (dvalues d))"
  have dist: "distinct (map key ?vs)"
    using filed_distinct[OF d] f by (simp add: distinct_map_filter comp_def)
  show ?thesis
  proof (cases "find (\<lambda>v. key v = k) ?vs")
    case None
    then have "\<not> P v" if "dget d k = Some v" for v
      using that f filedD[OF d that] dget_in_values[OF that] by (auto simp: find_None_iff)
    then show ?thesis using dget_put_all[OF dist, of d k] None by (cases "dget d k") auto
  next
    case (Some w)
    then have "w \<in> set ?vs" "key w = k" by (auto dest: find_Some_D)
    then obtain v where m: "v \<in> set (filter P (dvalues d))" "w = f v"
      unfolding set_map[of f] by blast
    then have v: "v \<in> set (dvalues d)" "P v" "key v = k"
      using f \<open>key w = k\<close> unfolding set_filter by simp_all
    with filed_get[OF d v(1)] show ?thesis using dget_put_all[OF dist, of d k] Some m(2) by simp
  qed
qed

text \<open>The least element of a filtered dictionary, as \<open>sorted(\<dots>)[0]\<close> computes it.\<close>

lemma arg_min_filter:
  fixes f :: "'v \<Rightarrow> 'b::linorder"
  assumes "filter P xs \<noteq> []"
  shows "arg_min_list f (filter P xs) \<in> set xs" "P (arg_min_list f (filter P xs))"
    "x \<in> set xs \<Longrightarrow> P x \<Longrightarrow> f (arg_min_list f (filter P xs)) \<le> f x"
proof -
  have "arg_min_list f (filter P xs) \<in> set (filter P xs)" using assms by (rule arg_min_list_in)
  then show "arg_min_list f (filter P xs) \<in> set xs" "P (arg_min_list f (filter P xs))" by auto
  assume "x \<in> set xs" "P x"
  then have "x \<in> set (filter P xs)" by simp
  then show "f (arg_min_list f (filter P xs)) \<le> f x"
    using f_arg_min_list_f[OF assms, of f] by (simp del: set_filter)
qed

lemma dvalues_dput_new: "dget d k = None \<Longrightarrow> dvalues (dput k v d) = dvalues d @ [v]"
  by (induction d) (auto split: if_splits)

lemma keys_put_all:
  "set (map key vs) \<subseteq> fst ` set d \<Longrightarrow> map fst (put_all key vs d) = map fst d"
proof (induction vs arbitrary: d)
  case (Cons v vs)
  then have "key v \<in> fst ` set d" by simp
  then have k: "map fst (dput (key v) v d) = map fst d" by (simp add: update_keys)
  then have "fst ` set (dput (key v) v d) = fst ` set d" by (metis list.set_map)
  with Cons.IH[of "dput (key v) v d"] Cons.prems k show ?case by simp
qed simp

lemma dvalues_put_all_map:
  assumes d: "filed key d" and f: "\<And>v. key (f v) = key v"
  shows "dvalues (put_all key (map f (filter P (dvalues d))) d) = map (\<lambda>v. if P v then f v else v) (dvalues d)"
proof -
  let ?e = "put_all key (map f (filter P (dvalues d))) d" and ?g = "\<lambda>v. if P v then f v else v"
  have keys: "map fst ?e = map fst d"
  proof (rule keys_put_all)
    have "key v \<in> fst ` set d" if "v \<in> set (dvalues d)" for v
      using filed_get[OF d that] by (metis map_of_eq_None_iff option.distinct(1))
    then show "set (map key (map f (filter P (dvalues d)))) \<subseteq> fst ` set d" using f by auto
  qed
  have dist: "distinct (map fst ?e)" using keys filed_dict_ok[OF d] by (simp add: dict_ok_def)
  have new: "map (dget ?e) (map fst d) = map (Some \<circ> ?g) (dvalues d)"
  proof -
    have "dget ?e k = Some (?g v)" if "(k, v) \<in> set d" for k v
      using that filed_dict_ok[OF d] dget_put_all_map[OF d f, of P k] by (simp add: dict_ok_def)
    then show ?thesis by (auto simp: comp_def)
  qed
  have old: "map (dget ?e) (map fst ?e) = map Some (dvalues ?e)"
  proof -
    have "dget ?e k = Some v" if "(k, v) \<in> set ?e" for k v
      using that dist by (simp add: map_of_is_SomeI)
    then show ?thesis by auto
  qed
  have "map Some (dvalues ?e) = map (dget ?e) (map fst ?e)" by (rule old[symmetric])
  also have "\<dots> = map (dget ?e) (map fst d)" by (simp only: keys)
  also have "\<dots> = map (Some \<circ> ?g) (dvalues d)" by (rule new)
  finally have "map Some (dvalues ?e) = map Some (map ?g (dvalues d))" by simp
  then show ?thesis by (simp only: inj_map_eq_map[OF inj_Some])
qed

lemma sort_key_map: "sort_key f (map g xs) = map g (sort_key (f \<circ> g) xs)"
proof (induction xs)
  case (Cons x xs)
  have "insort_key f (g x) (map g ys) = map g (insort_key (f \<circ> g) x ys)" for ys
    by (induction ys) auto
  with Cons show ?case by (simp add: comp_def)
qed simp

lemma filter_map_if:
  "(\<And>v. P (g v) = P v) \<Longrightarrow> filter P (map (\<lambda>v. if P v then g v else v) vs) = map g (filter P vs)"
  by (induction vs) auto

end
