(* ===== verification/Plan_Model.thy ===== *)
theory Plan_Model
  imports Oir_Prelude
begin

text \<open>
  The plan schema (\<open>app/schemas/plans.py\<close>) and the pure functions on its steps that the plan
  service (\<open>app/services/plan_service.py\<close>), the plan executor
  (\<open>app/services/plan_executor.py\<close>) and the delegated-run stores
  (\<open>app/repositories/delegated_runs.py\<close>) share: validation of a plan with its cycle check, the
  transition table of a step, the choice of the next step and the derived plan status.
\<close>

subsection \<open>Data\<close>

datatype plan_status = Pending | Running | Blocked | Completed | Failed | Cancelled

type_synonym step_status = plan_status

datatype execution_policy = Return_Plan_Only | Require_Confirmation | Auto_Execute | Host_Managed

datatype next_action_type =
  Confirm_Plan | Open_Ui | Collect_Input | Wait_For_Agent_Event | No_Action

record artifact_ref =
  ar_id :: ident
  ar_type :: string
  ar_uri :: string
  ar_title :: "string option"
  ar_metadata :: json

record plan_step =
  st_id :: ident
  st_agent :: ident
  st_description :: string
  st_status :: step_status
  st_depends_on :: "ident list"
  st_artifacts :: "artifact_ref list"

record next_action =
  na_type :: next_action_type
  na_message :: string
  na_agent :: "ident option"
  na_plan :: "ident option"
  na_step :: "ident option"
  na_route :: "string option"
  na_params :: json
  na_metadata :: json

record plan =
  pl_id :: ident
  pl_user :: ident
  pl_tenant :: ident
  pl_session :: "ident option"
  pl_status :: plan_status
  pl_current :: "ident option"
  pl_policy :: "execution_policy option"
  pl_next_action :: "next_action option"
  pl_last_event :: "ident option"
  pl_version :: nat
  pl_updated :: time
  pl_formation :: string
  pl_steps :: "plan_step list"

datatype plan_error =
    Field_Constraint
  | Duplicate_Step_Ids
  | Unknown_Dependencies ident "ident list"
  | Cyclic_Dependencies
  | Unknown_Current_Step
  | Graph_Key_Error ident
  | Out_Of_Fuel
  | Illegal_Transition step_status step_status
  | Event_Status_Conflict
  | No_Ready_Step

type_synonym dep_graph = "(ident, ident list) dict"

subsection \<open>Queries on steps\<close>

definition step_ids :: "plan_step list \<Rightarrow> ident list" where
  "step_ids ss = map st_id ss"

definition completed_ids :: "plan_step list \<Rightarrow> ident set" where
  "completed_ids ss = set (map st_id (filter (\<lambda>s. st_status s = Completed) ss))"

definition deps_met :: "plan_step list \<Rightarrow> plan_step \<Rightarrow> bool" where
  "deps_met ss s \<longleftrightarrow> (\<forall>d\<in>set (st_depends_on s). d \<in> completed_ids ss)"

definition is_ready :: "plan_step list \<Rightarrow> plan_step \<Rightarrow> bool" where
  "is_ready ss s \<longleftrightarrow> st_status s = Pending \<and> deps_met ss s"

definition set_step_status :: "ident \<Rightarrow> step_status \<Rightarrow> plan_step list \<Rightarrow> plan_step list" where
  "set_step_status i st ss = map (\<lambda>s. if st_id s = i then s\<lparr>st_status := st\<rparr> else s) ss"

definition active_statuses :: "plan_status set" where
  "active_statuses = {Pending, Running, Blocked}"

definition terminal_statuses :: "plan_status set" where
  "terminal_statuses = {Completed, Failed, Cancelled}"

subsection \<open>The cycle check: depth-first search with an explicit stack set\<close>

text \<open>
  \<open>visit\<close> threads the two Python sets \<open>visiting\<close> and \<open>visited\<close>. Each nested call enters a node
  that was not in \<open>visiting\<close>, so one unit of fuel per node of the graph is enough
  (\<open>validate_no_cycles\<close> gives one more; \<open>Out_Of_Fuel\<close> is shown unreachable below). A dictionary
  lookup of an unknown node is Python's \<open>KeyError\<close>. The order in which a Python set is iterated
  does not matter for the outcome; the list order is used.
\<close>

type_synonym dfs_state = "ident set \<times> ident set"

function (sequential) visit :: "dep_graph \<Rightarrow> nat \<Rightarrow> ident \<Rightarrow> dfs_state \<Rightarrow> plan_error + dfs_state"
  and visit_each :: "dep_graph \<Rightarrow> nat \<Rightarrow> ident list \<Rightarrow> dfs_state \<Rightarrow> plan_error + dfs_state" where
  "visit g fuel node (visiting, visited) =
     (if node \<in> visited then Inr (visiting, visited)
      else if node \<in> visiting then Inl Cyclic_Dependencies
      else case fuel of
        0 \<Rightarrow> Inl Out_Of_Fuel
      | Suc fuel' \<Rightarrow>
          (case dget g node of
             None \<Rightarrow> Inl (Graph_Key_Error node)
           | Some parents \<Rightarrow>
               (case visit_each g fuel' parents (insert node visiting, visited) of
                  Inl e \<Rightarrow> Inl e
                | Inr (visiting', visited') \<Rightarrow>
                    Inr (visiting' - {node}, insert node visited'))))"
| "visit_each g fuel [] s = Inr s"
| "visit_each g fuel (p # ps) s =
     (case visit g fuel p s of Inl e \<Rightarrow> Inl e | Inr s' \<Rightarrow> visit_each g fuel ps s')"
  by pat_completeness auto
termination
  by (relation "measures [\<lambda>x. case x of Inl (_, f, _, _) \<Rightarrow> f | Inr (_, f, _, _) \<Rightarrow> f,
                          \<lambda>x. case x of Inl _ \<Rightarrow> 0 | Inr (_, _, ps, _) \<Rightarrow> Suc (length ps)]") auto

definition validate_no_cycles :: "dep_graph \<Rightarrow> plan_error + unit" where
  "validate_no_cycles g =
     (case visit_each g (Suc (length g)) (map fst g) ({}, {}) of
        Inl e \<Rightarrow> Inl e
      | Inr _ \<Rightarrow> Inr ())"

definition plan_graph :: "plan_step list \<Rightarrow> dep_graph" where
  "plan_graph ss = map (\<lambda>s. (st_id s, st_depends_on s)) ss"

subsection \<open>Validation of a plan\<close>

fun first_unknown :: "ident set \<Rightarrow> plan_step list \<Rightarrow> plan_error + unit" where
  "first_unknown known [] = Inr ()"
| "first_unknown known (s # ss) =
     (let unknown = filter (\<lambda>d. d \<notin> known) (st_depends_on s)
      in if unknown \<noteq> [] then Inl (Unknown_Dependencies (st_id s) unknown)
         else first_unknown known ss)"

definition derive_current :: "plan \<Rightarrow> ident option" where
  "derive_current p =
     (if \<not> str_set (pl_current p) \<and> pl_status p \<in> active_statuses then
        (case find (is_ready (pl_steps p)) (pl_steps p) of
           Some s \<Rightarrow> Some (st_id s)
         | None \<Rightarrow>
             (case find (\<lambda>s. st_status s \<in> {Running, Blocked}) (pl_steps p) of
                Some s \<Rightarrow> Some (st_id s)
              | None \<Rightarrow> None))
      else pl_current p)"

definition validate_steps :: "plan \<Rightarrow> plan_error + plan" where
  "validate_steps p =
     (let ids = step_ids (pl_steps p); known = set ids
      in ebind (ensure Duplicate_Step_Ids (distinct ids)) (\<lambda>_.
         ebind (first_unknown known (pl_steps p)) (\<lambda>_.
         ebind (validate_no_cycles (plan_graph (pl_steps p))) (\<lambda>_.
         ebind (ensure Unknown_Current_Step
                  (\<not> (str_set (pl_current p) \<and> the (pl_current p) \<notin> known))) (\<lambda>_.
         let p1 = p\<lparr>pl_current := derive_current p\<rparr>
         in Inr (if pl_status p1 \<in> terminal_statuses then p1\<lparr>pl_current := None\<rparr> else p1))))))"

text \<open>
  The field constraints of \<open>Plan\<close>, \<open>PlanStep\<close> and \<open>ArtifactRef\<close>, checked before the validator runs.
\<close>

definition plan_fields_ok :: "plan \<Rightarrow> bool" where
  "plan_fields_ok p \<longleftrightarrow>
     pl_id p \<noteq> [] \<and> pl_user p \<noteq> [] \<and> pl_tenant p \<noteq> [] \<and> length (pl_formation p) \<le> 32 \<and>
     pl_steps p \<noteq> [] \<and>
     list_all (\<lambda>s. st_id s \<noteq> [] \<and> st_agent s \<noteq> [] \<and> st_description s \<noteq> [] \<and>
       list_all (\<lambda>a. ar_id a \<noteq> [] \<and> ar_uri a \<noteq> []) (st_artifacts s)) (pl_steps p)"

definition construct_plan :: "plan \<Rightarrow> plan_error + plan" where
  "construct_plan p = ebind (ensure Field_Constraint (plan_fields_ok p)) (\<lambda>_. validate_steps p)"

subsection \<open>Step transitions\<close>

fun allowed_steps :: "step_status \<Rightarrow> step_status set" where
  "allowed_steps Pending = {Pending, Running, Blocked, Completed, Failed, Cancelled}"
| "allowed_steps Running = {Running, Blocked, Completed, Failed, Cancelled}"
| "allowed_steps Blocked = {Running, Blocked, Completed, Failed, Cancelled}"
| "allowed_steps _ = {}"

definition advance_step_status :: "step_status \<Rightarrow> step_status \<Rightarrow> plan_error + step_status" where
  "advance_step_status current proposed =
     (if current \<in> terminal_statuses then Inr current
      else if current = Blocked \<and> proposed = Running then Inr current
      else if proposed = Pending \<and> current \<noteq> Pending then Inr current
      else if proposed \<notin> allowed_steps current then Inl (Illegal_Transition current proposed)
      else Inr proposed)"

subsection \<open>The next step and the derived plan status\<close>

text \<open>\<open>_next_step_id\<close> of the plan service: the ready test comes first.\<close>

definition next_step_id :: "plan_step list \<Rightarrow> ident option" where
  "next_step_id ss =
     map_option st_id
       (find (\<lambda>s. is_ready ss s \<or> st_status s \<in> {Running, Blocked, Failed}) ss)"

text \<open>\<open>_plan_status\<close> of the plan service.\<close>

definition plan_status_of :: "plan_step list \<Rightarrow> ident option \<Rightarrow> plan_status" where
  "plan_status_of ss current =
     (if \<exists>s\<in>set ss. st_status s = Cancelled then Cancelled
      else if \<exists>s\<in>set ss. st_status s = Failed then Failed
      else if \<exists>s\<in>set ss. st_status s = Blocked then Blocked
      else if \<forall>s\<in>set ss. st_status s = Completed then Completed
      else if str_set current then Running
      else Pending)"

text \<open>\<open>_plan_state_after_completion\<close> of the delegated-run stores.\<close>

definition plan_state_after_completion ::
    "plan_step list \<Rightarrow> plan_error + plan_status \<times> ident option" where
  "plan_state_after_completion ss =
     (if \<forall>s\<in>set ss. st_status s = Completed then Inr (Completed, None)
      else case find (\<lambda>s. st_status s = Failed) ss of
        Some s \<Rightarrow> Inr (Failed, None)
      | None \<Rightarrow>
          (case find (\<lambda>s. st_status s = Blocked) ss of
             Some s \<Rightarrow> Inr (Blocked, Some (st_id s))
           | None \<Rightarrow>
               (case find (\<lambda>s. st_status s = Running) ss of
                  Some s \<Rightarrow> Inr (Running, Some (st_id s))
                | None \<Rightarrow>
                    (case find (is_ready ss) ss of
                       Some s \<Rightarrow> Inr (Running, Some (st_id s))
                     | None \<Rightarrow> Inl No_Ready_Step))))"

subsection \<open>The cycle check is sound and complete\<close>

definition dep_rel :: "dep_graph \<Rightarrow> (ident \<times> ident) set" where
  "dep_rel g = {(n, p). \<exists>ps. dget g n = Some ps \<and> p \<in> set ps}"

definition graph_closed :: "dep_graph \<Rightarrow> bool" where
  "graph_closed g \<longleftrightarrow> (\<forall>(n, p)\<in>dep_rel g. dget g p \<noteq> None)"

definition explored :: "dep_graph \<Rightarrow> ident set \<Rightarrow> bool" where
  "explored g V \<longleftrightarrow>
     (\<forall>n\<in>V. \<exists>ps. dget g n = Some ps \<and> set ps \<subseteq> V) \<and> acyclic (dep_rel g \<inter> V \<times> UNIV)"

lemma acyclic_add_source:
  assumes "acyclic R" "R \<subseteq> V \<times> V" "n \<notin> V" "S \<subseteq> V"
  shows "acyclic (R \<union> {n} \<times> S)"
proof -
  have stay: "(x, y) \<in> R\<^sup>+ \<and> y \<in> V" if "(x, y) \<in> (R \<union> {n} \<times> S)\<^sup>+" "x \<in> V" for x y
    using that
  proof (induction rule: trancl_induct)
    case (base y)
    with assms show ?case by auto
  next
    case (step y z)
    with assms show ?case by (auto intro: trancl_into_trancl)
  qed
  show ?thesis
    unfolding acyclic_def
  proof (intro allI notI)
    fix x
    assume loop: "(x, x) \<in> (R \<union> {n} \<times> S)\<^sup>+"
    then have "x \<in> V" using assms by (auto elim: tranclE)
    with loop stay assms(1) show False by (auto simp: acyclic_def)
  qed
qed

lemma explored_insert:
  assumes "explored g V" "dget g n = Some ps" "set ps \<subseteq> V" "n \<notin> V"
  shows "explored g (insert n V)"
proof -
  have "dep_rel g \<inter> insert n V \<times> UNIV = (dep_rel g \<inter> V \<times> UNIV) \<union> {n} \<times> set ps"
    using assms(2) by (auto simp: dep_rel_def)
  moreover have "dep_rel g \<inter> V \<times> UNIV \<subseteq> V \<times> V"
    using assms(1) by (fastforce simp: explored_def dep_rel_def)
  ultimately have "acyclic (dep_rel g \<inter> insert n V \<times> UNIV)"
    using assms acyclic_add_source[of "dep_rel g \<inter> V \<times> UNIV" V n "set ps"]
    by (simp add: explored_def)
  with assms show ?thesis by (fastforce simp: explored_def)
qed

lemma visit_sound:
  "visit g fuel n (vg, vd) = Inr (vg', vd') \<Longrightarrow> vg \<inter> vd = {} \<Longrightarrow> explored g vd \<Longrightarrow>
     vg' = vg \<and> vd \<subseteq> vd' \<and> n \<in> vd' \<and> vg \<inter> vd' = {} \<and> explored g vd'"
  "visit_each g fuel ps s = Inr s' \<Longrightarrow> fst s \<inter> snd s = {} \<Longrightarrow> explored g (snd s) \<Longrightarrow>
     fst s' = fst s \<and> snd s \<subseteq> snd s' \<and> set ps \<subseteq> snd s' \<and> fst s \<inter> snd s' = {} \<and>
     explored g (snd s')"
proof (induction g fuel n "(vg, vd)" and g fuel ps s arbitrary: vg vd vg' vd' and s'
    rule: visit_visit_each.induct)
  case (1 g fuel n vg vd)
  show ?case
  proof (cases "n \<in> vd")
    case True
    with "1.prems" show ?thesis by auto
  next
    case new: False
    then obtain f ps s1 where f: "fuel = Suc f" and nv: "n \<notin> vg" and ps: "dget g n = Some ps"
      and rec: "visit_each g f ps (insert n vg, vd) = Inr s1"
      and res: "vg' = fst s1 - {n}" "vd' = insert n (snd s1)"
      using "1.prems"(1) by (auto split: if_splits nat.splits option.splits sum.splits)
    have IH: "fst s1 = insert n vg \<and> vd \<subseteq> snd s1 \<and> set ps \<subseteq> snd s1 \<and>
        insert n vg \<inter> snd s1 = {} \<and> explored g (snd s1)"
      using "1.hyps"[OF new nv f ps rec] "1.prems"(2,3) new by simp
    then have "explored g (insert n (snd s1))"
      by (intro explored_insert[OF _ ps]) simp_all
    with IH res nv show ?thesis by (simp add: Int_insert_right subset_insertI2)
  qed
next
  case (2 g fuel s)
  then show ?case by auto
next
  case (3 g fuel p ps s)
  then obtain s1 where s1: "visit g fuel p s = Inr s1" and rest: "visit_each g fuel ps s1 = Inr s'"
    by (auto split: sum.splits)
  have a: "fst s1 = fst s \<and> snd s \<subseteq> snd s1 \<and> p \<in> snd s1 \<and> fst s \<inter> snd s1 = {} \<and>
      explored g (snd s1)"
    using "3.hyps"(1)[of "fst s" "snd s" "fst s1" "snd s1"] s1 "3.prems"(2,3) by simp
  with "3.hyps"(2)[OF s1 rest] show ?case by auto
qed

lemma visit_keeps_stack: "visit g fuel n (vg, vd) = Inr (vg', vd') \<Longrightarrow> vg' = vg"
  "visit_each g fuel ps s = Inr s' \<Longrightarrow> fst s' = fst s"
proof (induction g fuel n "(vg, vd)" and g fuel ps s arbitrary: vg vd vg' vd' and s'
    rule: visit_visit_each.induct)
  case (1 g fuel n vg vd)
  show ?case
  proof (cases "n \<in> vd")
    case True
    with "1.prems" show ?thesis by auto
  next
    case new: False
    then obtain f ps s1 where f: "fuel = Suc f" and nv: "n \<notin> vg" and ps: "dget g n = Some ps"
      and rec: "visit_each g f ps (insert n vg, vd) = Inr s1" and res: "vg' = fst s1 - {n}"
      using "1.prems"(1) by (auto split: if_splits nat.splits option.splits sum.splits)
    from "1.hyps"[OF new nv f ps rec] res nv show ?thesis by simp
  qed
next
  case (3 g fuel p ps s)
  then obtain s1 where s1: "visit g fuel p s = Inr s1" and rest: "visit_each g fuel ps s1 = Inr s'"
    by (auto split: sum.splits)
  with "3.hyps"(1)[of "fst s" "snd s" "fst s1" "snd s1"] "3.hyps"(2)[OF s1 rest] show ?case by simp
qed auto

lemma visit_complete:
  assumes acyc: "acyclic (dep_rel g)" and closed: "graph_closed g"
  shows "dget g n \<noteq> None \<Longrightarrow> card (dom (dget g) - vg) \<le> fuel \<Longrightarrow>
      (\<forall>v\<in>vg. (v, n) \<in> (dep_rel g)\<^sup>+) \<Longrightarrow> \<exists>s'. visit g fuel n (vg, vd) = Inr s'"
    and "(\<forall>p\<in>set ps. dget g p \<noteq> None) \<Longrightarrow> card (dom (dget g) - fst s) \<le> fuel \<Longrightarrow>
      (\<forall>p\<in>set ps. \<forall>v\<in>fst s. (v, p) \<in> (dep_rel g)\<^sup>+) \<Longrightarrow> \<exists>s'. visit_each g fuel ps s = Inr s'"
  using assms
proof (induction g fuel n "(vg, vd)" and g fuel ps s arbitrary: vg vd
    rule: visit_visit_each.induct)
  case (1 g fuel n vg vd)
  show ?case
  proof (cases "n \<in> vd")
    case True
    then show ?thesis by simp
  next
    case new: False
    have nv: "n \<notin> vg" using "1.prems"(3,4) by (auto simp: acyclic_def)
    from "1.prems"(1) obtain ps where ps: "dget g n = Some ps" by auto
    have fin: "finite (dom (dget g))" by (rule finite_dom_map_of)
    have "n \<in> dom (dget g) - vg" using ps nv by auto
    with fin have "card (dom (dget g) - insert n vg) < card (dom (dget g) - vg)"
      by (intro psubset_card_mono) auto
    with "1.prems"(2) obtain f where f: "fuel = Suc f"
      and bound: "card (dom (dget g) - insert n vg) \<le> f" by (cases fuel) auto
    have edge: "(n, p) \<in> dep_rel g" if "p \<in> set ps" for p
      using ps that by (auto simp: dep_rel_def)
    have "\<exists>s'. visit_each g f ps (insert n vg, vd) = Inr s'"
    proof (rule "1.hyps"[OF new nv f ps])
      show "\<forall>p\<in>set ps. dget g p \<noteq> None"
        using edge "1.prems"(5) by (fastforce simp: graph_closed_def)
      show "\<forall>p\<in>set ps. \<forall>v\<in>fst (insert n vg, vd). (v, p) \<in> (dep_rel g)\<^sup>+"
        using edge "1.prems"(3) by (auto intro: trancl_into_trancl)
    qed (use bound "1.prems" in auto)
    then show ?thesis using new nv f ps by fastforce
  qed
next
  case (2 g fuel s)
  then show ?case by simp
next
  case (3 g fuel p ps s)
  obtain s1 where s1: "visit g fuel p s = Inr s1"
    using "3.hyps"(1)[of "fst s" "snd s"] "3.prems" by auto
  have same: "fst s1 = fst s"
    using visit_keeps_stack(1)[of g fuel p "fst s" "snd s" "fst s1" "snd s1"] s1 by simp
  have "\<exists>s'. visit_each g fuel ps s1 = Inr s'"
    using "3.hyps"(2)[OF s1] "3.prems" same by simp
  with s1 show ?case by auto
qed

lemma validate_no_cycles_iff:
  assumes closed: "graph_closed g"
  shows "validate_no_cycles g = Inr () \<longleftrightarrow> acyclic (dep_rel g)"
proof
  assume ok: "validate_no_cycles g = Inr ()"
  then obtain s' where "visit_each g (Suc (length g)) (map fst g) ({}, {}) = Inr s'"
    by (auto simp: validate_no_cycles_def split: sum.splits)
  from visit_sound(2)[OF this] have all: "fst ` set g \<subseteq> snd s'" and ex: "explored g (snd s')"
    by (auto simp: explored_def acyclic_def)
  have "dep_rel g \<inter> snd s' \<times> UNIV = dep_rel g"
    using all by (force simp: dep_rel_def dest: map_of_SomeD)
  with ex show "acyclic (dep_rel g)" by (simp add: explored_def)
next
  assume acyc: "acyclic (dep_rel g)"
  have "card (dom (dget g)) \<le> length g"
    by (metis card_image_le card_length dom_map_of_conv_image_fst finite_set le_trans)
  then have "\<exists>s'. visit_each g (Suc (length g)) (map fst g) ({}, {}) = Inr s'"
    by (intro visit_complete(2)[OF acyc closed]) (auto simp: map_of_eq_None_iff)
  then show "validate_no_cycles g = Inr ()"
    by (auto simp: validate_no_cycles_def)
qed

subsection \<open>Well-formed steps\<close>

text \<open>
  What validation establishes and every later operation on a plan keeps: it only speaks of the
  identifiers and dependencies, so an update that leaves \<open>plan_graph\<close> alone preserves it.
\<close>

definition steps_wf :: "plan_step list \<Rightarrow> bool" where
  "steps_wf ss \<longleftrightarrow>
     distinct (step_ids ss) \<and> graph_closed (plan_graph ss) \<and> acyclic (dep_rel (plan_graph ss))"

lemma plan_graph_keys: "map fst (plan_graph ss) = step_ids ss"
  by (simp add: plan_graph_def step_ids_def)

lemma steps_wf_graph_cong: "plan_graph ss' = plan_graph ss \<Longrightarrow> steps_wf ss' \<longleftrightarrow> steps_wf ss"
  by (simp add: steps_wf_def flip: plan_graph_keys)

lemma dget_plan_graph:
  "distinct (step_ids ss) \<Longrightarrow>
     dget (plan_graph ss) i = Some ds \<longleftrightarrow> (\<exists>s\<in>set ss. st_id s = i \<and> st_depends_on s = ds)"
  by (auto simp: plan_graph_def step_ids_def comp_def)

lemma first_unknown_ok:
  "first_unknown known ss = Inr () \<longleftrightarrow> (\<forall>s\<in>set ss. set (st_depends_on s) \<subseteq> known)"
  by (induction ss) (auto simp: Let_def filter_empty_conv)

lemma graph_closed_plan_graph:
  assumes "distinct (step_ids ss)"
  shows "graph_closed (plan_graph ss) \<longleftrightarrow> (\<forall>s\<in>set ss. set (st_depends_on s) \<subseteq> set (step_ids ss))"
proof -
  have "dget (plan_graph ss) p \<noteq> None \<longleftrightarrow> p \<in> set (step_ids ss)" for p
    by (simp add: map_of_eq_None_iff flip: plan_graph_keys)
  moreover have "(n, p) \<in> dep_rel (plan_graph ss) \<longleftrightarrow>
      (\<exists>s\<in>set ss. st_id s = n \<and> p \<in> set (st_depends_on s))" for n p
    using dget_plan_graph[OF assms] by (auto simp: dep_rel_def)
  ultimately show ?thesis by (fastforce simp: graph_closed_def)
qed

lemma step_ids_graph_cong:
  assumes "plan_graph ss' = plan_graph ss"
  shows "step_ids ss' = step_ids ss"
  using assms by (metis plan_graph_keys)

lemma validate_steps_Inr_iff:
  "(\<exists>q. validate_steps p = Inr q) \<longleftrightarrow>
     steps_wf (pl_steps p) \<and>
     (str_set (pl_current p) \<longrightarrow> the (pl_current p) \<in> set (step_ids (pl_steps p)))"
proof -
  have "validate_no_cycles g = Inr u \<longleftrightarrow> validate_no_cycles g = Inr ()" for g and u :: unit
    by simp
  then show ?thesis
    unfolding validate_steps_def Let_def
    by (simp add: oir_elim steps_wf_def first_unknown_ok graph_closed_plan_graph
        validate_no_cycles_iff cong: conj_cong)
qed

lemma validate_steps_result:
  "validate_steps p = Inr q \<Longrightarrow> q = p\<lparr>pl_current := pl_current q\<rparr>"
  by (auto simp: validate_steps_def Let_def oir_elim)

lemma plan_graph_set_step_status [simp]:
  "plan_graph (set_step_status i st ss) = plan_graph ss"
  by (simp add: plan_graph_def set_step_status_def)

lemma steps_wf_set_step_status [simp]: "steps_wf (set_step_status i st ss) \<longleftrightarrow> steps_wf ss"
  by (rule steps_wf_graph_cong) simp

subsection \<open>Progress: an acyclic plan is never stuck\<close>

lemma finite_dep_rel: "finite (dep_rel g)"
proof -
  have "dep_rel g \<subseteq> fst ` set g \<times> (\<Union>ps\<in>snd ` set g. set ps)"
    by (force simp: dep_rel_def dest: map_of_SomeD)
  then show ?thesis by (rule finite_subset) simp
qed

lemma ready_step_exists:
  assumes wf: "steps_wf ss" and st: "\<forall>s\<in>set ss. st_status s \<in> {Pending, Completed}"
    and pend: "\<exists>s\<in>set ss. st_status s = Pending"
  shows "\<exists>s\<in>set ss. is_ready ss s"
proof -
  let ?r = "dep_rel (plan_graph ss)"
  let ?Q = "{i. \<exists>s\<in>set ss. st_id s = i \<and> st_status s = Pending}"
  have d: "distinct (step_ids ss)" and cl: "graph_closed (plan_graph ss)"
    using wf by (auto simp: steps_wf_def)
  have "wf (?r\<inverse>)"
    using finite_dep_rel wf by (auto simp: steps_wf_def intro: finite_acyclic_wf_converse)
  moreover from pend obtain i where "i \<in> ?Q" by blast
  ultimately obtain z where z: "z \<in> ?Q" and min: "\<And>p. (p, z) \<in> ?r\<inverse> \<Longrightarrow> p \<notin> ?Q"
    by (rule wfE_min) blast
  then obtain s where s: "s \<in> set ss" "st_id s = z" "st_status s = Pending" by blast
  have "d \<in> completed_ids ss" if dep: "d \<in> set (st_depends_on s)" for d
  proof -
    have "(z, d) \<in> ?r" using s dep dget_plan_graph[OF d] by (auto simp: dep_rel_def)
    with min have "d \<notin> ?Q" by blast
    moreover have "d \<in> set (step_ids ss)"
      using cl s dep by (auto simp: graph_closed_plan_graph[OF d])
    ultimately show ?thesis using st by (auto simp: step_ids_def completed_ids_def)
  qed
  with s show ?thesis by (auto simp: is_ready_def deps_met_def)
qed

lemma plan_state_after_completion_total:
  assumes "steps_wf ss" "\<forall>s\<in>set ss. st_status s \<noteq> Cancelled"
  shows "\<exists>r. plan_state_after_completion ss = Inr r"
proof (cases "\<forall>s\<in>set ss. st_status s \<in> {Pending, Completed}")
  case True
  show ?thesis
  proof (cases "\<exists>s\<in>set ss. st_status s = Pending")
    case True
    with ready_step_exists[OF assms(1)] \<open>\<forall>s\<in>set ss. st_status s \<in> {Pending, Completed}\<close>
    obtain s where "s \<in> set ss" "is_ready ss s" by blast
    then show ?thesis
      by (auto simp: plan_state_after_completion_def find_eq_None split: option.splits)
  next
    case False
    with True have "\<forall>s\<in>set ss. st_status s = Completed" by auto
    then show ?thesis by (simp add: plan_state_after_completion_def)
  qed
next
  case False
  with assms obtain s where "s \<in> set ss" "st_status s \<in> {Running, Blocked, Failed}"
    by (metis insert_iff plan_status.exhaust)
  then show ?thesis
    by (auto simp: plan_state_after_completion_def find_eq_None split: option.splits)
qed

lemma next_step_id_None:
  "next_step_id ss = None \<longleftrightarrow>
     (\<forall>s\<in>set ss. \<not> is_ready ss s \<and> st_status s \<notin> {Running, Blocked, Failed})"
  by (simp add: next_step_id_def find_eq_None)

lemma next_step_id_total:
  assumes "steps_wf ss" "\<forall>s\<in>set ss. st_status s \<noteq> Cancelled"
    "\<exists>s\<in>set ss. st_status s \<noteq> Completed"
  shows "\<exists>i. next_step_id ss = Some i"
proof (cases "\<forall>s\<in>set ss. st_status s \<in> {Pending, Completed}")
  case True
  with assms(3) have "\<exists>s\<in>set ss. st_status s = Pending" by auto
  with True ready_step_exists[OF assms(1)] have "\<exists>s\<in>set ss. is_ready ss s" by blast
  then have "next_step_id ss \<noteq> None" by (auto simp: next_step_id_None)
  then show ?thesis by simp
next
  case False
  with assms obtain s where "s \<in> set ss" "st_status s \<in> {Running, Blocked, Failed}"
    by (metis insert_iff plan_status.exhaust)
  then have "next_step_id ss \<noteq> None" unfolding next_step_id_None by blast
  then show ?thesis by simp
qed

lemma next_step_id_sound:
  "next_step_id ss = Some i \<Longrightarrow>
     \<exists>s\<in>set ss. st_id s = i \<and> (is_ready ss s \<or> st_status s \<in> {Running, Blocked, Failed})"
  by (auto simp: next_step_id_def dest!: find_Some_D)

subsection \<open>The step transition table\<close>

text \<open>The lattice of step states: a step only climbs, and a terminal state is final.\<close>

fun step_rank :: "step_status \<Rightarrow> nat" where
  "step_rank Pending = 0"
| "step_rank Running = 1"
| "step_rank Blocked = 2"
| "step_rank _ = 3"

definition join_status :: "step_status \<Rightarrow> step_status \<Rightarrow> step_status" where
  "join_status c p = (if step_rank c < step_rank p then p else c)"

lemma advance_step_status_join: "advance_step_status c p = Inr (join_status c p)"
  by (cases c; cases p) (simp_all add: advance_step_status_def terminal_statuses_def join_status_def)

lemma join_status_terminal [simp]: "c \<in> terminal_statuses \<Longrightarrow> join_status c p = c"
  by (cases p) (auto simp: terminal_statuses_def join_status_def)

lemma join_status_idem [simp]: "join_status (join_status c p) p = join_status c p"
  by (simp add: join_status_def)

lemma join_status_rank: "step_rank (join_status c p) = max (step_rank c) (step_rank p)"
  by (simp add: join_status_def)

lemma visit_only_cyclic:
  assumes closed: "graph_closed g"
  shows "dget g n \<noteq> None \<Longrightarrow> card (dom (dget g) - vg) \<le> fuel \<Longrightarrow>
      visit g fuel n (vg, vd) = Inl e \<Longrightarrow> e = Cyclic_Dependencies"
    and "(\<forall>p\<in>set ps. dget g p \<noteq> None) \<Longrightarrow> card (dom (dget g) - fst s) \<le> fuel \<Longrightarrow>
      visit_each g fuel ps s = Inl e \<Longrightarrow> e = Cyclic_Dependencies"
  using assms
proof (induction g fuel n "(vg, vd)" and g fuel ps s arbitrary: vg vd
    rule: visit_visit_each.induct)
  case (1 g fuel n vg vd)
  show ?case
  proof (cases "n \<in> vg")
    case True
    with "1.prems"(3) show ?thesis by (auto split: if_splits)
  next
    case nv: False
    have new: "n \<notin> vd" using "1.prems"(3) by auto
    from "1.prems"(1) obtain ps where ps: "dget g n = Some ps" by auto
    have "n \<in> dom (dget g) - vg" using ps nv by auto
    then have "card (dom (dget g) - insert n vg) < card (dom (dget g) - vg)"
      by (intro psubset_card_mono finite_Diff finite_dom_map_of) auto
    with "1.prems"(2) obtain f where f: "fuel = Suc f"
      and bound: "card (dom (dget g) - insert n vg) \<le> f" by (cases fuel) auto
    have "visit_each g f ps (insert n vg, vd) = Inl e"
      using "1.prems"(3) new nv f ps by (auto split: sum.splits)
    moreover have "\<forall>p\<in>set ps. dget g p \<noteq> None"
      using ps "1.prems"(4) by (fastforce simp: graph_closed_def dep_rel_def)
    ultimately show ?thesis using "1.hyps"[OF new nv f ps] bound "1.prems"(4) by simp
  qed
next
  case (2 g fuel s)
  then show ?case by simp
next
  case (3 g fuel p ps s)
  show ?case
  proof (cases "visit g fuel p s")
    case (Inl e')
    with "3.hyps"(1)[of "fst s" "snd s"] "3.prems" show ?thesis by simp
  next
    case (Inr s1)
    have "fst s1 = fst s"
      using visit_keeps_stack(1)[of g fuel p "fst s" "snd s" "fst s1" "snd s1"] Inr by simp
    with "3.hyps"(2)[OF Inr] "3.prems" Inr show ?thesis by simp
  qed
qed

lemma validate_no_cycles_error:
  assumes "graph_closed g" "validate_no_cycles g = Inl e"
  shows "e = Cyclic_Dependencies"
proof -
  have "card (dom (dget g)) \<le> length g"
    by (metis card_image_le card_length dom_map_of_conv_image_fst finite_set le_trans)
  then show ?thesis
    using visit_only_cyclic(2)[OF assms(1), of "map fst g" "({}, {})" "Suc (length g)" e] assms(2)
    by (auto simp: validate_no_cycles_def map_of_eq_None_iff split: sum.splits)
qed

end
