(* ===== verification/Knowledge_Sanitizer.thy ===== *)
theory Knowledge_Sanitizer
  imports Oir_Prelude
begin

text \<open>
  The persistence filter of \<open>app/schemas/knowledge_persistence.py\<close>: before a run, a result, an
  event or a log is stored, every object under the key \<open>knowledge_context\<close> is replaced by a
  projection that holds references only. The Python function raises \<open>TypeError\<close> when the status
  of a context is a list or an object (it looks an unhashable value up in a frozenset); that
  outcome is \<open>None\<close>.
\<close>

subsection \<open>The two regular expressions\<close>

definition lower_digits :: string where
  "lower_digits = ''abcdefghijklmnopqrstuvwxyz0123456789''"

definition alnum_chars :: string where
  "alnum_chars = ''ABCDEFGHIJKLMNOPQRSTUVWXYZ'' @ lower_digits"

text \<open>\<open>[A-Za-z0-9][A-Za-z0-9._:/-]{0,255}\<close>\<close>

definition ref_string :: "string \<Rightarrow> bool" where
  "ref_string s =
     (case s of
        [] \<Rightarrow> False
      | c # cs \<Rightarrow>
          c \<in> set alnum_chars \<and> length cs \<le> 255 \<and>
          list_all (\<lambda>d. d \<in> set (alnum_chars @ ''._:/-'')) cs)"

text \<open>\<open>[a-z][a-z0-9_.-]{0,63}\<close>\<close>

definition error_code_string :: "string \<Rightarrow> bool" where
  "error_code_string s =
     (case s of
        [] \<Rightarrow> False
      | c # cs \<Rightarrow>
          c \<in> set ''abcdefghijklmnopqrstuvwxyz'' \<and> length cs \<le> 63 \<and>
          list_all (\<lambda>d. d \<in> set (lower_digits @ ''_.-'')) cs)"

definition context_statuses :: "string set" where
  "context_statuses = {''disabled'', ''ok'', ''empty'', ''timeout'', ''error'', ''denied''}"

fun is_reference :: "json \<Rightarrow> bool" where
  "is_reference (JStr s) = ref_string s"
| "is_reference _ = False"

fun is_error_code :: "json \<Rightarrow> bool" where
  "is_error_code (JStr s) = error_code_string s"
| "is_error_code _ = False"

subsection \<open>The projection\<close>

definition jget :: "(string \<times> json) list \<Rightarrow> string \<Rightarrow> json" where
  "jget kvs k = (case dget kvs k of None \<Rightarrow> JNull | Some v \<Rightarrow> v)"

fun item_reference :: "json \<Rightarrow> json option" where
  "item_reference (JObj kvs) =
     (if is_reference (jget kvs ''item_id'') then
        Some (JObj ([(''item_id'', jget kvs ''item_id'')] @
          (if is_reference (jget kvs ''source_id'')
           then [(''source_id'', jget kvs ''source_id'')] else [])))
      else None)"
| "item_reference _ = None"

fun item_references :: "json \<Rightarrow> json list" where
  "item_references (JList xs) = List.map_filter item_reference xs"
| "item_references _ = []"

fun citation_reference :: "json \<Rightarrow> json option" where
  "citation_reference (JObj kvs) =
     (if is_reference (jget kvs ''source_id'')
      then Some (JObj [(''source_id'', jget kvs ''source_id'')]) else None)"
| "citation_reference _ = None"

fun citation_references :: "json \<Rightarrow> json list" where
  "citation_references (JList xs) = dedupe (List.map_filter citation_reference xs)"
| "citation_references _ = []"

fun references :: "json \<Rightarrow> json list" where
  "references (JList xs) = dedupe (filter is_reference xs)"
| "references _ = []"

fun error_codes :: "json \<Rightarrow> json list" where
  "error_codes (JList xs) = dedupe (filter is_error_code xs)"
| "error_codes _ = []"

text \<open>\<open>value in _CONTEXT_STATUSES\<close> needs a hashable value.\<close>

fun safe_status :: "json \<Rightarrow> json option" where
  "safe_status (JStr s) = Some (JStr (if s \<in> context_statuses then s else ''error''))"
| "safe_status (JList _) = None"
| "safe_status (JObj _) = None"
| "safe_status _ = Some (JStr ''error'')"

fun source_id_of :: "json \<Rightarrow> json option" where
  "source_id_of (JObj kvs) =
     (case jget kvs ''source_id'' of JStr s \<Rightarrow> Some (JStr s) | _ \<Rightarrow> None)"
| "source_id_of _ = None"

fun add_missing :: "json list \<Rightarrow> json list \<Rightarrow> json list" where
  "add_missing acc [] = acc"
| "add_missing acc (x # xs) =
     add_missing (case source_id_of x of
        None \<Rightarrow> acc
      | Some s \<Rightarrow> if s \<in> set acc then acc else acc @ [s]) xs"

definition trace_reference :: "(string \<times> json) list \<Rightarrow> json option" where
  "trace_reference kvs =
     (let inner = (case jget kvs ''metadata'' of
                     JObj meta \<Rightarrow> jget meta ''trace_id''
                   | _ \<Rightarrow> JNull)
      in if is_reference inner then Some inner
         else if is_reference (jget kvs ''trace_id'') then Some (jget kvs ''trace_id'')
         else None)"

definition projection_fields ::
    "json \<Rightarrow> json option \<Rightarrow> json list \<Rightarrow> json list \<Rightarrow> json list \<Rightarrow> bool \<Rightarrow> json list \<Rightarrow>
     (string \<times> json) list" where
  "projection_fields status trace items citations sources truncated errors =
     [(''status'', status)] @
     (case trace of None \<Rightarrow> [] | Some t \<Rightarrow> [(''trace_id'', t)]) @
     [(''item_count'', JNum (int (length items))),
      (''items'', JList items),
      (''citations'', JList citations),
      (''source_ids'', JList sources),
      (''truncated'', JBool truncated),
      (''errors'', JList errors)]"

definition knowledge_reference_projection ::
    "(string \<times> json) list \<Rightarrow> (string \<times> json) list option" where
  "knowledge_reference_projection kvs =
     (let items = item_references (jget kvs ''items'');
          citations = citation_references (jget kvs ''citations'');
          sources = add_missing (add_missing (references (jget kvs ''source_ids'')) items) citations
      in map_option
           (\<lambda>status. projection_fields status (trace_reference kvs) items citations sources
              (truthy (jget kvs ''truncated'')) (error_codes (jget kvs ''errors'')))
           (safe_status (jget kvs ''status'')))"

subsection \<open>The recursive filter\<close>

fun sanitize :: "json \<Rightarrow> json option"
  and sanitize_list :: "json list \<Rightarrow> json list option"
  and sanitize_items :: "(string \<times> json) list \<Rightarrow> (string \<times> json) list option" where
  "sanitize (JList xs) = map_option JList (sanitize_list xs)"
| "sanitize (JObj kvs) = map_option JObj (sanitize_items kvs)"
| "sanitize v = Some v"
| "sanitize_list [] = Some []"
| "sanitize_list (x # xs) =
     (case sanitize x of
        None \<Rightarrow> None
      | Some y \<Rightarrow> map_option (\<lambda>ys. y # ys) (sanitize_list xs))"
| "sanitize_items [] = Some []"
| "sanitize_items ((k, v) # kvs) =
     (case (if k = ''knowledge_context'' \<and> is_obj v
            then map_option JObj (knowledge_reference_projection (obj_items v))
            else sanitize v) of
        None \<Rightarrow> None
      | Some w \<Rightarrow> map_option (\<lambda>ws. (k, w) # ws) (sanitize_items kvs))"

text \<open>The validator on an optional field: \<open>None\<close> passes through.\<close>

definition sanitize_opt :: "json option \<Rightarrow> json option option" where
  "sanitize_opt v = (case v of None \<Rightarrow> Some None | Some x \<Rightarrow> map_option Some (sanitize x))"

text \<open>
  Specification: every object under the key \<open>knowledge_context\<close> holds only status words, references and
  error codes; no free text survives in it. A string or a list under that key is not constrained.
\<close>

fun safe_atom :: "json \<Rightarrow> bool"
  and safe_atoms :: "json list \<Rightarrow> bool"
  and safe_fields :: "(string \<times> json) list \<Rightarrow> bool" where
  "safe_atom (JStr s) = (ref_string s \<or> error_code_string s \<or> s \<in> context_statuses)"
| "safe_atom (JList xs) = safe_atoms xs"
| "safe_atom (JObj kvs) = safe_fields kvs"
| "safe_atom _ = True"
| "safe_atoms [] = True"
| "safe_atoms (x # xs) = (safe_atom x \<and> safe_atoms xs)"
| "safe_fields [] = True"
| "safe_fields ((k, v) # kvs) = (safe_atom v \<and> safe_fields kvs)"

fun context_objects_safe :: "json \<Rightarrow> bool"
  and context_objects_safe_list :: "json list \<Rightarrow> bool"
  and context_objects_safe_items :: "(string \<times> json) list \<Rightarrow> bool" where
  "context_objects_safe (JList xs) = context_objects_safe_list xs"
| "context_objects_safe (JObj kvs) = context_objects_safe_items kvs"
| "context_objects_safe _ = True"
| "context_objects_safe_list [] = True"
| "context_objects_safe_list (x # xs) = (context_objects_safe x \<and> context_objects_safe_list xs)"
| "context_objects_safe_items [] = True"
| "context_objects_safe_items ((k, v) # kvs) =
     ((if k = ''knowledge_context'' \<and> is_obj v then safe_atom v else context_objects_safe v)
      \<and> context_objects_safe_items kvs)"

subsection \<open>The projection is idempotent\<close>

lemma map_filter_idem:
  "(\<And>x y. f x = Some y \<Longrightarrow> f y = Some y) \<Longrightarrow>
     List.map_filter f (List.map_filter f xs) = List.map_filter f xs"
  by (induction xs) (auto simp: List.map_filter_simps split: option.splits)

lemma jget_simps [simp]:
  "jget [] k = JNull"
  "jget ((k', v) # kvs) k = (if k = k' then v else jget kvs k)"
  by (auto simp: jget_def)

lemma item_reference_idem: "item_reference x = Some y \<Longrightarrow> item_reference y = Some y"
  by (cases x) (auto split: if_splits)

lemma citation_reference_idem: "citation_reference x = Some y \<Longrightarrow> citation_reference y = Some y"
  by (cases x) (auto split: if_splits)

lemma item_references_idem: "item_references (JList (item_references v)) = item_references v"
  by (cases v) (simp_all add: List.map_filter_simps map_filter_idem[OF item_reference_idem])

lemma set_map_filter: "set (List.map_filter f xs) = {y. \<exists>x\<in>set xs. f x = Some y}"
  by (induction xs) (auto simp: List.map_filter_simps split: option.splits)

lemma map_filter_fixed: "\<forall>x\<in>set xs. f x = Some x \<Longrightarrow> List.map_filter f xs = xs"
  by (induction xs) (auto simp: List.map_filter_simps)

lemma citation_references_fixed:
  "x \<in> set (citation_references v) \<Longrightarrow> citation_reference x = Some x"
  by (cases v) (auto simp: set_map_filter citation_reference_idem)

lemma distinct_citation_references: "distinct (citation_references v)"
  by (cases v) simp_all

lemma citation_references_idem:
  "citation_references (JList (citation_references v)) = citation_references v"
  using citation_references_fixed distinct_citation_references
  by (simp add: map_filter_fixed dedupe_distinct)

lemma references_idem: "references (JList (references v)) = references v"
  by (cases v) (simp_all add: dedupe_distinct filter_id_conv)

lemma error_codes_idem: "error_codes (JList (error_codes v)) = error_codes v"
  by (cases v) (simp_all add: dedupe_distinct filter_id_conv)

lemma safe_status_idem: "safe_status v = Some w \<Longrightarrow> safe_status w = Some w"
  by (cases v) (auto simp: context_statuses_def)

lemma add_missing_covered:
  "\<forall>x\<in>set xs. \<forall>s. source_id_of x = Some s \<longrightarrow> s \<in> set acc \<Longrightarrow> add_missing acc xs = acc"
  by (induction xs arbitrary: acc) (auto split: option.splits)

lemma set_add_missing:
  "set (add_missing acc xs) = set acc \<union> {s. \<exists>x\<in>set xs. source_id_of x = Some s}"
  by (induction xs arbitrary: acc) (auto split: option.splits)

lemma distinct_add_missing: "distinct acc \<Longrightarrow> distinct (add_missing acc xs)"
  by (induction xs arbitrary: acc) (auto split: option.splits)

lemma source_id_item: "item_reference x = Some y \<Longrightarrow> source_id_of y = Some s \<Longrightarrow> is_reference s"
  by (cases x) (auto split: if_splits elim!: is_reference.elims)

lemma source_id_citation:
  "citation_reference x = Some y \<Longrightarrow> source_id_of y = Some s \<Longrightarrow> is_reference s"
  by (cases x) (auto split: if_splits elim!: is_reference.elims)

lemmas source_id_reference = source_id_item source_id_citation

lemma item_references_in: "y \<in> set (item_references v) \<Longrightarrow> \<exists>x. item_reference x = Some y"
  by (cases v) (auto simp: set_map_filter)

lemma distinct_references: "distinct (references v)"
  by (cases v) simp_all

lemma references_are: "x \<in> set (references v) \<Longrightarrow> is_reference x"
  by (cases v) auto

lemma sources_fixed:
  fixes v i c
  defines "src \<equiv> add_missing (add_missing (references v) (item_references i))
    (citation_references c)"
  shows "references (JList src) = src"
    and "add_missing (add_missing src (item_references i)) (citation_references c) = src"
proof -
  have "is_reference x" if "x \<in> set src" for x
    using that references_are source_id_reference item_references_in citation_references_fixed
    unfolding src_def set_add_missing by blast
  then show "references (JList src) = src"
    by (simp add: src_def dedupe_distinct distinct_add_missing distinct_references filter_id_conv)
  have "add_missing src (item_references i) = src"
    by (rule add_missing_covered) (auto simp: src_def set_add_missing)
  moreover have "add_missing src (citation_references c) = src"
    by (rule add_missing_covered) (auto simp: src_def set_add_missing)
  ultimately show "add_missing (add_missing src (item_references i)) (citation_references c) = src"
    by simp
qed

lemma trace_reference_ref: "trace_reference kvs = Some t \<Longrightarrow> is_reference t"
  by (auto simp: trace_reference_def Let_def split: if_splits)

lemma jget_projection:
  "jget (projection_fields st tr it ci so tc er) ''status'' = st"
  "jget (projection_fields st tr it ci so tc er) ''items'' = JList it"
  "jget (projection_fields st tr it ci so tc er) ''citations'' = JList ci"
  "jget (projection_fields st tr it ci so tc er) ''source_ids'' = JList so"
  "jget (projection_fields st tr it ci so tc er) ''truncated'' = JBool tc"
  "jget (projection_fields st tr it ci so tc er) ''errors'' = JList er"
  "jget (projection_fields st tr it ci so tc er) ''metadata'' = JNull"
  "jget (projection_fields st tr it ci so tc er) ''trace_id'' =
     (case tr of None \<Rightarrow> JNull | Some t \<Rightarrow> t)"
  by (auto simp: projection_fields_def split: option.splits)

lemma trace_reference_projection:
  "(\<And>t. tr = Some t \<Longrightarrow> is_reference t) \<Longrightarrow>
     trace_reference (projection_fields st tr it ci so tc er) = tr"
  by (auto simp: trace_reference_def jget_projection split: option.splits)

lemma projection_idem:
  assumes "knowledge_reference_projection kvs = Some ps"
  shows "knowledge_reference_projection ps = Some ps"
proof -
  from assms obtain st where st: "safe_status (jget kvs ''status'') = Some st"
    and ps: "ps = projection_fields st (trace_reference kvs) (item_references (jget kvs ''items''))
      (citation_references (jget kvs ''citations''))
      (add_missing (add_missing (references (jget kvs ''source_ids''))
        (item_references (jget kvs ''items''))) (citation_references (jget kvs ''citations'')))
      (truthy (jget kvs ''truncated'')) (error_codes (jget kvs ''errors''))"
    by (auto simp: knowledge_reference_projection_def Let_def)
  have "trace_reference ps = trace_reference kvs"
    unfolding ps by (rule trace_reference_projection) (rule trace_reference_ref)
  then show ?thesis
    using safe_status_idem[OF st]
    by (simp add: knowledge_reference_projection_def Let_def ps jget_projection sources_fixed
        item_references_idem citation_references_idem error_codes_idem
        del: item_references.simps citation_references.simps references.simps error_codes.simps)
qed

subsection \<open>The filter is idempotent and leaves no knowledge body\<close>

lemma is_obj_sanitize: "sanitize v = Some w \<Longrightarrow> is_obj w \<longleftrightarrow> is_obj v"
  by (cases v) auto

lemma sanitize_idem_all:
  "sanitize v = Some w \<Longrightarrow> sanitize w = Some w"
  "sanitize_list xs = Some ys \<Longrightarrow> sanitize_list ys = Some ys"
  "sanitize_items kvs = Some kws \<Longrightarrow> sanitize_items kws = Some kws"
  by (induction v and xs and kvs arbitrary: w and ys and kws
      rule: sanitize_sanitize_list_sanitize_items.induct)
    (auto simp: projection_idem dest: is_obj_sanitize split: if_splits option.splits)

lemma safe_atoms_iff: "safe_atoms xs \<longleftrightarrow> (\<forall>x\<in>set xs. safe_atom x)"
  by (induction xs) auto

lemma safe_atom_reference: "is_reference x \<Longrightarrow> safe_atom x" "is_error_code x \<Longrightarrow> safe_atom x"
  by (cases x; simp)+

lemma safe_atom_item:
  "item_reference x = Some y \<Longrightarrow> safe_atom y" "citation_reference x = Some y \<Longrightarrow> safe_atom y"
  by (cases x; auto split: if_splits simp: safe_atom_reference)+

lemma safe_atom_status: "safe_status v = Some w \<Longrightarrow> safe_atom w"
  by (cases v) (auto simp: context_statuses_def)

lemma safe_projection:
  assumes "knowledge_reference_projection kvs = Some ps"
  shows "safe_fields ps"
proof -
  have items: "safe_atoms (item_references v)" for v
    using item_references_in safe_atom_item(1) by (fastforce simp: safe_atoms_iff)
  have cites: "safe_atoms (citation_references v)" for v
    using citation_references_fixed safe_atom_item(2) by (fastforce simp: safe_atoms_iff)
  have sources: "safe_atoms (add_missing (add_missing (references v) (item_references i))
      (citation_references c))" for v i c
    using references_are source_id_reference item_references_in citation_references_fixed
    unfolding safe_atoms_iff set_add_missing by (blast intro: safe_atom_reference)
  have errs: "safe_atoms (error_codes v)" for v
    by (cases v) (auto simp: safe_atoms_iff safe_atom_reference)
  show ?thesis
    using assms items cites sources errs
    by (auto simp: knowledge_reference_projection_def Let_def projection_fields_def
        safe_atom_status safe_atom_reference dest: trace_reference_ref split: option.splits)
qed

lemma sanitize_objects_safe_all:
  "sanitize v = Some w \<Longrightarrow> context_objects_safe w"
  "sanitize_list xs = Some ys \<Longrightarrow> context_objects_safe_list ys"
  "sanitize_items kvs = Some kws \<Longrightarrow> context_objects_safe_items kws"
  by (induction v and xs and kvs arbitrary: w and ys and kws
      rule: sanitize_sanitize_list_sanitize_items.induct)
    (auto simp: safe_projection dest: is_obj_sanitize split: if_splits option.splits)

lemma sanitize_opt_idem: "sanitize_opt v = Some w \<Longrightarrow> sanitize_opt w = Some w"
  by (auto simp: sanitize_opt_def sanitize_idem_all(1) split: option.splits)

subsection \<open>The filter as a whole\<close>

fun no_knowledge :: "json \<Rightarrow> bool"
  and no_knowledge_list :: "json list \<Rightarrow> bool"
  and no_knowledge_items :: "(string \<times> json) list \<Rightarrow> bool" where
  "no_knowledge (JList xs) = no_knowledge_list xs"
| "no_knowledge (JObj kvs) = no_knowledge_items kvs"
| "no_knowledge _ = True"
| "no_knowledge_list [] = True"
| "no_knowledge_list (x # xs) = (no_knowledge x \<and> no_knowledge_list xs)"
| "no_knowledge_items [] = True"
| "no_knowledge_items ((k, v) # kvs) =
     (\<not> (k = ''knowledge_context'' \<and> is_obj v) \<and> no_knowledge v \<and> no_knowledge_items kvs)"

lemma sanitize_no_knowledge:
  "no_knowledge v \<Longrightarrow> sanitize v = Some v"
  "no_knowledge_list xs \<Longrightarrow> sanitize_list xs = Some xs"
  "no_knowledge_items kvs \<Longrightarrow> sanitize_items kvs = Some kvs"
  by (induction v and xs and kvs rule: sanitize_sanitize_list_sanitize_items.induct) auto

text \<open>
  The filter on persisted JSON leaves no knowledge body in an object. Whatever it accepts, the objects of
  the result under \<open>knowledge_context\<close> hold only status words, references and error codes, at every
  depth; filtering again changes nothing. It raises only when a status is not hashable: values
  without any \<open>knowledge_context\<close> object are always accepted and come back unchanged.
\<close>

theorem knowledge_filter_safe:
  "(\<forall>w. sanitize v = Some w \<longrightarrow> context_objects_safe w \<and> sanitize w = Some w) \<and>
   (no_knowledge v \<longrightarrow> sanitize v = Some v)"
  using sanitize_objects_safe_all(1) sanitize_idem_all(1) sanitize_no_knowledge(1) by blast

lemma knowledge_filter_safe_witness:
  "\<exists>w. sanitize (JObj [(''knowledge_context'', JObj [(''items'', JList [JObj [(''item_id'', JStr ''k1''),
       (''text'', JStr ''secret body'')]])])]) = Some w \<and> context_objects_safe w"
proof -
  obtain w where w: "sanitize (JObj [(''knowledge_context'', JObj [(''items'', JList [JObj
       [(''item_id'', JStr ''k1''), (''text'', JStr ''secret body'')]])])]) = Some w"
    by (simp add: knowledge_reference_projection_def Let_def jget_def)
  with knowledge_filter_safe show ?thesis by blast
qed

text \<open>
  A context body that is not an object is not recognised: text directly under the key, or in a list there,
  is stored as it was given.
\<close>

lemma knowledge_text_kept:
  "sanitize (JObj [(''knowledge_context'', JStr s)]) = Some (JObj [(''knowledge_context'', JStr s)])"
  "sanitize (JObj [(''knowledge_context'', JList [JObj [(''text'', JStr s)]])]) =
     Some (JObj [(''knowledge_context'', JList [JObj [(''text'', JStr s)]])])"
  by simp_all

end
