(* ===== verification/Store_Contracts.thy ===== *)
theory Store_Contracts
  imports Oir_Prelude
begin

text \<open>
  The contracts the repositories of the program share, as locales. A component's theory
  interprets them on its own operations; the client lemmas are proved here once.
  \<^item> \<open>owned_store\<close>: lookups scoped by tenant and user (plans, turns, runs, events);
  \<^item> \<open>versioned_store\<close>: optimistic concurrency, a write that succeeds only when the stored
    version is the expected one (plans and turns);
  \<^item> \<open>lease_store\<close>: exclusive claims with an expiry (execution tickets, plan steps, the turn
    outbox).
\<close>

subsection \<open>Owner-scoped lookups\<close>

text \<open>
  A lookup scoped by tenant and user answers with an entry exactly when the entry exists and is
  theirs. Every repository of the program offers such a lookup; the clients rely on it for
  isolation between principals.
\<close>

locale owned_store =
  fixes raw :: "'s \<Rightarrow> ident \<Rightarrow> 'v option"
    and scoped :: "'s \<Rightarrow> ident \<Rightarrow> ident \<Rightarrow> ident \<Rightarrow> 'v option"
    and tenant_of :: "'v \<Rightarrow> ident option"
    and user_of :: "'v \<Rightarrow> ident option"
  assumes scoped_iff:
    "scoped s k t u = Some v \<longleftrightarrow> raw s k = Some v \<and> tenant_of v = Some t \<and> user_of v = Some u"
begin

lemma scoped_owner: "scoped s k t u = Some v \<Longrightarrow> tenant_of v = Some t \<and> user_of v = Some u"
  by (simp add: scoped_iff)

lemma scoped_raw: "scoped s k t u = Some v \<Longrightarrow> raw s k = Some v"
  by (simp add: scoped_iff)

lemma scoped_isolated:
  "scoped s k t u = Some v \<Longrightarrow> scoped s k t' u' = Some w \<Longrightarrow> t' = t \<and> u' = u \<and> w = v"
  by (simp add: scoped_iff)

lemma scoped_foreign: "scoped s k t u = Some v \<Longrightarrow> t' \<noteq> t \<or> u' \<noteq> u \<Longrightarrow> scoped s k t' u' = None"
  by (metis not_Some_eq scoped_isolated)

lemma scoped_None: "raw s k = None \<Longrightarrow> scoped s k t u = None"
  by (metis not_Some_eq scoped_iff)

end

subsection \<open>Optimistic concurrency\<close>

text \<open>Several writers race with the same expected version; \<open>race\<close> lists who succeeded.\<close>

fun race :: "('v \<Rightarrow> nat \<Rightarrow> 's \<Rightarrow> 'v option \<times> 's) \<Rightarrow> nat \<Rightarrow> 'v list \<Rightarrow> 's \<Rightarrow> bool list" where
  "race cas n [] s = []"
| "race cas n (v # vs) s =
     (case cas v n s of (r, s') \<Rightarrow> (r \<noteq> None) # race cas n vs s')"

locale versioned_store =
  fixes raw :: "'s \<Rightarrow> ident \<Rightarrow> 'v option"
    and key :: "'v \<Rightarrow> ident"
    and version :: "'v \<Rightarrow> nat"
    and cas :: "'v \<Rightarrow> nat \<Rightarrow> 's \<Rightarrow> 'v option \<times> 's"
  assumes cas_hit: "cas v n s = (Some w, s') \<Longrightarrow> \<exists>old. raw s (key v) = Some old \<and> version old = n"
    and cas_lookup:
      "cas v n s = (Some w, s') \<Longrightarrow> raw s' k = (if k = key v then Some v else raw s k)"
    and cas_miss: "cas v n s = (None, s') \<Longrightarrow> s' = s"
begin

lemma cas_stale:
  assumes "raw s (key v) = Some old" "version old \<noteq> n"
  shows "cas v n s = (None, s)"
proof (cases "cas v n s")
  case (Pair r s')
  with assms cas_hit cas_miss show ?thesis by (cases r) fastforce+
qed

text \<open>Once a writer got in, every later writer with the same expectation is refused.\<close>

lemma race_after_win:
  assumes "raw s k = Some cur" "version cur \<noteq> n" "\<forall>v\<in>set vs. key v = k"
  shows "race cas n vs s = replicate (length vs) False"
  using assms by (induction vs) (auto simp: cas_stale)

lemma race_at_most_one:
  assumes "\<forall>v\<in>set vs. key v = k \<and> version v \<noteq> n"
  shows "length (filter id (race cas n vs s)) \<le> 1"
  using assms
proof (induction vs arbitrary: s)
  case Nil
  then show ?case by simp
next
  case (Cons v vs)
  obtain r s' where c: "cas v n s = (r, s')" by (cases "cas v n s")
  show ?case
  proof (cases r)
    case None
    with c Cons show ?thesis by simp
  next
    case (Some w)
    then have "raw s' k = Some v" using cas_lookup[of v n s w s' k] c Cons.prems by simp
    then have "race cas n vs s' = replicate (length vs) False"
      using race_after_win[of s' k v n vs] Cons.prems by simp
    with c Some show ?thesis by simp
  qed
qed

end

subsection \<open>Exclusive leases\<close>

text \<open>
  \<open>grants\<close> runs a sequence of claim attempts (who, which key, when, until when) and lists the
  granted ones. Under the contract, on states that satisfy the store's invariant
  \<open>consistent\<close>, two grants of one key never overlap in time.
\<close>

fun grants ::
    "('r \<Rightarrow> 'k \<Rightarrow> time \<Rightarrow> time \<Rightarrow> 's \<Rightarrow> 's option) \<Rightarrow> ('r \<times> 'k \<times> time \<times> time) list \<Rightarrow> 's \<Rightarrow>
     ('k \<times> time \<times> time) list" where
  "grants claim [] s = []"
| "grants claim ((r, k, now, until) # as) s =
     (case claim r k now until s of
        None \<Rightarrow> grants claim as s
      | Some s' \<Rightarrow> (k, now, until) # grants claim as s')"

locale lease_store =
  fixes claim :: "'r \<Rightarrow> 'k \<Rightarrow> time \<Rightarrow> time \<Rightarrow> 's \<Rightarrow> 's option"
    and lease :: "'s \<Rightarrow> 'k \<Rightarrow> time option"
    and consistent :: "'s \<Rightarrow> bool"
  assumes claim_consistent:
      "consistent s \<Longrightarrow> claim r k now until s = Some s' \<Longrightarrow> consistent s'"
    and claim_free:
      "consistent s \<Longrightarrow> claim r k now until s = Some s' \<Longrightarrow> lease s k = Some e \<Longrightarrow> e \<le> now"
    and claim_sets: "consistent s \<Longrightarrow> claim r k now until s = Some s' \<Longrightarrow> lease s' k = Some until"
    and claim_frame:
      "consistent s \<Longrightarrow> claim r k now until s = Some s' \<Longrightarrow> k' \<noteq> k \<Longrightarrow> lease s' k' = lease s k'"
begin

lemma claim_exclusive:
  assumes "consistent s" "claim r k now until s = Some s'" "now' < until"
  shows "claim r' k now' until' s' = None"
  using claim_free[of s' r' k now' until'] claim_sets[of s r k now until s']
    claim_consistent[of s r k now until s'] assms by fastforce

lemma grants_after_lease:
  assumes "consistent s" "lease s k = Some e" "\<forall>(r, k, now, until)\<in>set as. now < until"
    "(k, now, until) \<in> set (grants claim as s)"
  shows "e \<le> now"
  using assms
proof (induction as arbitrary: s e)
  case Nil
  then show ?case by simp
next
  case (Cons a as)
  obtain r k' n u where a: "a = (r, k', n, u)" by (cases a) auto
  show ?case
  proof (cases "claim r k' n u s")
    case None
    with Cons a show ?thesis by simp
  next
    case (Some s')
    note s = Cons.prems(1) and s' = claim_consistent[OF Cons.prems(1) Some]
    show ?thesis
    proof (cases "k' = k")
      case False
      with Cons a Some s' claim_frame[OF s Some, of k] show ?thesis by auto
    next
      case True
      then have en: "e \<le> n" using claim_free[OF s Some] Cons.prems(2) by blast
      have "lease s' k = Some u" using claim_sets[OF s Some] True by blast
      with Cons a Some True s' have "(k, now, until) = (k, n, u) \<or> u \<le> now" by auto
      moreover have "n < u" using Cons.prems(3) a by auto
      ultimately show ?thesis using en by auto
    qed
  qed
qed

lemma grants_disjoint:
  assumes "consistent s" "\<forall>(r, k, now, until)\<in>set as. now < until"
  shows "sorted_wrt (\<lambda>(k, now, until) (k', now', until'). k = k' \<longrightarrow> until \<le> now')
    (grants claim as s)"
  using assms
proof (induction as arbitrary: s)
  case Nil
  then show ?case by simp
next
  case (Cons a as)
  obtain r k n u where a: "a = (r, k, n, u)" by (cases a) auto
  show ?case
  proof (cases "claim r k n u s")
    case None
    with Cons a show ?thesis by simp
  next
    case (Some s')
    have "u \<le> now'" if "(k, now', until') \<in> set (grants claim as s')" for now' until'
      using grants_after_lease[OF claim_consistent[OF Cons.prems(1) Some]
          claim_sets[OF Cons.prems(1) Some] _ that] Cons.prems(2) by simp
    with Cons a Some claim_consistent[OF Cons.prems(1) Some] show ?thesis by auto
  qed
qed

end

end
