(* ===== verification/Run_Store.thy ===== *)
theory Run_Store
  imports Knowledge_Sanitizer Store_Contracts
begin

text \<open>
  Agent runs, agent results and agent events (\<open>app/schemas/logs.py\<close>, \<open>app/schemas/events.py\<close>)
  and their in-memory repositories (\<open>MemoryRunRepository\<close>, \<open>MemoryResultRepository\<close> and
  \<open>MemoryEventRepository\<close> of \<open>app/repositories/memory.py\<close>). Constructing or re-validating one of
  these models runs the knowledge filter on its JSON fields.
\<close>

subsection \<open>Data\<close>

datatype run_status =
    RunPending | RunRunning | RunBlocked | RunClarify
  | RunCompleted | RunFailed | RunInvalidOutput | RunCancelled | RunTimedOut

datatype agent_event_type =
    Agent_Started | Agent_Progress | Agent_Result_Event | Agent_Error | Agent_Clarify
  | Agent_Cancelled

record agent_run =
  rn_id :: ident
  rn_request :: "ident option"
  rn_session :: ident
  rn_agent :: ident
  rn_user :: "ident option"
  rn_tenant :: "ident option"
  rn_turn :: "ident option"
  rn_plan :: "ident option"
  rn_step :: "ident option"
  rn_status :: run_status
  rn_invoker :: string
  rn_delegated :: bool
  rn_delegation_key :: "string option"
  rn_version :: nat
  rn_sequence :: nat
  rn_deadline :: "time option"
  rn_heartbeat :: "time option"
  rn_terminal_event :: "ident option"
  rn_input :: json
  rn_output :: "json option"
  rn_error :: "json option"
  rn_latency :: "int option"
  rn_suppressed :: bool
  rn_used_memory :: "ident list"
  rn_created :: "time option"
  rn_updated :: "time option"

record agent_result =
  rs_id :: ident
  rs_run :: ident
  rs_session :: ident
  rs_agent :: ident
  rs_user :: "ident option"
  rs_tenant :: "ident option"
  rs_turn :: "ident option"
  rs_plan :: "ident option"
  rs_step :: "ident option"
  rs_status :: run_status
  rs_run_version :: "nat option"
  rs_message :: string
  rs_suppressed :: bool
  rs_skip_audit :: bool
  rs_output :: "json option"
  rs_artifacts :: "json list"
  rs_error :: "json option"
  rs_created :: "time option"

record agent_event =
  ev_id :: ident
  ev_run :: "ident option"
  ev_request :: "ident option"
  ev_session :: ident
  ev_agent :: ident
  ev_user :: "ident option"
  ev_tenant :: "ident option"
  ev_turn :: "ident option"
  ev_agent_session :: "ident option"
  ev_type :: agent_event_type
  ev_status :: "string option"
  ev_plan :: "ident option"
  ev_step :: "ident option"
  ev_sequence :: "nat option"
  ev_run_version :: "nat option"
  ev_payload :: json
  ev_created :: "time option"

text \<open>The model validators: the knowledge filter on the JSON fields.\<close>

definition validate_run :: "agent_run \<Rightarrow> py_exn + agent_run" where
  "validate_run r =
     (if 50 < length (rn_used_memory r) then Inl (Value_Error ''used_memory_ids is too long'')
      else case (sanitize (rn_input r), sanitize_opt (rn_output r), sanitize_opt (rn_error r)) of
        (Some i, Some out, Some err) \<Rightarrow>
          Inr (r\<lparr>rn_input := i, rn_output := out, rn_error := err\<rparr>)
      | _ \<Rightarrow> Inl Type_Error)"

definition validate_result :: "agent_result \<Rightarrow> py_exn + agent_result" where
  "validate_result r =
     (case (sanitize_opt (rs_output r), sanitize_opt (rs_error r)) of
        (Some out, Some err) \<Rightarrow> Inr (r\<lparr>rs_output := out, rs_error := err\<rparr>)
      | _ \<Rightarrow> Inl Type_Error)"

definition validate_event :: "agent_event \<Rightarrow> py_exn + agent_event" where
  "validate_event e =
     (case sanitize (ev_payload e) of
        Some p \<Rightarrow> Inr (e\<lparr>ev_payload := p\<rparr>)
      | None \<Rightarrow> Inl Type_Error)"

subsection \<open>The run repository\<close>

record run_store =
  rr_runs :: "(ident, agent_run) dict"
  rr_published :: "(ident, nat) dict"

definition add_run :: "agent_run \<Rightarrow> run_store \<Rightarrow> py_exn + agent_run \<times> run_store" where
  "add_run r s =
     ebind (validate_run r) (\<lambda>stored.
       Inr (stored, s\<lparr>rr_runs := dput (rn_id r) stored (rr_runs s)\<rparr>))"

definition same_run_identity :: "agent_run \<Rightarrow> agent_run \<Rightarrow> bool" where
  "same_run_identity a b \<longleftrightarrow>
     rn_request a = rn_request b \<and> rn_session a = rn_session b \<and> rn_agent a = rn_agent b \<and>
     rn_user a = rn_user b \<and> rn_tenant a = rn_tenant b \<and> rn_plan a = rn_plan b \<and>
     rn_step a = rn_step b"

definition update_run :: "agent_run \<Rightarrow> run_store \<Rightarrow> py_exn + agent_run \<times> run_store" where
  "update_run r s =
     (case dget (rr_runs s) (rn_id r) of
        None \<Rightarrow> Inl (Value_Error ''Agent run not found'')
      | Some existing \<Rightarrow>
          if \<not> same_run_identity existing r
          then Inl (Value_Error ''Agent run identity cannot be changed'')
          else add_run r s)"

definition get_run :: "run_store \<Rightarrow> ident \<Rightarrow> agent_run option" where
  "get_run s i = dget (rr_runs s) i"

definition get_owned_run :: "run_store \<Rightarrow> ident \<Rightarrow> ident \<Rightarrow> ident \<Rightarrow> agent_run option" where
  "get_owned_run s i tenant user =
     (case dget (rr_runs s) i of
        None \<Rightarrow> None
      | Some r \<Rightarrow>
          if rn_tenant r \<noteq> Some tenant \<or> rn_user r \<noteq> Some user then None else Some r)"

definition active_delegated_run_for_plan ::
    "run_store \<Rightarrow> ident \<Rightarrow> ident \<Rightarrow> ident \<Rightarrow> agent_run option" where
  "active_delegated_run_for_plan s plan tenant user =
     find (\<lambda>r. rn_plan r = Some plan \<and> rn_tenant r = Some tenant \<and> rn_user r = Some user \<and>
               rn_delegated r \<and> rn_status r \<in> {RunPending, RunRunning, RunBlocked})
          (dvalues (rr_runs s))"

fun run_source_order :: "run_status \<Rightarrow> nat" where
  "run_source_order RunRunning = 1"
| "run_source_order RunBlocked = 2"
| "run_source_order RunClarify = 2"
| "run_source_order _ = 3"

definition published_order :: "run_store \<Rightarrow> ident \<Rightarrow> nat" where
  "published_order s i = (case dget (rr_published s) i of None \<Rightarrow> 0 | Some n \<Rightarrow> n)"

definition run_formation_pending :: "run_store \<Rightarrow> nat \<Rightarrow> agent_run list" where
  "run_formation_pending s limit =
     take limit
       (filter (\<lambda>r. \<not> rn_suppressed r \<and> published_order s (rn_id r) < run_source_order (rn_status r))
          (dvalues (rr_runs s)))"

definition mark_run_published :: "ident \<Rightarrow> nat \<Rightarrow> run_store \<Rightarrow> run_store" where
  "mark_run_published i order s =
     (if dget (rr_runs s) i = None then s
      else s\<lparr>rr_published := dput i (max order (published_order s i)) (rr_published s)\<rparr>)"

subsection \<open>The result repository\<close>

record result_store =
  re_results :: "agent_result list"
  re_published :: "ident set"
  re_captured :: "ident set"

definition add_result :: "agent_result \<Rightarrow> result_store \<Rightarrow> result_store" where
  "add_result r s =
     (let s1 = s\<lparr>re_results := re_results s @ [r]\<rparr>
      in if rs_suppressed r \<and> \<not> rs_skip_audit r
         then s1\<lparr>re_captured := insert (rs_id r) (re_captured s1)\<rparr> else s1)"

definition result_formation_pending :: "result_store \<Rightarrow> nat \<Rightarrow> agent_result list" where
  "result_formation_pending s limit =
     take limit
       (filter (\<lambda>r. (\<not> rs_suppressed r \<and> rs_id r \<notin> re_published s) \<or> rs_id r \<notin> re_captured s)
          (re_results s))"

definition mark_result_published :: "ident \<Rightarrow> result_store \<Rightarrow> result_store" where
  "mark_result_published i s = s\<lparr>re_published := insert i (re_published s)\<rparr>"

definition mark_turn_captured :: "ident \<Rightarrow> result_store \<Rightarrow> result_store" where
  "mark_turn_captured i s = s\<lparr>re_captured := insert i (re_captured s)\<rparr>"

subsection \<open>The event repository\<close>

type_synonym event_store = "(ident, agent_event) dict"

definition add_agent_event ::
    "time \<Rightarrow> agent_event \<Rightarrow> event_store \<Rightarrow> (agent_event \<times> bool) \<times> event_store" where
  "add_agent_event now e s =
     (case dget s (ev_id e) of
        Some existing \<Rightarrow> ((existing, True), s)
      | None \<Rightarrow>
          let stored = e\<lparr>ev_created := Some now\<rparr> in ((stored, False), dput (ev_id e) stored s))"

definition get_event :: "event_store \<Rightarrow> ident \<Rightarrow> ident \<Rightarrow> ident \<Rightarrow> agent_event option" where
  "get_event s i tenant user =
     (case dget s i of
        None \<Rightarrow> None
      | Some e \<Rightarrow>
          if ev_tenant e \<noteq> Some tenant \<or> ev_user e \<noteq> Some user then None else Some e)"

definition list_recent_events ::
    "event_store \<Rightarrow> ident \<Rightarrow> ident \<Rightarrow> ident \<Rightarrow> int \<Rightarrow> agent_event list" where
  "list_recent_events s session tenant user limit =
     (let bounded = nat (max 0 limit);
          items = filter (\<lambda>e. ev_session e = session \<and> ev_tenant e = Some tenant \<and>
                              ev_user e = Some user) (dvalues s)
      in if bounded = 0 then [] else rev (drop (length items - bounded) items))"

subsection \<open>The repositories are owner scoped\<close>

interpretation run_owned: owned_store get_run get_owned_run rn_tenant rn_user
  by unfold_locales (auto simp: get_run_def get_owned_run_def split: option.splits)

interpretation event_owned: owned_store dget get_event ev_tenant ev_user
  by unfold_locales (auto simp: get_event_def split: option.splits)

subsection \<open>Facts about the repositories\<close>

lemma validate_run_idem: "validate_run r = Inr r' \<Longrightarrow> validate_run r' = Inr r'"
  by (auto simp: validate_run_def sanitize_idem_all(1) sanitize_opt_idem split: option.splits if_splits)

lemma validate_run_fields:
  assumes "validate_run r = Inr r'"
  shows "r' = r\<lparr>rn_input := rn_input r', rn_output := rn_output r', rn_error := rn_error r'\<rparr>"
  using assms by (auto simp: validate_run_def split: option.splits if_splits)

lemma validate_run_same:
  assumes "validate_run r = Inr r'"
  shows "rn_id r' = rn_id r" "rn_status r' = rn_status r" "rn_version r' = rn_version r"
    "rn_sequence r' = rn_sequence r" "rn_turn r' = rn_turn r" "rn_tenant r' = rn_tenant r"
    "rn_user r' = rn_user r" "rn_agent r' = rn_agent r" "rn_plan r' = rn_plan r"
    "rn_step r' = rn_step r" "rn_delegated r' = rn_delegated r"
    "rn_terminal_event r' = rn_terminal_event r" "rn_deadline r' = rn_deadline r"
    "rn_session r' = rn_session r" "rn_request r' = rn_request r"
    "rn_updated r' = rn_updated r" "rn_created r' = rn_created r"
  using assms by (auto simp: validate_run_def split: option.splits if_splits)

lemma add_agent_event_get:
  "dget s (ev_id e) = None \<Longrightarrow> dget (snd (add_agent_event now e s)) (ev_id e) = Some (e\<lparr>ev_created := Some now\<rparr>)"
  by (simp add: add_agent_event_def Let_def)

lemma add_agent_event_keeps:
  "dget s i = Some x \<Longrightarrow> dget (snd (add_agent_event now e s)) i = Some x"
  by (auto simp: add_agent_event_def Let_def split: option.splits)

end
