(* ===== verification/Plan_Store.thy ===== *)
theory Plan_Store
  imports Plan_Model Run_Store
begin

text \<open>
  The in-memory plan repository (\<open>MemoryPlanRepository\<close> of \<open>app/repositories/memory.py\<close>): plans,
  the execution claims that lease a step to one executor, the attempt counters and the versions
  already published for memory formation. Each method body runs under the repository lock, so one
  method is one atomic transition. The digest of \<open>_execution_key\<close> is the parameter \<open>hash\<close>.
\<close>

subsection \<open>State\<close>

record exec_claim =
  cl_step :: ident
  cl_claim :: ident
  cl_expires :: time
  cl_version :: nat
  cl_key :: string
  cl_attempt :: nat

record plan_store =
  ps_plans :: "(ident, plan) dict"
  ps_claims :: "(ident, exec_claim) dict"
  ps_attempts :: "(ident, nat) dict"
  ps_published :: "(ident, nat) dict"

datatype cancel_outcome =
  Cancel_Done | Already_Cancelled | Control_Unsupported | Terminal_Conflict

definition empty_plan_store :: plan_store where
  "empty_plan_store = \<lparr>ps_plans = [], ps_claims = [], ps_attempts = [], ps_published = []\<rparr>"

subsection \<open>Operations\<close>

definition suppress_formation :: "bool \<Rightarrow> ident \<Rightarrow> nat \<Rightarrow> plan_store \<Rightarrow> plan_store" where
  "suppress_formation suppressed i v s =
     (if suppressed then s\<lparr>ps_published := dput i v (ps_published s)\<rparr> else s)"

text \<open>Storing a plan carries a claim over to the new version while the plan runs, else drops it.\<close>

definition store_plan :: "plan \<Rightarrow> bool \<Rightarrow> plan_store \<Rightarrow> plan_store" where
  "store_plan p suppressed s =
     (let s1 = s\<lparr>ps_plans := dput (pl_id p) p (ps_plans s)\<rparr>;
          s2 = (case dget (ps_claims s1) (pl_id p) of
                  Some c \<Rightarrow>
                    if pl_status p = Running
                    then s1\<lparr>ps_claims := dput (pl_id p) (c\<lparr>cl_version := pl_version p\<rparr>) (ps_claims s1)\<rparr>
                    else s1\<lparr>ps_claims := dpop (pl_id p) (ps_claims s1)\<rparr>
                | None \<Rightarrow> s1\<lparr>ps_claims := dpop (pl_id p) (ps_claims s1)\<rparr>)
      in suppress_formation suppressed (pl_id p) (pl_version p) s2)"

definition plan_save :: "plan \<Rightarrow> bool \<Rightarrow> plan_store \<Rightarrow> py_exn + plan \<times> plan_store" where
  "plan_save p suppressed s =
     (case dget (ps_plans s) (pl_id p) of
        Some existing \<Rightarrow>
          if pl_tenant existing \<noteq> pl_tenant p \<or> pl_user existing \<noteq> pl_user p
          then Inl (Value_Error ''Plan ownership cannot be changed'')
          else Inr (p, store_plan p suppressed s)
      | None \<Rightarrow> Inr (p, store_plan p suppressed s))"

definition plan_get :: "plan_store \<Rightarrow> ident \<Rightarrow> ident \<Rightarrow> ident \<Rightarrow> plan option" where
  "plan_get s i tenant user =
     (case dget (ps_plans s) i of
        None \<Rightarrow> None
      | Some p \<Rightarrow> if pl_tenant p \<noteq> tenant \<or> pl_user p \<noteq> user then None else Some p)"

definition plan_save_if_version ::
    "plan \<Rightarrow> nat \<Rightarrow> bool \<Rightarrow> plan_store \<Rightarrow> plan option \<times> plan_store" where
  "plan_save_if_version p expected suppressed s =
     (case dget (ps_plans s) (pl_id p) of
        None \<Rightarrow> (None, s)
      | Some existing \<Rightarrow>
          if pl_tenant existing \<noteq> pl_tenant p \<or> pl_user existing \<noteq> pl_user p \<or>
             pl_version existing \<noteq> expected
          then (None, s)
          else (Some p, store_plan p suppressed s))"

definition cancelled_steps :: "plan_step list \<Rightarrow> plan_step list" where
  "cancelled_steps ss =
     map (\<lambda>s. if st_status s \<in> {Pending, Blocked} then s\<lparr>st_status := Cancelled\<rparr> else s) ss"

definition plan_cancel_unstarted ::
    "ident \<Rightarrow> ident \<Rightarrow> ident \<Rightarrow> run_store option \<Rightarrow> time \<Rightarrow> bool \<Rightarrow> plan_store \<Rightarrow>
     (plan \<times> cancel_outcome) option \<times> plan_store" where
  "plan_cancel_unstarted i tenant user runs now suppressed s =
     (case plan_get s i tenant user of
        None \<Rightarrow> (None, s)
      | Some p \<Rightarrow>
          if pl_status p = Cancelled then (Some (p, Already_Cancelled), s)
          else if pl_status p \<in> {Completed, Failed} then (Some (p, Terminal_Conflict), s)
          else
            let active = (case runs of
                            None \<Rightarrow> None
                          | Some rs \<Rightarrow> active_delegated_run_for_plan rs i tenant user)
            in if active \<noteq> None \<or> (\<exists>st\<in>set (pl_steps p). st_status st = Running)
               then (Some (p, Control_Unsupported), s)
               else
                 let updated = p\<lparr>pl_status := Cancelled, pl_steps := cancelled_steps (pl_steps p),
                                 pl_current := None, pl_next_action := None,
                                 pl_version := pl_version p + 1, pl_updated := now,
                                 pl_formation := ''cancel''\<rparr>;
                     s1 = s\<lparr>ps_plans := dput i updated (ps_plans s),
                            ps_claims := dpop i (ps_claims s)\<rparr>
                 in (Some (updated, Cancel_Done),
                     suppress_formation suppressed i (pl_version updated) s1))"

definition plan_active_by_session ::
    "plan_store \<Rightarrow> ident \<Rightarrow> ident \<Rightarrow> ident \<Rightarrow> plan option" where
  "plan_active_by_session s session tenant user =
     (let active = filter (\<lambda>p. pl_session p = Some session \<and> pl_tenant p = tenant \<and>
                               pl_user p = user \<and> pl_status p \<in> active_statuses)
                     (dvalues (ps_plans s))
      in if active = [] then None else Some (last active))"

definition execution_key :: "(string \<Rightarrow> string) \<Rightarrow> ident \<Rightarrow> ident \<Rightarrow> nat \<Rightarrow> string" where
  "execution_key hash i st attempt =
     ''plan_exec_'' @ take 32 (hash (join_us [i, st, nat_str attempt]))"

definition attempts_of :: "plan_store \<Rightarrow> ident \<Rightarrow> nat" where
  "attempts_of s i = (case dget (ps_attempts s) i of None \<Rightarrow> 0 | Some n \<Rightarrow> n)"

definition claim_expired :: "exec_claim option \<Rightarrow> time \<Rightarrow> bool" where
  "claim_expired c now = (case c of None \<Rightarrow> False | Some x \<Rightarrow> cl_expires x \<le> now)"

definition plan_claim_step ::
    "(string \<Rightarrow> string) \<Rightarrow> ident \<Rightarrow> ident \<Rightarrow> ident \<Rightarrow> ident \<Rightarrow> ident \<Rightarrow> time \<Rightarrow> time \<Rightarrow> bool \<Rightarrow>
     plan_store \<Rightarrow> plan option \<times> plan_store" where
  "plan_claim_step hash i step tenant user claim_id lease_expires_at now suppressed s =
     (case plan_get s i tenant user of
        None \<Rightarrow> (None, s)
      | Some p \<Rightarrow>
          if pl_status p \<notin> active_statuses then (None, s)
          else
            let existing = dget (ps_claims s) i;
                expired = claim_expired existing now
            in if existing \<noteq> None \<and> \<not> expired then (None, s)
               else
                 let same_step = (case existing of
                                    Some c \<Rightarrow> expired \<and> cl_step c = step
                                  | None \<Rightarrow> False);
                     allowed = {Pending, Blocked} \<union> (if same_step then {Running} else {})
                 in case find (\<lambda>x. st_id x = step) (pl_steps p) of
                      None \<Rightarrow> (None, s)
                    | Some x \<Rightarrow>
                        if st_status x \<notin> allowed then (None, s)
                        else
                          let recovering = same_step \<and> cl_key (the existing) \<noteq> [];
                              attempt = (if recovering then cl_attempt (the existing)
                                         else attempts_of s i + 1);
                              key = (if recovering then cl_key (the existing)
                                     else execution_key hash i step attempt);
                              claimed = p\<lparr>pl_steps := set_step_status step Running (pl_steps p),
                                          pl_current := Some step, pl_status := Running,
                                          pl_next_action := None,
                                          pl_version := pl_version p + 1, pl_updated := now,
                                          pl_formation := ''update''\<rparr>;
                              s1 = s\<lparr>ps_plans := dput i claimed (ps_plans s),
                                     ps_claims := dput i \<lparr>cl_step = step, cl_claim = claim_id,
                                         cl_expires = lease_expires_at,
                                         cl_version = pl_version claimed,
                                         cl_key = key, cl_attempt = attempt\<rparr> (ps_claims s),
                                     ps_attempts := dput i attempt (ps_attempts s)\<rparr>
                          in (Some claimed,
                              suppress_formation suppressed i (pl_version claimed) s1))"

definition plan_save_claimed_step ::
    "plan \<Rightarrow> ident \<Rightarrow> ident \<Rightarrow> bool \<Rightarrow> time \<Rightarrow> plan_store \<Rightarrow> plan option \<times> plan_store" where
  "plan_save_claimed_step p step claim_id suppressed now s =
     (case dget (ps_claims s) (pl_id p) of
        None \<Rightarrow> (None, s)
      | Some c \<Rightarrow>
          if cl_step c \<noteq> step \<or> cl_claim c \<noteq> claim_id then (None, s)
          else case dget (ps_plans s) (pl_id p) of
            None \<Rightarrow> (None, s)
          | Some existing \<Rightarrow>
              if pl_tenant existing \<noteq> pl_tenant p \<or> pl_user existing \<noteq> pl_user p then (None, s)
              else if pl_version existing \<noteq> cl_version c \<or> pl_version p \<noteq> cl_version c + 1
              then (None, s)
              else
                let stored = p\<lparr>pl_updated := now\<rparr>;
                    s1 = s\<lparr>ps_plans := dput (pl_id p) stored (ps_plans s),
                           ps_claims := dpop (pl_id p) (ps_claims s)\<rparr>
                in (Some stored, suppress_formation suppressed (pl_id p) (pl_version stored) s1))"

definition published_version :: "plan_store \<Rightarrow> ident \<Rightarrow> nat" where
  "published_version s i = (case dget (ps_published s) i of None \<Rightarrow> 0 | Some n \<Rightarrow> n)"

definition plan_formation_pending :: "plan_store \<Rightarrow> nat \<Rightarrow> plan list" where
  "plan_formation_pending s limit =
     take limit (filter (\<lambda>p. published_version s (pl_id p) < pl_version p) (dvalues (ps_plans s)))"

definition mark_plan_published :: "ident \<Rightarrow> nat \<Rightarrow> plan_store \<Rightarrow> plan_store" where
  "mark_plan_published i v s =
     (if dget (ps_plans s) i = None then s
      else s\<lparr>ps_published := dput i (max v (published_version s i)) (ps_published s)\<rparr>)"

definition execution_claim_key :: "plan_store \<Rightarrow> ident \<Rightarrow> ident \<Rightarrow> string option" where
  "execution_claim_key s i claim_id =
     (case dget (ps_claims s) i of
        None \<Rightarrow> None
      | Some c \<Rightarrow> if cl_claim c = claim_id then Some (cl_key c) else None)"

definition plan_renew_claim ::
    "ident \<Rightarrow> ident \<Rightarrow> ident \<Rightarrow> ident \<Rightarrow> time \<Rightarrow> time \<Rightarrow> plan_store \<Rightarrow> bool \<times> plan_store" where
  "plan_renew_claim i tenant user claim_id lease_expires_at now s =
     (case (plan_get s i tenant user, dget (ps_claims s) i) of
        (Some p, Some c) \<Rightarrow>
          if cl_claim c \<noteq> claim_id \<or> cl_expires c \<le> now then (False, s)
          else (True, s\<lparr>ps_claims := dput i (c\<lparr>cl_expires := lease_expires_at\<rparr>) (ps_claims s)\<rparr>)
      | _ \<Rightarrow> (False, s))"

subsection \<open>The repository as a state machine\<close>

text \<open>
  One rule per mutating method. Plans handed to the two saves were validated at construction and
  only changed by copies that keep identifiers and dependencies, hence \<open>steps_wf\<close>.
\<close>

inductive plan_store_step :: "(string \<Rightarrow> string) \<Rightarrow> plan_store \<Rightarrow> plan_store \<Rightarrow> bool" for hash where
  save: "steps_wf (pl_steps p) \<Longrightarrow> plan_save p fs s = Inr (q, s') \<Longrightarrow> plan_store_step hash s s'"
| save_if_version: "steps_wf (pl_steps p) \<Longrightarrow> plan_save_if_version p n fs s = (r, s') \<Longrightarrow>
    plan_store_step hash s s'"
| cancel: "plan_cancel_unstarted i t u runs now fs s = (r, s') \<Longrightarrow> plan_store_step hash s s'"
| claim: "plan_claim_step hash i st t u c until now fs s = (r, s') \<Longrightarrow> plan_store_step hash s s'"
| save_claimed: "steps_wf (pl_steps p) \<Longrightarrow> plan_save_claimed_step p st c fs now s = (r, s') \<Longrightarrow>
    plan_store_step hash s s'"
| renew: "plan_renew_claim i t u c until now s = (b, s') \<Longrightarrow> plan_store_step hash s s'"
| mark: "s' = mark_plan_published i v s \<Longrightarrow> plan_store_step hash s s'"

inductive plan_store_reachable :: "(string \<Rightarrow> string) \<Rightarrow> plan_store \<Rightarrow> bool" for hash where
  start: "plan_store_reachable hash empty_plan_store"
| step: "plan_store_reachable hash s \<Longrightarrow> plan_store_step hash s s' \<Longrightarrow> plan_store_reachable hash s'"

text \<open>
  The invariant: entries are filed under their own identifier, every stored plan has well-formed
  steps, and a claim only exists for a running plan and carries that plan's current version and
  the last attempt number.
\<close>

definition claim_ok :: "plan_store \<Rightarrow> ident \<Rightarrow> exec_claim \<Rightarrow> bool" where
  "claim_ok s i c \<longleftrightarrow>
     (\<exists>p. dget (ps_plans s) i = Some p \<and> pl_status p = Running \<and> cl_version c = pl_version p) \<and>
     attempts_of s i = cl_attempt c"

definition plan_store_ok :: "plan_store \<Rightarrow> bool" where
  "plan_store_ok s \<longleftrightarrow>
     dict_ok (ps_plans s) \<and> dict_ok (ps_claims s) \<and>
     (\<forall>i p. dget (ps_plans s) i = Some p \<longrightarrow> pl_id p = i \<and> steps_wf (pl_steps p)) \<and>
     (\<forall>i c. dget (ps_claims s) i = Some c \<longrightarrow> claim_ok s i c)"

subsection \<open>Contracts\<close>

lemma plan_get_iff:
  "plan_get s i t u = Some p \<longleftrightarrow> dget (ps_plans s) i = Some p \<and> pl_tenant p = t \<and> pl_user p = u"
  by (auto simp: plan_get_def split: option.splits)

interpretation plan_owned: owned_store "\<lambda>s. dget (ps_plans s)" plan_get
    "\<lambda>p. Some (pl_tenant p)" "\<lambda>p. Some (pl_user p)"
  by unfold_locales (auto simp: plan_get_iff)

lemma suppress_formation_sel [simp]:
  "ps_plans (suppress_formation b i v s) = ps_plans s"
  "ps_claims (suppress_formation b i v s) = ps_claims s"
  "ps_attempts (suppress_formation b i v s) = ps_attempts s"
  by (simp_all add: suppress_formation_def)

lemma store_plan_sel [simp]:
  "ps_plans (store_plan p b s) = dput (pl_id p) p (ps_plans s)"
  "ps_attempts (store_plan p b s) = ps_attempts s"
  by (auto simp: store_plan_def Let_def split: option.splits)

lemma store_plan_claims:
  "ps_claims (store_plan p b s) =
     (case dget (ps_claims s) (pl_id p) of
        Some c \<Rightarrow> if pl_status p = Running
                  then dput (pl_id p) (c\<lparr>cl_version := pl_version p\<rparr>) (ps_claims s)
                  else dpop (pl_id p) (ps_claims s)
      | None \<Rightarrow> dpop (pl_id p) (ps_claims s))"
  by (auto simp: store_plan_def Let_def split: option.splits)

interpretation plan_versioned: versioned_store "\<lambda>s. dget (ps_plans s)" pl_id pl_version
    "\<lambda>p n. plan_save_if_version p n suppressed" for suppressed
  by unfold_locales (auto simp: plan_save_if_version_def split: option.splits if_splits)

text \<open>A claim of a step is a lease on its plan.\<close>

definition claim_lease ::
    "(string \<Rightarrow> string) \<Rightarrow> bool \<Rightarrow> ident \<times> ident \<times> ident \<times> ident \<Rightarrow> ident \<Rightarrow> time \<Rightarrow> time \<Rightarrow>
     plan_store \<Rightarrow> plan_store option" where
  "claim_lease hash suppressed r i now until s =
     (case r of (step, claim_id, tenant, user) \<Rightarrow>
        (case plan_claim_step hash i step tenant user claim_id until now suppressed s of
           (None, s') \<Rightarrow> None
         | (Some p, s') \<Rightarrow> Some s'))"

definition plan_lease :: "plan_store \<Rightarrow> ident \<Rightarrow> time option" where
  "plan_lease s i = map_option cl_expires (dget (ps_claims s) i)"

lemma plan_claim_step_Some:
  assumes "plan_claim_step hash i st t u c until now fs s = (Some q, s')"
  obtains p x key att where
    "plan_get s i t u = Some p" "pl_status p \<in> active_statuses"
    "\<And>old. dget (ps_claims s) i = Some old \<Longrightarrow> cl_expires old \<le> now"
    "find (\<lambda>x. st_id x = st) (pl_steps p) = Some x"
    "st_status x \<in> {Pending, Blocked} \<or>
       st_status x = Running \<and> (\<exists>old. dget (ps_claims s) i = Some old \<and> cl_step old = st)"
    "q = p\<lparr>pl_steps := set_step_status st Running (pl_steps p), pl_current := Some st,
           pl_status := Running, pl_next_action := None, pl_version := pl_version p + 1,
           pl_updated := now, pl_formation := ''update''\<rparr>"
    "ps_plans s' = dput i q (ps_plans s)"
    "ps_claims s' = dput i \<lparr>cl_step = st, cl_claim = c, cl_expires = until,
        cl_version = pl_version q, cl_key = key, cl_attempt = att\<rparr> (ps_claims s)"
    "ps_attempts s' = dput i att (ps_attempts s)"
  using assms
  by (auto simp: plan_claim_step_def Let_def claim_expired_def
      split: option.splits if_splits)

lemma plan_claim_step_None:
  "plan_claim_step hash i st t u c until now fs s = (None, s') \<Longrightarrow> s' = s"
  by (auto simp: plan_claim_step_def Let_def split: option.splits if_splits)

interpretation plan_claims: lease_store "claim_lease hash suppressed" plan_lease "\<lambda>_. True"
  for hash suppressed
  by unfold_locales
    (auto simp: claim_lease_def plan_lease_def split: option.splits prod.splits
      elim!: plan_claim_step_Some)

subsection \<open>The invariant is inductive\<close>

lemma plan_store_okD:
  assumes "plan_store_ok s"
  shows "dict_ok (ps_plans s)" "dict_ok (ps_claims s)"
    "dget (ps_plans s) i = Some p \<Longrightarrow> pl_id p = i"
    "dget (ps_plans s) i = Some p \<Longrightarrow> steps_wf (pl_steps p)"
    "dget (ps_claims s) i = Some c \<Longrightarrow> claim_ok s i c"
  using assms by (auto simp: plan_store_ok_def)

lemma plan_store_ok_put:
  assumes "plan_store_ok s" "steps_wf (pl_steps p)" "pl_id p = i"
    "ps_plans s' = dput i p (ps_plans s)"
    "\<And>j c. dget (ps_claims s') j = Some c \<Longrightarrow> j \<noteq> i \<Longrightarrow>
       dget (ps_claims s) j = Some c \<and> attempts_of s' j = attempts_of s j"
    "\<And>c. dget (ps_claims s') i = Some c \<Longrightarrow> claim_ok s' i c" "dict_ok (ps_claims s')"
  shows "plan_store_ok s'"
proof -
  have "claim_ok s' j c" if "dget (ps_claims s') j = Some c" for j c
    using that assms(4-6) plan_store_okD(5)[OF assms(1), of j c]
    by (cases "j = i") (auto simp: claim_ok_def)
  with assms show ?thesis by (auto simp: plan_store_ok_def)
qed

lemma store_plan_ok:
  assumes ok: "plan_store_ok s" and wf: "steps_wf (pl_steps p)"
  shows "plan_store_ok (store_plan p b s)"
proof (rule plan_store_ok_put[OF ok wf refl])
  fix j c
  assume "dget (ps_claims (store_plan p b s)) j = Some c" "j \<noteq> pl_id p"
  then show "dget (ps_claims s) j = Some c \<and> attempts_of (store_plan p b s) j = attempts_of s j"
    by (auto simp: store_plan_claims attempts_of_def split: option.splits if_splits)
next
  fix c
  assume "dget (ps_claims (store_plan p b s)) (pl_id p) = Some c"
  then obtain c0 where "dget (ps_claims s) (pl_id p) = Some c0" "pl_status p = Running"
    "c = c0\<lparr>cl_version := pl_version p\<rparr>"
    by (auto simp: store_plan_claims split: option.splits if_splits)
  moreover from this have "claim_ok s (pl_id p) c0" using plan_store_okD(5)[OF ok] by blast
  ultimately show "claim_ok (store_plan p b s) (pl_id p) c"
    by (simp add: claim_ok_def attempts_of_def)
qed (use plan_store_okD(2)[OF ok] in \<open>auto simp: store_plan_claims split: option.splits\<close>)

lemma plan_cancel_unchanged:
  "plan_cancel_unstarted i t u runs now fs s = (r, s') \<Longrightarrow> (\<And>q. r \<noteq> Some (q, Cancel_Done)) \<Longrightarrow>
     s' = s"
  by (auto simp: plan_cancel_unstarted_def Let_def split: option.splits if_splits)

lemma plan_cancel_done:
  assumes "plan_cancel_unstarted i t u runs now fs s = (Some (q, Cancel_Done), s')"
  obtains p where
    "plan_get s i t u = Some p" "pl_status p \<in> active_statuses"
    "\<forall>st\<in>set (pl_steps p). st_status st \<noteq> Running"
    "\<And>rs. runs = Some rs \<Longrightarrow> active_delegated_run_for_plan rs i t u = None"
    "q = p\<lparr>pl_status := Cancelled, pl_steps := cancelled_steps (pl_steps p),
           pl_current := None, pl_next_action := None, pl_version := pl_version p + 1,
           pl_updated := now, pl_formation := ''cancel''\<rparr>"
    "ps_plans s' = dput i q (ps_plans s)" "ps_claims s' = dpop i (ps_claims s)"
    "ps_attempts s' = ps_attempts s"
proof -
  from assms obtain p where p: "plan_get s i t u = Some p"
    by (auto simp: plan_cancel_unstarted_def split: option.splits)
  have "pl_status p \<in> active_statuses"
    using assms p by (cases "pl_status p") (simp_all add: plan_cancel_unstarted_def active_statuses_def)
  with p assms that[OF p] show thesis
    by (auto simp: plan_cancel_unstarted_def Let_def split: option.splits if_splits)
qed

lemma plan_graph_cancelled [simp]: "plan_graph (cancelled_steps ss) = plan_graph ss"
  by (simp add: cancelled_steps_def plan_graph_def)

lemma plan_cancel_ok:
  assumes ok: "plan_store_ok s" and c: "plan_cancel_unstarted i t u runs now fs s = (r, s')"
  shows "plan_store_ok s'"
proof (cases "\<exists>q. r = Some (q, Cancel_Done)")
  case False
  with c ok show ?thesis by (metis plan_cancel_unchanged)
next
  case True
  then obtain q where "r = Some (q, Cancel_Done)" ..
  with c obtain p where p: "plan_get s i t u = Some p"
    and q: "pl_id q = pl_id p" "plan_graph (pl_steps q) = plan_graph (pl_steps p)"
    and s': "ps_plans s' = dput i q (ps_plans s)" "ps_claims s' = dpop i (ps_claims s)"
      "ps_attempts s' = ps_attempts s"
    by (auto elim!: plan_cancel_done)
  have "steps_wf (pl_steps q)"
    using p plan_store_okD(4)[OF ok, of i p] steps_wf_graph_cong[OF q(2)] by (simp add: plan_get_iff)
  moreover have "pl_id q = i" using p q(1) plan_store_okD(3)[OF ok] by (simp add: plan_get_iff)
  ultimately show ?thesis
    by (rule plan_store_ok_put[OF ok])
      (use s' plan_store_okD(2)[OF ok] in \<open>auto simp: attempts_of_def\<close>)
qed

lemma plan_claim_ok:
  assumes ok: "plan_store_ok s" and c: "plan_claim_step hash i st t u cl until now fs s = (r, s')"
  shows "plan_store_ok s'"
proof (cases r)
  case None
  with c ok show ?thesis by (auto dest: plan_claim_step_None)
next
  case (Some q)
  with c obtain p x key att where p: "plan_get s i t u = Some p"
    and q: "q = p\<lparr>pl_steps := set_step_status st Running (pl_steps p), pl_current := Some st,
           pl_status := Running, pl_next_action := None, pl_version := pl_version p + 1,
           pl_updated := now, pl_formation := ''update''\<rparr>"
    and s': "ps_plans s' = dput i q (ps_plans s)"
      "ps_claims s' = dput i \<lparr>cl_step = st, cl_claim = cl, cl_expires = until,
        cl_version = pl_version q, cl_key = key, cl_attempt = att\<rparr> (ps_claims s)"
      "ps_attempts s' = dput i att (ps_attempts s)"
    by (auto elim: plan_claim_step_Some)
  have "steps_wf (pl_steps q)" "pl_id q = i"
    using p q plan_store_okD(3,4)[OF ok] by (auto simp: plan_get_iff)
  then show ?thesis
    by (rule plan_store_ok_put[OF ok])
      (use s' q plan_store_okD(2)[OF ok] in \<open>auto simp: attempts_of_def claim_ok_def\<close>)
qed

lemma plan_save_claimed_ok:
  assumes ok: "plan_store_ok s" and wf: "steps_wf (pl_steps p)"
    and c: "plan_save_claimed_step p st cl fs now s = (r, s')"
  shows "plan_store_ok s'"
proof (cases r)
  case None
  with c ok show ?thesis
    by (auto simp: plan_save_claimed_step_def Let_def split: option.splits if_splits)
next
  case (Some q)
  with c have q: "q = p\<lparr>pl_updated := now\<rparr>"
    and s': "ps_plans s' = dput (pl_id p) q (ps_plans s)"
      "ps_claims s' = dpop (pl_id p) (ps_claims s)" "ps_attempts s' = ps_attempts s"
    by (auto simp: plan_save_claimed_step_def Let_def split: option.splits if_splits)
  have "steps_wf (pl_steps q)" "pl_id q = pl_id p" using wf q by auto
  then show ?thesis
    by (rule plan_store_ok_put[OF ok])
      (use s' plan_store_okD(2)[OF ok] in \<open>auto simp: attempts_of_def\<close>)
qed

lemma plan_renew_ok:
  assumes ok: "plan_store_ok s" and c: "plan_renew_claim i t u cl until now s = (b, s')"
  shows "plan_store_ok s'"
  using assms
  by (fastforce simp: plan_renew_claim_def plan_store_ok_def claim_ok_def attempts_of_def
      split: option.splits if_splits)

lemma plan_mark_ok: "plan_store_ok s \<Longrightarrow> plan_store_ok (mark_plan_published i v s)"
  by (auto simp: mark_plan_published_def plan_store_ok_def claim_ok_def attempts_of_def)

lemma plan_store_step_ok:
  assumes "plan_store_step hash s s'" "plan_store_ok s"
  shows "plan_store_ok s'"
  using assms
proof (induction rule: plan_store_step.induct)
  case (save p fs s q s')
  then show ?case by (auto simp: plan_save_def store_plan_ok split: option.splits if_splits)
next
  case (save_if_version p n fs s r s')
  then show ?case
    by (auto simp: plan_save_if_version_def store_plan_ok split: option.splits if_splits)
qed (auto intro: plan_cancel_ok plan_claim_ok plan_save_claimed_ok plan_renew_ok plan_mark_ok)

lemma plan_store_reachable_ok: "plan_store_reachable hash s \<Longrightarrow> plan_store_ok s"
proof (induction rule: plan_store_reachable.induct)
  case start
  show ?case by (simp add: plan_store_ok_def empty_plan_store_def)
next
  case (step s s')
  then show ?case by (blast intro: plan_store_step_ok)
qed

end
