(* ===== verification/Plan_Properties.thy ===== *)
theory Plan_Properties
  imports Plan_Store
begin

text \<open>
  The properties of plans and of the plan repository: validation, progress, the transition of
  steps, the invariant of the store, execution claims, optimistic writes and cancellation.
\<close>

subsection \<open>Validation\<close>

lemma first_unknown_error:
  "first_unknown known ss = Inl e \<Longrightarrow> \<exists>s\<in>set ss. \<exists>us. e = Unknown_Dependencies (st_id s) us"
  by (induction known ss rule: first_unknown.induct) (auto simp: Let_def split: if_splits)

text \<open>
  C36: a plan is accepted exactly when its fields satisfy the constraints (plan, user, tenant, the steps and
  their artifact references are identified, the formation event type is short), its step identifiers are
  distinct, every dependency names a step of the plan, the dependency graph has no cycle and a
  current step, if named, is one of the steps. Acceptance changes nothing but the current step: a
  plan in a terminal state has none, and a current step that is set is a step of the plan. The
  depth-first search never runs out of its bound and never looks up an unknown node.
\<close>

theorem plan_validation_correct:
  "((\<exists>q. construct_plan p = Inr q) \<longleftrightarrow>
     pl_id p \<noteq> [] \<and> pl_user p \<noteq> [] \<and> pl_tenant p \<noteq> [] \<and> length (pl_formation p) \<le> 32 \<and> pl_steps p \<noteq> [] \<and>
     (\<forall>s\<in>set (pl_steps p). st_id s \<noteq> [] \<and> st_agent s \<noteq> [] \<and> st_description s \<noteq> [] \<and>
        (\<forall>a\<in>set (st_artifacts s). ar_id a \<noteq> [] \<and> ar_uri a \<noteq> [])) \<and>
     distinct (step_ids (pl_steps p)) \<and>
     (\<forall>s\<in>set (pl_steps p). set (st_depends_on s) \<subseteq> set (step_ids (pl_steps p))) \<and>
     acyclic (dep_rel (plan_graph (pl_steps p))) \<and>
     (str_set (pl_current p) \<longrightarrow> the (pl_current p) \<in> set (step_ids (pl_steps p)))) \<and>
   (\<forall>q. construct_plan p = Inr q \<longrightarrow>
     q = p\<lparr>pl_current := pl_current q\<rparr> \<and>
     (pl_status q \<in> terminal_statuses \<longrightarrow> pl_current q = None) \<and>
     (str_set (pl_current q) \<longrightarrow> the (pl_current q) \<in> set (step_ids (pl_steps q)))) \<and>
   construct_plan p \<noteq> Inl Out_Of_Fuel \<and> (\<forall>n. construct_plan p \<noteq> Inl (Graph_Key_Error n))"
proof (intro conjI allI impI)
  have closed: "graph_closed (plan_graph (pl_steps p)) \<longleftrightarrow>
      (\<forall>s\<in>set (pl_steps p). set (st_depends_on s) \<subseteq> set (step_ids (pl_steps p)))"
    if "distinct (step_ids (pl_steps p))"
    using graph_closed_plan_graph[OF that] .
  show "(\<exists>q. construct_plan p = Inr q) \<longleftrightarrow>
     pl_id p \<noteq> [] \<and> pl_user p \<noteq> [] \<and> pl_tenant p \<noteq> [] \<and> length (pl_formation p) \<le> 32 \<and> pl_steps p \<noteq> [] \<and>
     (\<forall>s\<in>set (pl_steps p). st_id s \<noteq> [] \<and> st_agent s \<noteq> [] \<and> st_description s \<noteq> [] \<and>
        (\<forall>a\<in>set (st_artifacts s). ar_id a \<noteq> [] \<and> ar_uri a \<noteq> [])) \<and>
     distinct (step_ids (pl_steps p)) \<and>
     (\<forall>s\<in>set (pl_steps p). set (st_depends_on s) \<subseteq> set (step_ids (pl_steps p))) \<and>
     acyclic (dep_rel (plan_graph (pl_steps p))) \<and>
     (str_set (pl_current p) \<longrightarrow> the (pl_current p) \<in> set (step_ids (pl_steps p)))"
    using validate_steps_Inr_iff[of p] closed
    by (auto simp: construct_plan_def plan_fields_ok_def list_all_iff oir_elim steps_wf_def)
  have err: "e \<noteq> Out_Of_Fuel \<and> e \<noteq> Graph_Key_Error n" if e: "construct_plan p = Inl e" for e n
  proof -
    consider "e = Field_Constraint" | "e = Duplicate_Step_Ids" | "e = Unknown_Current_Step"
      | "first_unknown (set (step_ids (pl_steps p))) (pl_steps p) = Inl e"
      | "distinct (step_ids (pl_steps p))"
        "first_unknown (set (step_ids (pl_steps p))) (pl_steps p) = Inr ()"
        "validate_no_cycles (plan_graph (pl_steps p)) = Inl e"
      using e unfolding construct_plan_def validate_steps_def Let_def ebind_eq_Inl ensure_eq_Inl
        ensure_eq_Inr by (elim disjE conjE exE) simp_all
    then show ?thesis
    proof cases
      case 4
      with first_unknown_error show ?thesis by blast
    next
      case 5
      then have "graph_closed (plan_graph (pl_steps p))" by (simp add: closed first_unknown_ok)
      with 5(3) validate_no_cycles_error show ?thesis by blast
    qed simp_all
  qed
  show "construct_plan p \<noteq> Inl Out_Of_Fuel" using err by blast
  show "construct_plan p \<noteq> Inl (Graph_Key_Error n)" for n using err by blast
next
  fix q
  assume "construct_plan p = Inr q"
  then have q: "validate_steps p = Inr q" by (simp add: construct_plan_def oir_elim)
  show same: "q = p\<lparr>pl_current := pl_current q\<rparr>" using validate_steps_result[OF q] .
  show "pl_current q = None" if "pl_status q \<in> terminal_statuses"
    using q that by (auto simp: validate_steps_def Let_def oir_elim split: if_splits)
  show "the (pl_current q) \<in> set (step_ids (pl_steps q))" if "str_set (pl_current q)"
    using q that
    by (auto simp: validate_steps_def Let_def oir_elim derive_current_def step_ids_def
        dest!: find_Some_D split: if_splits option.splits)
qed

lemma plan_validation_correct_witness:
  "\<not> (\<exists>q. construct_plan \<lparr>pl_id = ''p'', pl_user = ''u'', pl_tenant = ''a'', pl_session = None,
     pl_status = Pending, pl_current = None, pl_policy = None, pl_next_action = None,
     pl_last_event = None, pl_version = 0, pl_updated = 0, pl_formation = ''update'',
     pl_steps = [\<lparr>st_id = ''s'', st_agent = ''x'', st_description = ''d'', st_status = Pending,
                  st_depends_on = [''t''], st_artifacts = []\<rparr>]\<rparr> = Inr q)"
  by (subst plan_validation_correct[THEN conjunct1]) (simp add: step_ids_def)

text \<open>
  C37: an accepted plan is never stuck. As long as no step is cancelled, the state after a
  completion is defined: the plan is completed exactly when every step is, it has failed exactly
  when some step failed, and otherwise it names as current a step that is blocked, running or ready
  to run; likewise the next step is undefined only when every step is completed.
\<close>

theorem plan_never_stuck:
  assumes "construct_plan p = Inr q" "\<forall>s\<in>set (pl_steps q). st_status s \<noteq> Cancelled"
  shows "(\<exists>st cur. plan_state_after_completion (pl_steps q) = Inr (st, cur) \<and>
      (st = Completed \<longleftrightarrow> (\<forall>s\<in>set (pl_steps q). st_status s = Completed)) \<and>
      (st = Failed \<longleftrightarrow> (\<exists>s\<in>set (pl_steps q). st_status s = Failed)) \<and>
      (st \<notin> {Completed, Failed} \<longrightarrow> (\<exists>s\<in>set (pl_steps q). cur = Some (st_id s) \<and>
         (is_ready (pl_steps q) s \<or> st_status s \<in> {Running, Blocked})))) \<and>
    (next_step_id (pl_steps q) = None \<longleftrightarrow> (\<forall>s\<in>set (pl_steps q). st_status s = Completed))"
proof -
  have v: "validate_steps p = Inr q" using assms(1) by (simp add: construct_plan_def oir_elim)
  then have "pl_steps q = pl_steps p"
    using arg_cong[OF validate_steps_result[OF v], of pl_steps] by simp
  with v have wf: "steps_wf (pl_steps q)" using validate_steps_Inr_iff[of p] by auto
  obtain st cur where sc: "plan_state_after_completion (pl_steps q) = Inr (st, cur)"
    using plan_state_after_completion_total[OF wf assms(2)] by auto
  have "(st = Completed \<longleftrightarrow> (\<forall>s\<in>set (pl_steps q). st_status s = Completed)) \<and>
      (st = Failed \<longleftrightarrow> (\<exists>s\<in>set (pl_steps q). st_status s = Failed)) \<and>
      (st \<notin> {Completed, Failed} \<longrightarrow> (\<exists>s\<in>set (pl_steps q). cur = Some (st_id s) \<and>
         (is_ready (pl_steps q) s \<or> st_status s \<in> {Running, Blocked})))"
    using sc unfolding plan_state_after_completion_def
    by (auto simp: find_eq_None dest!: find_Some_D split: if_splits option.splits)
  moreover have "next_step_id (pl_steps q) = None \<longleftrightarrow>
      (\<forall>s\<in>set (pl_steps q). st_status s = Completed)"
  proof
    assume "next_step_id (pl_steps q) = None"
    with next_step_id_total[OF wf assms(2)] show "\<forall>s\<in>set (pl_steps q). st_status s = Completed"
      by force
  qed (auto simp: next_step_id_None is_ready_def)
  ultimately show ?thesis using sc by blast
qed

definition demo_plan2 :: plan where
  "demo_plan2 = \<lparr>pl_id = ''p'', pl_user = ''u'', pl_tenant = ''a'', pl_session = Some ''s'',
     pl_status = Pending, pl_current = Some ''s1'', pl_policy = None, pl_next_action = None,
     pl_last_event = None, pl_version = 0, pl_updated = 0, pl_formation = ''update'',
     pl_steps = [\<lparr>st_id = ''s1'', st_agent = ''x'', st_description = ''d'', st_status = Pending,
                  st_depends_on = [], st_artifacts = []\<rparr>,
                 \<lparr>st_id = ''s2'', st_agent = ''x'', st_description = ''d'', st_status = Pending,
                  st_depends_on = [''s1''], st_artifacts = []\<rparr>]\<rparr>"

lemma demo_plan2_ok: "construct_plan demo_plan2 = Inr demo_plan2"
  by code_simp

lemma plan_never_stuck_witness:
  "\<exists>st cur. plan_state_after_completion (pl_steps demo_plan2) = Inr (st, cur) \<and> st \<noteq> Completed"
  using plan_never_stuck[OF demo_plan2_ok] by (auto simp: demo_plan2_def)

text \<open>
  The transition of a step by an event never raises and only climbs. States are ranked pending,
  running, blocked, ended; the result has the higher of the two ranks, an ended step keeps its
  state whatever is proposed, and applying the same proposal again changes nothing. In particular
  the error \<open>Illegal Plan step transition\<close> of the code cannot occur.
\<close>

theorem step_status_climbs:
  "\<exists>r. advance_step_status c p = Inr r \<and> r \<in> {c, p} \<and>
     step_rank r = max (step_rank c) (step_rank p) \<and>
     (c \<in> terminal_statuses \<longrightarrow> r = c) \<and> advance_step_status r p = Inr r"
  using join_status_rank[of c p]
  by (simp add: advance_step_status_join) (simp add: join_status_def)

lemma step_status_climbs_witness:
  "advance_step_status Completed Failed = Inr Completed"
proof -
  have "Completed \<in> terminal_statuses" by (simp add: terminal_statuses_def)
  with step_status_climbs[of Completed Failed] show ?thesis by auto
qed

subsection \<open>The repository\<close>

lemma plan_store_reachable_trans:
  "(plan_store_step hash)\<^sup>*\<^sup>* s s' \<Longrightarrow> plan_store_ok s \<Longrightarrow> plan_store_ok s'"
  by (induction rule: rtranclp_induct) (auto intro: plan_store_step_ok)

definition demo_store :: plan_store where
  "demo_store = store_plan demo_plan2 False empty_plan_store"

lemma demo_plan2_wf: "steps_wf (pl_steps demo_plan2)"
  using validate_steps_Inr_iff[of demo_plan2] demo_plan2_ok by (auto simp: construct_plan_def oir_elim)

lemma demo_store_reachable: "plan_store_reachable hash demo_store"
proof -
  have "plan_save demo_plan2 False empty_plan_store = Inr (demo_plan2, demo_store)"
    by (simp add: plan_save_def demo_store_def empty_plan_store_def)
  from plan_store_step.save[OF demo_plan2_wf this] show ?thesis
    by (blast intro: plan_store_reachable.intros)
qed

lemma demo_store_get: "plan_get demo_store ''p'' ''a'' ''u'' = Some demo_plan2"
  by (simp add: demo_store_def plan_get_iff empty_plan_store_def) (simp add: demo_plan2_def)

lemma demo_claims: "dget (ps_claims demo_store) i = None"
  by (simp add: demo_store_def store_plan_claims empty_plan_store_def)

text \<open>
  C38: whatever sequence of repository calls is made, every stored plan is filed under its own
  identifier with distinct steps and an acyclic, closed dependency graph; an execution claim exists
  only for a stored plan that is running, carries exactly that plan's version, and counts as the
  plan's last attempt.
\<close>

theorem plan_repository_invariant:
  assumes "plan_store_reachable hash s"
  shows "(\<forall>i p. dget (ps_plans s) i = Some p \<longrightarrow>
      pl_id p = i \<and> distinct (step_ids (pl_steps p)) \<and> acyclic (dep_rel (plan_graph (pl_steps p))) \<and>
      (\<forall>x\<in>set (pl_steps p). set (st_depends_on x) \<subseteq> set (step_ids (pl_steps p)))) \<and>
    (\<forall>i c. dget (ps_claims s) i = Some c \<longrightarrow>
      (\<exists>p. dget (ps_plans s) i = Some p \<and> pl_status p = Running \<and> cl_version c = pl_version p) \<and>
      (case dget (ps_attempts s) i of None \<Rightarrow> 0 | Some n \<Rightarrow> n) = cl_attempt c)"
proof -
  note ok = plan_store_okD[OF plan_store_reachable_ok[OF assms]]
  have "distinct (step_ids (pl_steps p)) \<and> acyclic (dep_rel (plan_graph (pl_steps p))) \<and>
      (\<forall>x\<in>set (pl_steps p). set (st_depends_on x) \<subseteq> set (step_ids (pl_steps p)))"
    if "dget (ps_plans s) i = Some p" for i p
    using ok(4)[OF that] graph_closed_plan_graph[of "pl_steps p"] by (simp add: steps_wf_def)
  moreover have "(\<exists>p. dget (ps_plans s) i = Some p \<and> pl_status p = Running \<and> cl_version c = pl_version p) \<and>
      (case dget (ps_attempts s) i of None \<Rightarrow> 0 | Some n \<Rightarrow> n) = cl_attempt c"
    if "dget (ps_claims s) i = Some c" for i c
    using ok(5)[OF that] by (auto simp: claim_ok_def attempts_of_def split: option.splits)
  ultimately show ?thesis using ok(3) by blast
qed
lemma plan_repository_invariant_witness:
  "distinct (step_ids (pl_steps demo_plan2)) \<and> acyclic (dep_rel (plan_graph (pl_steps demo_plan2)))"
  using plan_repository_invariant[OF demo_store_reachable[of id]] demo_store_get
  by (auto simp: plan_get_iff)

text \<open>
  Two executors never hold a step of the same plan at the same time: in any sequence of claims
  by any callers, the lease intervals granted for one plan do not overlap.
\<close>

theorem plan_leases_disjoint:
  assumes "\<forall>(r, i, now, until)\<in>set as. now < until"
  shows "sorted_wrt (\<lambda>(i, now, until) (i', now', until'). i = i' \<longrightarrow> until \<le> now')
    (grants (claim_lease hash suppressed) as s)"
  using assms by (intro plan_claims.grants_disjoint) simp_all

lemma plan_leases_disjoint_witness:
  "grants (claim_lease id False) [((''s1'', ''c1'', ''a'', ''u''), ''p'', 0, 10),
      ((''s1'', ''c2'', ''a'', ''u''), ''p'', 5, 15), ((''s1'', ''c3'', ''a'', ''u''), ''p'', 10, 20)]
      demo_store = [(''p'', 0, 10), (''p'', 10, 20)] \<and>
   sorted_wrt (\<lambda>(i, now, until) (i', now', until'). i = i' \<longrightarrow> until \<le> now')
     (grants (claim_lease id False) [((''s1'', ''c1'', ''a'', ''u''), ''p'', 0, 10),
      ((''s1'', ''c2'', ''a'', ''u''), ''p'', 5, 15), ((''s1'', ''c3'', ''a'', ''u''), ''p'', 10, 20)]
      demo_store)"
proof (rule conjI)
  show "grants (claim_lease id False) [((''s1'', ''c1'', ''a'', ''u''), ''p'', 0, 10),
      ((''s1'', ''c2'', ''a'', ''u''), ''p'', 5, 15), ((''s1'', ''c3'', ''a'', ''u''), ''p'', 10, 20)]
      demo_store = [(''p'', 0, 10), (''p'', 10, 20)]" by code_simp
qed (rule plan_leases_disjoint, simp)

text \<open>
  Of any number of callers that read a plan at the same version and write it back with
  \<open>save_if_version\<close>, at most one succeeds, in whatever order they come.
\<close>

theorem plan_race_one_winner:
  assumes "\<forall>p\<in>set ps. pl_id p = i \<and> pl_version p = n + 1"
  shows "length (filter id (race (\<lambda>p n. plan_save_if_version p n fs) n ps s)) \<le> 1"
  using assms by (intro plan_versioned.race_at_most_one[of _ i]) simp

lemma plan_race_one_winner_witness:
  "let ps = [demo_plan2\<lparr>pl_version := 1\<rparr>, demo_plan2\<lparr>pl_version := 1, pl_status := Failed\<rparr>]
   in race (\<lambda>p n. plan_save_if_version p n False) 0 ps demo_store = [True, False] \<and>
      length (filter id (race (\<lambda>p n. plan_save_if_version p n False) 0 ps demo_store)) \<le> 1"
proof -
  have "race (\<lambda>p n. plan_save_if_version p n False) 0
      [demo_plan2\<lparr>pl_version := 1\<rparr>, demo_plan2\<lparr>pl_version := 1, pl_status := Failed\<rparr>] demo_store = [True, False]"
    by code_simp
  then show ?thesis unfolding Let_def
    by (intro conjI plan_race_one_winner[of _ "''p''"]) (simp_all add: demo_plan2_def)
qed

text \<open>
  A plan is cancelled only by its owner, only while it is active, and only if no step runs and
  no delegated run of it is active. Then every pending or blocked step is cancelled, finished steps
  keep their state, the version goes up by one and no claim remains; afterwards no step can be
  claimed and cancelling again reports so without a change. In every other case the repository
  answers with the stored plan and is left exactly as it was.
\<close>

theorem plan_cancel_correct:
  assumes "plan_cancel_unstarted i t u runs now fs s = (r, s')"
  shows "(\<forall>q. r = Some (q, Cancel_Done) \<longrightarrow>
      (\<exists>p. plan_get s i t u = Some p \<and> pl_status p \<in> active_statuses \<and>
        (\<forall>x\<in>set (pl_steps p). st_status x \<noteq> Running) \<and>
        (\<forall>rs. runs = Some rs \<longrightarrow> active_delegated_run_for_plan rs i t u = None) \<and>
        pl_status q = Cancelled \<and> pl_version q = pl_version p + 1 \<and> pl_current q = None \<and>
        pl_steps q = map (\<lambda>x. x\<lparr>st_status := if st_status x \<in> {Pending, Blocked} then Cancelled
                                            else st_status x\<rparr>) (pl_steps p) \<and>
        plan_get s' i t u = Some q \<and> dget (ps_claims s') i = None \<and>
        (\<forall>h st c until now2 fs2. plan_claim_step h i st t u c until now2 fs2 s' = (None, s')) \<and>
        (\<forall>runs2 now2 fs2. plan_cancel_unstarted i t u runs2 now2 fs2 s' =
           (Some (q, Already_Cancelled), s')))) \<and>
    ((\<forall>q. r \<noteq> Some (q, Cancel_Done)) \<longrightarrow> s' = s \<and>
      (case r of None \<Rightarrow> plan_get s i t u = None | Some (q, c) \<Rightarrow> plan_get s i t u = Some q))"
proof (intro conjI allI impI)
  fix q
  assume "r = Some (q, Cancel_Done)"
  with assms obtain p where p: "plan_get s i t u = Some p" "pl_status p \<in> active_statuses"
    "\<forall>st\<in>set (pl_steps p). st_status st \<noteq> Running"
    "\<And>rs. runs = Some rs \<Longrightarrow> active_delegated_run_for_plan rs i t u = None"
    and q: "q = p\<lparr>pl_status := Cancelled, pl_steps := cancelled_steps (pl_steps p),
           pl_current := None, pl_next_action := None, pl_version := pl_version p + 1,
           pl_updated := now, pl_formation := ''cancel''\<rparr>"
    and s': "ps_plans s' = dput i q (ps_plans s)" "ps_claims s' = dpop i (ps_claims s)"
    by (auto elim!: plan_cancel_done)
  have g: "plan_get s' i t u = Some q" using p(1) q s'(1) by (simp add: plan_get_iff)
  have steps: "cancelled_steps (pl_steps p) =
      map (\<lambda>x. x\<lparr>st_status := if st_status x \<in> {Pending, Blocked} then Cancelled
                               else st_status x\<rparr>) (pl_steps p)"
    by (simp add: cancelled_steps_def)
  have "plan_claim_step h i st t u c until now2 fs2 s' = (None, s')" for h st c until now2 fs2
    using g q by (simp add: plan_claim_step_def active_statuses_def)
  moreover have "plan_cancel_unstarted i t u runs2 now2 fs2 s' = (Some (q, Already_Cancelled), s')"
    for runs2 now2 fs2
    using g q by (simp add: plan_cancel_unstarted_def)
  ultimately show "\<exists>p. plan_get s i t u = Some p \<and> pl_status p \<in> active_statuses \<and>
        (\<forall>x\<in>set (pl_steps p). st_status x \<noteq> Running) \<and>
        (\<forall>rs. runs = Some rs \<longrightarrow> active_delegated_run_for_plan rs i t u = None) \<and>
        pl_status q = Cancelled \<and> pl_version q = pl_version p + 1 \<and> pl_current q = None \<and>
        pl_steps q = map (\<lambda>x. x\<lparr>st_status := if st_status x \<in> {Pending, Blocked} then Cancelled
                                            else st_status x\<rparr>) (pl_steps p) \<and>
        plan_get s' i t u = Some q \<and> dget (ps_claims s') i = None \<and>
        (\<forall>h st c until now2 fs2. plan_claim_step h i st t u c until now2 fs2 s' = (None, s')) \<and>
        (\<forall>runs2 now2 fs2. plan_cancel_unstarted i t u runs2 now2 fs2 s' =
           (Some (q, Already_Cancelled), s'))"
    using p g q s'(2) steps by (intro exI[of _ p] conjI) auto
next
  assume n: "\<forall>q. r \<noteq> Some (q, Cancel_Done)"
  show "s' = s" using plan_cancel_unchanged[OF assms] n by blast
  show "case r of None \<Rightarrow> plan_get s i t u = None | Some (q, c) \<Rightarrow> plan_get s i t u = Some q"
    using assms n by (auto simp: plan_cancel_unstarted_def Let_def split: option.splits if_splits)
qed

lemma plan_cancel_correct_witness:
  "\<exists>q s'. plan_cancel_unstarted ''p'' ''a'' ''u'' None 9 False demo_store = (Some (q, Cancel_Done), s') \<and>
     pl_status q = Cancelled \<and> dget (ps_claims s') ''p'' = None \<and>
     plan_cancel_unstarted ''p'' ''a'' ''u'' None 10 False s' = (Some (q, Already_Cancelled), s')"
proof -
  obtain q s' where c: "plan_cancel_unstarted ''p'' ''a'' ''u'' None 9 False demo_store =
      (Some (q, Cancel_Done), s')"
    by (simp add: plan_cancel_unstarted_def demo_store_get) (simp add: demo_plan2_def Let_def)
  from plan_cancel_correct[OF this] c show ?thesis by blast
qed

text \<open>
  C39: a claim fences the plan. After a claim was granted, the result of the step is saved exactly when
  it names that very claim and that step, belongs to the tenant and the user of the plan and has the next
  version; a refused save changes nothing; the
  save releases the claim, so it succeeds at most once; and an executor whose lease was taken over
  by another can no longer write.
\<close>

theorem claimed_write_fenced:
  assumes "plan_store_ok s" "plan_claim_step h i st t u c until now fs s = (Some q, s1)"
    "pl_id x = i"
  shows "((\<exists>y s2. plan_save_claimed_step x st' c' fs2 now2 s1 = (Some y, s2)) \<longleftrightarrow>
      st' = st \<and> c' = c \<and> pl_version x = pl_version q + 1 \<and> pl_tenant x = t \<and> pl_user x = u) \<and>
    (\<forall>s2. plan_save_claimed_step x st' c' fs2 now2 s1 = (None, s2) \<longrightarrow> s2 = s1) \<and>
    (\<forall>y s2. plan_save_claimed_step x st' c' fs2 now2 s1 = (Some y, s2) \<longrightarrow>
      y = x\<lparr>pl_updated := now2\<rparr> \<and> plan_get s2 i t u = Some y \<and>
      (\<forall>z st3 c3 fs3 now3. pl_id z = i \<longrightarrow> plan_save_claimed_step z st3 c3 fs3 now3 s2 = (None, s2)))"
proof -
  from assms(2) obtain p key att where p: "plan_get s i t u = Some p"
    and q: "q = p\<lparr>pl_steps := set_step_status st Running (pl_steps p), pl_current := Some st,
           pl_status := Running, pl_next_action := None, pl_version := pl_version p + 1,
           pl_updated := now, pl_formation := ''update''\<rparr>"
    and s1: "ps_plans s1 = dput i q (ps_plans s)"
      "ps_claims s1 = dput i \<lparr>cl_step = st, cl_claim = c, cl_expires = until,
        cl_version = pl_version q, cl_key = key, cl_attempt = att\<rparr> (ps_claims s)"
    by (auto elim: plan_claim_step_Some)
  have "pl_tenant q = t" "pl_user q = u" using p q by (simp_all add: plan_get_iff)
  then show ?thesis
    using s1 assms(3) by (auto simp: plan_save_claimed_step_def Let_def plan_get_iff split: if_splits)
qed

lemma claimed_write_fenced_witness:
  "\<exists>q s1 y s2. plan_claim_step id ''p'' ''s1'' ''a'' ''u'' ''c'' 10 0 False demo_store = (Some q, s1) \<and>
     plan_save_claimed_step (demo_plan2\<lparr>pl_version := 2\<rparr>) ''s1'' ''c'' False 5 s1 = (Some y, s2) \<and>
     (\<forall>z s3. plan_save_claimed_step (demo_plan2\<lparr>pl_version := 2, pl_user := ''x''\<rparr>) ''s1'' ''c'' False 5 s1 \<noteq> (Some z, s3)) \<and>
     plan_save_claimed_step (demo_plan2\<lparr>pl_version := 3\<rparr>) ''s1'' ''c'' False 6 s2 = (None, s2)"
proof -
  have ok: "plan_store_ok demo_store"
    using plan_store_reachable_ok[OF demo_store_reachable[of id]] .
  obtain q s1 where c: "plan_claim_step id ''p'' ''s1'' ''a'' ''u'' ''c'' 10 0 False demo_store = (Some q, s1)"
    and v: "pl_version q = 1"
    by (simp add: plan_claim_step_def demo_store_get demo_claims claim_expired_def)
      (simp add: demo_plan2_def active_statuses_def Let_def demo_claims claim_expired_def)
  note f = claimed_write_fenced[OF ok c, where x = "demo_plan2\<lparr>pl_version := 2\<rparr>" and st' = "''s1''"
      and c' = "''c''" and ?fs2.0 = False and ?now2.0 = 5]
  have d: "pl_tenant demo_plan2 = ''a''" "pl_user demo_plan2 = ''u''" "pl_id demo_plan2 = ''p''"
    by (simp_all add: demo_plan2_def)
  from f d v obtain y s2 where
    "plan_save_claimed_step (demo_plan2\<lparr>pl_version := 2\<rparr>) ''s1'' ''c'' False 5 s1 = (Some y, s2)" by auto
  moreover have "\<And>y s2. plan_save_claimed_step (demo_plan2\<lparr>pl_version := 2, pl_user := ''x''\<rparr>) ''s1'' ''c'' False 5 s1 \<noteq> (Some y, s2)"
    using claimed_write_fenced[OF ok c, where x = "demo_plan2\<lparr>pl_version := 2, pl_user := ''x''\<rparr>" and st' = "''s1''"
      and c' = "''c''" and ?fs2.0 = False and ?now2.0 = 5] d by auto
  ultimately show ?thesis using f d c by (intro exI conjI) auto
qed


text \<open>
  The execution key identifies one attempt. Claiming a step again after its lease expired keeps
  key and attempt number, so the agent can recognise the retried call; a claim made while no claim
  is held counts one more attempt.
\<close>

theorem execution_key_stable:
  assumes "plan_claim_step h i st t u c until now fs s = (Some q, s1)"
    "\<forall>old. dget (ps_claims s) i = Some old \<longrightarrow> cl_key old \<noteq> []"
  shows "(\<forall>old. dget (ps_claims s) i = Some old \<and> cl_step old = st \<longrightarrow>
      execution_claim_key s1 i c = Some (cl_key old) \<and>
      (\<exists>new. dget (ps_claims s1) i = Some new \<and> cl_attempt new = cl_attempt old)) \<and>
    (dget (ps_claims s) i = None \<longrightarrow>
      execution_claim_key s1 i c = Some (execution_key h i st (attempts_of s i + 1)) \<and>
      attempts_of s1 i = attempts_of s i + 1)"
proof (cases "dget (ps_claims s) i")
  case None
  with assms(1) have "dget (ps_claims s1) i = Some \<lparr>cl_step = st, cl_claim = c, cl_expires = until,
      cl_version = pl_version q, cl_key = execution_key h i st (attempts_of s i + 1),
      cl_attempt = attempts_of s i + 1\<rparr> \<and> attempts_of s1 i = attempts_of s i + 1"
    unfolding plan_claim_step_def attempts_of_def [of s1]
    by (auto simp: Let_def split: option.splits if_splits)
  with None show ?thesis by (simp add: execution_claim_key_def)
next
  case (Some old)
  with plan_claim_step_Some[OF assms(1)] have e: "cl_expires old \<le> now" by metis
  show ?thesis
  proof (cases "cl_step old = st")
    case True
    with Some e assms have "dget (ps_claims s1) i = Some \<lparr>cl_step = st, cl_claim = c,
        cl_expires = until, cl_version = pl_version q, cl_key = cl_key old,
        cl_attempt = cl_attempt old\<rparr>"
      by (auto simp: plan_claim_step_def Let_def claim_expired_def split: option.splits if_splits)
    with Some show ?thesis by (simp add: execution_claim_key_def)
  qed (simp add: Some)
qed

lemma execution_key_stable_witness:
  "\<exists>q s1. plan_claim_step id ''p'' ''s1'' ''a'' ''u'' ''c'' 10 0 False demo_store = (Some q, s1) \<and>
     execution_claim_key s1 ''p'' ''c'' = Some (execution_key id ''p'' ''s1'' 1)"
proof -
  obtain q s1 where c: "plan_claim_step id ''p'' ''s1'' ''a'' ''u'' ''c'' 10 0 False demo_store = (Some q, s1)"
    by (simp add: plan_claim_step_def demo_store_get demo_claims claim_expired_def)
      (simp add: demo_plan2_def active_statuses_def Let_def demo_claims claim_expired_def)
  have "attempts_of demo_store ''p'' = 0"
    by (simp add: attempts_of_def demo_store_def empty_plan_store_def)
  with execution_key_stable[OF c] c demo_claims show ?thesis by auto
qed

end
