(* ===== verification/Delegated_Model.thy ===== *)
theory Delegated_Model
  imports Run_Store
begin

text \<open>
  The delegated-run schemas of \<open>app/schemas/delegated_runs.py\<close>: the lifecycle status, the
  reference handed to callers and the commands. \<open>DelegatedRunEventCommand\<close> is the base record
  the command records extend, as in the source. The field constraints are the \<open>*_ok\<close> predicates.
\<close>

datatype delegated_status =
    DelPending | DelRunning | DelBlocked | DelCompleted | DelFailed | DelCancelled | DelTimedOut

definition delegated_terminal :: "delegated_status \<Rightarrow> bool" where
  "delegated_terminal st \<longleftrightarrow> st \<in> {DelCompleted, DelFailed, DelCancelled, DelTimedOut}"

text \<open>\<open>Field(min_length=1, max_length=n)\<close> and the optional identifier.\<close>

definition id_ok :: "nat \<Rightarrow> string \<Rightarrow> bool" where
  "id_ok n s \<longleftrightarrow> 1 \<le> length s \<and> length s \<le> n"

definition opt_id_ok :: "nat \<Rightarrow> string option \<Rightarrow> bool" where
  "opt_id_ok n x = (case x of None \<Rightarrow> True | Some s \<Rightarrow> length s \<le> n)"

record start_command =
  sc_tenant :: ident
  sc_user :: ident
  sc_session :: ident
  sc_request :: ident
  sc_turn :: ident
  sc_agent :: ident
  sc_plan :: "ident option"
  sc_step :: "ident option"
  sc_deadline :: time
  sc_input :: json
  sc_metadata :: json

definition start_command_ok :: "start_command \<Rightarrow> bool" where
  "start_command_ok c \<longleftrightarrow>
     (\<forall>s\<in>{sc_tenant c, sc_user c, sc_session c, sc_request c, sc_turn c, sc_agent c}. id_ok 128 s) \<and>
     opt_id_ok 128 (sc_plan c) \<and> opt_id_ok 128 (sc_step c)"

record event_command =
  cm_event :: ident
  cm_run :: ident
  cm_turn :: ident
  cm_tenant :: ident
  cm_user :: ident
  cm_agent :: ident
  cm_plan :: "ident option"
  cm_step :: "ident option"
  cm_version :: nat
  cm_at :: time

definition event_command_ok :: "('a event_command_scheme) \<Rightarrow> bool" where
  "event_command_ok c \<longleftrightarrow>
     (\<forall>s\<in>{cm_event c, cm_run c, cm_turn c, cm_tenant c, cm_user c, cm_agent c}. id_ok 128 s) \<and>
     opt_id_ok 128 (cm_plan c) \<and> opt_id_ok 128 (cm_step c) \<and> 1 \<le> cm_version c"

record progress_command = event_command +
  pc_type :: agent_event_type
  pc_sequence :: nat
  pc_status :: string
  pc_payload :: json

text \<open>\<open>validate_event_status\<close>, with the field constraints of the progress command.\<close>

definition progress_command_ok :: "progress_command \<Rightarrow> bool" where
  "progress_command_ok c \<longleftrightarrow>
     event_command_ok c \<and> pc_type c \<in> {Agent_Started, Agent_Progress, Agent_Clarify} \<and>
     1 \<le> pc_sequence c \<and>
     pc_status c = (if pc_type c = Agent_Clarify then ''blocked'' else ''running'')"

record complete_command = event_command +
  cc_result :: ident
  cc_text :: string
  cc_output :: "json option"
  cc_artifacts :: "json list"

definition complete_command_ok :: "complete_command \<Rightarrow> bool" where
  "complete_command_ok c \<longleftrightarrow>
     event_command_ok c \<and> id_ok 128 (cc_result c) \<and> length (cc_text c) \<le> 20000 \<and>
     length (cc_artifacts c) \<le> 50"

record fail_command = event_command +
  fc_error :: json

record cancel_command = event_command +
  xc_reason :: string

record timeout_command = event_command +
  tc_deadline :: time
  tc_reason :: string

record run_reference =
  dr_run :: ident
  dr_turn :: ident
  dr_tenant :: ident
  dr_user :: ident
  dr_agent :: ident
  dr_plan :: "ident option"
  dr_step :: "ident option"
  dr_status :: delegated_status
  dr_version :: nat
  dr_deadline :: time

record command_result =
  rr_run :: run_reference
  rr_duplicate :: bool
  rr_result :: "ident option"
  rr_turn :: ident

end
