(* ===== verification/Turn_Store.thy ===== *)
theory Turn_Store
  imports Store_Contracts
begin

text \<open>
  Canonical turns (\<open>app/schemas/turns.py\<close>), their in-memory repository
  (\<open>MemoryTurnRepository\<close> of \<open>app/repositories/turns.py\<close>), the transactional outbox
  (\<open>MemoryTurnOutboxRepository\<close> of \<open>app/repositories/turn_outbox.py\<close>) and the store that completes
  a routed turn together with its outbox event (\<open>app/repositories/turn_route_completion.py\<close>).
\<close>

subsection \<open>Turns\<close>

datatype turn_status =
    TurnPending | TurnRouting | TurnRunning | TurnBlocked
  | TurnCompleted | TurnFailed | TurnCancelled | TurnTimedOut

definition turn_is_terminal :: "turn_status \<Rightarrow> bool" where
  "turn_is_terminal st \<longleftrightarrow> st \<in> {TurnCompleted, TurnFailed, TurnCancelled, TurnTimedOut}"

datatype response_kind =
  Kind_Reply | Kind_Clarify | Kind_Unsupported | Kind_Silent | Kind_Agent_Result | Kind_Error

record turn_refs =
  tr_decision :: "ident option"
  tr_runs :: "ident list"
  tr_results :: "ident list"
  tr_plan :: "ident option"
  tr_events :: "ident list"

record user_input =
  ui_text :: string
  ui_metadata :: json

record semantic_response =
  sr_kind :: response_kind
  sr_text :: string
  sr_output :: "json option"
  sr_error :: "json option"

record turn =
  tn_id :: ident
  tn_tenant :: ident
  tn_user :: ident
  tn_session :: ident
  tn_request :: ident
  tn_source :: string
  tn_status :: turn_status
  tn_version :: nat
  tn_input :: user_input
  tn_refs :: turn_refs
  tn_response :: "semantic_response option"
  tn_created :: time
  tn_updated :: time
  tn_completed :: "time option"

definition empty_refs :: turn_refs where
  "empty_refs = \<lparr>tr_decision = None, tr_runs = [], tr_results = [], tr_plan = None, tr_events = []\<rparr>"

text \<open>\<open>validate_terminal_shape\<close>.\<close>

definition turn_shape :: "turn \<Rightarrow> py_exn + turn" where
  "turn_shape t =
     (if tn_status t = TurnCompleted \<and> tn_response t = None
      then Inl (Value_Error ''completed turn requires a final semantic response'')
      else if turn_is_terminal (tn_status t) \<noteq> (tn_completed t \<noteq> None)
      then Inl (Value_Error ''terminal turn and completed_at must be set together'')
      else if tn_completed t \<noteq> None \<and> the (tn_completed t) < tn_created t
      then Inl (Value_Error ''completed_at must not precede created_at'')
      else Inr t)"

text \<open>Equality of the nested models, as Python compares them.\<close>

definition input_eq :: "user_input \<Rightarrow> user_input \<Rightarrow> bool" where
  "input_eq a b \<longleftrightarrow> ui_text a = ui_text b \<and> py_eq (ui_metadata a) (ui_metadata b)"

definition response_eq :: "semantic_response \<Rightarrow> semantic_response \<Rightarrow> bool" where
  "response_eq a b \<longleftrightarrow>
     sr_kind a = sr_kind b \<and> sr_text a = sr_text b \<and>
     py_eq_opt (sr_output a) (sr_output b) \<and> py_eq_opt (sr_error a) (sr_error b)"

definition response_opt_eq :: "semantic_response option \<Rightarrow> semantic_response \<Rightarrow> bool" where
  "response_opt_eq a b = (case a of None \<Rightarrow> False | Some x \<Rightarrow> response_eq x b)"

subsection \<open>The turn repository\<close>

record turn_store =
  ts_turns :: "(ident, turn) dict"
  ts_owner_requests :: "(ident \<times> ident \<times> ident, ident) dict"
  ts_request_ids :: "(ident, ident) dict"

definition empty_turn_store :: turn_store where
  "empty_turn_store = \<lparr>ts_turns = [], ts_owner_requests = [], ts_request_ids = []\<rparr>"

definition owner_request_key :: "turn \<Rightarrow> ident \<times> ident \<times> ident" where
  "owner_request_key t = (tn_tenant t, tn_user t, tn_request t)"

text \<open>
  \<open>self.turns[existing_id]\<close> on a missing key is a \<open>KeyError\<close>; the index and the turns are
  written together, so it does not arise on a consistent store. It is \<open>Runtime_Error\<close> here.
\<close>

definition turn_create ::
    "turn \<Rightarrow> turn_store \<Rightarrow> py_exn + (turn \<times> bool) \<times> turn_store" where
  "turn_create t s =
     (case dget (ts_owner_requests s) (owner_request_key t) of
        Some i \<Rightarrow>
          (case dget (ts_turns s) i of
             None \<Rightarrow> Inl (Runtime_Error ''KeyError'')
           | Some x \<Rightarrow> Inr ((x, False), s))
      | None \<Rightarrow>
          if dget (ts_request_ids s) (tn_request t) \<noteq> None
          then Inl (Turn_Ownership_Conflict ''request_id is already owned by another identity'')
          else if dget (ts_turns s) (tn_id t) \<noteq> None
          then Inl (Turn_Ownership_Conflict ''turn_id is already owned by another request'')
          else Inr ((t, True),
                    s\<lparr>ts_turns := dput (tn_id t) t (ts_turns s),
                      ts_owner_requests := dput (owner_request_key t) (tn_id t) (ts_owner_requests s),
                      ts_request_ids := dput (tn_request t) (tn_id t) (ts_request_ids s)\<rparr>))"

definition turn_get :: "turn_store \<Rightarrow> ident \<Rightarrow> ident \<Rightarrow> ident \<Rightarrow> turn option" where
  "turn_get s i tenant user =
     (case dget (ts_turns s) i of
        None \<Rightarrow> None
      | Some t \<Rightarrow> if tn_tenant t \<noteq> tenant \<or> tn_user t \<noteq> user then None else Some t)"

definition turn_get_by_request :: "turn_store \<Rightarrow> ident \<Rightarrow> ident \<Rightarrow> ident \<Rightarrow> turn option" where
  "turn_get_by_request s tenant user request =
     (case dget (ts_owner_requests s) (tenant, user, request) of
        None \<Rightarrow> None
      | Some i \<Rightarrow> dget (ts_turns s) i)"

definition turn_find_by_request :: "turn_store \<Rightarrow> ident \<Rightarrow> turn option" where
  "turn_find_by_request s request =
     (case dget (ts_request_ids s) request of
        None \<Rightarrow> None
      | Some i \<Rightarrow> dget (ts_turns s) i)"

definition turn_validate_update :: "turn \<Rightarrow> turn \<Rightarrow> nat \<Rightarrow> py_exn + unit" where
  "turn_validate_update existing incoming expected =
     (if \<not> (tn_id existing = tn_id incoming \<and> tn_tenant existing = tn_tenant incoming \<and>
            tn_user existing = tn_user incoming \<and> tn_session existing = tn_session incoming \<and>
            tn_request existing = tn_request incoming \<and> tn_source existing = tn_source incoming)
      then Inl (Turn_Ownership_Conflict ''turn identity cannot be changed'')
      else if turn_is_terminal (tn_status existing)
      then Inl (Turn_Terminal_State ''terminal turn cannot be updated'')
      else if tn_version incoming \<noteq> expected + 1
      then Inl (Value_Error ''turn state_version must advance by exactly one'')
      else Inr ())"

definition turn_update_if_version ::
    "turn \<Rightarrow> nat \<Rightarrow> turn_store \<Rightarrow> py_exn + turn option \<times> turn_store" where
  "turn_update_if_version t expected s =
     (case dget (ts_turns s) (tn_id t) of
        None \<Rightarrow> Inr (None, s)
      | Some existing \<Rightarrow>
          if tn_version existing \<noteq> expected then Inr (None, s)
          else ebind (turn_validate_update existing t expected) (\<lambda>_.
                 Inr (Some t, s\<lparr>ts_turns := dput (tn_id t) t (ts_turns s)\<rparr>)))"

subsection \<open>The outbox\<close>

datatype outbox_status = Outbox_Pending | Outbox_Claimed | Outbox_Retry | Outbox_Completed
  | Outbox_Dead_Letter

record outbox_event =
  ob_id :: ident
  ob_turn :: ident
  ob_type :: string
  ob_key :: string
  ob_payload :: json
  ob_status :: outbox_status
  ob_attempts :: nat
  ob_max_attempts :: nat
  ob_available :: time
  ob_owner :: "ident option"
  ob_token :: "string option"
  ob_expires :: "time option"
  ob_published :: "time option"
  ob_error :: "string option"
  ob_created :: "time option"
  ob_updated :: "time option"

text \<open>\<open>TurnOutboxEvent(\<dots>)\<close> with the schema's defaults.\<close>

definition new_outbox :: "ident \<Rightarrow> ident \<Rightarrow> string \<Rightarrow> string \<Rightarrow> json \<Rightarrow> time \<Rightarrow> outbox_event" where
  "new_outbox i turn_id typ key payload available =
     \<lparr>ob_id = i, ob_turn = turn_id, ob_type = typ, ob_key = key, ob_payload = payload,
      ob_status = Outbox_Pending, ob_attempts = 0, ob_max_attempts = 5, ob_available = available,
      ob_owner = None, ob_token = None, ob_expires = None, ob_published = None, ob_error = None,
      ob_created = None, ob_updated = None\<rparr>"

record outbox =
  ox_events :: "(ident, outbox_event) dict"
  ox_keys :: "(string, ident) dict"

definition empty_outbox :: outbox where
  "empty_outbox = \<lparr>ox_events = [], ox_keys = []\<rparr>"

definition outbox_add ::
    "outbox_event \<Rightarrow> outbox \<Rightarrow> py_exn + (outbox_event \<times> bool) \<times> outbox" where
  "outbox_add e s =
     (if str_set (dget (ox_keys s) (ob_key e)) then
        (case dget (ox_events s) (the (dget (ox_keys s) (ob_key e))) of
           None \<Rightarrow> Inl (Runtime_Error ''KeyError'')
         | Some x \<Rightarrow> Inr ((x, False), s))
      else Inr ((e, True),
                s\<lparr>ox_events := dput (ob_id e) e (ox_events s),
                  ox_keys := dput (ob_key e) (ob_id e) (ox_keys s)\<rparr>))"

definition outbox_claimable :: "time \<Rightarrow> outbox_event \<Rightarrow> bool" where
  "outbox_claimable now e \<longleftrightarrow>
     (ob_status e \<in> {Outbox_Pending, Outbox_Retry} \<and> ob_available e \<le> now) \<or>
     (ob_status e = Outbox_Claimed \<and> (case ob_expires e of None \<Rightarrow> False | Some x \<Rightarrow> x \<le> now))"

definition outbox_claim ::
    "ident \<Rightarrow> string \<Rightarrow> time \<Rightarrow> int \<Rightarrow> outbox \<Rightarrow> outbox_event option \<times> outbox" where
  "outbox_claim owner token now lease s =
     (let candidates = filter (outbox_claimable now) (dvalues (ox_events s))
      in if candidates = [] then (None, s)
         else
           let e = arg_min_list (\<lambda>x. (ob_available x, ob_id x)) candidates;
               claimed = e\<lparr>ob_status := Outbox_Claimed, ob_owner := Some owner,
                           ob_token := Some token, ob_expires := Some (now + lease),
                           ob_updated := Some now\<rparr>
           in (Some claimed, s\<lparr>ox_events := dput (ob_id e) claimed (ox_events s)\<rparr>))"

definition outbox_claimed :: "ident \<Rightarrow> ident \<Rightarrow> string \<Rightarrow> outbox \<Rightarrow> py_exn + outbox_event" where
  "outbox_claimed i owner token s =
     (case dget (ox_events s) i of
        None \<Rightarrow> Inl (Outbox_Claim_Conflict ''outbox event not found'')
      | Some e \<Rightarrow>
          if ob_status e = Outbox_Completed then Inr e
          else if ob_status e \<noteq> Outbox_Claimed \<or> ob_owner e \<noteq> Some owner \<or> ob_token e \<noteq> Some token
          then Inl (Outbox_Claim_Conflict ''outbox claim does not match'')
          else Inr e)"

definition outbox_complete ::
    "ident \<Rightarrow> ident \<Rightarrow> string \<Rightarrow> time \<Rightarrow> outbox \<Rightarrow> py_exn + outbox_event \<times> outbox" where
  "outbox_complete i owner token now s =
     ebind (outbox_claimed i owner token s) (\<lambda>e.
       if ob_status e = Outbox_Completed then Inr (e, s)
       else
         let done' = e\<lparr>ob_status := Outbox_Completed, ob_published := Some now, ob_owner := None,
                       ob_token := None, ob_expires := None, ob_updated := Some now\<rparr>
         in Inr (done', s\<lparr>ox_events := dput i done' (ox_events s)\<rparr>))"

definition outbox_fail ::
    "ident \<Rightarrow> ident \<Rightarrow> string \<Rightarrow> time \<Rightarrow> time \<Rightarrow> string \<Rightarrow> outbox \<Rightarrow> py_exn + outbox_event \<times> outbox" where
  "outbox_fail i owner token now retry_at error_code s =
     ebind (outbox_claimed i owner token s) (\<lambda>e.
       let attempts = ob_attempts e + 1;
           failed = e\<lparr>ob_status := (if attempts \<ge> ob_max_attempts e then Outbox_Dead_Letter
                                    else Outbox_Retry),
                      ob_attempts := attempts, ob_available := retry_at,
                      ob_error := Some error_code, ob_owner := None, ob_token := None,
                      ob_expires := None, ob_updated := Some now\<rparr>
       in Inr (failed, s\<lparr>ox_events := dput i failed (ox_events s)\<rparr>))"

subsection \<open>Completing a routed turn with its outbox event\<close>

record turn_world =
  tw_turns :: turn_store
  tw_outbox :: outbox

text \<open>
  The turn is written before the outbox event; an exception of the second write would leave the
  first one in place, so the resulting world is returned beside the outcome.
\<close>

definition route_completion ::
    "turn \<Rightarrow> nat \<Rightarrow> outbox_event \<Rightarrow> turn_world \<Rightarrow> (py_exn + turn option) \<times> turn_world" where
  "route_completion t expected e w =
     (case turn_update_if_version t expected (tw_turns w) of
        Inl err \<Rightarrow> (Inl err, w)
      | Inr (None, ts) \<Rightarrow> (Inr None, w\<lparr>tw_turns := ts\<rparr>)
      | Inr (Some x, ts) \<Rightarrow>
          (case outbox_add e (tw_outbox w) of
             Inl err \<Rightarrow> (Inl err, w\<lparr>tw_turns := ts\<rparr>)
           | Inr (_, ox) \<Rightarrow> (Inr (Some x), w\<lparr>tw_turns := ts, tw_outbox := ox\<rparr>)))"

subsection \<open>The turn repository as a state machine\<close>

inductive turn_store_step :: "turn_store \<Rightarrow> turn_store \<Rightarrow> bool" where
  create: "turn_create t s = Inr (r, s') \<Longrightarrow> turn_store_step s s'"
| update: "turn_update_if_version t n s = Inr (r, s') \<Longrightarrow> turn_store_step s s'"

abbreviation turn_store_steps :: "turn_store \<Rightarrow> turn_store \<Rightarrow> bool" where
  "turn_store_steps \<equiv> turn_store_step\<^sup>*\<^sup>*"

definition turn_indexed :: "turn_store \<Rightarrow> turn \<Rightarrow> bool" where
  "turn_indexed s t \<longleftrightarrow>
     dget (ts_owner_requests s) (owner_request_key t) = Some (tn_id t) \<and>
     dget (ts_request_ids s) (tn_request t) = Some (tn_id t)"

text \<open>
  The invariant: turns are filed under their own identifier, and both indexes agree with the
  turns in both directions. A request identifier therefore names at most one turn.
\<close>

definition turn_store_ok :: "turn_store \<Rightarrow> bool" where
  "turn_store_ok s \<longleftrightarrow>
     dict_ok (ts_turns s) \<and>
     (\<forall>i t. dget (ts_turns s) i = Some t \<longrightarrow> tn_id t = i \<and> turn_indexed s t) \<and>
     (\<forall>k i. dget (ts_owner_requests s) k = Some i \<longrightarrow>
        (\<exists>t. dget (ts_turns s) i = Some t \<and> owner_request_key t = k)) \<and>
     (\<forall>r i. dget (ts_request_ids s) r = Some i \<longrightarrow>
        (\<exists>t. dget (ts_turns s) i = Some t \<and> tn_request t = r))"

lemma turn_store_okD:
  assumes "turn_store_ok s"
  shows "dict_ok (ts_turns s)"
    "dget (ts_turns s) i = Some t \<Longrightarrow> tn_id t = i"
    "dget (ts_turns s) i = Some t \<Longrightarrow> turn_indexed s t"
    "dget (ts_owner_requests s) k = Some i \<Longrightarrow>
       \<exists>t. dget (ts_turns s) i = Some t \<and> owner_request_key t = k"
    "dget (ts_request_ids s) r = Some i \<Longrightarrow> \<exists>t. dget (ts_turns s) i = Some t \<and> tn_request t = r"
  using assms unfolding turn_store_ok_def by blast+

lemma empty_turn_store_ok: "turn_store_ok empty_turn_store"
  by (simp add: turn_store_ok_def empty_turn_store_def)

text \<open>What an update that was accepted has established.\<close>

lemma turn_update_Some:
  assumes "turn_update_if_version t n s = Inr (Some x, s')"
  obtains old where "dget (ts_turns s) (tn_id t) = Some old" "tn_version old = n"
    "\<not> turn_is_terminal (tn_status old)" "tn_version t = n + 1" "x = t"
    "owner_request_key t = owner_request_key old" "tn_session t = tn_session old"
    "tn_source t = tn_source old" "tn_id old = tn_id t"
    "s' = s\<lparr>ts_turns := dput (tn_id t) t (ts_turns s)\<rparr>"
  using assms
  by (auto simp: turn_update_if_version_def turn_validate_update_def owner_request_key_def
      split: option.splits if_splits)

lemma turn_update_None: "turn_update_if_version t n s = Inr (None, s') \<Longrightarrow> s' = s"
  by (auto simp: turn_update_if_version_def turn_validate_update_def
      split: option.splits if_splits)

lemma turn_create_fresh:
  assumes "turn_create t s = Inr ((x, True), s')"
  obtains "x = t" "dget (ts_owner_requests s) (owner_request_key t) = None"
    "dget (ts_request_ids s) (tn_request t) = None" "dget (ts_turns s) (tn_id t) = None"
    "s' = s\<lparr>ts_turns := dput (tn_id t) t (ts_turns s),
            ts_owner_requests := dput (owner_request_key t) (tn_id t) (ts_owner_requests s),
            ts_request_ids := dput (tn_request t) (tn_id t) (ts_request_ids s)\<rparr>"
  using assms by (auto simp: turn_create_def split: option.splits if_splits)

lemma turn_create_existing:
  assumes "turn_create t s = Inr ((x, False), s')"
  obtains i where "s' = s" "dget (ts_owner_requests s) (owner_request_key t) = Some i"
    "dget (ts_turns s) i = Some x"
  using assms by (auto simp: turn_create_def split: option.splits if_splits)

lemma turn_create_ok:
  assumes ok: "turn_store_ok s" and c: "turn_create t s = Inr ((x, b), s')"
  shows "turn_store_ok s'"
proof (cases b)
  case True
  with c have f: "dget (ts_owner_requests s) (owner_request_key t) = None"
      "dget (ts_request_ids s) (tn_request t) = None" "dget (ts_turns s) (tn_id t) = None"
    and s': "s' = s\<lparr>ts_turns := dput (tn_id t) t (ts_turns s),
            ts_owner_requests := dput (owner_request_key t) (tn_id t) (ts_owner_requests s),
            ts_request_ids := dput (tn_request t) (tn_id t) (ts_request_ids s)\<rparr>"
    by (auto elim!: turn_create_fresh)
  have "turn_indexed s' y" if "dget (ts_turns s') i = Some y" for i y
    using that f turn_store_okD(3)[OF ok, of i y] s'
    by (auto simp: turn_indexed_def split: if_splits)
  moreover have "\<exists>y. dget (ts_turns s') i = Some y \<and> owner_request_key y = k"
    if "dget (ts_owner_requests s') k = Some i" for k i
    using that f turn_store_okD(4)[OF ok, of k i] s' by (auto split: if_splits)
  moreover have "\<exists>y. dget (ts_turns s') i = Some y \<and> tn_request y = r"
    if "dget (ts_request_ids s') r = Some i" for r i
    using that f turn_store_okD(5)[OF ok, of r i] s' by (auto split: if_splits)
  ultimately show ?thesis
    using turn_store_okD(1,2)[OF ok] s' by (simp add: turn_store_ok_def split: if_splits)
next
  case False
  with c ok show ?thesis by (auto elim!: turn_create_existing)
qed

lemma turn_update_ok:
  assumes ok: "turn_store_ok s" and c: "turn_update_if_version t n s = Inr (r, s')"
  shows "turn_store_ok s'"
proof (cases r)
  case None
  with c ok show ?thesis by (auto dest: turn_update_None)
next
  case (Some x)
  with c obtain old where old: "dget (ts_turns s) (tn_id t) = Some old" "tn_id old = tn_id t"
    "owner_request_key t = owner_request_key old"
    and s': "s' = s\<lparr>ts_turns := dput (tn_id t) t (ts_turns s)\<rparr>"
    by (auto elim!: turn_update_Some)
  have at: "turn_indexed s' t"
    using turn_store_okD(3)[OF ok old(1)] old s'
    by (simp add: turn_indexed_def owner_request_key_def)
  have ix: "turn_indexed s' y \<and> tn_id y = i" if "dget (ts_turns s') i = Some y" for i y
  proof (cases "i = tn_id t")
    case True
    with that s' at show ?thesis by simp
  next
    case False
    with that s' have "dget (ts_turns s) i = Some y" by simp
    with turn_store_okD(2,3)[OF ok, of i y] s' show ?thesis by (simp add: turn_indexed_def)
  qed
  have own: "\<exists>y. dget (ts_turns s') i = Some y \<and> owner_request_key y = k"
    if "dget (ts_owner_requests s') k = Some i" for k i
    using that old turn_store_okD(4)[OF ok, of k i] s' by (cases "i = tn_id t") auto
  have req: "\<exists>y. dget (ts_turns s') i = Some y \<and> tn_request y = q"
    if "dget (ts_request_ids s') q = Some i" for q i
    using that old turn_store_okD(5)[OF ok, of q i] s'
    by (cases "i = tn_id t") (auto simp: owner_request_key_def)
  have "dict_ok (ts_turns s')" using s' turn_store_okD(1)[OF ok] by simp
  with ix own req show ?thesis unfolding turn_store_ok_def by blast
qed

lemma turn_store_step_ok: "turn_store_step s s' \<Longrightarrow> turn_store_ok s \<Longrightarrow> turn_store_ok s'"
  by (erule turn_store_step.cases) (auto intro: turn_create_ok turn_update_ok)

lemma turn_store_steps_ok: "turn_store_steps s s' \<Longrightarrow> turn_store_ok s \<Longrightarrow> turn_store_ok s'"
  by (induction rule: rtranclp_induct) (auto intro: turn_store_step_ok)

text \<open>
  How one turn may change: its identity stays, its version does not decrease, and a terminal turn
  stays exactly as it is.
\<close>

definition turn_evolves :: "turn \<Rightarrow> turn \<Rightarrow> bool" where
  "turn_evolves a b \<longleftrightarrow>
     tn_id b = tn_id a \<and> owner_request_key b = owner_request_key a \<and>
     tn_session b = tn_session a \<and> tn_source b = tn_source a \<and>
     (b = a \<or> tn_version a < tn_version b \<and> \<not> turn_is_terminal (tn_status a))"

lemma turn_evolves_refl [simp]: "turn_evolves a a"
  by (simp add: turn_evolves_def)

lemma turn_evolves_trans: "turn_evolves a b \<Longrightarrow> turn_evolves b c \<Longrightarrow> turn_evolves a c"
  by (auto simp: turn_evolves_def)

lemma turn_evolves_terminal: "turn_evolves a b \<Longrightarrow> turn_is_terminal (tn_status a) \<Longrightarrow> b = a"
  by (auto simp: turn_evolves_def)

lemma turn_store_step_evolves:
  assumes "turn_store_step s s'" "dget (ts_turns s) i = Some a"
  shows "\<exists>b. dget (ts_turns s') i = Some b \<and> turn_evolves a b"
  using assms
proof cases
  case (create t r)
  obtain x c where "r = (x, c)" by (cases r)
  with create assms show ?thesis
    by (cases c) (auto elim!: turn_create_fresh turn_create_existing)
next
  case (update t n r)
  with assms show ?thesis
    by (cases r) (auto elim!: turn_update_Some dest!: turn_update_None simp: turn_evolves_def)
qed

lemma turn_store_steps_evolve:
  assumes "turn_store_steps s s'" "dget (ts_turns s) i = Some a"
  shows "\<exists>b. dget (ts_turns s') i = Some b \<and> turn_evolves a b"
  using assms
  by (induction rule: rtranclp_induct)
    (auto dest!: turn_store_step_evolves intro: turn_evolves_trans)

subsection \<open>Contracts of the turn repository\<close>

lemma turn_get_iff:
  "turn_get s i t u = Some x \<longleftrightarrow> dget (ts_turns s) i = Some x \<and> tn_tenant x = t \<and> tn_user x = u"
  by (auto simp: turn_get_def split: option.splits)

interpretation turn_owned: owned_store "\<lambda>s. dget (ts_turns s)" turn_get
    "\<lambda>t. Some (tn_tenant t)" "\<lambda>t. Some (tn_user t)"
  by unfold_locales (auto simp: turn_get_iff)

text \<open>The versioned write, an exception counted as a refusal that changes nothing.\<close>

definition turn_cas :: "turn \<Rightarrow> nat \<Rightarrow> turn_store \<Rightarrow> turn option \<times> turn_store" where
  "turn_cas t n s = (case turn_update_if_version t n s of Inl e \<Rightarrow> (None, s) | Inr r \<Rightarrow> r)"

lemma turn_cas_Some:
  "turn_cas t n s = (Some x, s') \<longleftrightarrow> turn_update_if_version t n s = Inr (Some x, s')"
  by (auto simp: turn_cas_def split: sum.splits)

interpretation turn_versioned: versioned_store "\<lambda>s. dget (ts_turns s)" tn_id tn_version turn_cas
proof unfold_locales
  fix v n s s'
  assume "turn_cas v n s = (None, s')"
  then show "s' = s" by (auto simp: turn_cas_def dest!: turn_update_None split: sum.splits)
qed (auto simp: turn_cas_Some elim!: turn_update_Some)

lemma turn_by_request_iff:
  assumes "turn_store_ok s"
  shows "turn_get_by_request s t u r = Some x \<longleftrightarrow>
    (\<exists>i. dget (ts_turns s) i = Some x) \<and> owner_request_key x = (t, u, r)"
  using turn_store_okD(2,3)[OF assms] turn_store_okD(4)[OF assms, of "(t, u, r)"]
  by (auto simp: turn_get_by_request_def turn_indexed_def owner_request_key_def
      split: option.splits)

lemma turn_find_by_request_iff:
  assumes "turn_store_ok s"
  shows "turn_find_by_request s r = Some x \<longleftrightarrow>
    (\<exists>i. dget (ts_turns s) i = Some x) \<and> tn_request x = r"
  using turn_store_okD(2,3)[OF assms] turn_store_okD(5)[OF assms, of r]
  by (auto simp: turn_find_by_request_def turn_indexed_def split: option.splits)

subsection \<open>The outbox as a state machine\<close>

text \<open>
  One rule per method. An added event is a new one (\<open>pending\<close>, no attempts) whose identifier is
  fresh, as its \<open>uuid4\<close> is. Lease times are positive.
\<close>

inductive outbox_step :: "outbox \<Rightarrow> outbox \<Rightarrow> bool" where
  add: "ob_id e \<noteq> [] \<Longrightarrow> dget (ox_events s) (ob_id e) = None \<Longrightarrow> ob_status e = Outbox_Pending \<Longrightarrow>
    ob_attempts e = 0 \<Longrightarrow> 0 < ob_max_attempts e \<Longrightarrow> outbox_add e s = Inr (r, s') \<Longrightarrow> outbox_step s s'"
| claim: "outbox_claim owner token now lease s = (r, s') \<Longrightarrow> outbox_step s s'"
| complete: "outbox_complete i owner token now s = Inr (r, s') \<Longrightarrow> outbox_step s s'"
| fail: "outbox_fail i owner token now retry_at code s = Inr (r, s') \<Longrightarrow> outbox_step s s'"

inductive outbox_reachable :: "outbox \<Rightarrow> bool" where
  start: "outbox_reachable empty_outbox"
| step: "outbox_reachable s \<Longrightarrow> outbox_step s s' \<Longrightarrow> outbox_reachable s'"

text \<open>
  The invariant: events are filed under their own identifier, every idempotency key names the
  event that carries it and every event is named by its key, and an event is in the dead letter
  state exactly when its attempts are used up.
\<close>

definition outbox_ok :: "outbox \<Rightarrow> bool" where
  "outbox_ok s \<longleftrightarrow>
     dict_ok (ox_events s) \<and>
     (\<forall>i e. dget (ox_events s) i = Some e \<longrightarrow>
        ob_id e = i \<and> i \<noteq> [] \<and> dget (ox_keys s) (ob_key e) = Some i) \<and>
     (\<forall>k i. dget (ox_keys s) k = Some i \<longrightarrow> (\<exists>e. dget (ox_events s) i = Some e \<and> ob_key e = k))"

definition attempts_ok :: "outbox \<Rightarrow> bool" where
  "attempts_ok s \<longleftrightarrow>
     (\<forall>i e. dget (ox_events s) i = Some e \<longrightarrow>
        ob_attempts e \<le> ob_max_attempts e \<and>
        (ob_status e = Outbox_Dead_Letter \<longleftrightarrow> ob_attempts e = ob_max_attempts e))"

lemma outbox_okD:
  assumes "outbox_ok s"
  shows "dict_ok (ox_events s)" "dget (ox_events s) i = Some e \<Longrightarrow> ob_id e = i"
    "dget (ox_events s) i = Some e \<Longrightarrow> i \<noteq> []"
    "dget (ox_events s) i = Some e \<Longrightarrow> dget (ox_keys s) (ob_key e) = Some i"
    "dget (ox_keys s) k = Some i \<Longrightarrow> \<exists>e. dget (ox_events s) i = Some e \<and> ob_key e = k"
  using assms unfolding outbox_ok_def by blast+

lemma outbox_ok_put:
  assumes ok: "outbox_ok s" and old: "dget (ox_events s) i = Some old"
    and e: "ob_id e = i" "ob_key e = ob_key old"
  shows "outbox_ok (s\<lparr>ox_events := dput i e (ox_events s)\<rparr>)"
proof -
  have "\<exists>x. dget (dput i e (ox_events s)) j = Some x \<and> ob_key x = k"
    if "dget (ox_keys s) k = Some j" for k j
    using outbox_okD(5)[OF ok that] old e by (cases "j = i") auto
  then show ?thesis
    using outbox_okD(1-4)[OF ok] old e by (simp add: outbox_ok_def)
qed

lemma outbox_claim_Some:
  assumes ok: "outbox_ok s" and c: "outbox_claim owner token now lease s = (Some x, s')"
  obtains e where "dget (ox_events s) (ob_id e) = Some e" "outbox_claimable now e"
    "x = e\<lparr>ob_status := Outbox_Claimed, ob_owner := Some owner, ob_token := Some token,
           ob_expires := Some (now + lease), ob_updated := Some now\<rparr>"
    "s' = s\<lparr>ox_events := dput (ob_id e) x (ox_events s)\<rparr>"
    "\<And>i y. dget (ox_events s) i = Some y \<Longrightarrow> outbox_claimable now y \<Longrightarrow>
       (ob_available e, ob_id e) \<le> (ob_available y, ob_id y)"
proof -
  let ?cs = "filter (outbox_claimable now) (dvalues (ox_events s))"
  define e where "e = arg_min_list (\<lambda>x. (ob_available x, ob_id x)) ?cs"
  from c have ne: "?cs \<noteq> []" by (auto simp: outbox_claim_def split: if_splits)
  then have "e \<in> set ?cs" unfolding e_def by (rule arg_min_list_in)
  then have e: "e \<in> set (dvalues (ox_events s))" "outbox_claimable now e" by auto
  then obtain j where "dget (ox_events s) j = Some e"
    using in_values_dget[OF outbox_okD(1)[OF ok]] by blast
  with outbox_okD(2)[OF ok] have at: "dget (ox_events s) (ob_id e) = Some e" by simp
  have least: "(ob_available e, ob_id e) \<le> (ob_available y, ob_id y)"
    if "dget (ox_events s) i = Some y" "outbox_claimable now y" for i y
  proof -
    have "y \<in> set ?cs" using that dget_in_values[of "ox_events s" i y] by simp
    then show ?thesis
      using f_arg_min_list_f[OF ne, of "\<lambda>x. (ob_available x, ob_id x)"]
      unfolding e_def by (simp del: set_filter)
  qed
  show thesis
    by (rule that[OF at e(2) _ _ least])
      (use c ne in \<open>simp_all add: outbox_claim_def Let_def e_def[symmetric]\<close>, auto)
qed

lemma outbox_claim_None: "outbox_claim owner token now lease s = (None, s') \<Longrightarrow> s' = s"
  by (auto simp: outbox_claim_def Let_def split: if_splits)

lemma outbox_claimed_Inr:
  "outbox_claimed i owner token s = Inr e \<longleftrightarrow>
     dget (ox_events s) i = Some e \<and>
     (ob_status e = Outbox_Completed \<or>
      ob_status e = Outbox_Claimed \<and> ob_owner e = Some owner \<and> ob_token e = Some token)"
  by (auto simp: outbox_claimed_def split: option.splits if_splits)

lemma outbox_complete_Inr:
  assumes "outbox_complete i owner token now s = Inr (x, s')"
  obtains e where "dget (ox_events s) i = Some e" "ob_status e = Outbox_Completed" "x = e" "s' = s"
  | e where "dget (ox_events s) i = Some e" "ob_status e = Outbox_Claimed"
    "ob_owner e = Some owner" "ob_token e = Some token"
    "x = e\<lparr>ob_status := Outbox_Completed, ob_published := Some now, ob_owner := None,
           ob_token := None, ob_expires := None, ob_updated := Some now\<rparr>"
    "s' = s\<lparr>ox_events := dput i x (ox_events s)\<rparr>"
proof -
  from assms obtain e where e: "outbox_claimed i owner token s = Inr e"
    by (auto simp: outbox_complete_def ebind_eq_Inr)
  show thesis
  proof (cases "ob_status e = Outbox_Completed")
    case True
    with e assms have "x = e" "s' = s" by (simp_all add: outbox_complete_def)
    with e True that(1) show thesis by (simp add: outbox_claimed_Inr)
  next
    case False
    with e have "dget (ox_events s) i = Some e" "ob_status e = Outbox_Claimed"
      "ob_owner e = Some owner" "ob_token e = Some token"
      by (simp_all add: outbox_claimed_Inr)
    moreover from False e assms have "x = e\<lparr>ob_status := Outbox_Completed, ob_published := Some now,
        ob_owner := None, ob_token := None, ob_expires := None, ob_updated := Some now\<rparr>"
      "s' = s\<lparr>ox_events := dput i x (ox_events s)\<rparr>"
      by (auto simp: outbox_complete_def Let_def)
    ultimately show thesis by (rule that(2))
  qed
qed

lemma outbox_fail_Inr:
  assumes "outbox_fail i owner token now retry_at code s = Inr (x, s')"
  obtains e where "dget (ox_events s) i = Some e"
    "ob_status e = Outbox_Completed \<or>
     ob_status e = Outbox_Claimed \<and> ob_owner e = Some owner \<and> ob_token e = Some token"
    "x = e\<lparr>ob_status := (if ob_attempts e + 1 \<ge> ob_max_attempts e then Outbox_Dead_Letter
                          else Outbox_Retry),
           ob_attempts := ob_attempts e + 1, ob_available := retry_at, ob_error := Some code,
           ob_owner := None, ob_token := None, ob_expires := None, ob_updated := Some now\<rparr>"
    "s' = s\<lparr>ox_events := dput i x (ox_events s)\<rparr>"
proof -
  from assms obtain e where e: "outbox_claimed i owner token s = Inr e"
    by (auto simp: outbox_fail_def ebind_eq_Inr)
  moreover from e assms have "x = e\<lparr>ob_status := (if ob_attempts e + 1 \<ge> ob_max_attempts e
        then Outbox_Dead_Letter else Outbox_Retry),
        ob_attempts := ob_attempts e + 1, ob_available := retry_at, ob_error := Some code,
        ob_owner := None, ob_token := None, ob_expires := None, ob_updated := Some now\<rparr>"
      "s' = s\<lparr>ox_events := dput i x (ox_events s)\<rparr>"
    by (auto simp: outbox_fail_def Let_def)
  ultimately show thesis using that[of e] by (simp only: outbox_claimed_Inr)
qed

lemma outbox_step_ok:
  assumes "outbox_step s s'" "outbox_ok s"
  shows "outbox_ok s'"
  using assms
proof cases
  case (add e r)
  show ?thesis
  proof (cases "dget (ox_keys s) (ob_key e)")
    case None
    with add have s': "s' = s\<lparr>ox_events := dput (ob_id e) e (ox_events s),
        ox_keys := dput (ob_key e) (ob_id e) (ox_keys s)\<rparr>"
      by (simp add: outbox_add_def)
    have ev: "ob_id y = i \<and> i \<noteq> [] \<and> dget (ox_keys s') (ob_key y) = Some i"
      if "dget (ox_events s') i = Some y" for i y
      using that add(1,2) s' None outbox_okD(2-4)[OF assms(2), of i y]
      by (auto split: if_splits)
    have ky: "\<exists>y. dget (ox_events s') i = Some y \<and> ob_key y = k"
      if "dget (ox_keys s') k = Some i" for k i
      using that add(2) s' outbox_okD(5)[OF assms(2), of k i] by (auto split: if_splits)
    have "dict_ok (ox_events s')" using outbox_okD(1)[OF assms(2)] s' by simp
    with ev ky show ?thesis unfolding outbox_ok_def by blast
  next
    case (Some j)
    with outbox_okD(3,5)[OF assms(2)] obtain x where "j \<noteq> []" "dget (ox_events s) j = Some x"
      by blast
    with Some add assms(2) show ?thesis by (simp add: outbox_add_def)
  qed
next
  case (claim owner token now lease r)
  show ?thesis
  proof (cases r)
    case None
    with claim assms(2) show ?thesis by (auto dest: outbox_claim_None)
  next
    case (Some x)
    with claim have "outbox_claim owner token now lease s = (Some x, s')" by simp
    from outbox_claim_Some[OF assms(2) this] obtain e where
      "dget (ox_events s) (ob_id e) = Some e"
      "x = e\<lparr>ob_status := Outbox_Claimed, ob_owner := Some owner, ob_token := Some token,
             ob_expires := Some (now + lease), ob_updated := Some now\<rparr>"
      "s' = s\<lparr>ox_events := dput (ob_id e) x (ox_events s)\<rparr>" .
    with outbox_ok_put[OF assms(2), of "ob_id e" e x] show ?thesis by simp
  qed
next
  case (complete i owner token now r)
  from complete show ?thesis
    by (cases rule: outbox_complete_Inr)
      (use assms(2) outbox_okD(2)[OF assms(2), of i] in \<open>simp_all add: outbox_ok_put\<close>)
next
  case (fail i owner token now retry_at code r)
  from fail show ?thesis
    by (cases rule: outbox_fail_Inr)
      (use assms(2) outbox_okD(2)[OF assms(2), of i] in \<open>simp add: outbox_ok_put\<close>)
qed

lemma attempts_ok_put:
  assumes "attempts_ok s" "ob_attempts e \<le> ob_max_attempts e"
    "ob_status e = Outbox_Dead_Letter \<longleftrightarrow> ob_attempts e = ob_max_attempts e"
    "ox_events s' = dput i e (ox_events s)"
  shows "attempts_ok s'"
  using assms by (simp add: attempts_ok_def)

lemma attempts_okD:
  assumes "attempts_ok s" "dget (ox_events s) i = Some e"
  shows "ob_attempts e \<le> ob_max_attempts e"
    "ob_status e = Outbox_Dead_Letter \<longleftrightarrow> ob_attempts e = ob_max_attempts e"
  using assms unfolding attempts_ok_def by blast+

lemma outbox_step_attempts:
  assumes "outbox_step s s'" "outbox_ok s" "attempts_ok s"
  shows "attempts_ok s'"
  using assms
proof cases
  case (add e r)
  then have "s' = s \<or> ox_events s' = dput (ob_id e) e (ox_events s)"
    by (auto simp: outbox_add_def split: if_splits option.splits)
  with add assms(3) show ?thesis
    by (elim disjE) (auto intro: attempts_ok_put[OF assms(3), of e])
next
  case (claim owner token now lease r)
  show ?thesis
  proof (cases r)
    case None
    with claim assms(3) show ?thesis by (auto dest: outbox_claim_None)
  next
    case (Some x)
    with claim have "outbox_claim owner token now lease s = (Some x, s')" by simp
    from outbox_claim_Some[OF assms(2) this] obtain e where
      e: "dget (ox_events s) (ob_id e) = Some e" "outbox_claimable now e"
      and x: "x = e\<lparr>ob_status := Outbox_Claimed, ob_owner := Some owner, ob_token := Some token,
           ob_expires := Some (now + lease), ob_updated := Some now\<rparr>"
      and s': "s' = s\<lparr>ox_events := dput (ob_id e) x (ox_events s)\<rparr>" .
    have "ob_status e \<noteq> Outbox_Dead_Letter" using e(2) by (auto simp: outbox_claimable_def)
    then have "ob_attempts e < ob_max_attempts e"
      using attempts_okD[OF assms(3) e(1)] by linarith
    then show ?thesis
      using x s' by (intro attempts_ok_put[OF assms(3), of x s' "ob_id e"]) simp_all
  qed
next
  case (complete i owner token now x)
  from complete show ?thesis
  proof (cases rule: outbox_complete_Inr)
    case (1 e)
    with assms(3) show ?thesis by simp
  next
    case (2 e)
    have "ob_attempts e < ob_max_attempts e"
      using attempts_okD[OF assms(3) 2(1)] 2(2) by force
    with 2 show ?thesis by (intro attempts_ok_put[OF assms(3), of x s' i]) simp_all
  qed
next
  case (fail i owner token now retry_at code x)
  from fail show ?thesis
  proof (cases rule: outbox_fail_Inr)
    case (1 e)
    have "ob_attempts e < ob_max_attempts e"
      using attempts_okD[OF assms(3) 1(1)] 1(2) by force
    with 1 show ?thesis by (intro attempts_ok_put[OF assms(3), of x s' i]) simp_all
  qed
qed

lemma outbox_reachable_ok: "outbox_reachable s \<Longrightarrow> outbox_ok s \<and> attempts_ok s"
proof (induction rule: outbox_reachable.induct)
  case start
  show ?case by (simp add: outbox_ok_def attempts_ok_def empty_outbox_def)
next
  case (step s s')
  then show ?case by (blast intro: outbox_step_ok outbox_step_attempts)
qed

text \<open>A claim of the next event is a lease on the event it picked.\<close>

definition outbox_lease_claim ::
    "ident \<times> string \<Rightarrow> ident \<Rightarrow> time \<Rightarrow> time \<Rightarrow> outbox \<Rightarrow> outbox option" where
  "outbox_lease_claim r i now until s =
     (case outbox_claim (fst r) (snd r) now (until - now) s of
        (None, _) \<Rightarrow> None
      | (Some e, s') \<Rightarrow> if ob_id e = i then Some s' else None)"

definition outbox_lease :: "outbox \<Rightarrow> ident \<Rightarrow> time option" where
  "outbox_lease s i =
     (case dget (ox_events s) i of
        None \<Rightarrow> None
      | Some e \<Rightarrow> if ob_status e = Outbox_Claimed then ob_expires e else None)"

lemma outbox_lease_claim_Some:
  assumes "outbox_ok s" "outbox_lease_claim r i now until s = Some s'"
  obtains e where "dget (ox_events s) i = Some e" "outbox_claimable now e"
    "ox_events s' = dput i (e\<lparr>ob_status := Outbox_Claimed, ob_owner := Some (fst r),
       ob_token := Some (snd r), ob_expires := Some until, ob_updated := Some now\<rparr>) (ox_events s)"
    "outbox_claim (fst r) (snd r) now (until - now) s \<in> {(x, s') |x. True}"
proof -
  from assms(2) obtain x where c: "outbox_claim (fst r) (snd r) now (until - now) s = (Some x, s')"
    and i: "ob_id x = i"
    by (auto simp: outbox_lease_claim_def split: prod.splits option.splits if_splits)
  show thesis
    by (rule outbox_claim_Some[OF assms(1) c]) (use that i c in auto)
qed

interpretation outbox_leases: lease_store outbox_lease_claim outbox_lease outbox_ok
proof unfold_locales
  fix r i i' now until e and s s' :: outbox
  assume ok: "outbox_ok s" and c: "outbox_lease_claim r i now until s = Some s'"
  from c show "outbox_ok s'"
    by (elim outbox_lease_claim_Some[OF ok]) (auto intro: outbox_step_ok[OF _ ok] outbox_step.claim)
  from c show "outbox_lease s' i = Some until"
    by (elim outbox_lease_claim_Some[OF ok]) (auto simp: outbox_lease_def)
  from c show "e \<le> now" if "outbox_lease s i = Some e"
    using that by (elim outbox_lease_claim_Some[OF ok])
      (auto simp: outbox_lease_def outbox_claimable_def split: if_splits)
  from c show "outbox_lease s' i' = outbox_lease s i'" if "i' \<noteq> i"
    using that by (elim outbox_lease_claim_Some[OF ok]) (auto simp: outbox_lease_def)
qed

end
