(* ===== verification/Delegated_Runs.thy ===== *)
theory Delegated_Runs
  imports Delegated_Model Plan_Store Turn_Store
begin

text \<open>
  The in-memory delegated-run stores of \<open>app/repositories/delegated_runs.py\<close>
  (\<open>MemoryDelegatedRunStartStore\<close>, \<open>...ProgressStore\<close>, \<open>...CompletionStore\<close>,
  \<open>...FailureStore\<close>, \<open>...CancelStore\<close>, \<open>...MaintenanceStore\<close>) over the repositories they share,
  with the validators and projections of that file.

  A store method first reads and validates, then writes run, result, plan, turn, event and outbox
  in this order inside a \<open>try\<close>, whose handler puts snapshots back and raises again. The awaited
  repository methods take uncontended locks and do not suspend, so a method is one transition of
  the shared state; what the handler restores, and what it forgets, is modelled field by field.
\<close>

subsection \<open>The shared state\<close>

record drs =
  dw_runs :: run_store
  dw_results :: result_store
  dw_events :: event_store
  dw_turns :: turn_store
  dw_outbox :: outbox
  dw_plans :: "plan_store option"
  dw_keys :: "(string, ident) dict"

text \<open>Statements that may raise, over this state.\<close>

type_synonym 'a act = "drs \<Rightarrow> (py_exn + 'a) \<times> drs"

definition and_then :: "'a act \<Rightarrow> ('a \<Rightarrow> 'b act) \<Rightarrow> 'b act" where
  "and_then m f w = (case m w of (Inl e, w') \<Rightarrow> (Inl e, w') | (Inr x, w') \<Rightarrow> f x w')"

definition try_restore :: "'a act \<Rightarrow> (drs \<Rightarrow> drs) \<Rightarrow> 'a act" where
  "try_restore m restore w = (case m w of (Inl e, w') \<Rightarrow> (Inl e, restore w') | r \<Rightarrow> r)"

definition write_run :: "agent_run \<Rightarrow> unit act" where
  "write_run r w =
     (case update_run r (dw_runs w) of
        Inl e \<Rightarrow> (Inl e, w)
      | Inr (_, s) \<Rightarrow> (Inr (), w\<lparr>dw_runs := s\<rparr>))"

definition write_result :: "agent_result option \<Rightarrow> unit act" where
  "write_result r w =
     (case r of
        None \<Rightarrow> (Inr (), w)
      | Some x \<Rightarrow> (Inr (), w\<lparr>dw_results := add_result x (dw_results w)\<rparr>))"

definition write_plan :: "plan option \<Rightarrow> unit act" where
  "write_plan p w =
     (case (p, dw_plans w) of
        (Some x, Some ps) \<Rightarrow>
          (case plan_save x False ps of
             Inl e \<Rightarrow> (Inl e, w)
           | Inr (_, ps') \<Rightarrow> (Inr (), w\<lparr>dw_plans := Some ps'\<rparr>))
      | _ \<Rightarrow> (Inr (), w))"

definition write_turn :: "string \<Rightarrow> turn \<Rightarrow> nat \<Rightarrow> turn act" where
  "write_turn changed t expected w =
     (case turn_update_if_version t expected (dw_turns w) of
        Inl e \<Rightarrow> (Inl e, w)
      | Inr (None, s) \<Rightarrow> (Inl (Start_Conflict changed), w\<lparr>dw_turns := s\<rparr>)
      | Inr (Some x, s) \<Rightarrow> (Inr x, w\<lparr>dw_turns := s\<rparr>))"

definition write_event :: "time \<Rightarrow> agent_event \<Rightarrow> unit act" where
  "write_event now e w = (Inr (), w\<lparr>dw_events := snd (add_agent_event now e (dw_events w))\<rparr>)"

definition write_outbox :: "outbox_event \<Rightarrow> unit act" where
  "write_outbox e w =
     (case outbox_add e (dw_outbox w) of
        Inl err \<Rightarrow> (Inl err, w)
      | Inr (_, s) \<Rightarrow> (Inr (), w\<lparr>dw_outbox := s\<rparr>))"

record run_bundle =
  bd_run :: agent_run
  bd_result :: "agent_result option"
  bd_plan :: "plan option"
  bd_turn :: turn
  bd_expected :: nat
  bd_event :: agent_event
  bd_outbox :: outbox_event

text \<open>The body of the \<open>try\<close> blocks of the four terminal transitions.\<close>

definition commit_bundle :: "string \<Rightarrow> time \<Rightarrow> run_bundle \<Rightarrow> turn act" where
  "commit_bundle changed now b =
     and_then (write_run (bd_run b)) (\<lambda>_.
     and_then (write_result (bd_result b)) (\<lambda>_.
     and_then (write_plan (bd_plan b)) (\<lambda>_.
     and_then (write_turn changed (bd_turn b) (bd_expected b)) (\<lambda>stored.
     and_then (write_event now (bd_event b)) (\<lambda>_.
     and_then (write_outbox (bd_outbox b)) (\<lambda>_ w. (Inr stored, w)))))))"

text \<open>The pieces of the exception handlers.\<close>

definition restore_run :: "agent_run \<Rightarrow> drs \<Rightarrow> drs" where
  "restore_run r w = w\<lparr>dw_runs := (dw_runs w)\<lparr>rr_runs := dput (rn_id r) r (rr_runs (dw_runs w))\<rparr>\<rparr>"

definition restore_turn :: "turn \<Rightarrow> drs \<Rightarrow> drs" where
  "restore_turn t w =
     w\<lparr>dw_turns := (dw_turns w)\<lparr>ts_turns := dput (tn_id t) t (ts_turns (dw_turns w))\<rparr>\<rparr>"

definition restore_plan :: "plan option \<Rightarrow> drs \<Rightarrow> drs" where
  "restore_plan p w =
     (case (p, dw_plans w) of
        (Some x, Some ps) \<Rightarrow>
          w\<lparr>dw_plans := Some (ps\<lparr>ps_plans := dput (pl_id x) x (ps_plans ps)\<rparr>)\<rparr>
      | _ \<Rightarrow> w)"

definition restore_logs :: "drs \<Rightarrow> drs \<Rightarrow> drs" where
  "restore_logs old w =
     w\<lparr>dw_events := dw_events old,
       dw_outbox := (dw_outbox w)\<lparr>ox_events := ox_events (dw_outbox old)\<rparr>\<rparr>"

definition restore_results :: "drs \<Rightarrow> drs \<Rightarrow> drs" where
  "restore_results old w =
     w\<lparr>dw_results := (dw_results w)\<lparr>re_results := re_results (dw_results old)\<rparr>\<rparr>"

definition restore_keys :: "drs \<Rightarrow> drs \<Rightarrow> drs" where
  "restore_keys old w =
     w\<lparr>dw_outbox := (dw_outbox w)\<lparr>ox_keys := ox_keys (dw_outbox old)\<rparr>\<rparr>"

subsection \<open>Validators\<close>

definition terminal_run_status :: "run_status \<Rightarrow> bool" where
  "terminal_run_status st \<longleftrightarrow> st \<in> {RunCompleted, RunFailed, RunCancelled, RunTimedOut}"

definition active_run_status :: "run_status \<Rightarrow> bool" where
  "active_run_status st \<longleftrightarrow> st \<in> {RunPending, RunRunning, RunBlocked}"

text \<open>The identity comparison all run validators share.\<close>

definition run_matches :: "agent_run \<Rightarrow> 'a event_command_scheme \<Rightarrow> bool" where
  "run_matches r c \<longleftrightarrow>
     rn_delegated r \<and> \<not> terminal_run_status (rn_status r) \<and> rn_turn r = Some (cm_turn c) \<and>
     rn_tenant r = Some (cm_tenant c) \<and> rn_user r = Some (cm_user c) \<and> rn_agent r = cm_agent c \<and>
     rn_plan r = cm_plan c \<and> rn_step r = cm_step c \<and> rn_version r = cm_version c"

definition validate_active_run ::
    "string \<Rightarrow> agent_run option \<Rightarrow> 'a event_command_scheme \<Rightarrow> py_exn + agent_run" where
  "validate_active_run msg r c =
     (case r of
        None \<Rightarrow> Inl (Start_Conflict ''Delegated Run not found'')
      | Some x \<Rightarrow> if run_matches x c then Inr x else Inl (Start_Conflict msg))"

definition validate_final_run :: "agent_run option \<Rightarrow> complete_command \<Rightarrow> py_exn + agent_run" where
  "validate_final_run = validate_active_run ''Delegated Run final identity/state conflict''"

definition validate_failure_run :: "agent_run option \<Rightarrow> fail_command \<Rightarrow> py_exn + agent_run" where
  "validate_failure_run = validate_active_run ''Delegated Run failure identity/state conflict''"

definition validate_cancel_run :: "agent_run option \<Rightarrow> cancel_command \<Rightarrow> py_exn + agent_run" where
  "validate_cancel_run = validate_active_run ''Delegated Run cancel identity/state conflict''"

definition validate_timeout_run :: "agent_run option \<Rightarrow> timeout_command \<Rightarrow> py_exn + agent_run" where
  "validate_timeout_run r c =
     ebind (validate_active_run ''Delegated Run timeout identity/deadline conflict'' r c) (\<lambda>x.
       if rn_deadline x = None \<or> cm_at c < the (rn_deadline x)
       then Inl (Start_Conflict ''Delegated Run timeout identity/deadline conflict'')
       else Inr x)"

definition validate_progress_run ::
    "agent_run option \<Rightarrow> progress_command \<Rightarrow> py_exn + agent_run" where
  "validate_progress_run r c =
     ebind (validate_active_run ''Delegated Run progress identity/order conflict'' r c) (\<lambda>x.
       if pc_sequence c \<le> rn_sequence x
       then Inl (Start_Conflict ''Delegated Run progress identity/order conflict'')
       else Inr x)"

definition validate_active_turn ::
    "string \<Rightarrow> turn option \<Rightarrow> 'a event_command_scheme \<Rightarrow> py_exn + turn" where
  "validate_active_turn msg t c =
     (case t of
        None \<Rightarrow> Inl (Start_Conflict ''Canonical Turn not found'')
      | Some x \<Rightarrow>
          if tn_tenant x \<noteq> cm_tenant c \<or> tn_user x \<noteq> cm_user c \<or> turn_is_terminal (tn_status x)
          then Inl (Start_Conflict msg) else Inr x)"

definition validate_failure_turn :: "turn option \<Rightarrow> fail_command \<Rightarrow> py_exn + turn" where
  "validate_failure_turn =
     validate_active_turn ''Canonical Turn failure ownership/state conflict''"

definition validate_cancel_turn :: "turn option \<Rightarrow> cancel_command \<Rightarrow> py_exn + turn" where
  "validate_cancel_turn = validate_active_turn ''Canonical Turn cancel ownership/state conflict''"

definition event_matches :: "agent_event \<Rightarrow> 'a event_command_scheme \<Rightarrow> bool" where
  "event_matches e c \<longleftrightarrow>
     ev_run e = Some (cm_run c) \<and> ev_turn e = Some (cm_turn c) \<and>
     ev_tenant e = Some (cm_tenant c) \<and> ev_user e = Some (cm_user c) \<and> ev_agent e = cm_agent c \<and>
     ev_plan e = cm_plan c \<and> ev_step e = cm_step c"

text \<open>\<open>_validate_final_event_identity\<close> with the type, status and payload test of its callers.\<close>

definition validate_recorded_event ::
    "string \<Rightarrow> agent_event_type \<Rightarrow> string \<Rightarrow> json \<Rightarrow> agent_event \<Rightarrow> 'a event_command_scheme \<Rightarrow>
     py_exn + unit" where
  "validate_recorded_event msg typ status payload e c =
     ebind (ensure (Start_Conflict ''Final Event idempotency identity conflict'') (event_matches e c))
       (\<lambda>_. ensure (Start_Conflict msg)
          (ev_type e = typ \<and> ev_status e = Some status \<and> py_eq (ev_payload e) payload))"

definition validate_completion_event :: "agent_event \<Rightarrow> complete_command \<Rightarrow> py_exn + unit" where
  "validate_completion_event e c =
     validate_recorded_event ''Final Event idempotency identity conflict'' Agent_Result_Event
       ''completed'' (JObj [(''result_id'', JStr (cc_result c))]) e c"

definition validate_failure_event :: "agent_event \<Rightarrow> fail_command \<Rightarrow> py_exn + unit" where
  "validate_failure_event e c =
     validate_recorded_event ''Failure Event idempotency identity conflict'' Agent_Error
       ''failed'' (JObj [(''error'', fc_error c)]) e c"

definition validate_cancel_event :: "agent_event \<Rightarrow> cancel_command \<Rightarrow> py_exn + unit" where
  "validate_cancel_event e c =
     validate_recorded_event ''Cancel Event idempotency identity conflict'' Agent_Cancelled
       ''cancelled'' (JObj [(''reason'', JStr (xc_reason c))]) e c"

definition json_list_eq :: "json list \<Rightarrow> json list \<Rightarrow> bool" where
  "json_list_eq xs ys \<longleftrightarrow> py_eq (JList xs) (JList ys)"

definition validate_completion_result :: "agent_result \<Rightarrow> complete_command \<Rightarrow> py_exn + unit" where
  "validate_completion_result r c =
     ensure (Start_Conflict ''Final Result idempotency identity conflict'')
       (rs_id r = cc_result c \<and> rs_run r = cm_run c \<and> rs_turn r = Some (cm_turn c) \<and>
        rs_tenant r = Some (cm_tenant c) \<and> rs_user r = Some (cm_user c) \<and>
        rs_agent r = cm_agent c \<and> rs_plan r = cm_plan c \<and> rs_step r = cm_step c \<and>
        rs_status r = RunCompleted \<and> rs_message r = cc_text c \<and>
        py_eq_opt (rs_output r) (cc_output c) \<and> json_list_eq (rs_artifacts r) (cc_artifacts c))"

definition validate_cancelled_state ::
    "agent_run option \<Rightarrow> turn option \<Rightarrow> cancel_command \<Rightarrow> py_exn + agent_run \<times> turn" where
  "validate_cancelled_state r t c =
     (case (r, t) of
        (Some x, Some y) \<Rightarrow>
          if rn_status x \<noteq> RunCancelled \<or> rn_terminal_event x \<noteq> Some (cm_event c) \<or>
             tn_status y \<noteq> TurnCancelled
          then Inl (Start_Conflict ''Cancellation has conflicting canonical state'')
          else Inr (x, y)
      | _ \<Rightarrow> Inl (Start_Conflict ''Cancellation has incomplete canonical state''))"

definition validate_maintenance_event ::
    "agent_event \<Rightarrow> timeout_command \<Rightarrow> agent_run option \<Rightarrow> py_exn + agent_run" where
  "validate_maintenance_event e c r =
     (case r of
        None \<Rightarrow> Inl (Start_Conflict ''Maintenance Event idempotency conflict'')
      | Some x \<Rightarrow>
          if \<not> event_matches e c \<or> ev_type e \<noteq> Agent_Error \<or> ev_status e \<noteq> Some ''timed_out'' \<or>
             \<not> py_eq (ev_payload e) (JObj [(''reason'', JStr (tc_reason c))]) \<or>
             ev_run_version e \<noteq> Some (cm_version c + 1) \<or> rn_status x \<noteq> RunTimedOut \<or>
             rn_terminal_event x \<noteq> Some (cm_event c) \<or> Some (rn_version x) \<noteq> ev_run_version e \<or>
             Some (rn_sequence x) \<noteq> ev_sequence e \<or> rn_deadline x = None \<or>
             rn_deadline x \<noteq> Some (tc_deadline c)
          then Inl (Start_Conflict ''Maintenance Event idempotency conflict'')
          else Inr x)"

definition validate_duplicate_event :: "agent_event \<Rightarrow> progress_command \<Rightarrow> py_exn + unit" where
  "validate_duplicate_event e c =
     ensure (Start_Conflict ''Event idempotency identity conflict'')
       (event_matches e c \<and> ev_type e = pc_type c \<and> ev_status e = Some (pc_status c) \<and>
        ev_sequence e = Some (pc_sequence c) \<and> py_eq (ev_payload e) (pc_payload c))"

subsection \<open>Projections on the plan\<close>

definition step_of_agent :: "ident option \<Rightarrow> ident \<Rightarrow> plan_step \<Rightarrow> bool" where
  "step_of_agent step agent s \<longleftrightarrow> Some (st_id s) = step \<and> st_agent s = agent"

definition mark_step :: "ident option \<Rightarrow> ident \<Rightarrow> step_status \<Rightarrow> plan_step list \<Rightarrow> plan_step list" where
  "mark_step step agent st ss =
     map (\<lambda>s. if step_of_agent step agent s then s\<lparr>st_status := st\<rparr> else s) ss"

definition require_step ::
    "string \<Rightarrow> string \<Rightarrow> plan \<Rightarrow> 'a event_command_scheme \<Rightarrow> py_exn + unit" where
  "require_step missing unmatched p c =
     ebind (ensure (Start_Conflict missing) (str_set (cm_step c))) (\<lambda>_.
       ensure (Start_Conflict unmatched)
         (\<exists>s\<in>set (pl_steps p). step_of_agent (cm_step c) (cm_agent c) s))"

definition complete_plan_step :: "plan \<Rightarrow> complete_command \<Rightarrow> py_exn + plan" where
  "complete_plan_step p c =
     ebind (require_step ''Plan completion requires Step'' ''Plan Step association conflict'' p c)
       (\<lambda>_. let steps = mark_step (cm_step c) (cm_agent c) Completed (pl_steps p) in
         case plan_state_after_completion steps of
           Inl _ \<Rightarrow> Inl (Start_Conflict ''Plan has incomplete Steps but no ready Step'')
         | Inr (status, current) \<Rightarrow>
             Inr (p\<lparr>pl_steps := steps, pl_status := status, pl_current := current,
                    pl_next_action :=
                      (if status = Blocked \<and>
                          (case pl_next_action p of
                             None \<Rightarrow> False
                           | Some a \<Rightarrow> na_step a = None \<or> na_step a = current)
                       then pl_next_action p else None),
                    pl_version := pl_version p + 1, pl_last_event := Some (cm_event c),
                    pl_updated := cm_at c, pl_formation := ''update''\<rparr>))"

text \<open>The copy that ends a plan with the status of its ended step.\<close>

definition ended_plan ::
    "step_status \<Rightarrow> plan_status \<Rightarrow> plan \<Rightarrow> 'a event_command_scheme \<Rightarrow> time \<Rightarrow> plan" where
  "ended_plan step_st plan_st p c at =
     p\<lparr>pl_steps := mark_step (cm_step c) (cm_agent c) step_st (pl_steps p), pl_status := plan_st,
       pl_current := None, pl_next_action := None, pl_version := pl_version p + 1,
       pl_last_event := Some (cm_event c), pl_updated := at, pl_formation := ''update''\<rparr>"

definition failed_plan :: "plan \<Rightarrow> fail_command \<Rightarrow> time \<Rightarrow> py_exn + plan" where
  "failed_plan p c at =
     ebind (require_step ''Plan failure requires Step'' ''Plan Step association conflict'' p c)
       (\<lambda>_. Inr (ended_plan Failed Failed p c at))"

definition timed_out_plan :: "plan \<Rightarrow> timeout_command \<Rightarrow> time \<Rightarrow> py_exn + plan" where
  "timed_out_plan p c at =
     ebind (require_step ''Plan timeout requires Step'' ''Timeout Plan Step association conflict'' p c)
       (\<lambda>_. Inr (ended_plan Failed Failed p c at))"

definition cancelled_plan :: "plan \<Rightarrow> cancel_command \<Rightarrow> time \<Rightarrow> py_exn + plan" where
  "cancelled_plan p c at =
     ebind (require_step ''Plan cancellation requires Step'' ''Cancel Plan Step association conflict'' p c)
       (\<lambda>_. Inr (ended_plan Cancelled Cancelled p c at))"

text \<open>Reading the plan a terminal command names.\<close>

definition command_plan ::
    "string \<Rightarrow> string \<Rightarrow> drs \<Rightarrow> 'a event_command_scheme \<Rightarrow> py_exn + plan option" where
  "command_plan unconfigured missing w c =
     (if \<not> str_set (cm_plan c) then Inr None
      else case dw_plans w of
        None \<Rightarrow> Inl (Start_Conflict unconfigured)
      | Some ps \<Rightarrow>
          (case plan_get ps (the (cm_plan c)) (cm_tenant c) (cm_user c) of
             None \<Rightarrow> Inl (Start_Conflict missing)
           | Some p \<Rightarrow> Inr (Some p)))"

definition map_plan :: "(plan \<Rightarrow> py_exn + plan) \<Rightarrow> plan option \<Rightarrow> py_exn + plan option" where
  "map_plan f p = (case p of None \<Rightarrow> Inr None | Some x \<Rightarrow> ebind (f x) (\<lambda>y. Inr (Some y)))"

definition command_turn :: "drs \<Rightarrow> 'a event_command_scheme \<Rightarrow> turn option" where
  "command_turn w c = turn_get (dw_turns w) (cm_turn c) (cm_tenant c) (cm_user c)"

definition recorded_event :: "drs \<Rightarrow> 'a event_command_scheme \<Rightarrow> agent_event option" where
  "recorded_event w c = get_event (dw_events w) (cm_event c) (cm_tenant c) (cm_user c)"

subsection \<open>The records a terminal transition writes\<close>

definition ended_run ::
    "run_status \<Rightarrow> agent_run \<Rightarrow> 'a event_command_scheme \<Rightarrow> time \<Rightarrow> agent_run" where
  "ended_run st r c at =
     r\<lparr>rn_status := st, rn_version := rn_version r + 1, rn_sequence := rn_sequence r + 1,
       rn_terminal_event := Some (cm_event c), rn_heartbeat := Some at, rn_updated := Some at\<rparr>"

definition run_event ::
    "agent_run \<Rightarrow> ident \<Rightarrow> agent_event_type \<Rightarrow> string \<Rightarrow> json \<Rightarrow> agent_run \<Rightarrow> time \<Rightarrow> agent_event" where
  "run_event r i typ status payload updated at =
     \<lparr>ev_id = i, ev_run = Some (rn_id r), ev_request = rn_request r, ev_session = rn_session r,
      ev_agent = rn_agent r, ev_user = rn_user r, ev_tenant = rn_tenant r, ev_turn = rn_turn r,
      ev_agent_session = None, ev_type = typ, ev_status = Some status, ev_plan = rn_plan r,
      ev_step = rn_step r, ev_sequence = Some (rn_sequence updated),
      ev_run_version = Some (rn_version updated), ev_payload = payload, ev_created = Some at\<rparr>"

definition opt_str :: "ident option \<Rightarrow> json" where
  "opt_str x = (case x of None \<Rightarrow> JNull | Some s \<Rightarrow> JStr s)"

text \<open>\<open>_completion_bundle\<close>: \<open>now\<close> is the command's \<open>occurred_at\<close> in every record.\<close>

definition completion_bundle ::
    "ident \<Rightarrow> complete_command \<Rightarrow> agent_run \<Rightarrow> turn \<Rightarrow> plan option \<Rightarrow> py_exn + run_bundle" where
  "completion_bundle fresh c r t p =
     (let now = cm_at c;
          run = (ended_run RunCompleted r c now)\<lparr>rn_output := cc_output c\<rparr>;
          refs = (tn_refs t)\<lparr>tr_results :=
                    (if cc_result c \<in> set (tr_results (tn_refs t)) then tr_results (tn_refs t)
                     else tr_results (tn_refs t) @ [cc_result c])\<rparr>;
          turn = t\<lparr>tn_status := TurnCompleted, tn_version := tn_version t + 1, tn_refs := refs,
                   tn_response := Some \<lparr>sr_kind = Kind_Agent_Result, sr_text = cc_text c,
                                        sr_output = cc_output c, sr_error = None\<rparr>,
                   tn_updated := now, tn_completed := Some now\<rparr>
      in ebind (validate_result
           \<lparr>rs_id = cc_result c, rs_run = rn_id r, rs_session = rn_session r, rs_agent = rn_agent r,
            rs_user = rn_user r, rs_tenant = rn_tenant r, rs_turn = rn_turn r, rs_plan = rn_plan r,
            rs_step = rn_step r, rs_status = RunCompleted, rs_run_version = Some (rn_version run),
            rs_message = cc_text c, rs_suppressed = False, rs_skip_audit = False,
            rs_output = cc_output c, rs_artifacts = cc_artifacts c, rs_error = None,
            rs_created = Some now\<rparr>) (\<lambda>result.
         ebind (map_plan (\<lambda>x. complete_plan_step x c) p) (\<lambda>plan.
         ebind (validate_event
           (run_event r (cm_event c) Agent_Result_Event ''completed''
              (JObj [(''result_id'', JStr (cc_result c))]) run now)) (\<lambda>event.
         Inr \<lparr>bd_run = run, bd_result = Some result, bd_plan = plan, bd_turn = turn,
              bd_expected = tn_version t, bd_event = event,
              bd_outbox = new_outbox fresh (tn_id t) ''turn.completed''
                (''turn.completed:'' @ tn_id t)
                (JObj [(''turn_id'', JStr (tn_id t)), (''run_id'', JStr (rn_id r)),
                       (''result_id'', JStr (cc_result c)), (''plan_id'', opt_str (rn_plan r))])
                now\<rparr>))))"

definition ended_turn :: "turn_status \<Rightarrow> turn \<Rightarrow> time \<Rightarrow> turn" where
  "ended_turn st t at =
     t\<lparr>tn_status := st, tn_version := tn_version t + 1, tn_updated := at, tn_completed := Some at\<rparr>"

definition failure_bundle ::
    "ident \<Rightarrow> fail_command \<Rightarrow> agent_run \<Rightarrow> turn \<Rightarrow> plan option \<Rightarrow> py_exn + run_bundle" where
  "failure_bundle fresh c r t p =
     (let at = max (cm_at c) (tn_created t);
          run = (ended_run RunFailed r c at)\<lparr>rn_error := Some (fc_error c)\<rparr>;
          turn = (ended_turn TurnFailed t at)
                   \<lparr>tn_response := Some \<lparr>sr_kind = Kind_Error,
                      sr_text = ''Delegated agent execution failed'', sr_output = None,
                      sr_error = Some (fc_error c)\<rparr>\<rparr>
      in ebind (map_plan (\<lambda>x. failed_plan x c at) p) (\<lambda>plan.
         ebind (validate_event
           (run_event r (cm_event c) Agent_Error ''failed'' (JObj [(''error'', fc_error c)]) run at))
           (\<lambda>event.
         Inr \<lparr>bd_run = run, bd_result = None, bd_plan = plan, bd_turn = turn,
              bd_expected = tn_version t, bd_event = event,
              bd_outbox = new_outbox fresh (tn_id t) ''turn.failed'' (''turn.failed:'' @ tn_id t)
                (JObj [(''turn_id'', JStr (tn_id t)), (''run_id'', JStr (rn_id r)),
                       (''state_version'', JNum (int (tn_version turn)))]) at\<rparr>)))"

definition cancel_bundle ::
    "ident \<Rightarrow> cancel_command \<Rightarrow> agent_run \<Rightarrow> turn \<Rightarrow> plan option \<Rightarrow> py_exn + run_bundle" where
  "cancel_bundle fresh c r t p =
     (let at = max (cm_at c) (tn_created t);
          run = ended_run RunCancelled r c at
      in ebind (map_plan (\<lambda>x. cancelled_plan x c at) p) (\<lambda>plan.
         ebind (validate_event
           (run_event r (cm_event c) Agent_Cancelled ''cancelled''
              (JObj [(''reason'', JStr (xc_reason c))]) run at)) (\<lambda>event.
         Inr \<lparr>bd_run = run, bd_result = None, bd_plan = plan, bd_turn = ended_turn TurnCancelled t at,
              bd_expected = tn_version t, bd_event = event,
              bd_outbox = new_outbox fresh (cm_turn c) ''turn.cancelled''
                (''turn.cancelled:'' @ cm_turn c)
                (JObj [(''turn_id'', JStr (cm_turn c)), (''run_id'', JStr (cm_run c)),
                       (''reason'', JStr (xc_reason c))]) at\<rparr>)))"

definition timeout_bundle ::
    "ident \<Rightarrow> timeout_command \<Rightarrow> agent_run \<Rightarrow> turn \<Rightarrow> plan option \<Rightarrow> py_exn + run_bundle" where
  "timeout_bundle fresh c r t p =
     (let at = max (cm_at c) (tn_created t);
          run = ended_run RunTimedOut r c at
      in ebind (map_plan (\<lambda>x. timed_out_plan x c at) p) (\<lambda>plan.
         ebind (validate_event
           (run_event (r\<lparr>rn_id := cm_run c\<rparr>) (cm_event c) Agent_Error ''timed_out''
              (JObj [(''reason'', JStr (tc_reason c))]) run at)) (\<lambda>event.
         Inr \<lparr>bd_run = run, bd_result = None, bd_plan = plan, bd_turn = ended_turn TurnTimedOut t at,
              bd_expected = tn_version t, bd_event = event,
              bd_outbox = new_outbox fresh (cm_turn c) ''turn.timed_out''
                (''turn.timed_out:'' @ cm_turn c)
                (JObj [(''turn_id'', JStr (cm_turn c)), (''run_id'', JStr (cm_run c))]) at\<rparr>)))"

subsection \<open>The terminal transitions\<close>

text \<open>
  Results are the run (the one stored, on a duplicate), the turn and the flag \<open>duplicate\<close>;
  \<open>fresh\<close> is the identifier of a new outbox event and \<open>now\<close> the clock of the event repository.
  On a duplicate the completion looks up its result by the identifier in the recorded payload;
  \<open>next(...)\<close> without a default raises on a missing one.
\<close>

definition payload_result :: "json \<Rightarrow> json option" where
  "payload_result p = dget (obj_items p) ''result_id''"

definition find_result :: "result_store \<Rightarrow> json option \<Rightarrow> agent_result option" where
  "find_result s i = find (\<lambda>r. Some (JStr (rs_id r)) = i) (re_results s)"

definition run_complete ::
    "ident \<Rightarrow> time \<Rightarrow> complete_command \<Rightarrow>
     (agent_run option \<times> agent_result \<times> turn option \<times> bool) act" where
  "run_complete fresh now c w =
     (case recorded_event w c of
        Some e \<Rightarrow>
          (ebind (validate_completion_event e c) (\<lambda>_.
             case find_result (dw_results w) (payload_result (ev_payload e)) of
               None \<Rightarrow> Inl (Runtime_Error ''StopIteration'')
             | Some r \<Rightarrow>
                 ebind (validate_completion_result r c) (\<lambda>_.
                   Inr (get_run (dw_runs w) (cm_run c), r, command_turn w c, True))), w)
      | None \<Rightarrow>
          (case validate_final_run (get_run (dw_runs w) (cm_run c)) c of
             Inl err \<Rightarrow> (Inl err, w)
           | Inr r \<Rightarrow>
               (case command_turn w c of
                  None \<Rightarrow> (Inl (Start_Conflict ''Canonical Turn not found''), w)
                | Some t \<Rightarrow>
                    if str_set (cm_plan c) \<and> dw_plans w = None
                    then (Inl (Start_Conflict ''Plan repository is not configured''), w)
                    else
                      let p = (if str_set (cm_plan c)
                               then plan_get (the (dw_plans w)) (the (cm_plan c)) (cm_tenant c)
                                      (cm_user c)
                               else None)
                      in case completion_bundle fresh c r t p of
                           Inl err \<Rightarrow> (Inl err, w)
                         | Inr b \<Rightarrow>
                             and_then
                               (try_restore (commit_bundle ''Turn changed concurrently'' now b)
                                  (\<lambda>w'. restore_logs w (restore_results w
                                     (restore_turn t (restore_run r w')))))
                               (\<lambda>_ w'. (Inr (Some (bd_run b), the (bd_result b), Some (bd_turn b),
                                        False), w')) w)))"

definition run_fail ::
    "ident \<Rightarrow> time \<Rightarrow> fail_command \<Rightarrow> (agent_run option \<times> turn \<times> bool) act" where
  "run_fail fresh now c w =
     (case recorded_event w c of
        Some e \<Rightarrow>
          (ebind (validate_failure_event e c) (\<lambda>_.
             case command_turn w c of
               None \<Rightarrow> Inl (Start_Conflict ''Failure Event has incomplete canonical state'')
             | Some t \<Rightarrow> Inr (get_run (dw_runs w) (cm_run c), t, True)), w)
      | None \<Rightarrow>
          (case ebind (validate_failure_run (get_run (dw_runs w) (cm_run c)) c) (\<lambda>r.
                ebind (validate_failure_turn (command_turn w c) c) (\<lambda>t.
                ebind (command_plan ''Plan repository is not configured'' ''Plan not found'' w c) (\<lambda>p.
                ebind (failure_bundle fresh c r t p) (\<lambda>b. Inr (r, t, p, b))))) of
             Inl err \<Rightarrow> (Inl err, w)
           | Inr (r, t, p, b) \<Rightarrow>
               and_then
                 (try_restore (commit_bundle ''Turn changed concurrently'' now b)
                    (\<lambda>w'. restore_logs w (restore_plan p (restore_turn t (restore_run r w')))))
                 (\<lambda>stored w'. (Inr (Some (bd_run b), stored, False), w')) w))"

definition run_cancel ::
    "ident \<Rightarrow> time \<Rightarrow> cancel_command \<Rightarrow> (agent_run \<times> turn \<times> bool) act" where
  "run_cancel fresh now c w =
     (case recorded_event w c of
        Some e \<Rightarrow>
          (ebind (validate_cancel_event e c) (\<lambda>_.
           ebind (validate_cancelled_state (get_run (dw_runs w) (cm_run c)) (command_turn w c) c)
             (\<lambda>(r, t). Inr (r, t, True))), w)
      | None \<Rightarrow>
          (case ebind (validate_cancel_run (get_run (dw_runs w) (cm_run c)) c) (\<lambda>r.
                ebind (validate_cancel_turn (command_turn w c) c) (\<lambda>t.
                ebind (command_plan ''Cancel Plan repository is not configured''
                         ''Cancel Plan not found'' w c) (\<lambda>p.
                ebind (cancel_bundle fresh c r t p) (\<lambda>b. Inr (r, t, p, b))))) of
             Inl err \<Rightarrow> (Inl err, w)
           | Inr (r, t, p, b) \<Rightarrow>
               and_then
                 (try_restore (commit_bundle ''Cancel Turn changed concurrently'' now b)
                    (\<lambda>w'. restore_keys w (restore_logs w
                       (restore_plan p (restore_turn t (restore_run r w'))))))
                 (\<lambda>stored w'. (Inr (bd_run b, stored, False), w')) w))"

definition run_timeout ::
    "ident \<Rightarrow> time \<Rightarrow> timeout_command \<Rightarrow> (agent_run \<times> bool) act" where
  "run_timeout fresh now c w =
     (case recorded_event w c of
        Some e \<Rightarrow>
          (ebind (validate_maintenance_event e c (get_run (dw_runs w) (cm_run c)))
             (\<lambda>r. Inr (r, True)), w)
      | None \<Rightarrow>
          (case ebind (validate_timeout_run (get_run (dw_runs w) (cm_run c)) c) (\<lambda>r.
                case command_turn w c of
                  None \<Rightarrow> Inl (Start_Conflict ''Timeout Turn ownership conflict'')
                | Some t \<Rightarrow>
                    ebind (command_plan ''Timeout Plan repository is not configured''
                             ''Timeout Plan not found'' w c) (\<lambda>p.
                    ebind (timeout_bundle fresh c r t p) (\<lambda>b. Inr (r, t, p, b)))) of
             Inl err \<Rightarrow> (Inl err, w)
           | Inr (r, t, p, b) \<Rightarrow>
               and_then
                 (try_restore (commit_bundle ''Timeout Turn changed concurrently'' now b)
                    (\<lambda>w'. restore_keys w (restore_logs w
                       (restore_plan p (restore_turn t (restore_run r w'))))))
                 (\<lambda>_ w'. (Inr (bd_run b, False), w')) w))"

subsection \<open>Starting a delegated run\<close>

definition validate_start_turn :: "turn option \<Rightarrow> start_command \<Rightarrow> py_exn + turn" where
  "validate_start_turn t c =
     (case t of
        None \<Rightarrow> Inl (Start_Conflict ''Canonical Turn not found'')
      | Some x \<Rightarrow>
          if tn_tenant x \<noteq> sc_tenant c \<or> tn_user x \<noteq> sc_user c \<or> tn_session x \<noteq> sc_session c \<or>
             tn_request x \<noteq> sc_request c \<or> turn_is_terminal (tn_status x)
          then Inl (Start_Conflict ''Canonical Turn ownership or state conflict'') else Inr x)"

definition validate_memory_plan_step :: "plan_store option \<Rightarrow> start_command \<Rightarrow> py_exn + unit" where
  "validate_memory_plan_step plans c =
     (if sc_plan c = None \<and> sc_step c = None then Inr ()
      else if \<not> str_set (sc_plan c) \<or> \<not> str_set (sc_step c)
      then Inl (Start_Conflict ''Plan and Step must be supplied together'')
      else case plans of
        None \<Rightarrow> Inl (Start_Conflict ''Plan repository is not configured'')
      | Some ps \<Rightarrow>
          (case plan_get ps (the (sc_plan c)) (sc_tenant c) (sc_user c) of
             None \<Rightarrow> Inl (Start_Conflict ''Plan Step ownership conflict'')
           | Some p \<Rightarrow>
               (case find (step_of_agent (sc_step c) (sc_agent c)) (pl_steps p) of
                  None \<Rightarrow> Inl (Start_Conflict ''Plan Step ownership conflict'')
                | Some s \<Rightarrow>
                    if pl_status p \<notin> active_statuses \<or> st_status s \<notin> active_statuses
                    then Inl (Start_Conflict ''Plan Step ownership conflict'') else Inr ())))"

definition new_run ::
    "start_command \<Rightarrow> ident \<Rightarrow> string \<Rightarrow> time \<Rightarrow> py_exn + agent_run" where
  "new_run c run_id key now =
     validate_run
       \<lparr>rn_id = run_id, rn_request = Some (sc_request c), rn_session = sc_session c,
        rn_agent = sc_agent c, rn_user = Some (sc_user c), rn_tenant = Some (sc_tenant c),
        rn_turn = Some (sc_turn c), rn_plan = sc_plan c, rn_step = sc_step c,
        rn_status = RunPending, rn_invoker = ''delegated'', rn_delegated = True,
        rn_delegation_key = Some key, rn_version = 1, rn_sequence = 0,
        rn_deadline = Some (sc_deadline c), rn_heartbeat = None, rn_terminal_event = None,
        rn_input = sc_input c, rn_output = None, rn_error = None, rn_latency = None,
        rn_suppressed = False, rn_used_memory = [], rn_created = Some now, rn_updated = Some now\<rparr>"

definition attach_run :: "turn \<Rightarrow> agent_run \<Rightarrow> time \<Rightarrow> py_exn + turn" where
  "attach_run t r now =
     (let refs = (tn_refs t)\<lparr>tr_runs := tr_runs (tn_refs t) @ [rn_id r]\<rparr>
      in if str_set (rn_plan r) \<and> str_set (tr_plan refs) \<and> tr_plan refs \<noteq> rn_plan r
         then Inl (Start_Conflict ''Turn Plan reference conflict'')
         else Inr (t\<lparr>tn_status := TurnRunning, tn_version := tn_version t + 1,
                     tn_refs := refs\<lparr>tr_plan := (if str_set (rn_plan r) then rn_plan r
                                                  else tr_plan refs)\<rparr>,
                     tn_updated := now\<rparr>))"

definition insert_run :: "agent_run \<Rightarrow> unit act" where
  "insert_run r w =
     (case add_run r (dw_runs w) of
        Inl e \<Rightarrow> (Inl e, w)
      | Inr (_, s) \<Rightarrow> (Inr (), w\<lparr>dw_runs := s\<rparr>))"

definition remove_run :: "ident \<Rightarrow> drs \<Rightarrow> drs" where
  "remove_run i w = w\<lparr>dw_runs := (dw_runs w)\<lparr>rr_runs := dpop i (rr_runs (dw_runs w))\<rparr>\<rparr>"

text \<open>The insertion of the run is outside the \<open>try\<close>.\<close>

definition run_start ::
    "time \<Rightarrow> start_command \<Rightarrow> ident \<Rightarrow> string \<Rightarrow> (agent_run option \<times> turn option \<times> bool) act" where
  "run_start now c run_id key w =
     (if str_set (dget (dw_keys w) key) then
        (Inr (get_run (dw_runs w) (the (dget (dw_keys w) key)),
              turn_get (dw_turns w) (sc_turn c) (sc_tenant c) (sc_user c), True), w)
      else
        (case ebind (validate_memory_plan_step (dw_plans w) c) (\<lambda>_.
              ebind (validate_start_turn
                       (turn_get (dw_turns w) (sc_turn c) (sc_tenant c) (sc_user c)) c) (\<lambda>t.
              ebind (new_run c run_id key now) (\<lambda>r.
              ebind (attach_run t r now) (\<lambda>u. Inr (t, r, u))))) of
           Inl err \<Rightarrow> (Inl err, w)
         | Inr (t, r, u) \<Rightarrow>
             and_then (insert_run r) (\<lambda>_.
             and_then
               (try_restore (write_turn ''Turn changed concurrently'' u (tn_version t))
                  (\<lambda>w'. restore_turn t (remove_run (rn_id r) w')))
               (\<lambda>stored w'. (Inr (Some r, Some stored, False),
                             w'\<lparr>dw_keys := dput key (rn_id r) (dw_keys w')\<rparr>))) w))"

subsection \<open>Progress\<close>

definition maintenance_prefix :: string where
  "maintenance_prefix = ''event_timeout_''"

definition reserved_event :: "ident \<Rightarrow> bool" where
  "reserved_event i \<longleftrightarrow> take (length maintenance_prefix) i = maintenance_prefix"

definition progress_run_status :: "string \<Rightarrow> run_status" where
  "progress_run_status s = (if s = ''blocked'' then RunBlocked else RunRunning)"

text \<open>\<open>_memory_clarification_transition\<close>: the plan before and after a request for input.\<close>

definition clarification_transition ::
    "plan_store option \<Rightarrow> progress_command \<Rightarrow> py_exn + (plan \<times> plan) option" where
  "clarification_transition plans c =
     (if pc_type c \<noteq> Agent_Clarify then Inr None
      else if \<not> str_set (cm_plan c) \<or> \<not> str_set (cm_step c)
      then Inl (Start_Conflict ''Clarification requires Plan and Step'')
      else case plans of
        None \<Rightarrow> Inl (Start_Conflict ''Clarification Plan repository is not configured'')
      | Some ps \<Rightarrow>
          (case plan_get ps (the (cm_plan c)) (cm_tenant c) (cm_user c) of
             None \<Rightarrow> Inl (Start_Conflict ''Clarification Plan Step association conflict'')
           | Some p \<Rightarrow>
               let mine = filter (step_of_agent (cm_step c) (cm_agent c)) (pl_steps p)
               in if pl_status p \<notin> active_statuses \<or> mine = [] \<or>
                     (\<exists>s\<in>set mine. st_status s \<notin> active_statuses)
                  then Inl (Start_Conflict ''Clarification Plan Step association conflict'')
                  else Inr (Some (p, p\<lparr>pl_status := Blocked, pl_current := cm_step c,
                         pl_steps := mark_step (cm_step c) (cm_agent c) Blocked (pl_steps p),
                         pl_version := pl_version p + 1, pl_last_event := Some (cm_event c),
                         pl_updated := cm_at c, pl_formation := ''update''\<rparr>))))"

definition progressed_run :: "agent_run \<Rightarrow> progress_command \<Rightarrow> agent_run" where
  "progressed_run r c =
     r\<lparr>rn_status := progress_run_status (pc_status c), rn_version := rn_version r + 1,
       rn_sequence := pc_sequence c, rn_heartbeat := Some (cm_at c), rn_updated := Some (cm_at c)\<rparr>"

definition progress_event :: "agent_run \<Rightarrow> progress_command \<Rightarrow> py_exn + agent_event" where
  "progress_event r c =
     validate_event
       \<lparr>ev_id = cm_event c, ev_run = Some (cm_run c), ev_request = rn_request r,
        ev_session = rn_session r, ev_agent = cm_agent c, ev_user = Some (cm_user c),
        ev_tenant = Some (cm_tenant c), ev_turn = Some (cm_turn c), ev_agent_session = None,
        ev_type = pc_type c, ev_status = Some (pc_status c), ev_plan = cm_plan c,
        ev_step = cm_step c, ev_sequence = Some (pc_sequence c),
        ev_run_version = Some (rn_version (progressed_run r c)), ev_payload = pc_payload c,
        ev_created = Some (cm_at c)\<rparr>"

definition run_progress ::
    "time \<Rightarrow> progress_command \<Rightarrow> (agent_run option \<times> bool) act" where
  "run_progress now c w =
     (if reserved_event (cm_event c)
      then (Inl (Start_Conflict ''Event id is reserved for maintenance''), w)
      else case recorded_event w c of
        Some e \<Rightarrow>
          (ebind (validate_duplicate_event e c)
             (\<lambda>_. Inr (get_run (dw_runs w) (cm_run c), True)), w)
      | None \<Rightarrow>
          (case ebind (validate_progress_run (get_run (dw_runs w) (cm_run c)) c) (\<lambda>r.
                ebind (clarification_transition (dw_plans w) c) (\<lambda>p.
                ebind (progress_event r c) (\<lambda>e. Inr (r, p, e)))) of
             Inl err \<Rightarrow> (Inl err, w)
           | Inr (r, p, e) \<Rightarrow>
               and_then
                 (try_restore
                    (and_then (write_run (progressed_run r c)) (\<lambda>_.
                     and_then (write_plan (map_option snd p)) (\<lambda>_. write_event now e)))
                    (\<lambda>w'. (restore_plan (map_option fst p) (restore_run r w'))
                             \<lparr>dw_events := dw_events w\<rparr>))
                 (\<lambda>_ w'. (Inr (Some (progressed_run r c), False), w')) w))"

subsection \<open>Maintenance queries\<close>

definition list_orphans :: "time \<Rightarrow> time \<Rightarrow> ident option \<Rightarrow> nat \<Rightarrow> drs \<Rightarrow> agent_run list" where
  "list_orphans now stale_before tenant limit w =
     take limit (filter (\<lambda>r.
       (str_set tenant \<longrightarrow> rn_tenant r = tenant) \<and> rn_delegated r \<and>
       active_run_status (rn_status r) \<and>
       ((case rn_deadline r of None \<Rightarrow> False | Some d \<Rightarrow> d \<le> now) \<or>
        (case (if rn_heartbeat r \<noteq> None then rn_heartbeat r else rn_updated r) of
           None \<Rightarrow> False | Some a \<Rightarrow> a \<le> stale_before)))
       (dvalues (rr_runs (dw_runs w))))"

definition list_overdue :: "time \<Rightarrow> ident option \<Rightarrow> nat \<Rightarrow> drs \<Rightarrow> agent_run list" where
  "list_overdue now tenant limit w =
     take limit (sort_key (\<lambda>r. (the (rn_deadline r), rn_id r))
       (filter (\<lambda>r. rn_delegated r \<and> active_run_status (rn_status r) \<and>
                    (case rn_deadline r of None \<Rightarrow> False | Some d \<Rightarrow> d \<le> now) \<and>
                    (tenant = None \<or> rn_tenant r = tenant))
          (dvalues (rr_runs (dw_runs w)))))"

subsection \<open>The invariant of the shared state\<close>

definition runs_ok :: "run_store \<Rightarrow> bool" where
  "runs_ok s \<longleftrightarrow>
     dict_ok (rr_runs s) \<and>
     (\<forall>i r. dget (rr_runs s) i = Some r \<longrightarrow> rn_id r = i \<and> validate_run r = Inr r)"

definition events_ok :: "event_store \<Rightarrow> bool" where
  "events_ok s \<longleftrightarrow> (\<forall>i e. dget s i = Some e \<longrightarrow> ev_id e = i)"

definition drs_ok :: "drs \<Rightarrow> bool" where
  "drs_ok w \<longleftrightarrow>
     runs_ok (dw_runs w) \<and> turn_store_ok (dw_turns w) \<and> outbox_ok (dw_outbox w) \<and>
     events_ok (dw_events w) \<and> (\<forall>ps. dw_plans w = Some ps \<longrightarrow> plan_store_ok ps) \<and>
     (\<forall>k i. dget (dw_keys w) k = Some i \<longrightarrow> i \<noteq> [] \<and> dget (rr_runs (dw_runs w)) i \<noteq> None)"

lemma runs_okD:
  assumes "runs_ok s"
  shows "dict_ok (rr_runs s)" "dget (rr_runs s) i = Some r \<Longrightarrow> rn_id r = i"
    "dget (rr_runs s) i = Some r \<Longrightarrow> validate_run r = Inr r"
  using assms unfolding runs_ok_def by blast+

lemma drs_okD:
  assumes "drs_ok w"
  shows "runs_ok (dw_runs w)" "turn_store_ok (dw_turns w)" "outbox_ok (dw_outbox w)"
    "events_ok (dw_events w)" "dw_plans w = Some ps \<Longrightarrow> plan_store_ok ps"
    "dget (dw_keys w) k = Some i \<Longrightarrow> i \<noteq> [] \<and> dget (rr_runs (dw_runs w)) i \<noteq> None"
  using assms unfolding drs_ok_def by blast+

lemma runs_ok_put:
  assumes "runs_ok s" "validate_run r = Inr r'"
  shows "runs_ok (s\<lparr>rr_runs := dput (rn_id r) r' (rr_runs s)\<rparr>)"
  using assms validate_run_idem[OF assms(2)] validate_run_same(1)[OF assms(2)]
  by (auto simp: runs_ok_def)

lemma add_event_ok: "events_ok s \<Longrightarrow> events_ok (snd (add_agent_event now e s))"
  by (auto simp: events_ok_def add_agent_event_def Let_def split: option.splits)

subsection \<open>Committing\<close>

lemma and_then_eq_Inr:
  "and_then m f w = (Inr y, w') \<longleftrightarrow> (\<exists>x w1. m w = (Inr x, w1) \<and> f x w1 = (Inr y, w'))"
  by (auto simp: and_then_def split: prod.splits sum.splits)

lemma and_then_eq_Inl:
  "and_then m f w = (Inl e, w') \<longleftrightarrow>
     m w = (Inl e, w') \<or> (\<exists>x w1. m w = (Inr x, w1) \<and> f x w1 = (Inl e, w'))"
  by (auto simp: and_then_def split: prod.splits sum.splits)

lemma try_restore_eq_Inr: "try_restore m f w = (Inr y, w') \<longleftrightarrow> m w = (Inr y, w')"
  by (auto simp: try_restore_def split: prod.splits sum.splits)

lemma try_restore_eq_Inl:
  "try_restore m f w = (Inl e, w') \<longleftrightarrow> (\<exists>w1. m w = (Inl e, w1) \<and> w' = f w1)"
  by (auto simp: try_restore_def split: prod.splits sum.splits)

lemma update_run_Inr:
  "update_run r s = Inr (x, s') \<longleftrightarrow>
     (\<exists>old. dget (rr_runs s) (rn_id r) = Some old \<and> same_run_identity old r) \<and>
     validate_run r = Inr x \<and> s' = s\<lparr>rr_runs := dput (rn_id r) x (rr_runs s)\<rparr>"
  by (auto simp: update_run_def add_run_def ebind_eq_Inr split: option.splits)

text \<open>The results after a commit.\<close>

definition with_result :: "agent_result option \<Rightarrow> result_store \<Rightarrow> result_store" where
  "with_result r s = (case r of None \<Rightarrow> s | Some x \<Rightarrow> add_result x s)"

lemma write_result_eq:
  "write_result r w = (Inr (), w\<lparr>dw_results := with_result r (dw_results w)\<rparr>)"
  by (simp add: write_result_def with_result_def split: option.splits)

text \<open>A plan write that cannot be refused: the plan belongs to the same owner.\<close>

definition plan_writable :: "plan option \<Rightarrow> drs \<Rightarrow> bool" where
  "plan_writable p w \<longleftrightarrow>
     (\<forall>x. p = Some x \<longrightarrow> (\<exists>ps old. dw_plans w = Some ps \<and>
        dget (ps_plans ps) (pl_id x) = Some old \<and> pl_tenant old = pl_tenant x \<and>
        pl_user old = pl_user x \<and> steps_wf (pl_steps x)))"

definition with_plan :: "plan option \<Rightarrow> plan_store option \<Rightarrow> plan_store option" where
  "with_plan p ps =
     (case (p, ps) of (Some x, Some s) \<Rightarrow> Some (store_plan x False s) | _ \<Rightarrow> ps)"

lemma write_plan_eq:
  assumes "plan_writable p w"
  shows "write_plan p w = (Inr (), w\<lparr>dw_plans := with_plan p (dw_plans w)\<rparr>)"
  using assms
  by (cases p; cases "dw_plans w")
    (auto simp: write_plan_def with_plan_def plan_writable_def plan_save_def)

lemma outbox_add_total:
  assumes "outbox_ok s"
  shows "\<exists>x s'. outbox_add e s = Inr (x, s')"
proof (cases "str_set (dget (ox_keys s) (ob_key e))")
  case True
  then obtain i where "dget (ox_keys s) (ob_key e) = Some i" by (auto simp: str_set_iff)
  moreover from outbox_okD(5)[OF assms this] obtain x where "dget (ox_events s) i = Some x" by blast
  ultimately have "outbox_add e s = Inr ((x, False), s)" using True by (simp add: outbox_add_def)
  then show ?thesis by blast
qed (simp add: outbox_add_def, blast)

text \<open>
  A commit whose run and plan can be written either writes everything or stops at the turn, with
  run, results and plan already written.
\<close>

lemma commit_bundle_cases:
  assumes ok: "drs_ok w"
    and run: "update_run (bd_run b) (dw_runs w) = Inr (r, rs)" and plan: "plan_writable (bd_plan b) w"
  shows "commit_bundle msg now b w =
    (let w3 = w\<lparr>dw_runs := rs, dw_results := with_result (bd_result b) (dw_results w),
               dw_plans := with_plan (bd_plan b) (dw_plans w)\<rparr>
     in case turn_update_if_version (bd_turn b) (bd_expected b) (dw_turns w) of
          Inl e \<Rightarrow> (Inl e, w3)
        | Inr (None, s) \<Rightarrow> (Inl (Start_Conflict msg), w3)
        | Inr (Some t, s) \<Rightarrow>
            (Inr t, w3\<lparr>dw_turns := s,
               dw_events := snd (add_agent_event now (bd_event b) (dw_events w)),
               dw_outbox := (case outbox_add (bd_outbox b) (dw_outbox w) of
                               Inr (_, o') \<Rightarrow> o' | Inl _ \<Rightarrow> dw_outbox w)\<rparr>))"
proof -
  have w2: "plan_writable (bd_plan b) (w\<lparr>dw_runs := rs, dw_results := r'\<rparr>)" for r'
    using plan by (simp add: plan_writable_def)
  obtain x o' where ob: "outbox_add (bd_outbox b) (dw_outbox w) = Inr (x, o')"
    using outbox_add_total[OF drs_okD(3)[OF ok]] by blast
  show ?thesis
    using run write_plan_eq[OF w2] ob
    by (auto simp: commit_bundle_def and_then_def write_run_def write_result_eq write_turn_def
        write_event_def write_outbox_def Let_def dest: turn_update_None
        split: sum.splits prod.splits option.splits)
qed


text \<open>
  The bundle of a terminal transition of the run \<open>r\<close> and its turn \<open>t\<close>: identities are kept,
  versions advance by one and the run ends in state \<open>st\<close> with the command's event.
\<close>

definition ends_run :: "run_status \<Rightarrow> agent_run \<Rightarrow> ident \<Rightarrow> agent_run \<Rightarrow> bool" where
  "ends_run st r event x \<longleftrightarrow>
     rn_id x = rn_id r \<and> same_run_identity r x \<and> rn_turn x = rn_turn r \<and>
     rn_delegated x = rn_delegated r \<and> rn_deadline x = rn_deadline r \<and> rn_status x = st \<and>
     rn_version x = rn_version r + 1 \<and> rn_sequence x = rn_sequence r + 1 \<and>
     rn_terminal_event x = Some event"

definition ends_turn :: "turn_status \<Rightarrow> turn \<Rightarrow> turn \<Rightarrow> bool" where
  "ends_turn st t x \<longleftrightarrow>
     tn_id x = tn_id t \<and> owner_request_key x = owner_request_key t \<and> tn_session x = tn_session t \<and>
     tn_source x = tn_source t \<and> tn_status x = st \<and> tn_version x = tn_version t + 1 \<and>
     tn_completed x \<noteq> None \<and> set (tr_runs (tn_refs x)) = set (tr_runs (tn_refs t))"

definition bundle_for ::
    "run_status \<Rightarrow> turn_status \<Rightarrow> agent_run \<Rightarrow> turn \<Rightarrow> ident \<Rightarrow> run_bundle \<Rightarrow> bool" where
  "bundle_for rst tst r t event b \<longleftrightarrow>
     ends_run rst r event (bd_run b) \<and> ends_turn tst t (bd_turn b) \<and> bd_expected b = tn_version t \<and>
     ev_id (bd_event b) = event \<and>
     (\<forall>x. bd_result b = Some x \<longrightarrow> \<not> rs_suppressed x) \<and>
     (\<exists>x. validate_run (bd_run b) = Inr x)"

text \<open>The state after a commit that went through, and after one the turn stopped.\<close>

definition validated_run :: "run_bundle \<Rightarrow> agent_run" where
  "validated_run b = projr (validate_run (bd_run b))"

definition half_committed :: "run_bundle \<Rightarrow> drs \<Rightarrow> drs" where
  "half_committed b w =
     w\<lparr>dw_runs := (dw_runs w)\<lparr>rr_runs :=
         dput (rn_id (bd_run b)) (validated_run b) (rr_runs (dw_runs w))\<rparr>,
       dw_results := with_result (bd_result b) (dw_results w),
       dw_plans := with_plan (bd_plan b) (dw_plans w)\<rparr>"

definition committed :: "time \<Rightarrow> run_bundle \<Rightarrow> drs \<Rightarrow> drs" where
  "committed now b w =
     (half_committed b w)
       \<lparr>dw_turns := (dw_turns w)\<lparr>ts_turns := dput (tn_id (bd_turn b)) (bd_turn b)
                                             (ts_turns (dw_turns w))\<rparr>,
        dw_events := snd (add_agent_event now (bd_event b) (dw_events w)),
        dw_outbox := (case outbox_add (bd_outbox b) (dw_outbox w) of
                        Inr (_, o') \<Rightarrow> o' | Inl _ \<Rightarrow> dw_outbox w)\<rparr>"

lemma commit_bundle_eq:
  assumes ok: "drs_ok w" and r: "dget (rr_runs (dw_runs w)) i = Some r"
    and t: "dget (ts_turns (dw_turns w)) j = Some t"
    and b: "bundle_for rst tst r t event b" and plan: "plan_writable (bd_plan b) w"
  shows "commit_bundle msg now b w =
    (if turn_is_terminal (tn_status t)
     then (Inl (Turn_Terminal_State ''terminal turn cannot be updated''), half_committed b w)
     else (Inr (bd_turn b), committed now b w))"
proof -
  have ids: "rn_id r = i" "tn_id t = j"
    using runs_okD(2)[OF drs_okD(1)[OF ok] r] turn_store_okD(2)[OF drs_okD(2)[OF ok] t] by auto
  from b obtain x where x: "validate_run (bd_run b) = Inr x" by (auto simp: bundle_for_def)
  with b r ids have run: "update_run (bd_run b) (dw_runs w) =
      Inr (x, (dw_runs w)\<lparr>rr_runs := dput (rn_id (bd_run b)) x (rr_runs (dw_runs w))\<rparr>)"
    by (simp add: update_run_Inr bundle_for_def ends_run_def)
  have turn: "turn_update_if_version (bd_turn b) (bd_expected b) (dw_turns w) =
      (if turn_is_terminal (tn_status t) then Inl (Turn_Terminal_State ''terminal turn cannot be updated'')
       else Inr (Some (bd_turn b), (dw_turns w)\<lparr>ts_turns :=
              dput (tn_id (bd_turn b)) (bd_turn b) (ts_turns (dw_turns w))\<rparr>))"
    using b t ids
    by (auto simp: bundle_for_def ends_turn_def turn_update_if_version_def
        turn_validate_update_def owner_request_key_def)
  show ?thesis
    unfolding commit_bundle_cases[OF ok run plan] turn
    by (simp add: Let_def half_committed_def committed_def validated_run_def x)
qed


lemma validated_run_same:
  assumes "bundle_for rst tst r t event b"
  shows "validate_run (bd_run b) = Inr (validated_run b)"
    "ends_run rst r event (validated_run b)"
proof -
  from assms obtain x where x: "validate_run (bd_run b) = Inr x" by (auto simp: bundle_for_def)
  then show v: "validate_run (bd_run b) = Inr (validated_run b)" by (simp add: validated_run_def)
  from assms validate_run_same[OF v] show "ends_run rst r event (validated_run b)"
    by (simp add: bundle_for_def ends_run_def same_run_identity_def)
qed

lemma with_plan_ok:
  assumes "\<And>ps. dw_plans w = Some ps \<Longrightarrow> plan_store_ok ps" "plan_writable p w"
    "with_plan p (dw_plans w) = Some ps'"
  shows "plan_store_ok ps'"
  using assms
  by (cases p; cases "dw_plans w") (auto simp: with_plan_def plan_writable_def intro: store_plan_ok)

lemma half_committed_ok:
  assumes ok: "drs_ok w" and b: "bundle_for rst tst r t event b" and p: "plan_writable (bd_plan b) w"
  shows "drs_ok (half_committed b w)"
proof -
  have "runs_ok ((dw_runs w)\<lparr>rr_runs :=
      dput (rn_id (bd_run b)) (validated_run b) (rr_runs (dw_runs w))\<rparr>)"
    using drs_okD(1)[OF ok] validated_run_same(1)[OF b] by (rule runs_ok_put)
  moreover have "plan_store_ok ps" if "with_plan (bd_plan b) (dw_plans w) = Some ps" for ps
    using with_plan_ok[OF drs_okD(5)[OF ok] p that] .
  moreover have "i \<noteq> [] \<and> dget (dput (rn_id (bd_run b)) (validated_run b) (rr_runs (dw_runs w))) i \<noteq> None"
    if "dget (dw_keys w) k = Some i" for k i
    using drs_okD(6)[OF ok that] by simp
  ultimately show ?thesis
    using drs_okD(2-4)[OF ok] by (simp add: drs_ok_def half_committed_def)
qed

lemma outbox_added_ok:
  assumes ok: "outbox_ok s" and add: "outbox_add e s = Inr (x, s')"
    and e: "ob_id e \<noteq> []" "dget (ox_events s) (ob_id e) = None" "ob_status e = Outbox_Pending"
      "ob_attempts e = 0" "0 < ob_max_attempts e"
  shows "outbox_ok s'"
  using outbox_step_ok[OF outbox_step.add[OF e add] ok] .

lemma new_outbox_sel [simp]:
  "ob_id (new_outbox i t ty k p a) = i" "ob_status (new_outbox i t ty k p a) = Outbox_Pending"
  "ob_attempts (new_outbox i t ty k p a) = 0" "ob_max_attempts (new_outbox i t ty k p a) = 5"
  "ob_key (new_outbox i t ty k p a) = k" "ob_turn (new_outbox i t ty k p a) = t"
  "ob_type (new_outbox i t ty k p a) = ty"
  by (simp_all add: new_outbox_def)

text \<open>A fresh outbox identifier, as \<open>uuid4\<close> gives it.\<close>

definition fresh_outbox :: "ident \<Rightarrow> drs \<Rightarrow> bool" where
  "fresh_outbox i w \<longleftrightarrow> i \<noteq> [] \<and> dget (ox_events (dw_outbox w)) i = None"

definition unsent :: "ident \<Rightarrow> outbox_event \<Rightarrow> bool" where
  "unsent i e \<longleftrightarrow>
     ob_id e = i \<and> ob_status e = Outbox_Pending \<and> ob_attempts e = 0 \<and> 0 < ob_max_attempts e"

lemma unsent_new_outbox [simp]: "unsent i (new_outbox i t ty k p a)"
  by (simp add: unsent_def)

lemma turn_ends_ok:
  assumes ok: "turn_store_ok s" and t: "dget (ts_turns s) j = Some t" and e: "ends_turn tst t x"
    and nt: "\<not> turn_is_terminal (tn_status t)"
  shows "turn_store_ok (s\<lparr>ts_turns := dput (tn_id x) x (ts_turns s)\<rparr>)"
proof -
  have "tn_id t = j" using turn_store_okD(2)[OF ok t] .
  with t e nt have "turn_update_if_version x (tn_version t) s =
      Inr (Some x, s\<lparr>ts_turns := dput (tn_id x) x (ts_turns s)\<rparr>)"
    by (auto simp: ends_turn_def turn_update_if_version_def turn_validate_update_def
        owner_request_key_def)
  from turn_update_ok[OF ok this] show ?thesis .
qed

lemma committed_ok:
  assumes ok: "drs_ok w" and b: "bundle_for rst tst r t event b" and p: "plan_writable (bd_plan b) w"
    and t: "dget (ts_turns (dw_turns w)) j = Some t" "\<not> turn_is_terminal (tn_status t)"
    and o: "unsent fresh (bd_outbox b)" "fresh_outbox fresh w"
  shows "drs_ok (committed now b w)"
proof -
  obtain x o' where add: "outbox_add (bd_outbox b) (dw_outbox w) = Inr (x, o')"
    using outbox_add_total[OF drs_okD(3)[OF ok]] by blast
  have "outbox_ok o'"
    by (rule outbox_added_ok[OF drs_okD(3)[OF ok] add])
      (use o in \<open>simp_all add: fresh_outbox_def unsent_def\<close>)
  moreover have "turn_store_ok ((dw_turns w)\<lparr>ts_turns := dput (tn_id (bd_turn b)) (bd_turn b)
      (ts_turns (dw_turns w))\<rparr>)"
    using turn_ends_ok[OF drs_okD(2)[OF ok] t(1) _ t(2), of tst "bd_turn b"] b by (simp add: bundle_for_def)
  moreover have "events_ok (snd (add_agent_event now (bd_event b) (dw_events w)))"
    using drs_okD(4)[OF ok] by (rule add_event_ok)
  ultimately show ?thesis
    using half_committed_ok[OF ok b p] add by (simp add: drs_ok_def committed_def half_committed_def)
qed

text \<open>
  The handlers undo a half commit: everything but the plan repository is as before; where the
  handler also puts the plan back, the plans are as before and only a claim may be lost.
\<close>

lemma restored_half:
  assumes ok: "drs_ok w" and b: "bundle_for rst tst r t event b"
    and r: "dget (rr_runs (dw_runs w)) i = Some r" and t: "dget (ts_turns (dw_turns w)) j = Some t"
  shows "restore_logs w (restore_results w (restore_turn t (restore_run r (half_committed b w)))) =
      w\<lparr>dw_plans := with_plan (bd_plan b) (dw_plans w)\<rparr>"
proof -
  have ids: "rn_id r = i" "tn_id t = j" "rn_id (bd_run b) = i"
    using runs_okD(2)[OF drs_okD(1)[OF ok] r] turn_store_okD(2)[OF drs_okD(2)[OF ok] t] b
    by (auto simp: bundle_for_def ends_run_def)
  have "dput i r (dput i (validated_run b) (rr_runs (dw_runs w))) = rr_runs (dw_runs w)"
    using runs_okD(1)[OF drs_okD(1)[OF ok]] r by (rule dput_restore)
  moreover have "dput j t (ts_turns (dw_turns w)) = ts_turns (dw_turns w)"
    using turn_store_okD(1)[OF drs_okD(2)[OF ok]] t by (rule dput_same)
  moreover have "(with_result (bd_result b) (dw_results w))\<lparr>re_results := re_results (dw_results w)\<rparr>
      = dw_results w"
    using b by (auto simp: with_result_def add_result_def bundle_for_def Let_def split: option.splits)
  ultimately show ?thesis
    using ids by (simp add: restore_logs_def restore_results_def restore_turn_def restore_run_def
        half_committed_def)
qed

lemma restored_half_noresult:
  assumes "drs_ok w" "bundle_for rst tst r t event b" "dget (rr_runs (dw_runs w)) i = Some r"
    "dget (ts_turns (dw_turns w)) j = Some t" "bd_result b = None"
  shows "restore_logs w (restore_turn t (restore_run r (half_committed b w))) =
      w\<lparr>dw_plans := with_plan (bd_plan b) (dw_plans w)\<rparr>"
proof -
  have "restore_results w (restore_turn t (restore_run r (half_committed b w))) =
      restore_turn t (restore_run r (half_committed b w))"
    using assms(5) by (simp add: restore_results_def restore_turn_def restore_run_def
        half_committed_def with_result_def)
  with restored_half[OF assms(1-4)] show ?thesis by simp
qed

lemma restore_keys_same [simp]: "dw_outbox v = dw_outbox w \<Longrightarrow> restore_keys w v = v"
  by (simp add: restore_keys_def)

lemma restore_logs_plan: "restore_logs w (restore_plan p v) = restore_plan p (restore_logs w v)"
  by (simp add: restore_logs_def restore_plan_def split: option.splits)

text \<open>All that a failed timeout may leave behind: the claim on its plan is gone.\<close>

definition claim_lost :: "drs \<Rightarrow> drs \<Rightarrow> bool" where
  "claim_lost w w' \<longleftrightarrow>
     w' = w \<or> (\<exists>ps i. dw_plans w = Some ps \<and>
                 w' = w\<lparr>dw_plans := Some (ps\<lparr>ps_claims := dpop i (ps_claims ps)\<rparr>)\<rparr>)"

lemma store_plan_record:
  assumes "pl_status x \<noteq> Running"
  shows "store_plan x False s =
    s\<lparr>ps_plans := dput (pl_id x) x (ps_plans s), ps_claims := dpop (pl_id x) (ps_claims s)\<rparr>"
  using assms by (auto simp: store_plan_def Let_def suppress_formation_def split: option.splits)

lemma restored_plan:
  assumes ok: "drs_ok w" and p: "p = map_option fst pq" "q = map_option snd pq"
    and at: "\<And>x y. pq = Some (x, y) \<Longrightarrow> pl_id y = pl_id x \<and> pl_status y \<noteq> Running \<and>
      (\<exists>ps. dw_plans w = Some ps \<and> dget (ps_plans ps) (pl_id x) = Some x)"
  shows "claim_lost w (restore_plan p (w\<lparr>dw_plans := with_plan q (dw_plans w)\<rparr>))"
proof (cases pq)
  case None
  with p show ?thesis by (simp add: restore_plan_def with_plan_def claim_lost_def)
next
  case (Some xy)
  obtain x y where xy: "xy = (x, y)" by (cases xy)
  with Some at[of x y] obtain ps where ps: "dw_plans w = Some ps"
    and x: "dget (ps_plans ps) (pl_id x) = Some x" "pl_id y = pl_id x" "pl_status y \<noteq> Running"
    by blast
  have "dict_ok (ps_plans ps)" using plan_store_okD(1)[OF drs_okD(5)[OF ok ps]] .
  then have "dput (pl_id x) x (dput (pl_id x) y (ps_plans ps)) = ps_plans ps"
    using x(1) by (rule dput_restore)
  with p Some xy ps x show ?thesis
    by (auto simp: restore_plan_def with_plan_def store_plan_record claim_lost_def)
qed

subsection \<open>Bundles are well formed\<close>

lemma validate_run_fix:
  assumes "validate_run r = Inr r"
  shows "sanitize (rn_input r) = Some (rn_input r)" "sanitize_opt (rn_output r) = Some (rn_output r)"
    "sanitize_opt (rn_error r) = Some (rn_error r)" "length (rn_used_memory r) \<le> 50"
  using assms
  by (cases r; force simp: validate_run_def split: option.splits if_splits)+

lemma validate_run_exists:
  "(\<exists>x. validate_run r = Inr x) \<longleftrightarrow>
     sanitize (rn_input r) \<noteq> None \<and> sanitize_opt (rn_output r) \<noteq> None \<and>
     sanitize_opt (rn_error r) \<noteq> None \<and> length (rn_used_memory r) \<le> 50"
  by (auto simp: validate_run_def split: option.splits if_splits)

lemma ended_run_ends: "ends_run st r (cm_event c) (ended_run st r c at)"
  by (simp add: ended_run_def ends_run_def same_run_identity_def)

lemma ended_turn_ends: "ends_turn st t (ended_turn st t at)"
  by (simp add: ended_turn_def ends_turn_def owner_request_key_def)

lemma validate_event_same:
  "validate_event e = Inr e' \<Longrightarrow> e' = e\<lparr>ev_payload := ev_payload e'\<rparr> \<and>
     sanitize (ev_payload e) = Some (ev_payload e')"
  by (auto simp: validate_event_def split: option.splits)

lemma validate_event_id: "validate_event e = Inr e' \<Longrightarrow> ev_id e' = ev_id e"
  by (auto simp: validate_event_def split: option.splits)

text \<open>The four bundles, for the run and turn they were made from.\<close>

definition bundle_made ::
    "run_status \<Rightarrow> turn_status \<Rightarrow> ident \<Rightarrow> agent_run \<Rightarrow> turn \<Rightarrow> ident \<Rightarrow> run_bundle \<Rightarrow> bool" where
  "bundle_made rst tst fresh r t event b \<longleftrightarrow>
     bundle_for rst tst r t event b \<and> unsent fresh (bd_outbox b)"

lemma failure_bundle_made:
  assumes "failure_bundle fresh c r t p = Inr b" "validate_run r = Inr r"
  shows "bundle_made RunFailed TurnFailed fresh r t (cm_event c) b"
proof -
  from assms(1) have ev: "sanitize (fc_error c) \<noteq> None"
    by (auto simp: failure_bundle_def Let_def ebind_eq_Inr validate_event_def run_event_def
        split: option.splits)
  show ?thesis
    using assms ev ended_run_ends[of RunFailed r c] ended_turn_ends[of TurnFailed t]
    by (auto simp: failure_bundle_def Let_def ebind_eq_Inr bundle_made_def bundle_for_def
        validate_run_exists ends_run_def ends_turn_def same_run_identity_def ended_run_def
        ended_turn_def owner_request_key_def validate_run_fix sanitize_opt_def[of "Some _"]
        run_event_def dest!: validate_event_id)
qed

lemma failure_bundle_sel:
  assumes "failure_bundle fresh c r t p = Inr b"
  shows "bd_result b = None"
    "map_plan (\<lambda>x. failed_plan x c (max (cm_at c) (tn_created t))) p = Inr (bd_plan b)"
  using assms by (auto simp: failure_bundle_def Let_def ebind_eq_Inr)

lemma cancel_bundle_made:
  assumes "cancel_bundle fresh c r t p = Inr b" "validate_run r = Inr r"
  shows "bundle_made RunCancelled TurnCancelled fresh r t (cm_event c) b"
  using assms ended_run_ends[of RunCancelled r c] ended_turn_ends[of TurnCancelled t]
  by (auto simp: cancel_bundle_def Let_def ebind_eq_Inr bundle_made_def bundle_for_def
      validate_run_exists ended_run_def validate_run_fix run_event_def dest!: validate_event_id)

lemma cancel_bundle_sel:
  assumes "cancel_bundle fresh c r t p = Inr b"
  shows "bd_result b = None"
    "map_plan (\<lambda>x. cancelled_plan x c (max (cm_at c) (tn_created t))) p = Inr (bd_plan b)"
  using assms by (auto simp: cancel_bundle_def Let_def ebind_eq_Inr)

lemma timeout_bundle_made:
  assumes "timeout_bundle fresh c r t p = Inr b" "validate_run r = Inr r"
  shows "bundle_made RunTimedOut TurnTimedOut fresh r t (cm_event c) b"
  using assms ended_run_ends[of RunTimedOut r c] ended_turn_ends[of TurnTimedOut t]
  by (auto simp: timeout_bundle_def Let_def ebind_eq_Inr bundle_made_def bundle_for_def
      validate_run_exists ended_run_def validate_run_fix run_event_def dest!: validate_event_id)

lemma timeout_bundle_sel:
  assumes "timeout_bundle fresh c r t p = Inr b"
  shows "bd_result b = None"
    "map_plan (\<lambda>x. timed_out_plan x c (max (cm_at c) (tn_created t))) p = Inr (bd_plan b)"
  using assms by (auto simp: timeout_bundle_def Let_def ebind_eq_Inr)

lemma completion_bundle_made:
  assumes "completion_bundle fresh c r t p = Inr b" "validate_run r = Inr r"
  shows "bundle_made RunCompleted TurnCompleted fresh r t (cm_event c) b"
proof -
  from assms(1) have out: "sanitize_opt (cc_output c) \<noteq> None"
    by (auto simp: completion_bundle_def Let_def ebind_eq_Inr validate_result_def
        split: option.splits)
  show ?thesis
    using assms out ended_run_ends[of RunCompleted r c]
    by (auto simp: completion_bundle_def Let_def ebind_eq_Inr bundle_made_def bundle_for_def
        validate_run_exists ends_run_def ends_turn_def same_run_identity_def ended_run_def
        owner_request_key_def validate_run_fix run_event_def validate_result_def
        split: option.splits dest!: validate_event_id)
qed

lemma completion_bundle_sel:
  assumes "completion_bundle fresh c r t p = Inr b"
  shows "map_plan (\<lambda>x. complete_plan_step x c) p = Inr (bd_plan b)"
  using assms by (auto simp: completion_bundle_def Let_def ebind_eq_Inr)

text \<open>The projected plans stay with their owner and keep their dependency graph.\<close>

definition projects_plan :: "plan \<Rightarrow> plan \<Rightarrow> bool" where
  "projects_plan x y \<longleftrightarrow>
     pl_id y = pl_id x \<and> pl_tenant y = pl_tenant x \<and> pl_user y = pl_user x \<and>
     plan_graph (pl_steps y) = plan_graph (pl_steps x) \<and> pl_version y = pl_version x + 1"

lemma plan_graph_mark_step [simp]: "plan_graph (mark_step i a st ss) = plan_graph ss"
  by (simp add: mark_step_def plan_graph_def)

lemma projected:
  "failed_plan x c at = Inr y \<Longrightarrow> projects_plan x y \<and> pl_status y = Failed"
  "timed_out_plan x c' at = Inr y \<Longrightarrow> projects_plan x y \<and> pl_status y = Failed"
  "cancelled_plan x c'' at = Inr y \<Longrightarrow> projects_plan x y \<and> pl_status y = Cancelled"
  "complete_plan_step x c3 = Inr y \<Longrightarrow> projects_plan x y"
  by (auto simp: failed_plan_def timed_out_plan_def cancelled_plan_def complete_plan_step_def
      ended_plan_def projects_plan_def ebind_eq_Inr Let_def split: sum.splits)

lemma projected_writable:
  assumes ok: "drs_ok w" and p: "\<And>x. p = Some x \<Longrightarrow> \<exists>ps i t u. dw_plans w = Some ps \<and> plan_get ps i t u = Some x"
    and f: "map_plan f p = Inr q" and pr: "\<And>x y. f x = Inr y \<Longrightarrow> projects_plan x y"
  shows "plan_writable q w"
proof (cases q)
  case None
  then show ?thesis by (simp add: plan_writable_def)
next
  case (Some y)
  with f obtain x where x: "p = Some x" "f x = Inr y"
    by (auto simp: map_plan_def ebind_eq_Inr split: option.splits)
  with p obtain ps i t u where ps: "dw_plans w = Some ps" "plan_get ps i t u = Some x" by blast
  then have at: "dget (ps_plans ps) i = Some x" by (simp add: plan_get_iff)
  note okp = drs_okD(5)[OF ok ps(1)]
  from pr[OF x(2)] have y: "pl_id y = i" "pl_tenant x = pl_tenant y" "pl_user x = pl_user y"
    "steps_wf (pl_steps y)"
    using plan_store_okD(3)[OF okp at] plan_store_okD(4)[OF okp at]
      steps_wf_graph_cong[of "pl_steps y" "pl_steps x"]
    by (simp_all add: projects_plan_def)
  with Some ps at show ?thesis by (auto simp: plan_writable_def)
qed

subsection \<open>The outcomes of the terminal transitions\<close>

lemma validate_active_run_Inr [oir_elim]:
  "validate_active_run msg r c = Inr x \<longleftrightarrow> r = Some x \<and> run_matches x c"
  by (auto simp: validate_active_run_def split: option.splits)

lemma validate_active_turn_Inr [oir_elim]:
  "validate_active_turn msg t c = Inr x \<longleftrightarrow>
     t = Some x \<and> tn_tenant x = cm_tenant c \<and> tn_user x = cm_user c \<and> \<not> turn_is_terminal (tn_status x)"
  by (auto simp: validate_active_turn_def split: option.splits)

lemma validate_timeout_run_Inr [oir_elim]:
  "validate_timeout_run r c = Inr x \<longleftrightarrow>
     r = Some x \<and> run_matches x c \<and> (\<exists>d. rn_deadline x = Some d \<and> d \<le> cm_at c)"
  by (auto simp: validate_timeout_run_def ebind_eq_Inr validate_active_run_Inr)

lemma validate_progress_run_Inr [oir_elim]:
  "validate_progress_run r c = Inr x \<longleftrightarrow>
     r = Some x \<and> run_matches x c \<and> rn_sequence x < pc_sequence c"
  by (auto simp: validate_progress_run_def ebind_eq_Inr validate_active_run_Inr intro!: exI[of _ x])

lemma command_turn_Some:
  "command_turn w c = Some t \<Longrightarrow>
     dget (ts_turns (dw_turns w)) (cm_turn c) = Some t \<and> tn_tenant t = cm_tenant c \<and>
     tn_user t = cm_user c"
  by (simp add: command_turn_def turn_get_iff)

lemma command_plan_Some:
  assumes "command_plan m1 m2 w c = Inr (Some x)"
  shows "\<exists>ps i t u. dw_plans w = Some ps \<and> plan_get ps i t u = Some x"
  using assms by (auto simp: command_plan_def split: if_splits option.splits)

lemma commit_made_eq:
  assumes ok: "drs_ok w" and r: "get_run (dw_runs w) i = Some r"
    and t: "dget (ts_turns (dw_turns w)) j = Some t"
    and b: "bundle_made rst tst fresh r t event b" and p: "plan_writable (bd_plan b) w"
  shows "commit_bundle msg now b w =
    (if turn_is_terminal (tn_status t)
     then (Inl (Turn_Terminal_State ''terminal turn cannot be updated''), half_committed b w)
     else (Inr (bd_turn b), committed now b w))"
  using commit_bundle_eq[OF ok _ t _ p, of i r rst tst event] r b
  by (simp add: get_run_def bundle_made_def)

text \<open>
  The situation a transition commits in: \<open>r\<close> is the matching active run, \<open>t\<close> its turn and \<open>b\<close>
  the bundle made from both.
\<close>

definition commits ::
    "run_status \<Rightarrow> turn_status \<Rightarrow> ident \<Rightarrow> 'a event_command_scheme \<Rightarrow> drs \<Rightarrow> agent_run \<Rightarrow> turn \<Rightarrow>
     run_bundle \<Rightarrow> bool" where
  "commits rst tst fresh c w r t b \<longleftrightarrow>
     recorded_event w c = None \<and> get_run (dw_runs w) (cm_run c) = Some r \<and> run_matches r c \<and>
     command_turn w c = Some t \<and> bundle_made rst tst fresh r t (cm_event c) b \<and>
     plan_writable (bd_plan b) w"

lemma stored_run_valid:
  assumes "drs_ok w" "get_run (dw_runs w) i = Some r"
  shows "validate_run r = Inr r" "rn_id r = i"
  using runs_okD(2,3)[OF drs_okD(1)[OF assms(1)]] assms(2) by (auto simp: get_run_def)

lemma commits_eq:
  assumes "drs_ok w" "commits rst tst fresh c w r t b"
  shows "commit_bundle msg now b w =
    (if turn_is_terminal (tn_status t)
     then (Inl (Turn_Terminal_State ''terminal turn cannot be updated''), half_committed b w)
     else (Inr (bd_turn b), committed now b w))"
  using assms command_turn_Some[of w c t] commit_made_eq[of w "cm_run c" r "cm_turn c" t]
  unfolding commits_def by blast

lemma run_fail_outcome:
  assumes ok: "drs_ok w"
  shows "(\<exists>e. run_fail fresh now c w = (Inl e, w)) \<or>
    (\<exists>e r t. recorded_event w c = Some e \<and> validate_failure_event e c = Inr () \<and>
       run_fail fresh now c w = (Inr (r, t, True), w)) \<or>
    (\<exists>r t p b. failure_bundle fresh c r t p = Inr b \<and>
       (\<exists>m1 m2. command_plan m1 m2 w c = Inr p) \<and> commits RunFailed TurnFailed fresh c w r t b \<and> \<not> turn_is_terminal (tn_status t) \<and>
       run_fail fresh now c w = (Inr (Some (bd_run b), bd_turn b, False), committed now b w))"
proof (cases "recorded_event w c")
  case (Some e)
  then show ?thesis
    by (cases "validate_failure_event e c") (auto simp: run_fail_def split: option.splits)
next
  case None
  let ?prep = "ebind (validate_failure_run (get_run (dw_runs w) (cm_run c)) c) (\<lambda>r.
                ebind (validate_failure_turn (command_turn w c) c) (\<lambda>t.
                ebind (command_plan ''Plan repository is not configured'' ''Plan not found'' w c) (\<lambda>p.
                ebind (failure_bundle fresh c r t p) (\<lambda>b. Inr (r, t, p, b)))))"
  show ?thesis
  proof (cases ?prep)
    case (Inl e)
    with None have "run_fail fresh now c w = (Inl e, w)" by (simp add: run_fail_def)
    then show ?thesis by blast
  next
    case (Inr x)
    obtain r t p b where x: "x = (r, t, p, b)" by (cases x)
    from Inr x have r: "get_run (dw_runs w) (cm_run c) = Some r" "run_matches r c"
      and t: "command_turn w c = Some t" "\<not> turn_is_terminal (tn_status t)"
      and p: "command_plan ''Plan repository is not configured'' ''Plan not found'' w c = Inr p"
      and b: "failure_bundle fresh c r t p = Inr b"
      by (auto simp: ebind_eq_Inr validate_failure_run_def validate_failure_turn_def
          validate_active_run_Inr validate_active_turn_Inr)
    have "plan_writable (bd_plan b) w"
      by (rule projected_writable[OF ok _ failure_bundle_sel(2)[OF b]])
        (use p command_plan_Some projected(1) in blast)+
    then have "commits RunFailed TurnFailed fresh c w r t b"
      using None r t(1) failure_bundle_made[OF b stored_run_valid(1)[OF ok r(1)]]
      by (simp add: commits_def)
    moreover from commits_eq[OF ok this] t(2) Inr x None
    have "run_fail fresh now c w = (Inr (Some (bd_run b), bd_turn b, False), committed now b w)"
      by (simp add: run_fail_def and_then_def try_restore_def)
    ultimately show ?thesis using t(2) b p by blast
  qed
qed

lemma run_cancel_outcome:
  assumes ok: "drs_ok w"
  shows "(\<exists>e. run_cancel fresh now c w = (Inl e, w)) \<or>
    (\<exists>e r t. recorded_event w c = Some e \<and> validate_cancel_event e c = Inr () \<and>
       run_cancel fresh now c w = (Inr (r, t, True), w)) \<or>
    (\<exists>r t p b. cancel_bundle fresh c r t p = Inr b \<and>
       (\<exists>m1 m2. command_plan m1 m2 w c = Inr p) \<and> commits RunCancelled TurnCancelled fresh c w r t b \<and> \<not> turn_is_terminal (tn_status t) \<and>
       run_cancel fresh now c w = (Inr (bd_run b, bd_turn b, False), committed now b w))"
proof (cases "recorded_event w c")
  case (Some e)
  obtain v where v: "validate_cancelled_state (get_run (dw_runs w) (cm_run c)) (command_turn w c) c = v"
    by simp
  with Some show ?thesis
    by (cases "validate_cancel_event e c"; cases v) (auto simp: run_cancel_def)
next
  case None
  let ?prep = "ebind (validate_cancel_run (get_run (dw_runs w) (cm_run c)) c) (\<lambda>r.
                ebind (validate_cancel_turn (command_turn w c) c) (\<lambda>t.
                ebind (command_plan ''Cancel Plan repository is not configured''
                         ''Cancel Plan not found'' w c) (\<lambda>p.
                ebind (cancel_bundle fresh c r t p) (\<lambda>b. Inr (r, t, p, b)))))"
  show ?thesis
  proof (cases ?prep)
    case (Inl e)
    with None have "run_cancel fresh now c w = (Inl e, w)" by (simp add: run_cancel_def)
    then show ?thesis by blast
  next
    case (Inr x)
    obtain r t p b where x: "x = (r, t, p, b)" by (cases x)
    from Inr x have r: "get_run (dw_runs w) (cm_run c) = Some r" "run_matches r c"
      and t: "command_turn w c = Some t" "\<not> turn_is_terminal (tn_status t)"
      and p: "command_plan ''Cancel Plan repository is not configured''
                ''Cancel Plan not found'' w c = Inr p"
      and b: "cancel_bundle fresh c r t p = Inr b"
      by (auto simp: ebind_eq_Inr validate_cancel_run_def validate_cancel_turn_def
          validate_active_run_Inr validate_active_turn_Inr)
    have "plan_writable (bd_plan b) w"
      by (rule projected_writable[OF ok _ cancel_bundle_sel(2)[OF b]])
        (use p command_plan_Some projected(3) in blast)+
    then have "commits RunCancelled TurnCancelled fresh c w r t b"
      using None r t(1) cancel_bundle_made[OF b stored_run_valid(1)[OF ok r(1)]]
      by (simp add: commits_def)
    moreover from commits_eq[OF ok this] t(2) Inr x None
    have "run_cancel fresh now c w = (Inr (bd_run b, bd_turn b, False), committed now b w)"
      by (simp add: run_cancel_def and_then_def try_restore_def)
    ultimately show ?thesis using t(2) b p by blast
  qed
qed


lemma run_timeout_outcome:
  assumes ok: "drs_ok w"
  shows "(\<exists>e w'. run_timeout fresh now c w = (Inl e, w') \<and> claim_lost w w' \<and>
       (w' \<noteq> w \<longrightarrow> (\<exists>t. command_turn w c = Some t \<and> turn_is_terminal (tn_status t)))) \<or>
    (\<exists>e r. recorded_event w c = Some e \<and>
       validate_maintenance_event e c (get_run (dw_runs w) (cm_run c)) = Inr r \<and>
       run_timeout fresh now c w = (Inr (r, True), w)) \<or>
    (\<exists>r t p b. timeout_bundle fresh c r t p = Inr b \<and>
       (\<exists>m1 m2. command_plan m1 m2 w c = Inr p) \<and> commits RunTimedOut TurnTimedOut fresh c w r t b \<and> \<not> turn_is_terminal (tn_status t) \<and>
       (\<exists>d. rn_deadline r = Some d \<and> d \<le> cm_at c) \<and>
       run_timeout fresh now c w = (Inr (bd_run b, False), committed now b w))"
proof (cases "recorded_event w c")
  case (Some e)
  then show ?thesis
    by (cases "validate_maintenance_event e c (get_run (dw_runs w) (cm_run c))")
      (auto simp: run_timeout_def claim_lost_def)
next
  case None
  let ?prep = "ebind (validate_timeout_run (get_run (dw_runs w) (cm_run c)) c) (\<lambda>r.
                case command_turn w c of
                  None \<Rightarrow> Inl (Start_Conflict ''Timeout Turn ownership conflict'')
                | Some t \<Rightarrow>
                    ebind (command_plan ''Timeout Plan repository is not configured''
                             ''Timeout Plan not found'' w c) (\<lambda>p.
                    ebind (timeout_bundle fresh c r t p) (\<lambda>b. Inr (r, t, p, b))))"
  show ?thesis
  proof (cases ?prep)
    case (Inl e)
    with None have "run_timeout fresh now c w = (Inl e, w)" by (simp add: run_timeout_def)
    then show ?thesis by (simp add: claim_lost_def)
  next
    case (Inr x)
    obtain r t p b where x: "x = (r, t, p, b)" by (cases x)
    from Inr x have r: "get_run (dw_runs w) (cm_run c) = Some r" "run_matches r c"
        "\<exists>d. rn_deadline r = Some d \<and> d \<le> cm_at c"
      and t: "command_turn w c = Some t"
      and p: "command_plan ''Timeout Plan repository is not configured''
                ''Timeout Plan not found'' w c = Inr p"
      and b: "timeout_bundle fresh c r t p = Inr b"
      by (auto simp: ebind_eq_Inr validate_timeout_run_Inr split: option.splits)
    have "plan_writable (bd_plan b) w"
      by (rule projected_writable[OF ok _ timeout_bundle_sel(2)[OF b]])
        (use p command_plan_Some projected(2) in blast)+
    then have cm: "commits RunTimedOut TurnTimedOut fresh c w r t b"
      using None r(1,2) t timeout_bundle_made[OF b stored_run_valid(1)[OF ok r(1)]]
      by (simp add: commits_def)
    show ?thesis
    proof (cases "turn_is_terminal (tn_status t)")
      case False
      with commits_eq[OF ok cm] Inr x None
      have "run_timeout fresh now c w = (Inr (bd_run b, False), committed now b w)"
        by (simp add: run_timeout_def and_then_def try_restore_def)
      with cm False r(3) b p show ?thesis by blast
    next
      case True
      let ?w' = "restore_plan p (w\<lparr>dw_plans := with_plan (bd_plan b) (dw_plans w)\<rparr>)"
      have fb: "bundle_for RunTimedOut TurnTimedOut r t (cm_event c) b"
        using cm by (simp add: commits_def bundle_made_def)
      have half: "restore_logs w (restore_turn t (restore_run r (half_committed b w))) =
          w\<lparr>dw_plans := with_plan (bd_plan b) (dw_plans w)\<rparr>"
        using restored_half_noresult[OF ok fb _ _ timeout_bundle_sel(1)[OF b], of "cm_run c" "cm_turn c"]
          r(1) t command_turn_Some[OF t] by (simp add: get_run_def)
      have "restore_keys w (restore_plan p (w\<lparr>dw_plans := q\<rparr>)) = restore_plan p (w\<lparr>dw_plans := q\<rparr>)"
        for q by (rule restore_keys_same) (simp add: restore_plan_def split: option.splits)
      with commits_eq[OF ok cm] True Inr x None half
      have "run_timeout fresh now c w =
          (Inl (Turn_Terminal_State ''terminal turn cannot be updated''), ?w')"
        by (simp add: run_timeout_def and_then_def try_restore_def restore_logs_plan)
      moreover have "claim_lost w ?w'"
      proof (cases p)
        case None
        with timeout_bundle_sel(2)[OF b] have "bd_plan b = None" by (simp add: map_plan_def)
        with None show ?thesis by (simp add: restore_plan_def with_plan_def claim_lost_def)
      next
        case (Some px)
        from p[unfolded Some] obtain ps i tn u where ps: "dw_plans w = Some ps"
          "plan_get ps i tn u = Some px" using command_plan_Some by blast
        then have at: "dget (ps_plans ps) (pl_id px) = Some px"
          using plan_store_okD(3)[OF drs_okD(5)[OF ok ps(1)]] by (auto simp: plan_get_iff)
        from timeout_bundle_sel(2)[OF b] Some obtain y where y: "bd_plan b = Some y"
          "timed_out_plan px c (max (cm_at c) (tn_created t)) = Inr y"
          by (cases "timed_out_plan px c (max (cm_at c) (tn_created t))"; cases "bd_plan b")
            (simp_all add: map_plan_def)
        have "claim_lost w (restore_plan (Some px) (w\<lparr>dw_plans := with_plan (Some y) (dw_plans w)\<rparr>))"
          by (rule restored_plan[OF ok, of _ "Some (px, y)"])
            (use projected(2)[OF y(2)] ps(1) at in \<open>auto simp: projects_plan_def\<close>)
        with Some y(1) show ?thesis by simp
      qed
      ultimately show ?thesis using t True by blast
    qed
  qed
qed


text \<open>
  A completion does not test its turn: over a terminal turn the plan is written, the turn write
  raises, and the handler leaves the advanced plan in place.
\<close>

definition reads_plan :: "drs \<Rightarrow> 'a event_command_scheme \<Rightarrow> plan option \<Rightarrow> bool" where
  "reads_plan w c p \<longleftrightarrow>
     p = (if str_set (cm_plan c) then plan_get (the (dw_plans w)) (the (cm_plan c)) (cm_tenant c) (cm_user c) else None) \<and>
     (str_set (cm_plan c) \<longrightarrow> dw_plans w \<noteq> None)"

lemma reads_plan_Some:
  "reads_plan w c (Some x) \<Longrightarrow> \<exists>ps. dw_plans w = Some ps \<and>
     plan_get ps (the (cm_plan c)) (cm_tenant c) (cm_user c) = Some x"
  by (auto simp: reads_plan_def split: if_splits)

lemma run_complete_outcome:
  assumes ok: "drs_ok w"
  shows "(\<exists>e. run_complete fresh now c w = (Inl e, w)) \<or>
    (\<exists>e res x y. recorded_event w c = Some e \<and> validate_completion_event e c = Inr () \<and>
       find_result (dw_results w) (payload_result (ev_payload e)) = Some res \<and>
       validate_completion_result res c = Inr () \<and>
       run_complete fresh now c w = (Inr (x, res, y, True), w)) \<or>
    (\<exists>r t p b. completion_bundle fresh c r t p = Inr b \<and> reads_plan w c p \<and> commits RunCompleted TurnCompleted fresh c w r t b \<and>
       run_complete fresh now c w =
         (if turn_is_terminal (tn_status t)
          then (Inl (Turn_Terminal_State ''terminal turn cannot be updated''),
                w\<lparr>dw_plans := with_plan (bd_plan b) (dw_plans w)\<rparr>)
          else (Inr (Some (bd_run b), the (bd_result b), Some (bd_turn b), False),
                committed now b w)))"
proof (cases "recorded_event w c")
  case (Some e)
  show ?thesis
  proof (cases "validate_completion_event e c")
    case (Inl x)
    with Some have "run_complete fresh now c w = (Inl x, w)" by (simp add: run_complete_def)
    then show ?thesis by blast
  next
    case (Inr u)
    show ?thesis
    proof (cases "find_result (dw_results w) (payload_result (ev_payload e))")
      case None
      with Some Inr have "run_complete fresh now c w = (Inl (Runtime_Error ''StopIteration''), w)"
        by (simp add: run_complete_def)
      then show ?thesis by blast
    next
      case (Some res)
      with \<open>recorded_event w c = Some e\<close> Inr show ?thesis
        by (cases "validate_completion_result res c") (simp_all add: run_complete_def)
    qed
  qed
next
  case None
  have early: ?thesis if "\<exists>e. run_complete fresh now c w = (Inl e, w)" using that by blast
  show ?thesis
  proof (cases "validate_final_run (get_run (dw_runs w) (cm_run c)) c")
    case (Inl e)
    with None show ?thesis by (intro early) (simp add: run_complete_def)
  next
    case (Inr r)
    then have r: "get_run (dw_runs w) (cm_run c) = Some r" "run_matches r c"
      by (auto simp: validate_final_run_def validate_active_run_Inr)
    show ?thesis
    proof (cases "command_turn w c")
      case None
      with \<open>recorded_event w c = None\<close> Inr show ?thesis
        by (intro early) (simp add: run_complete_def)
    next
      case (Some t)
      define p where "p = (if str_set (cm_plan c)
        then plan_get (the (dw_plans w)) (the (cm_plan c)) (cm_tenant c) (cm_user c) else None)"
      show ?thesis
      proof (cases "str_set (cm_plan c) \<and> dw_plans w = None")
        case True
        with None Inr Some show ?thesis by (intro early) (simp add: run_complete_def)
      next
        case np: False
        show ?thesis
        proof (cases "completion_bundle fresh c r t p")
          case (Inl e)
          with None \<open>validate_final_run _ c = Inr r\<close> Some np show ?thesis
            by (intro early) (auto simp: run_complete_def Let_def p_def[symmetric])
        next
          case b: (Inr b)
          have "plan_writable (bd_plan b) w"
            by (rule projected_writable[OF ok _ completion_bundle_sel[OF b]])
              (use np projected(4) in \<open>auto simp: p_def split: if_splits, blast\<close>)
          then have cm: "commits RunCompleted TurnCompleted fresh c w r t b"
            using None r Some completion_bundle_made[OF b stored_run_valid(1)[OF ok r(1)]]
            by (simp add: commits_def)
          have fb: "bundle_for RunCompleted TurnCompleted r t (cm_event c) b"
            using cm by (simp add: commits_def bundle_made_def)
          have "restore_logs w (restore_results w (restore_turn t (restore_run r
              (half_committed b w)))) = w\<lparr>dw_plans := with_plan (bd_plan b) (dw_plans w)\<rparr>"
            using restored_half[OF ok fb, of "cm_run c" "cm_turn c"] r(1) command_turn_Some[OF Some]
            by (simp add: get_run_def)
          with commits_eq[OF ok cm] None Inr Some np b
          have "run_complete fresh now c w =
             (if turn_is_terminal (tn_status t)
              then (Inl (Turn_Terminal_State ''terminal turn cannot be updated''),
                    w\<lparr>dw_plans := with_plan (bd_plan b) (dw_plans w)\<rparr>)
              else (Inr (Some (bd_run b), the (bd_result b), Some (bd_turn b), False),
                    committed now b w))"
            by (auto simp: run_complete_def Let_def p_def[symmetric] and_then_def try_restore_def)
          moreover have "reads_plan w c p"
            using np by (auto simp: reads_plan_def p_def)
          ultimately show ?thesis using cm b by blast
        qed
      qed
    qed
  qed
qed

end
