(* ===== verification/Delegated_Lifecycle.thy ===== *)
theory Delegated_Lifecycle
  imports Delegated_Runs
begin

text \<open>
  The delegated-run stores as one state machine: the transitions of all six store methods over
  the shared state, the invariant they keep, how a run and a turn may change, and the atomicity
  of the transitions.
\<close>

subsection \<open>Outcomes of start and progress\<close>

definition started :: "agent_run \<Rightarrow> turn \<Rightarrow> string \<Rightarrow> drs \<Rightarrow> drs" where
  "started r u key w =
     w\<lparr>dw_runs := (dw_runs w)\<lparr>rr_runs := dput (rn_id r) r (rr_runs (dw_runs w))\<rparr>,
       dw_turns := (dw_turns w)\<lparr>ts_turns := dput (tn_id u) u (ts_turns (dw_turns w))\<rparr>,
       dw_keys := dput key (rn_id r) (dw_keys w)\<rparr>"

definition attaches :: "turn \<Rightarrow> agent_run \<Rightarrow> turn \<Rightarrow> bool" where
  "attaches t r u \<longleftrightarrow>
     tn_id u = tn_id t \<and> owner_request_key u = owner_request_key t \<and> tn_session u = tn_session t \<and>
     tn_source u = tn_source t \<and> tn_status u = TurnRunning \<and> tn_version u = tn_version t + 1 \<and>
     tr_runs (tn_refs u) = tr_runs (tn_refs t) @ [rn_id r]"

lemma attach_run_Inr: "attach_run t r now = Inr u \<Longrightarrow> attaches t r u"
  by (auto simp: attach_run_def attaches_def owner_request_key_def Let_def split: if_splits)

lemma validate_start_turn_Inr:
  "validate_start_turn t c = Inr x \<longleftrightarrow>
     t = Some x \<and> owner_request_key x = (sc_tenant c, sc_user c, sc_request c) \<and>
     tn_session x = sc_session c \<and> \<not> turn_is_terminal (tn_status x)"
  by (auto simp: validate_start_turn_def owner_request_key_def split: option.splits)

lemma new_run_Inr:
  assumes "new_run c i key now = Inr r"
  shows "validate_run r = Inr r" "rn_id r = i" "rn_status r = RunPending" "rn_delegated r"
    "rn_turn r = Some (sc_turn c)" "rn_tenant r = Some (sc_tenant c)" "rn_user r = Some (sc_user c)"
    "rn_version r = 1" "rn_sequence r = 0" "rn_agent r = sc_agent c" "rn_plan r = sc_plan c"
    "rn_step r = sc_step c" "rn_deadline r = Some (sc_deadline c)"
proof -
  note v = assms[unfolded new_run_def]
  show "validate_run r = Inr r" by (rule validate_run_idem[OF v])
  show "rn_id r = i" "rn_status r = RunPending" "rn_delegated r"
    "rn_turn r = Some (sc_turn c)" "rn_tenant r = Some (sc_tenant c)" "rn_user r = Some (sc_user c)"
    "rn_version r = 1" "rn_sequence r = 0" "rn_agent r = sc_agent c" "rn_plan r = sc_plan c"
    "rn_step r = sc_step c" "rn_deadline r = Some (sc_deadline c)"
    using validate_run_same[OF v] by simp_all
qed

text \<open>The situation a start goes through in.\<close>

definition starts ::
    "start_command \<Rightarrow> ident \<Rightarrow> string \<Rightarrow> time \<Rightarrow> drs \<Rightarrow> agent_run \<Rightarrow> turn \<Rightarrow> turn \<Rightarrow> bool" where
  "starts c i key now w r t u \<longleftrightarrow>
     \<not> str_set (dget (dw_keys w) key) \<and> validate_memory_plan_step (dw_plans w) c = Inr () \<and>
     turn_get (dw_turns w) (sc_turn c) (sc_tenant c) (sc_user c) = Some t \<and>
     owner_request_key t = (sc_tenant c, sc_user c, sc_request c) \<and> tn_session t = sc_session c \<and>
     \<not> turn_is_terminal (tn_status t) \<and> new_run c i key now = Inr r \<and> attach_run t r now = Inr u"

lemma run_start_outcome:
  assumes ok: "drs_ok w"
  shows "(\<exists>e. run_start now c i key w = (Inl e, w)) \<or>
    (str_set (dget (dw_keys w) key) \<and>
       run_start now c i key w = (Inr (get_run (dw_runs w) (the (dget (dw_keys w) key)),
         turn_get (dw_turns w) (sc_turn c) (sc_tenant c) (sc_user c), True), w)) \<or>
    (\<exists>r t u. starts c i key now w r t u \<and>
       run_start now c i key w = (Inr (Some r, Some u, False), started r u key w))"
proof (cases "str_set (dget (dw_keys w) key)")
  case True
  then show ?thesis by (simp add: run_start_def)
next
  case False
  let ?prep = "ebind (validate_memory_plan_step (dw_plans w) c) (\<lambda>_.
              ebind (validate_start_turn
                       (turn_get (dw_turns w) (sc_turn c) (sc_tenant c) (sc_user c)) c) (\<lambda>t.
              ebind (new_run c i key now) (\<lambda>r.
              ebind (attach_run t r now) (\<lambda>u. Inr (t, r, u)))))"
  show ?thesis
  proof (cases ?prep)
    case (Inl e)
    with False have "run_start now c i key w = (Inl e, w)" by (simp add: run_start_def)
    then show ?thesis by blast
  next
    case (Inr x)
    obtain t r u where x: "x = (t, r, u)" by (cases x)
    from Inr x False have st: "starts c i key now w r t u"
      by (auto simp: ebind_eq_Inr validate_start_turn_Inr starts_def)
    then have r: "validate_run r = Inr r" and u: "attaches t r u"
      and t: "dget (ts_turns (dw_turns w)) (sc_turn c) = Some t" "\<not> turn_is_terminal (tn_status t)"
      using new_run_Inr(1) attach_run_Inr unfolding starts_def by (blast, blast, simp add: turn_get_iff, blast)
    have tid: "tn_id t = sc_turn c" using turn_store_okD(2)[OF drs_okD(2)[OF ok] t(1)] .
    with u t have up: "turn_update_if_version u (tn_version t) (dw_turns w) =
        Inr (Some u, (dw_turns w)\<lparr>ts_turns := dput (tn_id u) u (ts_turns (dw_turns w))\<rparr>)"
      by (auto simp: attaches_def turn_update_if_version_def turn_validate_update_def
          owner_request_key_def)
    have "run_start now c i key w = (Inr (Some r, Some u, False), started r u key w)"
      using False Inr x r up
      by (simp add: run_start_def and_then_def try_restore_def insert_run_def add_run_def
          write_turn_def started_def)
    with st show ?thesis by blast
  qed
qed

definition progressed_to :: "time \<Rightarrow> agent_run \<Rightarrow> plan option \<Rightarrow> agent_event \<Rightarrow> drs \<Rightarrow> drs" where
  "progressed_to now x p e w =
     w\<lparr>dw_runs := (dw_runs w)\<lparr>rr_runs := dput (rn_id x) x (rr_runs (dw_runs w))\<rparr>,
       dw_plans := with_plan p (dw_plans w),
       dw_events := snd (add_agent_event now e (dw_events w))\<rparr>"

definition progresses ::
    "progress_command \<Rightarrow> drs \<Rightarrow> agent_run \<Rightarrow> (plan \<times> plan) option \<Rightarrow> agent_event \<Rightarrow> bool" where
  "progresses c w r p e \<longleftrightarrow>
     \<not> reserved_event (cm_event c) \<and> recorded_event w c = None \<and>
     get_run (dw_runs w) (cm_run c) = Some r \<and> run_matches r c \<and> rn_sequence r < pc_sequence c \<and>
     clarification_transition (dw_plans w) c = Inr p \<and> progress_event r c = Inr e \<and>
     validate_run (progressed_run r c) = Inr (progressed_run r c) \<and>
     plan_writable (map_option snd p) w"

lemma clarification_projects:
  assumes "clarification_transition plans c = Inr (Some (x, y))"
  shows "projects_plan x y" "pl_status y = Blocked"
    "\<exists>ps i t u. plans = Some ps \<and> plan_get ps i t u = Some x"
  using assms
  by (auto simp: clarification_transition_def projects_plan_def Let_def
      split: if_splits option.splits)

lemma clarification_writable:
  assumes ok: "drs_ok w" and p: "clarification_transition (dw_plans w) c = Inr p"
  shows "plan_writable (map_option snd p) w"
proof (cases p)
  case None
  then show ?thesis by (simp add: plan_writable_def)
next
  case (Some xy)
  obtain x y where xy: "xy = (x, y)" by (cases xy)
  note pr = clarification_projects[OF p[unfolded Some xy]]
  have "plan_writable (Some y) w"
    by (rule projected_writable[OF ok, of "Some x" "\<lambda>z. if z = x then Inr y else Inl Type_Error"])
      (use pr in \<open>auto simp: map_plan_def split: if_splits\<close>)
  with Some xy show ?thesis by simp
qed

lemma progressed_run_same:
  "rn_id (progressed_run r c) = rn_id r" "same_run_identity r (progressed_run r c)"
  "rn_turn (progressed_run r c) = rn_turn r" "rn_delegated (progressed_run r c) = rn_delegated r"
  "rn_deadline (progressed_run r c) = rn_deadline r"
  "rn_version (progressed_run r c) = rn_version r + 1"
  "rn_sequence (progressed_run r c) = pc_sequence c"
  "rn_terminal_event (progressed_run r c) = rn_terminal_event r"
  "\<not> terminal_run_status (rn_status (progressed_run r c))"
  by (simp_all add: progressed_run_def same_run_identity_def progress_run_status_def
      terminal_run_status_def)

lemma run_progress_outcome:
  assumes ok: "drs_ok w"
  shows "(\<exists>e. run_progress now c w = (Inl e, w)) \<or>
    (\<exists>e. recorded_event w c = Some e \<and> validate_duplicate_event e c = Inr () \<and>
       run_progress now c w = (Inr (get_run (dw_runs w) (cm_run c), True), w)) \<or>
    (\<exists>r p e. progresses c w r p e \<and>
       run_progress now c w = (Inr (Some (progressed_run r c), False),
         progressed_to now (progressed_run r c) (map_option snd p) e w))"
proof (cases "reserved_event (cm_event c) \<or> recorded_event w c \<noteq> None")
  case True
  show ?thesis
  proof (cases "reserved_event (cm_event c)")
    case True
    then show ?thesis by (simp add: run_progress_def)
  next
    case False
    with True obtain e where "recorded_event w c = Some e" by auto
    with False show ?thesis
      by (cases "validate_duplicate_event e c") (simp_all add: run_progress_def)
  qed
next
  case False
  let ?prep = "ebind (validate_progress_run (get_run (dw_runs w) (cm_run c)) c) (\<lambda>r.
                ebind (clarification_transition (dw_plans w) c) (\<lambda>p.
                ebind (progress_event r c) (\<lambda>e. Inr (r, p, e))))"
  show ?thesis
  proof (cases ?prep)
    case (Inl e)
    with False have "run_progress now c w = (Inl e, w)" by (simp add: run_progress_def)
    then show ?thesis by blast
  next
    case (Inr x)
    obtain r p e where x: "x = (r, p, e)" by (cases x)
    from Inr x have r: "get_run (dw_runs w) (cm_run c) = Some r" "run_matches r c"
        "rn_sequence r < pc_sequence c"
      and p: "clarification_transition (dw_plans w) c = Inr p" and e: "progress_event r c = Inr e"
      by (auto simp: ebind_eq_Inr validate_progress_run_Inr)
    note st = stored_run_valid[OF ok r(1)]
    have v: "validate_run (progressed_run r c) = Inr (progressed_run r c)"
      using validate_run_fix[OF st(1)] by (simp add: validate_run_def progressed_run_def)
    note wr = clarification_writable[OF ok p]
    have wr': "plan_writable (map_option snd p) (w\<lparr>dw_runs := s\<rparr>)" for s
      using wr by (simp add: plan_writable_def)
    have "progresses c w r p e" using False r p e v wr by (simp add: progresses_def)
    moreover have "run_progress now c w = (Inr (Some (progressed_run r c), False),
         progressed_to now (progressed_run r c) (map_option snd p) e w)"
      using False Inr x r(1) st(2) v write_plan_eq[OF wr'] progressed_run_same(1,2)
      by (simp add: run_progress_def and_then_def try_restore_def write_run_def update_run_Inr[THEN iffD2]
          update_run_def add_run_def get_run_def write_event_def progressed_to_def)
    ultimately show ?thesis by blast
  qed
qed

subsection \<open>The state machine\<close>

text \<open>
  One rule per store method, for any outcome. New run and outbox identifiers are fresh, as
  \<open>uuid4\<close> gives them.
\<close>

inductive drs_step :: "drs \<Rightarrow> drs \<Rightarrow> bool" where
  start: "i \<noteq> [] \<Longrightarrow> get_run (dw_runs w) i = None \<Longrightarrow> run_start now sc i key w = (r1, w') \<Longrightarrow>
    drs_step w w'"
| progress: "run_progress now pc w = (r2, w') \<Longrightarrow> drs_step w w'"
| complete: "fresh_outbox fresh w \<Longrightarrow> run_complete fresh now cc w = (r3, w') \<Longrightarrow> drs_step w w'"
| fail: "fresh_outbox fresh w \<Longrightarrow> run_fail fresh now fc w = (r4, w') \<Longrightarrow> drs_step w w'"
| cancel: "fresh_outbox fresh w \<Longrightarrow> run_cancel fresh now xc w = (r5, w') \<Longrightarrow> drs_step w w'"
| timeout: "fresh_outbox fresh w \<Longrightarrow> run_timeout fresh now tc w = (r6, w') \<Longrightarrow> drs_step w w'"

abbreviation drs_steps :: "drs \<Rightarrow> drs \<Rightarrow> bool" where
  "drs_steps \<equiv> drs_step\<^sup>*\<^sup>*"

text \<open>Every transition is one of these changes of the shared state.\<close>

inductive drs_change :: "drs \<Rightarrow> drs \<Rightarrow> bool" where
  same: "drs_change w w"
| lost_claim: "claim_lost w w' \<Longrightarrow> drs_change w w'"
| stray_plan: "plan_writable p w \<Longrightarrow> drs_change w (w\<lparr>dw_plans := with_plan p (dw_plans w)\<rparr>)"
| started: "i \<noteq> [] \<Longrightarrow> get_run (dw_runs w) i = None \<Longrightarrow> starts c i key now w r t u \<Longrightarrow>
    drs_change w (started r u key w)"
| progressed: "progresses c' w r p e \<Longrightarrow>
    drs_change w (progressed_to now (progressed_run r c') (map_option snd p) e w)"
| committed: "fresh_outbox fresh w \<Longrightarrow>
    commits rst tst fresh (c'' :: event_command) w r t b \<Longrightarrow> terminal_run_status rst \<Longrightarrow> turn_is_terminal tst \<Longrightarrow>
    \<not> turn_is_terminal (tn_status t) \<Longrightarrow> drs_change w (committed now b w)"

lemma commits_truncate: "commits rst tst fresh c w r t b \<Longrightarrow> commits rst tst fresh (event_command.truncate c) w r t b"
  by (simp add: commits_def recorded_event_def run_matches_def command_turn_def event_command.truncate_def)

lemma commits_writable: "commits rst tst fresh c w r t b \<Longrightarrow> plan_writable (bd_plan b) w"
  by (simp add: commits_def)

lemma terminal_statuses_iff [simp]:
  "terminal_run_status RunCompleted" "terminal_run_status RunFailed"
  "terminal_run_status RunCancelled" "terminal_run_status RunTimedOut"
  "turn_is_terminal TurnCompleted" "turn_is_terminal TurnFailed"
  "turn_is_terminal TurnCancelled" "turn_is_terminal TurnTimedOut"
  "\<not> terminal_run_status RunPending"
  by (simp_all add: terminal_run_status_def turn_is_terminal_def)

lemma committed_change:
  assumes "fresh_outbox fresh w" "commits rst tst fresh c w r t b" "terminal_run_status rst"
    "turn_is_terminal tst" "\<not> turn_is_terminal (tn_status t)"
  shows "drs_change w (committed now b w)"
  using drs_change.committed[OF assms(1) commits_truncate[OF assms(2)] assms(3-5)] .

lemma run_fail_state:
  assumes "drs_ok w" "run_fail fresh now c w = (x, w')"
  shows "w' = w \<or> (\<exists>r t b. commits RunFailed TurnFailed fresh c w r t b \<and>
    \<not> turn_is_terminal (tn_status t) \<and> w' = committed now b w)"
  using run_fail_outcome[OF assms(1), of fresh now c] assms(2)
  by (elim disjE exE conjE) (simp, simp, metis prod.inject)

lemma run_cancel_state:
  assumes "drs_ok w" "run_cancel fresh now c w = (x, w')"
  shows "w' = w \<or> (\<exists>r t b. commits RunCancelled TurnCancelled fresh c w r t b \<and>
    \<not> turn_is_terminal (tn_status t) \<and> w' = committed now b w)"
  using run_cancel_outcome[OF assms(1), of fresh now c] assms(2)
  by (elim disjE exE conjE) (simp, simp, metis prod.inject)

lemma run_timeout_state:
  assumes "drs_ok w" "run_timeout fresh now c w = (x, w')"
  shows "claim_lost w w' \<or> (\<exists>r t b. commits RunTimedOut TurnTimedOut fresh c w r t b \<and>
    \<not> turn_is_terminal (tn_status t) \<and> w' = committed now b w)"
  using run_timeout_outcome[OF assms(1), of fresh now c] assms(2)
  by (elim disjE exE conjE) (simp, simp add: claim_lost_def, metis prod.inject)

lemma drs_step_change:
  assumes "drs_step w w'" "drs_ok w"
  shows "drs_change w w'"
  using assms
proof cases
  case (start i now c key r)
  with run_start_outcome[OF assms(2), of now c i key] show ?thesis
    by (auto intro: drs_change.same drs_change.started)
next
  case (progress now c r)
  with run_progress_outcome[OF assms(2), of now c] show ?thesis
    by (auto intro: drs_change.same drs_change.progressed)
next
  case (complete fresh now c r)
  from run_complete_outcome[OF assms(2), of fresh now c] complete(2)
  consider "w' = w"
    | t r b where "commits RunCompleted TurnCompleted fresh c w r t b" "\<not> turn_is_terminal (tn_status t)"
        "w' = committed now b w"
    | t r b where "commits RunCompleted TurnCompleted fresh c w r t b"
        "w' = w\<lparr>dw_plans := with_plan (bd_plan b) (dw_plans w)\<rparr>"
    by (auto split: if_splits)
  then show ?thesis
  proof cases
    case 1
    then show ?thesis by (simp add: drs_change.same)
  next
    case 2
    then show ?thesis by (simp add: committed_change[OF complete(1)])
  next
    case 3
    then show ?thesis using drs_change.stray_plan[OF commits_writable[OF 3(1)]] by simp
  qed
next
  case (fail fresh now c r)
  show ?thesis
    using run_fail_state[OF assms(2) fail(2)]
    by (elim disjE exE conjE) (simp_all add: drs_change.same committed_change[OF fail(1)])
next
  case (cancel fresh now c r)
  show ?thesis
    using run_cancel_state[OF assms(2) cancel(2)]
    by (elim disjE exE conjE) (simp_all add: drs_change.same committed_change[OF cancel(1)])
next
  case (timeout fresh now c r)
  show ?thesis
    using run_timeout_state[OF assms(2) timeout(2)]
    by (elim disjE exE conjE) (simp_all add: drs_change.lost_claim committed_change[OF timeout(1)])
qed

text \<open>
  How a run may change: its identity stays; a terminal run stays exactly as it is; every other
  change advances the version by one and the event sequence.
\<close>

definition run_evolves :: "agent_run \<Rightarrow> agent_run \<Rightarrow> bool" where
  "run_evolves a b \<longleftrightarrow>
     rn_id b = rn_id a \<and> same_run_identity a b \<and> rn_turn b = rn_turn a \<and>
     rn_delegated b = rn_delegated a \<and> rn_deadline b = rn_deadline a \<and>
     (b = a \<or> \<not> terminal_run_status (rn_status a) \<and> rn_version a < rn_version b \<and>
               rn_sequence a < rn_sequence b)"

lemma run_evolves_refl [simp]: "run_evolves a a"
  by (simp add: run_evolves_def same_run_identity_def)

lemma run_evolves_trans: "run_evolves a b \<Longrightarrow> run_evolves b c \<Longrightarrow> run_evolves a c"
  by (auto simp: run_evolves_def same_run_identity_def)

lemma ends_run_evolves:
  "ends_run st r e x \<Longrightarrow> \<not> terminal_run_status (rn_status r) \<Longrightarrow> run_evolves r x"
  by (simp add: ends_run_def run_evolves_def)

lemma drs_change_runs:
  assumes "drs_change w w'" "drs_ok w"
  shows "dw_runs w' = dw_runs w \<or>
    (\<exists>x. rr_runs (dw_runs w') = dput (rn_id x) x (rr_runs (dw_runs w)) \<and> validate_run x = Inr x \<and>
       (get_run (dw_runs w) (rn_id x) = None \<or>
        (\<exists>r. get_run (dw_runs w) (rn_id x) = Some r \<and> run_evolves r x)))"
  using assms
proof cases
  case (started i c key now r t u)
  then have "validate_run r = Inr r" "rn_id r = i"
    using new_run_Inr by (auto simp: starts_def)
  with started show ?thesis by (auto simp: started_def)
next
  case (progressed c r p e now)
  note st = stored_run_valid[OF assms(2), of "cm_run c" r]
  have "run_evolves r (progressed_run r c)"
    using progressed progressed_run_same[of r c]
    by (auto simp: progresses_def run_evolves_def run_matches_def)
  with progressed st progressed_run_same(1)[of r c] show ?thesis
    by (intro disjI2 exI[of _ "progressed_run r c"]) (auto simp: progresses_def progressed_to_def)
next
  case (committed fresh rst tst c r t b now)
  then have fb: "bundle_for rst tst r t (cm_event c) b" and r: "get_run (dw_runs w) (cm_run c) = Some r"
    and nt: "\<not> terminal_run_status (rn_status r)"
    by (auto simp: commits_def bundle_made_def run_matches_def)
  note st = stored_run_valid[OF assms(2) r] and v = validated_run_same[OF fb]
  have ids: "rn_id (bd_run b) = rn_id r" "rn_id (validated_run b) = rn_id r"
    using fb v(2) by (simp_all add: bundle_for_def ends_run_def)
  show ?thesis
    using committed(1) ids st r validate_run_idem[OF v(1)] ends_run_evolves[OF v(2) nt]
    by (intro disjI2 exI[of _ "validated_run b"]) (auto simp: committed_def half_committed_def)
qed (auto simp: claim_lost_def)

lemma drs_change_turns:
  assumes "drs_change w w'" "drs_ok w"
  shows "turn_store_steps (dw_turns w) (dw_turns w')"
  using assms
proof cases
  case (started i c key now r t u)
  then have t: "dget (ts_turns (dw_turns w)) (sc_turn c) = Some t" "\<not> turn_is_terminal (tn_status t)"
    and u: "attaches t r u"
    using attach_run_Inr by (auto simp: starts_def turn_get_iff)
  have "tn_id t = sc_turn c" using turn_store_okD(2)[OF drs_okD(2)[OF assms(2)] t(1)] .
  with t u have "turn_update_if_version u (tn_version t) (dw_turns w) = Inr (Some u, dw_turns w')"
    using started(1)
    by (auto simp: attaches_def turn_update_if_version_def turn_validate_update_def
        owner_request_key_def started_def)
  then show ?thesis by (blast intro: turn_store_step.update)
next
  case (committed fresh rst tst c r t b now)
  then have t: "dget (ts_turns (dw_turns w)) (cm_turn c) = Some t" "\<not> turn_is_terminal (tn_status t)"
    and b: "ends_turn tst t (bd_turn b)"
    using command_turn_Some by (auto simp: commits_def bundle_made_def bundle_for_def)
  have "tn_id t = cm_turn c" using turn_store_okD(2)[OF drs_okD(2)[OF assms(2)] t(1)] .
  with t b have "turn_update_if_version (bd_turn b) (tn_version t) (dw_turns w) =
      Inr (Some (bd_turn b), dw_turns w')"
    using committed(1)
    by (auto simp: ends_turn_def turn_update_if_version_def turn_validate_update_def
        owner_request_key_def committed_def half_committed_def)
  then show ?thesis by (blast intro: turn_store_step.update)
qed (auto simp: claim_lost_def progressed_to_def)

lemma plan_store_ok_drop_claim:
  "plan_store_ok s \<Longrightarrow> plan_store_ok (s\<lparr>ps_claims := dpop i (ps_claims s)\<rparr>)"
  by (auto simp: plan_store_ok_def claim_ok_def attempts_of_def)

lemma started_ok:
  assumes ok: "drs_ok w" and i: "i \<noteq> []" and st: "starts c i key now w r t u"
  shows "drs_ok (started r u key w)"
proof -
  from st have r: "validate_run r = Inr r" "rn_id r = i"
    and t: "dget (ts_turns (dw_turns w)) (sc_turn c) = Some t" "\<not> turn_is_terminal (tn_status t)"
    and u: "attaches t r u"
    using new_run_Inr attach_run_Inr by (auto simp: starts_def turn_get_iff)
  have "tn_id t = sc_turn c" using turn_store_okD(2)[OF drs_okD(2)[OF ok] t(1)] .
  with t u have "turn_update_if_version u (tn_version t) (dw_turns w) =
      Inr (Some u, (dw_turns w)\<lparr>ts_turns := dput (tn_id u) u (ts_turns (dw_turns w))\<rparr>)"
    by (auto simp: attaches_def turn_update_if_version_def turn_validate_update_def
        owner_request_key_def)
  from turn_update_ok[OF drs_okD(2)[OF ok] this] runs_ok_put[OF drs_okD(1)[OF ok] r(1)]
  show ?thesis
    using ok i r(2) drs_okD(6)[OF ok]
    by (simp add: drs_ok_def started_def)
qed

lemma progressed_ok:
  assumes ok: "drs_ok w" and pr: "progresses c w r p e"
  shows "drs_ok (progressed_to now (progressed_run r c) (map_option snd p) e w)"
proof -
  let ?x = "progressed_run r c"
  have x: "validate_run ?x = Inr ?x" and wr: "plan_writable (map_option snd p) w"
    using pr by (auto simp: progresses_def)
  have "plan_store_ok ps" if "with_plan (map_option snd p) (dw_plans w) = Some ps" for ps
    using with_plan_ok[OF drs_okD(5)[OF ok] wr that] .
  with runs_ok_put[OF drs_okD(1)[OF ok] x] add_event_ok[OF drs_okD(4)[OF ok]]
  show ?thesis
    using ok by (simp add: drs_ok_def progressed_to_def)
qed

lemma drs_change_ok:
  assumes "drs_change w w'" "drs_ok w"
  shows "drs_ok w'"
  using assms
proof cases
  case lost_claim
  then consider "w' = w" | ps j where "dw_plans w = Some ps"
      "w' = w\<lparr>dw_plans := Some (ps\<lparr>ps_claims := dpop j (ps_claims ps)\<rparr>)\<rparr>"
    by (auto simp: claim_lost_def)
  then show ?thesis
    using assms(2) plan_store_ok_drop_claim drs_okD(5)[OF assms(2)]
    by cases (simp_all add: drs_ok_def)
next
  case (stray_plan p)
  then show ?thesis
    using assms(2) with_plan_ok[OF drs_okD(5)[OF assms(2)] stray_plan(2)] by (simp add: drs_ok_def)
next
  case (committed fresh rst tst c r t b now)
  then have b: "bundle_for rst tst r t (cm_event c) b" "unsent fresh (bd_outbox b)"
    and p: "plan_writable (bd_plan b) w"
    and t: "dget (ts_turns (dw_turns w)) (cm_turn c) = Some t"
    using command_turn_Some by (auto simp: commits_def bundle_made_def)
  show ?thesis
    unfolding committed(1)
    by (rule committed_ok[OF assms(2) b(1) p t _ b(2)]) (use committed in simp_all)
qed (simp_all add: started_ok progressed_ok)

lemma drs_step_ok: "drs_step w w' \<Longrightarrow> drs_ok w \<Longrightarrow> drs_ok w'"
  by (blast intro: drs_change_ok drs_step_change)

lemma drs_steps_ok: "drs_steps w w' \<Longrightarrow> drs_ok w \<Longrightarrow> drs_ok w'"
  by (induction rule: rtranclp_induct) (blast intro: drs_step_ok)+

lemma drs_step_evolves:
  assumes "drs_step w w'" "drs_ok w" "get_run (dw_runs w) i = Some a"
  shows "\<exists>b. get_run (dw_runs w') i = Some b \<and> run_evolves a b"
  using drs_change_runs[OF drs_step_change[OF assms(1,2)] assms(2)] assms(3)
  by (cases "dw_runs w' = dw_runs w") (auto simp: get_run_def)

lemma drs_steps_evolve:
  assumes "drs_steps w w'" "drs_ok w" "get_run (dw_runs w) i = Some a"
  shows "\<exists>b. get_run (dw_runs w') i = Some b \<and> run_evolves a b"
  using assms
proof (induction rule: rtranclp_induct)
  case base
  then show ?case by auto
next
  case (step y z)
  then obtain b where "get_run (dw_runs y) i = Some b" "run_evolves a b" by blast
  with drs_step_evolves[OF step(2) drs_steps_ok[OF step(1)]] step.prems run_evolves_trans
  show ?case by blast
qed

lemma drs_steps_turns:
  assumes "drs_steps w w'" "drs_ok w"
  shows "turn_store_steps (dw_turns w) (dw_turns w')"
  using assms
proof (induction rule: rtranclp_induct)
  case base
  then show ?case by simp
next
  case (step y z)
  then have "drs_ok y" by (blast intro: drs_steps_ok)
  from drs_change_turns[OF drs_step_change[OF step(2) this] this] step show ?case by auto
qed

text \<open>An event once recorded stays; events of other owners are never replaced.\<close>

lemma drs_change_events:
  assumes "drs_change w w'" "dget (dw_events w) i = Some e"
  shows "dget (dw_events w') i = Some e"
  using assms
  by cases (auto simp: claim_lost_def started_def progressed_to_def committed_def
      half_committed_def intro: add_agent_event_keeps)

lemma drs_steps_events:
  assumes "drs_steps w w'" "drs_ok w" "dget (dw_events w) i = Some e"
  shows "dget (dw_events w') i = Some e"
  using assms
proof (induction rule: rtranclp_induct)
  case (step y z)
  then have "drs_ok y" by (blast intro: drs_steps_ok)
  from drs_change_events[OF drs_step_change[OF step(2) this]] step show ?case by blast
qed simp

text \<open>A delegation key, once it names a run, keeps naming it.\<close>

lemma drs_change_keys:
  assumes "drs_change w w'" "drs_ok w" "dget (dw_keys w) k = Some i"
  shows "dget (dw_keys w') k = Some i"
  using assms drs_okD(6)[OF assms(2,3)]
  by cases (auto simp: claim_lost_def started_def progressed_to_def committed_def
      half_committed_def starts_def str_set_iff)

lemma drs_steps_keys:
  assumes "drs_steps w w'" "drs_ok w" "dget (dw_keys w) k = Some i"
  shows "dget (dw_keys w') k = Some i"
  using assms
proof (induction rule: rtranclp_induct)
  case (step y z)
  then have "drs_ok y" by (blast intro: drs_steps_ok)
  from drs_change_keys[OF drs_step_change[OF step(2) this] this] step show ?case by blast
qed simp

end
