(* ===== verification/Canonical_Invocations.thy ===== *)
theory Canonical_Invocations
  imports Delegated_Lifecycle
begin

text \<open>
  The store behind direct invocations of agents on behalf of a turn
  (\<open>MemoryCanonicalInvocationStore\<close> of \<open>app/repositories/canonical_invocations.py\<close>): a run is
  started and attached to the turn of its request, and completing it writes the run, its result,
  the turn and an outbox event together or not at all. The store works on the repositories the
  delegated-run stores use, so its state is the same record.

  The \<open>asyncio.Lock\<close> is held over methods that never suspend, so each operation is one step.
\<close>

subsection \<open>Data\<close>

text \<open>\<open>FormationEligibilitySnapshot\<close> with its validator, and its JSON dump.\<close>

record eligibility =
  el_mode :: string
  el_execution :: string
  el_suppressed :: bool
  el_reason :: "string option"
  el_policy :: string

definition eligibility_ok :: "eligibility \<Rightarrow> bool" where
  "eligibility_ok e \<longleftrightarrow>
     el_mode e \<in> {''off'', ''observe'', ''enforced''} \<and>
     (\<forall>x\<in>set_option (el_reason e). length x \<le> 64) \<and>
     el_policy e \<noteq> [] \<and> length (el_policy e) \<le> 128 \<and> el_suppressed e = str_set (el_reason e)"

definition eligibility_json :: "eligibility \<Rightarrow> json" where
  "eligibility_json e =
     JObj [(''mode'', JStr (el_mode e)), (''execution_mode'', JStr (el_execution e)),
           (''suppressed'', JBool (el_suppressed e)), (''reason_code'', opt_str (el_reason e)),
           (''policy_version'', JStr (el_policy e))]"

text \<open>\<open>x or ""\<close>.\<close>

definition or_empty :: "string option \<Rightarrow> string" where
  "or_empty x = (case x of None \<Rightarrow> [] | Some s \<Rightarrow> s)"

subsection \<open>Validators and projections\<close>

definition run_owner_set :: "agent_run \<Rightarrow> bool" where
  "run_owner_set r \<longleftrightarrow>
     str_set (rn_request r) \<and> rn_session r \<noteq> [] \<and> str_set (rn_tenant r) \<and> str_set (rn_user r) \<and>
     rn_agent r \<noteq> []"

definition canonical_turn :: "turn option \<Rightarrow> agent_run \<Rightarrow> py_exn + turn" where
  "canonical_turn t r =
     (case t of
        None \<Rightarrow> Inl (Canonical_Conflict ''Canonical Turn not found'')
      | Some x \<Rightarrow>
          if Some (tn_tenant x) \<noteq> rn_tenant r \<or> Some (tn_user x) \<noteq> rn_user r \<or>
             tn_session x \<noteq> rn_session r \<or> Some (tn_request x) \<noteq> rn_request r
          then Inl (Canonical_Conflict ''Canonical Turn ownership conflict'')
          else Inr x)"

definition start_replay ::
    "drs \<Rightarrow> turn \<Rightarrow> py_exn + (agent_run \<times> turn \<times> agent_result option) option" where
  "start_replay w t =
     (if tr_runs (tn_refs t) = [] then Inr None
      else case get_run (dw_runs w) (last (tr_runs (tn_refs t))) of
        None \<Rightarrow> Inl (Canonical_Conflict ''Canonical Turn references a missing Run'')
      | Some r \<Rightarrow>
          if tr_results (tn_refs t) = [] then Inr (Some (r, t, None))
          else case find (\<lambda>x. rs_id x = last (tr_results (tn_refs t))) (re_results (dw_results w)) of
            None \<Rightarrow> Inl (Canonical_Conflict ''Canonical Turn references a missing Result'')
          | Some x \<Rightarrow> Inr (Some (r, t, Some x)))"

definition terminal_replay ::
    "drs \<Rightarrow> turn \<Rightarrow> py_exn + (agent_run \<times> agent_result \<times> turn) option" where
  "terminal_replay w t =
     ebind (start_replay w t) (\<lambda>rep.
       case rep of
         None \<Rightarrow> Inr None
       | Some (r, t', None) \<Rightarrow> Inl (Canonical_Conflict ''Terminal Turn is missing a Result'')
       | Some (r, t', Some x) \<Rightarrow> Inr (Some (r, x, t')))"

definition add_ref :: "ident \<Rightarrow> ident list \<Rightarrow> ident list" where
  "add_ref i is = (if i \<in> set is then is else is @ [i])"

definition canonical_attach :: "agent_run \<Rightarrow> turn \<Rightarrow> time \<Rightarrow> py_exn + agent_run \<times> turn" where
  "canonical_attach r t now =
     (if turn_is_terminal (tn_status t)
      then Inl (Canonical_Conflict ''Canonical Turn is already terminal'')
      else Inr (r\<lparr>rn_turn := Some (tn_id t), rn_status := RunRunning, rn_updated := Some now\<rparr>,
                t\<lparr>tn_status := TurnRunning, tn_version := tn_version t + 1,
                  tn_refs := (tn_refs t)\<lparr>tr_runs := add_ref (rn_id r) (tr_runs (tn_refs t))\<rparr>,
                  tn_updated := now\<rparr>))"

record canonical_bundle =
  cb_run :: agent_run
  cb_result :: agent_result
  cb_turn :: turn
  cb_outbox :: outbox_event

text \<open>
  \<open>TurnSemanticResponse\<close> bounds its text by 20000 characters; a longer one is a
  \<open>ValidationError\<close>, which is a \<open>ValueError\<close>.
\<close>

definition turn_event_name :: "turn_status \<Rightarrow> string" where
  "turn_event_name st = (if st = TurnCompleted then ''turn.completed'' else ''turn.failed'')"

definition canonical_bundle_of ::
    "ident \<Rightarrow> time \<Rightarrow> agent_run \<Rightarrow> agent_result \<Rightarrow> turn \<Rightarrow> string \<Rightarrow> eligibility \<Rightarrow>
     py_exn + canonical_bundle" where
  "canonical_bundle_of fresh now r x t text e =
     (if \<not> str_set (rn_turn r) \<or> rn_turn r \<noteq> Some (tn_id t)
      then Inl (Canonical_Conflict ''Run does not belong to Canonical Turn'')
      else if turn_is_terminal (tn_status t)
      then Inl (Canonical_Conflict ''Canonical Turn is already terminal'')
      else if rs_run x \<noteq> rn_id r then Inl (Canonical_Conflict ''Result does not belong to Run'')
      else if length text > 20000 then Inl (Value_Error ''text is too long'')
      else
        let st = (if rs_status x = RunCompleted then TurnCompleted else TurnFailed);
            run = r\<lparr>rn_status := rs_status x, rn_turn := Some (tn_id t),
                    rn_version := rn_version r + 1, rn_updated := Some now\<rparr>;
            result = x\<lparr>rs_turn := Some (tn_id t), rs_run_version := Some (rn_version run)\<rparr>;
            refs = (tn_refs t)\<lparr>tr_runs := add_ref (rn_id run) (tr_runs (tn_refs t)),
                               tr_results := add_ref (rs_id result) (tr_results (tn_refs t))\<rparr>;
            turn = t\<lparr>tn_status := st, tn_version := tn_version t + 1, tn_refs := refs,
                     tn_response := Some
                       \<lparr>sr_kind = (if st = TurnCompleted then Kind_Agent_Result else Kind_Error),
                        sr_text = text, sr_output = rs_output result, sr_error = rs_error result\<rparr>,
                     tn_updated := now, tn_completed := Some now\<rparr>
        in Inr \<lparr>cb_run = run, cb_result = result, cb_turn = turn,
                cb_outbox = new_outbox fresh (tn_id t) (turn_event_name st)
                  (turn_event_name st @ '':'' @ tn_id t)
                  (JObj [(''turn_id'', JStr (tn_id t)), (''tenant_id'', JStr (tn_tenant t)),
                         (''user_id'', JStr (tn_user t)), (''request_id'', JStr (tn_request t)),
                         (''run_id'', JStr (rn_id run)), (''result_id'', JStr (rs_id result)),
                         (''state_version'', JNum (int (tn_version turn))),
                         (''formation_eligibility'', eligibility_json e)]) now\<rparr>)"

subsection \<open>The operations\<close>

definition canonical_start ::
    "time \<Rightarrow> agent_run \<Rightarrow> (agent_run \<times> turn \<times> agent_result option) act" where
  "canonical_start now r w =
     (if \<not> run_owner_set r
      then (Inl (Canonical_Conflict ''Canonical Run requires trusted ownership''), w)
      else
        case canonical_turn
               (turn_get_by_request (dw_turns w) (or_empty (rn_tenant r)) (or_empty (rn_user r))
                  (or_empty (rn_request r))) r of
          Inl e \<Rightarrow> (Inl e, w)
        | Inr t \<Rightarrow>
            (case start_replay w t of
               Inl e \<Rightarrow> (Inl e, w)
             | Inr (Some replay) \<Rightarrow> (Inr replay, w)
             | Inr None \<Rightarrow>
                 (case canonical_attach r t now of
                    Inl e \<Rightarrow> (Inl e, w)
                  | Inr (run, turn) \<Rightarrow>
                      (case add_run run (dw_runs w) of
                         Inl e \<Rightarrow> (Inl e, w)
                       | Inr (_, rs) \<Rightarrow>
                           (case turn_update_if_version turn (tn_version t) (dw_turns w) of
                              Inl e \<Rightarrow> (Inl e, w\<lparr>dw_runs := rs\<rparr>)
                            | Inr (None, ts) \<Rightarrow>
                                (Inl (Canonical_Conflict ''Canonical Turn changed concurrently''),
                                 w\<lparr>dw_runs := rs\<lparr>rr_runs := dpop (rn_id run) (rr_runs rs)\<rparr>,
                                   dw_turns := ts\<rparr>)
                            | Inr (Some stored, ts) \<Rightarrow>
                                (Inr (run, stored, None), w\<lparr>dw_runs := rs, dw_turns := ts\<rparr>))))))"

text \<open>The body of the \<open>try\<close> block, and what its handler restores from the snapshots.\<close>

definition canonical_commit :: "nat \<Rightarrow> canonical_bundle \<Rightarrow> turn act" where
  "canonical_commit expected b =
     and_then (write_run (cb_run b)) (\<lambda>_.
     and_then (write_result (Some (cb_result b))) (\<lambda>_.
     and_then (\<lambda>w.
        case turn_update_if_version (cb_turn b) expected (dw_turns w) of
          Inl e \<Rightarrow> (Inl e, w)
        | Inr (None, s) \<Rightarrow>
            (Inl (Canonical_Conflict ''Canonical Turn changed concurrently''), w\<lparr>dw_turns := s\<rparr>)
        | Inr (Some t, s) \<Rightarrow> (Inr t, w\<lparr>dw_turns := s\<rparr>)) (\<lambda>stored.
     and_then (write_outbox (cb_outbox b)) (\<lambda>_ w. (Inr stored, w)))))"

definition restore_snapshots :: "drs \<Rightarrow> drs \<Rightarrow> drs" where
  "restore_snapshots old w =
     w\<lparr>dw_runs := (dw_runs w)\<lparr>rr_runs := rr_runs (dw_runs old)\<rparr>,
       dw_results := dw_results old,
       dw_turns := (dw_turns w)\<lparr>ts_turns := ts_turns (dw_turns old)\<rparr>,
       dw_outbox := dw_outbox old\<rparr>"

definition canonical_complete ::
    "ident \<Rightarrow> time \<Rightarrow> agent_run \<Rightarrow> agent_result \<Rightarrow> string \<Rightarrow> eligibility \<Rightarrow>
     (agent_run \<times> agent_result \<times> turn) act" where
  "canonical_complete fresh now r x text e w =
     (case turn_get (dw_turns w) (or_empty (rn_turn r)) (or_empty (rn_tenant r))
             (or_empty (rn_user r)) of
        None \<Rightarrow> (Inl (Canonical_Conflict ''Canonical Turn not found''), w)
      | Some t \<Rightarrow>
          if turn_is_terminal (tn_status t) then
            (case terminal_replay w t of
               Inl err \<Rightarrow> (Inl err, w)
             | Inr (Some replay) \<Rightarrow> (Inr replay, w)
             | Inr None \<Rightarrow> (Inl (Canonical_Conflict ''Canonical Turn is already terminal''), w))
          else
            (case canonical_bundle_of fresh now r x t text e of
               Inl err \<Rightarrow> (Inl err, w)
             | Inr b \<Rightarrow>
                 and_then
                   (try_restore (canonical_commit (tn_version t) b) (restore_snapshots w))
                   (\<lambda>stored w'. (Inr (cb_run b, cb_result b, stored), w')) w))"

subsection \<open>What the operations do\<close>

lemma add_ref_set [simp]: "set (add_ref i is) = insert i (set is)"
  by (auto simp: add_ref_def)

lemma add_ref_fresh: "i \<notin> set is \<Longrightarrow> add_ref i is = is @ [i]"
  by (simp add: add_ref_def)

lemma canonical_turn_Inr:
  "canonical_turn t r = Inr x \<longleftrightarrow>
     t = Some x \<and> rn_tenant r = Some (tn_tenant x) \<and> rn_user r = Some (tn_user x) \<and>
     tn_session x = rn_session r \<and> rn_request r = Some (tn_request x)"
  by (auto simp: canonical_turn_def split: option.splits)

text \<open>The world after a new run was attached to its turn.\<close>

definition run_attached :: "agent_run \<Rightarrow> agent_run \<Rightarrow> turn \<Rightarrow> drs \<Rightarrow> drs" where
  "run_attached run stored turn w =
     w\<lparr>dw_runs := (dw_runs w)\<lparr>rr_runs := dput (rn_id run) stored (rr_runs (dw_runs w))\<rparr>,
       dw_turns := (dw_turns w)\<lparr>ts_turns := dput (tn_id turn) turn (ts_turns (dw_turns w))\<rparr>\<rparr>"

definition started_new :: "time \<Rightarrow> agent_run \<Rightarrow> drs \<Rightarrow> turn \<Rightarrow> agent_run \<Rightarrow> agent_run \<Rightarrow> turn \<Rightarrow> bool" where
  "started_new now r w t run stored turn \<longleftrightarrow>
     dget (ts_turns (dw_turns w)) (tn_id t) = Some t \<and> \<not> turn_is_terminal (tn_status t) \<and>
     rn_tenant r = Some (tn_tenant t) \<and> rn_user r = Some (tn_user t) \<and>
     rn_session r = tn_session t \<and> rn_request r = Some (tn_request t) \<and>
     tr_runs (tn_refs t) = [] \<and>
     run = r\<lparr>rn_turn := Some (tn_id t), rn_status := RunRunning, rn_updated := Some now\<rparr> \<and>
     validate_run run = Inr stored \<and>
     turn = t\<lparr>tn_status := TurnRunning, tn_version := tn_version t + 1,
              tn_refs := (tn_refs t)\<lparr>tr_runs := [rn_id r]\<rparr>, tn_updated := now\<rparr>"

lemma turn_update_next:
  assumes "dget (ts_turns s) (tn_id t) = Some t" "\<not> turn_is_terminal (tn_status t)"
    "tn_id u = tn_id t" "tn_tenant u = tn_tenant t" "tn_user u = tn_user t"
    "tn_session u = tn_session t" "tn_request u = tn_request t" "tn_source u = tn_source t"
    "tn_version u = tn_version t + 1"
  shows "turn_update_if_version u (tn_version t) s =
    Inr (Some u, s\<lparr>ts_turns := dput (tn_id u) u (ts_turns s)\<rparr>)"
  using assms by (simp add: turn_update_if_version_def turn_validate_update_def)

text \<open>
  A start either leaves the world as it is, answering with an exception or with a replay of the
  last run of the turn, or it attaches a new run; a half-written start does not occur.
\<close>

lemma canonical_start_cases:
  assumes ok: "drs_ok w" and start: "canonical_start now r w = (res, w')"
  obtains (unchanged) "w' = w"
      "\<And>x. res = Inr x \<Longrightarrow> \<exists>t. canonical_turn (Some t) r = Inr t \<and>
         dget (ts_turns (dw_turns w)) (tn_id t) = Some t \<and> start_replay w t = Inr (Some x)"
    | (new) t run stored turn where "started_new now r w t run stored turn"
        "res = Inr (run, turn, None)" "w' = run_attached run stored turn w"
proof (cases "canonical_turn (turn_get_by_request (dw_turns w) (or_empty (rn_tenant r))
                  (or_empty (rn_user r)) (or_empty (rn_request r))) r")
  case (Inl e)
  with start show ?thesis by (intro unchanged) (auto simp: canonical_start_def split: if_splits)
next
  case (Inr t)
  note v = this
  then have own: "rn_tenant r = Some (tn_tenant t)" "rn_user r = Some (tn_user t)"
      "tn_session t = rn_session r" "rn_request r = Some (tn_request t)"
    and "turn_get_by_request (dw_turns w) (tn_tenant t) (tn_user t) (tn_request t) = Some t"
    by (auto simp: canonical_turn_Inr or_empty_def)
  then have t: "dget (ts_turns (dw_turns w)) (tn_id t) = Some t"
    using turn_by_request_iff[OF drs_okD(2)[OF ok]] turn_store_okD(2)[OF drs_okD(2)[OF ok]] by auto
  show ?thesis
  proof (cases "start_replay w t")
    case (Inl e)
    with v start show ?thesis by (intro unchanged) (auto simp: canonical_start_def split: if_splits)
  next
    case (Inr rep)
    show ?thesis
    proof (cases rep)
      case (Some x)
      with Inr v start have "w' = w" "res = Inr x \<or> (\<exists>e. res = Inl e)"
        by (auto simp: canonical_start_def split: if_splits)
      with Inr Some t own show ?thesis
        by (intro unchanged) (auto simp: canonical_turn_Inr)
    next
      case None
      with Inr have empty: "tr_runs (tn_refs t) = []"
        by (auto simp: start_replay_def split: if_splits option.splits)
      let ?run = "r\<lparr>rn_turn := Some (tn_id t), rn_status := RunRunning, rn_updated := Some now\<rparr>"
      let ?turn = "t\<lparr>tn_status := TurnRunning, tn_version := tn_version t + 1,
              tn_refs := (tn_refs t)\<lparr>tr_runs := [rn_id r]\<rparr>, tn_updated := now\<rparr>"
      have "turn_update_if_version ?turn (tn_version t) (dw_turns w) =
          Inr (Some ?turn, (dw_turns w)\<lparr>ts_turns := dput (tn_id t) ?turn (ts_turns (dw_turns w))\<rparr>)"
        if "\<not> turn_is_terminal (tn_status t)"
        using turn_update_next[OF t that, of ?turn] by simp
      moreover have eq: "(res, w') =
          (if \<not> run_owner_set r
           then (Inl (Canonical_Conflict ''Canonical Run requires trusted ownership''), w)
           else if turn_is_terminal (tn_status t)
           then (Inl (Canonical_Conflict ''Canonical Turn is already terminal''), w)
           else case validate_run ?run of
             Inl e \<Rightarrow> (Inl e, w)
           | Inr stored \<Rightarrow> (Inr (?run, ?turn, None), run_attached ?run stored ?turn w))"
        using start v Inr None empty calculation
        by (auto simp: canonical_start_def canonical_attach_def add_ref_def add_run_def
            run_attached_def ebind_def split: sum.splits)
      ultimately have r: "(res, w') = (Inr (?run, ?turn, None), run_attached ?run x ?turn w)"
        if "run_owner_set r" "\<not> turn_is_terminal (tn_status t)" "validate_run ?run = Inr x" for x
        using that by simp
      show ?thesis
      proof (cases "run_owner_set r \<and> \<not> turn_is_terminal (tn_status t) \<and> (\<exists>x. validate_run ?run = Inr x)")
        case True
        then obtain x where x: "validate_run ?run = Inr x" by blast
        with r True have "res = Inr (?run, ?turn, None)" "w' = run_attached ?run x ?turn w" by auto
        with True x t own empty show ?thesis
          by (intro new[of t ?run x ?turn]) (simp_all add: started_new_def)
      next
        case False
        with eq have "w' = w" "\<exists>e. res = Inl e" by (auto split: if_splits sum.splits)
        then show ?thesis by (intro unchanged) auto
      qed
    qed
  qed
qed

text \<open>The world after a completion, and the projection of its bundle.\<close>

definition canonical_committed :: "canonical_bundle \<Rightarrow> agent_run \<Rightarrow> drs \<Rightarrow> drs" where
  "canonical_committed b stored w =
     w\<lparr>dw_runs := (dw_runs w)\<lparr>rr_runs := dput (rn_id (cb_run b)) stored (rr_runs (dw_runs w))\<rparr>,
       dw_results := add_result (cb_result b) (dw_results w),
       dw_turns := (dw_turns w)\<lparr>ts_turns := dput (tn_id (cb_turn b)) (cb_turn b)
                                   (ts_turns (dw_turns w))\<rparr>,
       dw_outbox := (case outbox_add (cb_outbox b) (dw_outbox w) of
                       Inl e \<Rightarrow> dw_outbox w | Inr (x, s) \<Rightarrow> s)\<rparr>"

definition ends_turn :: "time \<Rightarrow> agent_run \<Rightarrow> agent_result \<Rightarrow> string \<Rightarrow> turn \<Rightarrow> turn \<Rightarrow> bool" where
  "ends_turn now r x text t u \<longleftrightarrow>
     (let st = (if rs_status x = RunCompleted then TurnCompleted else TurnFailed) in
      u = t\<lparr>tn_status := st, tn_version := tn_version t + 1,
            tn_refs := (tn_refs t)\<lparr>tr_runs := add_ref (rn_id r) (tr_runs (tn_refs t)),
                                   tr_results := add_ref (rs_id x) (tr_results (tn_refs t))\<rparr>,
            tn_response := Some \<lparr>sr_kind = (if st = TurnCompleted then Kind_Agent_Result else Kind_Error),
              sr_text = text, sr_output = rs_output x, sr_error = rs_error x\<rparr>,
            tn_updated := now, tn_completed := Some now\<rparr>)"

lemma canonical_bundle_of_Inr:
  assumes "canonical_bundle_of fresh now r x t text e = Inr b"
  shows "rn_turn r = Some (tn_id t)" "tn_id t \<noteq> []" "\<not> turn_is_terminal (tn_status t)"
    "rs_run x = rn_id r" "length text \<le> 20000"
    "cb_run b = r\<lparr>rn_status := rs_status x, rn_version := rn_version r + 1, rn_updated := Some now\<rparr>"
    "cb_result b = x\<lparr>rs_turn := Some (tn_id t), rs_run_version := Some (rn_version r + 1)\<rparr>"
    "ends_turn now r x text t (cb_turn b)"
    "ob_key (cb_outbox b) = turn_event_name (tn_status (cb_turn b)) @ '':'' @ tn_id t"
    "ob_turn (cb_outbox b) = tn_id t" "ob_type (cb_outbox b) = turn_event_name (tn_status (cb_turn b))"
    "ob_id (cb_outbox b) = fresh" "ob_status (cb_outbox b) = Outbox_Pending"
    "ob_attempts (cb_outbox b) = 0" "0 < ob_max_attempts (cb_outbox b)"
  using assms
  by (auto simp: canonical_bundle_of_def ends_turn_def Let_def new_outbox_def split: if_splits)

lemma ends_turn_sel:
  assumes "ends_turn now r x text t u"
  shows "tn_id u = tn_id t" "tn_tenant u = tn_tenant t" "tn_user u = tn_user t"
    "tn_session u = tn_session t" "tn_request u = tn_request t" "tn_source u = tn_source t"
    "tn_version u = tn_version t + 1" "turn_is_terminal (tn_status u)"
    "tn_status u = (if rs_status x = RunCompleted then TurnCompleted else TurnFailed)"
    "tr_runs (tn_refs u) = add_ref (rn_id r) (tr_runs (tn_refs t))"
    "tr_results (tn_refs u) = add_ref (rs_id x) (tr_results (tn_refs t))"
  using assms by (auto simp: ends_turn_def Let_def turn_is_terminal_def)

lemma canonical_commit_eq:
  assumes ok: "drs_ok w" and t: "dget (ts_turns (dw_turns w)) (tn_id t) = Some t"
    and b: "canonical_bundle_of fresh now r x t text e = Inr b"
  shows "canonical_commit (tn_version t) b w =
    (case update_run (cb_run b) (dw_runs w) of
       Inl err \<Rightarrow> (Inl err, w)
     | Inr (stored, _) \<Rightarrow> (Inr (cb_turn b), canonical_committed b stored w))"
proof (cases "update_run (cb_run b) (dw_runs w)")
  case (Inl err)
  then show ?thesis by (simp add: canonical_commit_def and_then_def write_run_def)
next
  case (Inr p)
  then obtain stored where s: "update_run (cb_run b) (dw_runs w) =
      Inr (stored, (dw_runs w)\<lparr>rr_runs := dput (rn_id (cb_run b)) stored (rr_runs (dw_runs w))\<rparr>)"
    by (cases p) (auto simp: update_run_Inr)
  note bb = canonical_bundle_of_Inr[OF b]
  have u: "turn_update_if_version (cb_turn b) (tn_version t) (dw_turns w) =
      Inr (Some (cb_turn b), (dw_turns w)\<lparr>ts_turns := dput (tn_id (cb_turn b)) (cb_turn b)
                                   (ts_turns (dw_turns w))\<rparr>)"
    using bb(3) ends_turn_sel[OF bb(8)] by (intro turn_update_next[OF t]) simp_all
  obtain y o' where o: "outbox_add (cb_outbox b) (dw_outbox w) = Inr (y, o')"
    using outbox_add_total[OF drs_okD(3)[OF ok]] by blast
  show ?thesis
    using s u o
    by (simp add: canonical_commit_def and_then_def write_run_def write_result_def write_outbox_def
        canonical_committed_def)
qed

lemma canonical_complete_cases:
  assumes ok: "drs_ok w" and c: "canonical_complete fresh now r x text e w = (res, w')"
  obtains (unchanged) "w' = w"
      "\<And>y. res = Inr y \<Longrightarrow> \<exists>t. dget (ts_turns (dw_turns w)) (tn_id t) = Some t \<and>
         or_empty (rn_turn r) = tn_id t \<and>
         turn_is_terminal (tn_status t) \<and> terminal_replay w t = Inr (Some y)"
    | (new) t b stored old where "dget (ts_turns (dw_turns w)) (tn_id t) = Some t"
        "or_empty (rn_tenant r) = tn_tenant t" "or_empty (rn_user r) = tn_user t"
        "canonical_bundle_of fresh now r x t text e = Inr b"
        "get_run (dw_runs w) (rn_id r) = Some old" "same_run_identity old r"
        "validate_run (cb_run b) = Inr stored"
        "res = Inr (cb_run b, cb_result b, cb_turn b)" "w' = canonical_committed b stored w"
proof (cases "turn_get (dw_turns w) (or_empty (rn_turn r)) (or_empty (rn_tenant r))
             (or_empty (rn_user r))")
  case None
  with c show ?thesis by (intro unchanged) (auto simp: canonical_complete_def)
next
  case (Some t)
  then have t: "dget (ts_turns (dw_turns w)) (or_empty (rn_turn r)) = Some t"
    and own: "tn_tenant t = or_empty (rn_tenant r)" "tn_user t = or_empty (rn_user r)"
    by (auto simp: turn_get_iff)
  have i: "or_empty (rn_turn r) = tn_id t" using turn_store_okD(2)[OF drs_okD(2)[OF ok] t] by simp
  show ?thesis
  proof (cases "turn_is_terminal (tn_status t)")
    case True
    with Some c have "w' = w" "\<And>y. res = Inr y \<Longrightarrow> terminal_replay w t = Inr (Some y)"
      by (auto simp: canonical_complete_def split: sum.splits option.splits)
    with True t i show ?thesis by (intro unchanged) auto
  next
    case False
    show ?thesis
    proof (cases "canonical_bundle_of fresh now r x t text e")
      case (Inl err)
      with Some c False show ?thesis by (intro unchanged) (auto simp: canonical_complete_def)
    next
      case (Inr b)
      have "rn_id (cb_run b) = rn_id r" "same_run_identity z (cb_run b) = same_run_identity z r" for z
        using canonical_bundle_of_Inr(6)[OF Inr] by (simp_all add: same_run_identity_def)
      note same = this
      have t': "dget (ts_turns (dw_turns w)) (tn_id t) = Some t" using t i by simp
      have c': "(res, w') = (case update_run (cb_run b) (dw_runs w) of
          Inl err \<Rightarrow> (Inl err, w)
        | Inr (stored, _) \<Rightarrow>
            (Inr (cb_run b, cb_result b, cb_turn b), canonical_committed b stored w))"
        using Some c False Inr canonical_commit_eq[OF ok t' Inr]
        by (auto simp: canonical_complete_def and_then_def try_restore_def restore_snapshots_def
            split: sum.splits prod.splits)
      show ?thesis
      proof (cases "update_run (cb_run b) (dw_runs w)")
        case (Inl err)
        with c' show ?thesis by (intro unchanged) auto
      next
        case (Inr p)
        then obtain old where "get_run (dw_runs w) (rn_id r) = Some old" "same_run_identity old r"
          "validate_run (cb_run b) = Inr (fst p)"
          by (cases p) (auto simp: update_run_Inr same get_run_def)
        with Inr c' t' own show ?thesis
          by (intro new[OF t' _ _ \<open>canonical_bundle_of fresh now r x t text e = Inr b\<close>])
              (auto split: prod.splits)
      qed
    qed
  qed
qed


subsection \<open>Histories\<close>

text \<open>
  The invariant of the links: the runs and results a turn refers to are stored, and a stored run
  that belongs to a turn is one the turn refers to.
\<close>

definition canonical_ok :: "drs \<Rightarrow> bool" where
  "canonical_ok w \<longleftrightarrow>
     drs_ok w \<and>
     (\<forall>t\<in>set (dvalues (ts_turns (dw_turns w))).
        (\<forall>i\<in>set (tr_runs (tn_refs t)). get_run (dw_runs w) i \<noteq> None) \<and>
        (\<forall>i\<in>set (tr_results (tn_refs t)). i \<in> rs_id ` set (re_results (dw_results w)))) \<and>
     (\<forall>r\<in>set (dvalues (rr_runs (dw_runs w))). \<forall>i. rn_turn r = Some i \<longrightarrow>
        (\<exists>t. dget (ts_turns (dw_turns w)) i = Some t \<and> rn_id r \<in> set (tr_runs (tn_refs t))))"

text \<open>
  What callers do: a new turn is opened without references, a run with a fresh identifier is
  started, and a run is completed by the caller that started it, who hands back the turn the run
  was attached to.
\<close>

inductive canonical_step :: "drs \<Rightarrow> drs \<Rightarrow> bool" where
  open_turn: "tn_refs t = empty_refs \<Longrightarrow> turn_create t (dw_turns w) = Inr (x, s) \<Longrightarrow>
    canonical_step w (w\<lparr>dw_turns := s\<rparr>)"
| start: "get_run (dw_runs w) (rn_id r) = None \<Longrightarrow> canonical_start now r w = (res, w') \<Longrightarrow>
    canonical_step w w'"
| complete: "fresh_outbox fresh w \<Longrightarrow>
    (\<And>old. get_run (dw_runs w) (rn_id r) = Some old \<Longrightarrow> rn_turn old = rn_turn r) \<Longrightarrow>
    canonical_complete fresh now r x text e w = (res', w') \<Longrightarrow> canonical_step w w'"

abbreviation canonical_steps :: "drs \<Rightarrow> drs \<Rightarrow> bool" where
  "canonical_steps \<equiv> canonical_step\<^sup>*\<^sup>*"

lemma canonical_okD:
  assumes "canonical_ok w"
  shows "drs_ok w"
    "dget (ts_turns (dw_turns w)) j = Some t \<Longrightarrow> i \<in> set (tr_runs (tn_refs t)) \<Longrightarrow>
       \<exists>r. get_run (dw_runs w) i = Some r"
    "dget (ts_turns (dw_turns w)) j = Some t \<Longrightarrow> i \<in> set (tr_results (tn_refs t)) \<Longrightarrow>
       i \<in> rs_id ` set (re_results (dw_results w))"
    "get_run (dw_runs w) i = Some r \<Longrightarrow> rn_turn r = Some j \<Longrightarrow>
       \<exists>t. dget (ts_turns (dw_turns w)) j = Some t \<and> i \<in> set (tr_runs (tn_refs t))"
proof -
  show ok: "drs_ok w" using assms by (simp add: canonical_ok_def)
  show "\<exists>r. get_run (dw_runs w) i = Some r"
    if "dget (ts_turns (dw_turns w)) j = Some t" "i \<in> set (tr_runs (tn_refs t))"
    using assms that dget_in_values[OF that(1)] by (auto simp: canonical_ok_def)
  show "i \<in> rs_id ` set (re_results (dw_results w))"
    if "dget (ts_turns (dw_turns w)) j = Some t" "i \<in> set (tr_results (tn_refs t))"
    using assms that dget_in_values[OF that(1)] unfolding canonical_ok_def by blast
  show "\<exists>t. dget (ts_turns (dw_turns w)) j = Some t \<and> i \<in> set (tr_runs (tn_refs t))"
    if "get_run (dw_runs w) i = Some r" "rn_turn r = Some j"
    using assms that dget_in_values[of "rr_runs (dw_runs w)" i r]
      runs_okD(2)[OF drs_okD(1)[OF ok], of i r]
    unfolding canonical_ok_def get_run_def by blast
qed

lemma canonical_okI:
  assumes "drs_ok w"
    "\<And>j t i. dget (ts_turns (dw_turns w)) j = Some t \<Longrightarrow> i \<in> set (tr_runs (tn_refs t)) \<Longrightarrow>
       get_run (dw_runs w) i \<noteq> None"
    "\<And>j t i. dget (ts_turns (dw_turns w)) j = Some t \<Longrightarrow> i \<in> set (tr_results (tn_refs t)) \<Longrightarrow>
       i \<in> rs_id ` set (re_results (dw_results w))"
    "\<And>i j r. get_run (dw_runs w) i = Some r \<Longrightarrow> rn_turn r = Some j \<Longrightarrow>
       \<exists>t. dget (ts_turns (dw_turns w)) j = Some t \<and> i \<in> set (tr_runs (tn_refs t))"
  shows "canonical_ok w"
proof -
  have t: "\<exists>j. dget (ts_turns (dw_turns w)) j = Some t"
    if "t \<in> set (dvalues (ts_turns (dw_turns w)))" for t
    using in_values_dget[OF turn_store_okD(1)[OF drs_okD(2)[OF assms(1)]] that] .
  have r: "get_run (dw_runs w) (rn_id x) = Some x" if "x \<in> set (dvalues (rr_runs (dw_runs w)))" for x
    using in_values_dget[OF runs_okD(1)[OF drs_okD(1)[OF assms(1)]] that]
      runs_okD(2)[OF drs_okD(1)[OF assms(1)]] by (auto simp: get_run_def)
  show ?thesis
    unfolding canonical_ok_def using assms(1) t r assms(2-4) by metis
qed


lemma run_attached_sel:
  "dw_results (run_attached run stored turn w) = dw_results w"
  "dget (ts_turns (dw_turns (run_attached run stored turn w))) j =
     (if j = tn_id turn then Some turn else dget (ts_turns (dw_turns w)) j)"
  "get_run (dw_runs (run_attached run stored turn w)) i =
     (if i = rn_id run then Some stored else get_run (dw_runs w) i)"
  by (simp_all add: run_attached_def get_run_def)

lemma canonical_committed_sel:
  "re_results (dw_results (canonical_committed b stored w)) =
     re_results (dw_results w) @ [cb_result b]"
  "dget (ts_turns (dw_turns (canonical_committed b stored w))) j =
     (if j = tn_id (cb_turn b) then Some (cb_turn b) else dget (ts_turns (dw_turns w)) j)"
  "get_run (dw_runs (canonical_committed b stored w)) i =
     (if i = rn_id (cb_run b) then Some stored else get_run (dw_runs w) i)"
  by (simp_all add: canonical_committed_def get_run_def add_result_def Let_def)

lemma run_attached_ok:
  assumes ok: "drs_ok w" and n: "started_new now r w t run stored turn"
  shows "drs_ok (run_attached run stored turn w)"
proof -
  have u: "turn_update_if_version turn (tn_version t) (dw_turns w) =
      Inr (Some turn, (dw_turns w)\<lparr>ts_turns := dput (tn_id turn) turn (ts_turns (dw_turns w))\<rparr>)"
    using n by (intro turn_update_next) (simp_all add: started_new_def)
  have "turn_store_ok ((dw_turns w)\<lparr>ts_turns := dput (tn_id turn) turn (ts_turns (dw_turns w))\<rparr>)"
    by (rule turn_update_ok[OF drs_okD(2)[OF ok] u])
  moreover have "runs_ok ((dw_runs w)\<lparr>rr_runs := dput (rn_id run) stored (rr_runs (dw_runs w))\<rparr>)"
    using n by (intro runs_ok_put[OF drs_okD(1)[OF ok]]) (auto simp: started_new_def)
  ultimately show ?thesis
    using drs_okD[OF ok] by (auto simp: drs_ok_def run_attached_def)
qed

lemma canonical_committed_ok:
  assumes ok: "drs_ok w" and t: "dget (ts_turns (dw_turns w)) (tn_id t) = Some t"
    and b: "canonical_bundle_of fresh now r x t text e = Inr b"
    and v: "validate_run (cb_run b) = Inr stored" and f: "fresh_outbox fresh w"
  shows "drs_ok (canonical_committed b stored w)"
proof -
  note bb = canonical_bundle_of_Inr[OF b]
  have u: "turn_update_if_version (cb_turn b) (tn_version t) (dw_turns w) =
      Inr (Some (cb_turn b), (dw_turns w)\<lparr>ts_turns := dput (tn_id (cb_turn b)) (cb_turn b)
                                   (ts_turns (dw_turns w))\<rparr>)"
    using bb(3) ends_turn_sel[OF bb(8)] by (intro turn_update_next[OF t]) simp_all
  have "turn_store_ok ((dw_turns w)\<lparr>ts_turns := dput (tn_id (cb_turn b)) (cb_turn b)
                                   (ts_turns (dw_turns w))\<rparr>)"
    by (rule turn_update_ok[OF drs_okD(2)[OF ok] u])
  moreover have "runs_ok ((dw_runs w)\<lparr>rr_runs := dput (rn_id (cb_run b)) stored (rr_runs (dw_runs w))\<rparr>)"
    by (rule runs_ok_put[OF drs_okD(1)[OF ok] v])
  moreover obtain y o' where o: "outbox_add (cb_outbox b) (dw_outbox w) = Inr (y, o')"
    using outbox_add_total[OF drs_okD(3)[OF ok]] by blast
  moreover have "outbox_ok o'"
    by (rule outbox_added_ok[OF drs_okD(3)[OF ok] o])
      (use bb f in \<open>simp_all add: fresh_outbox_def\<close>)
  ultimately show ?thesis
    using drs_okD[OF ok] by (auto simp: drs_ok_def canonical_committed_def)
qed

lemma turn_created_ok:
  assumes ok: "canonical_ok w" and e: "tn_refs t = empty_refs"
    and c: "turn_create t (dw_turns w) = Inr (x, s)"
  shows "canonical_ok (w\<lparr>dw_turns := s\<rparr>)"
proof (cases x)
  case (Pair y new)
  have d: "drs_ok (w\<lparr>dw_turns := s\<rparr>)"
    using drs_okD[OF canonical_okD(1)[OF ok]] turn_create_ok[of "dw_turns w" t y new s] c Pair
    by (auto simp: drs_ok_def)
  have "dget (ts_turns s) j = Some z \<Longrightarrow> dget (ts_turns (dw_turns w)) j = Some z \<or> tn_refs z = empty_refs"
    "dget (ts_turns (dw_turns w)) j = Some z \<Longrightarrow> dget (ts_turns s) j = Some z" for j z
    using c e Pair by (cases new; auto elim!: turn_create_fresh turn_create_existing split: if_splits)+
  note turns = this
  show ?thesis
  proof (rule canonical_okI[OF d])
    show "get_run (dw_runs (w\<lparr>dw_turns := s\<rparr>)) i \<noteq> None"
      if "dget (ts_turns (dw_turns (w\<lparr>dw_turns := s\<rparr>))) j = Some z" "i \<in> set (tr_runs (tn_refs z))" for j z i
      using turns(1)[of j z] that canonical_okD(2)[OF ok, of j z i] by (auto simp: empty_refs_def)
    show "i \<in> rs_id ` set (re_results (dw_results (w\<lparr>dw_turns := s\<rparr>)))"
      if "dget (ts_turns (dw_turns (w\<lparr>dw_turns := s\<rparr>))) j = Some z" "i \<in> set (tr_results (tn_refs z))" for j z i
      using turns(1)[of j z] that canonical_okD(3)[OF ok, of j z i] by (auto simp: empty_refs_def)
    show "\<exists>z. dget (ts_turns (dw_turns (w\<lparr>dw_turns := s\<rparr>))) j = Some z \<and> i \<in> set (tr_runs (tn_refs z))"
      if "get_run (dw_runs (w\<lparr>dw_turns := s\<rparr>)) i = Some r" "rn_turn r = Some j" for i j r
      using canonical_okD(4)[OF ok, of i r j] that turns(2)[of j] by auto
  qed
qed

lemma run_attached_links:
  assumes ok: "canonical_ok w" and n: "started_new now r w t run stored turn"
    and f: "get_run (dw_runs w) (rn_id r) = None"
  shows "canonical_ok (run_attached run stored turn w)"
proof (rule canonical_okI[OF run_attached_ok[OF canonical_okD(1)[OF ok] n]])
  have t: "tn_id turn = tn_id t" "tr_runs (tn_refs turn) = [rn_id r]" "rn_id run = rn_id r"
    "tr_results (tn_refs turn) = tr_results (tn_refs t)" "rn_turn stored = Some (tn_id t)"
    "dget (ts_turns (dw_turns w)) (tn_id t) = Some t" "tr_runs (tn_refs t) = []"
    using n validate_run_same(5)[of run stored] by (auto simp: started_new_def)
  show "get_run (dw_runs (run_attached run stored turn w)) i \<noteq> None"
    if "dget (ts_turns (dw_turns (run_attached run stored turn w))) j = Some z"
      "i \<in> set (tr_runs (tn_refs z))" for j z i
    using that t canonical_okD(2)[OF ok, of j z i] by (auto simp: run_attached_sel split: if_splits)
  show "i \<in> rs_id ` set (re_results (dw_results (run_attached run stored turn w)))"
    if "dget (ts_turns (dw_turns (run_attached run stored turn w))) j = Some z"
      "i \<in> set (tr_results (tn_refs z))" for j z i
    using that t canonical_okD(3)[OF ok, of j _ i] by (auto simp: run_attached_sel split: if_splits)
  show "\<exists>z. dget (ts_turns (dw_turns (run_attached run stored turn w))) j = Some z \<and>
      i \<in> set (tr_runs (tn_refs z))"
    if "get_run (dw_runs (run_attached run stored turn w)) i = Some x" "rn_turn x = Some j" for i j x
    using that t canonical_okD(4)[OF ok, of i x j] by (auto simp: run_attached_sel split: if_splits)
qed

lemma canonical_committed_links:
  assumes ok: "canonical_ok w" and t: "dget (ts_turns (dw_turns w)) (tn_id t) = Some t"
    and b: "canonical_bundle_of fresh now r x t text e = Inr b"
    and v: "validate_run (cb_run b) = Inr stored" and f: "fresh_outbox fresh w"
    and old: "get_run (dw_runs w) (rn_id r) = Some old"
  shows "canonical_ok (canonical_committed b stored w)"
proof (rule canonical_okI[OF canonical_committed_ok[OF canonical_okD(1)[OF ok] t b v f]])
  note bb = canonical_bundle_of_Inr[OF b]
  note u = ends_turn_sel[OF bb(8)]
  have r: "rn_id (cb_run b) = rn_id r" "rn_turn stored = Some (tn_id t)" "rs_id (cb_result b) = rs_id x"
    using bb(1,6,7) validate_run_same(5)[OF v] by simp_all
  show "get_run (dw_runs (canonical_committed b stored w)) i \<noteq> None"
    if "dget (ts_turns (dw_turns (canonical_committed b stored w))) j = Some z"
      "i \<in> set (tr_runs (tn_refs z))" for j z i
    using that u r t old canonical_okD(2)[OF ok, of j _ i]
    by (auto simp: canonical_committed_sel split: if_splits)
  show "i \<in> rs_id ` set (re_results (dw_results (canonical_committed b stored w)))"
    if "dget (ts_turns (dw_turns (canonical_committed b stored w))) j = Some z"
      "i \<in> set (tr_results (tn_refs z))" for j z i
    using that u r t canonical_okD(3)[OF ok, of j _ i]
    by (auto simp: canonical_committed_sel split: if_splits)
  show "\<exists>z. dget (ts_turns (dw_turns (canonical_committed b stored w))) j = Some z \<and>
      i \<in> set (tr_runs (tn_refs z))"
    if "get_run (dw_runs (canonical_committed b stored w)) i = Some y" "rn_turn y = Some j" for i j y
    using that u r t canonical_okD(4)[OF ok, of i y j]
    by (auto simp: canonical_committed_sel split: if_splits)
qed

lemma canonical_step_ok:
  assumes "canonical_step w w'" "canonical_ok w"
  shows "canonical_ok w'"
  using assms
proof (cases rule: canonical_step.cases)
  case (open_turn t x s)
  with assms(2) show ?thesis by (simp add: turn_created_ok)
next
  case (start r now res)
  from canonical_start_cases[OF canonical_okD(1)[OF assms(2)] start(2)]
  show ?thesis using assms(2) run_attached_links[OF assms(2) _ start(1)] by metis
next
  case (complete fresh r now x body e res)
  from canonical_complete_cases[OF canonical_okD(1)[OF assms(2)] complete(3)]
  show ?thesis using assms(2) canonical_committed_links[OF assms(2) _ _ _ complete(1)] by metis
qed


lemma canonical_steps_ok: "canonical_steps w w' \<Longrightarrow> canonical_ok w \<Longrightarrow> canonical_ok w'"
  by (induction rule: rtranclp_induct) (auto intro: canonical_step_ok)

text \<open>A turn keeps the only run it was given.\<close>

definition sole_run :: "ident \<Rightarrow> ident \<Rightarrow> ident \<times> ident \<times> ident \<times> ident \<Rightarrow> drs \<Rightarrow> bool" where
  "sole_run j i key w \<longleftrightarrow>
     (\<exists>t. dget (ts_turns (dw_turns w)) j = Some t \<and> tr_runs (tn_refs t) = [i] \<and>
          (tn_tenant t, tn_user t, tn_session t, tn_request t) = key)"

lemma canonical_step_sole:
  assumes s: "canonical_step w w'" and ok: "canonical_ok w" and j: "sole_run j i key w"
  shows "sole_run j i key w'"
proof -
  obtain t where t: "dget (ts_turns (dw_turns w)) j = Some t" "tr_runs (tn_refs t) = [i]"
    "(tn_tenant t, tn_user t, tn_session t, tn_request t) = key"
    using j by (auto simp: sole_run_def)
  show ?thesis
    using s
  proof (cases rule: canonical_step.cases)
    case (open_turn u x q)
    obtain y new where "x = (y, new)" by (cases x)
    then have "dget (ts_turns q) j = Some t"
      using open_turn(3) t by (cases new; auto elim!: turn_create_fresh turn_create_existing)
    with open_turn(1) t show ?thesis by (auto simp: sole_run_def)
  next
    case (start r now res)
    show ?thesis
      using canonical_okD(1)[OF ok] start(2)
    proof (cases rule: canonical_start_cases)
      case unchanged
      with j show ?thesis by simp
    next
      case (new u run stored turn)
      then have "tn_id u \<noteq> j" "tn_id turn = tn_id u" using t by (auto simp: started_new_def)
      with new(3) t show ?thesis by (auto simp: sole_run_def run_attached_sel)
    qed
  next
    case (complete fresh r now x body e res)
    show ?thesis
      using canonical_okD(1)[OF ok] complete(3)
    proof (cases rule: canonical_complete_cases)
      case unchanged
      with j show ?thesis by simp
    next
      case (new u b stored old)
      note bb = canonical_bundle_of_Inr[OF new(4)]
      note z = ends_turn_sel[OF bb(8)]
      have "rn_turn old = Some (tn_id u)" using complete(2)[OF new(5)] bb(1) by simp
      then have "tn_id u = j \<Longrightarrow> rn_id r = i"
        using canonical_okD(4)[OF ok new(5)] t by auto
      with new(1,9) z t show ?thesis
        by (cases "tn_id u = j") (auto simp: sole_run_def canonical_committed_sel add_ref_def)
    qed
  qed
qed

lemma canonical_steps_sole:
  "canonical_steps w w' \<Longrightarrow> canonical_ok w \<Longrightarrow> sole_run j i key w \<Longrightarrow> sole_run j i key w'"
  by (induction rule: rtranclp_induct) (auto intro: canonical_step_sole canonical_steps_ok)

lemma start_replay_exists:
  assumes ok: "canonical_ok w" and t: "dget (ts_turns (dw_turns w)) j = Some t"
    and r: "tr_runs (tn_refs t) = [i]"
  shows "\<exists>x y. start_replay w t = Inr (Some (x, t, y)) \<and> get_run (dw_runs w) i = Some x"
proof -
  obtain x where x: "get_run (dw_runs w) i = Some x" using canonical_okD(2)[OF ok t] r by auto
  have "find (\<lambda>z. rs_id z = last (tr_results (tn_refs t))) (re_results (dw_results w)) \<noteq> None"
    if "tr_results (tn_refs t) \<noteq> []"
    using canonical_okD(3)[OF ok t last_in_set[OF that]] by (auto simp: find_eq_None)
  with x r show ?thesis
    by (cases "tr_results (tn_refs t) = []") (auto simp: start_replay_def)
qed

lemma outbox_added_at:
  assumes "outbox_add e s = Inr (y, s')"
  shows "\<exists>i. dget (ox_keys s') (ob_key e) = Some i \<and> dget (ox_events s') i = Some (fst y)"
  using assms by (auto simp: outbox_add_def str_set_iff split: if_splits option.splits)

subsection \<open>Properties\<close>

text \<open>
  C28: a request is invoked once. After a start has attached a new run to the turn of its request,
  and after any further history of opened turns, starts and completions, every start for the same
  request of the same user in the same session changes nothing and answers with that run, so no second run of the
  request is ever created and the agent is not called again.
\<close>

theorem canonical_invoked_once:
  assumes ok: "canonical_ok w" and fresh: "get_run (dw_runs w) (rn_id r) = None"
    and first: "canonical_start now r w = (Inr (run, turn, None), w1)" "rn_id run = rn_id r"
    and steps: "canonical_steps w1 w2"
    and again: "canonical_start now2 r2 w2 = (res, w3)"
    and same: "rn_tenant r2 = rn_tenant r" "rn_user r2 = rn_user r" "rn_session r2 = rn_session r"
      "rn_request r2 = rn_request r" "rn_agent r2 \<noteq> []"
  shows "w3 = w2 \<and> (\<exists>run2 turn2 x. res = Inr (run2, turn2, x) \<and> rn_id run2 = rn_id r \<and>
      get_run (dw_runs w2) (rn_id r) = Some run2 \<and> tn_id turn2 = tn_id turn)"
proof -
  obtain t stored where n: "started_new now r w t run stored turn"
    and w1: "w1 = run_attached run stored turn w"
    using canonical_okD(1)[OF ok] first(1)
  proof (cases rule: canonical_start_cases)
    case unchanged
    then obtain t where "start_replay w t = Inr (Some (run, turn, None))" by blast
    then have "get_run (dw_runs w) (last (tr_runs (tn_refs t))) = Some run"
      by (auto simp: start_replay_def split: if_splits option.splits)
    then have "get_run (dw_runs w) (rn_id run) = Some run"
      using runs_okD(2)[OF drs_okD(1)[OF canonical_okD(1)[OF ok]]] by (auto simp: get_run_def)
    with fresh first(2) show ?thesis by simp
  qed auto
  let ?key = "(tn_tenant t, tn_user t, tn_session t, tn_request t)"
  have ok1: "canonical_ok w1" using run_attached_links[OF ok n fresh] w1 by simp
  have "sole_run (tn_id t) (rn_id r) ?key w1"
    using n by (auto simp: w1 sole_run_def run_attached_sel started_new_def)
  then obtain u where u: "dget (ts_turns (dw_turns w2)) (tn_id t) = Some u"
    "tr_runs (tn_refs u) = [rn_id r]" "(tn_tenant u, tn_user u, tn_session u, tn_request u) = ?key"
    using canonical_steps_sole[OF steps ok1, of "tn_id t" "rn_id r" ?key]
    by (auto simp: sole_run_def)
  have ok2: "canonical_ok w2" by (rule canonical_steps_ok[OF steps ok1])
  obtain x y where x: "start_replay w2 u = Inr (Some (x, u, y))" "get_run (dw_runs w2) (rn_id r) = Some x"
    using start_replay_exists[OF ok2 u(1,2)] by blast
  have own: "rn_tenant r = Some (tn_tenant u)" "rn_user r = Some (tn_user u)"
      "rn_session r = tn_session u" "rn_request r = Some (tn_request u)"
    using n u(3) by (auto simp: started_new_def)
  have "turn_get_by_request (dw_turns w2) (tn_tenant u) (tn_user u) (tn_request u) = Some u"
    using u(1) turn_by_request_iff[OF drs_okD(2)[OF canonical_okD(1)[OF ok2]]]
    by (auto simp: owner_request_key_def)
  moreover have "run_owner_set r2"
    using first(1) own same by (auto simp: canonical_start_def run_owner_set_def split: if_splits)
  ultimately have "canonical_start now2 r2 w2 = (Inr (x, u, y), w2)"
    using own same x by (simp add: canonical_start_def canonical_turn_def or_empty_def)
  moreover have "tn_id u = tn_id t" "tn_id turn = tn_id t"
    using u(1) turn_store_okD(2)[OF drs_okD(2)[OF canonical_okD(1)[OF ok2]]] n
    by (auto simp: started_new_def)
  moreover have "rn_id x = rn_id r"
    using x(2) runs_okD(2)[OF drs_okD(1)[OF canonical_okD(1)[OF ok2]]] by (simp add: get_run_def)
  ultimately show ?thesis using again x(2) by auto
qed


text \<open>
  C27: completing an invocation is all or nothing. The call either leaves every repository as it
  was, raising or answering with the stored result of a turn that already ended, or it ends the
  turn: the stored run has the status of the result and the next version, the result is the last
  one stored, the turn refers to both, is completed exactly if the result is and carries the
  response, and an outbox event for the end of the turn is there. No other run, turn, plan or event
  changes.
\<close>

theorem canonical_complete_correct:
  assumes ok: "drs_ok w" and c: "canonical_complete fresh now r x text e w = (res, w')"
  shows "w' = w \<and> (\<forall>y. res = Inr y \<longrightarrow> (\<exists>t r' x'. y = (r', x', t) \<and>
        dget (ts_turns (dw_turns w)) (or_empty (rn_turn r)) = Some t \<and>
        turn_is_terminal (tn_status t) \<and> rs_id x' = last (tr_results (tn_refs t)) \<and>
        x' \<in> set (re_results (dw_results w)))) \<or>
    (\<exists>t r' x' t' stored j ev. res = Inr (r', x', t') \<and>
        dget (ts_turns (dw_turns w)) (tn_id t) = Some t \<and> \<not> turn_is_terminal (tn_status t) \<and>
        rn_turn r = Some (tn_id t) \<and> rs_run x = rn_id r \<and> ends_turn now r x text t t' \<and>
        r' = r\<lparr>rn_status := rs_status x, rn_version := rn_version r + 1, rn_updated := Some now\<rparr> \<and>
        validate_run r' = Inr stored \<and>
        x' = x\<lparr>rs_turn := Some (tn_id t), rs_run_version := Some (rn_version r + 1)\<rparr> \<and>
        (\<forall>i. get_run (dw_runs w') i = (if i = rn_id r then Some stored else get_run (dw_runs w) i)) \<and>
        re_results (dw_results w') = re_results (dw_results w) @ [x'] \<and>
        (\<forall>i. dget (ts_turns (dw_turns w')) i =
             (if i = tn_id t then Some t' else dget (ts_turns (dw_turns w)) i)) \<and>
        dget (ox_keys (dw_outbox w')) (turn_event_name (tn_status t') @ '':'' @ tn_id t) = Some j \<and>
        dget (ox_events (dw_outbox w')) j = Some ev \<and>
        dw_plans w' = dw_plans w \<and> dw_events w' = dw_events w \<and> dw_keys w' = dw_keys w)"
  using ok c
proof (cases rule: canonical_complete_cases)
  case unchanged
  have "\<exists>t r' x'. y = (r', x', t) \<and> dget (ts_turns (dw_turns w)) (or_empty (rn_turn r)) = Some t \<and>
        turn_is_terminal (tn_status t) \<and> rs_id x' = last (tr_results (tn_refs t)) \<and>
        x' \<in> set (re_results (dw_results w))" if "res = Inr y" for y
  proof -
    from unchanged(2)[OF that] obtain t where t: "dget (ts_turns (dw_turns w)) (tn_id t) = Some t"
      "or_empty (rn_turn r) = tn_id t" "turn_is_terminal (tn_status t)"
      "terminal_replay w t = Inr (Some y)" by blast
    then obtain r' x' where y: "start_replay w t = Inr (Some (r', t, Some x'))" "y = (r', x', t)"
      by (auto simp: terminal_replay_def start_replay_def ebind_eq_Inr
          split: option.splits if_splits)
    then have "rs_id x' = last (tr_results (tn_refs t)) \<and> x' \<in> set (re_results (dw_results w))"
      by (auto simp: start_replay_def dest!: find_Some_D split: option.splits if_splits)
    with t y show ?thesis by auto
  qed
  with unchanged(1) show ?thesis by blast
next
  case (new t b stored old)
  note bb = canonical_bundle_of_Inr[OF new(4)]
  note u = ends_turn_sel[OF bb(8)]
  obtain y s where add: "outbox_add (cb_outbox b) (dw_outbox w) = Inr (y, s)"
    using outbox_add_total[OF drs_okD(3)[OF ok]] by blast
  obtain j where "dget (ox_keys s) (ob_key (cb_outbox b)) = Some j" "dget (ox_events s) j = Some (fst y)"
    using outbox_added_at[OF add] by blast
  moreover have "dw_outbox w' = s" using new(9) add by (simp add: canonical_committed_def)
  ultimately show ?thesis
    using new bb u
    by (intro disjI2 exI[of _ t] exI[of _ "cb_run b"] exI[of _ "cb_result b"]
        exI[of _ "cb_turn b"] exI[of _ stored] exI[of _ j] exI[of _ "fst y"])
      (simp add: canonical_committed_sel, simp add: canonical_committed_def)
qed


subsection \<open>A concrete history\<close>

definition demo_base :: drs where
  "demo_base = \<lparr>dw_runs = \<lparr>rr_runs = [], rr_published = []\<rparr>,
     dw_results = \<lparr>re_results = [], re_published = {}, re_captured = {}\<rparr>, dw_events = [],
     dw_turns = empty_turn_store, dw_outbox = empty_outbox, dw_plans = None, dw_keys = []\<rparr>"

definition demo_open_turn :: turn where
  "demo_open_turn = \<lparr>tn_id = ''t1'', tn_tenant = ''a'', tn_user = ''u'', tn_session = ''s'',
     tn_request = ''r1'', tn_source = ''user'', tn_status = TurnPending, tn_version = 1,
     tn_input = \<lparr>ui_text = ''hi'', ui_metadata = JObj []\<rparr>, tn_refs = empty_refs,
     tn_response = None, tn_created = 0, tn_updated = 0, tn_completed = None\<rparr>"

definition demo_opened :: drs where
  "demo_opened = demo_base\<lparr>dw_turns := snd (case turn_create demo_open_turn empty_turn_store of
     Inr x \<Rightarrow> x | Inl e \<Rightarrow> ((demo_open_turn, False), empty_turn_store))\<rparr>"

definition demo_new_run :: agent_run where
  "demo_new_run = \<lparr>rn_id = ''run1'', rn_request = Some ''r1'', rn_session = ''s'', rn_agent = ''ag'',
     rn_user = Some ''u'', rn_tenant = Some ''a'', rn_turn = None, rn_plan = None, rn_step = None,
     rn_status = RunRunning, rn_invoker = ''http'', rn_delegated = False, rn_delegation_key = None,
     rn_version = 1, rn_sequence = 0, rn_deadline = None, rn_heartbeat = None,
     rn_terminal_event = None, rn_input = JObj [], rn_output = None, rn_error = None,
     rn_latency = None, rn_suppressed = False, rn_used_memory = [], rn_created = Some 1,
     rn_updated = Some 1\<rparr>"

definition demo_new_result :: agent_result where
  "demo_new_result = \<lparr>rs_id = ''res1'', rs_run = ''run1'', rs_session = ''s'', rs_agent = ''ag'',
     rs_user = Some ''u'', rs_tenant = Some ''a'', rs_turn = None, rs_plan = None, rs_step = None,
     rs_status = RunCompleted, rs_run_version = None, rs_message = ''done'', rs_suppressed = False,
     rs_skip_audit = False, rs_output = Some (JObj [(''n'', JNum 1)]), rs_artifacts = [],
     rs_error = None, rs_created = Some 2\<rparr>"

definition demo_eligibility :: eligibility where
  "demo_eligibility = \<lparr>el_mode = ''observe'', el_execution = ''live'', el_suppressed = False,
     el_reason = None, el_policy = ''v1''\<rparr>"

lemma demo_base_ok: "canonical_ok demo_base"
  by (simp add: canonical_ok_def drs_ok_def demo_base_def runs_ok_def events_ok_def
      empty_turn_store_ok outbox_ok_def empty_outbox_def)
    (simp add: empty_turn_store_def)

lemma demo_opened_ok: "canonical_ok demo_opened"
proof -
  have "canonical_step demo_base (demo_base\<lparr>dw_turns := dw_turns demo_opened\<rparr>)"
    by (rule canonical_step.open_turn[of demo_open_turn _ "(demo_open_turn, True)"]) code_simp+
  then show ?thesis using canonical_step_ok demo_base_ok by (simp add: demo_opened_def)
qed

definition demo_started :: drs where
  "demo_started = snd (canonical_start 5 demo_new_run demo_opened)"

definition demo_attached :: agent_run where
  "demo_attached = demo_new_run\<lparr>rn_turn := Some ''t1'', rn_updated := Some 5\<rparr>"

definition demo_running :: turn where
  "demo_running = demo_open_turn\<lparr>tn_status := TurnRunning, tn_version := 2,
     tn_refs := empty_refs\<lparr>tr_runs := [''run1'']\<rparr>, tn_updated := 5\<rparr>"

lemma demo_start:
  "canonical_start 5 demo_new_run demo_opened = (Inr (demo_attached, demo_running, None), demo_started)"
proof -
  have "fst (canonical_start 5 demo_new_run demo_opened) = Inr (demo_attached, demo_running, None)"
    by code_simp
  then show ?thesis by (simp add: demo_started_def prod_eq_iff)
qed

lemma demo_started_ok: "canonical_ok demo_started"
  by (rule canonical_step_ok[OF _ demo_opened_ok], rule canonical_step.start[OF _ demo_start])
    code_simp

definition demo_ended :: "drs" where
  "demo_ended =
     snd (canonical_complete ''o1'' 9 demo_attached demo_new_result ''done'' demo_eligibility demo_started)"

text \<open>The turn is completed with the result, and a later start of the request is answered with both.\<close>

lemma canonical_complete_correct_witness:
  "map tn_status (dvalues (ts_turns (dw_turns demo_ended))) = [TurnCompleted] \<and>
   map ob_type (dvalues (ox_events (dw_outbox demo_ended))) = [''turn.completed''] \<and>
   map rs_turn (re_results (dw_results demo_ended)) = [Some ''t1''] \<and> dw_plans demo_ended = None"
proof -
  define res where "res = fst (canonical_complete ''o1'' 9 demo_attached demo_new_result ''done''
      demo_eligibility demo_started)"
  have c: "canonical_complete ''o1'' 9 demo_attached demo_new_result ''done'' demo_eligibility
      demo_started = (res, demo_ended)"
    by (simp add: res_def demo_ended_def)
  have n: "map tn_status (dvalues (ts_turns (dw_turns demo_started))) = [TurnRunning]" by code_simp
  have e: "map tn_status (dvalues (ts_turns (dw_turns demo_ended))) = [TurnCompleted]" by code_simp
  then have "demo_ended \<noteq> demo_started" using n by auto
  with canonical_complete_correct[OF canonical_okD(1)[OF demo_started_ok] c]
  obtain x' where "re_results (dw_results demo_ended) = re_results (dw_results demo_started) @ [x']"
    "x' = demo_new_result\<lparr>rs_turn := Some ''t1'', rs_run_version := Some 2\<rparr>"
    "dw_plans demo_ended = dw_plans demo_started"
    by (auto simp: demo_attached_def demo_new_run_def)
  moreover have "map ob_type (dvalues (ox_events (dw_outbox demo_ended))) = [''turn.completed'']"
    "re_results (dw_results demo_started) = []" "dw_plans demo_started = None"
    by code_simp+
  ultimately show ?thesis using e by simp
qed

lemma canonical_invoked_once_witness:
  "fst (canonical_start 20 (demo_new_run\<lparr>rn_id := ''run2''\<rparr>) demo_ended) \<noteq> Inl Type_Error \<and>
   snd (canonical_start 20 (demo_new_run\<lparr>rn_id := ''run2''\<rparr>) demo_ended) = demo_ended"
proof -
  have step: "canonical_steps demo_started demo_ended"
  proof (rule r_into_rtranclp, rule canonical_step.complete)
    show "fresh_outbox ''o1'' demo_started" by code_simp
    show "canonical_complete ''o1'' 9 demo_attached demo_new_result ''done'' demo_eligibility
        demo_started = (fst (canonical_complete ''o1'' 9 demo_attached demo_new_result ''done''
          demo_eligibility demo_started), demo_ended)"
      by (simp add: demo_ended_def)
    have "get_run (dw_runs demo_started) (rn_id demo_attached) = Some demo_attached" by code_simp
    then show "rn_turn old = rn_turn demo_attached"
      if "get_run (dw_runs demo_started) (rn_id demo_attached) = Some old" for old
      using that by simp
  qed
  have f: "get_run (dw_runs demo_opened) (rn_id demo_new_run) = None"
    "rn_id demo_attached = rn_id demo_new_run" by code_simp+
  let ?start = "canonical_start 20 (demo_new_run\<lparr>rn_id := ''run2''\<rparr>) demo_ended"
  have "?start = (fst ?start, snd ?start)" by simp
  from canonical_invoked_once[OF demo_opened_ok f(1) demo_start f(2) step this]
  show ?thesis by (auto simp: demo_new_run_def)
qed

end
