(* ===== verification/Plan_Service.thy ===== *)
theory Plan_Service
  imports Plan_Properties
begin

text \<open>
  The plan service (\<open>app/services/plan_service.py\<close>) over the plan repository. A call of the
  repository is one atomic transition; between two of them other tasks may run, which the parameter
  \<open>others\<close> stands for: \<open>others n\<close> is what they do to the repository before the \<open>n\<close>-th access
  after the first one. The sink for memory formation is the optional parameter of the
  configuration; it answers whether it accepted a publication, an exception being swallowed as the
  code does.
\<close>

subsection \<open>Configuration and state\<close>

record publication =
  pb_plan :: plan
  pb_type :: string
  pb_event :: "ident option"
  pb_version :: string
  pb_order :: nat
  pb_at :: time

record plan_config =
  pc_automatic :: bool
  pc_sink :: "(publication \<Rightarrow> bool) option"
  pc_runs :: "run_store option"

record plan_world =
  pw_store :: plan_store
  pw_log :: "publication list"

record plan_response =
  pr_plan :: ident
  pr_status :: plan_status
  pr_current :: "ident option"
  pr_action :: "next_action option"
  pr_version :: nat
  pr_accepted :: bool
  pr_transitioned :: bool
  pr_reason :: "string option"

type_synonym interference = "nat \<Rightarrow> plan_store \<Rightarrow> plan_store"

definition interfere :: "interference \<Rightarrow> nat \<Rightarrow> plan_world \<Rightarrow> plan_world" where
  "interfere others n w = w\<lparr>pw_store := others n (pw_store w)\<rparr>"

definition suppressed :: "plan_config \<Rightarrow> bool \<Rightarrow> bool" where
  "suppressed cfg publish \<longleftrightarrow> \<not> publish \<or> \<not> pc_automatic cfg"

subsection \<open>Publishing a state of a plan\<close>

definition source_version :: "ident option \<Rightarrow> nat \<Rightarrow> string" where
  "source_version event v = (if str_set event then the event else ''plan-state-'' @ nat_str v)"

definition publish_plan ::
    "plan_config \<Rightarrow> plan \<Rightarrow> string \<Rightarrow> ident option \<Rightarrow> plan_world \<Rightarrow> plan_world" where
  "publish_plan cfg p typ event w =
     (case pc_sink cfg of
        None \<Rightarrow> w
      | Some accepts \<Rightarrow>
          let b = \<lparr>pb_plan = p, pb_type = typ, pb_event = event,
                   pb_version = source_version event (pl_version p), pb_order = pl_version p,
                   pb_at = pl_updated p\<rparr>
          in if accepts b
             then w\<lparr>pw_log := pw_log w @ [b],
                    pw_store := mark_plan_published (pl_id p) (pl_version p) (pw_store w)\<rparr>
             else w)"

definition publish_if ::
    "bool \<Rightarrow> plan_config \<Rightarrow> plan \<Rightarrow> string \<Rightarrow> ident option \<Rightarrow> plan_world \<Rightarrow> plan_world" where
  "publish_if publish cfg p typ event w = (if publish then publish_plan cfg p typ event w else w)"

subsection \<open>Saving\<close>

definition next_version ::
    "plan option \<Rightarrow> plan \<Rightarrow> string \<Rightarrow> ident option \<Rightarrow> time option \<Rightarrow> time \<Rightarrow> plan" where
  "next_version existing p typ event at now =
     p\<lparr>pl_last_event := (if event \<noteq> None then event
                          else case existing of None \<Rightarrow> None | Some x \<Rightarrow> pl_last_event x),
       pl_version := (case existing of None \<Rightarrow> 1 | Some x \<Rightarrow> pl_version x + 1),
       pl_updated := (case at of None \<Rightarrow> now | Some t \<Rightarrow> t),
       pl_formation := typ\<rparr>"

definition event_name :: "string option \<Rightarrow> plan option \<Rightarrow> string" where
  "event_name typ existing =
     (if str_set typ then the typ else if existing \<noteq> None then ''update'' else ''create'')"

definition write_version ::
    "plan_config \<Rightarrow> bool \<Rightarrow> plan option \<Rightarrow> plan \<Rightarrow> plan_store \<Rightarrow> py_exn + plan \<times> plan_store" where
  "write_version cfg publish existing p s =
     (case existing of
        None \<Rightarrow> plan_save p (suppressed cfg publish) s
      | Some x \<Rightarrow>
          (case plan_save_if_version p (pl_version x) (suppressed cfg publish) s of
             (None, s') \<Rightarrow> Inl (Plan_State_Conflict ''Plan changed concurrently'')
           | (Some stored, s') \<Rightarrow> Inr (stored, s')))"

definition save_plan ::
    "plan_config \<Rightarrow> interference \<Rightarrow> plan \<Rightarrow> string option \<Rightarrow> ident option \<Rightarrow> time option \<Rightarrow> bool \<Rightarrow>
     time \<Rightarrow> plan_world \<Rightarrow> (py_exn + plan) \<times> plan_world" where
  "save_plan cfg others p typ event at publish now w =
     (let existing = plan_get (pw_store w) (pl_id p) (pl_tenant p) (pl_user p)
      in if existing \<noteq> None \<and> pl_version p \<noteq> pl_version (the existing)
         then (Inl (Plan_State_Conflict ''Plan input is stale''), w)
         else
           let name = event_name typ existing;
               w1 = interfere others 0 w
           in case write_version cfg publish existing (next_version existing p name event at now)
                     (pw_store w1) of
                Inl e \<Rightarrow> (Inl e, w1)
              | Inr (stored, s) \<Rightarrow>
                  (Inr stored, publish_if publish cfg stored name event (w1\<lparr>pw_store := s\<rparr>)))"

subsection \<open>Claims\<close>

definition claim_plan_step ::
    "(string \<Rightarrow> string) \<Rightarrow> plan_config \<Rightarrow> ident \<Rightarrow> ident \<Rightarrow> ident \<Rightarrow> ident \<Rightarrow> ident \<Rightarrow> time \<Rightarrow> bool \<Rightarrow> time \<Rightarrow>
     plan_world \<Rightarrow> (plan \<times> ident) option \<times> plan_world" where
  "claim_plan_step hash cfg claim_id i step tenant user lease publish now w =
     (case plan_claim_step hash i step tenant user claim_id (now + lease) now
             (suppressed cfg publish) (pw_store w) of
        (None, s) \<Rightarrow> (None, w\<lparr>pw_store := s\<rparr>)
      | (Some p, s) \<Rightarrow>
          (Some (p, claim_id), publish_if publish cfg p ''update'' None (w\<lparr>pw_store := s\<rparr>)))"

definition renew_plan_claim ::
    "ident \<Rightarrow> ident \<Rightarrow> ident \<Rightarrow> ident \<Rightarrow> time \<Rightarrow> time \<Rightarrow> plan_world \<Rightarrow> bool \<times> plan_world" where
  "renew_plan_claim i tenant user claim_id lease now w =
     (case plan_renew_claim i tenant user claim_id (now + lease) now (pw_store w) of
        (b, s) \<Rightarrow> (b, w\<lparr>pw_store := s\<rparr>))"

definition save_claimed ::
    "plan_config \<Rightarrow> plan \<Rightarrow> ident \<Rightarrow> ident \<Rightarrow> bool \<Rightarrow> time \<Rightarrow> plan_world \<Rightarrow>
     plan option \<times> plan_world" where
  "save_claimed cfg p step claim_id publish now w =
     (case plan_save_claimed_step (p\<lparr>pl_updated := now, pl_formation := ''update''\<rparr>) step claim_id
             (suppressed cfg publish) now (pw_store w) of
        (None, s) \<Rightarrow> (None, w\<lparr>pw_store := s\<rparr>)
      | (Some stored, s) \<Rightarrow>
          (Some stored, publish_if publish cfg stored ''update'' None (w\<lparr>pw_store := s\<rparr>)))"

text \<open>
  Advancing one step and what follows for the plan. The transition of a step cannot raise
  (\<open>advance_step_status_join\<close>), its result is read off with the default that is never used.
\<close>

definition advance :: "step_status \<Rightarrow> step_status \<Rightarrow> step_status" where
  "advance c p = (case advance_step_status c p of Inr r \<Rightarrow> r | Inl _ \<Rightarrow> c)"

definition advance_steps :: "ident option \<Rightarrow> step_status \<Rightarrow> plan_step list \<Rightarrow> plan_step list" where
  "advance_steps i st ss =
     map (\<lambda>s. if Some (st_id s) = i then s\<lparr>st_status := advance (st_status s) st\<rparr> else s) ss"

definition finished_plan :: "plan \<Rightarrow> ident \<Rightarrow> step_status \<Rightarrow> plan" where
  "finished_plan p step st =
     (let ss = advance_steps (Some step) st (pl_steps p); current = next_step_id ss
      in p\<lparr>pl_steps := ss, pl_current := current, pl_status := plan_status_of ss current,
           pl_next_action := None, pl_version := pl_version p + 1\<rparr>)"

definition settled :: "plan option \<Rightarrow> bool" where
  "settled p \<longleftrightarrow> (case p of None \<Rightarrow> True
     | Some x \<Rightarrow> pl_status x \<in> {Completed, Failed, Cancelled, Blocked})"

text \<open>The \<open>for _ in range(3)\<close> loop; other tasks run before every access but the first.\<close>

fun finish_attempts ::
    "plan_config \<Rightarrow> interference \<Rightarrow> nat \<Rightarrow> nat \<Rightarrow> ident \<Rightarrow> ident \<Rightarrow> ident \<Rightarrow> ident \<Rightarrow> ident \<Rightarrow> step_status \<Rightarrow>
     bool \<Rightarrow> time \<Rightarrow> plan_world \<Rightarrow> (py_exn + plan option) \<times> plan_world" where
  "finish_attempts cfg others n 0 i step tenant user claim_id st publish now w =
     (let canonical = plan_get (pw_store w) i tenant user
      in if settled canonical then (Inr canonical, w)
         else (Inl (Plan_State_Conflict ''Plan claim completion conflicted repeatedly''), w))"
| "finish_attempts cfg others n (Suc k) i step tenant user claim_id st publish now w =
     (let p = plan_get (pw_store w) i tenant user
      in if settled p then (Inr p, w)
         else if step \<notin> set (step_ids (pl_steps (the p))) then (Inr None, w)
         else case save_claimed cfg (finished_plan (the p) step st) step claim_id publish now
                     (interfere others n w) of
                (Some stored, w') \<Rightarrow> (Inr (Some stored), w')
              | (None, w') \<Rightarrow>
                  finish_attempts cfg others (n + 2) k i step tenant user claim_id st publish now
                    (interfere others (n + 1) w'))"

definition finish_claimed_step ::
    "plan_config \<Rightarrow> interference \<Rightarrow> ident \<Rightarrow> ident \<Rightarrow> ident \<Rightarrow> ident \<Rightarrow> ident \<Rightarrow> step_status \<Rightarrow> bool \<Rightarrow>
     time \<Rightarrow> plan_world \<Rightarrow> (py_exn + plan option) \<times> plan_world" where
  "finish_claimed_step cfg others i step tenant user claim_id st publish now w =
     finish_attempts cfg others 0 3 i step tenant user claim_id st publish now w"

subsection \<open>Confirmation and cancellation\<close>

definition response_of :: "ident \<Rightarrow> plan \<Rightarrow> bool \<Rightarrow> plan_response" where
  "response_of i p transitioned =
     \<lparr>pr_plan = i, pr_status = pl_status p, pr_current = pl_current p, pr_action = pl_next_action p,
      pr_version = pl_version p, pr_accepted = True, pr_transitioned = transitioned,
      pr_reason = None\<rparr>"

definition confirm_plan ::
    "plan_config \<Rightarrow> interference \<Rightarrow> ident \<Rightarrow> ident \<Rightarrow> ident \<Rightarrow> ident option \<Rightarrow> nat option \<Rightarrow> bool \<Rightarrow> time \<Rightarrow>
     plan_world \<Rightarrow> (py_exn + plan_response) \<times> plan_world" where
  "confirm_plan cfg others i tenant user request expected publish now w =
     (case plan_get (pw_store w) i tenant user of
        None \<Rightarrow> (Inl (Value_Error ''Plan not found''), w)
      | Some p \<Rightarrow>
          if request \<noteq> None \<and> pl_last_event p = request then (Inr (response_of i p True), w)
          else if expected \<noteq> None \<and> expected \<noteq> Some (pl_version p)
          then (Inr (response_of i p False), w)
          else if pl_status p \<noteq> Pending then (Inr (response_of i p False), w)
          else
            (case save_plan cfg (\<lambda>n. others (n + 1)) (p\<lparr>pl_status := Running\<rparr>) (Some ''confirm'')
                    request None publish now (interfere others 0 w) of
               (Inr stored, w') \<Rightarrow> (Inr (response_of i stored True), w')
             | (Inl (Plan_State_Conflict m), w') \<Rightarrow>
                 (case plan_get (pw_store (interfere others 2 w')) i tenant user of
                    None \<Rightarrow> (Inl (Plan_State_Conflict m), interfere others 2 w')
                  | Some c \<Rightarrow> (Inr (response_of i c False), interfere others 2 w'))
             | (Inl e, w') \<Rightarrow> (Inl e, w')))"

definition cancel_plan ::
    "plan_config \<Rightarrow> ident \<Rightarrow> ident \<Rightarrow> ident \<Rightarrow> bool \<Rightarrow> time \<Rightarrow> plan_world \<Rightarrow>
     (py_exn + plan_response) \<times> plan_world" where
  "cancel_plan cfg i tenant user publish now w =
     (case plan_cancel_unstarted i tenant user (pc_runs cfg) now (suppressed cfg publish)
             (pw_store w) of
        (None, s) \<Rightarrow> (Inl (Value_Error ''Plan not found''), w\<lparr>pw_store := s\<rparr>)
      | (Some (p, Already_Cancelled), s) \<Rightarrow>
          (Inr \<lparr>pr_plan = i, pr_status = Cancelled, pr_current = None, pr_action = None,
                pr_version = pl_version p, pr_accepted = True, pr_transitioned = False,
                pr_reason = None\<rparr>, w\<lparr>pw_store := s\<rparr>)
      | (Some (p, Terminal_Conflict), s) \<Rightarrow>
          (Inl (Value_Error ''Plan cannot be cancelled from status''), w\<lparr>pw_store := s\<rparr>)
      | (Some (p, Control_Unsupported), s) \<Rightarrow>
          (Inr ((response_of i p False)\<lparr>pr_accepted := False,
                  pr_reason := Some ''control_unsupported''\<rparr>), w\<lparr>pw_store := s\<rparr>)
      | (Some (p, Cancel_Done), s) \<Rightarrow>
          (Inr \<lparr>pr_plan = i, pr_status = Cancelled, pr_current = None, pr_action = None,
                pr_version = pl_version p, pr_accepted = True, pr_transitioned = True,
                pr_reason = None\<rparr>,
           publish_if publish cfg p ''cancel'' None (w\<lparr>pw_store := s\<rparr>)))"

subsection \<open>Events of agents\<close>

fun expected_status :: "agent_event_type \<Rightarrow> step_status" where
  "expected_status Agent_Started = Running"
| "expected_status Agent_Progress = Running"
| "expected_status Agent_Result_Event = Completed"
| "expected_status Agent_Error = Failed"
| "expected_status Agent_Clarify = Blocked"
| "expected_status Agent_Cancelled = Cancelled"

fun status_name :: "step_status \<Rightarrow> string" where
  "status_name Pending = ''pending''"
| "status_name Running = ''running''"
| "status_name Blocked = ''blocked''"
| "status_name Completed = ''completed''"
| "status_name Failed = ''failed''"
| "status_name Cancelled = ''cancelled''"

definition event_step_status :: "string option \<Rightarrow> agent_event_type \<Rightarrow> py_exn + step_status" where
  "event_step_status status typ =
     (if status \<noteq> None \<and> status \<noteq> Some (status_name (expected_status typ))
      then Inl (Value_Error ''Agent event status conflicts with event_type'')
      else Inr (expected_status typ))"

definition advanced_plan :: "plan \<Rightarrow> agent_event \<Rightarrow> step_status \<Rightarrow> plan" where
  "advanced_plan p e st =
     (let ss = advance_steps (ev_step e) st (pl_steps p); current = next_step_id ss
      in p\<lparr>pl_steps := ss, pl_current := current, pl_status := plan_status_of ss current,
           pl_last_event := Some (ev_id e),
           pl_next_action := (if st \<in> {Completed, Failed} then None else pl_next_action p)\<rparr>)"

definition apply_event_once ::
    "plan_config \<Rightarrow> interference \<Rightarrow> agent_event \<Rightarrow> ident \<Rightarrow> ident \<Rightarrow> bool \<Rightarrow> time \<Rightarrow> plan_world \<Rightarrow>
     (py_exn + plan option) \<times> plan_world" where
  "apply_event_once cfg others e tenant user publish now w =
     (if \<not> str_set (ev_plan e) then (Inr None, w)
      else case plan_get (pw_store w) (the (ev_plan e)) tenant user of
        None \<Rightarrow> (Inr None, w)
      | Some p \<Rightarrow>
          if pl_last_event p = Some (ev_id e)
          then (Inr (Some p), publish_if publish cfg p ''update'' (Some (ev_id e)) w)
          else if pl_status p \<in> {Completed, Cancelled, Failed} then (Inr (Some p), w)
          else
            (case event_step_status (ev_status e) (ev_type e) of
               Inl err \<Rightarrow> (Inl err, w)
             | Inr st \<Rightarrow>
                 if advance_steps (ev_step e) st (pl_steps p) = pl_steps p then (Inr (Some p), w)
                 else
                   (case save_plan cfg (\<lambda>n. others (n + 1)) (advanced_plan p e st)
                           (Some ''update'') (Some (ev_id e)) (ev_created e) publish now
                           (interfere others 0 w) of
                      (Inl err, w') \<Rightarrow> (Inl err, w')
                    | (Inr stored, w') \<Rightarrow> (Inr (Some stored), w'))))"

fun apply_attempts ::
    "plan_config \<Rightarrow> interference \<Rightarrow> nat \<Rightarrow> nat \<Rightarrow> agent_event \<Rightarrow> ident \<Rightarrow> ident \<Rightarrow> bool \<Rightarrow> time \<Rightarrow>
     plan_world \<Rightarrow> (py_exn + plan option) \<times> plan_world" where
  "apply_attempts cfg others n 0 e tenant user publish now w =
     (Inl (Plan_State_Conflict ''Plan event update conflicted repeatedly''), w)"
| "apply_attempts cfg others n (Suc k) e tenant user publish now w =
     (case apply_event_once cfg (\<lambda>m. others (n + m)) e tenant user publish now w of
        (Inl (Plan_State_Conflict _), w') \<Rightarrow>
          apply_attempts cfg others (n + 3) k e tenant user publish now (interfere others (n + 2) w')
      | r \<Rightarrow> r)"

definition apply_agent_event ::
    "plan_config \<Rightarrow> interference \<Rightarrow> agent_event \<Rightarrow> ident \<Rightarrow> ident \<Rightarrow> bool \<Rightarrow> time \<Rightarrow> plan_world \<Rightarrow>
     (py_exn + plan option) \<times> plan_world" where
  "apply_agent_event cfg others e tenant user publish now w =
     apply_attempts cfg others 0 3 e tenant user publish now w"

subsection \<open>Facts about the building blocks\<close>

abbreviation quiet :: interference where "quiet \<equiv> \<lambda>_ s. s"

lemma interfere_quiet [simp]: "interfere quiet n w = w"
  by (simp add: interfere_def)

lemma pw_store_interfere [simp]: "pw_store (interfere others n w) = others n (pw_store w)"
  by (simp add: interfere_def)

lemma publish_if_plans [simp]:
  "ps_plans (pw_store (publish_if b cfg p typ ev w)) = ps_plans (pw_store w)"
  "ps_claims (pw_store (publish_if b cfg p typ ev w)) = ps_claims (pw_store w)"
  "ps_attempts (pw_store (publish_if b cfg p typ ev w)) = ps_attempts (pw_store w)"
  by (simp_all add: publish_if_def publish_plan_def Let_def mark_plan_published_def split: option.splits)

lemma plan_get_publish [simp]:
  "plan_get (pw_store (publish_if b cfg p typ ev w)) i t u = plan_get (pw_store w) i t u"
  by (simp add: plan_get_def)

lemma advance_join [simp]: "advance c p = join_status c p"
  by (simp add: advance_def advance_step_status_join)

lemma advance_steps_idem [simp]: "advance_steps i st (advance_steps i st ss) = advance_steps i st ss"
  by (simp add: advance_steps_def)

lemma plan_graph_advance [simp]: "plan_graph (advance_steps i st ss) = plan_graph ss"
  by (simp add: advance_steps_def plan_graph_def)

lemma next_version_sel [simp]:
  "pl_id (next_version ex p n ev at now) = pl_id p"
  "pl_tenant (next_version ex p n ev at now) = pl_tenant p"
  "pl_user (next_version ex p n ev at now) = pl_user p"
  "pl_steps (next_version ex p n ev at now) = pl_steps p"
  "pl_status (next_version ex p n ev at now) = pl_status p"
  by (simp_all add: next_version_def)

text \<open>What a save does, whatever the other tasks do between its read and its write.\<close>

lemma write_version_new:
  assumes "plan_get s (pl_id p) (pl_tenant p) (pl_user p) = None"
  shows "write_version cfg b None p s =
    (if dget (ps_plans s) (pl_id p) = None
     then Inr (p, store_plan p (suppressed cfg b) s)
     else Inl (Value_Error ''Plan ownership cannot be changed''))"
  using assms by (auto simp: write_version_def plan_save_def plan_get_def split: option.splits if_splits)

lemma write_version_next:
  "write_version cfg b (Some x) p s =
    (case plan_get s (pl_id p) (pl_tenant p) (pl_user p) of
       Some y \<Rightarrow> if pl_version y = pl_version x then Inr (p, store_plan p (suppressed cfg b) s)
                 else Inl (Plan_State_Conflict ''Plan changed concurrently'')
     | None \<Rightarrow> Inl (Plan_State_Conflict ''Plan changed concurrently''))"
  by (auto simp: write_version_def plan_save_if_version_def plan_get_def split: option.splits)

text \<open>
  Saving a plan never overwrites a state the caller has not seen. Whatever other tasks do
  between the read and the write, an update of a stored plan succeeds exactly when the plan handed
  in carries the version that was read and that version is still the stored one at the write; the
  version then grows by one, the identifier of the last event is kept unless a new one is given,
  and no other plan changes. Otherwise the call raises and the repository keeps what the others
  left there.
\<close>

theorem save_plan_correct:
  assumes "plan_get (pw_store w) (pl_id p) (pl_tenant p) (pl_user p) = Some x"
    "save_plan cfg others p typ event at publish now w = (r, w')"
  shows "(case r of
      Inl e \<Rightarrow> (\<exists>m. e = Plan_State_Conflict m) \<and> (w' = w \<or> w' = interfere others 0 w) \<and>
        (pl_version p \<noteq> pl_version x \<or>
         (\<forall>y. plan_get (others 0 (pw_store w)) (pl_id p) (pl_tenant p) (pl_user p) = Some y \<longrightarrow>
            pl_version y \<noteq> pl_version x))
    | Inr q \<Rightarrow> pl_version p = pl_version x \<and>
        (\<exists>y. plan_get (others 0 (pw_store w)) (pl_id p) (pl_tenant p) (pl_user p) = Some y \<and>
           pl_version y = pl_version x) \<and>
        pl_version q = pl_version x + 1 \<and> pl_steps q = pl_steps p \<and> pl_status q = pl_status p \<and>
        pl_last_event q = (if event = None then pl_last_event x else event) \<and>
        plan_get (pw_store w') (pl_id p) (pl_tenant p) (pl_user p) = Some q \<and>
        (\<forall>i. i \<noteq> pl_id p \<longrightarrow> dget (ps_plans (pw_store w')) i =
           dget (ps_plans (others 0 (pw_store w))) i))"
proof (cases "pl_version p = pl_version x")
  case False
  with assms show ?thesis by (auto simp: save_plan_def Let_def)
next
  case True
  let ?n = "next_version (Some x) p (event_name typ (Some x)) event at now"
  let ?g = "plan_get (others 0 (pw_store w)) (pl_id p) (pl_tenant p) (pl_user p)"
  have v: "pl_version ?n = pl_version x + 1"
    "pl_last_event ?n = (if event = None then pl_last_event x else event)"
    by (auto simp: next_version_def)
  have s: "save_plan cfg others p typ event at publish now w =
    (case write_version cfg publish (Some x) ?n (others 0 (pw_store w)) of
       Inl e \<Rightarrow> (Inl e, interfere others 0 w)
     | Inr (stored, s) \<Rightarrow> (Inr stored, publish_if publish cfg stored (event_name typ (Some x)) event
         ((interfere others 0 w)\<lparr>pw_store := s\<rparr>)))"
    using assms(1) True by (simp add: save_plan_def Let_def)
  show ?thesis
  proof (cases "\<exists>y. ?g = Some y \<and> pl_version y = pl_version x")
    case ex: True
    then have "write_version cfg publish (Some x) ?n (others 0 (pw_store w)) =
        Inr (?n, store_plan ?n (suppressed cfg publish) (others 0 (pw_store w)))"
      by (auto simp: write_version_next)
    with s assms(2) have "r = Inr ?n" "w' = publish_if publish cfg ?n (event_name typ (Some x)) event
        ((interfere others 0 w)\<lparr>pw_store := store_plan ?n (suppressed cfg publish) (others 0 (pw_store w))\<rparr>)"
      by auto
    with ex True v show ?thesis by (simp add: plan_get_iff)
  next
    case nex: False
    then have "write_version cfg publish (Some x) ?n (others 0 (pw_store w)) =
        Inl (Plan_State_Conflict ''Plan changed concurrently'')"
      by (auto simp: write_version_next split: option.splits)
    with s assms(2) nex show ?thesis by auto
  qed
qed


lemma save_plan_quiet:
  assumes "plan_get (pw_store w) (pl_id p) (pl_tenant p) (pl_user p) = Some x"
    "pl_version p = pl_version x"
  obtains q w' where "save_plan cfg quiet p typ event at publish now w = (Inr q, w')"
    "q = next_version (Some x) p (event_name typ (Some x)) event at now"
    "ps_plans (pw_store w') = dput (pl_id p) q (ps_plans (pw_store w))"
  using that assms by (simp add: save_plan_def Let_def write_version_next)

lemma stored_plan_owner:
  assumes "plan_store_ok s" "plan_get s i t u = Some p"
  shows "pl_id p = i" "pl_tenant p = t" "pl_user p = u"
  using assms plan_store_okD(3)[OF assms(1)] by (auto simp: plan_get_iff)

text \<open>The write of an event, without interference.\<close>

lemma save_advanced:
  assumes "plan_get (pw_store w) i t u = Some p" "pl_id p = i"
  obtains q w' where "save_plan cfg quiet (advanced_plan p e st) (Some ''update'') (Some (ev_id e))
      (ev_created e) publish now w = (Inr q, w')"
    "q = next_version (Some p) (advanced_plan p e st) ''update'' (Some (ev_id e)) (ev_created e) now"
    "ps_plans (pw_store w') = dput i q (ps_plans (pw_store w))"
proof -
  have o: "pl_tenant p = t" "pl_user p = u" using assms(1) by (simp_all add: plan_get_iff)
  have f: "pl_id (advanced_plan p e st) = i" "pl_tenant (advanced_plan p e st) = t"
    "pl_user (advanced_plan p e st) = u" "pl_version (advanced_plan p e st) = pl_version p"
    using o assms(2) by (simp_all add: advanced_plan_def Let_def)
  show thesis
    by (rule save_plan_quiet[of w "advanced_plan p e st" p cfg "Some ''update''" "Some (ev_id e)"
          "ev_created e" publish now])
      (use f assms(1) that in \<open>simp_all add: event_name_def\<close>)
qed

text \<open>Without interference the retry loop runs once.\<close>

lemma apply_event_once_no_conflict:
  assumes "\<And>p. plan_get (pw_store w) (the (ev_plan e)) t u = Some p \<Longrightarrow> pl_id p = the (ev_plan e)"
  shows "apply_event_once cfg quiet e t u publish now w \<noteq> (Inl (Plan_State_Conflict m), w')"
proof
  assume c: "apply_event_once cfg quiet e t u publish now w = (Inl (Plan_State_Conflict m), w')"
  then obtain p st where p: "plan_get (pw_store w) (the (ev_plan e)) t u = Some p"
    and s: "save_plan cfg quiet (advanced_plan p e st) (Some ''update'') (Some (ev_id e)) (ev_created e)
        publish now w = (Inl (Plan_State_Conflict m), w')"
    by (auto simp: apply_event_once_def event_step_status_def split: if_splits option.splits sum.splits prod.splits)
  from save_advanced[OF p assms[OF p], of cfg e st publish now] s show False by auto
qed

lemma apply_agent_event_quiet:
  assumes "\<And>p. plan_get (pw_store w) (the (ev_plan e)) t u = Some p \<Longrightarrow> pl_id p = the (ev_plan e)"
  shows "apply_agent_event cfg quiet e t u publish now w = apply_event_once cfg quiet e t u publish now w"
proof -
  obtain r w' where rw: "apply_event_once cfg quiet e t u publish now w = (r, w')" by fastforce
  show ?thesis
  proof (cases r)
    case (Inl err)
    with rw apply_event_once_no_conflict[of w e t u cfg publish now] assms show ?thesis
      by (cases err) (auto simp: apply_agent_event_def numeral_3_eq_3)
  qed (simp add: apply_agent_event_def numeral_3_eq_3 rw)
qed

definition demo_cfg :: plan_config where
  "demo_cfg = \<lparr>pc_automatic = False, pc_sink = None, pc_runs = None\<rparr>"

definition demo_pw :: plan_world where
  "demo_pw = \<lparr>pw_store = demo_store, pw_log = []\<rparr>"

lemma demo_pw_get: "plan_get (pw_store demo_pw) ''p'' ''a'' ''u'' = Some demo_plan2"
  by (simp add: demo_pw_def demo_store_get)

lemma demo_pw_ok: "plan_store_ok (pw_store demo_pw)"
  using plan_store_reachable_ok[OF demo_store_reachable[of id]] by (simp add: demo_pw_def)

lemma demo_plan2_owner [simp]:
  "pl_id demo_plan2 = ''p''" "pl_tenant demo_plan2 = ''a''" "pl_user demo_plan2 = ''u''"
  "pl_version demo_plan2 = 0" "pl_status demo_plan2 = Pending" "pl_last_event demo_plan2 = None"
  by (simp_all add: demo_plan2_def)

lemma save_plan_correct_witness:
  "\<exists>q w'. save_plan demo_cfg quiet demo_plan2 None None None True 5 demo_pw = (Inr q, w') \<and>
     pl_version q = 1 \<and> plan_get (pw_store w') ''p'' ''a'' ''u'' = Some q"
proof -
  obtain q w' where s: "save_plan demo_cfg quiet demo_plan2 None None None True 5 demo_pw = (Inr q, w')"
    by (rule save_plan_quiet[of demo_pw demo_plan2 demo_plan2]) (simp_all add: demo_pw_get)
  from save_plan_correct[OF _ s, of demo_plan2] show ?thesis
    using s by (simp add: demo_pw_get)
qed

text \<open>
  An agent event changes its plan at most once. Applied to an active plan of the caller, an
  event whose status fits its type moves exactly the step it names up to the status of its type,
  derives current step and plan status from the steps, raises the version by one and records itself
  as the plan's last event; a plan that has ended, or a step already at least as far, stays as it
  is. Applying the same event again returns the same plan and changes no plan.
\<close>

theorem apply_agent_event_once:
  assumes "plan_store_ok (pw_store w)" "plan_get (pw_store w) i t u = Some p" "ev_plan e = Some i"
    "i \<noteq> []" "event_step_status (ev_status e) (ev_type e) = Inr st"
    "apply_agent_event cfg quiet e t u publish now w = (r, w')"
  shows "\<exists>q. r = Inr (Some q) \<and> plan_get (pw_store w') i t u = Some q \<and>
    (q = p \<and> ps_plans (pw_store w') = ps_plans (pw_store w) \<or>
     pl_status p \<notin> {Completed, Failed, Cancelled} \<and>
     pl_steps q = map (\<lambda>s. if Some (st_id s) = ev_step e
                         then s\<lparr>st_status := join_status (st_status s) st\<rparr> else s) (pl_steps p) \<and>
     pl_current q = next_step_id (pl_steps q) \<and>
     pl_status q = plan_status_of (pl_steps q) (pl_current q) \<and>
     pl_version q = pl_version p + 1 \<and> pl_last_event q = Some (ev_id e)) \<and>
    (\<forall>cfg2 publish2 now2. \<exists>w2. apply_agent_event cfg2 quiet e t u publish2 now2 w' = (Inr (Some q), w2) \<and>
       ps_plans (pw_store w2) = ps_plans (pw_store w'))"
proof -
  have ids: "str_set (ev_plan e)" "the (ev_plan e) = i" using assms(3,4) by simp_all
  have pid: "pl_id p = i" using stored_plan_owner(1)[OF assms(1,2)] .
  have quiet_at: "apply_agent_event cfg2 quiet e t u b n v = apply_event_once cfg2 quiet e t u b n v"
    if "plan_get (pw_store v) i t u = Some x" "pl_id x = i" for v x cfg2 b n
    using apply_agent_event_quiet[of v e t u cfg2 b n] that ids by simp
  have once: "apply_event_once cfg quiet e t u publish now w = (r, w')"
    using assms(6) quiet_at[OF assms(2) pid] by simp
  define idle where "idle (x::plan) \<longleftrightarrow> pl_last_event x = Some (ev_id e) \<or>
      pl_status x \<in> {Completed, Cancelled, Failed} \<or>
      advance_steps (ev_step e) st (pl_steps x) = pl_steps x" for x :: plan
  have ign: "\<exists>w2. apply_agent_event cfg2 quiet e t u b n v = (Inr (Some x), w2) \<and>
      ps_plans (pw_store w2) = ps_plans (pw_store v)"
    if "plan_get (pw_store v) i t u = Some x" "pl_id x = i" "idle x" for v x cfg2 b n
    using that ids assms(5) by (auto simp: apply_event_once_def quiet_at idle_def)
  show ?thesis
  proof (cases "idle p")
    case True
    from ign[OF assms(2) pid True, of cfg publish now] assms(6) have w': "r = Inr (Some p)"
      "ps_plans (pw_store w') = ps_plans (pw_store w)" by auto
    then have g: "plan_get (pw_store w') i t u = Some p" using assms(2) by (simp add: plan_get_def)
    from ign[OF g pid True] w' g show ?thesis by blast
  next
    case False
    from save_advanced[OF assms(2) pid, of cfg e st publish now] obtain q w1 where
      s: "save_plan cfg quiet (advanced_plan p e st) (Some ''update'') (Some (ev_id e)) (ev_created e)
          publish now w = (Inr q, w1)"
      and q: "q = next_version (Some p) (advanced_plan p e st) ''update'' (Some (ev_id e)) (ev_created e) now"
      and w1: "ps_plans (pw_store w1) = dput i q (ps_plans (pw_store w))" by blast
    have rw: "r = Inr (Some q)" "w' = w1"
      using once assms(2,5) ids False s by (auto simp: apply_event_once_def idle_def)
    have f: "pl_id q = i" "pl_tenant q = t" "pl_user q = u" "pl_version q = pl_version p + 1"
      "pl_last_event q = Some (ev_id e)" "pl_steps q = advance_steps (ev_step e) st (pl_steps p)"
      "pl_current q = next_step_id (pl_steps q)" "pl_status q = plan_status_of (pl_steps q) (pl_current q)"
      using q pid assms(2) by (simp_all add: next_version_def advanced_plan_def Let_def plan_get_iff)
    have g: "plan_get (pw_store w') i t u = Some q" using w1 rw(2) f(2,3) by (simp add: plan_get_iff)
    have "idle q" using f(5) by (simp add: idle_def)
    moreover have "pl_status p \<notin> {Completed, Failed, Cancelled}" using False by (auto simp: idle_def)
    ultimately show ?thesis using ign[OF g f(1)] rw f g by (auto simp: advance_steps_def)
  qed
qed


definition demo_step_event :: agent_event where
  "demo_step_event = \<lparr>ev_id = ''e1'', ev_run = None, ev_request = None, ev_session = ''s'', ev_agent = ''x'',
     ev_user = Some ''u'', ev_tenant = Some ''a'', ev_turn = None, ev_agent_session = None,
     ev_type = Agent_Result_Event, ev_status = Some ''completed'', ev_plan = Some ''p'', ev_step = Some ''s1'',
     ev_sequence = None, ev_run_version = None, ev_payload = JObj [], ev_created = Some 3\<rparr>"

lemma apply_agent_event_once_witness:
  "\<exists>q w' w2. apply_agent_event demo_cfg quiet demo_step_event ''a'' ''u'' True 5 demo_pw = (Inr (Some q), w') \<and>
     apply_agent_event demo_cfg quiet demo_step_event ''a'' ''u'' True 6 w' = (Inr (Some q), w2) \<and>
     ps_plans (pw_store w2) = ps_plans (pw_store w')"
proof -
  obtain r w' where a: "apply_agent_event demo_cfg quiet demo_step_event ''a'' ''u'' True 5 demo_pw = (r, w')"
    by fastforce
  from apply_agent_event_once[OF demo_pw_ok demo_pw_get _ _ _ a, of Completed] show ?thesis
    using a by (fastforce simp: demo_step_event_def event_step_status_def)
qed

lemma save_claimed_None:
  "save_claimed cfg p step c publish now w = (None, w') \<Longrightarrow> w' = w"
  by (auto simp: save_claimed_def plan_save_claimed_step_def Let_def
      split: option.splits prod.splits if_splits)

lemma finish_attempts_quiet:
  assumes "plan_get (pw_store w) i t u = Some p" "\<not> settled (Some p)" "step \<in> set (step_ids (pl_steps p))"
  shows "finish_attempts cfg quiet n (Suc k) i step t u c st publish now w =
    (case save_claimed cfg (finished_plan p step st) step c publish now w of
       (Some x, w') \<Rightarrow> (Inr (Some x), w')
     | (None, _) \<Rightarrow> (Inl (Plan_State_Conflict ''Plan claim completion conflicted repeatedly''), w))"
  using assms
proof (induction k arbitrary: n)
  case 0
  then show ?case
    by (auto simp: Let_def split: option.splits prod.splits dest!: save_claimed_None)
next
  case (Suc k)
  from Suc.IH[OF Suc.prems, of "n + 2"] Suc.prems show ?case
    by (subst finish_attempts.simps)
      (auto simp: Let_def simp del: finish_attempts.simps split: option.splits prod.splits
        dest!: save_claimed_None)
qed

text \<open>Finishing a step under its claim, with the stored plan in full.\<close>

definition finished_stored :: "plan \<Rightarrow> ident \<Rightarrow> step_status \<Rightarrow> time \<Rightarrow> plan" where
  "finished_stored p step st now =
     (finished_plan p step st)\<lparr>pl_formation := ''update'', pl_updated := now\<rparr>"

lemma finished_stored_sel [simp]:
  "pl_id (finished_stored p step st now) = pl_id p"
  "pl_tenant (finished_stored p step st now) = pl_tenant p"
  "pl_user (finished_stored p step st now) = pl_user p"
  "pl_session (finished_stored p step st now) = pl_session p"
  "pl_version (finished_stored p step st now) = pl_version p + 1"
  "pl_next_action (finished_stored p step st now) = None"
  "pl_steps (finished_stored p step st now) = advance_steps (Some step) st (pl_steps p)"
  "pl_current (finished_stored p step st now) =
     next_step_id (advance_steps (Some step) st (pl_steps p))"
  "pl_status (finished_stored p step st now) =
     plan_status_of (advance_steps (Some step) st (pl_steps p))
       (next_step_id (advance_steps (Some step) st (pl_steps p)))"
  by (simp_all add: finished_stored_def finished_plan_def Let_def)

lemma publish_if_ok: "plan_store_ok (pw_store w) \<Longrightarrow> plan_store_ok (pw_store (publish_if b cfg p typ ev w))"
  by (auto simp: publish_if_def publish_plan_def Let_def intro: plan_mark_ok split: option.splits)

lemma finish_claimed_success:
  assumes ok: "plan_store_ok (pw_store w)" and get: "plan_get (pw_store w) i t u = Some p"
    and act: "pl_status p \<in> {Pending, Running}" "step \<in> set (step_ids (pl_steps p))"
    and x: "dget (ps_claims (pw_store w)) i = Some x" "cl_step x = step" "cl_claim x = c"
  shows "\<exists>w'. finish_claimed_step cfg quiet i step t u c st publish now w =
      (Inr (Some (finished_stored p step st now)), w') \<and>
    ps_plans (pw_store w') = dput i (finished_stored p step st now) (ps_plans (pw_store w)) \<and>
    ps_claims (pw_store w') = dpop i (ps_claims (pw_store w)) \<and> plan_store_ok (pw_store w')"
proof -
  note o = stored_plan_owner[OF ok get]
  have ns: "\<not> settled (Some p)" using act(1) by (auto simp: settled_def)
  have out: "finish_claimed_step cfg quiet i step t u c st publish now w =
     (case save_claimed cfg (finished_plan p step st) step c publish now w of
       (Some x, w') \<Rightarrow> (Inr (Some x), w')
     | (None, _) \<Rightarrow> (Inl (Plan_State_Conflict ''Plan claim completion conflicted repeatedly''), w))"
    using finish_attempts_quiet[OF get ns act(2), of cfg 0 2 c st publish now]
    by (simp add: finish_claimed_step_def numeral_3_eq_3 numeral_2_eq_2)
  have f: "pl_id (finished_plan p step st) = i" "pl_tenant (finished_plan p step st) = t"
    "pl_user (finished_plan p step st) = u" "pl_version (finished_plan p step st) = pl_version p + 1"
    "pl_steps (finished_plan p step st) = advance_steps (Some step) st (pl_steps p)"
    using o by (simp_all add: finished_plan_def Let_def)
  have at: "dget (ps_plans (pw_store w)) i = Some p" using get by (simp add: plan_get_iff)
  have v: "cl_version x = pl_version p"
    using plan_store_okD(5)[OF ok x(1)] at by (simp add: claim_ok_def)
  let ?p = "(finished_plan p step st)\<lparr>pl_updated := now, pl_formation := ''update''\<rparr>"
  have wf: "steps_wf (pl_steps ?p)"
    using plan_store_okD(4)[OF ok at] steps_wf_graph_cong[OF plan_graph_advance] f(5) by simp
  obtain s where s: "plan_save_claimed_step ?p step c (suppressed cfg publish) now (pw_store w) =
      (Some (finished_stored p step st now), s)"
    "ps_plans s = dput i (finished_stored p step st now) (ps_plans (pw_store w))"
    "ps_claims s = dpop i (ps_claims (pw_store w))"
    using f x v at o by (simp add: plan_save_claimed_step_def Let_def finished_stored_def)
  have "plan_store_ok s" by (rule plan_save_claimed_ok[OF ok wf s(1)])
  then show ?thesis
    using s out by (simp add: save_claimed_def publish_if_ok)
qed

text \<open>
  The result of a step is written only under the claim of the caller. For a plan that is not yet
  blocked or ended, \<open>finish_claimed_step\<close> stores the step's new status, the next step and the plan
  status derived from the steps, with the next version, exactly when the caller still holds the
  claim on this step, and gives the claim up; without the claim it raises after its three attempts
  and changes nothing.
\<close>

theorem finish_claimed_step_correct:
  assumes "plan_store_ok (pw_store w)" "plan_get (pw_store w) i t u = Some p"
    "pl_status p \<in> {Pending, Running}" "step \<in> set (step_ids (pl_steps p))"
    "finish_claimed_step cfg quiet i step t u c st publish now w = (r, w')"
  shows "if \<exists>x. dget (ps_claims (pw_store w)) i = Some x \<and> cl_step x = step \<and> cl_claim x = c
    then \<exists>q. r = Inr (Some q) \<and> plan_get (pw_store w') i t u = Some q \<and>
      pl_version q = pl_version p + 1 \<and>
      pl_steps q = map (\<lambda>s. if st_id s = step then s\<lparr>st_status := join_status (st_status s) st\<rparr> else s)
        (pl_steps p) \<and>
      pl_current q = next_step_id (pl_steps q) \<and>
      pl_status q = plan_status_of (pl_steps q) (pl_current q) \<and>
      dget (ps_claims (pw_store w')) i = None
    else r = Inl (Plan_State_Conflict ''Plan claim completion conflicted repeatedly'') \<and> w' = w"
proof -
  note o = stored_plan_owner[OF assms(1,2)]
  show ?thesis
  proof (cases "\<exists>x. dget (ps_claims (pw_store w)) i = Some x \<and> cl_step x = step \<and> cl_claim x = c")
    case False
    have ns: "\<not> settled (Some p)" using assms(3) by (auto simp: settled_def)
    have "save_claimed cfg (finished_plan p step st) step c publish now w = (None, w)"
      using False o
      by (auto simp: save_claimed_def plan_save_claimed_step_def finished_plan_def Let_def
          split: option.splits)
    then have "finish_claimed_step cfg quiet i step t u c st publish now w =
        (Inl (Plan_State_Conflict ''Plan claim completion conflicted repeatedly''), w)"
      using finish_attempts_quiet[OF assms(2) ns assms(4), of cfg 0 2 c st publish now]
      by (simp add: finish_claimed_step_def numeral_3_eq_3 numeral_2_eq_2)
    with assms(5) show ?thesis unfolding if_not_P[OF False] by simp
  next
    case True
    with finish_claimed_success[OF assms(1-4), of _ c cfg st publish now] assms(5)
    have "r = Inr (Some (finished_stored p step st now))"
      "ps_plans (pw_store w') = dput i (finished_stored p step st now) (ps_plans (pw_store w))"
      "ps_claims (pw_store w') = dpop i (ps_claims (pw_store w))"
      by auto
    with True o show ?thesis by (simp add: plan_get_iff advance_steps_def)
  qed
qed

lemma finish_claimed_step_correct_witness:
  "\<exists>q w1 r w2. claim_plan_step id demo_cfg ''c'' ''p'' ''s1'' ''a'' ''u'' 10 True 0 demo_pw = (Some (q, ''c''), w1) \<and>
     finish_claimed_step demo_cfg quiet ''p'' ''s1'' ''a'' ''u'' ''c'' Completed True 5 w1 = (Inr (Some r), w2) \<and>
     pl_current r = Some ''s2'' \<and> dget (ps_claims (pw_store w2)) ''p'' = None"
proof -
  obtain q s1 where c: "plan_claim_step id ''p'' ''s1'' ''a'' ''u'' ''c'' 10 0 True demo_store = (Some q, s1)"
    and q: "q = demo_plan2\<lparr>pl_steps := set_step_status ''s1'' Running (pl_steps demo_plan2),
       pl_current := Some ''s1'', pl_status := Running, pl_next_action := None,
       pl_version := 1, pl_updated := 0, pl_formation := ''update''\<rparr>"
    by (simp add: plan_claim_step_def demo_store_get demo_claims claim_expired_def)
      (simp add: demo_plan2_def active_statuses_def Let_def demo_claims claim_expired_def)
  have ok: "plan_store_ok s1"
    by (rule plan_claim_ok[OF demo_pw_ok[unfolded demo_pw_def, simplified] c])
  from c obtain x where at: "plan_get s1 ''p'' ''a'' ''u'' = Some q"
    and cl: "dget (ps_claims s1) ''p'' = Some x" "cl_step x = ''s1''" "cl_claim x = ''c''"
    using q by (elim plan_claim_step_Some) (auto simp: plan_get_iff)
  let ?w = "demo_pw\<lparr>pw_store := s1\<rparr>"
  have k: "claim_plan_step id demo_cfg ''c'' ''p'' ''s1'' ''a'' ''u'' 10 True 0 demo_pw = (Some (q, ''c''), ?w)"
    using c by (simp add: claim_plan_step_def suppressed_def demo_cfg_def demo_pw_def publish_if_def publish_plan_def)
  obtain r w2 where f: "finish_claimed_step demo_cfg quiet ''p'' ''s1'' ''a'' ''u'' ''c'' Completed True 5 ?w = (r, w2)"
    by fastforce
  have "pl_status q \<in> {Pending, Running}" "''s1'' \<in> set (step_ids (pl_steps q))"
    by (simp_all add: q demo_plan2_def step_ids_def set_step_status_def)
  from finish_claimed_step_correct[OF _ _ this f] ok at cl
  obtain y where y: "r = Inr (Some y)" "dget (ps_claims (pw_store w2)) ''p'' = None"
    "pl_current y = next_step_id (pl_steps y)"
    "pl_steps y = map (\<lambda>s. if st_id s = ''s1'' then s\<lparr>st_status := join_status (st_status s) Completed\<rparr> else s)
        (pl_steps q)"
    by auto
  have "pl_current y = Some ''s2''"
    unfolding y(3,4) q by code_simp
  with k f y show ?thesis by blast
qed

text \<open>
  A confirmation takes effect once. It moves a pending plan of the caller to running with the
  next version and, when it carries a request identifier, sending it again is answered as accepted
  without any change; a stale expected version or a plan that is not pending is answered with the
  stored plan and changes nothing.
\<close>

theorem confirm_plan_once:
  assumes "plan_store_ok (pw_store w)" "plan_get (pw_store w) i t u = Some p"
    "confirm_plan cfg quiet i t u request expected publish now w = (r, w')"
  shows "if pl_status p = Pending \<and> (request = None \<or> pl_last_event p \<noteq> request) \<and>
       (expected = None \<or> expected = Some (pl_version p))
     then \<exists>q. plan_get (pw_store w') i t u = Some q \<and> r = Inr (response_of i q True) \<and>
       pl_status q = Running \<and> pl_version q = pl_version p + 1 \<and> pl_steps q = pl_steps p \<and>
       (request \<noteq> None \<longrightarrow> (\<forall>cfg2 e2 b2 n2. confirm_plan cfg2 quiet i t u request e2 b2 n2 w' =
          (Inr (response_of i q True), w')))
     else w' = w \<and> r = Inr (response_of i p (request \<noteq> None \<and> pl_last_event p = request))"
proof (cases "pl_status p = Pending \<and> (request = None \<or> pl_last_event p \<noteq> request) \<and>
       (expected = None \<or> expected = Some (pl_version p))")
  case False
  with assms show ?thesis by (auto simp: confirm_plan_def split: if_splits)
next
  case True
  note o = stored_plan_owner[OF assms(1,2)]
  obtain q w1 where s: "save_plan cfg quiet (p\<lparr>pl_status := Running\<rparr>) (Some ''confirm'') request None
      publish now w = (Inr q, w1)"
    and q: "q = next_version (Some p) (p\<lparr>pl_status := Running\<rparr>) ''confirm'' request None now"
    and w1: "ps_plans (pw_store w1) = dput i q (ps_plans (pw_store w))"
    by (rule save_plan_quiet[of w "p\<lparr>pl_status := Running\<rparr>" p cfg "Some ''confirm''" request None publish now])
      (use assms(2) o in \<open>simp_all add: event_name_def\<close>)
  have rw: "r = Inr (response_of i q True)" "w' = w1"
    using True s assms(2,3) by (auto simp: confirm_plan_def)
  have f: "pl_tenant q = t" "pl_user q = u" "pl_status q = Running" "pl_version q = pl_version p + 1"
    "pl_steps q = pl_steps p" "request \<noteq> None \<Longrightarrow> pl_last_event q = request"
    using q o by (simp_all add: next_version_def)
  have g: "plan_get (pw_store w') i t u = Some q" using w1 rw(2) f(1,2) by (simp add: plan_get_iff)
  then have "confirm_plan cfg2 quiet i t u request e2 b2 n2 w' = (Inr (response_of i q True), w')"
    if "request \<noteq> None" for cfg2 e2 b2 n2
    using f(6)[OF that] that by (simp add: confirm_plan_def)
  with True rw f g show ?thesis by auto
qed

lemma confirm_plan_once_witness:
  "\<exists>q w'. confirm_plan demo_cfg quiet ''p'' ''a'' ''u'' (Some ''r1'') (Some 0) True 5 demo_pw =
       (Inr (response_of ''p'' q True), w') \<and> pl_status q = Running \<and>
     confirm_plan demo_cfg quiet ''p'' ''a'' ''u'' (Some ''r1'') (Some 0) True 6 w' =
       (Inr (response_of ''p'' q True), w')"
proof -
  obtain r w' where c: "confirm_plan demo_cfg quiet ''p'' ''a'' ''u'' (Some ''r1'') (Some 0) True 5 demo_pw = (r, w')"
    by fastforce
  from confirm_plan_once[OF demo_pw_ok demo_pw_get c] c show ?thesis by fastforce
qed

end
