(* ===== verification/Formation_Publishing.thy ===== *)
theory Formation_Publishing
  imports Plan_Service
begin

text \<open>
  Handing states over to memory formation: \<open>publish_run_transitions\<close> and the periodic
  \<open>FormationReconciler\<close> of \<open>app/services/memory_integration.py\<close>, over the in-memory repositories
  of plans, runs and results. The publisher is the predicate that tells which publications it
  accepts; the others raise. The log records the accepted ones.
\<close>

datatype formation_event =
    Plan_Event publication
  | Run_Event agent_run string
  | Result_Event agent_result agent_run
  | Turn_Event agent_run agent_result

type_synonym publisher = "formation_event \<Rightarrow> bool"

record formation_world =
  fw_plans :: plan_store
  fw_runs :: run_store
  fw_results :: result_store
  fw_log :: "formation_event list"

record reconcile_counts =
  ct_plans :: nat
  ct_runs :: nat
  ct_results :: nat
  ct_turns :: nat

fun run_event_type :: "run_status \<Rightarrow> string" where
  "run_event_type RunCompleted = ''complete''"
| "run_event_type RunFailed = ''fail''"
| "run_event_type RunInvalidOutput = ''fail''"
| "run_event_type RunBlocked = ''update''"
| "run_event_type RunClarify = ''update''"
| "run_event_type _ = ''create''"

text \<open>The state a run had when it was created, as the first publication shows it.\<close>

definition created_state :: "agent_run \<Rightarrow> agent_run" where
  "created_state r =
     r\<lparr>rn_status := RunRunning, rn_output := None, rn_error := None, rn_latency := None,
       rn_updated := rn_created r\<rparr>"

text \<open>\<open>False\<close> as first component: the publisher raised.\<close>

definition publish_run_transitions ::
    "publisher \<Rightarrow> agent_run \<Rightarrow> formation_world \<Rightarrow> bool \<times> formation_world" where
  "publish_run_transitions accepts r w =
     (let order = published_order (fw_runs w) (rn_id r);
          first = Run_Event (created_state r) ''create''
      in if order < 1 \<and> \<not> accepts first then (False, w)
         else
           let w1 = (if order < 1
                     then w\<lparr>fw_runs := mark_run_published (rn_id r) 1 (fw_runs w),
                            fw_log := fw_log w @ [first]\<rparr> else w);
               order1 = (if order < 1 then 1 else order);
               target = run_source_order (rn_status r);
               now_event = Run_Event r (run_event_type (rn_status r))
           in if target \<le> order1 then (True, w1)
              else if \<not> accepts now_event then (False, w1)
              else (True, w1\<lparr>fw_runs := mark_run_published (rn_id r) target (fw_runs w1),
                             fw_log := fw_log w1 @ [now_event]\<rparr>))"

text \<open>The three loops of \<open>run_once\<close>; an exception of the publisher skips to the next item.\<close>

definition reconcile_plan ::
    "publisher \<Rightarrow> plan \<Rightarrow> formation_world \<times> reconcile_counts \<Rightarrow> formation_world \<times> reconcile_counts" where
  "reconcile_plan accepts p s =
     (case s of (w, n) \<Rightarrow>
        let e = Plan_Event \<lparr>pb_plan = p, pb_type = pl_formation p, pb_event = pl_last_event p,
                  pb_version = source_version (pl_last_event p) (pl_version p),
                  pb_order = pl_version p, pb_at = pl_updated p\<rparr>
        in if accepts e
           then (w\<lparr>fw_plans := mark_plan_published (pl_id p) (pl_version p) (fw_plans w),
                   fw_log := fw_log w @ [e]\<rparr>, n\<lparr>ct_plans := ct_plans n + 1\<rparr>)
           else (w, n))"

definition reconcile_run ::
    "publisher \<Rightarrow> agent_run \<Rightarrow> formation_world \<times> reconcile_counts \<Rightarrow> formation_world \<times> reconcile_counts" where
  "reconcile_run accepts r s =
     (case s of (w, n) \<Rightarrow>
        (case publish_run_transitions accepts r w of
           (True, w') \<Rightarrow> (w', n\<lparr>ct_runs := ct_runs n + 1\<rparr>)
         | (False, w') \<Rightarrow> (w', n)))"

definition result_matches_run :: "agent_result \<Rightarrow> agent_run \<Rightarrow> bool" where
  "result_matches_run x r \<longleftrightarrow>
     str_set (rs_tenant x) \<and> str_set (rs_user x) \<and> rs_run x = rn_id r \<and>
     rs_session x = rn_session r \<and> rs_agent x = rn_agent r \<and> rs_tenant x = rn_tenant r \<and>
     rs_user x = rn_user r \<and> rs_plan x = rn_plan r \<and> rs_step x = rn_step r"

definition reconcile_result ::
    "publisher \<Rightarrow> agent_result \<Rightarrow> formation_world \<times> reconcile_counts \<Rightarrow> formation_world \<times> reconcile_counts" where
  "reconcile_result accepts x s =
     (case s of (w, n) \<Rightarrow>
        (case get_run (fw_runs w) (rs_run x) of
           None \<Rightarrow> (w, n)
         | Some r \<Rightarrow>
             if \<not> result_matches_run x r
             then (w\<lparr>fw_results := mark_turn_captured (rs_id x)
                                    (mark_result_published (rs_id x) (fw_results w))\<rparr>, n)
             else
               let (w1, n1) =
                     (if \<not> rn_suppressed r \<and> accepts (Result_Event x r)
                      then (w\<lparr>fw_results := mark_result_published (rs_id x) (fw_results w),
                              fw_log := fw_log w @ [Result_Event x r]\<rparr>,
                            n\<lparr>ct_results := ct_results n + 1\<rparr>)
                      else (w, n))
               in if accepts (Turn_Event r x)
                  then (w1\<lparr>fw_results := mark_turn_captured (rs_id x) (fw_results w1),
                           fw_log := fw_log w1 @ [Turn_Event r x]\<rparr>,
                        n1\<lparr>ct_turns := ct_turns n1 + 1\<rparr>)
                  else (w1, n1)))"

definition reconcile_once ::
    "publisher \<Rightarrow> nat \<Rightarrow> formation_world \<Rightarrow> formation_world \<times> reconcile_counts" where
  "reconcile_once accepts limit w =
     (let s0 = (w, \<lparr>ct_plans = 0, ct_runs = 0, ct_results = 0, ct_turns = 0\<rparr>);
          s1 = fold (reconcile_plan accepts) (plan_formation_pending (fw_plans w) limit) s0;
          s2 = fold (reconcile_run accepts) (run_formation_pending (fw_runs (fst s1)) limit) s1
      in fold (reconcile_result accepts) (result_formation_pending (fw_results (fst s2)) limit) s2)"

subsection \<open>What a sweep does\<close>

lemma published_order_mark:
  "published_order (mark_run_published i n s) j =
     (if j = i \<and> dget (rr_runs s) i \<noteq> None then max n (published_order s i) else published_order s j)"
  by (auto simp: mark_run_published_def published_order_def)

lemma mark_run_published_runs [simp]: "rr_runs (mark_run_published i n s) = rr_runs s"
  by (simp add: mark_run_published_def)

lemma published_version_mark:
  "published_version (mark_plan_published i n s) j =
     (if j = i \<and> dget (ps_plans s) i \<noteq> None then max n (published_version s i)
      else published_version s j)"
  by (auto simp: mark_plan_published_def published_version_def)

lemma mark_plan_published_plans [simp]: "ps_plans (mark_plan_published i n s) = ps_plans s"
  by (simp add: mark_plan_published_def)

text \<open>A step of the sweep touches one repository and only its publication marks.\<close>

lemma publish_run_transitions_sel [simp]:
  "rr_runs (fw_runs (snd (publish_run_transitions accepts r w))) = rr_runs (fw_runs w)"
  "fw_plans (snd (publish_run_transitions accepts r w)) = fw_plans w"
  "fw_results (snd (publish_run_transitions accepts r w)) = fw_results w"
  "published_order (fw_runs w) i \<le>
     published_order (fw_runs (snd (publish_run_transitions accepts r w))) i"
  by (auto simp: publish_run_transitions_def Let_def published_order_mark)

lemma reconcile_plan_sel [simp]:
  "ps_plans (fw_plans (fst (reconcile_plan accepts p s))) = ps_plans (fw_plans (fst s))"
  "fw_runs (fst (reconcile_plan accepts p s)) = fw_runs (fst s)"
  "fw_results (fst (reconcile_plan accepts p s)) = fw_results (fst s)"
  "published_version (fw_plans (fst s)) i \<le>
     published_version (fw_plans (fst (reconcile_plan accepts p s))) i"
  by (auto simp: reconcile_plan_def Let_def published_version_mark split: prod.splits)

lemma reconcile_run_fst: "fst (reconcile_run accepts r s) = snd (publish_run_transitions accepts r (fst s))"
  by (auto simp: reconcile_run_def split: prod.splits bool.splits)

lemma reconcile_result_sel [simp]:
  "fw_plans (fst (reconcile_result accepts x s)) = fw_plans (fst s)"
  "fw_runs (fst (reconcile_result accepts x s)) = fw_runs (fst s)"
  "re_results (fw_results (fst (reconcile_result accepts x s))) = re_results (fw_results (fst s))"
  "i \<in> re_published (fw_results (fst s)) \<Longrightarrow>
     i \<in> re_published (fw_results (fst (reconcile_result accepts x s)))"
  "i \<in> re_captured (fw_results (fst s)) \<Longrightarrow>
     i \<in> re_captured (fw_results (fst (reconcile_result accepts x s)))"
  by (auto simp: reconcile_result_def Let_def mark_result_published_def mark_turn_captured_def
      split: prod.splits option.splits)

lemma fold_reconcile_plan:
  "ps_plans (fw_plans (fst (fold (reconcile_plan accepts) ps s))) = ps_plans (fw_plans (fst s))"
  "fw_runs (fst (fold (reconcile_plan accepts) ps s)) = fw_runs (fst s)"
  "fw_results (fst (fold (reconcile_plan accepts) ps s)) = fw_results (fst s)"
  by (induction ps arbitrary: s) (simp_all )

lemma fold_reconcile_plan_mono:
  "published_version (fw_plans (fst s)) i \<le>
     published_version (fw_plans (fst (fold (reconcile_plan accepts) ps s))) i"
proof (induction ps arbitrary: s)
  case (Cons q ps)
  have "published_version (fw_plans (fst s)) i \<le> published_version (fw_plans (fst (reconcile_plan accepts q s))) i"
    by (simp )
  from order_trans[OF this Cons[of "reconcile_plan accepts q s"]] show ?case by simp
qed simp

lemma fold_reconcile_run:
  "rr_runs (fw_runs (fst (fold (reconcile_run accepts) rs s))) = rr_runs (fw_runs (fst s))"
  "fw_plans (fst (fold (reconcile_run accepts) rs s)) = fw_plans (fst s)"
  "fw_results (fst (fold (reconcile_run accepts) rs s)) = fw_results (fst s)"
  by (induction rs arbitrary: s) (simp_all add: reconcile_run_fst)

lemma fold_reconcile_run_mono:
  "published_order (fw_runs (fst s)) i \<le>
     published_order (fw_runs (fst (fold (reconcile_run accepts) rs s))) i"
proof (induction rs arbitrary: s)
  case (Cons q rs)
  have "published_order (fw_runs (fst s)) i \<le> published_order (fw_runs (fst (reconcile_run accepts q s))) i"
    by (simp add: reconcile_run_fst)
  from order_trans[OF this Cons[of "reconcile_run accepts q s"]] show ?case by simp
qed simp

lemma fold_reconcile_result:
  "fw_plans (fst (fold (reconcile_result accepts) xs s)) = fw_plans (fst s)"
  "fw_runs (fst (fold (reconcile_result accepts) xs s)) = fw_runs (fst s)"
  "re_results (fw_results (fst (fold (reconcile_result accepts) xs s))) = re_results (fw_results (fst s))"
  "i \<in> re_published (fw_results (fst s)) \<Longrightarrow>
     i \<in> re_published (fw_results (fst (fold (reconcile_result accepts) xs s)))"
  "i \<in> re_captured (fw_results (fst s)) \<Longrightarrow>
     i \<in> re_captured (fw_results (fst (fold (reconcile_result accepts) xs s)))"
  by (induction xs arbitrary: s) auto

text \<open>When the publisher accepts everything, each selected item is settled.\<close>

lemma plans_settled:
  assumes all: "\<And>e. accepts e" and p: "p \<in> set ps" "dget (ps_plans (fw_plans (fst s))) (pl_id p) \<noteq> None"
  shows "pl_version p \<le> published_version (fw_plans (fst (fold (reconcile_plan accepts) ps s))) (pl_id p)"
  using p
proof (induction ps arbitrary: s)
  case (Cons q ps)
  show ?case
  proof (cases "p \<in> set ps")
    case True
    with Cons show ?thesis by simp
  next
    case False
    with Cons.prems have "q = p" by simp
    then have "pl_version p \<le> published_version (fw_plans (fst (reconcile_plan accepts q s))) (pl_id p)"
      using Cons.prems(2) all by (auto simp: reconcile_plan_def published_version_mark split: prod.splits)
    then show ?thesis using order_trans[OF _ fold_reconcile_plan_mono] by simp
  qed
qed simp

lemma run_published:
  assumes "\<And>e. accepts e" "dget (rr_runs (fw_runs w)) (rn_id r) \<noteq> None"
  shows "run_source_order (rn_status r) \<le>
    published_order (fw_runs (snd (publish_run_transitions accepts r w))) (rn_id r)"
  using assms by (auto simp: publish_run_transitions_def Let_def published_order_mark)

lemma runs_settled:
  assumes all: "\<And>e. accepts e" and r: "r \<in> set rs" "dget (rr_runs (fw_runs (fst s))) (rn_id r) \<noteq> None"
  shows "run_source_order (rn_status r) \<le>
    published_order (fw_runs (fst (fold (reconcile_run accepts) rs s))) (rn_id r)"
  using r
proof (induction rs arbitrary: s)
  case (Cons q rs)
  show ?case
  proof (cases "r \<in> set rs")
    case True
    with Cons show ?thesis by (simp add: reconcile_run_fst)
  next
    case False
    with Cons.prems have "q = r" by simp
    then have "run_source_order (rn_status r) \<le>
        published_order (fw_runs (fst (reconcile_run accepts q s))) (rn_id r)"
      using run_published[of accepts "fst s" r] all Cons.prems(2) by (simp add: reconcile_run_fst)
    then show ?thesis using order_trans[OF _ fold_reconcile_run_mono] by simp
  qed
qed simp

lemma results_settled:
  assumes all: "\<And>e. accepts e" and x: "x \<in> set xs" "get_run (fw_runs (fst s)) (rs_run x) = Some r"
  shows "rs_id x \<in> re_captured (fw_results (fst (fold (reconcile_result accepts) xs s))) \<and>
    (result_matches_run x r \<and> rn_suppressed r \<or>
     rs_id x \<in> re_published (fw_results (fst (fold (reconcile_result accepts) xs s))))"
  using x
proof (induction xs arbitrary: s)
  case (Cons q xs)
  show ?case
  proof (cases "x \<in> set xs")
    case True
    with Cons show ?thesis by simp
  next
    case False
    with Cons.prems have "q = x" by simp
    then have "rs_id x \<in> re_captured (fw_results (fst (reconcile_result accepts q s))) \<and>
        (result_matches_run x r \<and> rn_suppressed r \<or>
         rs_id x \<in> re_published (fw_results (fst (reconcile_result accepts q s))))"
      using Cons.prems(2) all
      by (cases s) (auto simp: reconcile_result_def mark_result_published_def mark_turn_captured_def)
    then show ?thesis using fold_reconcile_result(4,5)[of _ "reconcile_result accepts q s"] by auto
  qed
qed simp

lemma reconcile_once_eq:
  assumes "reconcile_once accepts limit w = (w', n)"
  obtains s1 s2 where
    "s1 = fold (reconcile_plan accepts) (plan_formation_pending (fw_plans w) limit)
       (w, \<lparr>ct_plans = 0, ct_runs = 0, ct_results = 0, ct_turns = 0\<rparr>)"
    "s2 = fold (reconcile_run accepts) (run_formation_pending (fw_runs w) limit) s1"
    "(w', n) = fold (reconcile_result accepts) (result_formation_pending (fw_results w) limit) s2"
    "fw_runs (fst s1) = fw_runs w" "fw_plans (fst s2) = fw_plans (fst s1)"
    "rr_runs (fw_runs (fst s2)) = rr_runs (fw_runs w)"
proof -
  let ?s0 = "(w, \<lparr>ct_plans = 0, ct_runs = 0, ct_results = 0, ct_turns = 0\<rparr>)"
  define s1 where "s1 = fold (reconcile_plan accepts) (plan_formation_pending (fw_plans w) limit) ?s0"
  have 1: "fw_runs (fst s1) = fw_runs w" "fw_results (fst s1) = fw_results w"
    by (simp_all add: s1_def fold_reconcile_plan)
  define s2 where "s2 = fold (reconcile_run accepts) (run_formation_pending (fw_runs w) limit) s1"
  have 2: "fw_plans (fst s2) = fw_plans (fst s1)" "rr_runs (fw_runs (fst s2)) = rr_runs (fw_runs w)"
    "fw_results (fst s2) = fw_results w"
    by (simp_all add: s2_def fold_reconcile_run 1)
  have "(w', n) = fold (reconcile_result accepts) (result_formation_pending (fw_results w) limit) s2"
    using assms 1 2 by (simp add: reconcile_once_def Let_def flip: s1_def s2_def)
  with 1 2 show ?thesis by (intro that[OF s1_def s2_def]) simp_all
qed

text \<open>What a sweep has to hand over for one selected plan, run or result, in this order.\<close>

definition plan_events :: "plan \<Rightarrow> formation_event list" where
  "plan_events p = [Plan_Event \<lparr>pb_plan = p, pb_type = pl_formation p, pb_event = pl_last_event p,
     pb_version = source_version (pl_last_event p) (pl_version p), pb_order = pl_version p, pb_at = pl_updated p\<rparr>]"

definition run_events :: "run_store \<Rightarrow> agent_run \<Rightarrow> formation_event list" where
  "run_events s r =
     (if published_order s (rn_id r) = 0 then [Run_Event (created_state r) ''create''] else []) @
     (if max 1 (published_order s (rn_id r)) < run_source_order (rn_status r)
      then [Run_Event r (run_event_type (rn_status r))] else [])"

definition result_events :: "run_store \<Rightarrow> agent_result \<Rightarrow> formation_event list" where
  "result_events s x =
     (case get_run s (rs_run x) of
        None \<Rightarrow> []
      | Some r \<Rightarrow>
          if result_matches_run x r then (if rn_suppressed r then [] else [Result_Event x r]) @ [Turn_Event r x] else [])"

lemma fold_plan_log:
  "fw_log (fst (fold (reconcile_plan accepts) ps s)) = fw_log (fst s) @ filter accepts (concat (map plan_events ps))"
  by (induction ps arbitrary: s) (auto simp: reconcile_plan_def plan_events_def Let_def split: prod.splits)

lemma run_log:
  "fw_log (snd (publish_run_transitions accepts r w)) = fw_log w @ takeWhile accepts (run_events (fw_runs w) r)"
  by (auto simp: publish_run_transitions_def run_events_def Let_def max_def)

lemma run_order_other:
  "i \<noteq> rn_id r \<Longrightarrow> published_order (fw_runs (snd (publish_run_transitions accepts r w))) i = published_order (fw_runs w) i"
  by (auto simp: publish_run_transitions_def Let_def published_order_mark)

lemma fold_run_log:
  assumes "distinct (map rn_id rs)"
  shows "fw_log (fst (fold (reconcile_run accepts) rs s)) =
    fw_log (fst s) @ concat (map (takeWhile accepts \<circ> run_events (fw_runs (fst s))) rs)"
  using assms
proof (induction rs arbitrary: s)
  case (Cons r rs)
  let ?s = "reconcile_run accepts r s"
  have "run_events (fw_runs (fst ?s)) q = run_events (fw_runs (fst s)) q" if "q \<in> set rs" for q
  proof -
    have "rn_id q \<noteq> rn_id r" using Cons.prems imageI[OF that, of rn_id] by auto
    then show ?thesis by (simp add: run_events_def reconcile_run_fst run_order_other)
  qed
  then have same: "map (takeWhile accepts \<circ> run_events (fw_runs (fst ?s))) rs =
      map (takeWhile accepts \<circ> run_events (fw_runs (fst s))) rs"
    by simp
  have "fw_log (fst (fold (reconcile_run accepts) rs ?s)) =
      fw_log (fst ?s) @ concat (map (takeWhile accepts \<circ> run_events (fw_runs (fst ?s))) rs)"
    by (rule Cons.IH) (use Cons.prems in simp)
  also have "\<dots> = fw_log (fst ?s) @ concat (map (takeWhile accepts \<circ> run_events (fw_runs (fst s))) rs)"
    by (simp only: same)
  finally show ?case by (simp add: reconcile_run_fst run_log comp_def)
qed simp

lemma result_log:
  "fw_log (fst (reconcile_result accepts x s)) = fw_log (fst s) @ filter accepts (result_events (fw_runs (fst s)) x)"
  by (auto simp: reconcile_result_def result_events_def Let_def split: prod.splits option.splits)

lemma fold_result_log:
  "fw_log (fst (fold (reconcile_result accepts) xs s)) =
     fw_log (fst s) @ filter accepts (concat (map (result_events (fw_runs (fst s))) xs))"
  by (induction xs arbitrary: s) (simp_all add: result_log)

lemma result_events_runs: "rr_runs s' = rr_runs s \<Longrightarrow> result_events s' = result_events s"
  by (rule ext) (simp add: result_events_def get_run_def)

text \<open>
  C35: a sweep of the reconciler hands over everything it selects, and nothing else. What it publishes is,
  in this order, each selected plan; for each selected run its creation, unless published before, and its
  present state, unless that order is reached; and for each selected result that matches its stored run the
  result, unless the run is excluded from formation, and its turn. A refused publication is left out, and the
  present state of a run is not tried after its creation was refused. When none is refused, every selected
  plan ends up marked as published at its version, every selected run in its state, and every selected result
  whose run is stored is marked as captured, and as published unless its run is excluded; that includes a
  result that does not match its run, of which nothing is handed over. No plan, run or result is changed.
\<close>

theorem reconcile_settles:
  assumes sweep: "reconcile_once accepts limit w = (w', n)"
    and ids: "\<And>i p. dget (ps_plans (fw_plans w)) i = Some p \<Longrightarrow> pl_id p = i"
      "\<And>i r. dget (rr_runs (fw_runs w)) i = Some r \<Longrightarrow> rn_id r = i"
    and dicts: "dict_ok (ps_plans (fw_plans w))" "dict_ok (rr_runs (fw_runs w))"
  shows "fw_log w' = fw_log w @
      filter accepts (concat (map plan_events (plan_formation_pending (fw_plans w) limit))) @
      concat (map (takeWhile accepts \<circ> run_events (fw_runs w)) (run_formation_pending (fw_runs w) limit)) @
      filter accepts (concat (map (result_events (fw_runs w)) (result_formation_pending (fw_results w) limit))) \<and>
    ((\<forall>e. accepts e) \<longrightarrow>
      (\<forall>p\<in>set (plan_formation_pending (fw_plans w) limit).
        pl_version p \<le> published_version (fw_plans w') (pl_id p)) \<and>
      (\<forall>r\<in>set (run_formation_pending (fw_runs w) limit).
        run_source_order (rn_status r) \<le> published_order (fw_runs w') (rn_id r)) \<and>
      (\<forall>x\<in>set (result_formation_pending (fw_results w) limit). \<forall>r.
        get_run (fw_runs w) (rs_run x) = Some r \<longrightarrow> rs_id x \<in> re_captured (fw_results w') \<and>
          (result_matches_run x r \<and> rn_suppressed r \<or> rs_id x \<in> re_published (fw_results w')))) \<and>
    ps_plans (fw_plans w') = ps_plans (fw_plans w) \<and> rr_runs (fw_runs w') = rr_runs (fw_runs w) \<and>
    re_results (fw_results w') = re_results (fw_results w)"
proof -
  from sweep obtain s1 s2 where s1: "s1 = fold (reconcile_plan accepts)
      (plan_formation_pending (fw_plans w) limit)
      (w, \<lparr>ct_plans = 0, ct_runs = 0, ct_results = 0, ct_turns = 0\<rparr>)"
    and s2: "s2 = fold (reconcile_run accepts) (run_formation_pending (fw_runs w) limit) s1"
    and s3: "(w', n) = fold (reconcile_result accepts) (result_formation_pending (fw_results w) limit) s2"
    and eqs: "fw_runs (fst s1) = fw_runs w" "fw_plans (fst s2) = fw_plans (fst s1)"
      "rr_runs (fw_runs (fst s2)) = rr_runs (fw_runs w)"
    by (rule reconcile_once_eq)
  have w': "w' = fst (fold (reconcile_result accepts) (result_formation_pending (fw_results w) limit) s2)"
    using s3 by (metis fst_conv)
  have 3: "fw_plans w' = fw_plans (fst s2)" "fw_runs w' = fw_runs (fst s2)"
    by (simp_all add: w' fold_reconcile_result)
  have "filed rn_id (rr_runs (fw_runs w))" using ids(2) dicts(2) by (simp add: filed_def)
  then have "distinct (map rn_id (run_formation_pending (fw_runs w) limit))"
    by (simp only: run_formation_pending_def take_map[symmetric] distinct_take distinct_map_filter filed_distinct)
  then have log: "fw_log w' = fw_log w @
      filter accepts (concat (map plan_events (plan_formation_pending (fw_plans w) limit))) @
      concat (map (takeWhile accepts \<circ> run_events (fw_runs w)) (run_formation_pending (fw_runs w) limit)) @
      filter accepts (concat (map (result_events (fw_runs w)) (result_formation_pending (fw_results w) limit)))"
    using result_events_runs[OF eqs(3)] by (simp add: w' fold_result_log s2 fold_run_log s1 fold_plan_log eqs(1)[unfolded s1])
  have plans: "pl_version p \<le> published_version (fw_plans w') (pl_id p)"
    if all: "\<forall>e. accepts e" and p: "p \<in> set (plan_formation_pending (fw_plans w) limit)" for p
  proof -
    have "p \<in> set (dvalues (ps_plans (fw_plans w)))"
      using p by (auto simp: plan_formation_pending_def dest!: in_set_takeD)
    then have "dget (ps_plans (fw_plans w)) (pl_id p) \<noteq> None"
      using in_values_dget[OF dicts(1)] ids(1) by fastforce
    then show ?thesis
      using plans_settled[of accepts p _ "(w, _)", OF _ p] all by (simp add: 3 eqs s1)
  qed
  have runs: "run_source_order (rn_status r) \<le> published_order (fw_runs w') (rn_id r)"
    if all: "\<forall>e. accepts e" and r: "r \<in> set (run_formation_pending (fw_runs w) limit)" for r
  proof -
    have "r \<in> set (dvalues (rr_runs (fw_runs w)))"
      using r by (auto simp: run_formation_pending_def dest!: in_set_takeD)
    then have "dget (rr_runs (fw_runs (fst s1))) (rn_id r) \<noteq> None"
      using in_values_dget[OF dicts(2)] ids(2) by (fastforce simp: eqs)
    then show ?thesis using runs_settled[of accepts r _ s1, OF _ r] all by (simp add: 3 s2)
  qed
  have "rs_id x \<in> re_captured (fw_results w') \<and>
      (result_matches_run x r \<and> rn_suppressed r \<or> rs_id x \<in> re_published (fw_results w'))"
    if all: "\<forall>e. accepts e" and x: "x \<in> set (result_formation_pending (fw_results w) limit)"
      "get_run (fw_runs w) (rs_run x) = Some r" for x r
    using results_settled[of accepts x _ s2 r, OF _ x(1)] all x(2) eqs(3) by (simp add: w' get_run_def)
  moreover have "re_results (fw_results w') = re_results (fw_results w)"
    by (simp add: w' fold_reconcile_result s2 fold_reconcile_run s1 fold_reconcile_plan)
  moreover have "ps_plans (fw_plans w') = ps_plans (fw_plans w)" "rr_runs (fw_runs w') = rr_runs (fw_runs w)"
    by (simp_all add: 3 eqs s1 fold_reconcile_plan)
  ultimately show ?thesis using log plans runs by blast
qed

text \<open>
  A sweep that meets a pending run loses the end of the run. A pending run counts as the last
  of the three publication orders, so it is published twice as created and marked with that order;
  whatever state it reaches afterwards, it is never selected for publication again.
\<close>

theorem reconcile_loses_completion:
  assumes all: "\<And>e. accepts e" and r: "r \<in> set (run_formation_pending (fw_runs w) limit)"
    and p: "rn_status r = RunPending" "get_run (fw_runs w) (rn_id r) = Some r"
    and sweep: "reconcile_once accepts limit w = (w', n)"
    and later: "update_run r' (fw_runs w') = Inr (stored, rs)" "rn_id r' = rn_id r"
  shows "stored \<notin> set (run_formation_pending rs k) \<and> rn_status stored = rn_status r'"
proof -
  from sweep obtain s1 s2 where s2: "s2 = fold (reconcile_run accepts) (run_formation_pending (fw_runs w) limit) s1"
    and s3: "(w', n) = fold (reconcile_result accepts) (result_formation_pending (fw_results w) limit) s2"
    and eqs: "fw_runs (fst s1) = fw_runs w"
    by (rule reconcile_once_eq)
  have w': "fw_runs w' = fw_runs (fst s2)"
    using fold_reconcile_result(2) s3 by (metis fst_conv)
  have "run_source_order (rn_status r) \<le> published_order (fw_runs (fst s2)) (rn_id r)"
    unfolding s2 by (rule runs_settled[OF all r]) (use p(2) eqs in \<open>simp add: get_run_def\<close>)
  then have "3 \<le> published_order (fw_runs w') (rn_id r)" using p(1) w' by simp
  moreover have "rr_published rs = rr_published (fw_runs w')"
    "rn_id stored = rn_id r" "rn_status stored = rn_status r'"
    using later by (auto simp: update_run_def add_run_def ebind_eq_Inr validate_run_same
        split: option.splits if_splits)
  ultimately have "3 \<le> published_order rs (rn_id stored)" "rn_status stored = rn_status r'"
    by (simp_all add: published_order_def)
  moreover have "run_source_order st \<le> 3" for st by (cases st) simp_all
  ultimately show ?thesis
    by (auto simp: run_formation_pending_def dest!: in_set_takeD)
      (meson order.strict_trans1 not_less)
qed

subsection \<open>A concrete sweep\<close>

definition demo_pending_run :: agent_run where
  "demo_pending_run = \<lparr>rn_id = ''run1'', rn_request = None, rn_session = ''s'', rn_agent = ''ag'',
     rn_user = Some ''u'', rn_tenant = Some ''a'', rn_turn = None, rn_plan = None, rn_step = None,
     rn_status = RunPending, rn_invoker = ''delegated'', rn_delegated = True,
     rn_delegation_key = None, rn_version = 1, rn_sequence = 0, rn_deadline = None,
     rn_heartbeat = None, rn_terminal_event = None, rn_input = JObj [], rn_output = None,
     rn_error = None, rn_latency = None, rn_suppressed = False, rn_used_memory = [],
     rn_created = Some 1, rn_updated = Some 1\<rparr>"

definition demo_formation :: formation_world where
  "demo_formation = \<lparr>fw_plans = empty_plan_store,
     fw_runs = \<lparr>rr_runs = [(''run1'', demo_pending_run)], rr_published = []\<rparr>,
     fw_results = \<lparr>re_results = [], re_published = {}, re_captured = {}\<rparr>, fw_log = []\<rparr>"

lemma demo_formation_runs:
  "demo_pending_run \<in> set (run_formation_pending (fw_runs demo_formation) 5)"
  "get_run (fw_runs demo_formation) (rn_id demo_pending_run) = Some demo_pending_run"
  "update_run (demo_pending_run\<lparr>rn_status := RunCompleted\<rparr>)
     (fw_runs (fst (reconcile_once (\<lambda>_. True) 5 demo_formation))) =
   Inr (demo_pending_run\<lparr>rn_status := RunCompleted\<rparr>,
     \<lparr>rr_runs = [(''run1'', demo_pending_run\<lparr>rn_status := RunCompleted\<rparr>)],
      rr_published = [(''run1'', 3)]\<rparr>)"
  by code_simp+

lemma demo_formation_reads:
  "ps_plans (fw_plans demo_formation) = []" "rn_id demo_pending_run = ''run1''"
  "rr_runs (fw_runs demo_formation) = [(''run1'', demo_pending_run)]"
  by (simp_all add: demo_formation_def empty_plan_store_def demo_pending_run_def)

lemma reconcile_settles_witness:
  "let w = fst (reconcile_once (\<lambda>_. True) 5 demo_formation)
   in fw_log w = [Run_Event (created_state demo_pending_run) ''create'', Run_Event demo_pending_run ''create''] \<and>
      run_source_order RunPending \<le> published_order (fw_runs w) ''run1''"
proof -
  let ?w = "fst (reconcile_once (\<lambda>_. True) 5 demo_formation)"
  have sweep: "reconcile_once (\<lambda>_. True) 5 demo_formation = (?w, snd (reconcile_once (\<lambda>_. True) 5 demo_formation))"
    by simp
  have dicts: "dict_ok (ps_plans (fw_plans demo_formation))" "dict_ok (rr_runs (fw_runs demo_formation))"
    by (simp_all add: demo_formation_reads dict_ok_def)
  have plan_id: "pl_id p = i" if "dget (ps_plans (fw_plans demo_formation)) i = Some p" for i p
    using that by (simp add: demo_formation_reads)
  have run_id: "rn_id r = i" if "dget (rr_runs (fw_runs demo_formation)) i = Some r" for i r
    using that by (auto simp: demo_formation_reads split: if_splits)
  note settled = reconcile_settles[OF sweep plan_id run_id dicts]
  have pending: "plan_formation_pending (fw_plans demo_formation) 5 = []"
    "run_formation_pending (fw_runs demo_formation) 5 = [demo_pending_run]"
    "result_formation_pending (fw_results demo_formation) 5 = []" "fw_log demo_formation = []"
    "run_events (fw_runs demo_formation) demo_pending_run =
       [Run_Event (created_state demo_pending_run) ''create'', Run_Event demo_pending_run ''create'']"
    by code_simp+
  have "fw_log ?w = [Run_Event (created_state demo_pending_run) ''create'', Run_Event demo_pending_run ''create'']"
    using settled by (simp add: pending)
  moreover have "run_source_order (rn_status demo_pending_run) \<le> published_order (fw_runs ?w) (rn_id demo_pending_run)"
    using settled by (simp add: pending)
  moreover have "rn_status demo_pending_run = RunPending" "rn_id demo_pending_run = ''run1''" by code_simp+
  ultimately show ?thesis by (simp add: Let_def)
qed

lemma reconcile_loses_completion_witness:
  "run_formation_pending \<lparr>rr_runs = [(''run1'', demo_pending_run\<lparr>rn_status := RunCompleted\<rparr>)],
      rr_published = [(''run1'', 3)]\<rparr> 5 = [] \<and>
   demo_pending_run\<lparr>rn_status := RunCompleted\<rparr> \<notin> set (run_formation_pending
      \<lparr>rr_runs = [(''run1'', demo_pending_run\<lparr>rn_status := RunCompleted\<rparr>)],
       rr_published = [(''run1'', 3)]\<rparr> 5)"
proof -
  have "reconcile_once (\<lambda>_. True) 5 demo_formation =
      (fst (reconcile_once (\<lambda>_. True) 5 demo_formation),
       snd (reconcile_once (\<lambda>_. True) 5 demo_formation))" by simp
  from reconcile_loses_completion[OF TrueI demo_formation_runs(1) _ demo_formation_runs(2) this
      demo_formation_runs(3), of 5]
  have "demo_pending_run\<lparr>rn_status := RunCompleted\<rparr> \<notin> set (run_formation_pending
      \<lparr>rr_runs = [(''run1'', demo_pending_run\<lparr>rn_status := RunCompleted\<rparr>)],
       rr_published = [(''run1'', 3)]\<rparr> 5)"
    by (simp add: demo_pending_run_def)
  moreover have "run_formation_pending \<lparr>rr_runs =
      [(''run1'', demo_pending_run\<lparr>rn_status := RunCompleted\<rparr>)], rr_published = [(''run1'', 3)]\<rparr> 5 = []"
    by code_simp
  ultimately show ?thesis by simp
qed

end
