(* ===== verification/Agent_Registry.thy ===== *)
theory Agent_Registry
  imports Py_Text "HOL-Library.Multiset"
begin

text \<open>
  Agents: the identity of the caller (\<open>UserContext\<close> of \<open>app/schemas/common.py\<close>), the definition
  of an agent with its access policy (\<open>app/schemas/agents.py\<close>), the in-memory repository of
  definitions with its audit trail (\<open>MemoryAgentDefinitionRepository\<close> of
  \<open>app/repositories/memory.py\<close>), the registry file (\<open>app/repositories/file_registry.py\<close>) and the
  registry service (\<open>app/services/registry_service.py\<close>).
\<close>

subsection \<open>Users\<close>

record user_context =
  uc_id :: ident
  uc_roles :: "string list"
  uc_groups :: "string list"
  uc_entitlements :: "string list"
  uc_attributes :: "(string, json) dict"

text \<open>\<open>d.get(key)\<close> on a JSON object: \<open>None\<close> when the key is missing.\<close>

definition json_get :: "(string, json) dict \<Rightarrow> string \<Rightarrow> json" where
  "json_get d k = (case dget d k of None \<Rightarrow> JNull | Some v \<Rightarrow> v)"

definition user_tenant :: "user_context \<Rightarrow> string option" where
  "user_tenant u =
     (let a = json_get (uc_attributes u) ''tenant_id'';
          v = (if truthy a then a else json_get (uc_attributes u) ''tenant'')
      in if v = JNull then None else Some (py_str v))"

definition alnum_char :: "char \<Rightarrow> bool" where
  "alnum_char c \<longleftrightarrow>
     (let n = (of_char c :: nat) in 48 \<le> n \<and> n \<le> 57 \<or> 65 \<le> n \<and> n \<le> 90 \<or> 97 \<le> n \<and> n \<le> 122)"

definition safe_entitlement :: "string \<Rightarrow> bool" where
  "safe_entitlement s \<longleftrightarrow>
     s \<noteq> [] \<and> length s \<le> 128 \<and> alnum_char (hd s) \<and>
     list_all (\<lambda>c. alnum_char c \<or> c \<in> set ''._:/-'') (tl s)"

fun collect_entitlements :: "json list \<Rightarrow> string list \<Rightarrow> py_exn + string list" where
  "collect_entitlements [] acc = Inr (sort (remdups acc))"
| "collect_entitlements (JStr s # xs) acc =
     (let t = py_strip s
      in if t = [] then collect_entitlements xs acc
         else if \<not> safe_entitlement t
         then Inl (Value_Error ''entitlement contains an unsafe value'')
         else collect_entitlements xs (t # acc))"
| "collect_entitlements (_ # xs) acc = Inl (Value_Error ''entitlements must contain strings'')"

fun normalize_entitlements :: "json \<Rightarrow> py_exn + string list" where
  "normalize_entitlements JNull = Inr []"
| "normalize_entitlements (JList xs) = collect_entitlements xs []"
| "normalize_entitlements _ = Inl (Value_Error ''entitlements must be an array'')"

subsection \<open>Access policies\<close>

record access_policy =
  ap_allow_roles :: "string list"
  ap_allow_groups :: "string list"
  ap_allow_tenants :: "string list"
  ap_deny_roles :: "string list"
  ap_deny_groups :: "string list"
  ap_deny_tenants :: "string list"
  ap_any_entitlements :: "string list"
  ap_required_attributes :: "(string, json) dict"

definition meets :: "string list \<Rightarrow> string list \<Rightarrow> bool" where
  "meets xs ys \<longleftrightarrow> list_ex (\<lambda>x. x \<in> set ys) xs"

definition policy_allows :: "access_policy \<Rightarrow> user_context \<Rightarrow> bool" where
  "policy_allows p u =
     (let tenant = user_tenant u in
      if meets (uc_roles u) (ap_deny_roles p) then False
      else if meets (uc_groups u) (ap_deny_groups p) then False
      else if str_set tenant \<and> the tenant \<in> set (ap_deny_tenants p) then False
      else if ap_allow_roles p \<noteq> [] \<and> \<not> meets (uc_roles u) (ap_allow_roles p) then False
      else if ap_allow_groups p \<noteq> [] \<and> \<not> meets (uc_groups u) (ap_allow_groups p) then False
      else if ap_allow_tenants p \<noteq> [] \<and> ''*'' \<notin> set (ap_allow_tenants p) \<and>
              (\<not> str_set tenant \<or> the tenant \<notin> set (ap_allow_tenants p)) then False
      else if ap_any_entitlements p \<noteq> [] \<and> \<not> meets (uc_entitlements u) (ap_any_entitlements p)
      then False
      else list_all (\<lambda>(k, expected). py_eq (json_get (uc_attributes u) k) expected)
             (ap_required_attributes p))"

subsection \<open>Definitions of agents\<close>

datatype agent_type =
  Http_Agent | Local_Function | Mock_Agent | Workflow | Provider_Platform | Ui_Handoff

record trigger_spec =
  tg_keywords :: "string list"
  tg_positive :: "string list"
  tg_negative :: "string list"

record schema_contract =
  sc_type :: string
  sc_required :: "string list"
  sc_properties :: "(string, json) dict"

record invocation_spec =
  is_type :: agent_type
  is_config :: json
  is_provider :: json

record ui_handoff_spec =
  uh_mode :: string
  uh_route :: "string option"
  uh_params :: json

datatype retrieval_mode = Retrieval_Disabled | Prefetch | Controlled_Retrieval

record retrieval_spec =
  ks_mode :: retrieval_mode
  ks_required :: bool
  ks_sources :: "string list"
  ks_tags :: "string list"
  ks_max_items :: nat
  ks_controlled :: "json option"
  ks_metadata :: json

record agent_context_spec =
  cs_memory :: retrieval_spec
  cs_knowledge :: retrieval_spec
  cs_metadata :: json

record agent_definition =
  ad_id :: ident
  ad_name :: string
  ad_description :: string
  ad_agent_version :: "string option"
  ad_revision :: nat
  ad_enabled :: bool
  ad_type :: agent_type
  ad_capabilities :: "string list"
  ad_domain :: "string option"
  ad_tags :: "string list"
  ad_trigger :: trigger_spec
  ad_policy :: access_policy
  ad_required_inputs :: "string list"
  ad_optional_inputs :: "string list"
  ad_input_schema :: schema_contract
  ad_output_schema :: schema_contract
  ad_invocation :: invocation_spec
  ad_ui :: ui_handoff_spec
  ad_context :: agent_context_spec
  ad_priority :: int
  ad_metadata :: json
  ad_source :: string
  ad_created :: "time option"
  ad_updated :: "time option"

text \<open>The two context specifications share one record; \<open>ks_required\<close> is the knowledge requirement.\<close>

definition validate_memory_context :: "retrieval_spec \<Rightarrow> py_exn + retrieval_spec" where
  "validate_memory_context s =
     (if ks_mode s = Retrieval_Disabled then Inr s
      else if ks_mode s = Controlled_Retrieval \<and> ks_controlled s = None
      then Inl (Value_Error ''controlled_retrieval config is required'') else Inr s)"

definition validate_knowledge_context :: "retrieval_spec \<Rightarrow> py_exn + retrieval_spec" where
  "validate_knowledge_context s =
     (if ks_mode s = Retrieval_Disabled then
        (if ks_required s then Inl (Value_Error ''disabled knowledge mode cannot be required'')
         else Inr s)
      else if ks_mode s = Controlled_Retrieval \<and> ks_controlled s = None
      then Inl (Value_Error ''controlled_retrieval config is required'') else Inr s)"

definition validate_agent_definition :: "agent_definition \<Rightarrow> py_exn + agent_definition" where
  "validate_agent_definition d =
     (if is_type (ad_invocation d) \<noteq> ad_type d
      then Inl (Value_Error ''invocation.type must match AgentDefinition.type'')
      else
        let schema = ad_input_schema d;
            missing = filter (\<lambda>x. x \<notin> set (sc_required schema)) (ad_required_inputs d);
            d1 = d\<lparr>ad_input_schema := schema\<lparr>sc_required := sc_required schema @ missing\<rparr>\<rparr>
        in if ad_type d = Ui_Handoff \<and> uh_mode (ad_ui d) \<noteq> ''none'' \<and> \<not> str_set (uh_route (ad_ui d))
           then Inl (Value_Error ''ui_handoff.route is required'') else Inr d1)"

definition available_to :: "agent_definition \<Rightarrow> user_context \<Rightarrow> bool" where
  "available_to d u \<longleftrightarrow> ad_enabled d \<and> policy_allows (ad_policy d) u"

record candidate_agent =
  cd_id :: ident
  cd_name :: string
  cd_description :: string
  cd_domain :: "string option"
  cd_capabilities :: "string list"
  cd_trigger :: trigger_spec
  cd_required_inputs :: "string list"
  cd_priority :: int

definition to_candidate :: "agent_definition \<Rightarrow> candidate_agent" where
  "to_candidate d =
     \<lparr>cd_id = ad_id d, cd_name = ad_name d, cd_description = ad_description d,
      cd_domain = ad_domain d, cd_capabilities = ad_capabilities d, cd_trigger = ad_trigger d,
      cd_required_inputs = ad_required_inputs d, cd_priority = ad_priority d\<rparr>"

text \<open>\<open>sorted(values, key=lambda item: (-item.priority, item.agent_id))\<close>, which is stable.\<close>

definition by_priority :: "agent_definition list \<Rightarrow> agent_definition list" where
  "by_priority ds = sort_key (\<lambda>d. (- ad_priority d, ad_id d)) ds"

subsection \<open>The repository of definitions\<close>

datatype mutation = Mutation_Create | Mutation_Update | Mutation_Enable | Mutation_Disable
  | Mutation_Delete

record mutation_command =
  mc_operation :: mutation
  mc_agent :: ident
  mc_actor :: ident
  mc_source :: string
  mc_expected :: nat
  mc_definition :: "agent_definition option"
  mc_revision_id :: ident
  mc_created :: time

record 'd audit_record =
  au_revision_id :: ident
  au_agent :: ident
  au_revision :: nat
  au_operation :: mutation
  au_operator :: ident
  au_source :: string
  au_before :: "'d option"
  au_after :: "'d option"
  au_created :: time

record 'd agent_repository =
  rg_agents :: "(ident, agent_definition) dict"
  rg_audit :: "'d audit_record list"

text \<open>\<open>RegistryMutationCommand.__post_init__\<close>.\<close>

definition mutation_ok :: "mutation_command \<Rightarrow> py_exn + unit" where
  "mutation_ok c =
     (if mc_agent c = [] \<or> mc_actor c = [] \<or> mc_source c = []
      then Inl (Value_Error ''registry mutation identity fields are required'')
      else if mc_operation c \<in> {Mutation_Create, Mutation_Update} then
        (if (case mc_definition c of None \<Rightarrow> True | Some d \<Rightarrow> ad_id d \<noteq> mc_agent c)
         then Inl (Value_Error ''registry mutation definition must match agent_id'')
         else if mc_operation c = Mutation_Create \<and> mc_expected c \<noteq> 0
         then Inl (Value_Error ''create requires expected_revision=0'') else Inr ())
      else if mc_definition c \<noteq> None
      then Inl (Value_Error ''definition is only valid for create or update'') else Inr ())"

definition repository_list :: "bool \<Rightarrow> 'd agent_repository \<Rightarrow> agent_definition list" where
  "repository_list enabled_only s =
     by_priority (filter (\<lambda>d. enabled_only \<longrightarrow> ad_enabled d) (dvalues (rg_agents s)))"

definition repository_get :: "'d agent_repository \<Rightarrow> ident \<Rightarrow> agent_definition option" where
  "repository_get s i = dget (rg_agents s) i"

definition revision_of :: "agent_definition option \<Rightarrow> nat" where
  "revision_of d = (case d of None \<Rightarrow> 0 | Some x \<Rightarrow> ad_revision x)"

definition repository_upsert ::
    "agent_definition \<Rightarrow> nat option \<Rightarrow> 'd agent_repository \<Rightarrow>
     py_exn + agent_definition \<times> 'd agent_repository" where
  "repository_upsert d expected s =
     (let revision = revision_of (dget (rg_agents s) (ad_id d))
      in if expected \<noteq> None \<and> expected \<noteq> Some revision
         then Inl (Registry_Version_Conflict ''Agent revision conflict'')
         else let saved = d\<lparr>ad_revision := revision + 1\<rparr>
              in Inr (saved, s\<lparr>rg_agents := dput (ad_id d) saved (rg_agents s)\<rparr>))"

definition repository_set_enabled ::
    "ident \<Rightarrow> bool \<Rightarrow> nat option \<Rightarrow> 'd agent_repository \<Rightarrow>
     py_exn + agent_definition option \<times> 'd agent_repository" where
  "repository_set_enabled i enabled expected s =
     (case dget (rg_agents s) i of
        None \<Rightarrow> Inr (None, s)
      | Some d \<Rightarrow>
          if expected \<noteq> None \<and> expected \<noteq> Some (ad_revision d)
          then Inl (Registry_Version_Conflict ''Agent revision conflict'')
          else let updated = d\<lparr>ad_enabled := enabled, ad_revision := ad_revision d + 1\<rparr>
               in Inr (Some updated, s\<lparr>rg_agents := dput i updated (rg_agents s)\<rparr>))"

definition repository_delete ::
    "ident \<Rightarrow> nat option \<Rightarrow> 'd agent_repository \<Rightarrow> py_exn + bool \<times> 'd agent_repository" where
  "repository_delete i expected s =
     (case dget (rg_agents s) i of
        None \<Rightarrow> Inr (False, s)
      | Some d \<Rightarrow>
          if expected \<noteq> None \<and> expected \<noteq> Some (ad_revision d)
          then Inl (Registry_Version_Conflict ''Agent revision conflict'')
          else Inr (True, s\<lparr>rg_agents := dpop i (rg_agents s)\<rparr>))"

text \<open>
  The new definition of a mutation; \<open>None\<close> in the right side is a deletion. A create or update
  command carries a definition (\<open>mutation_ok\<close>), the missing case is Python's \<open>AttributeError\<close>.
\<close>

definition mutated ::
    "mutation_command \<Rightarrow> agent_definition option \<Rightarrow> py_exn + agent_definition option" where
  "mutated c before =
     (let conflict = Inl (Registry_Version_Conflict ''Agent revision conflict'');
          next_revision = revision_of before + 1
      in if revision_of before \<noteq> mc_expected c then conflict
         else case mc_operation c of
           Mutation_Create \<Rightarrow>
             (if before \<noteq> None then conflict
              else case mc_definition c of
                None \<Rightarrow> Inl Attribute_Error
              | Some d \<Rightarrow> Inr (Some (d\<lparr>ad_revision := next_revision\<rparr>)))
         | Mutation_Update \<Rightarrow>
             (if before = None then conflict
              else case mc_definition c of
                None \<Rightarrow> Inl Attribute_Error
              | Some d \<Rightarrow> Inr (Some (d\<lparr>ad_revision := next_revision\<rparr>)))
         | Mutation_Enable \<Rightarrow>
             (case before of
                None \<Rightarrow> conflict
              | Some d \<Rightarrow> Inr (Some (d\<lparr>ad_enabled := True, ad_revision := next_revision\<rparr>)))
         | Mutation_Disable \<Rightarrow>
             (case before of
                None \<Rightarrow> conflict
              | Some d \<Rightarrow> Inr (Some (d\<lparr>ad_enabled := False, ad_revision := next_revision\<rparr>)))
         | Mutation_Delete \<Rightarrow> (case before of None \<Rightarrow> conflict | Some d \<Rightarrow> Inr None))"

text \<open>
  \<open>dump\<close> stands for \<open>redact_value(definition.model_dump(mode="json"))\<close>, the form in which the
  audit trail keeps a definition.
\<close>

definition audit_of ::
    "(agent_definition \<Rightarrow> 'd) \<Rightarrow> mutation_command \<Rightarrow> agent_definition option \<Rightarrow>
     agent_definition option \<Rightarrow> 'd audit_record" where
  "audit_of dump c before after =
     \<lparr>au_revision_id = mc_revision_id c, au_agent = mc_agent c,
      au_revision = (case after of None \<Rightarrow> revision_of before + 1 | Some d \<Rightarrow> ad_revision d),
      au_operation = mc_operation c, au_operator = mc_actor c, au_source = mc_source c,
      au_before = map_option dump before, au_after = map_option dump after,
      au_created = mc_created c\<rparr>"

definition repository_mutate ::
    "(agent_definition \<Rightarrow> 'd) \<Rightarrow> mutation_command \<Rightarrow> 'd agent_repository \<Rightarrow>
     py_exn + (agent_definition option \<times> agent_definition option \<times> 'd audit_record) \<times>
       'd agent_repository" where
  "repository_mutate dump c s =
     (let before = dget (rg_agents s) (mc_agent c)
      in ebind (mutated c before) (\<lambda>after.
         let audit = audit_of dump c before after;
             agents = (case after of None \<Rightarrow> dpop (mc_agent c) (rg_agents s)
                                   | Some d \<Rightarrow> dput (mc_agent c) d (rg_agents s))
         in Inr ((before, after, audit),
                 s\<lparr>rg_agents := agents, rg_audit := rg_audit s @ [audit]\<rparr>)))"

subsection \<open>The registry file\<close>

text \<open>
  The parsed file: \<open>None\<close> for a missing file or a file without a list of agents (both raise), then
  each item as pydantic leaves it; \<open>None\<close> is an item that is no object.
\<close>

fun load_items ::
    "ident set \<Rightarrow> (py_exn + agent_definition) option list \<Rightarrow> py_exn + agent_definition list" where
  "load_items seen [] = Inr []"
| "load_items seen (None # xs) = Inl (Registry_Error ''Each registry item must be an object'')"
| "load_items seen (Some (Inl e) # xs) = Inl e"
| "load_items seen (Some (Inr d) # xs) =
     (if ad_id d \<in> seen then Inl (Registry_Error ''Duplicate agent_id in registry file'')
      else ebind (load_items (insert (ad_id d) seen) xs) (\<lambda>ds. Inr (d\<lparr>ad_source := ''file''\<rparr> # ds)))"

definition load_file ::
    "(py_exn + agent_definition) option list option \<Rightarrow> py_exn + agent_definition list" where
  "load_file items =
     (case items of
        None \<Rightarrow> Inl (Registry_Error ''Registry file not found'')
      | Some xs \<Rightarrow> load_items {} xs)"

subsection \<open>The registry service\<close>

datatype registry_status = Registry_Ok | Registry_Degraded | Registry_Failed

datatype registry_backend = Backend_File | Backend_Database | Backend_Hybrid

datatype registry_source = Source_None | Source_File | Source_Database

record registry_state =
  gs_status :: registry_status
  gs_source :: registry_source
  gs_agents :: "agent_definition list"

definition initial_registry :: registry_state where
  "initial_registry = \<lparr>gs_status = Registry_Failed, gs_source = Source_None, gs_agents = []\<rparr>"

text \<open>
  Loading. \<open>file\<close> is the outcome of reading the registry file and \<open>db\<close> that of listing the
  definitions of the repository, where \<open>External_Error\<close> is a \<open>SQLAlchemyError\<close> or an \<open>OSError\<close>.
  A function returns its outcome and the state it leaves behind.
\<close>

definition load_registry_file ::
    "registry_status \<Rightarrow> py_exn + agent_definition list \<Rightarrow> registry_state \<Rightarrow>
     (py_exn + unit) \<times> registry_state" where
  "load_registry_file status file g =
     (case file of
        Inl e \<Rightarrow> (Inl e, g)
      | Inr ds \<Rightarrow> (Inr (), \<lparr>gs_status = status, gs_source = Source_File, gs_agents = ds\<rparr>))"

fun is_external :: "py_exn \<Rightarrow> bool" where
  "is_external (External_Error _) = True"
| "is_external _ = False"

fun is_registry_error :: "py_exn \<Rightarrow> bool" where
  "is_registry_error (Registry_Error _) = True"
| "is_registry_error (Registry_Unavailable _) = True"
| "is_registry_error (Registry_Version_Conflict _) = True"
| "is_registry_error _ = False"

definition load_registry_database ::
    "bool \<Rightarrow> bool \<Rightarrow> py_exn + agent_definition list \<Rightarrow> py_exn + agent_definition list \<Rightarrow>
     registry_state \<Rightarrow> (py_exn + unit) \<times> registry_state" where
  "load_registry_database required fallback db file g =
     (case db of
        Inl e \<Rightarrow>
          (if is_external e \<and> required
           then (Inl (Registry_Unavailable ''Database registry is unavailable''),
                 \<lparr>gs_status = Registry_Failed, gs_source = Source_Database, gs_agents = []\<rparr>)
           else (Inl e, g))
      | Inr ds \<Rightarrow>
          if ds = [] \<and> fallback then load_registry_file Registry_Degraded file g
          else (Inr (), \<lparr>gs_status = Registry_Ok, gs_source = Source_Database, gs_agents = ds\<rparr>))"

fun caught_by_hybrid :: "py_exn \<Rightarrow> bool" where
  "caught_by_hybrid (Registry_Unavailable _) = True"
| "caught_by_hybrid e = is_external e"

definition load_registry_hybrid ::
    "bool \<Rightarrow> py_exn + agent_definition list \<Rightarrow> py_exn + agent_definition list \<Rightarrow> registry_state \<Rightarrow>
     (py_exn + unit) \<times> registry_state" where
  "load_registry_hybrid fallback db file g =
     (case load_registry_database False fallback db file g of
        (Inr _, g') \<Rightarrow> (Inr (), g')
      | (Inl e, g') \<Rightarrow>
          if \<not> caught_by_hybrid e then (Inl e, g')
          else case file of
            Inr ds \<Rightarrow>
              (Inr (), \<lparr>gs_status = Registry_Degraded, gs_source = Source_File, gs_agents = ds\<rparr>)
          | Inl e2 \<Rightarrow>
              if is_registry_error e2 then (Inl e2, initial_registry) else (Inl e2, g'))"

text \<open>
  The service over the in-memory repository. \<open>rw_down\<close> is the exception that listing the
  repository raises, if it does; \<open>rw_file\<close> is the parsed registry file.
\<close>

record registry_config =
  rc_backend :: registry_backend
  rc_fallback :: bool
  rc_down :: "py_exn option"
  rc_file :: "(py_exn + agent_definition) option list option"

record 'd registry_world =
  rw_repository :: "'d agent_repository"
  rw_state :: registry_state

definition load_registry ::
    "registry_config \<Rightarrow> 'd registry_world \<Rightarrow> (py_exn + unit) \<times> 'd registry_world" where
  "load_registry cfg w =
     (let db = (case rc_down cfg of Some e \<Rightarrow> Inl e
                                  | None \<Rightarrow> Inr (repository_list False (rw_repository w)));
          file = load_file (rc_file cfg);
          (res, g) = (case rc_backend cfg of
             Backend_File \<Rightarrow> load_registry_file Registry_Ok file (rw_state w)
           | Backend_Database \<Rightarrow> load_registry_database True (rc_fallback cfg) db file (rw_state w)
           | Backend_Hybrid \<Rightarrow> load_registry_hybrid (rc_fallback cfg) db file (rw_state w))
      in (res, w\<lparr>rw_state := g\<rparr>))"

definition list_definitions ::
    "registry_config \<Rightarrow> bool \<Rightarrow> 'd registry_world \<Rightarrow>
     (py_exn + agent_definition list) \<times> 'd registry_world" where
  "list_definitions cfg enabled_only w =
     (case (if gs_agents (rw_state w) = [] then load_registry cfg w else (Inr (), w)) of
        (Inl e, w') \<Rightarrow> (Inl e, w')
      | (Inr _, w') \<Rightarrow>
          (Inr (by_priority (filter (\<lambda>d. enabled_only \<longrightarrow> ad_enabled d) (gs_agents (rw_state w')))),
           w'))"

definition get_definition ::
    "registry_config \<Rightarrow> ident \<Rightarrow> 'd registry_world \<Rightarrow>
     (py_exn + agent_definition option) \<times> 'd registry_world" where
  "get_definition cfg i w =
     (if gs_source (rw_state w) = Source_Database
      then (Inr (repository_get (rw_repository w) i), w)
      else case list_definitions cfg False w of
        (Inl e, w') \<Rightarrow> (Inl e, w')
      | (Inr ds, w') \<Rightarrow> (Inr (find (\<lambda>d. ad_id d = i) ds), w'))"

definition available_definitions ::
    "registry_config \<Rightarrow> user_context \<Rightarrow> 'd registry_world \<Rightarrow>
     (py_exn + agent_definition list) \<times> 'd registry_world" where
  "available_definitions cfg u w =
     (case list_definitions cfg True w of
        (Inl e, w') \<Rightarrow> (Inl e, w')
      | (Inr ds, w') \<Rightarrow> (Inr (filter (\<lambda>d. available_to d u) ds), w'))"

definition available_for_user ::
    "registry_config \<Rightarrow> user_context \<Rightarrow> 'd registry_world \<Rightarrow>
     (py_exn + ident list \<times> candidate_agent list \<times> registry_source) \<times> 'd registry_world" where
  "available_for_user cfg u w =
     (case available_definitions cfg u w of
        (Inl e, w') \<Rightarrow> (Inl e, w')
      | (Inr ds, w') \<Rightarrow> (Inr (map ad_id ds, map to_candidate ds, gs_source (rw_state w')), w'))"

text \<open>Every change of the repository is followed by a reload, whose exception the caller sees.\<close>

definition change_registry ::
    "registry_config \<Rightarrow> ('d agent_repository \<Rightarrow> py_exn + 'r \<times> 'd agent_repository) \<Rightarrow>
     'd registry_world \<Rightarrow> (py_exn + 'r) \<times> 'd registry_world" where
  "change_registry cfg change w =
     (if rc_backend cfg = Backend_File
      then (Inl (Registry_Error ''File registry backend is read-only for CRUD operations''), w)
      else case change (rw_repository w) of
        Inl e \<Rightarrow> (Inl e, w)
      | Inr (r, s) \<Rightarrow>
          (case load_registry cfg (w\<lparr>rw_repository := s\<rparr>) of
             (Inl e, w') \<Rightarrow> (Inl e, w')
           | (Inr _, w') \<Rightarrow> (Inr r, w')))"

definition upsert_definition where
  "upsert_definition cfg d expected w = change_registry cfg (repository_upsert d expected) w"

definition set_definition_enabled where
  "set_definition_enabled cfg i enabled expected w =
     change_registry cfg (repository_set_enabled i enabled expected) w"

definition delete_definition where
  "delete_definition cfg i expected w = change_registry cfg (repository_delete i expected) w"

definition mutate_definition where
  "mutate_definition dump cfg c w = change_registry cfg (repository_mutate dump c) w"

subsection \<open>Properties\<close>

lemma meets_iff: "meets xs ys \<longleftrightarrow> set xs \<inter> set ys \<noteq> {}"
  by (auto simp: meets_def list_ex_iff)

text \<open>The access decision in words: nothing the user is denied, every restriction is met.\<close>

definition policy_spec :: "access_policy \<Rightarrow> user_context \<Rightarrow> bool" where
  "policy_spec p u \<longleftrightarrow>
     set (uc_roles u) \<inter> set (ap_deny_roles p) = {} \<and>
     set (uc_groups u) \<inter> set (ap_deny_groups p) = {} \<and>
     (\<forall>t. user_tenant u = Some t \<and> t \<noteq> [] \<longrightarrow> t \<notin> set (ap_deny_tenants p)) \<and>
     (ap_allow_roles p = [] \<or> set (uc_roles u) \<inter> set (ap_allow_roles p) \<noteq> {}) \<and>
     (ap_allow_groups p = [] \<or> set (uc_groups u) \<inter> set (ap_allow_groups p) \<noteq> {}) \<and>
     (ap_allow_tenants p = [] \<or> ''*'' \<in> set (ap_allow_tenants p) \<or>
        (\<exists>t. user_tenant u = Some t \<and> t \<noteq> [] \<and> t \<in> set (ap_allow_tenants p))) \<and>
     (ap_any_entitlements p = [] \<or> set (uc_entitlements u) \<inter> set (ap_any_entitlements p) \<noteq> {}) \<and>
     (\<forall>(k, v)\<in>set (ap_required_attributes p). py_eq (json_get (uc_attributes u) k) v)"

lemma policy_allows_iff: "policy_allows p u \<longleftrightarrow> policy_spec p u"
  unfolding policy_allows_def policy_spec_def Let_def meets_iff list_all_iff
  by (cases "user_tenant u"; auto)

text \<open>
  C33: the agents offered to a user are exactly those the policies grant. The listing contains every
  loaded definition that is enabled, whose policy denies none of the user's roles and groups nor
  the tenant, and whose every allow list and required attribute the user meets, and nothing else;
  each definition occurs as often as it was loaded, in descending priority and then by identifier.
\<close>

theorem available_agents_correct:
  assumes "available_definitions cfg u w = (Inr ds, w')"
  shows "mset ds = filter_mset (\<lambda>d. ad_enabled d \<and> policy_spec (ad_policy d) u)
           (mset (gs_agents (rw_state w'))) \<and>
    sorted_wrt (\<lambda>a b. (- ad_priority a, ad_id a) \<le> (- ad_priority b, ad_id b)) ds"
proof -
  have ds: "ds = filter (\<lambda>d. available_to d u) (by_priority (filter ad_enabled (gs_agents (rw_state w'))))"
    using assms by (auto simp: available_definitions_def list_definitions_def
        split: prod.splits sum.splits)
  have "sorted_wrt (\<lambda>a b. (- ad_priority a, ad_id a) \<le> (- ad_priority b, ad_id b))
      (by_priority (filter ad_enabled (gs_agents (rw_state w'))))"
    using sorted_sort_key[of "\<lambda>d. (- ad_priority d, ad_id d)"]
    by (simp add: by_priority_def sorted_map)
  then show ?thesis
    by (simp add: ds by_priority_def mset_filter filter_filter_mset available_to_def
        policy_allows_iff sorted_wrt_filter conj_commute)
qed

text \<open>
  The audit trail of one agent, replayed: each record must take up the state and the revision the
  one before left, where a deletion leaves no definition and revision 0.
\<close>

fun replay_trail :: "'d option \<Rightarrow> nat \<Rightarrow> 'd audit_record list \<Rightarrow> ('d option \<times> nat) option" where
  "replay_trail state n [] = Some (state, n)"
| "replay_trail state n (x # xs) =
     (if au_before x = state \<and> au_revision x = n + 1
      then replay_trail (au_after x) (if au_after x = None then 0 else n + 1) xs else None)"

definition trail :: "ident \<Rightarrow> 'd agent_repository \<Rightarrow> 'd audit_record list" where
  "trail i s = filter (\<lambda>x. au_agent x = i) (rg_audit s)"

text \<open>
  The histories of the repository under all its writers. \<open>upsert\<close>, \<open>set_enabled\<close> and \<open>delete\<close> write
  no record; the set holds the agents one of them was called for.
\<close>

inductive repository_history ::
    "(agent_definition \<Rightarrow> 'd) \<Rightarrow> ident set \<Rightarrow> 'd agent_repository \<Rightarrow> bool" for dump where
  empty: "repository_history dump {} \<lparr>rg_agents = [], rg_audit = []\<rparr>"
| mutate: "repository_history dump u s \<Longrightarrow> mutation_ok c = Inr () \<Longrightarrow>
    repository_mutate dump c s = Inr (r, s') \<Longrightarrow> repository_history dump u s'"
| upsert: "repository_history dump u s \<Longrightarrow> repository_upsert d expected s = Inr (x, s') \<Longrightarrow>
    repository_history dump (insert (ad_id d) u) s'"
| set_enabled: "repository_history dump u s \<Longrightarrow> repository_set_enabled k enabled expected s = Inr (y, s') \<Longrightarrow>
    repository_history dump (insert k u) s'"
| delete: "repository_history dump u s \<Longrightarrow> repository_delete k expected s = Inr (b, s') \<Longrightarrow>
    repository_history dump (insert k u) s'"

lemma unaudited_write:
  "repository_upsert d expected s = Inr (x, s') \<Longrightarrow> rg_audit s' = rg_audit s \<and>
     rg_agents s' = dput (ad_id d) x (rg_agents s) \<and> ad_id x = ad_id d \<and>
     ad_revision x = revision_of (dget (rg_agents s) (ad_id d)) + 1"
  "repository_set_enabled k enabled expected s = Inr (y, s') \<Longrightarrow> rg_audit s' = rg_audit s \<and>
     (rg_agents s' = rg_agents s \<or> (\<exists>old. dget (rg_agents s) k = Some old \<and>
        rg_agents s' = dput k (old\<lparr>ad_enabled := enabled, ad_revision := ad_revision old + 1\<rparr>) (rg_agents s)))"
  "repository_delete k expected s = Inr (b, s') \<Longrightarrow> rg_audit s' = rg_audit s \<and>
     (rg_agents s' = rg_agents s \<or> rg_agents s' = dpop k (rg_agents s))"
  by (auto simp: repository_upsert_def repository_set_enabled_def repository_delete_def Let_def
      split: if_splits option.splits)

lemma replay_trail_snoc:
  "replay_trail state n (xs @ [x]) =
     (case replay_trail state n xs of None \<Rightarrow> None | Some (b, k) \<Rightarrow> replay_trail b k [x])"
  by (induction state n xs rule: replay_trail.induct) auto

lemma mutated_Inr:
  assumes "mutated c before = Inr after" "mutation_ok c = Inr ()"
  shows "revision_of before = mc_expected c"
    "after = Some d \<Longrightarrow> ad_revision d = revision_of before + 1"
    "after = Some d \<Longrightarrow> (\<And>x. before = Some x \<Longrightarrow> ad_id x = mc_agent c) \<Longrightarrow> ad_id d = mc_agent c"
    "after = None \<Longrightarrow> mc_operation c = Mutation_Delete \<and> before \<noteq> None"
    "mc_operation c = Mutation_Create \<longleftrightarrow> before = None"
  using assms
  by (auto simp: mutated_def mutation_ok_def Let_def split: if_splits mutation.splits option.splits)

lemma repository_mutate_Inr:
  assumes "repository_mutate dump c s = Inr (r, s')" "mutation_ok c = Inr ()"
  obtains after where "mutated c (dget (rg_agents s) (mc_agent c)) = Inr after"
    "r = (dget (rg_agents s) (mc_agent c), after, audit_of dump c (dget (rg_agents s) (mc_agent c)) after)"
    "\<And>i. dget (rg_agents s') i = (if i = mc_agent c then after else dget (rg_agents s) i)"
    "rg_audit s' = rg_audit s @ [audit_of dump c (dget (rg_agents s) (mc_agent c)) after]"
proof -
  from assms(1) obtain after where a: "mutated c (dget (rg_agents s) (mc_agent c)) = Inr after"
    by (auto simp: repository_mutate_def Let_def ebind_eq_Inr)
  with assms(1) show ?thesis
    by (intro that[OF a]) (auto simp: repository_mutate_def Let_def split: option.splits)
qed

lemma unaudited_write_other:
  assumes "rg_audit s' = rg_audit s" "dget (rg_agents s') i = dget (rg_agents s) i"
    "replay_trail None 0 (trail i s) = Some (map_option dump (dget (rg_agents s) i), revision_of (dget (rg_agents s) i))"
  shows "replay_trail None 0 (trail i s') = Some (map_option dump (dget (rg_agents s') i), revision_of (dget (rg_agents s') i))"
  using assms by (simp add: trail_def)

text \<open>
  C34: the audit trail of an agent that is changed by audited mutations only is complete, whatever the other
  writers of the repository do to other agents. Replaying its records accounts for every change: each record
  starts from the definition the previous one left, raises the revision by one, and the last one describes
  exactly the definition that is stored now, with that revision; a deleted agent has no definition and its
  numbering restarts. Every agent is stored under its own identifier. Nothing is said of the trail of an
  agent that \<open>upsert\<close>, \<open>set_enabled\<close> or \<open>delete\<close> was called for: these write no record.
\<close>

theorem registry_audit_complete:
  assumes "repository_history dump u s"
  shows "(i \<notin> u \<longrightarrow> replay_trail None 0 (trail i s) =
      Some (map_option dump (dget (rg_agents s) i), revision_of (dget (rg_agents s) i))) \<and>
    (\<forall>d. dget (rg_agents s) i = Some d \<longrightarrow> ad_id d = i)"
  using assms
proof induction
  case empty
  show ?case by (simp add: trail_def revision_of_def)
next
  case (mutate u s c r s')
  from mutate(3,2) obtain after where m: "mutated c (dget (rg_agents s) (mc_agent c)) = Inr after"
    and s': "\<And>i. dget (rg_agents s') i = (if i = mc_agent c then after else dget (rg_agents s) i)"
    and a: "rg_audit s' = rg_audit s @ [audit_of dump c (dget (rg_agents s) (mc_agent c)) after]"
    by (rule repository_mutate_Inr) (rule that, assumption+)
  show ?case
  proof (cases "i = mc_agent c")
    case False
    with mutate(4) s' a show ?thesis by (simp add: trail_def audit_of_def)
  next
    case True
    let ?x = "audit_of dump c (dget (rg_agents s) (mc_agent c)) after"
    have "trail i s' = trail i s @ [?x]"
      using True a by (simp add: trail_def audit_of_def)
    moreover have "au_before ?x = map_option dump (dget (rg_agents s) i)"
      "au_after ?x = map_option dump after"
      "au_revision ?x = revision_of (dget (rg_agents s) i) + 1"
      using True mutated_Inr(2)[OF m mutate(2)] by (auto simp: audit_of_def split: option.splits)
    ultimately have "replay_trail None 0 (trail i s') = Some (map_option dump after,
        if after = None then 0 else revision_of (dget (rg_agents s) i) + 1)" if "i \<notin> u"
      using mutate(4) that by (simp add: replay_trail_snoc)
    moreover have "dget (rg_agents s') i = after" using True s' by simp
    moreover have "ad_revision d = revision_of (dget (rg_agents s) i) + 1 \<and> ad_id d = i"
      if "after = Some d" for d
      using mutated_Inr(2,3)[OF m mutate(2) that] mutate(4) True by simp
    ultimately show ?thesis
      by (cases after) (simp_all add: revision_of_def)
  qed
next
  case (upsert u s d expected x s')
  note w = unaudited_write(1)[OF upsert(2)]
  then show ?case using upsert(3) unaudited_write_other[of s' s i] by auto
next
  case (set_enabled u s k enabled expected y s')
  note w = unaudited_write(2)[OF set_enabled(2)]
  then show ?case using set_enabled(3) unaudited_write_other[of s' s i] by (auto split: if_splits)
next
  case (delete u s k expected b s')
  note w = unaudited_write(3)[OF delete(2)]
  then show ?case using delete(3) unaudited_write_other[of s' s i] by (auto split: if_splits)
qed

subsection \<open>Concrete agents\<close>

definition demo_policy :: access_policy where
  "demo_policy = \<lparr>ap_allow_roles = [''staff''], ap_allow_groups = [], ap_allow_tenants = [''*''],
     ap_deny_roles = [''guest''], ap_deny_groups = [], ap_deny_tenants = [],
     ap_any_entitlements = [], ap_required_attributes = [(''region'', JStr ''eu'')]\<rparr>"

definition demo_agent :: "ident \<Rightarrow> int \<Rightarrow> agent_definition" where
  "demo_agent i priority =
     \<lparr>ad_id = i, ad_name = i, ad_description = ''d'', ad_agent_version = None, ad_revision = 0,
      ad_enabled = True, ad_type = Mock_Agent, ad_capabilities = [], ad_domain = None, ad_tags = [],
      ad_trigger = \<lparr>tg_keywords = [], tg_positive = [], tg_negative = []\<rparr>, ad_policy = demo_policy,
      ad_required_inputs = [], ad_optional_inputs = [],
      ad_input_schema = \<lparr>sc_type = ''object'', sc_required = [], sc_properties = []\<rparr>,
      ad_output_schema = \<lparr>sc_type = ''object'', sc_required = [], sc_properties = []\<rparr>,
      ad_invocation = \<lparr>is_type = Mock_Agent, is_config = JObj [], is_provider = JObj []\<rparr>,
      ad_ui = \<lparr>uh_mode = ''none'', uh_route = None, uh_params = JObj []\<rparr>,
      ad_context =
        \<lparr>cs_memory = \<lparr>ks_mode = Retrieval_Disabled, ks_required = False, ks_sources = [],
           ks_tags = [], ks_max_items = 5, ks_controlled = None, ks_metadata = JObj []\<rparr>,
         cs_knowledge = \<lparr>ks_mode = Retrieval_Disabled, ks_required = False, ks_sources = [],
           ks_tags = [], ks_max_items = 5, ks_controlled = None, ks_metadata = JObj []\<rparr>,
         cs_metadata = JObj []\<rparr>,
      ad_priority = priority, ad_metadata = JObj [], ad_source = ''database'', ad_created = None,
      ad_updated = None\<rparr>"

definition demo_user :: user_context where
  "demo_user = \<lparr>uc_id = ''u'', uc_roles = [''staff''], uc_groups = [], uc_entitlements = [],
     uc_attributes = [(''tenant_id'', JStr ''a''), (''region'', JStr ''eu'')]\<rparr>"

definition demo_mutation :: "mutation \<Rightarrow> nat \<Rightarrow> agent_definition option \<Rightarrow> mutation_command" where
  "demo_mutation op n d =
     \<lparr>mc_operation = op, mc_agent = ''a1'', mc_actor = ''admin'', mc_source = ''api'',
      mc_expected = n, mc_definition = d, mc_revision_id = ''rev'', mc_created = 0\<rparr>"

definition demo_registry :: "ident registry_world" where
  "demo_registry =
     \<lparr>rw_repository = \<lparr>rg_agents = [(''a1'', demo_agent ''a1'' 1), (''a2'', demo_agent ''a2'' 5),
        (''a3'', (demo_agent ''a3'' 9)\<lparr>ad_enabled := False\<rparr>)], rg_audit = []\<rparr>,
      rw_state = initial_registry\<rparr>"

definition demo_registry_config :: registry_config where
  "demo_registry_config =
     \<lparr>rc_backend = Backend_Hybrid, rc_fallback = True, rc_down = None, rc_file = None\<rparr>"

lemma available_agents_correct_witness:
  "fst (available_definitions demo_registry_config demo_user demo_registry) =
     Inr [demo_agent ''a2'' 5, demo_agent ''a1'' 1] \<and>
   mset [demo_agent ''a2'' 5, demo_agent ''a1'' 1] =
     filter_mset (\<lambda>d. ad_enabled d \<and> policy_spec (ad_policy d) demo_user)
       (mset (gs_agents (rw_state (snd (available_definitions demo_registry_config demo_user
          demo_registry)))))"
proof -
  have "fst (available_definitions demo_registry_config demo_user demo_registry) =
      Inr [demo_agent ''a2'' 5, demo_agent ''a1'' 1]" by code_simp
  moreover from this have "available_definitions demo_registry_config demo_user demo_registry =
      (Inr [demo_agent ''a2'' 5, demo_agent ''a1'' 1],
       snd (available_definitions demo_registry_config demo_user demo_registry))"
    by (simp add: prod_eq_iff)
  ultimately show ?thesis using available_agents_correct by blast
qed

text \<open>
  An agent is created, disabled, deleted and created again; then another one is stored without a record.
\<close>

definition demo_apply :: "mutation_command \<Rightarrow> ident agent_repository \<Rightarrow> ident agent_repository" where
  "demo_apply c s = (case repository_mutate ad_id c s of Inl e \<Rightarrow> s | Inr (r, s') \<Rightarrow> s')"

definition demo_upsert :: "agent_definition \<Rightarrow> ident agent_repository \<Rightarrow> ident agent_repository" where
  "demo_upsert d s = (case repository_upsert d None s of Inl e \<Rightarrow> s | Inr (x, s') \<Rightarrow> s')"

definition demo_mutations :: "ident agent_repository" where
  "demo_mutations =
     demo_apply (demo_mutation Mutation_Create 0 (Some (demo_agent ''a1'' 1)))
       (demo_apply (demo_mutation Mutation_Delete 2 None)
         (demo_apply (demo_mutation Mutation_Disable 1 None)
           (demo_apply (demo_mutation Mutation_Create 0 (Some (demo_agent ''a1'' 1)))
             \<lparr>rg_agents = [], rg_audit = []\<rparr>)))"

definition demo_repository :: "ident agent_repository" where
  "demo_repository = demo_upsert (demo_agent ''a2'' 5) demo_mutations"

lemma demo_apply_history:
  "repository_history ad_id u s \<Longrightarrow> mutation_ok c = Inr () \<Longrightarrow> repository_history ad_id u (demo_apply c s)"
  by (auto simp: demo_apply_def intro: repository_history.mutate split: sum.splits)

lemma demo_repository_history: "repository_history ad_id {''a2''} demo_repository"
proof -
  have "repository_history ad_id {} demo_mutations"
    unfolding demo_mutations_def
    by (intro demo_apply_history repository_history.empty)
      (simp_all add: mutation_ok_def demo_mutation_def demo_agent_def)
  moreover have "repository_upsert (demo_agent ''a2'' 5) None demo_mutations =
      Inr ((demo_agent ''a2'' 5)\<lparr>ad_revision := 1\<rparr>, demo_repository)"
    by code_simp
  ultimately show ?thesis
    using repository_history.upsert[of ad_id "{}" demo_mutations "demo_agent ''a2'' 5"] by (simp add: demo_agent_def)
qed

lemma registry_audit_complete_witness:
  "map au_revision (rg_audit demo_repository) = [1, 2, 3, 1] \<and> dget (rg_agents demo_repository) ''a2'' \<noteq> None \<and>
   replay_trail None 0 (trail ''a1'' demo_repository) = Some (Some ''a1'', 1)"
proof -
  have "replay_trail None 0 (trail ''a1'' demo_repository) =
      Some (map_option ad_id (dget (rg_agents demo_repository) ''a1''),
        revision_of (dget (rg_agents demo_repository) ''a1''))"
    using registry_audit_complete[OF demo_repository_history, of "''a1''"] by simp
  moreover have "map_option ad_id (dget (rg_agents demo_repository) ''a1'') = Some ''a1''"
    "revision_of (dget (rg_agents demo_repository) ''a1'') = 1" "dget (rg_agents demo_repository) ''a2'' \<noteq> None"
    "map au_revision (rg_audit demo_repository) = [1, 2, 3, 1]"
    by code_simp+
  ultimately show ?thesis by simp
qed

text \<open>
  The administration calls the writers without a record: an agent that was stored by one of them is in use
  and has no trail, and one that was changed by one of them has a trail that no longer tells its revision.
\<close>

lemma unaudited_change_unaccounted:
  "trail ''a2'' demo_repository = []"
  "let s = demo_upsert (demo_agent ''a1'' 9) demo_repository
   in replay_trail None 0 (trail ''a1'' s) = Some (Some ''a1'', 1) \<and>
      map_option ad_revision (dget (rg_agents s) ''a1'') = Some 2"
  by code_simp+

end
