(* ===== verification/Invocation.thy ===== *)
theory Invocation
  imports Canonical_Invocations Formation_Publishing Agent_Registry
begin

text \<open>
  The invocation of an agent (\<open>app/services/invocation_service.py\<close>, \<open>app/schemas/invocation.py\<close>):
  claiming the plan step, assembling the context, storing the run, calling the agent with a
  heartbeat on the claim, storing the result and settling the plan step. The plan service and the
  stores of runs, results, turns and plans are the modelled ones; they share one state.

  What lies outside is an argument: the invokers (calls to remote or local agents), the assembly
  of the context, the JSON schema validator and the capture of turns. Linking earlier memory recalls
  to the run (\<open>_link_router_recall\<close>) only writes memory events and never raises; it is left out.
\<close>

subsection \<open>Data\<close>

record error_detail =
  er_code :: string
  er_message :: string
  er_details :: json

definition error_json :: "error_detail \<Rightarrow> json" where
  "error_json e = JObj [(''code'', JStr (er_code e)), (''message'', JStr (er_message e)),
                        (''details'', er_details e)]"

text \<open>\<open>ErrorDetail.model_validate\<close> on a stored error.\<close>

definition error_from_json :: "json \<Rightarrow> error_detail option" where
  "error_from_json j =
     (case j of
        JObj kvs \<Rightarrow>
          (case (dget kvs ''code'', dget kvs ''message'') of
             (Some (JStr c), Some (JStr m)) \<Rightarrow>
               let d = (case dget kvs ''details'' of None \<Rightarrow> JObj [] | Some v \<Rightarrow> v)
               in if c \<noteq> [] \<and> m \<noteq> [] \<and> is_obj d \<and>
                     list_all (\<lambda>(k, v). k \<in> {''code'', ''message'', ''details''}) kvs
                  then Some \<lparr>er_code = c, er_message = m, er_details = d\<rparr> else None
           | _ \<Rightarrow> None)
      | _ \<Rightarrow> None)"

text \<open>The contexts handed to an agent; items and citations are kept as their JSON dumps.\<close>

record memory_context =
  mx_summary :: string
  mx_items :: "(ident \<times> (string, json) dict) list"
  mx_status :: string
  mx_truncated :: bool
  mx_errors :: "string list"
  mx_metadata :: "(string, json) dict"

record knowledge_context =
  kx_summary :: string
  kx_items :: "json list"
  kx_citations :: "json list"
  kx_sources :: "string list"
  kx_status :: string
  kx_truncated :: bool
  kx_errors :: "string list"
  kx_metadata :: "(string, json) dict"

definition empty_memory_context :: memory_context where
  "empty_memory_context = \<lparr>mx_summary = [], mx_items = [], mx_status = ''empty'',
     mx_truncated = False, mx_errors = [], mx_metadata = []\<rparr>"

definition empty_knowledge_context :: knowledge_context where
  "empty_knowledge_context = \<lparr>kx_summary = [], kx_items = [], kx_citations = [], kx_sources = [],
     kx_status = ''disabled'', kx_truncated = False, kx_errors = [], kx_metadata = []\<rparr>"

definition memory_json :: "memory_context \<Rightarrow> json" where
  "memory_json m =
     JObj [(''summary'', JStr (mx_summary m)),
           (''items'', JList (map (\<lambda>(i, rest). JObj ((''memory_id'', JStr i) # rest)) (mx_items m))),
           (''status'', JStr (mx_status m)), (''truncated'', JBool (mx_truncated m)),
           (''errors'', JList (map JStr (mx_errors m))), (''metadata'', JObj (mx_metadata m))]"

definition knowledge_json :: "knowledge_context \<Rightarrow> json" where
  "knowledge_json k =
     JObj [(''summary'', JStr (kx_summary k)), (''items'', JList (kx_items k)),
           (''citations'', JList (kx_citations k)), (''source_ids'', JList (map JStr (kx_sources k))),
           (''status'', JStr (kx_status k)), (''truncated'', JBool (kx_truncated k)),
           (''errors'', JList (map JStr (kx_errors k))), (''metadata'', JObj (kx_metadata k))]"

definition has_memory_context :: "memory_context \<Rightarrow> bool" where
  "has_memory_context m \<longleftrightarrow>
     mx_summary m \<noteq> [] \<or> mx_items m \<noteq> [] \<or> mx_status m \<noteq> ''empty'' \<or> mx_truncated m \<or>
     mx_errors m \<noteq> [] \<or> mx_metadata m \<noteq> []"

definition has_knowledge_context :: "knowledge_context \<Rightarrow> bool" where
  "has_knowledge_context k \<longleftrightarrow>
     kx_summary k \<noteq> [] \<or> kx_items k \<noteq> [] \<or> kx_citations k \<noteq> [] \<or> kx_sources k \<noteq> [] \<or>
     kx_status k \<noteq> ''disabled'' \<or> kx_truncated k \<or> kx_errors k \<noteq> [] \<or> kx_metadata k \<noteq> []"

record invocation =
  iv_run :: ident
  iv_request :: "ident option"
  iv_session :: ident
  iv_agent :: ident
  iv_user :: user_context
  iv_input :: "(string, json) dict"
  iv_context :: "(string, json) dict"
  iv_memory :: memory_context
  iv_knowledge :: knowledge_context
  iv_handle :: "string option"
  iv_trace :: "string option"

record invocation_result =
  ir_run :: ident
  ir_agent :: ident
  ir_status :: run_status
  ir_message :: string
  ir_output :: "json option"
  ir_artifacts :: "json list"
  ir_usage :: "(string, json) dict"
  ir_error :: "error_detail option"

subsection \<open>Small helpers of the service\<close>

definition context_str :: "(string, json) dict \<Rightarrow> string \<Rightarrow> string option" where
  "context_str ctx key =
     (case json_get ctx key of JNull \<Rightarrow> None | v \<Rightarrow> Some (py_str v))"

definition private_modes :: "string set" where
  "private_modes = {''off'', ''temporary'', ''private''}"

definition source_prohibits :: "(string, json) dict \<Rightarrow> bool" where
  "source_prohibits d \<longleftrightarrow>
     json_get d ''temporary'' = JBool True \<or> json_get d ''private'' = JBool True \<or>
     (case json_get d ''memory_policy'' of
        JStr s \<Rightarrow> py_lower s \<in> private_modes
      | JObj kvs \<Rightarrow>
          (case dget kvs ''mode'' of None \<Rightarrow> False | Some v \<Rightarrow> py_lower (py_str v) \<in> private_modes) \<or>
          json_get kvs ''enabled'' = JBool False
      | _ \<Rightarrow> False)"

definition request_prohibits_memory :: "invocation \<Rightarrow> bool" where
  "request_prohibits_memory i \<longleftrightarrow> source_prohibits (iv_context i) \<or> source_prohibits (iv_input i)"

fun result_step_status :: "run_status \<Rightarrow> step_status" where
  "result_step_status RunCompleted = Completed"
| "result_step_status RunBlocked = Blocked"
| "result_step_status RunClarify = Blocked"
| "result_step_status _ = Failed"

definition current_plan_step :: "plan \<Rightarrow> plan_step option" where
  "current_plan_step p =
     (if \<not> str_set (pl_current p) then None
      else find (\<lambda>s. Some (st_id s) = pl_current p) (pl_steps p))"

definition first_text :: "(string, json) dict \<Rightarrow> string option" where
  "first_text d =
     map_option py_str
       (find (\<lambda>v. case v of JStr s \<Rightarrow> py_strip s \<noteq> [] | _ \<Rightarrow> False)
          (map (json_get d) [''text'', ''query'', ''title'']))"

fun join_space :: "string list \<Rightarrow> string" where
  "join_space [] = []"
| "join_space [s] = s"
| "join_space (s # t # ss) = s @ '' '' @ join_space (t # ss)"

definition query_text :: "(string, json) dict \<Rightarrow> string" where
  "query_text d =
     (case first_text d of
        Some s \<Rightarrow> s
      | None \<Rightarrow> join_space (List.map_filter (\<lambda>v. case v of JStr s \<Rightarrow> Some s | _ \<Rightarrow> None) (dvalues d)))"

definition build_invocation_input ::
    "agent_definition \<Rightarrow> string option \<Rightarrow> (string, json) dict \<Rightarrow> (string, json) dict" where
  "build_invocation_input d text values =
     (let v1 = (if str_set text \<and> ''text'' \<in> set (sc_required (ad_input_schema d)) \<and>
                   \<not> truthy (json_get values ''text'')
                then dput ''text'' (JStr (the text)) values else values)
      in if str_set text
         then fold (\<lambda>(key, v) acc. if dget acc key = None \<and> key \<in> {''query'', ''title''}
                                   then dput key (JStr (the text)) acc else acc)
                (sc_properties (ad_input_schema d)) v1
         else v1)"

definition missing_required_inputs :: "agent_definition \<Rightarrow> (string, json) dict \<Rightarrow> string list" where
  "missing_required_inputs d input =
     filter (\<lambda>k. \<not> truthy (json_get input k)) (sc_required (ad_input_schema d))"

definition formation_turn_id ::
    "(string \<Rightarrow> string) \<Rightarrow> string \<Rightarrow> string \<Rightarrow> string \<Rightarrow> string \<Rightarrow> string \<Rightarrow> ident" where
  "formation_turn_id hash tenant user session request run =
     ''mft_'' @ take 32 (hash (join_us [tenant, user, session, request, run]))"

subsection \<open>Configuration, world and environment\<close>

type_synonym invoker = "agent_definition \<Rightarrow> invocation \<Rightarrow> py_exn + invocation_result"

text \<open>
  \<open>vc_context\<close> is the assembly of the agent context from the definition, the invocation, its input,
  the query text, the turn identifier and the claimed plan; \<open>vc_schema\<close> is \<open>jsonschema.validate\<close>:
  \<open>Inr (Some m)\<close> is a \<open>ValidationError\<close> with message \<open>m\<close>.
\<close>

record invoke_config =
  vc_plan :: "plan_config option"
  vc_invokers :: "(agent_type, invoker) dict"
  vc_context :: "(agent_definition \<Rightarrow> invocation \<Rightarrow> (string, json) dict \<Rightarrow> string \<Rightarrow> ident option \<Rightarrow>
                  plan option \<Rightarrow> py_exn + memory_context \<times> knowledge_context) option"
  vc_schema :: "json \<Rightarrow> schema_contract \<Rightarrow> py_exn + string option"
  vc_publisher :: "publisher option"
  vc_capture :: "(invocation \<Rightarrow> invocation_result \<Rightarrow> ident \<Rightarrow> bool) option"
  vc_automatic :: bool
  vc_canonical :: bool
  vc_mode :: string
  vc_plane :: string
  vc_policy :: string
  vc_lease :: time
  vc_hash :: "string \<Rightarrow> string"

record invoke_world =
  vw_state :: drs
  vw_plan_log :: "publication list"
  vw_log :: "formation_event list"

text \<open>
  One call: the identifiers it generates, its times, what other tasks do while the context is
  assembled, before each heartbeat and while the agent works, and between the accesses of the plan
  service.
\<close>

record invoke_env =
  en_claim :: ident
  en_result :: ident
  en_outbox :: ident
  en_start :: time
  en_done :: time
  en_latency :: int
  en_assembly :: "invoke_world \<Rightarrow> invoke_world"
  en_beats :: "(time \<times> (invoke_world \<Rightarrow> invoke_world)) list"
  en_working :: "invoke_world \<Rightarrow> invoke_world"
  en_plans :: interference

definition plans_of :: "invoke_world \<Rightarrow> plan_world" where
  "plans_of w = \<lparr>pw_store = (case dw_plans (vw_state w) of None \<Rightarrow> empty_plan_store | Some s \<Rightarrow> s),
                 pw_log = vw_plan_log w\<rparr>"

definition set_plans :: "plan_world \<Rightarrow> invoke_world \<Rightarrow> invoke_world" where
  "set_plans p w = w\<lparr>vw_state := (vw_state w)\<lparr>dw_plans := Some (pw_store p)\<rparr>, vw_plan_log := pw_log p\<rparr>"

subsection \<open>Publication of runs and results\<close>

definition publish_run_of :: "invoke_config \<Rightarrow> bool \<Rightarrow> agent_run \<Rightarrow> invoke_world \<Rightarrow> invoke_world" where
  "publish_run_of cfg hidden r w =
     (case vc_publisher cfg of
        None \<Rightarrow> w
      | Some accepts \<Rightarrow>
          if hidden then w
          else let f = snd (publish_run_transitions accepts r
                  \<lparr>fw_plans = pw_store (plans_of w), fw_runs = dw_runs (vw_state w),
                   fw_results = dw_results (vw_state w), fw_log = vw_log w\<rparr>)
               in w\<lparr>vw_state := (vw_state w)\<lparr>dw_runs := fw_runs f\<rparr>, vw_log := fw_log f\<rparr>)"

definition publish_result_of ::
    "invoke_config \<Rightarrow> bool \<Rightarrow> agent_result \<Rightarrow> agent_run \<Rightarrow> invoke_world \<Rightarrow> invoke_world" where
  "publish_result_of cfg hidden x r w =
     (case vc_publisher cfg of
        None \<Rightarrow> w
      | Some accepts \<Rightarrow>
          if hidden \<or> \<not> accepts (Result_Event x r) then w
          else w\<lparr>vw_state := (vw_state w)\<lparr>dw_results :=
                    mark_result_published (rs_id x) (dw_results (vw_state w))\<rparr>,
                 vw_log := vw_log w @ [Result_Event x r]\<rparr>)"

definition capture_of ::
    "invoke_config \<Rightarrow> invocation \<Rightarrow> invocation_result \<Rightarrow> ident \<Rightarrow> invoke_world \<Rightarrow> invoke_world" where
  "capture_of cfg i res result_id w =
     (case vc_capture cfg of
        None \<Rightarrow> w
      | Some accepts \<Rightarrow>
          if accepts i res result_id
          then w\<lparr>vw_state := (vw_state w)\<lparr>dw_results :=
                    mark_turn_captured result_id (dw_results (vw_state w))\<rparr>\<rparr>
          else w)"

subsection \<open>Claiming the step and assembling the context\<close>

definition claimed_context :: "plan \<Rightarrow> ident \<Rightarrow> ident \<Rightarrow> string \<Rightarrow> invocation \<Rightarrow> invocation" where
  "claimed_context p step claim key i =
     i\<lparr>iv_context :=
        dput ''plan_execution_idempotency_key'' (JStr key)
          (dput ''plan_execution_claim_id'' (JStr claim)
            (dput ''plan_status'' (JStr (status_name (pl_status p)))
              (dput ''step_id'' (JStr step) (dput ''plan_id'' (JStr (pl_id p)) (iv_context i)))))\<rparr>"

definition claim_for ::
    "invoke_config \<Rightarrow> invoke_env \<Rightarrow> agent_definition \<Rightarrow> invocation \<Rightarrow> invoke_world \<Rightarrow>
     (py_exn + plan option \<times> invocation) \<times> invoke_world" where
  "claim_for cfg env d i w =
     (let plan_id = context_str (iv_context i) ''plan_id''
      in if \<not> str_set plan_id then (Inr (None, i), w)
         else if vc_plan cfg = None \<or> \<not> str_set (user_tenant (iv_user i))
         then (Inl (Invocation_Error ''Plan execution requires trusted ownership''), w)
         else
           let tenant = the (user_tenant (iv_user i)); user = uc_id (iv_user i)
           in case plan_get (pw_store (plans_of w)) (the plan_id) tenant user of
                None \<Rightarrow> (Inl (Invocation_Error ''Plan is not active''), w)
              | Some p \<Rightarrow>
                  if pl_status p \<notin> active_statuses
                  then (Inl (Invocation_Error ''Plan is not active''), w)
                  else case current_plan_step p of
                    None \<Rightarrow> (Inl (Invocation_Error ''Agent does not match the canonical Plan step''), w)
                  | Some s \<Rightarrow>
                      if st_agent s \<noteq> ad_id d
                      then (Inl (Invocation_Error ''Agent does not match the canonical Plan step''), w)
                      else
                        (case claim_plan_step (vc_hash cfg) (the (vc_plan cfg)) (en_claim env)
                                (pl_id p) (st_id s) (pl_tenant p) (pl_user p) (vc_lease cfg)
                                (\<not> request_prohibits_memory i) (en_start env) (plans_of w) of
                           (None, pw) \<Rightarrow>
                             (Inl (Invocation_Error ''Plan step is already executing''), set_plans pw w)
                         | (Some (q, claim), pw) \<Rightarrow>
                             (case execution_claim_key (pw_store pw) (pl_id q) claim of
                                None \<Rightarrow> (Inl (Invocation_Error ''Plan execution claim is unavailable''),
                                         set_plans pw w)
                              | Some key \<Rightarrow>
                                  (Inr (Some q, claimed_context q (st_id s) claim key i),
                                   set_plans pw w))))"

definition assembly_input :: "invocation \<Rightarrow> (string, json) dict" where
  "assembly_input i =
     (let v1 = (if dget (iv_input i) ''memory_context'' = None \<and> has_memory_context (iv_memory i)
                then dput ''memory_context'' (memory_json (iv_memory i)) (iv_input i)
                else iv_input i)
      in if dget v1 ''knowledge_context'' = None \<and> has_knowledge_context (iv_knowledge i)
         then dput ''knowledge_context'' (knowledge_json (iv_knowledge i)) v1 else v1)"

definition assembly_turn :: "invoke_config \<Rightarrow> invocation \<Rightarrow> ident option" where
  "assembly_turn cfg i =
     (if str_set (user_tenant (iv_user i))
      then Some (formation_turn_id (vc_hash cfg) (the (user_tenant (iv_user i))) (uc_id (iv_user i))
             (iv_session i) (if str_set (iv_request i) then the (iv_request i) else iv_run i)
             (iv_run i))
      else None)"

definition with_agent_context ::
    "invoke_config \<Rightarrow> invoke_env \<Rightarrow> agent_definition \<Rightarrow> invocation \<Rightarrow> invoke_world \<Rightarrow>
     (py_exn + invocation) \<times> invoke_world" where
  "with_agent_context cfg env d i w =
     (case claim_for cfg env d i w of
        (Inl e, w1) \<Rightarrow> (Inl e, w1)
      | (Inr (active, j), w1) \<Rightarrow>
          (case vc_context cfg of
             None \<Rightarrow> (Inr j, w1)
           | Some assemble \<Rightarrow>
               let input = assembly_input j
               in case assemble d j input (query_text input) (assembly_turn cfg j) active of
                    Inl e \<Rightarrow> (Inl e, en_assembly env w1)
                  | Inr (m, k) \<Rightarrow>
                      (Inr (j\<lparr>iv_input := input, iv_memory := m, iv_knowledge := k,
                              iv_handle := None, iv_trace := None\<rparr>), en_assembly env w1)))"

subsection \<open>Starting the run\<close>

fun type_name :: "agent_type \<Rightarrow> string" where
  "type_name Http_Agent = ''http''"
| "type_name Local_Function = ''local_function''"
| "type_name Mock_Agent = ''mock''"
| "type_name Workflow = ''workflow''"
| "type_name Provider_Platform = ''provider_platform''"
| "type_name Ui_Handoff = ''ui_handoff''"

text \<open>\<open>AgentRun(\<dots>)\<close>: the constructor filters the input and bounds the used memories by 50.\<close>

definition invocation_run ::
    "invoke_env \<Rightarrow> agent_definition \<Rightarrow> invocation \<Rightarrow> bool \<Rightarrow> py_exn + agent_run" where
  "invocation_run env d i hidden =
     validate_run
        \<lparr>rn_id = iv_run i,
         rn_request = Some (if str_set (iv_request i) then the (iv_request i) else iv_run i),
         rn_session = iv_session i, rn_agent = iv_agent i, rn_user = Some (uc_id (iv_user i)),
         rn_tenant = user_tenant (iv_user i), rn_turn = None,
         rn_plan = context_str (iv_context i) ''plan_id'',
         rn_step = context_str (iv_context i) ''step_id'', rn_status = RunRunning,
         rn_invoker = type_name (ad_type d), rn_delegated = False, rn_delegation_key = None,
         rn_version = 1, rn_sequence = 0, rn_deadline = None, rn_heartbeat = None,
         rn_terminal_event = None, rn_input = JObj (iv_input i), rn_output = None, rn_error = None,
         rn_latency = None, rn_suppressed = hidden,
         rn_used_memory = map fst (mx_items (iv_memory i)), rn_created = Some (en_start env),
         rn_updated = Some (en_start env)\<rparr>"

definition start_invocation ::
    "bool \<Rightarrow> invoke_env \<Rightarrow> agent_run \<Rightarrow> invoke_world \<Rightarrow>
     (py_exn + agent_run \<times> agent_result option) \<times> invoke_world" where
  "start_invocation managed env r w =
     (if managed then
        (case canonical_start (en_start env) r (vw_state w) of
           (Inl e, s) \<Rightarrow> (Inl e, w\<lparr>vw_state := s\<rparr>)
         | (Inr (run, turn, replay), s) \<Rightarrow>
             if rn_id run \<noteq> rn_id r \<and> replay = None
             then (Inl (Invocation_Error ''Canonical invocation is already in progress''),
                   w\<lparr>vw_state := s\<rparr>)
             else (Inr (run, replay), w\<lparr>vw_state := s\<rparr>))
      else
        (case add_run r (dw_runs (vw_state w)) of
           Inl e \<Rightarrow> (Inl e, w)
         | Inr (run, rs) \<Rightarrow> (Inr (run, None), w\<lparr>vw_state := (vw_state w)\<lparr>dw_runs := rs\<rparr>\<rparr>)))"

text \<open>\<open>_invocation_result_from_record\<close>: a malformed stored error is a \<open>ValidationError\<close>.\<close>

definition result_from_record :: "agent_result \<Rightarrow> py_exn + invocation_result" where
  "result_from_record x =
     (case rs_error x of
        None \<Rightarrow> Inr \<lparr>ir_run = rs_run x, ir_agent = rs_agent x, ir_status = rs_status x,
                     ir_message = rs_message x, ir_output = rs_output x,
                     ir_artifacts = rs_artifacts x, ir_usage = [], ir_error = None\<rparr>
      | Some j \<Rightarrow>
          (case error_from_json j of
             None \<Rightarrow> Inl (Value_Error ''error is no ErrorDetail'')
           | Some e \<Rightarrow> Inr \<lparr>ir_run = rs_run x, ir_agent = rs_agent x, ir_status = rs_status x,
                     ir_message = rs_message x, ir_output = rs_output x,
                     ir_artifacts = rs_artifacts x, ir_usage = [], ir_error = Some e\<rparr>))"

subsection \<open>Calling the agent\<close>

text \<open>
  The heartbeat renews the claim at each beat until a renewal is refused; other tasks act before
  each beat and after the last one.
\<close>

fun heartbeat ::
    "(time \<Rightarrow> invoke_world \<Rightarrow> bool \<times> invoke_world) \<Rightarrow> (time \<times> (invoke_world \<Rightarrow> invoke_world)) list \<Rightarrow>
     invoke_world \<Rightarrow> invoke_world" where
  "heartbeat renew [] w = w"
| "heartbeat renew ((t, others) # bs) w =
     (case renew t (others w) of
        (True, w') \<Rightarrow> heartbeat renew bs w'
      | (False, w') \<Rightarrow> fold (\<lambda>(t, others) w. others w) bs w')"

definition renew_of ::
    "invoke_config \<Rightarrow> ident \<Rightarrow> ident \<Rightarrow> ident \<Rightarrow> ident \<Rightarrow> time \<Rightarrow> invoke_world \<Rightarrow> bool \<times> invoke_world" where
  "renew_of cfg plan_id tenant user claim t w =
     (case renew_plan_claim plan_id tenant user claim (vc_lease cfg) t (plans_of w) of
        (b, p) \<Rightarrow> (b, set_plans p w))"

text \<open>The claim an invocation runs under: plan, claim, tenant; \<open>None\<close> without one.\<close>

definition claim_of :: "invoke_config \<Rightarrow> invocation \<Rightarrow> (ident \<times> ident \<times> ident) option" where
  "claim_of cfg i =
     (let plan_id = context_str (iv_context i) ''plan_id'';
          claim = context_str (iv_context i) ''plan_execution_claim_id'';
          tenant = user_tenant (iv_user i)
      in if str_set plan_id \<and> str_set claim \<and> str_set tenant \<and> vc_plan cfg \<noteq> None
         then Some (the plan_id, the claim, the tenant) else None)"

definition work_phase :: "invoke_config \<Rightarrow> invoke_env \<Rightarrow> invocation \<Rightarrow> invoke_world \<Rightarrow> invoke_world" where
  "work_phase cfg env i w =
     en_working env
       (case claim_of cfg i of
          None \<Rightarrow> fold (\<lambda>(t, others) w. others w) (en_beats env) w
        | Some (plan_id, claim, tenant) \<Rightarrow>
            heartbeat (renew_of cfg plan_id tenant (uc_id (iv_user i)) claim) (en_beats env) w)"

definition validate_output ::
    "invoke_config \<Rightarrow> agent_definition \<Rightarrow> invocation_result \<Rightarrow> py_exn + invocation_result" where
  "validate_output cfg d res =
     (if ir_output res = None \<or> sc_properties (ad_output_schema d) = [] then Inr res
      else case vc_schema cfg (the (ir_output res)) (ad_output_schema d) of
        Inl e \<Rightarrow> Inl e
      | Inr None \<Rightarrow> Inr res
      | Inr (Some m) \<Rightarrow>
          Inr (res\<lparr>ir_status := RunInvalidOutput,
                   ir_error := Some \<lparr>er_code = ''invalid_output'',
                     er_message = ''Agent output does not match output_schema'',
                     er_details = JObj [(''error'', JStr m)]\<rparr>\<rparr>))"

fun exn_text :: "py_exn \<Rightarrow> string" where
  "exn_text (Start_Conflict m) = m"
| "exn_text (Turn_Ownership_Conflict m) = m"
| "exn_text (Turn_Terminal_State m) = m"
| "exn_text (Turn_Idempotency_Conflict m) = m"
| "exn_text (Outbox_Claim_Conflict m) = m"
| "exn_text (Ticket_Error m) = m"
| "exn_text (Ticket_Conflict m) = m"
| "exn_text (Value_Error m) = m"
| "exn_text (Plan_State_Conflict m) = m"
| "exn_text (Runtime_Error m) = m"
| "exn_text (Canonical_Conflict m) = m"
| "exn_text (Invocation_Error m) = m"
| "exn_text (Agent_Unavailable m) = m"
| "exn_text (Registry_Error m) = m"
| "exn_text (Registry_Unavailable m) = m"
| "exn_text (Registry_Version_Conflict m) = m"
| "exn_text (External_Error m) = m"
| "exn_text Type_Error = ''type error''"
| "exn_text Attribute_Error = ''attribute error''"

text \<open>
  The \<open>except\<close> branch. \<open>ErrorDetail\<close> demands a message, so an exception without text raises again,
  out of the handler. The exceptions of the model carry no details.
\<close>

definition failed_result ::
    "agent_definition \<Rightarrow> invocation \<Rightarrow> py_exn \<Rightarrow> py_exn + invocation_result" where
  "failed_result d i e =
     (if exn_text e = [] then Inl (Value_Error ''ErrorDetail requires a message'')
      else Inr \<lparr>ir_run = iv_run i, ir_agent = ad_id d, ir_status = RunFailed,
                ir_message = ''Agent invocation failed.'', ir_output = None, ir_artifacts = [],
                ir_usage = [],
                ir_error = Some \<lparr>er_code = (case e of Invocation_Error _ \<Rightarrow> ''invocation_error''
                                                   | _ \<Rightarrow> ''invocation_failed''),
                                 er_message = exn_text e, er_details = JObj []\<rparr>\<rparr>)"

definition agent_answer ::
    "invoke_config \<Rightarrow> agent_definition \<Rightarrow> invocation \<Rightarrow> invoker \<Rightarrow> py_exn + invocation_result" where
  "agent_answer cfg d i invoker =
     (case ebind (invoker d i) (validate_output cfg d) of
        Inl e \<Rightarrow> failed_result d i e
      | Inr res \<Rightarrow> Inr res)"

subsection \<open>Storing the answer\<close>

definition with_latency :: "invoke_env \<Rightarrow> invocation_result \<Rightarrow> invocation_result" where
  "with_latency env res =
     (if dget (ir_usage res) ''latency_ms'' = None
      then res\<lparr>ir_usage := dput ''latency_ms'' (JNum (en_latency env)) (ir_usage res)\<rparr> else res)"

definition answered_run :: "invoke_env \<Rightarrow> agent_run \<Rightarrow> invocation_result \<Rightarrow> agent_run" where
  "answered_run env r res =
     r\<lparr>rn_status := ir_status res, rn_output := ir_output res,
       rn_error := map_option error_json (ir_error res), rn_latency := Some (en_latency env),
       rn_updated := Some (en_done env)\<rparr>"

definition answer_record ::
    "invoke_config \<Rightarrow> invoke_env \<Rightarrow> agent_definition \<Rightarrow> invocation \<Rightarrow> agent_run \<Rightarrow> invocation_result \<Rightarrow>
     bool \<Rightarrow> bool \<Rightarrow> py_exn + agent_result" where
  "answer_record cfg env d i r res request_hidden hidden =
     validate_result
       \<lparr>rs_id = en_result env, rs_run = iv_run i, rs_session = iv_session i, rs_agent = ad_id d,
        rs_user = rn_user r, rs_tenant = rn_tenant r, rs_turn = rn_turn r,
        rs_plan = context_str (iv_context i) ''plan_id'',
        rs_step = context_str (iv_context i) ''step_id'', rs_status = ir_status res,
        rs_run_version = None, rs_message = ir_message res, rs_suppressed = hidden,
        rs_skip_audit = (request_hidden \<and> vc_automatic cfg), rs_output = ir_output res,
        rs_artifacts = ir_artifacts res, rs_error = map_option error_json (ir_error res),
        rs_created = Some (en_done env)\<rparr>"

definition eligibility_of :: "invoke_config \<Rightarrow> bool \<Rightarrow> eligibility" where
  "eligibility_of cfg request_hidden =
     (let mode = (if vc_mode cfg \<in> {''off'', ''observe'', ''enforced''} then vc_mode cfg else ''off'')
      in \<lparr>el_mode = mode, el_execution = vc_plane cfg,
          el_suppressed = (request_hidden \<or> mode = ''off''),
          el_reason = (if request_hidden then Some ''temporary_request''
                       else if mode = ''off'' then Some ''formation_mode_off'' else None),
          el_policy = vc_policy cfg\<rparr>)"

definition store_answer ::
    "bool \<Rightarrow> invoke_config \<Rightarrow> invoke_env \<Rightarrow> invocation \<Rightarrow> agent_run \<Rightarrow> agent_result \<Rightarrow> bool \<Rightarrow>
     invoke_world \<Rightarrow> (py_exn + agent_run \<times> agent_result) \<times> invoke_world" where
  "store_answer managed cfg env i r x request_hidden w =
     (if managed then
        (case canonical_complete (en_outbox env) (en_done env) r x
                (let t = context_str (iv_context i) ''_canonical_response_text''
                 in if str_set t then the t else rs_message x)
                (eligibility_of cfg request_hidden) (vw_state w) of
           (Inl e, s) \<Rightarrow> (Inl e, w\<lparr>vw_state := s\<rparr>)
         | (Inr (run, result, turn), s) \<Rightarrow> (Inr (run, result), w\<lparr>vw_state := s\<rparr>))
      else
        (case update_run r (dw_runs (vw_state w)) of
           Inl e \<Rightarrow> (Inl e, w)
         | Inr (run, rs) \<Rightarrow>
             (Inr (run, x), w\<lparr>vw_state := (vw_state w)\<lparr>dw_runs := rs,
                dw_results := add_result x (dw_results (vw_state w))\<rparr>\<rparr>)))"

definition settle_step ::
    "invoke_config \<Rightarrow> invoke_env \<Rightarrow> invocation \<Rightarrow> run_status \<Rightarrow> bool \<Rightarrow> invoke_world \<Rightarrow>
     (py_exn + unit) \<times> invoke_world" where
  "settle_step cfg env i status hidden w =
     (case (claim_of cfg i, context_str (iv_context i) ''step_id'') of
        (Some (plan_id, claim, tenant), Some step) \<Rightarrow>
          if step = [] then (Inr (), w)
          else (case finish_claimed_step (the (vc_plan cfg)) (en_plans env) plan_id step tenant
                       (uc_id (iv_user i)) claim (result_step_status status) (\<not> hidden)
                       (en_done env) (plans_of w) of
                  (Inl e, p) \<Rightarrow> (Inl e, set_plans p w)
                | (Inr _, p) \<Rightarrow> (Inr (), set_plans p w))
      | _ \<Rightarrow> (Inr (), w))"

definition finish_invocation ::
    "bool \<Rightarrow> invoke_config \<Rightarrow> invoke_env \<Rightarrow> agent_definition \<Rightarrow> invocation \<Rightarrow> agent_run \<Rightarrow>
     invocation_result \<Rightarrow> bool \<Rightarrow> bool \<Rightarrow> invoke_world \<Rightarrow>
     (py_exn + invocation_result) \<times> invoke_world" where
  "finish_invocation managed cfg env d i run res0 request_hidden hidden w =
     (let res = with_latency env res0; r = answered_run env run res
      in case answer_record cfg env d i r res request_hidden hidden of
           Inl e \<Rightarrow> (Inl e, w)
         | Inr x \<Rightarrow>
             (case store_answer managed cfg env i r x request_hidden w of
                (Inl e, w1) \<Rightarrow> (Inl e, w1)
              | (Inr (stored_run, stored), w1) \<Rightarrow>
                  let w2 = publish_result_of cfg hidden stored stored_run
                             (publish_run_of cfg hidden stored_run w1)
                  in case settle_step cfg env i (ir_status res) hidden w2 of
                       (Inl e, w3) \<Rightarrow> (Inl e, w3)
                     | (Inr _, w3) \<Rightarrow>
                         (Inr res, if managed then w3 else capture_of cfg i res (rs_id stored) w3)))"

subsection \<open>The invocation\<close>

definition invoke_definition ::
    "invoke_config \<Rightarrow> invoke_env \<Rightarrow> agent_definition \<Rightarrow> invocation \<Rightarrow> invoke_world \<Rightarrow>
     (py_exn + invocation_result) \<times> invoke_world" where
  "invoke_definition cfg env d i0 w0 =
     (case with_agent_context cfg env d i0 w0 of
        (Inl e, w) \<Rightarrow> (Inl e, w)
      | (Inr i, w) \<Rightarrow>
          let request_hidden = request_prohibits_memory i;
              managed = truthy (json_get (iv_context i) ''_canonical_turn_managed'');
              hidden = request_hidden \<or> \<not> managed \<and> \<not> vc_automatic cfg
          in if managed \<and> \<not> vc_canonical cfg
             then (Inl (Invocation_Error ''Canonical invocation persistence is not configured''), w)
             else case invocation_run env d i hidden of
               Inl e \<Rightarrow> (Inl e, w)
             | Inr r \<Rightarrow>
                 (case start_invocation managed env r w of
                    (Inl e, w1) \<Rightarrow> (Inl e, w1)
                  | (Inr (run, Some replay), w1) \<Rightarrow> (result_from_record replay, w1)
                  | (Inr (run, None), w1) \<Rightarrow>
                      let w2 = publish_run_of cfg hidden run w1
                      in case dget (vc_invokers cfg) (ad_type d) of
                           None \<Rightarrow> (Inl (Invocation_Error ''No invoker registered for Agent type''), w2)
                         | Some invoker \<Rightarrow>
                             let w3 = work_phase cfg env i w2
                             in case agent_answer cfg d i invoker of
                                  Inl e \<Rightarrow> (Inl e, w3)
                                | Inr res \<Rightarrow>
                                    finish_invocation managed cfg env d i run res request_hidden
                                      hidden w3))"

definition new_invocation ::
    "ident \<Rightarrow> ident \<Rightarrow> user_context \<Rightarrow> (string, json) dict \<Rightarrow> (string, json) dict \<Rightarrow> ident \<Rightarrow>
     ident option \<Rightarrow> string option \<Rightarrow> string option \<Rightarrow> invocation" where
  "new_invocation run_id agent user input ctx session request handle trace =
     \<lparr>iv_run = run_id, iv_request = request, iv_session = session, iv_agent = agent, iv_user = user,
      iv_input = input, iv_context = ctx, iv_memory = empty_memory_context,
      iv_knowledge = empty_knowledge_context, iv_handle = handle, iv_trace = trace\<rparr>"

text \<open>\<open>InvocationService.invoke\<close>: only an agent available to the user is invoked.\<close>

definition invoke ::
    "invoke_config \<Rightarrow> invoke_env \<Rightarrow> registry_config \<Rightarrow> invocation \<Rightarrow> 'd registry_world \<Rightarrow>
     invoke_world \<Rightarrow> (py_exn + invocation_result) \<times> 'd registry_world \<times> invoke_world" where
  "invoke cfg env rcfg i g w =
     (case available_definitions rcfg (iv_user i) g of
        (Inl e, g') \<Rightarrow> (Inl e, g', w)
      | (Inr ds, g') \<Rightarrow>
          (case find (\<lambda>d. ad_id d = iv_agent i) ds of
             None \<Rightarrow> (Inl (Agent_Unavailable ''Agent is not available''), g', w)
           | Some d \<Rightarrow> (case invoke_definition cfg env d i w of (res, w') \<Rightarrow> (res, g', w'))))"

text \<open>\<open>InvocationService.invoke_agent\<close> with the definition selected by the caller or looked up.\<close>

definition invoke_agent ::
    "invoke_config \<Rightarrow> invoke_env \<Rightarrow> registry_config \<Rightarrow> agent_definition option \<Rightarrow> invocation \<Rightarrow>
     'd registry_world \<Rightarrow> invoke_world \<Rightarrow>
     (py_exn + invocation_result) \<times> 'd registry_world \<times> invoke_world" where
  "invoke_agent cfg env rcfg selected i g w =
     (case (case selected of Some d \<Rightarrow> (Inr (Some d), g) | None \<Rightarrow> get_definition rcfg (iv_agent i) g) of
        (Inl e, g') \<Rightarrow> (Inl e, g', w)
      | (Inr None, g') \<Rightarrow> (Inl (Invocation_Error ''Agent not found''), g', w)
      | (Inr (Some d), g') \<Rightarrow>
          if ad_id d \<noteq> iv_agent i
          then (Inl (Invocation_Error
                  ''Selected Agent definition does not match invocation target''), g', w)
          else (case invoke_definition cfg env d i w of (res, w') \<Rightarrow> (res, g', w')))"

end
