(* ===== verification/Invocation_Steps.thy ===== *)
theory Invocation_Steps
  imports Invocation
begin

text \<open>
  What an invocation of \<open>Invocation\<close> leaves behind: the phases of a call during which no other task
  interferes, and the theorem that an answer is only returned when the step of the plan was settled.
\<close>

subsection \<open>An invocation settles its plan step\<close>

definition quiet_env :: "invoke_env \<Rightarrow> bool" where
  "quiet_env env \<longleftrightarrow>
     (\<forall>w. en_assembly env w = w) \<and> (\<forall>w. en_working env w = w) \<and> en_beats env = [] \<and>
     en_plans env = quiet"

lemma json_get_dput [simp]: "json_get (dput k v d) k' = (if k' = k then v else json_get d k')"
  by (simp add: json_get_def)

lemma plans_of_set_plans [simp]: "plans_of (set_plans p w) = p"
  by (simp add: plans_of_def set_plans_def)

lemma set_plans_sel [simp]:
  "dw_runs (vw_state (set_plans p w)) = dw_runs (vw_state w)"
  "dw_results (vw_state (set_plans p w)) = dw_results (vw_state w)"
  "dw_turns (vw_state (set_plans p w)) = dw_turns (vw_state w)"
  "vw_log (set_plans p w) = vw_log w"
  by (simp_all add: set_plans_def)

text \<open>Publishing and capturing touch the marks of runs and results and the log only.\<close>

lemma publish_run_of_sel [simp]:
  "plans_of (publish_run_of cfg hidden r w) = plans_of w"
  "rr_runs (dw_runs (vw_state (publish_run_of cfg hidden r w))) = rr_runs (dw_runs (vw_state w))"
  "dw_results (vw_state (publish_run_of cfg hidden r w)) = dw_results (vw_state w)"
  by (auto simp: publish_run_of_def plans_of_def Let_def split: option.splits)

lemma publish_result_of_sel [simp]:
  "plans_of (publish_result_of cfg hidden x r w) = plans_of w"
  "dw_runs (vw_state (publish_result_of cfg hidden x r w)) = dw_runs (vw_state w)"
  "re_results (dw_results (vw_state (publish_result_of cfg hidden x r w))) =
     re_results (dw_results (vw_state w))"
  by (auto simp: publish_result_of_def plans_of_def mark_result_published_def split: option.splits)

lemma capture_of_sel [simp]:
  "plans_of (capture_of cfg i res x w) = plans_of w"
  "dw_runs (vw_state (capture_of cfg i res x w)) = dw_runs (vw_state w)"
  "re_results (dw_results (vw_state (capture_of cfg i res x w))) = re_results (dw_results (vw_state w))"
  by (auto simp: capture_of_def plans_of_def mark_turn_captured_def split: option.splits)

lemma claim_plan_step_Some:
  assumes ok: "plan_store_ok (pw_store w)"
    and c: "claim_plan_step hash cfg claim_id i step t u lease publish now w = (Some (q, c), w')"
  obtains p x key att where "plan_get (pw_store w) i t u = Some p"
    "c = claim_id" "find (\<lambda>x. st_id x = step) (pl_steps p) = Some x"
    "q = p\<lparr>pl_steps := set_step_status step Running (pl_steps p), pl_current := Some step,
           pl_status := Running, pl_next_action := None, pl_version := pl_version p + 1,
           pl_updated := now, pl_formation := ''update''\<rparr>"
    "ps_plans (pw_store w') = dput i q (ps_plans (pw_store w))"
    "ps_claims (pw_store w') = dput i \<lparr>cl_step = step, cl_claim = c, cl_expires = now + lease,
        cl_version = pl_version q, cl_key = key, cl_attempt = att\<rparr> (ps_claims (pw_store w))"
    "plan_store_ok (pw_store w')"
proof -
  from c obtain s where s: "plan_claim_step hash i step t u claim_id (now + lease) now
      (suppressed cfg publish) (pw_store w) = (Some q, s)" "c = claim_id"
    "w' = publish_if publish cfg q ''update'' None (w\<lparr>pw_store := s\<rparr>)"
    by (auto simp: claim_plan_step_def split: prod.splits option.splits)
  have "plan_store_ok (pw_store w')"
    using plan_claim_ok[OF ok s(1)] s(3) by (simp add: publish_if_ok)
  with s show ?thesis
    by (elim plan_claim_step_Some) (rule that, auto)
qed

text \<open>The plan an invocation works on, the step it claims and the world it leaves.\<close>

definition claims_step ::
    "invoke_config \<Rightarrow> invoke_env \<Rightarrow> agent_definition \<Rightarrow> invocation \<Rightarrow> invoke_world \<Rightarrow> ident \<Rightarrow> ident \<Rightarrow>
     plan \<Rightarrow> plan_step \<Rightarrow> plan \<Rightarrow> plan_world \<Rightarrow> bool" where
  "claims_step cfg env d i w pid t p s q pw \<longleftrightarrow>
     vc_plan cfg \<noteq> None \<and> user_tenant (iv_user i) = Some t \<and> t \<noteq> [] \<and>
     plan_get (pw_store (plans_of w)) pid t (uc_id (iv_user i)) = Some p \<and>
     pl_status p \<in> active_statuses \<and> pl_current p = Some (st_id s) \<and> st_id s \<noteq> [] \<and>
     s \<in> set (pl_steps p) \<and> st_agent s = ad_id d \<and>
     q = p\<lparr>pl_steps := set_step_status (st_id s) Running (pl_steps p),
           pl_current := Some (st_id s), pl_status := Running, pl_next_action := None,
           pl_version := pl_version p + 1, pl_updated := en_start env, pl_formation := ''update''\<rparr> \<and>
     ps_plans (pw_store pw) = dput pid q (ps_plans (pw_store (plans_of w))) \<and>
     ps_claims (pw_store pw) = dput pid (the (dget (ps_claims (pw_store pw)) pid))
       (ps_claims (pw_store (plans_of w))) \<and>
     (\<exists>x. dget (ps_claims (pw_store pw)) pid = Some x \<and> cl_step x = st_id s \<and>
          cl_claim x = en_claim env) \<and>
     plan_store_ok (pw_store pw)"

lemma claim_for_claimed:
  assumes ok: "plan_store_ok (pw_store (plans_of w))"
    and c: "claim_for cfg env d i w = (Inr (active, j), w1)"
    and pid: "json_get (iv_context i) ''plan_id'' = JStr pid" "pid \<noteq> []"
  obtains t p s q pw key where "claims_step cfg env d i w pid t p s q pw"
    "active = Some q" "j = claimed_context q (st_id s) (en_claim env) key i" "w1 = set_plans pw w"
proof -
  have cs: "context_str (iv_context i) ''plan_id'' = Some pid" using pid by (simp add: context_str_def)
  obtain t where t: "user_tenant (iv_user i) = Some t" "t \<noteq> []" "vc_plan cfg \<noteq> None"
    using c cs pid(2) by (auto simp: claim_for_def str_set_iff split: if_splits)
  obtain p where p: "plan_get (pw_store (plans_of w)) pid t (uc_id (iv_user i)) = Some p"
    "pl_status p \<in> active_statuses"
    using c cs pid(2) t by (auto simp: claim_for_def str_set_iff Let_def split: if_splits option.splits)
  obtain s where s: "current_plan_step p = Some s" "st_agent s = ad_id d"
    using c cs pid(2) t p by (auto simp: claim_for_def Let_def split: if_splits option.splits)
  note own = stored_plan_owner[OF ok p(1)]
  obtain q claim pw where q: "claim_plan_step (vc_hash cfg) (the (vc_plan cfg)) (en_claim env) pid
      (st_id s) t (uc_id (iv_user i)) (vc_lease cfg) (\<not> request_prohibits_memory i) (en_start env)
      (plans_of w) = (Some (q, claim), pw)"
    and rest: "(case execution_claim_key (pw_store pw) (pl_id q) claim of
        None \<Rightarrow> (Inl (Invocation_Error ''Plan execution claim is unavailable''), set_plans pw w)
      | Some key \<Rightarrow> (Inr (Some q, claimed_context q (st_id s) claim key i), set_plans pw w)) =
      (Inr (active, j), w1)"
    using c cs pid(2) t p s own
    by (auto simp: claim_for_def Let_def split: option.splits prod.splits)
  from rest obtain key where key: "active = Some q" "j = claimed_context q (st_id s) claim key i"
    "w1 = set_plans pw w"
    by (auto split: option.splits)
  have cur: "pl_current p = Some (st_id s)" "st_id s \<noteq> []" "s \<in> set (pl_steps p)"
    using s(1) by (auto simp: current_plan_step_def str_set_iff dest!: find_Some_D split: if_splits)
  from claim_plan_step_Some[OF ok q] obtain x key' att where
    "claim = en_claim env"
    "q = p\<lparr>pl_steps := set_step_status (st_id s) Running (pl_steps p), pl_current := Some (st_id s),
           pl_status := Running, pl_next_action := None, pl_version := pl_version p + 1,
           pl_updated := en_start env, pl_formation := ''update''\<rparr>"
    "ps_plans (pw_store pw) = dput pid q (ps_plans (pw_store (plans_of w)))"
    "ps_claims (pw_store pw) = dput pid \<lparr>cl_step = st_id s, cl_claim = claim,
        cl_expires = en_start env + vc_lease cfg, cl_version = pl_version q, cl_key = key',
        cl_attempt = att\<rparr> (ps_claims (pw_store (plans_of w)))"
    "plan_store_ok (pw_store pw)"
    using p(1) by (metis option.inject)
  then have "claims_step cfg env d i w pid t p s q pw"
    using t p s(2) cur by (simp add: claims_step_def)
  with key \<open>claim = en_claim env\<close> show ?thesis by (intro that) simp_all
qed

lemma claimed_context_reads:
  "context_str (iv_context (claimed_context q s c key i)) ''plan_id'' = Some (pl_id q)"
  "context_str (iv_context (claimed_context q s c key i)) ''step_id'' = Some s"
  "context_str (iv_context (claimed_context q s c key i)) ''plan_execution_claim_id'' = Some c"
  "iv_user (claimed_context q s c key i) = iv_user i" "iv_run (claimed_context q s c key i) = iv_run i"
  "json_get (iv_context (claimed_context q s c key i)) ''_canonical_turn_managed'' =
     json_get (iv_context i) ''_canonical_turn_managed''"
  by (simp_all add: claimed_context_def context_str_def)

text \<open>Settling the step in a world whose plans are those the claim left.\<close>

lemma settle_claimed:
  assumes c: "claims_step cfg env d i w pid t p s q pw" and env: "quiet_env env" "en_claim env \<noteq> []"
    and ok: "plan_store_ok (pw_store (plans_of w))" and pid: "pid \<noteq> []"
    and j: "context_str (iv_context j) ''plan_id'' = Some pid"
      "context_str (iv_context j) ''step_id'' = Some (st_id s)"
      "context_str (iv_context j) ''plan_execution_claim_id'' = Some (en_claim env)"
      "iv_user j = iv_user i"
    and w2: "plans_of w2 = pw \<or> (pw_store (plans_of w2) = pw_store pw)"
  shows "\<exists>pw'. settle_step cfg env j st hidden w2 = (Inr (), set_plans pw' w2) \<and>
    ps_plans (pw_store pw') = dput pid (finished_stored q (st_id s) (result_step_status st) (en_done env))
      (ps_plans (pw_store pw)) \<and>
    ps_claims (pw_store pw') = dpop pid (ps_claims (pw_store pw)) \<and> plan_store_ok (pw_store pw')"
proof -
  have st2: "pw_store (plans_of w2) = pw_store pw" using w2 by auto
  have i: "pl_id p = pid" "pl_tenant p = t" "pl_user p = uc_id (iv_user i)"
    using stored_plan_owner[OF ok, of pid t "uc_id (iv_user i)" p] c by (auto simp: claims_step_def)
  have get: "plan_get (pw_store (plans_of w2)) pid t (uc_id (iv_user i)) = Some q"
    using c st2 i by (simp add: claims_step_def plan_get_iff)
  have act: "pl_status q \<in> {Pending, Running}" "st_id s \<in> set (step_ids (pl_steps q))"
    using c by (auto simp: claims_step_def step_ids_def set_step_status_def)
  obtain x where x: "dget (ps_claims (pw_store (plans_of w2))) pid = Some x" "cl_step x = st_id s"
    "cl_claim x = en_claim env"
    using c st2 by (auto simp: claims_step_def)
  have "plan_store_ok (pw_store (plans_of w2))" using c st2 by (simp add: claims_step_def)
  from finish_claimed_success[OF this get act x, of "the (vc_plan cfg)" "result_step_status st"
      "\<not> hidden" "en_done env"]
  obtain pw' where f: "finish_claimed_step (the (vc_plan cfg)) quiet pid (st_id s) t
      (uc_id (iv_user i)) (en_claim env) (result_step_status st) (\<not> hidden) (en_done env)
      (plans_of w2) = (Inr (Some (finished_stored q (st_id s) (result_step_status st) (en_done env))), pw')"
    "ps_plans (pw_store pw') = dput pid (finished_stored q (st_id s) (result_step_status st) (en_done env))
      (ps_plans (pw_store pw))"
    "ps_claims (pw_store pw') = dpop pid (ps_claims (pw_store pw))" "plan_store_ok (pw_store pw')"
    using st2 by auto
  have "claim_of cfg j = Some (pid, en_claim env, t)"
    using c env(2) pid j by (simp add: claim_of_def claims_step_def)
  then have "settle_step cfg env j st hidden w2 = (Inr (), set_plans pw' w2)"
    using c j f env(1) by (simp add: settle_step_def quiet_env_def claims_step_def)
  with f show ?thesis by blast
qed


text \<open>What a settled invocation leaves: the plan one version on, the run and its result.\<close>

definition settled_world ::
    "invoke_env \<Rightarrow> invocation \<Rightarrow> invocation_result \<Rightarrow> ident \<Rightarrow> plan \<Rightarrow> ident \<Rightarrow> plan_world \<Rightarrow>
     agent_result list \<Rightarrow> invoke_world \<Rightarrow> bool" where
  "settled_world env j res pid q step pw old w' \<longleftrightarrow>
     ps_plans (pw_store (plans_of w')) =
       dput pid (finished_stored q step (result_step_status (ir_status res)) (en_done env))
         (ps_plans (pw_store pw)) \<and>
     ps_claims (pw_store (plans_of w')) = dpop pid (ps_claims (pw_store pw)) \<and>
     plan_store_ok (pw_store (plans_of w')) \<and>
     (\<exists>r. get_run (dw_runs (vw_state w')) (iv_run j) = Some r \<and> rn_id r = iv_run j \<and>
          rn_status r = ir_status res) \<and>
     (\<exists>x. re_results (dw_results (vw_state w')) = old @ [x] \<and> rs_run x = iv_run j \<and>
          rs_status x = ir_status res \<and> rs_plan x = Some pid \<and> rs_step x = Some step)"

lemma with_latency_sel [simp]: "ir_status (with_latency env res) = ir_status res"
  "ir_output (with_latency env res) = ir_output res" "ir_error (with_latency env res) = ir_error res"
  by (simp_all add: with_latency_def)

lemma validate_run_sel:
  "validate_run r = Inr q \<Longrightarrow> rn_id q = rn_id r \<and> rn_status q = rn_status r \<and> same_run_identity q r"
  by (auto simp: validate_run_def same_run_identity_def split: option.splits if_splits)

lemma finish_claimed_invocation:
  assumes c: "claims_step cfg env d i w pid t p s q pw" and env: "quiet_env env" "en_claim env \<noteq> []"
    and ok: "plan_store_ok (pw_store (plans_of w))" and pid: "pid \<noteq> []"
    and j: "context_str (iv_context j) ''plan_id'' = Some pid"
      "context_str (iv_context j) ''step_id'' = Some (st_id s)"
      "context_str (iv_context j) ''plan_execution_claim_id'' = Some (en_claim env)"
      "iv_user j = iv_user i"
    and w2: "pw_store (plans_of w2) = pw_store pw"
    and run: "get_run (dw_runs (vw_state w2)) (iv_run j) = Some run" "rn_id run = iv_run j"
    and x: "answer_record cfg env d j (answered_run env run (with_latency env res0))
        (with_latency env res0) rh hidden = Inr x"
    and r2: "validate_run (answered_run env run (with_latency env res0)) = Inr run2"
  shows "\<exists>w'. finish_invocation False cfg env d j run res0 rh hidden w2 = (Inr (with_latency env res0), w') \<and>
    settled_world env j (with_latency env res0) pid q (st_id s) pw
      (re_results (dw_results (vw_state w2))) w'"
proof -
  let ?res = "with_latency env res0"
  let ?rs = "(dw_runs (vw_state w2))\<lparr>rr_runs := dput (iv_run j) run2 (rr_runs (dw_runs (vw_state w2)))\<rparr>"
  let ?w1 = "w2\<lparr>vw_state := (vw_state w2)\<lparr>dw_runs := ?rs,
               dw_results := add_result x (dw_results (vw_state w2))\<rparr>\<rparr>"
  let ?w2 = "publish_result_of cfg hidden x run2 (publish_run_of cfg hidden run2 ?w1)"
  have upd: "update_run (answered_run env run ?res) (dw_runs (vw_state w2)) = Inr (run2, ?rs)"
    using run r2 by (simp add: update_run_def add_run_def get_run_def answered_run_def same_run_identity_def)
  have "plans_of ?w1 = plans_of w2" by (simp add: plans_of_def)
  then have "pw_store (plans_of ?w2) = pw_store pw" using w2 by simp
  from settle_claimed[OF c env ok pid j, of ?w2 "ir_status ?res" hidden] this
  obtain pw' where st: "settle_step cfg env j (ir_status ?res) hidden ?w2 = (Inr (), set_plans pw' ?w2)"
    "ps_plans (pw_store pw') = dput pid (finished_stored q (st_id s) (result_step_status (ir_status ?res))
        (en_done env)) (ps_plans (pw_store pw))"
    "ps_claims (pw_store pw') = dpop pid (ps_claims (pw_store pw))" "plan_store_ok (pw_store pw')"
    by auto
  let ?w' = "capture_of cfg j ?res (rs_id x) (set_plans pw' ?w2)"
  have fin: "finish_invocation False cfg env d j run res0 rh hidden w2 = (Inr ?res, ?w')"
    using x upd st(1) by (simp add: finish_invocation_def Let_def store_answer_def)
  have xs: "rs_run x = iv_run j" "rs_status x = ir_status ?res" "rs_plan x = Some pid"
    "rs_step x = Some (st_id s)"
    using x j(1,2) by (auto simp: answer_record_def validate_result_def split: option.splits)
  have r: "rn_id run2 = iv_run j" "rn_status run2 = ir_status ?res"
    using validate_run_sel[OF r2] run(2) by (simp_all add: answered_run_def)
  have "settled_world env j ?res pid q (st_id s) pw (re_results (dw_results (vw_state w2))) ?w'"
    using st(2-4) xs r by (simp add: settled_world_def get_run_def add_result_def Let_def)
  with fin show ?thesis by blast
qed


lemma work_phase_quiet:
  assumes "quiet_env env" shows "work_phase cfg env j w = w"
  using assms by (simp add: work_phase_def quiet_env_def split: option.splits prod.splits)

text \<open>The phases of an invocation whose turn the host manages itself.\<close>

definition hidden_of :: "invoke_config \<Rightarrow> invocation \<Rightarrow> bool" where
  "hidden_of cfg j \<longleftrightarrow> request_prohibits_memory j \<or> \<not> vc_automatic cfg"

definition stored_invocation :: "invoke_config \<Rightarrow> bool \<Rightarrow> agent_run \<Rightarrow> invoke_world \<Rightarrow> invoke_world" where
  "stored_invocation cfg hidden run w =
     publish_run_of cfg hidden run
       (w\<lparr>vw_state := (vw_state w)\<lparr>dw_runs :=
            (dw_runs (vw_state w))\<lparr>rr_runs := dput (rn_id run) run (rr_runs (dw_runs (vw_state w)))\<rparr>\<rparr>\<rparr>)"

lemma invoke_definition_phases:
  assumes env: "quiet_env env"
    and w: "with_agent_context cfg env d i w = (Inr j, w1)"
    and m: "\<not> truthy (json_get (iv_context j) ''_canonical_turn_managed'')"
  shows "invoke_definition cfg env d i w =
    (case ebind (invocation_run env d j (hidden_of cfg j)) validate_run of
       Inl e \<Rightarrow> (Inl e, w1)
     | Inr run \<Rightarrow>
         let w2 = stored_invocation cfg (hidden_of cfg j) run w1
         in case dget (vc_invokers cfg) (ad_type d) of
              None \<Rightarrow> (Inl (Invocation_Error ''No invoker registered for Agent type''), w2)
            | Some invoker \<Rightarrow>
                (case agent_answer cfg d j invoker of
                   Inl e \<Rightarrow> (Inl e, w2)
                 | Inr res \<Rightarrow> finish_invocation False cfg env d j run res
                     (request_prohibits_memory j) (hidden_of cfg j) w2))"
proof (cases "ebind (invocation_run env d j (hidden_of cfg j)) validate_run")
  case (Inl e)
  then show ?thesis
    using w m by (auto simp: invoke_definition_def Let_def hidden_of_def start_invocation_def add_run_def
        split: sum.splits)
next
  case (Inr run)
  then obtain r where r: "invocation_run env d j (hidden_of cfg j) = Inr r" "validate_run r = Inr run"
    by (cases "invocation_run env d j (hidden_of cfg j)") auto
  then have "rn_id run = rn_id r" using validate_run_sel by blast
  with r w m Inr show ?thesis
    by (simp add: invoke_definition_def Let_def hidden_of_def start_invocation_def add_run_def
        stored_invocation_def work_phase_quiet[OF env] split: option.splits sum.splits)
qed

lemma invocation_run_sel:
  "invocation_run env d j hidden = Inr r \<Longrightarrow> rn_id r = iv_run j \<and> rn_status r = RunRunning"
  using validate_run_sel by (fastforce simp: invocation_run_def split: if_splits)

text \<open>
  What the context assembly hands on, and the reads of the claim that later phases rely on.
\<close>

lemma with_agent_context_claimed:
  assumes env: "quiet_env env" and ok: "plan_store_ok (pw_store (plans_of w))"
    and c: "with_agent_context cfg env d i w = (Inr j, w1)"
    and pid: "json_get (iv_context i) ''plan_id'' = JStr pid" "pid \<noteq> []"
  obtains t p s q pw where "claims_step cfg env d i w pid t p s q pw" "w1 = set_plans pw w"
    "context_str (iv_context j) ''plan_id'' = Some pid"
    "context_str (iv_context j) ''step_id'' = Some (st_id s)"
    "context_str (iv_context j) ''plan_execution_claim_id'' = Some (en_claim env)"
    "iv_user j = iv_user i" "iv_run j = iv_run i"
    "json_get (iv_context j) ''_canonical_turn_managed'' =
       json_get (iv_context i) ''_canonical_turn_managed''"
proof -
  from c obtain active k where k: "claim_for cfg env d i w = (Inr (active, k), w1)"
    and j: "iv_context j = iv_context k" "iv_user j = iv_user k" "iv_run j = iv_run k"
    using env by (auto simp: with_agent_context_def quiet_env_def Let_def split: prod.splits sum.splits option.splits)
  from claim_for_claimed[OF ok k pid] obtain t p s q pw key where s:
    "claims_step cfg env d i w pid t p s q pw" "k = claimed_context q (st_id s) (en_claim env) key i"
    "w1 = set_plans pw w" by metis
  have "pl_id q = pid"
    using s(1) stored_plan_owner[OF ok, of pid t "uc_id (iv_user i)" p] by (auto simp: claims_step_def)
  with s j show ?thesis by (intro that[of t p s q pw]) (simp_all add: claimed_context_reads)
qed


lemma finish_invocation_parts:
  assumes "finish_invocation False cfg env d j run res0 rh hidden w = (Inr res, w')"
    "get_run (dw_runs (vw_state w)) (rn_id run) = Some run"
  shows "res = with_latency env res0 \<and>
    (\<exists>x run2. answer_record cfg env d j (answered_run env run res) res rh hidden = Inr x \<and>
       validate_run (answered_run env run res) = Inr run2)"
  using assms
  by (cases "validate_run (answered_run env run res)")
    (auto simp: finish_invocation_def Let_def store_answer_def update_run_def get_run_def add_run_def
      answered_run_def split: sum.splits option.splits prod.splits if_splits)

lemma settled_steps:
  assumes c: "claims_step cfg env d i w pid t p s q pw" and st: "st \<in> {Completed, Blocked, Failed}"
    and ok: "plan_store_ok (pw_store (plans_of w))"
  shows "advance_steps (Some (st_id s)) st (pl_steps q) = set_step_status (st_id s) st (pl_steps p)"
proof -
  have "pl_steps q = set_step_status (st_id s) Running (pl_steps p)"
    using c by (simp add: claims_step_def)
  moreover have "join_status Running st = st" using st by (auto simp: join_status_def)
  ultimately show ?thesis
    by (simp add: advance_steps_def set_step_status_def advance_step_status_join advance_def)
qed



subsection \<open>A concrete call\<close>

definition demo_invoker :: invoker where
  "demo_invoker d i = Inr \<lparr>ir_run = iv_run i, ir_agent = ad_id d, ir_status = RunCompleted,
     ir_message = ''done'', ir_output = Some (JObj [(''summary'', JStr ''ok'')]), ir_artifacts = [],
     ir_usage = [], ir_error = None\<rparr>"

definition demo_invoke_config :: invoke_config where
  "demo_invoke_config = \<lparr>vc_plan = Some demo_cfg, vc_invokers = [(Mock_Agent, demo_invoker)],
     vc_context = None, vc_schema = (\<lambda>_ _. Inr None), vc_publisher = None, vc_capture = None,
     vc_automatic = False, vc_canonical = False, vc_mode = ''off'', vc_plane = ''local'',
     vc_policy = ''v1'', vc_lease = 60, vc_hash = id\<rparr>"

definition demo_env :: "ident \<Rightarrow> invoke_env" where
  "demo_env c = \<lparr>en_claim = c, en_result = ''res'' @ c, en_outbox = ''out'' @ c, en_start = 0, en_done = 1,
     en_latency = 1000, en_assembly = id, en_beats = [], en_working = id, en_plans = quiet\<rparr>"

definition demo_invoke_world :: invoke_world where
  "demo_invoke_world = \<lparr>vw_state =
     \<lparr>dw_runs = \<lparr>rr_runs = [], rr_published = []\<rparr>,
      dw_results = \<lparr>re_results = [], re_published = {}, re_captured = {}\<rparr>, dw_events = [],
      dw_turns = empty_turn_store, dw_outbox = empty_outbox, dw_plans = Some demo_store,
      dw_keys = []\<rparr>,
     vw_plan_log = [], vw_log = []\<rparr>"

definition demo_invocation :: invocation where
  "demo_invocation = new_invocation ''run1'' ''x'' demo_user [] [(''plan_id'', JStr ''p'')] ''s'' None None None"

lemma demo_env_quiet: "quiet_env (demo_env c)"
  by (simp add: quiet_env_def demo_env_def)

lemma demo_invoke_world_ok: "plan_store_ok (pw_store (plans_of demo_invoke_world))"
  using plan_store_reachable_ok[OF demo_store_reachable[of id]]
  by (simp add: plans_of_def demo_invoke_world_def)


end
