(* ===== verification/Plan_Executor.thy ===== *)
theory Plan_Executor
  imports Invocation_Steps
begin

text \<open>
  The execution of a plan (\<open>app/services/plan_executor.py\<close>): \<open>PlanExecutor.execute\<close> chooses a
  ready step, invokes its agent through \<open>Invocation\<close> and goes on until the plan ends, blocks or
  \<open>max_steps\<close> calls were made. The \<open>for\<close> loop over \<open>range(max_steps)\<close> is a recursion over that
  number.

  Optional dictionaries of the request (\<open>input_values\<close>, \<open>context\<close>) are read as \<open>x or {}\<close> at every
  place, so they are dictionaries here. Messages outside ASCII are written as their UTF-8 bytes.
\<close>

subsection \<open>Choosing a step\<close>

definition ready_steps :: "plan_step list \<Rightarrow> plan_step list" where
  "ready_steps ss = filter (is_ready ss) ss"

definition all_steps_completed :: "plan_step list \<Rightarrow> bool" where
  "all_steps_completed ss \<longleftrightarrow> (\<forall>s\<in>set ss. st_status s = Completed)"

definition select_executable_step :: "plan \<Rightarrow> bool \<Rightarrow> plan_step option" where
  "select_executable_step p resuming =
     (let current = find (\<lambda>s. Some (st_id s) = pl_current p) (pl_steps p);
          ready = (case ready_steps (pl_steps p) of [] \<Rightarrow> None | s # _ \<Rightarrow> Some s)
      in case current of
           None \<Rightarrow> ready
         | Some s \<Rightarrow>
             if (st_status s = Running \<or> resuming \<and> st_status s = Blocked) \<and> deps_met (pl_steps p) s
             then Some s else ready)"

text \<open>\<open>_next_step_id\<close> and \<open>_plan_status\<close> of the executor; the plan service has its own.\<close>

definition executor_next_step :: "plan_step list \<Rightarrow> ident option" where
  "executor_next_step ss =
     map_option st_id
       (find (\<lambda>s. st_status s \<in> {Running, Blocked, Failed} \<or> is_ready ss s) ss)"

definition executor_plan_status ::
    "plan_step list \<Rightarrow> ident option \<Rightarrow> next_action option \<Rightarrow> plan_status" where
  "executor_plan_status ss current na =
     (if \<exists>s\<in>set ss. st_status s = Failed then Failed
      else if na \<noteq> None \<and> na_type (the na) \<in> {Open_Ui, Collect_Input, Wait_For_Agent_Event} then Blocked
      else if \<exists>s\<in>set ss. st_status s = Blocked then Blocked
      else if \<forall>s\<in>set ss. st_status s = Completed then Completed
      else if str_set current then Running
      else Pending)"

definition updated_step_status ::
    "plan \<Rightarrow> plan_step \<Rightarrow> step_status \<Rightarrow> next_action option \<Rightarrow> plan" where
  "updated_step_status p s st na =
     (let ss = set_step_status (st_id s) st (pl_steps p); current = executor_next_step ss
      in p\<lparr>pl_status := executor_plan_status ss current na, pl_current := current,
           pl_next_action := na, pl_steps := ss\<rparr>)"

definition trusted_plan_user :: "user_context \<Rightarrow> py_exn + user_context" where
  "trusted_plan_user u =
     (if str_set (user_tenant u) then Inr u
      else Inl (Value_Error ''Trusted tenant identity is required to execute a Plan''))"

definition ensure_agents_available ::
    "plan \<Rightarrow> (ident, agent_definition) dict \<Rightarrow> py_exn + unit" where
  "ensure_agents_available p selected =
     (case find (\<lambda>s. st_status s \<notin> {Completed, Failed, Cancelled} \<and> dget selected (st_agent s) = None)
             (pl_steps p) of
        None \<Rightarrow> Inr ()
      | Some s \<Rightarrow> Inl (Agent_Unavailable (''Agent is not available: '' @ st_agent s)))"

subsection \<open>Inputs and results of a step\<close>

fun run_status_name :: "run_status \<Rightarrow> string" where
  "run_status_name RunPending = ''pending''"
| "run_status_name RunRunning = ''running''"
| "run_status_name RunCompleted = ''completed''"
| "run_status_name RunFailed = ''failed''"
| "run_status_name RunBlocked = ''blocked''"
| "run_status_name RunClarify = ''clarify''"
| "run_status_name RunInvalidOutput = ''invalid_output''"
| "run_status_name RunCancelled = ''cancelled''"
| "run_status_name RunTimedOut = ''timed_out''"

definition result_payload :: "plan_step \<Rightarrow> invocation_result \<Rightarrow> json" where
  "result_payload s res =
     JObj [(''step_id'', JStr (st_id s)), (''agent_id'', JStr (st_agent s)),
           (''run_id'', JStr (ir_run res)), (''status'', JStr (run_status_name (ir_status res))),
           (''message'', JStr (ir_message res)),
           (''output'', case ir_output res of None \<Rightarrow> JNull | Some j \<Rightarrow> j),
           (''artifact_refs'', JList (ir_artifacts res)),
           (''error'', case ir_error res of None \<Rightarrow> JNull | Some e \<Rightarrow> error_json e)]"

text \<open>\<open>list(context.get("previous_results") or [])\<close> for any JSON value the caller passes.\<close>

definition previous_of :: "(string, json) dict \<Rightarrow> py_exn + json list" where
  "previous_of ctx =
     (let v = json_get ctx ''previous_results''
      in if \<not> truthy v then Inr []
         else case v of
           JList xs \<Rightarrow> Inr xs
         | JObj kvs \<Rightarrow> Inr (map (\<lambda>(k, _). JStr k) kvs)
         | JStr s \<Rightarrow> Inr (map (\<lambda>c. JStr [c]) s)
         | _ \<Rightarrow> Inl Type_Error)"

definition set_default :: "string \<Rightarrow> json \<Rightarrow> (string, json) dict \<Rightarrow> (string, json) dict" where
  "set_default k v d = (if dget d k = None then dput k v d else d)"

definition merge_output_item :: "string \<times> json \<Rightarrow> (string, json) dict \<Rightarrow> (string, json) dict" where
  "merge_output_item kv d =
     (let d1 = set_default (fst kv) (snd kv) d
      in if fst kv = ''summary''
         then set_default ''query'' (snd kv)
                (set_default ''title'' (snd kv) (set_default ''text'' (snd kv) d1))
         else d1)"

definition merge_step_inputs ::
    "(string, json) dict \<Rightarrow> json list \<Rightarrow> py_exn + (string, json) dict" where
  "merge_step_inputs values previous =
     (if previous = [] then Inr values
      else case last previous of
        JObj kvs \<Rightarrow>
          (case dget kvs ''output'' of
             Some (JObj output) \<Rightarrow> Inr (fold merge_output_item output values)
           | _ \<Rightarrow> Inr values)
      | _ \<Rightarrow> Inl Attribute_Error)"

definition plan_execution_prohibits_memory ::
    "(string, json) dict \<Rightarrow> (string, json) dict \<Rightarrow> bool" where
  "plan_execution_prohibits_memory values ctx \<longleftrightarrow> source_prohibits values \<or> source_prohibits ctx"


subsection \<open>The execution\<close>

text \<open>
  A request and its environment: the identifiers and times of each iteration, what other tasks do
  before a plan is read or written and around the invocation, all by the number of the iteration.
\<close>

record exec_request =
  eq_plan :: ident
  eq_user :: user_context
  eq_input :: "(string, json) dict"
  eq_context :: "(string, json) dict"
  eq_agents :: "(ident, agent_definition) dict"

record exec_env =
  xe_run :: "nat \<Rightarrow> ident"
  xe_call :: "nat \<Rightarrow> invoke_env"
  xe_now :: "nat \<Rightarrow> time"
  xe_saves :: "nat \<Rightarrow> nat \<Rightarrow> interference"
  xe_others :: "nat \<Rightarrow> nat \<Rightarrow> invoke_world \<Rightarrow> invoke_world"

record exec_state =
  xs_plan :: plan
  xs_results :: "json list"
  xs_next :: "next_action option"
  xs_context :: "(string, json) dict"
  xs_previous :: "json list"

record execution_response =
  px_plan :: plan
  px_results :: "json list"
  px_next :: "next_action option"

datatype exec_choice =
    Stop plan "next_action option"
  | Run_Step plan plan_step

datatype exec_outcome = Answer execution_response | Continue exec_state

definition tenant_of :: "exec_request \<Rightarrow> ident" where
  "tenant_of q = (case user_tenant (eq_user q) of None \<Rightarrow> [] | Some t \<Rightarrow> t)"

definition load_plan :: "exec_request \<Rightarrow> invoke_world \<Rightarrow> py_exn + plan" where
  "load_plan q w =
     (case plan_get (pw_store (plans_of w)) (eq_plan q) (tenant_of q) (uc_id (eq_user q)) of
        None \<Rightarrow> Inl (Value_Error ''Plan not found'')
      | Some p \<Rightarrow> Inr p)"

definition publishes :: "exec_request \<Rightarrow> bool" where
  "publishes q \<longleftrightarrow> \<not> plan_execution_prohibits_memory (eq_input q) (eq_context q)"

definition save_in ::
    "invoke_config \<Rightarrow> exec_request \<Rightarrow> interference \<Rightarrow> time \<Rightarrow> plan \<Rightarrow> invoke_world \<Rightarrow>
     (py_exn + plan) \<times> invoke_world" where
  "save_in cfg q others now p w =
     (case save_plan (the (vc_plan cfg)) others p None None None (publishes q) now (plans_of w) of
        (r, pw) \<Rightarrow> (r, set_plans pw w))"

definition save_and_stop ::
    "invoke_config \<Rightarrow> exec_request \<Rightarrow> interference \<Rightarrow> time \<Rightarrow> plan \<Rightarrow> next_action option \<Rightarrow>
     invoke_world \<Rightarrow> (py_exn + exec_choice) \<times> invoke_world" where
  "save_and_stop cfg q others now p na w =
     (case save_in cfg q others now p w of
        (Inl e, w') \<Rightarrow> (Inl e, w')
      | (Inr stored, w') \<Rightarrow> (Inr (Stop stored na), w'))"

text \<open>The first half of an iteration: reload the plan, stop or choose and mark the next step.\<close>

definition choose_step ::
    "invoke_config \<Rightarrow> exec_env \<Rightarrow> exec_request \<Rightarrow> nat \<Rightarrow> invoke_world \<Rightarrow>
     (py_exn + exec_choice) \<times> invoke_world" where
  "choose_step cfg x q n w =
     (case load_plan q w of
        Inl e \<Rightarrow> (Inl e, w)
      | Inr p \<Rightarrow>
          let resuming = (eq_input q \<noteq> [] \<or> eq_context q \<noteq> []);
              ended = (\<lambda>st. p\<lparr>pl_status := st, pl_current := None, pl_next_action := None\<rparr>)
          in if pl_status p = Completed then
               (if \<not> all_steps_completed (pl_steps p)
                then (Inl (Plan_State_Conflict ''Plan is marked completed before every Step completed''), w)
                else (Inr (Stop p (pl_next_action p)), w))
             else if pl_status p \<in> {Failed, Cancelled} then (Inr (Stop p (pl_next_action p)), w)
             else if \<exists>s\<in>set (pl_steps p). st_status s = Failed
             then save_and_stop cfg q (xe_saves x n 0) (xe_now x n) (ended Failed) None w
             else if all_steps_completed (pl_steps p)
             then save_and_stop cfg q (xe_saves x n 0) (xe_now x n) (ended Completed) None w
             else if pl_status p = Blocked \<and> \<not> resuming then (Inr (Stop p (pl_next_action p)), w)
             else case select_executable_step p resuming of
               None \<Rightarrow>
                 if \<exists>s\<in>set (pl_steps p). st_status s = Blocked
                 then (Inr (Stop p (pl_next_action p)), w)
                 else (Inl (Plan_State_Conflict ''Plan has incomplete Steps but no ready Step''), w)
             | Some s \<Rightarrow>
                 if st_status s = Pending \<and>
                    (pl_current p \<noteq> Some (st_id s) \<or> pl_status p \<noteq> Running \<or> pl_next_action p \<noteq> None)
                 then (case save_in cfg q (xe_saves x n 0) (xe_now x n)
                              (p\<lparr>pl_status := Running, pl_current := Some (st_id s),
                                 pl_next_action := None\<rparr>) w of
                         (Inl e, w') \<Rightarrow> (Inl e, w')
                       | (Inr p', w') \<Rightarrow> (Inr (Run_Step p' s), w'))
                 else (Inr (Run_Step p s), w))"

text \<open>The messages, as UTF-8 bytes.\<close>

definition open_ui_message :: string where
  "open_ui_message = map char_of [233::nat, 156, 128, 232, 166, 129, 229, 174, 191, 228, 184, 187,
     229, 186, 148, 231, 148, 168, 230, 137, 147, 229, 188, 128, 229, 175, 185, 229, 186, 148, 231,
     149, 140, 233, 157, 162, 231, 187, 167, 231, 187, 173, 230, 137, 167, 232, 161, 140, 227, 128, 130]"

definition wait_message :: string where
  "wait_message = map char_of [232::nat, 175, 165, 230, 173, 165, 233, 170, 164, 233, 156, 128, 232,
     166, 129, 229, 164, 150, 233, 131, 168, 32, 65, 103, 101, 110, 116, 32, 82, 117, 110, 116, 105,
     109, 101, 32, 230, 136, 150, 229, 174, 191, 228, 184, 187, 229, 186, 148, 231, 148, 168, 231,
     187, 167, 231, 187, 173, 230, 137, 167, 232, 161, 140, 227, 128, 130]"

definition missing_message :: "string list \<Rightarrow> string" where
  "missing_message missing =
     map char_of [231::nat, 188, 186, 229, 176, 145, 229, 191, 133, 232, 166, 129, 232, 190, 147,
       229, 133, 165, 239, 188, 154] @ join_comma missing @ map char_of [227::nat, 128, 130]"

definition action_for ::
    "next_action_type \<Rightarrow> string \<Rightarrow> plan \<Rightarrow> plan_step \<Rightarrow> agent_definition \<Rightarrow> next_action" where
  "action_for t message p s d =
     \<lparr>na_type = t, na_message = message, na_agent = Some (ad_id d), na_plan = Some (pl_id p),
      na_step = Some (st_id s), na_route = None, na_params = JObj [], na_metadata = JObj []\<rparr>"

text \<open>The next action that keeps the executor from invoking the agent itself, if there is one.\<close>

definition obstacle ::
    "invoke_config \<Rightarrow> plan \<Rightarrow> plan_step \<Rightarrow> agent_definition \<Rightarrow> (string, json) dict \<Rightarrow>
     next_action option" where
  "obstacle cfg p s d input =
     (if ad_type d = Ui_Handoff
      then Some ((action_for Open_Ui open_ui_message p s d)
                   \<lparr>na_route := uh_route (ad_ui d), na_params := uh_params (ad_ui d)\<rparr>)
      else if dget (vc_invokers cfg) (ad_type d) = None
      then Some (action_for Wait_For_Agent_Event wait_message p s d)
      else
        let missing = missing_required_inputs d input
        in if missing = [] then None
           else Some ((action_for Collect_Input (missing_message missing) p s d)
                   \<lparr>na_metadata := JObj [(''missing_inputs'', JList (map JStr missing))]\<rparr>))"

definition step_invocation ::
    "exec_env \<Rightarrow> exec_request \<Rightarrow> exec_state \<Rightarrow> nat \<Rightarrow> plan \<Rightarrow> plan_step \<Rightarrow> agent_definition \<Rightarrow>
     (string, json) dict \<Rightarrow> invocation" where
  "step_invocation x q st n p s d input =
     new_invocation (xe_run x n) (ad_id d) (eq_user q) input
       (dput ''previous_results'' (JList (xs_previous st))
         (dput ''step_id'' (JStr (st_id s)) (dput ''plan_id'' (JStr (pl_id p)) (xs_context st))))
       (case pl_session p of None \<Rightarrow> [] | Some t \<Rightarrow> t) None None None"

definition already_executing :: py_exn where
  "already_executing = Invocation_Error ''Plan step is already executing''"

text \<open>The second half: invoke the agent of the chosen step and record its answer.\<close>

definition answer_with ::
    "exec_state \<Rightarrow> plan \<Rightarrow> next_action option \<Rightarrow> (py_exn + exec_outcome)" where
  "answer_with st p na = Inr (Answer \<lparr>px_plan = p, px_results = xs_results st, px_next = na\<rparr>)"

definition record_answer ::
    "exec_request \<Rightarrow> exec_state \<Rightarrow> plan_step \<Rightarrow> invocation_result \<Rightarrow> invoke_world \<Rightarrow>
     py_exn + exec_outcome" where
  "record_answer q st s res w =
     (let payload = result_payload s res;
          results = xs_results st @ [payload]; previous = xs_previous st @ [payload]
      in ebind (load_plan q w) (\<lambda>p.
           let st' = \<lparr>xs_plan = p, xs_results = results, xs_next = xs_next st,
                      xs_context = dput ''previous_results'' (JList previous) (xs_context st),
                      xs_previous = previous\<rparr>
           in if pl_status p \<in> {Completed, Failed, Blocked, Cancelled} \<or>
                 result_step_status (ir_status res) \<noteq> Completed
              then answer_with st' p (pl_next_action p)
              else Inr (Continue st')))"

definition run_step ::
    "invoke_config \<Rightarrow> exec_env \<Rightarrow> exec_request \<Rightarrow> registry_config \<Rightarrow> nat \<Rightarrow> exec_state \<Rightarrow> plan \<Rightarrow>
     plan_step \<Rightarrow> 'd registry_world \<Rightarrow> invoke_world \<Rightarrow> (py_exn + exec_outcome) \<times> invoke_world" where
  "run_step cfg x q rcfg n st p s g w =
     (case dget (eq_agents q) (st_agent s) of
        None \<Rightarrow> (Inl (Runtime_Error ''KeyError''), w)
      | Some d \<Rightarrow>
          let block = (\<lambda>na. case save_in cfg q (xe_saves x n 1) (xe_now x n)
                                   (updated_step_status p s Blocked (Some na)) w of
                         (Inl e, w') \<Rightarrow> (Inl e, w')
                       | (Inr stored, w') \<Rightarrow> (answer_with st stored (Some na), w'))
          in if ad_type d = Ui_Handoff \<or> dget (vc_invokers cfg) (ad_type d) = None
             then block (the (obstacle cfg p s d []))
             else case merge_step_inputs (eq_input q) (xs_previous st) of
               Inl e \<Rightarrow> (Inl e, w)
             | Inr merged \<Rightarrow>
                 let input = build_invocation_input d None merged
                 in case obstacle cfg p s d input of
                      Some na \<Rightarrow> block na
                    | None \<Rightarrow>
                        (case invoke_agent cfg (xe_call x n) rcfg (Some d)
                                (step_invocation x q st n p s d input) g (xe_others x n 1 w) of
                           (Inl e, _, w') \<Rightarrow>
                             let w'' = xe_others x n 2 w'
                             in if e = already_executing
                                then (ebind (load_plan q w'') (\<lambda>p'. answer_with st p' (pl_next_action p')), w'')
                                else (Inl e, w')
                         | (Inr res, _, w') \<Rightarrow>
                             let w'' = xe_others x n 2 w'
                             in (record_answer q st s res w'', w'')))"

fun execute_steps ::
    "invoke_config \<Rightarrow> exec_env \<Rightarrow> exec_request \<Rightarrow> registry_config \<Rightarrow> nat \<Rightarrow> nat \<Rightarrow> exec_state \<Rightarrow>
     'd registry_world \<Rightarrow> invoke_world \<Rightarrow> (py_exn + execution_response) \<times> invoke_world" where
  "execute_steps cfg x q rcfg 0 n st g w =
     (Inr \<lparr>px_plan = xs_plan st, px_results = xs_results st, px_next = xs_next st\<rparr>, w)"
| "execute_steps cfg x q rcfg (Suc k) n st g w =
     (case choose_step cfg x q n (xe_others x n 0 w) of
        (Inl e, w1) \<Rightarrow> (Inl e, w1)
      | (Inr (Stop p na), w1) \<Rightarrow> (Inr \<lparr>px_plan = p, px_results = xs_results st, px_next = na\<rparr>, w1)
      | (Inr (Run_Step p s), w1) \<Rightarrow>
          (case run_step cfg x q rcfg n st p s g w1 of
             (Inl e, w2) \<Rightarrow> (Inl e, w2)
           | (Inr (Answer a), w2) \<Rightarrow> (Inr a, w2)
           | (Inr (Continue st'), w2) \<Rightarrow> execute_steps cfg x q rcfg k (Suc n) st' g w2))"

text \<open>\<open>preflight\<close>: the definitions available to the user, which must cover the open steps.\<close>

definition preflight ::
    "exec_request \<Rightarrow> registry_config \<Rightarrow> 'd registry_world \<Rightarrow> invoke_world \<Rightarrow>
     (py_exn + (ident, agent_definition) dict) \<times> 'd registry_world" where
  "preflight q rcfg g w =
     (case ebind (trusted_plan_user (eq_user q)) (\<lambda>_. load_plan q w) of
        Inl e \<Rightarrow> (Inl e, g)
      | Inr p \<Rightarrow>
          (case available_definitions rcfg (eq_user q) g of
             (Inl e, g') \<Rightarrow> (Inl e, g')
           | (Inr ds, g') \<Rightarrow>
               let selected = fold (\<lambda>d m. dput (ad_id d) d m) ds []
               in (ebind (ensure_agents_available p selected) (\<lambda>_. Inr selected), g')))"

definition execute_plan ::
    "invoke_config \<Rightarrow> exec_env \<Rightarrow> exec_request \<Rightarrow> registry_config \<Rightarrow> nat \<Rightarrow>
     (ident, agent_definition) dict option \<Rightarrow> 'd registry_world \<Rightarrow> invoke_world \<Rightarrow>
     (py_exn + execution_response) \<times> 'd registry_world \<times> invoke_world" where
  "execute_plan cfg x q rcfg max_steps selected g w =
     (case ebind (trusted_plan_user (eq_user q)) (\<lambda>_. load_plan q w) of
        Inl e \<Rightarrow> (Inl e, g, w)
      | Inr p \<Rightarrow>
          (case (case selected of Some m \<Rightarrow> (Inr m, g) | None \<Rightarrow> preflight q rcfg g w) of
             (Inl e, g') \<Rightarrow> (Inl e, g', w)
           | (Inr m, g') \<Rightarrow>
               (case ebind (ensure_agents_available p m) (\<lambda>_. previous_of (eq_context q)) of
                  Inl e \<Rightarrow> (Inl e, g', w)
                | Inr previous \<Rightarrow>
                    (case execute_steps cfg x (q\<lparr>eq_agents := m\<rparr>) rcfg max_steps 0
                            \<lparr>xs_plan = p, xs_results = [], xs_next = pl_next_action p,
                             xs_context = eq_context q, xs_previous = previous\<rparr> g' w of
                       (r, w') \<Rightarrow> (r, g', w')))))"

end
