(* ===== verification/Plan_Execution.thy ===== *)
theory Plan_Execution
  imports Plan_Executor
begin

text \<open>
  Properties of \<open>PlanExecutor.execute\<close>: with reliable agents a plan runs through, by an invariant of
  the loop (\<open>runnable\<close>) and the number of pending steps as its measure; in every case the number of
  invocations is bounded.
\<close>

subsection \<open>Reliable agents\<close>

text \<open>
  The situation in which a plan is expected to run through: no other task interferes, the context
  assembly answers, and every agent can be invoked by the process, needs no input and completes.
\<close>

definition reliable :: "invoke_config \<Rightarrow> agent_definition \<Rightarrow> bool" where
  "reliable cfg d \<longleftrightarrow>
     ad_type d \<noteq> Ui_Handoff \<and> sc_required (ad_input_schema d) = [] \<and>
     (\<exists>inv. dget (vc_invokers cfg) (ad_type d) = Some inv \<and>
        (\<forall>i. \<exists>res. agent_answer cfg d i inv = Inr res \<and> ir_status res = RunCompleted \<and>
             ir_error res = None \<and> (\<forall>j. ir_output res = Some j \<longrightarrow> no_knowledge j)))"

definition assembles :: "invoke_config \<Rightarrow> bool" where
  "assembles cfg \<longleftrightarrow>
     (\<forall>a. vc_context cfg = Some a \<longrightarrow>
        (\<forall>d i input t turn p. \<exists>m k. a d i input t turn p = Inr (m, k) \<and> length (mx_items m) \<le> 50))"

definition quiet_exec :: "exec_env \<Rightarrow> bool" where
  "quiet_exec x \<longleftrightarrow>
     (\<forall>n. quiet_env (xe_call x n) \<and> en_claim (xe_call x n) \<noteq> [] \<and> (\<forall>k. xe_saves x n k = quiet) \<and>
          (\<forall>k w. xe_others x n k w = w))"

subsection \<open>A reliable agent settles its step\<close>

lemma claim_plan_step_free:
  assumes ok: "plan_store_ok (pw_store w)" and p: "plan_get (pw_store w) i t u = Some p"
    and act: "pl_status p \<in> active_statuses" and free: "dget (ps_claims (pw_store w)) i = None"
    and s: "find (\<lambda>x. st_id x = step) (pl_steps p) = Some s" "st_status s = Pending"
  shows "\<exists>q w' key. claim_plan_step hash cfg claim i step t u lease publish now w = (Some (q, claim), w') \<and>
    execution_claim_key (pw_store w') (pl_id q) claim = Some key"
proof -
  have i: "pl_id p = i" using stored_plan_owner[OF ok p] by simp
  have sf: "ps_claims (suppress_formation b j v z) = ps_claims z" for b j v z
    by (simp add: suppress_formation_def)
  have pi: "ps_claims (pw_store (publish_if b cfg x ty ev z)) = ps_claims (pw_store z)" for b x ty ev z
    by (auto simp: publish_if_def publish_plan_def mark_plan_published_def Let_def split: option.splits)
  show ?thesis
    using p act free s i
    by (simp add: claim_plan_step_def plan_claim_step_def Let_def claim_expired_def execution_claim_key_def
        sf pi)
qed

lemma find_st_id: "distinct (step_ids ss) \<Longrightarrow> s \<in> set ss \<Longrightarrow> find (\<lambda>x. st_id x = st_id s) ss = Some s"
  by (induction ss) (auto simp: step_ids_def)

lemma invoke_reliable:
  assumes env: "quiet_env env" "en_claim env \<noteq> []" and cfg: "assembles cfg" "vc_plan cfg \<noteq> None"
    and d: "reliable cfg d"
    and ok: "plan_store_ok (pw_store (plans_of w))"
    and ctx: "json_get (iv_context i) ''plan_id'' = JStr pid" "pid \<noteq> []"
      "\<not> truthy (json_get (iv_context i) ''_canonical_turn_managed'')"
    and i: "user_tenant (iv_user i) = Some t" "t \<noteq> []" "no_knowledge (JObj (iv_input i))"
      "iv_memory i = empty_memory_context" "iv_knowledge i = empty_knowledge_context"
    and p: "plan_get (pw_store (plans_of w)) pid t (uc_id (iv_user i)) = Some p"
      "pl_status p \<in> active_statuses" "dget (ps_claims (pw_store (plans_of w))) pid = None"
    and s: "pl_current p = Some (st_id s)" "st_id s \<noteq> []" "s \<in> set (pl_steps p)"
      "st_status s = Pending" "st_agent s = ad_id d"
  shows "\<exists>res w' q pw. invoke_definition cfg env d i w = (Inr res, w') \<and>
    claims_step cfg env d i w pid t p s q pw \<and> ir_status res = RunCompleted \<and> ir_error res = None \<and>
    (\<forall>j. ir_output res = Some j \<longrightarrow> no_knowledge j) \<and>
    ps_plans (pw_store (plans_of w')) =
      dput pid (finished_stored q (st_id s) Completed (en_done env)) (ps_plans (pw_store pw)) \<and>
    ps_claims (pw_store (plans_of w')) = dpop pid (ps_claims (pw_store pw)) \<and>
    plan_store_ok (pw_store (plans_of w'))"
proof -
  have own: "pl_id p = pid" "pl_tenant p = t" "pl_user p = uc_id (iv_user i)"
    using stored_plan_owner[OF ok p(1)] by auto
  have dist: "distinct (step_ids (pl_steps p))"
    using ok p(1) by (auto simp: plan_store_ok_def plan_get_iff steps_wf_def)
  then have fs: "find (\<lambda>x. st_id x = st_id s) (pl_steps p) = Some s" using s(3) by (rule find_st_id)
  have cur: "current_plan_step p = Some s" using s(1,2) fs by (simp add: current_plan_step_def str_set_iff)
  obtain q0 pw0 key0 where q0: "claim_plan_step (vc_hash cfg) (the (vc_plan cfg)) (en_claim env) pid (st_id s)
      t (uc_id (iv_user i)) (vc_lease cfg) (\<not> request_prohibits_memory i) (en_start env) (plans_of w) =
      (Some (q0, en_claim env), pw0)" "execution_claim_key (pw_store pw0) (pl_id q0) (en_claim env) = Some key0"
    using claim_plan_step_free[OF ok p fs s(4)] by blast
  have cs: "context_str (iv_context i) ''plan_id'' = Some pid" using ctx(1) by (simp add: context_str_def)
  have claim: "claim_for cfg env d i w =
      (Inr (Some q0, claimed_context q0 (st_id s) (en_claim env) key0 i), set_plans pw0 w)"
    using cs ctx(2) i(1,2) cfg(2) p(1,2) cur s(5) own q0
    by (simp add: claim_for_def Let_def str_set_iff)
  let ?k = "claimed_context q0 (st_id s) (en_claim env) key0 i"
  have k: "iv_input ?k = iv_input i" "iv_memory ?k = iv_memory i" "iv_knowledge ?k = iv_knowledge i"
    by (simp_all add: claimed_context_def)
  have ai: "assembly_input ?k = iv_input i"
    using i(4,5) k by (simp add: assembly_input_def Let_def has_memory_context_def has_knowledge_context_def
        empty_memory_context_def empty_knowledge_context_def)
  obtain j where j: "with_agent_context cfg env d i w = (Inr j, set_plans pw0 w)"
    "iv_input j = iv_input i" "length (mx_items (iv_memory j)) \<le> 50"
  proof (cases "vc_context cfg")
    case None
    then show ?thesis
      using claim k i(4) by (intro that[of ?k]) (simp_all add: with_agent_context_def empty_memory_context_def)
  next
    case (Some a)
    then obtain m kn where m: "a d ?k (iv_input i) (query_text (iv_input i)) (assembly_turn cfg ?k) (Some q0) = Inr (m, kn)"
      "length (mx_items m) \<le> 50" using cfg(1) unfolding assembles_def by meson
    then show ?thesis
      using claim ai Some env(1)
      by (intro that[of "?k\<lparr>iv_input := iv_input i, iv_memory := m, iv_knowledge := kn,
                iv_handle := None, iv_trace := None\<rparr>"])
        (simp_all add: with_agent_context_def Let_def quiet_env_def)
  qed
  obtain t' p' s' q pw where
    c': "claims_step cfg env d i w pid t' p' s' q pw" and pw: "set_plans pw0 w = set_plans pw w"
    and r: "context_str (iv_context j) ''plan_id'' = Some pid"
      "context_str (iv_context j) ''step_id'' = Some (st_id s')"
      "context_str (iv_context j) ''plan_execution_claim_id'' = Some (en_claim env)"
      "iv_user j = iv_user i" "iv_run j = iv_run i"
      "json_get (iv_context j) ''_canonical_turn_managed'' =
         json_get (iv_context i) ''_canonical_turn_managed''"
    by (rule with_agent_context_claimed[OF env(1) ok j(1) ctx(1,2)])
  have c1: "user_tenant (iv_user i) = Some t'"
    "plan_get (pw_store (plans_of w)) pid t' (uc_id (iv_user i)) = Some p'"
    "pl_current p' = Some (st_id s')" "s' \<in> set (pl_steps p')"
    using c' unfolding claims_step_def by blast+
  have ts: "t' = t" by (rule option.inject[THEN iffD1, OF trans[OF c1(1)[symmetric] i(1)]])
  have tp: "p' = p" by (rule option.inject[THEN iffD1, OF trans[OF c1(2)[unfolded ts, symmetric] p(1)]])
  have "s' = s"
    using fs find_st_id[OF dist, OF c1(4)[unfolded tp]] c1(3)[unfolded tp] s(1)
    by (metis option.inject)
  note c = c'[unfolded ts tp this] and r = r[unfolded this]
  let ?h = "hidden_of cfg j"
  let ?r = "\<lparr>rn_id = iv_run j, rn_request = Some (if str_set (iv_request j) then the (iv_request j) else iv_run j),
         rn_session = iv_session j, rn_agent = iv_agent j, rn_user = Some (uc_id (iv_user j)),
         rn_tenant = user_tenant (iv_user j), rn_turn = None,
         rn_plan = context_str (iv_context j) ''plan_id'',
         rn_step = context_str (iv_context j) ''step_id'', rn_status = RunRunning,
         rn_invoker = type_name (ad_type d), rn_delegated = False, rn_delegation_key = None,
         rn_version = 1, rn_sequence = 0, rn_deadline = None, rn_heartbeat = None,
         rn_terminal_event = None, rn_input = JObj (iv_input j), rn_output = None, rn_error = None,
         rn_latency = None, rn_suppressed = ?h,
         rn_used_memory = map fst (mx_items (iv_memory j)), rn_created = Some (en_start env),
         rn_updated = Some (en_start env)\<rparr>"
  have san: "sanitize (JObj (iv_input i)) = Some (JObj (iv_input i))" by (rule sanitize_no_knowledge(1)[OF i(3)])
  have v: "validate_run ?r = Inr ?r" using san j(2,3) by (simp add: validate_run_def sanitize_opt_def)
  then have run: "ebind (invocation_run env d j ?h) validate_run = Inr ?r"
    by (simp add: invocation_run_def)
  obtain inv res0 where inv: "dget (vc_invokers cfg) (ad_type d) = Some inv"
    and res0: "agent_answer cfg d j inv = Inr res0" "ir_status res0 = RunCompleted" "ir_error res0 = None"
      "\<forall>o'. ir_output res0 = Some o' \<longrightarrow> no_knowledge o'"
    using d unfolding reliable_def by blast
  let ?res = "with_latency env res0"
  let ?w2 = "stored_invocation cfg ?h ?r (set_plans pw w)"
  have out: "sanitize_opt (ir_output res0) = Some (ir_output res0)"
    using res0(4) sanitize_no_knowledge(1) by (cases "ir_output res0") (auto simp: sanitize_opt_def)
  obtain x where x: "answer_record cfg env d j (answered_run env ?r ?res) ?res (request_prohibits_memory j) ?h = Inr x"
    using out res0(3) by (simp add: answer_record_def validate_result_def sanitize_opt_def)
  obtain run2 where run2: "validate_run (answered_run env ?r ?res) = Inr run2"
    using out san j(2,3) res0(3) by (simp add: validate_run_def answered_run_def sanitize_opt_def)
  have g: "get_run (dw_runs (vw_state ?w2)) (iv_run j) = Some ?r"
    by (simp add: stored_invocation_def get_run_def)
  have pw2: "pw_store (plans_of ?w2) = pw_store pw"
    by (simp add: stored_invocation_def) (simp add: plans_of_def set_plans_def)
  have "rn_id ?r = iv_run j" by simp
  from finish_claimed_invocation[OF c env ok ctx(2) r(1-4) pw2 g this x run2]
  obtain w' where fin: "finish_invocation False cfg env d j ?r res0 (request_prohibits_memory j) ?h ?w2 = (Inr ?res, w')"
    and set: "settled_world env j ?res pid q (st_id s) pw (re_results (dw_results (vw_state ?w2))) w'"
    by blast
  have "invoke_definition cfg env d i w = (Inr ?res, w')"
    using invoke_definition_phases[OF env(1) j(1)] ctx(3) r(6) run inv res0(1) fin pw
    by (simp add: Let_def)
  with c set res0 show ?thesis
    by (intro exI[of _ ?res] exI[of _ w'] exI[of _ q] exI[of _ pw]) (simp add: settled_world_def)
qed


subsection \<open>An iteration of the executor\<close>

text \<open>The states of a plan between two iterations: open steps are pending and nobody holds a claim.\<close>

definition runnable :: "invoke_config \<Rightarrow> exec_request \<Rightarrow> invoke_world \<Rightarrow> plan \<Rightarrow> bool" where
  "runnable cfg q w p \<longleftrightarrow>
     plan_store_ok (pw_store (plans_of w)) \<and>
     plan_get (pw_store (plans_of w)) (eq_plan q) (tenant_of q) (uc_id (eq_user q)) = Some p \<and>
     dget (ps_claims (pw_store (plans_of w))) (eq_plan q) = None \<and>
     (\<forall>s\<in>set (pl_steps p). st_status s \<in> {Pending, Completed} \<and> st_id s \<noteq> [] \<and>
        (\<exists>d. dget (eq_agents q) (st_agent s) = Some d \<and> ad_id d = st_agent s \<and> reliable cfg d))"

lemma runnableD:
  assumes "runnable cfg q w p"
  shows "plan_store_ok (pw_store (plans_of w))"
    "plan_get (pw_store (plans_of w)) (eq_plan q) (tenant_of q) (uc_id (eq_user q)) = Some p"
    "dget (ps_claims (pw_store (plans_of w))) (eq_plan q) = None"
    "pl_id p = eq_plan q" "pl_tenant p = tenant_of q" "pl_user p = uc_id (eq_user q)"
    "load_plan q w = Inr p" "steps_wf (pl_steps p)" "distinct (step_ids (pl_steps p))"
proof -
  show a: "plan_store_ok (pw_store (plans_of w))"
    and g: "plan_get (pw_store (plans_of w)) (eq_plan q) (tenant_of q) (uc_id (eq_user q)) = Some p"
    and "dget (ps_claims (pw_store (plans_of w))) (eq_plan q) = None"
    using assms by (simp_all add: runnable_def)
  show "pl_id p = eq_plan q" "pl_tenant p = tenant_of q" "pl_user p = uc_id (eq_user q)"
    by (rule stored_plan_owner[OF a g])+
  show "load_plan q w = Inr p" using g by (simp add: load_plan_def)
  show wf: "steps_wf (pl_steps p)" using plan_store_okD(4)[OF a, of "eq_plan q" p] g by (simp add: plan_get_iff)
  then show "distinct (step_ids (pl_steps p))" by (simp add: steps_wf_def)
qed

lemma runnable_step:
  assumes "runnable cfg q w p" "s \<in> set (pl_steps p)"
  obtains d where "st_status s \<in> {Pending, Completed}" "st_id s \<noteq> []"
    "dget (eq_agents q) (st_agent s) = Some d" "ad_id d = st_agent s" "reliable cfg d"
  using assms by (auto simp: runnable_def)

lemma publish_if_sel [simp]:
  "ps_plans (pw_store (publish_if b cfg p ty ev w)) = ps_plans (pw_store w)"
  "ps_claims (pw_store (publish_if b cfg p ty ev w)) = ps_claims (pw_store w)"
  by (auto simp: publish_if_def publish_plan_def mark_plan_published_def Let_def split: option.splits)

lemma save_in_runnable:
  assumes r: "runnable cfg q w p" and p1: "pl_steps p1 = pl_steps p" "pl_version p1 = pl_version p"
    "pl_id p1 = pl_id p" "pl_tenant p1 = pl_tenant p" "pl_user p1 = pl_user p"
  shows "\<exists>p2 w2. save_in cfg q quiet now p1 w = (Inr p2, w2) \<and> runnable cfg q w2 p2 \<and>
    pl_steps p2 = pl_steps p \<and> pl_status p2 = pl_status p1 \<and> pl_current p2 = pl_current p1 \<and>
    pl_next_action p2 = pl_next_action p1"
proof -
  note d = runnableD[OF r]
  let ?p2 = "next_version (Some p) p1 (event_name None (Some p)) None None now"
  have g: "plan_get (pw_store (plans_of w)) (pl_id p1) (pl_tenant p1) (pl_user p1) = Some p"
    using d p1 by simp
  let ?s = "store_plan ?p2 (suppressed (the (vc_plan cfg)) (publishes q)) (pw_store (plans_of w))"
  obtain pw where sv: "save_plan (the (vc_plan cfg)) quiet p1 None None None (publishes q) now (plans_of w) =
      (Inr ?p2, pw)" and pl: "ps_plans (pw_store pw) = ps_plans ?s" and cl: "ps_claims (pw_store pw) = ps_claims ?s"
    and ok: "plan_store_ok (pw_store pw)"
    using g p1(2) store_plan_ok[OF d(1), of ?p2] d(8) p1(1)
    by (simp add: save_plan_def Let_def write_version_next publish_if_ok)
  have "runnable cfg q (set_plans pw w) ?p2"
    using r ok pl cl d p1 by (simp add: runnable_def store_plan_claims plan_get_iff)
  moreover have "pl_current ?p2 = pl_current p1 \<and> pl_next_action ?p2 = pl_next_action p1"
    by (simp add: next_version_def)
  ultimately show ?thesis
    using sv p1 by (intro exI[of _ ?p2] exI[of _ "set_plans pw w"]) (simp add: save_in_def)
qed

lemma select_ready:
  assumes "\<forall>s\<in>set (pl_steps p). st_status s \<in> {Pending, Completed}" "steps_wf (pl_steps p)"
    "\<not> all_steps_completed (pl_steps p)"
  obtains s where "select_executable_step p b = Some s" "s \<in> set (pl_steps p)" "is_ready (pl_steps p) s"
proof -
  have "\<exists>s\<in>set (pl_steps p). is_ready (pl_steps p) s"
    using ready_step_exists[OF assms(2,1)] assms(1,3) by (auto simp: all_steps_completed_def)
  then have "ready_steps (pl_steps p) \<noteq> []" by (auto simp: ready_steps_def filter_empty_conv)
  then obtain s ss where s: "ready_steps (pl_steps p) = s # ss" by (cases "ready_steps (pl_steps p)") auto
  then have "s \<in> set (filter (is_ready (pl_steps p)) (pl_steps p))" by (simp add: ready_steps_def)
  moreover have "select_executable_step p b = Some s"
    using assms(1) s by (auto simp: select_executable_step_def Let_def split: option.splits dest!: find_Some_D)
  ultimately show ?thesis by (intro that[of s]) auto
qed

lemma choose_runnable:
  assumes r: "runnable cfg q w p" and x: "quiet_exec x"
    and st: "pl_status p \<in> {Pending, Running}" "\<not> all_steps_completed (pl_steps p)"
  obtains p1 s w1 where "choose_step cfg x q n w = (Inr (Run_Step p1 s), w1)" "runnable cfg q w1 p1"
    "pl_steps p1 = pl_steps p" "s \<in> set (pl_steps p)" "is_ready (pl_steps p) s"
    "pl_status p1 = Running" "pl_current p1 = Some (st_id s)"
proof -
  note d = runnableD[OF r]
  have sts: "\<forall>s\<in>set (pl_steps p). st_status s \<in> {Pending, Completed}" using r by (simp add: runnable_def)
  obtain s where s: "select_executable_step p (eq_input q \<noteq> [] \<or> eq_context q \<noteq> []) = Some s"
    "s \<in> set (pl_steps p)" "is_ready (pl_steps p) s"
    by (rule select_ready[OF sts d(8) st(2)])
  have nf: "\<not> (\<exists>s\<in>set (pl_steps p). st_status s = Failed)" using sts by auto
  have pend: "st_status s = Pending" using s(3) by (simp add: is_ready_def)
  have q: "xe_saves x n 0 = quiet" using x by (simp add: quiet_exec_def)
  show ?thesis
  proof (cases "pl_current p \<noteq> Some (st_id s) \<or> pl_status p \<noteq> Running \<or> pl_next_action p \<noteq> None")
    case True
    obtain p2 w2 where w2: "save_in cfg q quiet (xe_now x n)
        (p\<lparr>pl_status := Running, pl_current := Some (st_id s), pl_next_action := None\<rparr>) w = (Inr p2, w2)"
      "runnable cfg q w2 p2" "pl_steps p2 = pl_steps p" "pl_status p2 = Running"
      "pl_current p2 = Some (st_id s)"
      using save_in_runnable[OF r, of "p\<lparr>pl_status := Running, pl_current := Some (st_id s),
          pl_next_action := None\<rparr>" "xe_now x n"] by auto
    have "choose_step cfg x q n w = (Inr (Run_Step p2 s), w2)"
      using st d(7) nf s(1) pend True w2(1) q by (auto simp: choose_step_def Let_def)
    with w2 s show ?thesis by (intro that) auto
  next
    case False
    have "choose_step cfg x q n w = (Inr (Run_Step p s), w)"
      using st d(7) nf s(1) pend False by (auto simp: choose_step_def Let_def)
    with r s False show ?thesis by (intro that) auto
  qed
qed


lemma open_plan_status:
  assumes "\<forall>s\<in>set ss. st_status s \<in> {Pending, Completed} \<and> st_id s \<noteq> []" "steps_wf ss"
  shows "plan_status_of ss (next_step_id ss) = (if all_steps_completed ss then Completed else Running)"
proof (cases "all_steps_completed ss")
  case True
  then show ?thesis by (auto simp: plan_status_of_def all_steps_completed_def)
next
  case False
  have "\<exists>s\<in>set ss. is_ready ss s"
    using ready_step_exists[OF assms(2)] assms(1) False by (auto simp: all_steps_completed_def)
  then obtain s where s: "find (\<lambda>s. is_ready ss s \<or> st_status s \<in> {Running, Blocked, Failed}) ss = Some s"
    by (cases "find (\<lambda>s. is_ready ss s \<or> st_status s \<in> {Running, Blocked, Failed}) ss")
      (auto simp: find_eq_None)
  then have "next_step_id ss = Some (st_id s)" "st_id s \<noteq> []"
    using assms(1) by (auto simp: next_step_id_def dest: find_Some_D)
  with assms(1) False show ?thesis
    by (auto simp: plan_status_of_def all_steps_completed_def str_set_iff)
qed

lemma run_runnable:
  assumes r: "runnable cfg q w p" and x: "quiet_exec x" and cfg: "assembles cfg" "vc_plan cfg \<noteq> None"
    and t: "user_tenant (eq_user q) = Some t" "t \<noteq> []" "eq_plan q \<noteq> []"
    and s: "s \<in> set (pl_steps p)" "is_ready (pl_steps p) s" "pl_status p = Running"
      "pl_current p = Some (st_id s)"
    and ctx: "\<not> truthy (json_get (xs_context st) ''_canonical_turn_managed'')"
    and inp: "merge_step_inputs (eq_input q) (xs_previous st) = Inr m" "no_knowledge (JObj m)"
  obtains res w2 p2 where "run_step cfg x q rcfg n st p s g w = (record_answer q st s res w2, w2)"
    "ir_status res = RunCompleted" "\<And>j. ir_output res = Some j \<Longrightarrow> no_knowledge j"
    "runnable cfg q w2 p2" "pl_steps p2 = set_step_status (st_id s) Completed (pl_steps p)"
    "pl_status p2 = (if all_steps_completed (pl_steps p2) then Completed else Running)"
proof -
  note d = runnableD[OF r]
  obtain a where a: "st_id s \<noteq> []" "dget (eq_agents q) (st_agent s) = Some a" "ad_id a = st_agent s"
    "reliable cfg a" by (rule runnable_step[OF r s(1)])
  have b: "build_invocation_input a None m = m" by (simp add: build_invocation_input_def str_set_iff Let_def)
  obtain y where ob: "obstacle cfg p s a m = None" "ad_type a \<noteq> Ui_Handoff"
    "dget (vc_invokers cfg) (ad_type a) = Some y"
    using a(4) by (auto simp: obstacle_def reliable_def missing_required_inputs_def Let_def)
  let ?i = "step_invocation x q st n p s a m" and ?env = "xe_call x n"
  have env: "quiet_env ?env" "en_claim ?env \<noteq> []" using x by (auto simp: quiet_exec_def)
  have i: "json_get (iv_context ?i) ''plan_id'' = JStr (eq_plan q)"
    "\<not> truthy (json_get (iv_context ?i) ''_canonical_turn_managed'')"
    "iv_user ?i = eq_user q" "iv_input ?i = m" "iv_memory ?i = empty_memory_context"
    "iv_knowledge ?i = empty_knowledge_context" "iv_agent ?i = ad_id a"
    using ctx d(4) by (simp_all add: step_invocation_def new_invocation_def)
  have tq: "tenant_of q = t" using t by (simp add: tenant_of_def)
  have pend: "st_status s = Pending" "pl_status p \<in> active_statuses"
    using s by (simp_all add: is_ready_def active_statuses_def)
  obtain res w2 q' pw where inv: "invoke_definition cfg ?env a ?i w = (Inr res, w2)"
    and c: "claims_step cfg ?env a ?i w (eq_plan q) t p s q' pw" and res: "ir_status res = RunCompleted"
      "\<forall>j. ir_output res = Some j \<longrightarrow> no_knowledge j"
    and w2: "ps_plans (pw_store (plans_of w2)) =
        dput (eq_plan q) (finished_stored q' (st_id s) Completed (en_done ?env)) (ps_plans (pw_store pw))"
      "ps_claims (pw_store (plans_of w2)) = dpop (eq_plan q) (ps_claims (pw_store pw))"
      "plan_store_ok (pw_store (plans_of w2))"
    using invoke_reliable[OF env cfg a(4) d(1) i(1) t(3) i(2), of t p s] t i(3-6) inp(2) d(2,3) tq pend
      s(1,4) a(1,3) by auto
  let ?p2 = "finished_stored q' (st_id s) Completed (en_done ?env)"
  have st2: "pl_steps ?p2 = set_step_status (st_id s) Completed (pl_steps p)"
    using settled_steps[OF c _ d(1), of Completed] by simp
  have own: "pl_tenant q' = tenant_of q" "pl_user q' = uc_id (eq_user q)"
    using c d(5,6) by (simp_all add: claims_step_def)
  have steps: "\<forall>s'\<in>set (pl_steps ?p2). st_status s' \<in> {Pending, Completed} \<and> st_id s' \<noteq> [] \<and>
      (\<exists>d. dget (eq_agents q) (st_agent s') = Some d \<and> ad_id d = st_agent s' \<and> reliable cfg d)"
    using r unfolding st2 runnable_def by (auto simp: set_step_status_def)
  have r2: "runnable cfg q w2 ?p2"
    unfolding runnable_def using steps own w2 by (simp add: plan_get_iff)
  have "pl_status ?p2 = (if all_steps_completed (pl_steps ?p2) then Completed else Running)"
    using open_plan_status[of "pl_steps ?p2"] steps runnableD(8)[OF r2] by simp
  moreover have "run_step cfg x q rcfg n st p s g w = (record_answer q st s res w2, w2)"
    using a(2) ob inp(1) b inv x i(7) by (simp add: run_step_def Let_def invoke_agent_def quiet_exec_def)
  ultimately show ?thesis using res r2 st2 by (intro that[of res w2 ?p2]) auto
qed


subsection \<open>Inputs never carry knowledge bodies\<close>

lemma no_knowledge_items_iff:
  "no_knowledge_items kvs \<longleftrightarrow>
     (\<forall>(k, v)\<in>set kvs. \<not> (k = ''knowledge_context'' \<and> is_obj v) \<and> no_knowledge v)"
  by (induction kvs) auto

lemma set_dput: "set (dput k v d) \<subseteq> insert (k, v) (set d)"
  by (induction d) auto

lemma no_knowledge_set_default:
  assumes "no_knowledge_items d" "no_knowledge v" "\<not> (k = ''knowledge_context'' \<and> is_obj v)"
  shows "no_knowledge_items (set_default k v d)"
proof (cases "dget d k = None")
  case True
  have "no_knowledge_items (dput k v d)"
    unfolding no_knowledge_items_iff
  proof
    fix x
    assume "x \<in> set (dput k v d)"
    then have "x = (k, v) \<or> x \<in> set d" using set_dput[of k v d] by blast
    with assms show "case x of (k, v) \<Rightarrow> \<not> (k = ''knowledge_context'' \<and> is_obj v) \<and> no_knowledge v"
      by (auto simp: no_knowledge_items_iff)
  qed
  with True show ?thesis by (simp add: set_default_def)
next
  case False
  with assms(1) show ?thesis by (auto simp: set_default_def)
qed

lemma no_knowledge_merge:
  "no_knowledge_items out \<Longrightarrow> no_knowledge_items d \<Longrightarrow> no_knowledge_items (fold merge_output_item out d)"
proof (induction out arbitrary: d)
  case Nil
  then show ?case by simp
next
  case (Cons kv out)
  obtain k v where kv: "kv = (k, v)" by (cases kv)
  with Cons.prems have v: "no_knowledge v" "\<not> (k = ''knowledge_context'' \<and> is_obj v)" by simp_all
  have "no_knowledge_items (merge_output_item kv d)"
    using v Cons.prems(2) kv
    by (auto simp: merge_output_item_def Let_def intro!: no_knowledge_set_default)
  with Cons show ?case using kv by simp
qed

definition input_ready :: "exec_request \<Rightarrow> exec_state \<Rightarrow> bool" where
  "input_ready q st \<longleftrightarrow>
     (\<exists>m. merge_step_inputs (eq_input q) (xs_previous st) = Inr m \<and> no_knowledge (JObj m)) \<and>
     \<not> truthy (json_get (xs_context st) ''_canonical_turn_managed'')"

lemma input_ready_payload:
  assumes "no_knowledge (JObj (eq_input q))" "input_ready q st"
    "\<And>j. ir_output res = Some j \<Longrightarrow> no_knowledge j"
    "xs_previous st' = xs_previous st @ [result_payload s res]"
    "xs_context st' = dput ''previous_results'' v (xs_context st)"
  shows "input_ready q st'"
proof -
  have "\<exists>m. merge_step_inputs (eq_input q) (xs_previous st') = Inr m \<and> no_knowledge (JObj m)"
  proof (cases "\<exists>kvs. ir_output res = Some (JObj kvs)")
    case True
    then obtain kvs where k: "ir_output res = Some (JObj kvs)" by blast
    then show ?thesis
      using assms(1,4) assms(3)[OF k] no_knowledge_merge[of kvs "eq_input q"]
      by (simp add: merge_step_inputs_def result_payload_def)
  next
    case False
    then show ?thesis
      using assms(1,4)
      by (auto simp: merge_step_inputs_def result_payload_def split: option.splits json.splits)
  qed
  with assms(2,5) show ?thesis by (simp add: input_ready_def)
qed

subsection \<open>The loop\<close>

text \<open>Steps listed in an order in which each only depends on what is done before it.\<close>

fun in_order :: "ident set \<Rightarrow> plan_step list \<Rightarrow> bool" where
  "in_order done_ids [] \<longleftrightarrow> True"
| "in_order done_ids (s # ss) \<longleftrightarrow>
     set (st_depends_on s) \<subseteq> done_ids \<and> in_order (insert (st_id s) done_ids) ss"

definition open_steps :: "plan \<Rightarrow> plan_step set" where
  "open_steps p = {s \<in> set (pl_steps p). st_status s = Pending}"

lemma finite_open_steps [simp]: "finite (open_steps p)"
  by (simp add: open_steps_def)

lemma step_by_id: "distinct (step_ids ss) \<Longrightarrow> a \<in> set ss \<Longrightarrow> b \<in> set ss \<Longrightarrow> st_id a = st_id b \<Longrightarrow> a = b"
  by (auto simp: step_ids_def distinct_map dest: inj_onD)

lemma open_steps_settled:
  assumes "distinct (step_ids (pl_steps p))" "s \<in> set (pl_steps p)"
    "pl_steps p2 = set_step_status (st_id s) Completed (pl_steps p)"
  shows "open_steps p2 = open_steps p - {s}"
proof (rule set_eqI)
  fix x
  have "x \<in> open_steps p2 \<longleftrightarrow> (\<exists>y\<in>set (pl_steps p). st_id y \<noteq> st_id s \<and> x = y \<and> st_status y = Pending)"
    by (auto simp: open_steps_def set_step_status_def assms(3))
  also have "\<dots> \<longleftrightarrow> x \<in> open_steps p - {s}"
    using step_by_id[OF assms(1) _ assms(2), of x] by (auto simp: open_steps_def)
  finally show "x \<in> open_steps p2 \<longleftrightarrow> x \<in> open_steps p - {s}" .
qed

lemma completed_ids_Cons:
  "completed_ids (a # ss) = (if st_status a = Completed then insert (st_id a) (completed_ids ss)
                             else completed_ids ss)"
  by (simp add: completed_ids_def)

lemma completed_ids_set:
  "completed_ids (set_step_status i Completed ss) =
     (if i \<in> set (step_ids ss) then insert i (completed_ids ss) else completed_ids ss)"
proof (induction ss)
  case Nil
  then show ?case by (simp add: set_step_status_def completed_ids_def step_ids_def)
next
  case (Cons a ss)
  have "set_step_status i Completed (a # ss) =
      (if st_id a = i then a\<lparr>st_status := Completed\<rparr> else a) # set_step_status i Completed ss"
    by (simp add: set_step_status_def)
  with Cons show ?case by (auto simp: completed_ids_Cons step_ids_def)
qed

lemma completed_ids_settled:
  "s \<in> set ss \<Longrightarrow>
     completed_ids (set_step_status (st_id s) Completed ss) = insert (st_id s) (completed_ids ss)"
  by (simp add: completed_ids_set step_ids_def)

lemma all_completed_iff:
  "runnable cfg q w p \<Longrightarrow> all_steps_completed (pl_steps p) \<longleftrightarrow> open_steps p = {}"
  by (auto simp: runnable_def all_steps_completed_def open_steps_def)

definition completes ::
    "exec_request \<Rightarrow> plan \<Rightarrow> json list \<Rightarrow> execution_response \<Rightarrow> invoke_world \<Rightarrow> bool" where
  "completes q p old a w \<longleftrightarrow>
     pl_status (px_plan a) = Completed \<and> all_steps_completed (pl_steps (px_plan a)) \<and>
     step_ids (pl_steps (px_plan a)) = step_ids (pl_steps p) \<and>
     load_plan q w = Inr (px_plan a) \<and> dget (ps_claims (pw_store (plans_of w))) (eq_plan q) = None \<and>
     (\<exists>ss rs. px_results a = old @ map2 result_payload ss rs \<and> length rs = length ss \<and>
        (\<forall>r\<in>set rs. ir_status r = RunCompleted) \<and> distinct ss \<and> set ss = open_steps p \<and>
        in_order (completed_ids (pl_steps p)) ss)"

lemma completes_step:
  assumes c: "completes q p2 (old @ [result_payload s res]) a w" and r: "runnable cfg q w0 p"
    and s: "s \<in> set (pl_steps p)" "is_ready (pl_steps p) s" "ir_status res = RunCompleted"
    and p2: "pl_steps p2 = set_step_status (st_id s) Completed (pl_steps p)"
  shows "completes q p old a w"
proof -
  from c obtain ss rs where o: "px_results a = (old @ [result_payload s res]) @ map2 result_payload ss rs"
    "length rs = length ss" "\<forall>r\<in>set rs. ir_status r = RunCompleted" "distinct ss" "set ss = open_steps p2"
    "in_order (completed_ids (pl_steps p2)) ss"
    unfolding completes_def by blast
  have os: "open_steps p2 = open_steps p - {s}"
    by (rule open_steps_settled[OF runnableD(9)[OF r] s(1) p2])
  have "s \<in> open_steps p" using s by (simp add: open_steps_def is_ready_def)
  moreover have "set (st_depends_on s) \<subseteq> completed_ids (pl_steps p)"
    using s(2) by (auto simp: is_ready_def deps_met_def)
  ultimately have "px_results a = old @ map2 result_payload (s # ss) (res # rs)" "length (res # rs) = length (s # ss)"
    "\<forall>r\<in>set (res # rs). ir_status r = RunCompleted" "distinct (s # ss)" "set (s # ss) = open_steps p"
    "in_order (completed_ids (pl_steps p)) (s # ss)"
    using o os s(3) p2 completed_ids_settled[OF s(1)] by auto
  moreover have "step_ids (pl_steps p2) = step_ids (pl_steps p)"
    using p2 by (auto simp: step_ids_def set_step_status_def)
  ultimately show ?thesis using c unfolding completes_def by metis
qed

lemma execute_runnable:
  assumes x: "quiet_exec x" and cfg: "assembles cfg" "vc_plan cfg \<noteq> None"
    and t: "user_tenant (eq_user q) = Some t" "t \<noteq> []" "eq_plan q \<noteq> []"
    and inp: "no_knowledge (JObj (eq_input q))"
  shows "runnable cfg q w p \<Longrightarrow> pl_status p \<in> {Pending, Running} \<Longrightarrow>
    \<not> all_steps_completed (pl_steps p) \<Longrightarrow> card (open_steps p) \<le> k \<Longrightarrow> input_ready q st \<Longrightarrow>
    \<exists>a w'. execute_steps cfg x q rcfg k n st g w = (Inr a, w') \<and> completes q p (xs_results st) a w'"
proof (induction k arbitrary: n st w p)
  case 0
  then show ?case using all_completed_iff by (auto simp: card_eq_0_iff)
next
  case (Suc k)
  note r = Suc.prems(1)
  from Suc.prems(5) obtain m where m: "merge_step_inputs (eq_input q) (xs_previous st) = Inr m"
    "no_knowledge (JObj m)" "\<not> truthy (json_get (xs_context st) ''_canonical_turn_managed'')"
    by (auto simp: input_ready_def)
  obtain p1 s w1 where ch: "choose_step cfg x q n w = (Inr (Run_Step p1 s), w1)" "runnable cfg q w1 p1"
    "pl_steps p1 = pl_steps p" "s \<in> set (pl_steps p)" "is_ready (pl_steps p) s"
    "pl_status p1 = Running" "pl_current p1 = Some (st_id s)"
    by (rule choose_runnable[OF r x Suc.prems(2,3)])
  obtain res w2 p2 where rn: "run_step cfg x q rcfg n st p1 s g w1 = (record_answer q st s res w2, w2)"
    "ir_status res = RunCompleted" "\<And>j. ir_output res = Some j \<Longrightarrow> no_knowledge j"
    "runnable cfg q w2 p2" "pl_steps p2 = set_step_status (st_id s) Completed (pl_steps p1)"
    "pl_status p2 = (if all_steps_completed (pl_steps p2) then Completed else Running)"
    by (rule run_runnable[OF ch(2) x cfg t _ _ ch(6,7) m(3,1,2)]) (use ch in auto)
  let ?st = "\<lparr>xs_plan = p2, xs_results = xs_results st @ [result_payload s res], xs_next = xs_next st,
      xs_context = dput ''previous_results'' (JList (xs_previous st @ [result_payload s res])) (xs_context st),
      xs_previous = xs_previous st @ [result_payload s res]\<rparr>"
  have p2: "pl_steps p2 = set_step_status (st_id s) Completed (pl_steps p)" using rn(5) ch(3) by simp
  have "\<exists>a w'. execute_steps cfg x q rcfg (Suc k) n st g w = (Inr a, w') \<and>
      completes q p2 (xs_results st @ [result_payload s res]) a w'"
  proof (cases "all_steps_completed (pl_steps p2)")
    case True
    let ?a = "\<lparr>px_plan = p2, px_results = xs_results st @ [result_payload s res], px_next = pl_next_action p2\<rparr>"
    have "open_steps p2 = {}" using True all_completed_iff[OF rn(4)] by simp
    then have "completes q p2 (xs_results st @ [result_payload s res]) ?a w2"
      using True rn(6) runnableD(3,7)[OF rn(4)] by (simp add: completes_def)
    then show ?thesis
      using ch(1) rn(1,2,6) runnableD(7)[OF rn(4)] True x
      by (simp add: quiet_exec_def record_answer_def answer_with_def Let_def)
  next
    case False
    have s: "s \<in> open_steps p" using ch(4,5) by (simp add: open_steps_def is_ready_def)
    then have "card (open_steps p2) \<le> k"
      using Suc.prems(4) open_steps_settled[OF runnableD(9)[OF r] ch(4) p2] by simp
    moreover have "input_ready q ?st" by (rule input_ready_payload[OF inp Suc.prems(5) rn(3)]) simp_all
    ultimately have "\<exists>a w'. execute_steps cfg x q rcfg k (Suc n) ?st g w2 = (Inr a, w') \<and>
        completes q p2 (xs_results ?st) a w'"
      using rn(6) False by (intro Suc.IH[OF rn(4)]) auto
    then show ?thesis
      using ch(1) rn(1,2,6) runnableD(7)[OF rn(4)] False x
      by (simp add: quiet_exec_def record_answer_def Let_def)
  qed
  then show ?case using completes_step[OF _ r ch(4,5) rn(2) p2] by blast
qed


text \<open>
  C1: a plan runs through. If every agent of the plan can be invoked and completes, no other task
  interferes and the plan has only pending and completed steps, then \<open>execute\<close> with at least as
  many iterations as pending steps returns the plan completed: every step is completed, the stored
  plan is the returned one and no claim is left. The results are those of the pending steps, one
  each, in an order in which every step comes after the steps it depends on.
\<close>

theorem execute_completes_plan:
  assumes x: "quiet_exec x" and cfg: "assembles cfg" "vc_plan cfg \<noteq> None"
    and t: "user_tenant (eq_user q) = Some t" "t \<noteq> []" "eq_plan q \<noteq> []"
    and p: "plan_store_ok (pw_store (plans_of w))" "load_plan q w = Inr p"
      "dget (ps_claims (pw_store (plans_of w))) (eq_plan q) = None" "pl_status p \<in> {Pending, Running}"
    and steps: "\<forall>s\<in>set (pl_steps p). st_status s \<in> {Pending, Completed} \<and> st_id s \<noteq> [] \<and>
        (\<exists>d. dget m (st_agent s) = Some d \<and> ad_id d = st_agent s \<and> reliable cfg d)"
    and k: "open_steps p \<noteq> {}" "card (open_steps p) \<le> k"
    and req: "no_knowledge (JObj (eq_input q))" "json_get (eq_context q) ''previous_results'' = JNull"
      "\<not> truthy (json_get (eq_context q) ''_canonical_turn_managed'')"
  shows "\<exists>a w' ss rs. execute_plan cfg x q rcfg k (Some m) g w = (Inr a, g, w') \<and>
    pl_status (px_plan a) = Completed \<and> all_steps_completed (pl_steps (px_plan a)) \<and>
    step_ids (pl_steps (px_plan a)) = step_ids (pl_steps p) \<and> load_plan q w' = Inr (px_plan a) \<and>
    dget (ps_claims (pw_store (plans_of w'))) (eq_plan q) = None \<and>
    px_results a = map2 result_payload ss rs \<and> length rs = length ss \<and>
    (\<forall>r\<in>set rs. ir_status r = RunCompleted) \<and> distinct ss \<and> set ss = open_steps p \<and>
    in_order (completed_ids (pl_steps p)) ss"
proof -
  let ?q = "q\<lparr>eq_agents := m\<rparr>"
  let ?st = "\<lparr>xs_plan = p, xs_results = [], xs_next = pl_next_action p, xs_context = eq_context q,
              xs_previous = []\<rparr>"
  have lp: "load_plan ?q v = load_plan q v" for v by (simp add: load_plan_def tenant_of_def)
  have r: "runnable cfg ?q w p"
    using p steps by (auto simp: runnable_def load_plan_def tenant_of_def split: option.splits)
  have nc: "\<not> all_steps_completed (pl_steps p)" using all_completed_iff[OF r] k(1) by simp
  have inp: "input_ready ?q ?st" using req by (simp add: input_ready_def merge_step_inputs_def)
  have "\<exists>a w'. execute_steps cfg x ?q rcfg k 0 ?st g w = (Inr a, w') \<and>
      completes ?q p (xs_results ?st) a w'"
    by (rule execute_runnable[OF x cfg _ t(2) _ _ r p(4) nc k(2) inp]) (use t req(1) in simp_all)
  then obtain a w' where a: "execute_steps cfg x ?q rcfg k 0 ?st g w = (Inr a, w')"
    "completes ?q p [] a w'" by auto
  have av: "ensure_agents_available p m = Inr ()"
  proof (cases "find (\<lambda>s. st_status s \<notin> {Completed, Failed, Cancelled} \<and> dget m (st_agent s) = None)
      (pl_steps p)")
    case None
    then show ?thesis by (simp add: ensure_agents_available_def)
  next
    case (Some s)
    then show ?thesis using steps by (auto dest!: find_Some_D)
  qed
  have pr: "previous_of (eq_context q) = Inr []" using req(2) by (simp add: previous_of_def)
  have "trusted_plan_user (eq_user q) = Inr (eq_user q)" using t by (simp add: trusted_plan_user_def str_set_iff)
  then have "execute_plan cfg x q rcfg k (Some m) g w = (Inr a, g, w')"
    using p(2) av pr a(1) by (simp add: execute_plan_def)
  moreover obtain ss rs where "px_results a = map2 result_payload ss rs \<and> length rs = length ss \<and>
      (\<forall>r\<in>set rs. ir_status r = RunCompleted) \<and> distinct ss \<and> set ss = open_steps p \<and>
      in_order (completed_ids (pl_steps p)) ss"
    using a(2) by (auto simp: completes_def)
  ultimately show ?thesis using a(2) lp by (auto simp: completes_def)
qed

definition demo_exec :: exec_env where
  "demo_exec = \<lparr>xe_run = (\<lambda>n. ''run'' @ nat_str n), xe_call = (\<lambda>n. demo_env (''c'' @ nat_str n)),
     xe_now = (\<lambda>_. 0), xe_saves = (\<lambda>_ _. quiet), xe_others = (\<lambda>_ _ w. w)\<rparr>"

definition demo_request :: exec_request where
  "demo_request = \<lparr>eq_plan = ''p'', eq_user = demo_user, eq_input = [(''topic'', JStr ''tea'')],
     eq_context = [], eq_agents = []\<rparr>"

lemma demo_agent_reliable: "reliable demo_invoke_config (demo_agent ''x'' 1)"
  by (simp add: reliable_def demo_invoke_config_def demo_agent_def agent_answer_def demo_invoker_def
      validate_output_def)

lemma execute_completes_plan_witness:
  "\<exists>a w'. execute_plan demo_invoke_config demo_exec demo_request demo_registry_config 2
      (Some [(''x'', demo_agent ''x'' 1)]) demo_registry demo_invoke_world = (Inr a, demo_registry, w') \<and>
    pl_status (px_plan a) = Completed \<and> length (px_results a) = 2"
proof -
  have os: "open_steps demo_plan2 = set (pl_steps demo_plan2)" "card (set (pl_steps demo_plan2)) = 2"
    by (auto simp: open_steps_def demo_plan2_def)
  have ex: "quiet_exec demo_exec" by (simp add: quiet_exec_def demo_exec_def demo_env_quiet) (simp add: demo_env_def)
  have cf: "assembles demo_invoke_config" "vc_plan demo_invoke_config \<noteq> None"
    by (simp_all add: assembles_def demo_invoke_config_def)
  have t: "user_tenant (eq_user demo_request) = Some ''a''" by code_simp
  have pl: "load_plan demo_request demo_invoke_world = Inr demo_plan2"
    using t demo_store_get by (simp add: load_plan_def tenant_of_def)
      (simp add: demo_request_def demo_user_def demo_invoke_world_def plans_of_def)
  have cl: "dget (ps_claims (pw_store (plans_of demo_invoke_world))) (eq_plan demo_request) = None"
    using demo_claims by (simp add: demo_invoke_world_def plans_of_def)
  have st: "\<forall>s\<in>set (pl_steps demo_plan2). st_status s \<in> {Pending, Completed} \<and> st_id s \<noteq> [] \<and>
      (\<exists>d. dget [(''x'', demo_agent ''x'' 1)] (st_agent s) = Some d \<and> ad_id d = st_agent s \<and>
           reliable demo_invoke_config d)"
    using demo_agent_reliable by (simp add: demo_plan2_def demo_agent_def)
  have "open_steps demo_plan2 \<noteq> {}" "card (open_steps demo_plan2) \<le> 2" using os by (auto simp: demo_plan2_def)
  from execute_completes_plan[OF ex cf t _ _ demo_invoke_world_ok pl cl _ st this, of demo_registry_config demo_registry]
  obtain a w' ss rs where "execute_plan demo_invoke_config demo_exec demo_request demo_registry_config 2
      (Some [(''x'', demo_agent ''x'' 1)]) demo_registry demo_invoke_world = (Inr a, demo_registry, w')"
    "pl_status (px_plan a) = Completed" "px_results a = map2 result_payload ss rs" "length rs = length ss"
    "distinct ss" "set ss = open_steps demo_plan2"
    by (auto simp: demo_request_def json_get_def)
  moreover from this have "length ss = 2" using os distinct_card[of ss] by simp
  ultimately show ?thesis by auto
qed

lemma execute_steps_bounded:
  "execute_steps cfg x q rcfg k n st g w = (Inr a, w') \<Longrightarrow>
     \<exists>new. px_results a = xs_results st @ new \<and> length new \<le> k"
proof (induction k arbitrary: n st w)
  case 0
  then show ?case by auto
next
  case (Suc k)
  obtain c w1 where c: "choose_step cfg x q n (xe_others x n 0 w) = (Inr c, w1)"
    using Suc.prems by (auto split: prod.splits sum.splits)
  show ?case
  proof (cases c)
    case (Stop p na)
    with Suc.prems c show ?thesis by auto
  next
    case (Run_Step p s)
    obtain o' w2 where o: "run_step cfg x q rcfg n st p s g w1 = (Inr o', w2)"
      using Suc.prems c Run_Step by (auto split: prod.splits sum.splits)
    have ext: "(\<forall>b. o' = Answer b \<longrightarrow> (\<exists>new. px_results b = xs_results st @ new \<and> length new \<le> 1)) \<and>
        (\<forall>st'. o' = Continue st' \<longrightarrow> (\<exists>y. xs_results st' = xs_results st @ [y]))"
      using o by (auto simp: run_step_def record_answer_def answer_with_def Let_def ebind_eq_Inr
          split: option.splits sum.splits prod.splits if_splits)
    show ?thesis
    proof (cases o')
      case (Answer b)
      with ext Suc.prems c o Run_Step show ?thesis by fastforce
    next
      case (Continue st')
      with ext obtain y where "xs_results st' = xs_results st @ [y]" by blast
      moreover have "\<exists>new. px_results a = xs_results st' @ new \<and> length new \<le> k"
        using Suc.prems c o Run_Step Continue by (intro Suc.IH) auto
      ultimately show ?thesis by fastforce
    qed
  qed
qed


text \<open>
  Whatever other tasks do and whatever the agents answer, an execution that returns has invoked
  at most \<open>max_steps\<close> agents: its answer lists at most that many results.
\<close>

theorem execute_bounded:
  assumes "execute_plan cfg x q rcfg k selected g w = (Inr a, g', w')"
  shows "length (px_results a) \<le> k"
proof -
  from assms obtain p m previous where "execute_steps cfg x (q\<lparr>eq_agents := m\<rparr>) rcfg k 0
      \<lparr>xs_plan = p, xs_results = [], xs_next = pl_next_action p, xs_context = eq_context q,
       xs_previous = previous\<rparr> g' w = (Inr a, w')"
    by (auto simp: execute_plan_def split: sum.splits prod.splits option.splits)
  from execute_steps_bounded[OF this] show ?thesis by auto
qed

lemma execute_bounded_witness:
  "\<exists>a g' w'. execute_plan demo_invoke_config demo_exec demo_request demo_registry_config 1
      (Some [(''x'', demo_agent ''x'' 1)]) demo_registry demo_invoke_world = (Inr a, g', w') \<and>
    length (px_results a) = 1 \<and> length (px_results a) \<le> 1"
proof -
  have "case execute_plan demo_invoke_config demo_exec demo_request demo_registry_config 1
      (Some [(''x'', demo_agent ''x'' 1)]) demo_registry demo_invoke_world of
      (Inl e, _) \<Rightarrow> False | (Inr a, _) \<Rightarrow> length (px_results a) = 1" by code_simp
  then obtain a g' w' where "execute_plan demo_invoke_config demo_exec demo_request demo_registry_config 1
      (Some [(''x'', demo_agent ''x'' 1)]) demo_registry demo_invoke_world = (Inr a, g', w')"
    "length (px_results a) = 1"
    by (auto split: prod.splits sum.splits)
  with execute_bounded[OF this(1)] show ?thesis by blast
qed

end
