(* ===== verification/Ticket_Store.thy ===== *)
theory Ticket_Store
  imports Delegated_Model
begin

text \<open>
  Execution tickets (\<open>app/schemas/execution_tickets.py\<close>) and their in-memory store
  (\<open>MemoryExecutionTicketStore\<close> of \<open>app/repositories/execution_tickets.py\<close>). A ticket is stored
  under the digest of its bearer token. Every method body runs under the store's lock.
\<close>

subsection \<open>Data\<close>

datatype ticket_status =
    Ticket_Issued | Ticket_Claimed | Ticket_Consumed | Ticket_Expired | Ticket_Revoked

record ticket_claims =
  tcl_request :: ident
  tcl_run :: ident
  tcl_turn :: ident
  tcl_tenant :: ident
  tcl_user :: ident
  tcl_agent :: ident
  tcl_plan :: "ident option"
  tcl_step :: "ident option"
  tcl_purpose :: string
  tcl_expires :: time
  tcl_nonce :: string

definition ticket_claims_ok :: "ticket_claims \<Rightarrow> bool" where
  "ticket_claims_ok c \<longleftrightarrow>
     (\<forall>s\<in>{tcl_request c, tcl_run c, tcl_turn c, tcl_tenant c, tcl_user c, tcl_agent c}. id_ok 128 s) \<and>
     opt_id_ok 128 (tcl_plan c) \<and> opt_id_ok 128 (tcl_step c) \<and> id_ok 64 (tcl_purpose c) \<and>
     16 \<le> length (tcl_nonce c) \<and> length (tcl_nonce c) \<le> 256"

record ticket =
  tk_hash :: string
  tk_claims :: ticket_claims
  tk_status :: ticket_status
  tk_version :: nat
  tk_sequence :: nat
  tk_owner :: "string option"
  tk_token :: "string option"
  tk_lease :: "time option"
  tk_event :: "ident option"
  tk_consumed_at :: "time option"

text \<open>\<open>ExecutionTicketRecord(ticket_hash, claims)\<close> with the schema's defaults.\<close>

definition new_ticket :: "string \<Rightarrow> ticket_claims \<Rightarrow> ticket" where
  "new_ticket h c =
     \<lparr>tk_hash = h, tk_claims = c, tk_status = Ticket_Issued, tk_version = 1, tk_sequence = 0,
      tk_owner = None, tk_token = None, tk_lease = None, tk_event = None, tk_consumed_at = None\<rparr>"

record legacy_query =
  lq_tenant :: ident
  lq_user :: ident
  lq_request :: "ident option"
  lq_agent :: ident
  lq_plan :: "ident option"
  lq_step :: "ident option"
  lq_event :: ident
  lq_purpose :: string
  lq_now :: time

subsection \<open>The store\<close>

type_synonym ticket_store = "(string, ticket) dict"

definition ticket_put :: "ticket \<Rightarrow> ticket_store \<Rightarrow> py_exn + ticket_store" where
  "ticket_put r s =
     (if dget s (tk_hash r) \<noteq> None
      then Inl (Ticket_Conflict ''Execution Ticket already exists'')
      else Inr (dput (tk_hash r) r s))"

definition ticket_get :: "ticket_store \<Rightarrow> string \<Rightarrow> ticket option" where
  "ticket_get s h = dget s h"

definition ticket_claimable :: "ticket \<Rightarrow> time \<Rightarrow> bool" where
  "ticket_claimable r now \<longleftrightarrow>
     tk_status r = Ticket_Issued \<or>
     (tk_status r = Ticket_Claimed \<and>
      (case tk_lease r of None \<Rightarrow> False | Some e \<Rightarrow> e \<le> now))"

definition ticket_claim ::
    "string \<Rightarrow> string \<Rightarrow> string \<Rightarrow> time \<Rightarrow> time \<Rightarrow> ticket_store \<Rightarrow> ticket option \<times> ticket_store" where
  "ticket_claim h owner token now lease_expires_at s =
     (case dget s h of
        None \<Rightarrow> (None, s)
      | Some r \<Rightarrow>
          if \<not> ticket_claimable r now then (None, s)
          else
            let claimed = r\<lparr>tk_status := Ticket_Claimed, tk_owner := Some owner,
                            tk_token := Some token, tk_lease := Some lease_expires_at\<rparr>
            in (Some claimed, dput h claimed s))"

definition claim_owned :: "ticket \<Rightarrow> string \<Rightarrow> string \<Rightarrow> time \<Rightarrow> bool" where
  "claim_owned r owner token now \<longleftrightarrow>
     tk_status r = Ticket_Claimed \<and> tk_owner r = Some owner \<and> tk_token r = Some token \<and>
     (case tk_lease r of None \<Rightarrow> False | Some e \<Rightarrow> e > now)"

definition ticket_finalize ::
    "ticket \<Rightarrow> string \<Rightarrow> string \<Rightarrow> time \<Rightarrow> ticket_store \<Rightarrow> ticket option \<times> ticket_store" where
  "ticket_finalize r owner token now s =
     (case dget s (tk_hash r) of
        None \<Rightarrow> (None, s)
      | Some current \<Rightarrow>
          if \<not> claim_owned current owner token now then (None, s)
          else (Some r, dput (tk_hash r) r s))"

definition ticket_expire :: "string \<Rightarrow> ticket_store \<Rightarrow> ticket option \<times> ticket_store" where
  "ticket_expire h s =
     (case dget s h of
        None \<Rightarrow> (None, s)
      | Some r \<Rightarrow>
          if tk_status r \<notin> {Ticket_Issued, Ticket_Claimed} then (None, s)
          else
            let expired = r\<lparr>tk_status := Ticket_Expired, tk_owner := None, tk_token := None,
                            tk_lease := None\<rparr>
            in (Some expired, dput h expired s))"

definition matches_legacy :: "ticket \<Rightarrow> legacy_query \<Rightarrow> bool" where
  "matches_legacy r q \<longleftrightarrow>
     tk_status r \<in> {Ticket_Issued, Ticket_Claimed} \<and> tcl_expires (tk_claims r) > lq_now q \<and>
     tcl_tenant (tk_claims r) = lq_tenant q \<and> tcl_user (tk_claims r) = lq_user q \<and>
     (lq_request q = None \<or> Some (tcl_request (tk_claims r)) = lq_request q) \<and>
     tcl_agent (tk_claims r) = lq_agent q \<and> tcl_plan (tk_claims r) = lq_plan q \<and>
     tcl_step (tk_claims r) = lq_step q \<and> tcl_purpose (tk_claims r) = lq_purpose q"

definition ticket_find_active :: "legacy_query \<Rightarrow> ticket_store \<Rightarrow> ticket list" where
  "ticket_find_active q s = filter (\<lambda>r. matches_legacy r q) (dvalues s)"

subsection \<open>The store as a state machine\<close>

text \<open>
  One rule per mutating method. A finalised record is a copy of an earlier snapshot of the same
  ticket, so it carries the claims stored now.
\<close>

inductive ticket_step :: "ticket_store \<Rightarrow> ticket_store \<Rightarrow> bool" where
  put: "tk_status r = Ticket_Issued \<Longrightarrow> ticket_put r s = Inr s' \<Longrightarrow> ticket_step s s'"
| claim: "ticket_claim h owner token now until s = (r, s') \<Longrightarrow> ticket_step s s'"
| finalize: "(\<And>c. dget s (tk_hash r) = Some c \<Longrightarrow> tk_claims r = tk_claims c) \<Longrightarrow>
    ticket_finalize r owner token now s = (x, s') \<Longrightarrow> ticket_step s s'"
| expire: "ticket_expire h s = (r, s') \<Longrightarrow> ticket_step s s'"

abbreviation ticket_steps :: "ticket_store \<Rightarrow> ticket_store \<Rightarrow> bool" where
  "ticket_steps \<equiv> ticket_step\<^sup>*\<^sup>*"

definition ticket_store_ok :: "ticket_store \<Rightarrow> bool" where
  "ticket_store_ok s \<longleftrightarrow> dict_ok s \<and> (\<forall>h r. dget s h = Some r \<longrightarrow> tk_hash r = h)"

text \<open>
  How a ticket may change: its claims stay, and a consumed, expired or revoked ticket stays
  exactly as it is.
\<close>

definition ticket_closed :: "ticket \<Rightarrow> bool" where
  "ticket_closed r \<longleftrightarrow> tk_status r \<in> {Ticket_Consumed, Ticket_Expired, Ticket_Revoked}"

definition ticket_evolves :: "ticket \<Rightarrow> ticket \<Rightarrow> bool" where
  "ticket_evolves a b \<longleftrightarrow> tk_claims b = tk_claims a \<and> (ticket_closed a \<longrightarrow> b = a)"

lemma ticket_evolves_refl [simp]: "ticket_evolves a a"
  by (simp add: ticket_evolves_def)

lemma ticket_evolves_trans: "ticket_evolves a b \<Longrightarrow> ticket_evolves b c \<Longrightarrow> ticket_evolves a c"
  by (auto simp: ticket_evolves_def)

lemma ticket_store_okD:
  assumes "ticket_store_ok s"
  shows "dict_ok s" "dget s h = Some r \<Longrightarrow> tk_hash r = h"
  using assms by (simp_all add: ticket_store_ok_def)

lemma ticket_claim_Some:
  assumes "ticket_claim h owner token now until s = (Some x, s')"
  obtains r where "dget s h = Some r" "ticket_claimable r now"
    "x = r\<lparr>tk_status := Ticket_Claimed, tk_owner := Some owner, tk_token := Some token,
           tk_lease := Some until\<rparr>" "s' = dput h x s"
  using assms by (auto simp: ticket_claim_def Let_def split: option.splits if_splits)

lemma ticket_claim_None: "ticket_claim h owner token now until s = (None, s') \<Longrightarrow> s' = s"
  by (auto simp: ticket_claim_def Let_def split: option.splits if_splits)

lemma ticket_finalize_Some:
  assumes "ticket_finalize r owner token now s = (Some x, s')"
  obtains c where "dget s (tk_hash r) = Some c" "claim_owned c owner token now" "x = r"
    "s' = dput (tk_hash r) r s"
  using assms by (auto simp: ticket_finalize_def split: option.splits if_splits)

lemma ticket_finalize_None: "ticket_finalize r owner token now s = (None, s') \<Longrightarrow> s' = s"
  by (auto simp: ticket_finalize_def split: option.splits if_splits)

lemma ticket_step_ok: "ticket_step s s' \<Longrightarrow> ticket_store_ok s \<Longrightarrow> ticket_store_ok s'"
  by (erule ticket_step.cases)
    (auto simp: ticket_store_ok_def ticket_put_def ticket_claim_def ticket_finalize_def
      ticket_expire_def Let_def split: option.splits if_splits)

lemma ticket_steps_ok: "ticket_steps s s' \<Longrightarrow> ticket_store_ok s \<Longrightarrow> ticket_store_ok s'"
  by (induction rule: rtranclp_induct) (auto intro: ticket_step_ok)

lemma ticket_step_evolves:
  "ticket_step s s' \<Longrightarrow> dget s h = Some a \<Longrightarrow> \<exists>b. dget s' h = Some b \<and> ticket_evolves a b"
  by (erule ticket_step.cases)
    (auto simp: ticket_evolves_def ticket_closed_def ticket_put_def ticket_claim_def
      ticket_claimable_def ticket_finalize_def claim_owned_def ticket_expire_def Let_def
      split: option.splits if_splits)

lemma ticket_steps_evolve:
  assumes "ticket_steps s s'" "dget s h = Some a"
  shows "\<exists>b. dget s' h = Some b \<and> ticket_evolves a b"
  using assms
  by (induction rule: rtranclp_induct) (auto dest!: ticket_step_evolves intro: ticket_evolves_trans)

subsection \<open>A claim is a lease\<close>

definition ticket_lease_claim ::
    "string \<times> string \<Rightarrow> string \<Rightarrow> time \<Rightarrow> time \<Rightarrow> ticket_store \<Rightarrow> ticket_store option" where
  "ticket_lease_claim r h now until s =
     (case ticket_claim h (fst r) (snd r) now until s of
        (None, _) \<Rightarrow> None
      | (Some _, s') \<Rightarrow> Some s')"

definition ticket_lease :: "ticket_store \<Rightarrow> string \<Rightarrow> time option" where
  "ticket_lease s h =
     (case dget s h of
        None \<Rightarrow> None
      | Some r \<Rightarrow> if tk_status r = Ticket_Claimed then tk_lease r else None)"

interpretation ticket_leases: lease_store ticket_lease_claim ticket_lease "\<lambda>_. True"
  by unfold_locales
    (auto simp: ticket_lease_claim_def ticket_lease_def ticket_claimable_def
      split: option.splits prod.splits if_splits elim!: ticket_claim_Some)

end
