(* ===== verification/Ticket_Service.thy ===== *)
theory Ticket_Service
  imports Ticket_Store Py_Text
begin

text \<open>
  \<open>ExecutionTicketService\<close> of \<open>app/services/execution_ticket_service.py\<close> over the in-memory
  store. The digest \<open>sha256(\<dots>).hexdigest()\<close> is the parameter \<open>hash\<close>; random tokens, nonces and
  the clock are arguments. \<open>others n\<close> is what other tasks do to the store while the service waits
  at its suspension point \<open>n\<close>; a run without concurrency has \<open>others n = id\<close>.
\<close>

subsection \<open>Bearer tokens\<close>

text \<open>\<open>str.rpartition('.')\<close>.\<close>

definition rpartition_dot :: "string \<Rightarrow> (string \<times> string) option" where
  "rpartition_dot s =
     (if CHR ''.'' \<notin> set s then None
      else Some (rev (tl (dropWhile (\<lambda>c. c \<noteq> CHR ''.'') (rev s))),
                 rev (takeWhile (\<lambda>c. c \<noteq> CHR ''.'') (rev s))))"

definition encode_ticket :: "(string \<Rightarrow> string) \<Rightarrow> string option \<Rightarrow> string \<Rightarrow> string" where
  "encode_ticket hash secret raw =
     (if str_set secret then raw @ ''.'' @ take 32 (hash (raw @ ''.'' @ the secret)) else raw)"

definition valid_token :: "(string \<Rightarrow> string) \<Rightarrow> string \<Rightarrow> string option \<Rightarrow> bool" where
  "valid_token hash ticket secret =
     (if ticket = [] \<or> 512 < length ticket \<or> (\<exists>c\<in>set ticket. py_isspace c) then False
      else case secret of
        None \<Rightarrow> True
      | Some k \<Rightarrow>
          (case rpartition_dot ticket of
             None \<Rightarrow> False
           | Some (raw, signature) \<Rightarrow>
               if raw = [] \<or> signature = [] then False
               else signature = take 32 (hash (raw @ ''.'' @ k))))"

subsection \<open>Operations\<close>

definition ticket_issue ::
    "(string \<Rightarrow> string) \<Rightarrow> string option \<Rightarrow> string \<Rightarrow> string \<Rightarrow> run_reference \<Rightarrow> ident \<Rightarrow> string \<Rightarrow> int \<Rightarrow>
     time \<Rightarrow> ticket_store \<Rightarrow> (py_exn + string \<times> ticket_claims) \<times> ticket_store" where
  "ticket_issue hash secret raw nonce run request purpose ttl now s =
     (if ttl \<le> 0 then (Inl (Ticket_Error ''Ticket TTL must be positive''), s)
      else
        let claims = \<lparr>tcl_request = request, tcl_run = dr_run run, tcl_turn = dr_turn run,
                      tcl_tenant = dr_tenant run, tcl_user = dr_user run, tcl_agent = dr_agent run,
                      tcl_plan = dr_plan run, tcl_step = dr_step run, tcl_purpose = purpose,
                      tcl_expires = now + ttl, tcl_nonce = nonce\<rparr>
        in if \<not> ticket_claims_ok claims then (Inl (Value_Error ''claims''), s)
           else
             let ticket = encode_ticket hash secret raw
             in case ticket_put (new_ticket (hash ticket) claims) s of
                  Inl e \<Rightarrow> (Inl e, s)
                | Inr s' \<Rightarrow> (Inr (ticket, claims), s'))"

definition ticket_resolve_legacy :: "legacy_query \<Rightarrow> ticket_store \<Rightarrow> py_exn + ticket" where
  "ticket_resolve_legacy q s =
     (case ticket_find_active q s of
        [r] \<Rightarrow> Inr r
      | _ \<Rightarrow> Inl (Ticket_Error ''Legacy execution correlation is not unique''))"

definition ticket_claim_legacy ::
    "(nat \<Rightarrow> ticket_store \<Rightarrow> ticket_store) \<Rightarrow> legacy_query \<Rightarrow> string \<Rightarrow> string \<Rightarrow> int \<Rightarrow>
     ticket_store \<Rightarrow> (py_exn + ticket) \<times> ticket_store" where
  "ticket_claim_legacy others q owner token lease s =
     (if lease \<le> 0 then (Inl (Ticket_Error ''Ticket lease must be positive''), s)
      else case ticket_resolve_legacy q s of
        Inl e \<Rightarrow> (Inl e, s)
      | Inr r \<Rightarrow>
          (case ticket_claim (tk_hash r) owner token (lq_now q) (lq_now q + lease) (others 0 s) of
             (None, s') \<Rightarrow> (Inl (Ticket_Error ''Execution ticket is claimed''), s')
           | (Some c, s') \<Rightarrow> (Inr c, s')))"

definition ticket_resolve_bound ::
    "(nat \<Rightarrow> ticket_store \<Rightarrow> ticket_store) \<Rightarrow> (string \<Rightarrow> string) \<Rightarrow> string option \<Rightarrow> string \<Rightarrow>
     string \<Rightarrow> time \<Rightarrow> ticket_store \<Rightarrow> (py_exn + ticket) \<times> ticket_store" where
  "ticket_resolve_bound others hash secret ticket purpose now s =
     (case ticket_get s (hash ticket) of
        None \<Rightarrow> (Inl (Ticket_Error ''Invalid execution ticket''), s)
      | Some r \<Rightarrow>
          if \<not> valid_token hash ticket secret
          then (Inl (Ticket_Error ''Invalid execution ticket''), s)
          else if tcl_expires (tk_claims r) \<le> now then
            (Inl (Ticket_Error ''Execution ticket expired''),
             if tk_status r \<notin> {Ticket_Consumed, Ticket_Expired}
             then snd (ticket_expire (tk_hash r) (others 0 s)) else s)
          else if tk_status r \<in> {Ticket_Expired, Ticket_Revoked} \<or>
                  tcl_purpose (tk_claims r) \<noteq> purpose
          then (Inl (Ticket_Error ''Invalid execution ticket''), s)
          else (Inr r, s))"

definition ticket_resolve ::
    "(nat \<Rightarrow> ticket_store \<Rightarrow> ticket_store) \<Rightarrow> (string \<Rightarrow> string) \<Rightarrow> string option \<Rightarrow> string \<Rightarrow>
     ident \<Rightarrow> ident \<Rightarrow> string \<Rightarrow> time \<Rightarrow> ticket_store \<Rightarrow> (py_exn + ticket) \<times> ticket_store" where
  "ticket_resolve others hash secret ticket tenant user purpose now s =
     (case ticket_resolve_bound others hash secret ticket purpose now s of
        (Inl e, s') \<Rightarrow> (Inl e, s')
      | (Inr r, s') \<Rightarrow>
          if tcl_tenant (tk_claims r) \<noteq> tenant \<or> tcl_user (tk_claims r) \<noteq> user
          then (Inl (Ticket_Error ''Invalid execution ticket''), s')
          else (Inr r, s'))"

text \<open>The boolean of the result is the flag \<open>duplicate\<close>.\<close>

definition ticket_service_claim ::
    "(nat \<Rightarrow> ticket_store \<Rightarrow> ticket_store) \<Rightarrow> (string \<Rightarrow> string) \<Rightarrow> string option \<Rightarrow> string \<Rightarrow>
     ident \<Rightarrow> ident \<Rightarrow> string \<Rightarrow> string \<Rightarrow> string \<Rightarrow> int \<Rightarrow> time \<Rightarrow> ticket_store \<Rightarrow>
     (py_exn + ticket \<times> bool) \<times> ticket_store" where
  "ticket_service_claim others hash secret ticket tenant user purpose owner token lease now s =
     (if lease \<le> 0 then (Inl (Ticket_Error ''Ticket lease must be positive''), s)
      else case ticket_resolve others hash secret ticket tenant user purpose now s of
        (Inl e, s1) \<Rightarrow> (Inl e, s1)
      | (Inr r, s1) \<Rightarrow>
          if tk_status r = Ticket_Consumed then (Inr (r, True), s1)
          else
            (case ticket_claim (tk_hash r) owner token now (now + lease) (others 1 s1) of
               (Some c, s2) \<Rightarrow> (Inr (c, False), s2)
             | (None, s2) \<Rightarrow>
                 (case ticket_get (others 2 s2) (tk_hash r) of
                    None \<Rightarrow> (Inl (Ticket_Error ''Execution ticket is claimed''), others 2 s2)
                  | Some c \<Rightarrow>
                      if tk_status c = Ticket_Consumed then (Inr (c, True), others 2 s2)
                      else (Inl (Ticket_Error ''Execution ticket is claimed''), others 2 s2))))"

text \<open>\<open>_finalize_claim\<close>: \<open>updates\<close> is the copy the callers pass as a dictionary of changes.\<close>

definition finalize_claim ::
    "(nat \<Rightarrow> ticket_store \<Rightarrow> ticket_store) \<Rightarrow> ticket option \<Rightarrow> string \<Rightarrow> string \<Rightarrow> time \<Rightarrow>
     (ticket \<Rightarrow> ticket) \<Rightarrow> ticket_store \<Rightarrow> (py_exn + ticket) \<times> ticket_store" where
  "finalize_claim others record owner token now updates s =
     (case record of
        None \<Rightarrow> (Inl (Ticket_Error ''Execution ticket claim is invalid''), s)
      | Some r \<Rightarrow>
          if \<not> claim_owned r owner token now
          then (Inl (Ticket_Error ''Execution ticket claim is invalid''), s)
          else
            (case ticket_finalize (updates r) owner token now (others 0 s) of
               (None, s') \<Rightarrow> (Inl (Ticket_Error ''Execution ticket claim is invalid''), s')
             | (Some x, s') \<Rightarrow> (Inr x, s')))"

definition released :: "ticket \<Rightarrow> ticket" where
  "released r = r\<lparr>tk_status := Ticket_Issued, tk_owner := None, tk_token := None, tk_lease := None\<rparr>"

definition ticket_release ::
    "(nat \<Rightarrow> ticket_store \<Rightarrow> ticket_store) \<Rightarrow> string \<Rightarrow> string \<Rightarrow> string \<Rightarrow> time \<Rightarrow> ticket_store \<Rightarrow>
     (py_exn + ticket) \<times> ticket_store" where
  "ticket_release others h owner token now s =
     finalize_claim others (ticket_get s h) owner token now released s"

definition progressed :: "nat \<Rightarrow> nat \<Rightarrow> ticket \<Rightarrow> ticket" where
  "progressed version seq r = (released r)\<lparr>tk_version := version, tk_sequence := seq\<rparr>"

definition release_after_progress ::
    "(nat \<Rightarrow> ticket_store \<Rightarrow> ticket_store) \<Rightarrow> string \<Rightarrow> string \<Rightarrow> string \<Rightarrow> nat \<Rightarrow> nat \<Rightarrow> time \<Rightarrow>
     ticket_store \<Rightarrow> (py_exn + ticket) \<times> ticket_store" where
  "release_after_progress others h owner token version seq now s =
     (case ticket_get s h of
        None \<Rightarrow> (Inl (Ticket_Error ''Execution ticket claim is invalid''), s)
      | Some r \<Rightarrow>
          if version \<le> tk_version r \<or> seq \<le> tk_sequence r
          then (Inl (Ticket_Error ''Execution ticket claim is invalid''), s)
          else finalize_claim others (Some r) owner token now (progressed version seq) s)"

definition consumed :: "ident \<Rightarrow> time \<Rightarrow> ticket \<Rightarrow> ticket" where
  "consumed event_id now r =
     r\<lparr>tk_status := Ticket_Consumed, tk_event := Some event_id, tk_consumed_at := Some now,
       tk_owner := None, tk_token := None, tk_lease := None\<rparr>"

definition ticket_consume ::
    "(nat \<Rightarrow> ticket_store \<Rightarrow> ticket_store) \<Rightarrow> string \<Rightarrow> ident \<Rightarrow> string \<Rightarrow> string \<Rightarrow> time \<Rightarrow>
     ticket_store \<Rightarrow> (py_exn + ticket) \<times> ticket_store" where
  "ticket_consume others h event_id owner token now s =
     (case ticket_get s h of
        None \<Rightarrow> (Inl (Ticket_Error ''Invalid execution ticket''), s)
      | Some r \<Rightarrow>
          if tk_status r = Ticket_Consumed then
            (if tk_event r = Some event_id then (Inr r, s)
             else (Inl (Ticket_Error ''Execution ticket already consumed''), s))
          else
            (case finalize_claim others (Some r) owner token now (consumed event_id now) s of
               (Inr x, s') \<Rightarrow> (Inr x, s')
             | (Inl e, s') \<Rightarrow>
                 (case ticket_get (others 1 s') h of
                    None \<Rightarrow> (Inl e, others 1 s')
                  | Some c \<Rightarrow>
                      if tk_status c = Ticket_Consumed then
                        (if tk_event c = Some event_id then (Inr c, others 1 s')
                         else (Inl (Ticket_Error ''Execution ticket already consumed''),
                               others 1 s'))
                      else (Inl e, others 1 s'))))"

subsection \<open>Tokens\<close>

lemma rpartition_dot_append:
  assumes "CHR ''.'' \<notin> set sig"
  shows "rpartition_dot (raw @ ''.'' @ sig) = Some (raw, sig)"
proof -
  have "dropWhile (\<lambda>c. c \<noteq> CHR ''.'') (rev sig @ CHR ''.'' # rev raw) = CHR ''.'' # rev raw"
    "takeWhile (\<lambda>c. c \<noteq> CHR ''.'') (rev sig @ CHR ''.'' # rev raw) = rev sig"
    using assms by (simp_all add: dropWhile_append takeWhile_append)
  then show ?thesis by (simp add: rpartition_dot_def)
qed

text \<open>
  A token the service issued passes the syntax and signature check: tokens of the random source
  have no blanks, the digest is hexadecimal.
\<close>

lemma encode_valid:
  assumes "raw \<noteq> []" "length raw \<le> 400" "\<forall>c\<in>set raw. \<not> py_isspace c"
    and hex: "\<And>x. \<forall>c\<in>set (hash x). \<not> py_isspace c \<and> c \<noteq> CHR ''.''" "\<And>x. hash x \<noteq> []"
    and secret: "secret \<noteq> Some []"
  shows "valid_token hash (encode_ticket hash secret raw) secret"
proof (cases secret)
  case None
  with assms show ?thesis by (simp add: valid_token_def encode_ticket_def)
next
  case (Some k)
  with secret have k: "k \<noteq> []" by simp
  let ?sig = "take 32 (hash (raw @ ''.'' @ k))"
  have sig: "CHR ''.'' \<notin> set ?sig" "\<forall>c\<in>set ?sig. \<not> py_isspace c" "?sig \<noteq> []" "length ?sig \<le> 32"
    using hex by (auto dest: in_set_takeD)
  have dot: "\<not> py_isspace CHR ''.''" by (simp add: py_isspace_def)
  show ?thesis
    using Some k assms(1-3) sig dot rpartition_dot_append[OF sig(1), of raw]
    by (auto simp: valid_token_def encode_ticket_def)
qed

subsection \<open>The operations are transitions of the store\<close>

definition ticket_interference :: "(nat \<Rightarrow> ticket_store \<Rightarrow> ticket_store) \<Rightarrow> bool" where
  "ticket_interference f \<longleftrightarrow> (\<forall>n s. ticket_steps s (f n s))"

lemma ticket_interferenceD: "ticket_interference f \<Longrightarrow> ticket_steps s (f n s)"
  by (simp add: ticket_interference_def)

lemma ticket_interference_id [simp]: "ticket_interference (\<lambda>n s. s)"
  by (simp add: ticket_interference_def)

lemma released_same [simp]: "tk_claims (released r) = tk_claims r" "tk_hash (released r) = tk_hash r"
  by (simp_all add: released_def)

lemma progressed_same [simp]:
  "tk_claims (progressed v n r) = tk_claims r" "tk_hash (progressed v n r) = tk_hash r"
  by (simp_all add: progressed_def)

lemma consumed_same [simp]:
  "tk_claims (consumed e now r) = tk_claims r" "tk_hash (consumed e now r) = tk_hash r"
  by (simp_all add: consumed_def)

lemma finalize_claim_steps:
  assumes ok: "ticket_store_ok s" and i: "ticket_interference others"
    and r: "dget s h = Some r" and u: "tk_claims (updates r) = tk_claims r" "tk_hash (updates r) = tk_hash r"
    and f: "finalize_claim others (Some r) owner token now updates s = (x, s')"
  shows "ticket_steps s s'"
proof (cases "claim_owned r owner token now")
  case False
  with f show ?thesis by (simp add: finalize_claim_def)
next
  case True
  let ?s1 = "others 0 s"
  have s1: "ticket_steps s ?s1" using i by (rule ticket_interferenceD)
  obtain y s2 where fin: "ticket_finalize (updates r) owner token now ?s1 = (y, s2)" by fastforce
  have h: "tk_hash r = h" using ticket_store_okD(2)[OF ok r] .
  have "ticket_step ?s1 s2"
  proof (rule ticket_step.finalize[OF _ fin])
    fix c
    assume "dget ?s1 (tk_hash (updates r)) = Some c"
    with u h ticket_steps_evolve[OF s1 r] show "tk_claims (updates r) = tk_claims c"
      by (auto simp: ticket_evolves_def)
  qed
  with s1 have "ticket_steps s s2" by simp
  moreover have "s' = s2" using f True fin by (auto simp: finalize_claim_def split: option.splits)
  ultimately show ?thesis by simp
qed

lemma finalize_claim_Inr:
  assumes "finalize_claim others (Some r) owner token now updates s = (Inr x, s')"
  shows "claim_owned r owner token now" "x = updates r" "dget s' (tk_hash (updates r)) = Some x"
    "\<exists>c. dget (others 0 s) (tk_hash (updates r)) = Some c \<and> claim_owned c owner token now"
  using assms
  by (auto simp: finalize_claim_def split: if_splits prod.splits option.splits
      elim!: ticket_finalize_Some)

lemma ticket_consume_Inr:
  assumes ok: "ticket_store_ok s" and i: "ticket_interference others"
    and c: "ticket_consume others h e owner token now s = (Inr x, s')"
  shows "dget s' h = Some x \<and> tk_status x = Ticket_Consumed \<and> tk_event x = Some e"
proof -
  from c obtain r where r: "dget s h = Some r"
    by (auto simp: ticket_consume_def ticket_get_def split: option.splits)
  then have h: "tk_hash r = h" using ticket_store_okD(2)[OF ok] by blast
  show ?thesis
  proof (cases "tk_status r = Ticket_Consumed")
    case True
    with c r show ?thesis by (auto simp: ticket_consume_def ticket_get_def split: if_splits)
  next
    case False
    obtain y s1 where f: "finalize_claim others (Some r) owner token now (consumed e now) s = (y, s1)"
      by fastforce
    show ?thesis
    proof (cases y)
      case (Inr z)
      with c r False f have "z = x" "s1 = s'" by (simp_all add: ticket_consume_def ticket_get_def)
      with finalize_claim_Inr[OF f[unfolded Inr]] h show ?thesis by (simp add: consumed_def)
    next
      case (Inl err)
      with c r False f show ?thesis
        by (auto simp: ticket_consume_def ticket_get_def split: option.splits if_splits)
    qed
  qed
qed

lemma ticket_consume_steps:
  assumes ok: "ticket_store_ok s" and i: "ticket_interference others"
    and c: "ticket_consume others h e owner token now s = (r, s')"
  shows "ticket_steps s s'"
proof (cases "dget s h")
  case None
  with c show ?thesis by (simp add: ticket_consume_def ticket_get_def)
next
  case (Some t)
  obtain y s1 where f: "finalize_claim others (Some t) owner token now (consumed e now) s = (y, s1)"
    by fastforce
  have s1: "ticket_steps s s1" by (rule finalize_claim_steps[OF ok i Some _ _ f]) simp_all
  moreover have "ticket_steps s1 (others 1 s1)" using i by (rule ticket_interferenceD)
  moreover have "s' = s \<or> s' = s1 \<or> s' = others 1 s1"
    using c Some f
    by (auto simp: ticket_consume_def ticket_get_def split: if_splits sum.splits option.splits)
  ultimately show ?thesis by auto
qed

lemma ticket_consume_replay:
  assumes "dget s h = Some x" "tk_status x = Ticket_Consumed"
  shows "ticket_consume others h e owner token now s =
    (if tk_event x = Some e then Inr x
     else Inl (Ticket_Error ''Execution ticket already consumed''), s)"
  using assms by (simp add: ticket_consume_def ticket_get_def)

lemma ticket_resolve_bound_steps:
  assumes "ticket_interference others"
    "ticket_resolve_bound others hash secret ticket purpose now s = (r, s')"
  shows "ticket_steps s s'"
proof -
  have "ticket_steps s (snd (ticket_expire k (others 0 s)))" for k
  proof -
    obtain x s2 where "ticket_expire k (others 0 s) = (x, s2)" by fastforce
    with ticket_step.expire[OF this] ticket_interferenceD[OF assms(1), of s 0] show ?thesis by simp
  qed
  with assms(2) show ?thesis
    by (auto simp: ticket_resolve_bound_def split: option.splits if_splits)
qed

lemma ticket_resolve_Inr:
  assumes "ticket_resolve others hash secret ticket tenant user purpose now s = (Inr r, s')"
  shows "s' = s \<and> dget s (hash ticket) = Some r \<and> valid_token hash ticket secret \<and>
    now < tcl_expires (tk_claims r) \<and> tk_status r \<in> {Ticket_Issued, Ticket_Claimed, Ticket_Consumed} \<and>
    tcl_purpose (tk_claims r) = purpose \<and> tcl_tenant (tk_claims r) = tenant \<and>
    tcl_user (tk_claims r) = user"
proof -
  from assms have b: "ticket_resolve_bound others hash secret ticket purpose now s = (Inr r, s')"
    and o: "tcl_tenant (tk_claims r) = tenant" "tcl_user (tk_claims r) = user"
    by (auto simp: ticket_resolve_def split: prod.splits sum.splits if_splits)
  from b o show ?thesis
    by (cases "tk_status r")
      (auto simp: ticket_resolve_bound_def ticket_get_def split: option.splits if_splits)
qed

lemma ticket_service_claim_Inr:
  assumes ok: "ticket_store_ok s" and i: "ticket_interference others"
    and c: "ticket_service_claim others hash secret ticket tenant user purpose owner token lease now s
      = (Inr (r, dup), s')"
  shows "dget s' (hash ticket) = Some r \<and> valid_token hash ticket secret \<and>
    now < tcl_expires (tk_claims r) \<and> tcl_purpose (tk_claims r) = purpose \<and>
    tcl_tenant (tk_claims r) = tenant \<and> tcl_user (tk_claims r) = user \<and>
    (if dup then tk_status r = Ticket_Consumed
     else claim_owned r owner token now \<and> tk_lease r = Some (now + lease))"
proof -
  from c have l: "0 < lease" by (auto simp: ticket_service_claim_def split: if_splits)
  with c obtain a where
    res: "ticket_resolve others hash secret ticket tenant user purpose now s = (Inr a, s)"
    using ticket_resolve_Inr
    by (fastforce simp: ticket_service_claim_def split: if_splits prod.splits sum.splits)
  note a = ticket_resolve_Inr[OF res]
  have h: "tk_hash a = hash ticket" using a ticket_store_okD(2)[OF ok] by blast
  show ?thesis
  proof (cases "tk_status a = Ticket_Consumed")
    case True
    with c l res a show ?thesis by (auto simp: ticket_service_claim_def)
  next
    case False
    obtain y s2 where cl: "ticket_claim (hash ticket) owner token now (now + lease) (others 1 s) = (y, s2)"
      by fastforce
    have s1: "ticket_steps s (others 1 s)" using i by (rule ticket_interferenceD)
    have s2: "ticket_steps s s2" using s1 ticket_step.claim[OF cl] by simp
    show ?thesis
    proof (cases y)
      case (Some z)
      with c l res False cl h have "r = z" "\<not> dup" "s' = s2"
        by (auto simp: ticket_service_claim_def)
      moreover from cl Some have "dget s2 (hash ticket) = Some z" "claim_owned z owner token now"
        "tk_lease z = Some (now + lease)"
        using l by (auto simp: claim_owned_def elim!: ticket_claim_Some)
      moreover from ticket_steps_evolve[OF s2, of "hash ticket" a] a calculation
      have "tk_claims z = tk_claims a" by (auto simp: ticket_evolves_def)
      ultimately show ?thesis using a by simp
    next
      case None
      with c l res False cl h have "dget (others 2 s2) (hash ticket) = Some r" "dup"
        "s' = others 2 s2" "tk_status r = Ticket_Consumed"
        by (auto simp: ticket_service_claim_def ticket_get_def split: option.splits if_splits)
      moreover have "ticket_steps s (others 2 s2)"
        using s2 ticket_interferenceD[OF i, of s2 2] by simp
      from ticket_steps_evolve[OF this, of "hash ticket" a] a calculation
      have "tk_claims r = tk_claims a" by (auto simp: ticket_evolves_def)
      ultimately show ?thesis using a by simp
    qed
  qed
qed

lemma release_after_progress_Inr:
  assumes ok: "ticket_store_ok s" and i: "ticket_interference others"
    and c: "release_after_progress others h owner token version seq now s = (Inr x, s')"
  shows "\<exists>r. dget s h = Some r \<and> claim_owned r owner token now \<and> dget s' h = Some x \<and>
    tk_status x = Ticket_Issued \<and> tk_claims x = tk_claims r \<and>
    tk_version r < tk_version x \<and> tk_sequence r < tk_sequence x"
proof -
  from c obtain r where r: "dget s h = Some r" "tk_version r < version" "tk_sequence r < seq"
    and f: "finalize_claim others (Some r) owner token now (progressed version seq) s = (Inr x, s')"
    by (auto simp: release_after_progress_def ticket_get_def split: option.splits if_splits)
  with finalize_claim_Inr[OF f] ticket_store_okD(2)[OF ok r(1)] show ?thesis
    by (auto simp: progressed_def released_def)
qed

subsection \<open>Properties\<close>

definition demo_claims :: ticket_claims where
  "demo_claims = \<lparr>tcl_request = ''r1'', tcl_run = ''run1'', tcl_turn = ''t1'', tcl_tenant = ''a'',
     tcl_user = ''u'', tcl_agent = ''ag'', tcl_plan = None, tcl_step = None,
     tcl_purpose = ''agent_event'', tcl_expires = 100, tcl_nonce = ''0123456789abcdef''\<rparr>"

definition demo_tickets :: ticket_store where
  "demo_tickets = [(''k'', new_ticket ''k'' demo_claims)]"

lemma demo_tickets_ok [simp]: "ticket_store_ok demo_tickets"
  by (simp add: ticket_store_ok_def demo_tickets_def new_ticket_def)

text \<open>
  A claim of a bearer ticket that succeeds, whatever other tasks do in between, is for a
  well-formed token whose stored ticket belongs to the caller's tenant and user, has the asked
  purpose and is not past its expiry; it either is a fresh lease held by the caller's owner and
  token until now plus the lease time, or it is marked a duplicate and the ticket is consumed.
\<close>

theorem ticket_claim_correct:
  assumes "ticket_store_ok s" "ticket_interference f"
    "ticket_service_claim f hash secret ticket tenant user purpose owner token lease now s
      = (Inr (r, dup), s')"
  shows "dget s' (hash ticket) = Some r \<and> valid_token hash ticket secret \<and>
    tcl_tenant (tk_claims r) = tenant \<and> tcl_user (tk_claims r) = user \<and>
    tcl_purpose (tk_claims r) = purpose \<and> now < tcl_expires (tk_claims r) \<and>
    (if dup then tk_status r = Ticket_Consumed
     else claim_owned r owner token now \<and> tk_lease r = Some (now + lease))"
  using ticket_service_claim_Inr[OF assms] by blast

lemma ticket_claim_correct_witness:
  "\<exists>r s'. ticket_service_claim (\<lambda>n s. s) (\<lambda>x. ''k'') None ''tok'' ''a'' ''u'' ''agent_event'' ''w'' ''l'' 5 1
      demo_tickets = (Inr (r, False), s') \<and> claim_owned r ''w'' ''l'' 1 \<and> tk_lease r = Some 6"
proof -
  obtain r s' where c: "ticket_service_claim (\<lambda>n s. s) (\<lambda>x. ''k'') None ''tok'' ''a'' ''u''
      ''agent_event'' ''w'' ''l'' 5 1 demo_tickets = (Inr (r, False), s')"
    by (simp add: ticket_service_claim_def ticket_resolve_def ticket_resolve_bound_def ticket_get_def
        valid_token_def py_isspace_def demo_tickets_def new_ticket_def demo_claims_def
        ticket_claim_def ticket_claimable_def Let_def)
  from ticket_claim_correct[OF demo_tickets_ok ticket_interference_id c] c show ?thesis by auto
qed

text \<open>
  C31: a ticket is consumed exactly once, for one event. Once a consumption for event \<open>e\<close> has
  succeeded, the stored ticket is consumed for \<open>e\<close>; no later activity changes it; consuming it
  again for \<open>e\<close> returns the same record and for any other event is refused, in both cases without
  changing the store; and no claim ever gets a lease on it again.
\<close>

theorem ticket_consumed_once:
  assumes "ticket_store_ok s" "ticket_interference f"
    "ticket_consume f h e owner token now s = (Inr x, s1)" "ticket_steps s1 s2"
  shows "dget s2 h = Some x \<and> tk_status x = Ticket_Consumed \<and> tk_event x = Some e \<and>
    ticket_consume g h e' owner' token' now' s2 =
      (if e' = e then Inr x else Inl (Ticket_Error ''Execution ticket already consumed''), s2) \<and>
    ticket_claim h owner' token' now' until s2 = (None, s2)"
proof -
  note x = ticket_consume_Inr[OF assms(1-3)]
  with ticket_steps_evolve[OF assms(4), of h x] have at: "dget s2 h = Some x"
    by (auto simp: ticket_evolves_def ticket_closed_def)
  with x ticket_consume_replay[OF at, of g e' owner' token' now'] show ?thesis
    by (auto simp: ticket_claim_def ticket_claimable_def)
qed

lemma ticket_consumed_once_witness:
  "\<exists>x s1. ticket_consume (\<lambda>n s. s) ''k'' ''e1'' ''w'' ''l'' 2
        (snd (ticket_claim ''k'' ''w'' ''l'' 1 6 demo_tickets)) = (Inr x, s1) \<and>
     ticket_consume (\<lambda>n s. s) ''k'' ''e2'' ''w'' ''l'' 3 s1
       = (Inl (Ticket_Error ''Execution ticket already consumed''), s1)"
proof -
  let ?s = "snd (ticket_claim ''k'' ''w'' ''l'' 1 6 demo_tickets)"
  have ok: "ticket_store_ok ?s"
    by (simp add: ticket_store_ok_def ticket_claim_def demo_tickets_def new_ticket_def
        ticket_claimable_def Let_def)
  obtain x s1 where c: "ticket_consume (\<lambda>n s. s) ''k'' ''e1'' ''w'' ''l'' 2 ?s = (Inr x, s1)"
    by (simp add: ticket_consume_def ticket_get_def ticket_claim_def demo_tickets_def new_ticket_def
        ticket_claimable_def finalize_claim_def claim_owned_def ticket_finalize_def consumed_def
        Let_def)
  from ticket_consumed_once[OF ok ticket_interference_id c rtranclp.rtrancl_refl,
      of "\<lambda>n s. s" "''e2''" "''w''" "''l''" 3 0] c
  show ?thesis by auto
qed

text \<open>
  Whatever sequence of claims with positive lease times runs against a ticket store, two
  leases granted on one ticket never overlap; and a release after progress that succeeds is by
  the holder of the live lease, keeps the claims and strictly raises the run version and the event
  sequence the ticket carries.
\<close>

theorem ticket_lease_discipline:
  assumes "ticket_store_ok s" "ticket_interference f"
    "\<forall>(r, k, now, until)\<in>set as. now < until"
  shows "sorted_wrt (\<lambda>(k, now, until) (k', now', until'). k = k' \<longrightarrow> until \<le> now')
      (grants ticket_lease_claim as s) \<and>
    (release_after_progress f h owner token version seq now s = (Inr x, s') \<longrightarrow>
     (\<exists>r. dget s h = Some r \<and> claim_owned r owner token now \<and> dget s' h = Some x \<and>
        tk_status x = Ticket_Issued \<and> tk_claims x = tk_claims r \<and>
        tk_version r < tk_version x \<and> tk_sequence r < tk_sequence x))"
  using ticket_leases.grants_disjoint[OF _ assms(3), of s] release_after_progress_Inr[OF assms(1,2)]
  by blast

lemma ticket_lease_discipline_witness:
  "sorted_wrt (\<lambda>(k, now, until) (k', now', until'). k = k' \<longrightarrow> until \<le> now')
      (grants ticket_lease_claim [((''w'', ''l''), ''k'', 1, 5), ((''w2'', ''l2''), ''k'', 3, 9),
         ((''w2'', ''l3''), ''k'', 5, 9)] demo_tickets)"
  using ticket_lease_discipline[OF demo_tickets_ok ticket_interference_id,
      of "[((''w'', ''l''), ''k'', 1, 5), ((''w2'', ''l2''), ''k'', 3, 9), ((''w2'', ''l3''), ''k'', 5, 9)]"]
  by simp

text \<open>
  C32: a token the service issues is accepted by the token check of the same service, provided
  the secret is not the empty string; with an empty secret the issuer signs nothing while the
  check still demands a signature, so a token without a dot is never accepted.
\<close>

theorem issued_token_valid:
  assumes "raw \<noteq> []" "length raw \<le> 400" "\<forall>c\<in>set raw. \<not> py_isspace c \<and> c \<noteq> CHR ''.''"
    "\<And>x. hash x \<noteq> [] \<and> (\<forall>c\<in>set (hash x). \<not> py_isspace c \<and> c \<noteq> CHR ''.'')"
  shows "valid_token hash (encode_ticket hash secret raw) secret \<longleftrightarrow> secret \<noteq> Some []"
proof (cases "secret = Some []")
  case True
  have "CHR ''.'' \<notin> set raw" using assms(3) by blast
  with True show ?thesis by (simp add: valid_token_def encode_ticket_def rpartition_dot_def)
next
  case False
  with encode_valid[of raw hash secret] assms show ?thesis by blast
qed

lemma issued_token_valid_witness:
  "valid_token (\<lambda>x. ''abcdef'') (encode_ticket (\<lambda>x. ''abcdef'') (Some ''s3cret'') ''raw'') (Some ''s3cret'') \<and>
   \<not> valid_token (\<lambda>x. ''abcdef'') (encode_ticket (\<lambda>x. ''abcdef'') (Some []) ''raw'') (Some [])"
  using issued_token_valid[of "''raw''" "\<lambda>x. ''abcdef''" "Some ''s3cret''"]
    issued_token_valid[of "''raw''" "\<lambda>x. ''abcdef''" "Some []"]
  by (simp add: py_isspace_def)

end
