(* ===== verification/Delegated_Service.thy ===== *)
theory Delegated_Service
  imports Delegated_Lifecycle
begin

text \<open>
  \<open>DelegatedRunService\<close> (\<open>app/services/delegated_run_service.py\<close>) and one sweep of
  \<open>DelegatedRunTimeoutRuntime\<close> (\<open>app/services/delegated_run_timeout_runtime.py\<close>). The digest is
  the parameter \<open>hash\<close>, the ISO rendering of a time stamp the parameter \<open>isofmt\<close>; the identifiers of
  new outbox events and runs are arguments.
\<close>

definition delegation_identity :: "start_command \<Rightarrow> string list" where
  "delegation_identity c =
     [sc_tenant c, sc_user c, sc_request c, sc_turn c, sc_agent c,
      (if str_set (sc_plan c) then the (sc_plan c) else []),
      (if str_set (sc_step c) then the (sc_step c) else [])]"

definition delegation_key :: "(string \<Rightarrow> string) \<Rightarrow> start_command \<Rightarrow> string" where
  "delegation_key hash c = ''delegation_'' @ hash (join_us (delegation_identity c))"

text \<open>The conversion of a run's status string to the enumeration of the reference.\<close>

fun delegated_status_of :: "run_status \<Rightarrow> delegated_status option" where
  "delegated_status_of RunPending = Some DelPending"
| "delegated_status_of RunRunning = Some DelRunning"
| "delegated_status_of RunBlocked = Some DelBlocked"
| "delegated_status_of RunCompleted = Some DelCompleted"
| "delegated_status_of RunFailed = Some DelFailed"
| "delegated_status_of RunCancelled = Some DelCancelled"
| "delegated_status_of RunTimedOut = Some DelTimedOut"
| "delegated_status_of _ = None"

definition run_reference_of :: "agent_run option \<Rightarrow> py_exn + run_reference" where
  "run_reference_of r =
     (case r of
        None \<Rightarrow> Inl Attribute_Error
      | Some x \<Rightarrow>
          (case (rn_turn x, rn_tenant x, rn_user x) of
             (Some t, Some tn, Some u) \<Rightarrow>
               (case rn_deadline x of
                  None \<Rightarrow> Inl (Value_Error ''Delegated Run is missing deadline'')
                | Some d \<Rightarrow>
                    (case delegated_status_of (rn_status x) of
                       None \<Rightarrow> Inl (Value_Error ''status'')
                     | Some st \<Rightarrow>
                         Inr \<lparr>dr_run = rn_id x, dr_turn = t, dr_tenant = tn, dr_user = u,
                              dr_agent = rn_agent x, dr_plan = rn_plan x, dr_step = rn_step x,
                              dr_status = st, dr_version = rn_version x, dr_deadline = d\<rparr>))
           | _ \<Rightarrow> Inl (Value_Error ''Delegated Run is missing canonical ownership'')))"

definition or_str :: "ident option \<Rightarrow> ident \<Rightarrow> ident" where
  "or_str x d = (if str_set x then the x else d)"

definition service_start ::
    "(string \<Rightarrow> string) \<Rightarrow> time \<Rightarrow> ident \<Rightarrow> start_command \<Rightarrow> command_result act" where
  "service_start hash now run_id c =
     and_then (run_start now c run_id (delegation_key hash c)) (\<lambda>(r, t, dup) w.
       (case r of
          None \<Rightarrow> Inl Attribute_Error
        | Some x \<Rightarrow>
            (case delegated_status_of (rn_status x) of
               None \<Rightarrow> Inl (Value_Error ''status'')
             | Some st \<Rightarrow>
                 (case t of
                    None \<Rightarrow> Inl Attribute_Error
                  | Some y \<Rightarrow>
                      Inr \<lparr>rr_run = \<lparr>dr_run = rn_id x, dr_turn = or_str (rn_turn x) (sc_turn c),
                             dr_tenant = or_str (rn_tenant x) (sc_tenant c),
                             dr_user = or_str (rn_user x) (sc_user c), dr_agent = rn_agent x,
                             dr_plan = rn_plan x, dr_step = rn_step x, dr_status = st,
                             dr_version = rn_version x,
                             dr_deadline = (case rn_deadline x of None \<Rightarrow> sc_deadline c | Some d \<Rightarrow> d)\<rparr>,
                           rr_duplicate = dup, rr_result = None, rr_turn = tn_id y\<rparr>)), w))"

definition service_progress :: "time \<Rightarrow> progress_command \<Rightarrow> command_result act" where
  "service_progress now c =
     and_then (run_progress now c) (\<lambda>(r, dup) w.
       (ebind (run_reference_of r) (\<lambda>x.
          Inr \<lparr>rr_run = x, rr_duplicate = dup, rr_result = None, rr_turn = cm_turn c\<rparr>), w))"

definition service_complete :: "ident \<Rightarrow> time \<Rightarrow> complete_command \<Rightarrow> command_result act" where
  "service_complete fresh now c =
     and_then (run_complete fresh now c) (\<lambda>(r, res, t, dup) w.
       (ebind (run_reference_of r) (\<lambda>x.
          case t of
            None \<Rightarrow> Inl Attribute_Error
          | Some y \<Rightarrow>
              Inr \<lparr>rr_run = x, rr_duplicate = dup, rr_result = Some (rs_id res), rr_turn = tn_id y\<rparr>),
        w))"

definition service_fail :: "ident \<Rightarrow> time \<Rightarrow> fail_command \<Rightarrow> command_result act" where
  "service_fail fresh now c =
     and_then (run_fail fresh now c) (\<lambda>(r, t, dup) w.
       (ebind (run_reference_of r) (\<lambda>x.
          Inr \<lparr>rr_run = x, rr_duplicate = dup, rr_result = None, rr_turn = tn_id t\<rparr>), w))"

definition service_cancel :: "ident \<Rightarrow> time \<Rightarrow> cancel_command \<Rightarrow> command_result act" where
  "service_cancel fresh now c =
     and_then (run_cancel fresh now c) (\<lambda>(r, t, dup) w.
       (ebind (run_reference_of (Some r)) (\<lambda>x.
          Inr \<lparr>rr_run = x, rr_duplicate = dup, rr_result = None, rr_turn = tn_id t\<rparr>), w))"

definition service_timeout :: "ident \<Rightarrow> time \<Rightarrow> timeout_command \<Rightarrow> command_result act" where
  "service_timeout fresh now c =
     and_then (run_timeout fresh now c) (\<lambda>(r, dup) w.
       (ebind (run_reference_of (Some r)) (\<lambda>x.
          Inr \<lparr>rr_run = x, rr_duplicate = dup, rr_result = None, rr_turn = cm_turn c\<rparr>), w))"

fun references_of :: "agent_run list \<Rightarrow> py_exn + run_reference list" where
  "references_of [] = Inr []"
| "references_of (r # rs) =
     ebind (run_reference_of (Some r)) (\<lambda>x. ebind (references_of rs) (\<lambda>xs. Inr (x # xs)))"

definition service_orphans ::
    "time \<Rightarrow> time \<Rightarrow> ident option \<Rightarrow> nat \<Rightarrow> drs \<Rightarrow> py_exn + run_reference list" where
  "service_orphans now stale tenant limit w =
     references_of (list_orphans now stale tenant limit w)"

definition service_overdue ::
    "time \<Rightarrow> ident option \<Rightarrow> nat \<Rightarrow> drs \<Rightarrow> py_exn + run_reference list" where
  "service_overdue now tenant limit w = references_of (list_overdue now tenant limit w)"

subsection \<open>One sweep of the timeout runtime\<close>

definition timeout_event_id :: "(string \<Rightarrow> string) \<Rightarrow> (time \<Rightarrow> string) \<Rightarrow> run_reference \<Rightarrow> ident" where
  "timeout_event_id hash isofmt r =
     maintenance_prefix @ take 32 (hash (join_us [dr_run r, isofmt (dr_deadline r)]))"

definition timeout_command_for ::
    "(string \<Rightarrow> string) \<Rightarrow> (time \<Rightarrow> string) \<Rightarrow> time \<Rightarrow> run_reference \<Rightarrow> timeout_command" where
  "timeout_command_for hash isofmt now r =
     \<lparr>cm_event = timeout_event_id hash isofmt r, cm_run = dr_run r, cm_turn = dr_turn r,
      cm_tenant = dr_tenant r, cm_user = dr_user r, cm_agent = dr_agent r, cm_plan = dr_plan r,
      cm_step = dr_step r, cm_version = dr_version r, cm_at = now, tc_deadline = dr_deadline r,
      tc_reason = ''deadline_exceeded''\<rparr>"

text \<open>
  The loop of \<open>run_once\<close>: only \<open>DelegatedRunStartConflict\<close> is caught; any other exception ends
  the sweep. \<open>fresh n\<close> is the identifier of the outbox event of the \<open>n\<close>-th run.
\<close>

fun sweep_runs ::
    "(string \<Rightarrow> string) \<Rightarrow> (time \<Rightarrow> string) \<Rightarrow> (nat \<Rightarrow> ident) \<Rightarrow> time \<Rightarrow> time \<Rightarrow> run_reference list \<Rightarrow>
     nat \<Rightarrow> nat \<Rightarrow> nat act" where
  "sweep_runs hash isofmt fresh now clock [] n done' w = (Inr done', w)"
| "sweep_runs hash isofmt fresh now clock (r # rs) n done' w =
     (let c = timeout_command_for hash isofmt now r
      in if \<not> event_command_ok c then (Inl (Value_Error ''command''), w)
         else case service_timeout (fresh n) clock c w of
           (Inr _, w') \<Rightarrow> sweep_runs hash isofmt fresh now clock rs (n + 1) (done' + 1) w'
         | (Inl (Start_Conflict _), w') \<Rightarrow> sweep_runs hash isofmt fresh now clock rs (n + 1) done' w'
         | (Inl e, w') \<Rightarrow> (Inl e, w'))"

definition run_once ::
    "(string \<Rightarrow> string) \<Rightarrow> (time \<Rightarrow> string) \<Rightarrow> (nat \<Rightarrow> ident) \<Rightarrow> time \<Rightarrow> time \<Rightarrow> nat \<Rightarrow> nat act" where
  "run_once hash isofmt fresh now clock batch w =
     (case service_overdue now None batch w of
        Inl e \<Rightarrow> (Inl e, w)
      | Inr rs \<Rightarrow> sweep_runs hash isofmt fresh now clock rs 0 0 w)"

end
