(* ===== verification/Delegated_Properties.thy ===== *)
theory Delegated_Properties
  imports Delegated_Service
begin

text \<open>
  The properties of delegated runs: history, atomicity, what each terminal transition
  establishes, idempotent replay, deadlines, and the situations in which the in-memory stores
  leave inconsistent state behind.
\<close>

subsection \<open>What a commit leaves in the state\<close>

lemma with_result_results:
  "re_results (with_result r s) = re_results s @ (case r of None \<Rightarrow> [] | Some x \<Rightarrow> [x])"
  by (simp add: with_result_def add_result_def Let_def split: option.splits)

lemma committed_run:
  "get_run (dw_runs (committed now b w)) i =
     (if i = rn_id (bd_run b) then Some (validated_run b) else get_run (dw_runs w) i)"
  by (simp add: get_run_def committed_def half_committed_def)

lemma committed_turn:
  "dget (ts_turns (dw_turns (committed now b w))) i =
     (if i = tn_id (bd_turn b) then Some (bd_turn b) else dget (ts_turns (dw_turns w)) i)"
  by (simp add: committed_def)

lemma committed_results:
  "re_results (dw_results (committed now b w)) =
     re_results (dw_results w) @ (case bd_result b of None \<Rightarrow> [] | Some x \<Rightarrow> [x])"
  by (simp add: committed_def half_committed_def with_result_results)

lemma committed_event:
  "dget (dw_events w) (ev_id (bd_event b)) = None \<Longrightarrow>
     dget (dw_events (committed now b w)) (ev_id (bd_event b)) = Some ((bd_event b)\<lparr>ev_created := Some now\<rparr>)"
  by (simp add: committed_def add_agent_event_get)

lemma committed_outbox:
  assumes "drs_ok w"
  shows "\<exists>e. dget (ox_events (dw_outbox (committed now b w)))
      (the (dget (ox_keys (dw_outbox (committed now b w))) (ob_key (bd_outbox b)))) = Some e \<and>
    ob_key e = ob_key (bd_outbox b)"
proof -
  note ok = drs_okD(3)[OF assms]
  show ?thesis
  proof (cases "dget (ox_keys (dw_outbox w)) (ob_key (bd_outbox b))")
    case None
    then show ?thesis by (simp add: committed_def outbox_add_def)
  next
    case (Some j)
    from outbox_okD(5)[OF ok Some] outbox_okD(3)[OF ok] obtain e where
      "dget (ox_events (dw_outbox w)) j = Some e" "ob_key e = ob_key (bd_outbox b)" "j \<noteq> []" by blast
    with Some show ?thesis by (simp add: committed_def outbox_add_def)
  qed
qed

subsection \<open>A concrete state\<close>

definition demo_turn0 :: turn where
  "demo_turn0 = \<lparr>tn_id = ''t1'', tn_tenant = ''a'', tn_user = ''u'', tn_session = ''s'',
     tn_request = ''r1'', tn_source = ''user'', tn_status = TurnRunning, tn_version = 2,
     tn_input = \<lparr>ui_text = ''hi'', ui_metadata = JObj []\<rparr>,
     tn_refs = empty_refs\<lparr>tr_runs := [''run1'']\<rparr>, tn_response = None,
     tn_created = 0, tn_updated = 1, tn_completed = None\<rparr>"

definition demo_run :: agent_run where
  "demo_run = \<lparr>rn_id = ''run1'', rn_request = Some ''r1'', rn_session = ''s'', rn_agent = ''ag'',
     rn_user = Some ''u'', rn_tenant = Some ''a'', rn_turn = Some ''t1'', rn_plan = None,
     rn_step = None, rn_status = RunPending, rn_invoker = ''delegated'', rn_delegated = True,
     rn_delegation_key = Some ''k'', rn_version = 1, rn_sequence = 0, rn_deadline = Some 10,
     rn_heartbeat = None, rn_terminal_event = None, rn_input = JObj [], rn_output = None,
     rn_error = None, rn_latency = None, rn_suppressed = False, rn_used_memory = [],
     rn_created = Some 1, rn_updated = Some 1\<rparr>"

definition demo_world :: "turn \<Rightarrow> drs" where
  "demo_world t = \<lparr>dw_runs = \<lparr>rr_runs = [(''run1'', demo_run)], rr_published = []\<rparr>,
     dw_results = \<lparr>re_results = [], re_published = {}, re_captured = {}\<rparr>, dw_events = [],
     dw_turns = \<lparr>ts_turns = [(tn_id t, t)], ts_owner_requests = [(owner_request_key t, tn_id t)],
                 ts_request_ids = [(tn_request t, tn_id t)]\<rparr>,
     dw_outbox = empty_outbox, dw_plans = Some empty_plan_store, dw_keys = [(''k'', ''run1'')]\<rparr>"

lemma demo_run_valid: "validate_run demo_run = Inr demo_run"
  by (simp add: validate_run_def demo_run_def sanitize_opt_def)

lemma demo_world_ok: "drs_ok (demo_world t)"
  using demo_run_valid
  by (simp add: drs_ok_def demo_world_def runs_ok_def events_ok_def turn_store_ok_def
      turn_indexed_def outbox_ok_def empty_outbox_def plan_store_ok_def empty_plan_store_def demo_run_def)

definition demo_complete :: complete_command where
  "demo_complete = \<lparr>cm_event = ''e1'', cm_run = ''run1'', cm_turn = ''t1'', cm_tenant = ''a'',
     cm_user = ''u'', cm_agent = ''ag'', cm_plan = None, cm_step = None, cm_version = 1, cm_at = 12,
     cc_result = ''res1'', cc_text = ''done'', cc_output = None,
     cc_artifacts = []\<rparr>"

definition demo_fail :: fail_command where
  "demo_fail = \<lparr>cm_event = ''e1'', cm_run = ''run1'', cm_turn = ''t1'', cm_tenant = ''a'',
     cm_user = ''u'', cm_agent = ''ag'', cm_plan = None, cm_step = None, cm_version = 1, cm_at = 12,
     fc_error = JObj [(''code'', JStr ''boom'')]\<rparr>"

definition demo_cancel :: cancel_command where
  "demo_cancel = \<lparr>cm_event = ''e1'', cm_run = ''run1'', cm_turn = ''t1'', cm_tenant = ''a'',
     cm_user = ''u'', cm_agent = ''ag'', cm_plan = None, cm_step = None, cm_version = 1, cm_at = 12,
     xc_reason = ''stop''\<rparr>"

definition demo_timeout :: timeout_command where
  "demo_timeout = \<lparr>cm_event = ''e1'', cm_run = ''run1'', cm_turn = ''t1'', cm_tenant = ''a'',
     cm_user = ''u'', cm_agent = ''ag'', cm_plan = None, cm_step = None, cm_version = 1, cm_at = 12,
     tc_deadline = 10, tc_reason = ''late''\<rparr>"

lemma demo_world_reads:
  "get_run (dw_runs (demo_world t)) ''run1'' = Some demo_run"
  "dget (dw_events (demo_world t)) i = None" "ox_events (dw_outbox (demo_world t)) = []"
  "dget (ts_turns (dw_turns (demo_world t))) (tn_id t) = Some t"
  by (simp_all add: demo_world_def get_run_def empty_outbox_def)

subsection \<open>What the bundles contain\<close>

lemma validate_result_same:
  "validate_result r = Inr x \<Longrightarrow> rs_id x = rs_id r \<and> rs_run x = rs_run r \<and> rs_turn x = rs_turn r \<and>
     rs_tenant x = rs_tenant r \<and> rs_user x = rs_user r \<and> rs_agent x = rs_agent r \<and>
     rs_plan x = rs_plan r \<and> rs_step x = rs_step r \<and> rs_status x = rs_status r \<and>
     rs_message x = rs_message r \<and> rs_artifacts x = rs_artifacts r \<and>
     sanitize_opt (rs_output r) = Some (rs_output x)"
  by (auto simp: validate_result_def split: option.splits)

lemma completion_bundle_content:
  assumes "completion_bundle fresh c r t p = Inr b"
  shows "tn_response (bd_turn b) = Some \<lparr>sr_kind = Kind_Agent_Result, sr_text = cc_text c,
      sr_output = cc_output c, sr_error = None\<rparr>"
    "cc_result c \<in> set (tr_results (tn_refs (bd_turn b)))"
    "ob_key (bd_outbox b) = ''turn.completed:'' @ tn_id t"
    "\<exists>x. bd_result b = Some x \<and> rs_id x = cc_result c \<and> rs_run x = rn_id r \<and> rs_turn x = rn_turn r \<and>
       rs_tenant x = rn_tenant r \<and> rs_user x = rn_user r \<and> rs_agent x = rn_agent r \<and>
       rs_plan x = rn_plan r \<and> rs_step x = rn_step r \<and> rs_status x = RunCompleted \<and>
       rs_message x = cc_text c \<and> rs_artifacts x = cc_artifacts c \<and>
       sanitize_opt (cc_output c) = Some (rs_output x)"
    "\<exists>v. validate_event v = Inr (bd_event b) \<and> v = run_event r (cm_event c) Agent_Result_Event
       ''completed'' (JObj [(''result_id'', JStr (cc_result c))]) (ended_run RunCompleted r c (cm_at c)) (cm_at c)"
  using assms
  by (auto simp: completion_bundle_def Let_def ebind_eq_Inr run_event_def dest!: validate_result_same)

text \<open>The owner of a recorded event is the owner of the run.\<close>

lemma recorded_after_commit:
  assumes "run_matches r c" "validate_event (run_event r (cm_event c) ty st pl u at) = Inr (bd_event b)"
    "dget (dw_events w) (cm_event c) = None"
  shows "recorded_event (committed now b w) c = Some ((bd_event b)\<lparr>ev_created := Some now\<rparr>)"
proof -
  note e = conjunct1[OF validate_event_same[OF assms(2)]]
  have "ev_id (bd_event b) = cm_event c" by (subst e) (simp add: run_event_def)
  moreover have "ev_tenant (bd_event b) = Some (cm_tenant c)" "ev_user (bd_event b) = Some (cm_user c)"
    using assms(1) by (subst e, simp add: run_event_def run_matches_def)+
  ultimately show ?thesis
    using committed_event[of w b now] assms(3) by (simp add: recorded_event_def get_event_def)
qed

subsection \<open>Properties\<close>

text \<open>
  C23: over any history of start, progress, complete, fail, cancel and timeout calls, successful or
  not, a delegated run keeps its identity, owner, turn and deadline; every change raises its state
  version and its event sequence; and a run in a terminal state never changes again in any field.
  The same history is a history of repository writes for the turns, so turns never go back either.
\<close>

theorem run_history:
  assumes "drs_ok w" "drs_steps w w'" "get_run (dw_runs w) i = Some a"
  shows "drs_ok w' \<and> turn_store_steps (dw_turns w) (dw_turns w') \<and>
    (\<exists>b. get_run (dw_runs w') i = Some b \<and> rn_id b = rn_id a \<and> same_run_identity a b \<and>
       rn_turn b = rn_turn a \<and> rn_deadline b = rn_deadline a \<and>
       (b = a \<or> \<not> terminal_run_status (rn_status a) \<and> rn_version a < rn_version b \<and>
                 rn_sequence a < rn_sequence b))"
  using drs_steps_evolve[OF assms(2,1,3)] drs_steps_ok[OF assms(2,1)]
    drs_steps_turns[OF assms(2,1)]
  unfolding run_evolves_def by blast

lemma run_history_witness:
  "let w' = snd (run_cancel ''o1'' 13 demo_cancel (demo_world demo_turn0))
   in drs_ok w' \<and> (\<exists>b. get_run (dw_runs w') ''run1'' = Some b \<and> rn_deadline b = Some 10)"
proof -
  let ?r = "run_cancel ''o1'' 13 demo_cancel (demo_world demo_turn0)"
  have "drs_step (demo_world demo_turn0) (snd ?r)"
    by (rule drs_step.cancel[OF _ prod.collapse[symmetric]]) (simp add: fresh_outbox_def demo_world_reads)
  then have "drs_steps (demo_world demo_turn0) (snd ?r)" by simp
  from run_history[OF demo_world_ok this demo_world_reads(1)] show ?thesis
    by (auto simp: Let_def demo_run_def)
qed

text \<open>
  C25: start, progress, fail and cancel are all or nothing: when one of them raises, the whole
  shared state (runs, results, events, turns, outbox, plans and their claims, delegation keys) is
  exactly as before. Complete and timeout are all or nothing too as long as the turn of the
  command is not terminal.
\<close>

theorem delegated_all_or_nothing:
  assumes "drs_ok w"
  shows "(run_start now sc i key w = (Inl e, w') \<longrightarrow> w' = w) \<and>
    (run_progress now pc w = (Inl e, w') \<longrightarrow> w' = w) \<and>
    (run_fail fresh now fc w = (Inl e, w') \<longrightarrow> w' = w) \<and>
    (run_cancel fresh now xc w = (Inl e, w') \<longrightarrow> w' = w) \<and>
    (run_complete fresh now cc w = (Inl e, w') \<longrightarrow>
       (\<forall>t. command_turn w cc = Some t \<longrightarrow> \<not> turn_is_terminal (tn_status t)) \<longrightarrow> w' = w) \<and>
    (run_timeout fresh now tc w = (Inl e, w') \<longrightarrow>
       (\<forall>t. command_turn w tc = Some t \<longrightarrow> \<not> turn_is_terminal (tn_status t)) \<longrightarrow> w' = w)"
proof (intro conjI impI)
  show "w' = w" if "run_start now sc i key w = (Inl e, w')"
    using run_start_outcome[OF assms, of now sc i key] that by auto
  show "w' = w" if "run_progress now pc w = (Inl e, w')"
    using run_progress_outcome[OF assms, of now pc] that by auto
  show "w' = w" if "run_fail fresh now fc w = (Inl e, w')"
    using run_fail_outcome[OF assms, of fresh now fc] that by auto
  show "w' = w" if "run_cancel fresh now xc w = (Inl e, w')"
    using run_cancel_outcome[OF assms, of fresh now xc] that by auto
  show "w' = w" if "run_complete fresh now cc w = (Inl e, w')"
    "\<forall>t. command_turn w cc = Some t \<longrightarrow> \<not> turn_is_terminal (tn_status t)"
    using run_complete_outcome[OF assms, of fresh now cc] that
    by (auto simp: commits_def split: if_splits)
  show "w' = w" if "run_timeout fresh now tc w = (Inl e, w')"
    "\<forall>t. command_turn w tc = Some t \<longrightarrow> \<not> turn_is_terminal (tn_status t)"
    using run_timeout_outcome[OF assms, of fresh now tc] that by auto
qed

lemma delegated_all_or_nothing_witness:
  "\<exists>e. run_fail ''o1'' 13 (demo_fail\<lparr>cm_version := 7\<rparr>) (demo_world demo_turn0) =
     (Inl e, demo_world demo_turn0)"
proof -
  obtain e w' where f: "run_fail ''o1'' 13 (demo_fail\<lparr>cm_version := 7\<rparr>) (demo_world demo_turn0) = (Inl e, w')"
    by (simp add: run_fail_def recorded_event_def demo_world_reads get_event_def demo_fail_def
        validate_failure_run_def validate_active_run_def run_matches_def demo_run_def)
  with delegated_all_or_nothing[OF demo_world_ok, where fresh = "''o1''" and now = 13
      and fc = "demo_fail\<lparr>cm_version := 7\<rparr>" and e = e and w' = w']
  show ?thesis by auto
qed


text \<open>
  What a completion does to the plan of its command: the step of the agent is completed, status and current
  step follow from the steps, version and event are those of the command, and the execution claim is kept for
  the new version while the plan runs and is dropped otherwise. Other plans and claims stay.
\<close>

definition plan_completed :: "complete_command \<Rightarrow> plan \<Rightarrow> plan_store \<Rightarrow> plan_store \<Rightarrow> bool" where
  "plan_completed c p ps ps' \<longleftrightarrow>
     (\<exists>q. (\<exists>x\<in>set (pl_steps p). Some (st_id x) = cm_step c \<and> st_agent x = cm_agent c) \<and>
        pl_steps q = map (\<lambda>x. if Some (st_id x) = cm_step c \<and> st_agent x = cm_agent c
                             then x\<lparr>st_status := Completed\<rparr> else x) (pl_steps p) \<and>
        plan_state_after_completion (pl_steps q) = Inr (pl_status q, pl_current q) \<and>
        (pl_status q \<noteq> Blocked \<longrightarrow> pl_next_action q = None) \<and>
        q = p\<lparr>pl_steps := pl_steps q, pl_status := pl_status q, pl_current := pl_current q,
              pl_next_action := pl_next_action q, pl_version := pl_version p + 1,
              pl_last_event := Some (cm_event c), pl_updated := cm_at c, pl_formation := ''update''\<rparr> \<and>
        ps_plans ps' = dput (pl_id p) q (ps_plans ps) \<and>
        (\<forall>k. dget (ps_claims ps') k =
           (if k \<noteq> pl_id p then dget (ps_claims ps) k
            else if pl_status q = Running
            then map_option (\<lambda>x. x\<lparr>cl_version := pl_version q\<rparr>) (dget (ps_claims ps) k) else None)))"

lemma completed_plan_stored:
  assumes "complete_plan_step p c = Inr q"
  shows "plan_completed c p ps (store_plan q False ps)"
proof -
  from assms have
    f: "\<exists>x\<in>set (pl_steps p). Some (st_id x) = cm_step c \<and> st_agent x = cm_agent c"
      "pl_steps q = map (\<lambda>x. if Some (st_id x) = cm_step c \<and> st_agent x = cm_agent c
                            then x\<lparr>st_status := Completed\<rparr> else x) (pl_steps p)"
      "plan_state_after_completion (pl_steps q) = Inr (pl_status q, pl_current q)"
      "pl_status q \<noteq> Blocked \<longrightarrow> pl_next_action q = None" "pl_id q = pl_id p"
    and q: "q = p\<lparr>pl_steps := pl_steps q, pl_status := pl_status q, pl_current := pl_current q,
              pl_next_action := pl_next_action q, pl_version := pl_version p + 1,
              pl_last_event := Some (cm_event c), pl_updated := cm_at c, pl_formation := ''update''\<rparr>"
    by (auto simp: complete_plan_step_def require_step_def mark_step_def step_of_agent_def ebind_eq_Inr ensure_eq_Inr Let_def
        split: sum.splits)
  have "ps_plans (store_plan q False ps) = dput (pl_id p) q (ps_plans ps)"
    by (simp add: store_plan_def Let_def suppress_formation_def f(5) split: option.split)
  moreover have "dget (ps_claims (store_plan q False ps)) k =
      (if k \<noteq> pl_id p then dget (ps_claims ps) k
       else if pl_status q = Running
       then map_option (\<lambda>x. x\<lparr>cl_version := pl_version q\<rparr>) (dget (ps_claims ps) k) else None)" for k
    by (simp add: store_plan_def Let_def suppress_formation_def f(5) split: option.split)
  ultimately show ?thesis
    unfolding plan_completed_def by (intro exI[of _ q] conjI f q allI)
qed

text \<open>What the completion stores as the run: the agent's output is in it, as far as the validator keeps it.\<close>

lemma completed_run:
  assumes "completion_bundle fresh c r t p = Inr b" "validate_run r = Inr r"
    "validate_run (bd_run b) = Inr x"
  shows "\<exists>y. sanitize_opt (cc_output c) = Some y \<and>
    x = r\<lparr>rn_status := RunCompleted, rn_version := rn_version r + 1, rn_sequence := rn_sequence r + 1,
          rn_terminal_event := Some (cm_event c), rn_heartbeat := Some (cm_at c), rn_updated := Some (cm_at c),
          rn_output := y\<rparr>"
proof -
  have "bd_run b = (ended_run RunCompleted r c (cm_at c))\<lparr>rn_output := cc_output c\<rparr>"
    using assms(1) by (auto simp: completion_bundle_def Let_def ebind_eq_Inr)
  then show ?thesis
    using assms(3) validate_run_fix[OF assms(2)]
    by (cases r) (auto simp: validate_run_def ended_run_def split: option.splits if_splits)
qed

lemma completed_result:
  assumes "completion_bundle fresh c r t p = Inr b"
  shows "\<exists>y. sanitize_opt (cc_output c) = Some y \<and> bd_result b = Some
    \<lparr>rs_id = cc_result c, rs_run = rn_id r, rs_session = rn_session r, rs_agent = rn_agent r,
     rs_user = rn_user r, rs_tenant = rn_tenant r, rs_turn = rn_turn r, rs_plan = rn_plan r,
     rs_step = rn_step r, rs_status = RunCompleted, rs_run_version = Some (rn_version r + 1),
     rs_message = cc_text c, rs_suppressed = False, rs_skip_audit = False, rs_output = y,
     rs_artifacts = cc_artifacts c, rs_error = None, rs_created = Some (cm_at c)\<rparr>"
  using assms
  by (auto simp: completion_bundle_def Let_def ebind_eq_Inr validate_result_def ended_run_def sanitize_opt_def[of None]
      split: option.splits)

lemma completed_turn_is:
  "completion_bundle fresh c r t p = Inr b \<Longrightarrow> bd_turn b =
     t\<lparr>tn_status := TurnCompleted, tn_version := tn_version t + 1,
       tn_refs := (tn_refs t)\<lparr>tr_results :=
         (if cc_result c \<in> set (tr_results (tn_refs t)) then tr_results (tn_refs t)
          else tr_results (tn_refs t) @ [cc_result c])\<rparr>,
       tn_response := Some \<lparr>sr_kind = Kind_Agent_Result, sr_text = cc_text c, sr_output = cc_output c,
                            sr_error = None\<rparr>,
       tn_updated := cm_at c, tn_completed := Some (cm_at c)\<rparr>"
  by (auto simp: completion_bundle_def Let_def ebind_eq_Inr)

lemma completed_plan_of:
  assumes "completion_bundle fresh c r t p = Inr b" "reads_plan w c p"
  shows "(case p of None \<Rightarrow> with_plan (bd_plan b) (dw_plans w) = dw_plans w
    | Some p0 \<Rightarrow> \<exists>ps ps'. dw_plans w = Some ps \<and> with_plan (bd_plan b) (dw_plans w) = Some ps' \<and> plan_completed c p0 ps ps')"
proof (cases p)
  case None
  then show ?thesis using completion_bundle_sel[OF assms(1)] by (simp add: map_plan_def with_plan_def)
next
  case (Some p0)
  obtain ps where ps: "dw_plans w = Some ps" using assms(2) reads_plan_Some Some by blast
  obtain q where "complete_plan_step p0 c = Inr q" "bd_plan b = Some q"
    using completion_bundle_sel[OF assms(1)] Some by (auto simp: map_plan_def ebind_eq_Inr)
  then show ?thesis using completed_plan_stored[of p0 c q ps] ps Some by (simp add: with_plan_def)
qed

text \<open>
  C24: a completion that reports a new success found the matching active run and a turn that was
  not terminal, and leaves exactly this behind. The run is completed under the command's event, with
  version and sequence one higher, and carries the agent's output as the validator keeps it; nothing else
  of it changed. One result was recorded, with the identity of the run, the command's text, artifacts
  and output. The turn is completed with the agent result and refers to the result. The plan of the
  command, where it is stored, has the step of the agent completed, with the status that follows and its
  claim kept or dropped accordingly, and otherwise no plan changed. The event is recorded with
  the result's identifier unless its identifier was already taken by another owner, the outbox holds the
  turn's completion event, and no other run, turn or event changed.
\<close>

theorem run_complete_correct:
  assumes "drs_ok w" "run_complete fresh now c w = (Inr (r, res, t, False), w')"
  shows "\<exists>r0 t0 r1 t1 y. get_run (dw_runs w) (cm_run c) = Some r0 \<and> run_matches r0 c \<and>
    command_turn w c = Some t0 \<and> \<not> turn_is_terminal (tn_status t0) \<and>
    sanitize_opt (cc_output c) = Some y \<and>
    get_run (dw_runs w') (cm_run c) = Some r1 \<and>
    r1 = r0\<lparr>rn_status := RunCompleted, rn_version := rn_version r0 + 1, rn_sequence := rn_sequence r0 + 1,
            rn_terminal_event := Some (cm_event c), rn_heartbeat := Some (cm_at c),
            rn_updated := Some (cm_at c), rn_output := y\<rparr> \<and>
    re_results (dw_results w') = re_results (dw_results w) @ [res] \<and>
    res = \<lparr>rs_id = cc_result c, rs_run = cm_run c, rs_session = rn_session r0, rs_agent = rn_agent r0,
      rs_user = rn_user r0, rs_tenant = rn_tenant r0, rs_turn = rn_turn r0, rs_plan = rn_plan r0,
      rs_step = rn_step r0, rs_status = RunCompleted, rs_run_version = Some (rn_version r0 + 1),
      rs_message = cc_text c, rs_suppressed = False, rs_skip_audit = False, rs_output = y,
      rs_artifacts = cc_artifacts c, rs_error = None, rs_created = Some (cm_at c)\<rparr> \<and>
    dget (ts_turns (dw_turns w')) (cm_turn c) = Some t1 \<and> t = Some t1 \<and>
    cc_result c \<in> set (tr_results (tn_refs t1)) \<and>
    t1 = t0\<lparr>tn_status := TurnCompleted, tn_version := tn_version t0 + 1,
      tn_refs := (tn_refs t0)\<lparr>tr_results :=
        (if cc_result c \<in> set (tr_results (tn_refs t0)) then tr_results (tn_refs t0)
         else tr_results (tn_refs t0) @ [cc_result c])\<rparr>,
      tn_response := Some \<lparr>sr_kind = Kind_Agent_Result, sr_text = cc_text c, sr_output = cc_output c,
                           sr_error = None\<rparr>,
      tn_updated := cm_at c, tn_completed := Some (cm_at c)\<rparr> \<and>
    (case (if str_set (cm_plan c)
           then plan_get (the (dw_plans w)) (the (cm_plan c)) (cm_tenant c) (cm_user c) else None) of
       None \<Rightarrow> dw_plans w' = dw_plans w
     | Some p0 \<Rightarrow> \<exists>ps ps'. dw_plans w = Some ps \<and> dw_plans w' = Some ps' \<and> plan_completed c p0 ps ps') \<and>
    (dget (dw_events w) (cm_event c) = None \<longrightarrow>
       (\<exists>e. recorded_event w' c = Some e \<and> ev_type e = Agent_Result_Event \<and> ev_status e = Some ''completed'' \<and>
          ev_run e = Some (cm_run c) \<and> ev_sequence e = Some (rn_sequence r1) \<and> ev_run_version e = Some (rn_version r1) \<and>
          ev_payload e = JObj [(''result_id'', JStr (cc_result c))])) \<and>
    (\<exists>e. dget (ox_events (dw_outbox w'))
        (the (dget (ox_keys (dw_outbox w')) (''turn.completed:'' @ cm_turn c))) = Some e \<and>
      ob_key e = ''turn.completed:'' @ cm_turn c) \<and>
    (\<forall>i. i \<noteq> cm_run c \<longrightarrow> get_run (dw_runs w') i = get_run (dw_runs w) i) \<and>
    (\<forall>i. i \<noteq> cm_turn c \<longrightarrow> dget (ts_turns (dw_turns w')) i = dget (ts_turns (dw_turns w)) i) \<and>
    (\<forall>i. i \<noteq> cm_event c \<longrightarrow> dget (dw_events w') i = dget (dw_events w) i)"
proof -
  from run_complete_outcome[OF assms(1), of fresh now c] assms(2)
  obtain r0 t0 p b where cb: "completion_bundle fresh c r0 t0 p = Inr b" and rp: "reads_plan w c p"
    and cm: "commits RunCompleted TurnCompleted fresh c w r0 t0 b"
    and nt: "\<not> turn_is_terminal (tn_status t0)"
    and out: "w' = committed now b w" "res = the (bd_result b)" "t = Some (bd_turn b)"
    by (auto split: if_splits)
  have fb: "bundle_for RunCompleted TurnCompleted r0 t0 (cm_event c) b"
    and r0: "get_run (dw_runs w) (cm_run c) = Some r0" "run_matches r0 c"
    and t0: "command_turn w c = Some t0"
    using cm by (simp_all add: commits_def bundle_made_def)
  have ids: "rn_id r0 = cm_run c" "rn_id (bd_run b) = cm_run c" "tn_id (bd_turn b) = cm_turn c" "tn_id t0 = cm_turn c"
    using fb stored_run_valid(2)[OF assms(1) r0(1)] command_turn_Some[OF t0]
      turn_store_okD(2)[OF drs_okD(2)[OF assms(1)]]
    by (auto simp: bundle_for_def ends_run_def ends_turn_def)
  note cont = completion_bundle_content[OF cb]
  obtain y where y: "sanitize_opt (cc_output c) = Some y"
    and run: "validated_run b = r0\<lparr>rn_status := RunCompleted, rn_version := rn_version r0 + 1,
            rn_sequence := rn_sequence r0 + 1, rn_terminal_event := Some (cm_event c),
            rn_heartbeat := Some (cm_at c), rn_updated := Some (cm_at c), rn_output := y\<rparr>"
    using completed_run[OF cb stored_run_valid(1)[OF assms(1) r0(1)] validated_run_same(1)[OF fb]] by blast
  have stored: "get_run (dw_runs w') (cm_run c) = Some (validated_run b)"
    "dget (ts_turns (dw_turns w')) (cm_turn c) = Some (bd_turn b)"
    "\<forall>i. i \<noteq> cm_run c \<longrightarrow> get_run (dw_runs w') i = get_run (dw_runs w) i"
    "\<forall>i. i \<noteq> cm_turn c \<longrightarrow> dget (ts_turns (dw_turns w')) i = dget (ts_turns (dw_turns w)) i"
    using ids out(1) by (simp_all add: committed_run committed_turn)
  have res: "re_results (dw_results w') = re_results (dw_results w) @ [res]"
    using cont(4) out by (auto simp: committed_results)
  have res_is: "res = \<lparr>rs_id = cc_result c, rs_run = cm_run c, rs_session = rn_session r0, rs_agent = rn_agent r0,
      rs_user = rn_user r0, rs_tenant = rn_tenant r0, rs_turn = rn_turn r0, rs_plan = rn_plan r0,
      rs_step = rn_step r0, rs_status = RunCompleted, rs_run_version = Some (rn_version r0 + 1),
      rs_message = cc_text c, rs_suppressed = False, rs_skip_audit = False, rs_output = y,
      rs_artifacts = cc_artifacts c, rs_error = None, rs_created = Some (cm_at c)\<rparr>"
    using completed_result[OF cb] y ids(1) out(2) by auto
  have "dw_plans w' = with_plan (bd_plan b) (dw_plans w)"
    by (simp add: out(1) committed_def half_committed_def)
  then have plan: "case (if str_set (cm_plan c)
           then plan_get (the (dw_plans w)) (the (cm_plan c)) (cm_tenant c) (cm_user c) else None) of
       None \<Rightarrow> dw_plans w' = dw_plans w
     | Some p0 \<Rightarrow> \<exists>ps ps'. dw_plans w = Some ps \<and> dw_plans w' = Some ps' \<and> plan_completed c p0 ps ps'"
    using completed_plan_of[OF cb rp] rp by (simp only: reads_plan_def)
  have ev: "\<exists>e. recorded_event w' c = Some e \<and> ev_type e = Agent_Result_Event \<and> ev_status e = Some ''completed'' \<and>
      ev_run e = Some (cm_run c) \<and> ev_sequence e = Some (rn_sequence (validated_run b)) \<and>
      ev_run_version e = Some (rn_version (validated_run b)) \<and>
      ev_payload e = JObj [(''result_id'', JStr (cc_result c))]"
    if new: "dget (dw_events w) (cm_event c) = None"
  proof -
    from cont(5) obtain v where v: "validate_event v = Inr (bd_event b)" "v = run_event r0 (cm_event c)
        Agent_Result_Event ''completed'' (JObj [(''result_id'', JStr (cc_result c))])
        (ended_run RunCompleted r0 c (cm_at c)) (cm_at c)" by blast
    have e: "bd_event b = v" using v by (simp add: validate_event_def run_event_def)
    have "recorded_event w' c = Some (v\<lparr>ev_created := Some now\<rparr>)"
      unfolding out(1) e[symmetric] by (rule recorded_after_commit[OF r0(2) v(1)[unfolded v(2)] new])
    then show ?thesis using ids(1) by (simp add: run v(2) run_event_def ended_run_def)
  qed
  have "ev_id (bd_event b) = cm_event c" using fb by (simp add: bundle_for_def)
  then have events: "\<forall>i. i \<noteq> cm_event c \<longrightarrow> dget (dw_events w') i = dget (dw_events w) i"
    by (auto simp: out(1) committed_def add_agent_event_def Let_def split: option.split)
  from committed_outbox[OF assms(1), of now b] cont(3) ids(4) out(1)
  have ob: "\<exists>e. dget (ox_events (dw_outbox w'))
        (the (dget (ox_keys (dw_outbox w')) (''turn.completed:'' @ cm_turn c))) = Some e \<and>
      ob_key e = ''turn.completed:'' @ cm_turn c" by simp
  show ?thesis
    by (rule exI[of _ r0], rule exI[of _ t0], rule exI[of _ "validated_run b"], rule exI[of _ "bd_turn b"],
        rule exI[of _ y], intro conjI impI)
      (rule r0 t0 nt y stored run res res_is out(3) cont(2) completed_turn_is[OF cb] plan ev ob events | assumption)+
qed

lemmas demo_eval = recorded_event_def get_event_def command_turn_def turn_get_def
  command_plan_def map_plan_def run_matches_def terminal_run_status_def turn_is_terminal_def
  validate_active_run_def validate_active_turn_def validate_event_def run_event_def
  ended_run_def ended_turn_def demo_run_def demo_turn0_def empty_refs_def sanitize_opt_def
  unit_sep_def and_then_def try_restore_def commit_bundle_def write_run_def write_result_def
  write_plan_def write_turn_def write_event_def write_outbox_def update_run_def add_run_def
  same_run_identity_def validate_run_def turn_update_if_version_def turn_validate_update_def
  add_result_def add_agent_event_def outbox_add_def new_outbox_def Let_def

lemma demo_complete_eq:
  "\<exists>r res t w'. run_complete ''o1'' 13 demo_complete (demo_world demo_turn0) =
     (Inr (r, res, t, False), w')"
  by (simp add: run_complete_def demo_complete_def demo_world_def get_run_def
      validate_final_run_def completion_bundle_def validate_result_def demo_eval empty_outbox_def
      empty_plan_store_def owner_request_key_def)

lemma drs_change_results:
  assumes "drs_change w w'"
  shows "\<exists>xs. re_results (dw_results w') = re_results (dw_results w) @ xs"
  using assms
  by cases (auto simp: claim_lost_def started_def progressed_to_def committed_def half_committed_def
      with_result_results)

lemma drs_steps_results:
  assumes "drs_steps w w'" "drs_ok w"
  shows "\<exists>xs. re_results (dw_results w') = re_results (dw_results w) @ xs"
  using assms
proof (induction rule: rtranclp_induct)
  case base
  then show ?case by simp
next
  case (step y z)
  then have "drs_ok y" by (blast intro: drs_steps_ok)
  from drs_change_results[OF drs_step_change[OF step(2) this]] step show ?case by fastforce
qed

lemma sanitize_result_payload: "sanitize (JObj [(''result_id'', JStr x)]) = Some (JObj [(''result_id'', JStr x)])"
  by simp

lemma find_fresh:
  "\<forall>y\<in>set xs. \<not> P y \<Longrightarrow> P x \<Longrightarrow> find P (xs @ x # ys) = Some x"
  by (induction xs) auto

text \<open>
  C26: completing is idempotent. After a new success, and after any further history, the very same
  command reports a duplicate with the run as completed then, the same result and the stored turn,
  and changes nothing; provided its event and result identifiers were new and its output is
  already free of knowledge bodies.
\<close>

theorem run_complete_idempotent:
  assumes "drs_ok w" "fresh_outbox fresh w"
    "run_complete fresh now c w = (Inr (r, res, t, False), w')" "drs_steps w' w2"
    "dget (dw_events w) (cm_event c) = None" "\<forall>x\<in>set (re_results (dw_results w)). rs_id x \<noteq> cc_result c"
    "sanitize_opt (cc_output c) = Some (cc_output c)"
  shows "\<exists>r1. get_run (dw_runs w') (cm_run c) = Some r1 \<and> rn_status r1 = RunCompleted \<and>
    run_complete fresh2 now2 c w2 = (Inr (Some r1, res, t, True), w2)"
proof -
  from run_complete_outcome[OF assms(1), of fresh now c] assms(3)
  obtain r0 t0 p b where cb: "completion_bundle fresh c r0 t0 p = Inr b"
    and cm: "commits RunCompleted TurnCompleted fresh c w r0 t0 b"
    and nt: "\<not> turn_is_terminal (tn_status t0)"
    and out: "w' = committed now b w" "res = the (bd_result b)" "t = Some (bd_turn b)"
    by (auto split: if_splits)
  have fb: "bundle_for RunCompleted TurnCompleted r0 t0 (cm_event c) b"
    and r0: "get_run (dw_runs w) (cm_run c) = Some r0" "run_matches r0 c"
    and t0: "command_turn w c = Some t0"
    using cm by (simp_all add: commits_def bundle_made_def)
  note st = stored_run_valid(2)[OF assms(1) r0(1)] and tt = command_turn_Some[OF t0]
  have ids: "rn_id (bd_run b) = cm_run c" "tn_id (bd_turn b) = cm_turn c"
    using fb st tt turn_store_okD(2)[OF drs_okD(2)[OF assms(1)]]
    by (auto simp: bundle_for_def ends_run_def ends_turn_def)
  note cont = completion_bundle_content[OF cb]
  have ok': "drs_ok w'"
    using drs_step_ok[OF drs_step.complete[OF assms(2,3)] assms(1)] .
  have run: "get_run (dw_runs w') (cm_run c) = Some (validated_run b)"
    and st1: "rn_status (validated_run b) = RunCompleted"
    using validated_run_same(2)[OF fb] ids out(1) by (simp_all add: committed_run ends_run_def)
  from drs_steps_evolve[OF assms(4) ok' run] st1
  have run2: "get_run (dw_runs w2) (cm_run c) = Some (validated_run b)"
    by (auto simp: run_evolves_def)
  have turn: "dget (ts_turns (dw_turns w')) (cm_turn c) = Some (bd_turn b)"
    "turn_is_terminal (tn_status (bd_turn b))"
    using ids out(1) fb by (simp_all add: committed_turn bundle_for_def ends_turn_def)
  from turn_store_steps_evolve[OF drs_steps_turns[OF assms(4) ok'] turn(1)] turn(2)
  have "dget (ts_turns (dw_turns w2)) (cm_turn c) = Some (bd_turn b)"
    by (auto dest: turn_evolves_terminal)
  moreover have "tn_tenant (bd_turn b) = cm_tenant c" "tn_user (bd_turn b) = cm_user c"
    using fb tt by (simp_all add: bundle_for_def ends_turn_def owner_request_key_def)
  ultimately have turn2: "command_turn w2 c = Some (bd_turn b)"
    by (simp add: command_turn_def turn_get_iff)
  obtain v where v: "validate_event v = Inr (bd_event b)" "v = run_event r0 (cm_event c)
      Agent_Result_Event ''completed'' (JObj [(''result_id'', JStr (cc_result c))])
      (ended_run RunCompleted r0 c (cm_at c)) (cm_at c)"
    using cont(5) by blast
  let ?e = "(bd_event b)\<lparr>ev_created := Some now\<rparr>"
  have ev: "recorded_event w' c = Some ?e"
    using recorded_after_commit[OF r0(2) _ assms(5)] v out(1) by simp
  then have "dget (dw_events w') (cm_event c) = Some ?e"
    by (simp add: recorded_event_def get_event_def split: option.splits if_splits)
  from drs_steps_events[OF assms(4) ok' this] ev have ev2: "recorded_event w2 c = Some ?e"
    by (simp add: recorded_event_def get_event_def split: option.splits if_splits)
  have "Inr (bd_event b) = (Inr v :: py_exn + agent_event)"
    using v(1) unfolding v(2) by (simp add: validate_event_def run_event_def)
  then have be: "bd_event b = run_event r0 (cm_event c) Agent_Result_Event ''completed''
      (JObj [(''result_id'', JStr (cc_result c))]) (ended_run RunCompleted r0 c (cm_at c)) (cm_at c)"
    using v(2) by simp
  have e: "validate_completion_event ?e c = Inr ()" "ev_payload ?e = JObj [(''result_id'', JStr (cc_result c))]"
    using r0 st unfolding be
    by (simp_all add: validate_completion_event_def validate_recorded_event_def event_matches_def
        run_event_def run_matches_def)
  obtain x where x: "bd_result b = Some x" "rs_id x = cc_result c" "rs_run x = rn_id r0"
    "rs_turn x = rn_turn r0" "rs_tenant x = rn_tenant r0" "rs_user x = rn_user r0"
    "rs_agent x = rn_agent r0" "rs_plan x = rn_plan r0" "rs_step x = rn_step r0"
    "rs_status x = RunCompleted" "rs_message x = cc_text c" "rs_artifacts x = cc_artifacts c"
    "sanitize_opt (cc_output c) = Some (rs_output x)"
    using cont(4) by blast
  obtain ys where ys: "re_results (dw_results w2) = re_results (dw_results w) @ x # ys"
    using drs_steps_results[OF assms(4) ok'] out(1) x(1) by (auto simp: committed_results)
  have fr: "find_result (dw_results w2) (payload_result (ev_payload ?e)) = Some x"
    unfolding find_result_def ys e(2) payload_result_def
    by (rule find_fresh) (use assms(6) x(2) in auto)
  have vr: "validate_completion_result x c = Inr ()"
    using x r0 st assms(7)
    by (simp add: validate_completion_result_def run_matches_def ensure_def json_list_eq_def)
  have "run_complete fresh2 now2 c w2 = (Inr (Some (validated_run b), x, Some (bd_turn b), True), w2)"
    using ev2 e(1) fr vr run2 turn2 by (simp add: run_complete_def)
  with run st1 out x(1) show ?thesis by simp
qed

lemma run_complete_idempotent_witness:
  "\<exists>r res t w' r1. run_complete ''o1'' 13 demo_complete (demo_world demo_turn0) =
       (Inr (r, res, t, False), w') \<and>
     run_complete ''o2'' 20 demo_complete w' = (Inr (Some r1, res, t, True), w')"
proof -
  obtain r res t w' where c: "run_complete ''o1'' 13 demo_complete (demo_world demo_turn0) =
      (Inr (r, res, t, False), w')" using demo_complete_eq by blast
  from run_complete_idempotent[OF demo_world_ok _ c rtranclp.rtrancl_refl, of "''o2''" 20] c
  show ?thesis
    by (auto simp: fresh_outbox_def demo_world_reads demo_complete_def demo_world_def sanitize_opt_def
        empty_outbox_def)
qed

text \<open>
  What a failure, cancellation or timeout leaves behind. \<open>rst\<close>, \<open>tst\<close> and \<open>pst\<close> are the final
  states of run, turn and plan.
\<close>

definition run_ended ::
    "run_status \<Rightarrow> turn_status \<Rightarrow> plan_status \<Rightarrow> 'a event_command_scheme \<Rightarrow> drs \<Rightarrow> drs \<Rightarrow> bool" where
  "run_ended rst tst pst c w w' \<longleftrightarrow>
     (\<exists>r0 t0 r1 t1. get_run (dw_runs w) (cm_run c) = Some r0 \<and> run_matches r0 c \<and>
        command_turn w c = Some t0 \<and> \<not> turn_is_terminal (tn_status t0) \<and>
        get_run (dw_runs w') (cm_run c) = Some r1 \<and> ends_run rst r0 (cm_event c) r1 \<and>
        dget (ts_turns (dw_turns w')) (cm_turn c) = Some t1 \<and> ends_turn tst t0 t1 \<and>
        turn_shape t1 = Inr t1) \<and>
     (dget (dw_events w) (cm_event c) = None \<longrightarrow> recorded_event w' c \<noteq> None) \<and>
     (str_set (cm_plan c) \<longrightarrow>
        (\<exists>ps p. dw_plans w' = Some ps \<and> dget (ps_plans ps) (the (cm_plan c)) = Some p \<and>
           pl_status p = pst \<and> pl_current p = None \<and> dget (ps_claims ps) (the (cm_plan c)) = None)) \<and>
     (\<forall>i. i \<noteq> cm_run c \<longrightarrow> get_run (dw_runs w') i = get_run (dw_runs w) i) \<and>
     (\<forall>i. i \<noteq> cm_turn c \<longrightarrow> dget (ts_turns (dw_turns w')) i = dget (ts_turns (dw_turns w)) i)"

lemma ended_plan_stored:
  assumes ok: "drs_ok w" and p: "command_plan m1 m2 w c = Inr p" and m: "map_plan f p = Inr q"
    and f: "\<And>x y. f x = Inr y \<Longrightarrow> projects_plan x y \<and> pl_status y = pst \<and> pl_current y = None"
    and pst: "pst \<noteq> Running" and set: "str_set (cm_plan c)"
  shows "\<exists>ps y. with_plan q (dw_plans w) = Some ps \<and> dget (ps_plans ps) (the (cm_plan c)) = Some y \<and>
    pl_status y = pst \<and> pl_current y = None \<and> dget (ps_claims ps) (the (cm_plan c)) = None"
proof -
  from p set obtain ps0 where ps0: "dw_plans w = Some ps0"
    by (cases "dw_plans w") (auto simp: command_plan_def)
  with p set obtain x where "plan_get ps0 (the (cm_plan c)) (cm_tenant c) (cm_user c) = Some x"
    by (cases "plan_get ps0 (the (cm_plan c)) (cm_tenant c) (cm_user c)")
      (auto simp: command_plan_def)
  with p set ps0 obtain ps where ps: "dw_plans w = Some ps" "p = Some x"
    "plan_get ps (the (cm_plan c)) (cm_tenant c) (cm_user c) = Some x"
    by (simp add: command_plan_def)
  with m obtain y where y: "q = Some y" "f x = Inr y"
    by (cases "f x") (auto simp: map_plan_def)
  from f[OF y(2)] have fy: "projects_plan x y" "pl_status y = pst" "pl_current y = None" by simp_all
  have "pl_id y = the (cm_plan c)"
    using fy(1) ps plan_store_okD(3)[OF drs_okD(5)[OF ok ps(1)]]
    by (simp add: projects_plan_def plan_get_iff)
  with ps y fy pst show ?thesis
    by (simp add: with_plan_def store_plan_record)
qed

lemma committed_run_ended:
  assumes ok: "drs_ok w" and cm: "commits rst tst fresh c w r0 t0 b"
    and nt: "\<not> turn_is_terminal (tn_status t0)" and sh: "turn_shape (bd_turn b) = Inr (bd_turn b)"
    and ev: "\<exists>ty st pl u at. validate_event (run_event r0 (cm_event c) ty st pl u at) = Inr (bd_event b)"
    and pl: "str_set (cm_plan c) \<Longrightarrow> \<exists>ps y. with_plan (bd_plan b) (dw_plans w) = Some ps \<and>
      dget (ps_plans ps) (the (cm_plan c)) = Some y \<and> pl_status y = pst \<and> pl_current y = None \<and>
      dget (ps_claims ps) (the (cm_plan c)) = None"
  shows "run_ended rst tst pst c w (committed now b w)"
proof -
  have fb: "bundle_for rst tst r0 t0 (cm_event c) b"
    and r0: "get_run (dw_runs w) (cm_run c) = Some r0" "run_matches r0 c"
    and t0: "command_turn w c = Some t0"
    using cm by (simp_all add: commits_def bundle_made_def)
  have ids: "rn_id (bd_run b) = cm_run c" "tn_id (bd_turn b) = cm_turn c"
    using fb stored_run_valid(2)[OF ok r0(1)] command_turn_Some[OF t0]
      turn_store_okD(2)[OF drs_okD(2)[OF ok]]
    by (auto simp: bundle_for_def ends_run_def ends_turn_def)
  have rec: "recorded_event (committed now b w) c \<noteq> None" if "dget (dw_events w) (cm_event c) = None"
    using ev recorded_after_commit[OF r0(2) _ that] by auto
  have pls: "dw_plans (committed now b w) = with_plan (bd_plan b) (dw_plans w)"
    by (simp add: committed_def half_committed_def)
  have "\<exists>r0 t0 r1 t1. get_run (dw_runs w) (cm_run c) = Some r0 \<and> run_matches r0 c \<and>
        command_turn w c = Some t0 \<and> \<not> turn_is_terminal (tn_status t0) \<and>
        get_run (dw_runs (committed now b w)) (cm_run c) = Some r1 \<and> ends_run rst r0 (cm_event c) r1 \<and>
        dget (ts_turns (dw_turns (committed now b w))) (cm_turn c) = Some t1 \<and> ends_turn tst t0 t1 \<and>
        turn_shape t1 = Inr t1"
    by (intro exI[of _ r0] exI[of _ t0] exI[of _ "validated_run b"] exI[of _ "bd_turn b"] conjI)
      (use r0 t0 nt ids sh fb validated_run_same(2)[OF fb] in
        \<open>simp_all add: committed_run committed_turn bundle_for_def\<close>)
  with rec pl ids pls show ?thesis
    by (simp add: run_ended_def committed_run committed_turn)
qed

lemma ended_plan_current [simp]: "pl_current (ended_plan a b p c at) = None"
  by (simp add: ended_plan_def)

lemma projected_current:
  "failed_plan x c at = Inr y \<Longrightarrow> pl_current y = None"
  "timed_out_plan x c' at = Inr y \<Longrightarrow> pl_current y = None"
  "cancelled_plan x c'' at = Inr y \<Longrightarrow> pl_current y = None"
  by (auto simp: failed_plan_def timed_out_plan_def cancelled_plan_def ebind_eq_Inr)

lemma failure_bundle_content:
  assumes "failure_bundle fresh c r t p = Inr b"
  shows "turn_shape (bd_turn b) = Inr (bd_turn b)"
    "\<exists>ty st pl u at. validate_event (run_event r (cm_event c) ty st pl u at) = Inr (bd_event b)"
proof -
  show "turn_shape (bd_turn b) = Inr (bd_turn b)"
    using assms by (auto simp: failure_bundle_def ebind_eq_Inr Let_def turn_shape_def ended_turn_def)
  obtain ty st pl u at where "validate_event (run_event r (cm_event c) ty st pl u at) = Inr (bd_event b)"
    using assms unfolding failure_bundle_def Let_def ebind_eq_Inr by auto
  then show "\<exists>ty st pl u at. validate_event (run_event r (cm_event c) ty st pl u at) = Inr (bd_event b)"
    by blast
qed

lemma cancel_bundle_content:
  assumes "cancel_bundle fresh c r t p = Inr b"
  shows "turn_shape (bd_turn b) = Inr (bd_turn b)"
    "\<exists>ty st pl u at. validate_event (run_event r (cm_event c) ty st pl u at) = Inr (bd_event b)"
proof -
  show "turn_shape (bd_turn b) = Inr (bd_turn b)"
    using assms by (auto simp: cancel_bundle_def ebind_eq_Inr Let_def turn_shape_def ended_turn_def)
  obtain ty st pl u at where "validate_event (run_event r (cm_event c) ty st pl u at) = Inr (bd_event b)"
    using assms unfolding cancel_bundle_def Let_def ebind_eq_Inr by auto
  then show "\<exists>ty st pl u at. validate_event (run_event r (cm_event c) ty st pl u at) = Inr (bd_event b)"
    by blast
qed

lemma timeout_bundle_content:
  assumes "timeout_bundle fresh c r t p = Inr b" "rn_id r = cm_run c"
  shows "turn_shape (bd_turn b) = Inr (bd_turn b)"
    "\<exists>ty st pl u at. validate_event (run_event r (cm_event c) ty st pl u at) = Inr (bd_event b)"
proof -
  have same: "r\<lparr>rn_id := cm_run c\<rparr> = r" using assms(2) by (cases r) simp
  show "turn_shape (bd_turn b) = Inr (bd_turn b)"
    using assms by (auto simp: timeout_bundle_def ebind_eq_Inr Let_def turn_shape_def ended_turn_def)
  obtain ty st pl u at where "validate_event (run_event r (cm_event c) ty st pl u at) = Inr (bd_event b)"
    using assms(1) unfolding timeout_bundle_def Let_def ebind_eq_Inr same by auto
  then show "\<exists>ty st pl u at. validate_event (run_event r (cm_event c) ty st pl u at) = Inr (bd_event b)"
    by blast
qed


text \<open>
  A failure, a cancellation or a timeout that reports a new success found the matching active
  run and a turn that was not terminal, and ends all three together: the run is failed, cancelled
  or timed out under the command's event with version and sequence one higher, the turn ends in
  the corresponding state and satisfies the turn schema (so its completion time is not before its
  creation), the event is recorded unless its identifier was taken, the plan of the command is
  failed or cancelled with no current step and without an execution claim, and no other run or
  turn changes. A timeout moreover only happens at or after the deadline of the run.
\<close>

theorem run_end_correct:
  assumes "drs_ok w"
  shows "(run_fail fresh now fc w = (Inr (r, t, False), w') \<longrightarrow>
       run_ended RunFailed TurnFailed Failed fc w w') \<and>
    (run_cancel fresh now xc w = (Inr (r', t, False), w') \<longrightarrow>
       run_ended RunCancelled TurnCancelled Cancelled xc w w') \<and>
    (run_timeout fresh now tc w = (Inr (r', False), w') \<longrightarrow>
       run_ended RunTimedOut TurnTimedOut Failed tc w w' \<and>
       (\<exists>r0 d. get_run (dw_runs w) (cm_run tc) = Some r0 \<and> rn_deadline r0 = Some d \<and> d \<le> cm_at tc))"
proof (intro conjI impI)
  assume "run_fail fresh now fc w = (Inr (r, t, False), w')"
  with run_fail_outcome[OF assms, of fresh now fc] obtain r0 t0 p b m1 m2 where
    b: "failure_bundle fresh fc r0 t0 p = Inr b" and p: "command_plan m1 m2 w fc = Inr p"
    and cm: "commits RunFailed TurnFailed fresh fc w r0 t0 b" "\<not> turn_is_terminal (tn_status t0)"
    and w': "w' = committed now b w" by auto
  show "run_ended RunFailed TurnFailed Failed fc w w'"
    unfolding w'
    by (rule committed_run_ended[OF assms cm failure_bundle_content[OF b]
          ended_plan_stored[OF assms p failure_bundle_sel(2)[OF b]]])
      (use projected(1) projected_current(1) in auto)
next
  assume "run_cancel fresh now xc w = (Inr (r', t, False), w')"
  with run_cancel_outcome[OF assms, of fresh now xc] obtain r0 t0 p b m1 m2 where
    b: "cancel_bundle fresh xc r0 t0 p = Inr b" and p: "command_plan m1 m2 w xc = Inr p"
    and cm: "commits RunCancelled TurnCancelled fresh xc w r0 t0 b" "\<not> turn_is_terminal (tn_status t0)"
    and w': "w' = committed now b w" by auto
  show "run_ended RunCancelled TurnCancelled Cancelled xc w w'"
    unfolding w'
    by (rule committed_run_ended[OF assms cm cancel_bundle_content[OF b]
          ended_plan_stored[OF assms p cancel_bundle_sel(2)[OF b]]])
      (use projected(3) projected_current(3) in auto)
next
  assume "run_timeout fresh now tc w = (Inr (r', False), w')"
  with run_timeout_outcome[OF assms, of fresh now tc] obtain r0 t0 p b m1 m2 d where
    b: "timeout_bundle fresh tc r0 t0 p = Inr b" and p: "command_plan m1 m2 w tc = Inr p"
    and cm: "commits RunTimedOut TurnTimedOut fresh tc w r0 t0 b" "\<not> turn_is_terminal (tn_status t0)"
    and d: "rn_deadline r0 = Some d" "d \<le> cm_at tc"
    and w': "w' = committed now b w" by auto
  have r0: "get_run (dw_runs w) (cm_run tc) = Some r0" using cm(1) by (simp add: commits_def)
  show "run_ended RunTimedOut TurnTimedOut Failed tc w w'"
    unfolding w'
    by (rule committed_run_ended[OF assms cm timeout_bundle_content[OF b stored_run_valid(2)[OF assms r0]]
          ended_plan_stored[OF assms p timeout_bundle_sel(2)[OF b]]])
      (use projected(2) projected_current(2) in auto)
  from r0 d show "\<exists>r0 d. get_run (dw_runs w) (cm_run tc) = Some r0 \<and> rn_deadline r0 = Some d \<and> d \<le> cm_at tc"
    by blast
qed

lemma run_end_correct_witness:
  "\<exists>r t w'. run_cancel ''o1'' 13 demo_cancel (demo_world demo_turn0) = (Inr (r, t, False), w') \<and>
     run_ended RunCancelled TurnCancelled Cancelled demo_cancel (demo_world demo_turn0) w'"
proof -
  obtain r t w' where c: "run_cancel ''o1'' 13 demo_cancel (demo_world demo_turn0) = (Inr (r, t, False), w')"
    by (simp add: run_cancel_def demo_cancel_def demo_world_def get_run_def validate_cancel_run_def
        validate_cancel_turn_def cancel_bundle_def demo_eval empty_outbox_def empty_plan_store_def
        owner_request_key_def)
  from run_end_correct[OF demo_world_ok] c show ?thesis by blast
qed

text \<open>
  Starting a delegated run is idempotent per delegation key. A new start stores a pending run
  of version one for a turn of the caller that was not terminal, and appends it to that turn's
  runs; from then on, whatever happens, starting again under the same key changes nothing, reports
  a duplicate and returns that same run as it is by then.
\<close>

theorem run_start_idempotent:
  assumes "drs_ok w" "i \<noteq> []" "get_run (dw_runs w) i = None"
    "run_start now c i key w = (Inr (r, t, False), w')" "drs_steps w' w2"
  shows "(\<exists>t0 t1. command_turn w' (\<lparr>cm_event = [], cm_run = i, cm_turn = sc_turn c,
        cm_tenant = sc_tenant c, cm_user = sc_user c, cm_agent = sc_agent c, cm_plan = None,
        cm_step = None, cm_version = 1, cm_at = now\<rparr>) = Some t1 \<and> t = Some t1 \<and>
      dget (ts_turns (dw_turns w)) (sc_turn c) = Some t0 \<and> \<not> turn_is_terminal (tn_status t0) \<and>
      tr_runs (tn_refs t1) = tr_runs (tn_refs t0) @ [i]) \<and>
    (\<exists>r0 r2. r = Some r0 \<and> rn_id r0 = i \<and> rn_status r0 = RunPending \<and> rn_version r0 = 1 \<and>
      get_run (dw_runs w') i = Some r0 \<and> get_run (dw_runs w2) i = Some r2 \<and> run_evolves r0 r2 \<and>
      run_start now2 c2 i2 key w2 =
        (Inr (Some r2, turn_get (dw_turns w2) (sc_turn c2) (sc_tenant c2) (sc_user c2), True), w2))"
proof -
  from run_start_outcome[OF assms(1), of now c i key] assms(4) obtain r0 t0 u where
    st: "starts c i key now w r0 t0 u" and out: "r = Some r0" "t = Some u" "w' = started r0 u key w"
    by auto
  from st have nr: "new_run c i key now = Inr r0" and at: "attaches t0 r0 u"
    and t0: "turn_get (dw_turns w) (sc_turn c) (sc_tenant c) (sc_user c) = Some t0"
      "\<not> turn_is_terminal (tn_status t0)"
    using attach_run_Inr by (auto simp: starts_def)
  note r0 = new_run_Inr[OF nr]
  have ids: "tn_id u = sc_turn c" "tn_tenant u = sc_tenant c" "tn_user u = sc_user c"
    using at t0(1) turn_store_okD(2)[OF drs_okD(2)[OF assms(1)]]
    by (auto simp: attaches_def owner_request_key_def turn_get_iff)
  have ok': "drs_ok w'" using drs_step_ok[OF drs_step.start[OF assms(2-4)] assms(1)] .
  have run: "get_run (dw_runs w') i = Some r0" and key: "dget (dw_keys w') key = Some i"
    using r0(2) out(3) by (simp_all add: started_def get_run_def)
  from drs_steps_evolve[OF assms(5) ok' run] obtain r2 where
    r2: "get_run (dw_runs w2) i = Some r2" "run_evolves r0 r2" by blast
  have "dget (dw_keys w2) key = Some i" using drs_steps_keys[OF assms(5) ok' key] .
  then have "run_start now2 c2 i2 key w2 =
        (Inr (Some r2, turn_get (dw_turns w2) (sc_turn c2) (sc_tenant c2) (sc_user c2), True), w2)"
    using assms(2) r2(1) by (simp add: run_start_def)
  moreover have "command_turn w' (\<lparr>cm_event = [], cm_run = i, cm_turn = sc_turn c,
        cm_tenant = sc_tenant c, cm_user = sc_user c, cm_agent = sc_agent c, cm_plan = None,
        cm_step = None, cm_version = 1, cm_at = now\<rparr>) = Some u"
    using ids out(3) by (simp add: command_turn_def turn_get_iff started_def)
  ultimately show ?thesis
    using out(1,2) r0(2,3,8) run r2 t0 at unfolding attaches_def by (auto simp: turn_get_iff)
qed

definition demo_start :: start_command where
  "demo_start = \<lparr>sc_tenant = ''a'', sc_user = ''u'', sc_session = ''s'', sc_request = ''r1'',
     sc_turn = ''t1'', sc_agent = ''ag2'', sc_plan = None, sc_step = None, sc_deadline = 50,
     sc_input = JObj [], sc_metadata = JObj []\<rparr>"

lemma run_start_idempotent_witness:
  "\<exists>r t w'. run_start 3 demo_start ''run2'' ''key2'' (demo_world demo_turn0) = (Inr (r, t, False), w') \<and>
     (\<exists>r2. run_start 4 demo_start ''run3'' ''key2'' w' =
        (Inr (Some r2, turn_get (dw_turns w') ''t1'' ''a'' ''u'', True), w'))"
proof -
  obtain r t w' where c: "run_start 3 demo_start ''run2'' ''key2'' (demo_world demo_turn0) =
      (Inr (r, t, False), w')"
    by (simp add: run_start_def demo_start_def demo_world_def validate_memory_plan_step_def
        turn_get_def validate_start_turn_def new_run_def attach_run_def insert_run_def demo_eval
        owner_request_key_def)
  from run_start_idempotent[OF demo_world_ok _ _ c rtranclp.rtrancl_refl, of 4 demo_start "''run3''"] c
  show ?thesis by (auto simp: demo_world_def demo_start_def get_run_def)
qed

text \<open>
  The delegation key identifies the request exactly when the parts of the identity do not
  contain the separator: with a collision-free digest two such commands share a key if and only if
  they agree on tenant, user, request, turn, agent, plan and step. Without that restriction, which
  the schema does not impose, two valid commands of different tenants share a key for every digest.
\<close>

theorem delegation_key_identity:
  assumes "inj hash" "\<forall>s\<in>set (delegation_identity c) \<union> set (delegation_identity c'). unit_sep \<notin> set s"
  shows "(delegation_key hash c = delegation_key hash c' \<longleftrightarrow>
      delegation_identity c = delegation_identity c') \<and>
    (\<exists>d d'. start_command_ok d \<and> start_command_ok d' \<and> sc_tenant d \<noteq> sc_tenant d' \<and>
       (\<forall>h. delegation_key h d = delegation_key h d'))"
proof
  have len: "length (delegation_identity c) = length (delegation_identity c')"
    unfolding delegation_identity_def by (simp only: list.size)
  have a: "\<forall>s\<in>set (delegation_identity c). unit_sep \<notin> set s"
    and b: "\<forall>s\<in>set (delegation_identity c'). unit_sep \<notin> set s"
    using assms(2) by (blast, blast)
  have "join_us (delegation_identity c) = join_us (delegation_identity c') \<longleftrightarrow>
      delegation_identity c = delegation_identity c'"
    by (rule iffI, erule join_us_inject[OF len a b], erule arg_cong)
  with assms(1) show "delegation_key hash c = delegation_key hash c' \<longleftrightarrow>
      delegation_identity c = delegation_identity c'"
    unfolding delegation_key_def by (simp only: append_same_eq same_append_eq inj_eq)
  let ?d = "demo_start\<lparr>sc_tenant := ''a'' @ [unit_sep] @ ''b'', sc_user := ''c''\<rparr>"
  let ?d' = "demo_start\<lparr>sc_tenant := ''a'', sc_user := ''b'' @ [unit_sep] @ ''c''\<rparr>"
  have "start_command_ok ?d \<and> start_command_ok ?d' \<and> sc_tenant ?d \<noteq> sc_tenant ?d' \<and>
      (\<forall>h. delegation_key h ?d = delegation_key h ?d')"
    by (simp add: start_command_ok_def id_ok_def opt_id_ok_def demo_start_def delegation_key_def
        delegation_identity_def)
  then show "\<exists>d d'. start_command_ok d \<and> start_command_ok d' \<and> sc_tenant d \<noteq> sc_tenant d' \<and>
       (\<forall>h. delegation_key h d = delegation_key h d')" by blast
qed

lemma delegation_key_identity_witness:
  "delegation_key (\<lambda>s. s) demo_start \<noteq> delegation_key (\<lambda>s. s) (demo_start\<lparr>sc_agent := ''ag3''\<rparr>)"
  using delegation_key_identity[of "\<lambda>s. s" demo_start "demo_start\<lparr>sc_agent := ''ag3''\<rparr>"]
  by (simp add: demo_start_def delegation_identity_def unit_sep_def inj_def)

subsection \<open>Overdue runs and the sweep\<close>

definition overdue_run :: "time \<Rightarrow> ident option \<Rightarrow> drs \<Rightarrow> agent_run \<Rightarrow> bool" where
  "overdue_run now tenant w r \<longleftrightarrow>
     get_run (dw_runs w) (rn_id r) = Some r \<and> rn_delegated r \<and> active_run_status (rn_status r) \<and>
     (\<exists>d. rn_deadline r = Some d \<and> d \<le> now) \<and> (tenant = None \<or> rn_tenant r = tenant)"

definition deadline_key :: "agent_run \<Rightarrow> time \<times> ident" where
  "deadline_key r = (the (rn_deadline r), rn_id r)"

lemma list_overdue_take:
  assumes "drs_ok w"
  obtains rs where "list_overdue now tenant limit w = take limit rs"
    "sorted (map deadline_key rs)" "set rs = {r. overdue_run now tenant w r}"
proof
  let ?rs = "sort_key deadline_key (filter (\<lambda>r. rn_delegated r \<and> active_run_status (rn_status r) \<and>
                    (case rn_deadline r of None \<Rightarrow> False | Some d \<Rightarrow> d \<le> now) \<and>
                    (tenant = None \<or> rn_tenant r = tenant))
          (dvalues (rr_runs (dw_runs w))))"
  show "list_overdue now tenant limit w = take limit ?rs"
    unfolding list_overdue_def deadline_key_def[abs_def] by (rule refl)
  show "sorted (map deadline_key ?rs)" by simp
  have "r \<in> set (dvalues (rr_runs (dw_runs w))) \<longleftrightarrow> get_run (dw_runs w) (rn_id r) = Some r" for r
    using runs_okD(1,2)[OF drs_okD(1)[OF assms]] in_values_dget dget_in_values
    unfolding get_run_def by metis
  then show "set ?rs = {r. overdue_run now tenant w r}"
    by (auto simp: overdue_run_def split: option.splits)
qed

lemma sorted_take_drop:
  assumes "sorted (map f xs)" "x \<in> set (take n xs)" "y \<in> set xs" "y \<notin> set (take n xs)"
  shows "f x \<le> f y"
proof -
  have "y \<in> set (drop n xs)" using assms(3,4) by (metis Un_iff append_take_drop_id set_append)
  moreover have "sorted (map f (take n xs) @ map f (drop n xs))"
    using assms(1) by (simp flip: map_append)
  ultimately show ?thesis using assms(2) by (auto simp: sorted_append)
qed

text \<open>
  The overdue listing is sound, ordered and fair: it returns only stored active delegated runs
  of the tenant whose deadline has passed, in the order of deadline and run identifier, at most as
  many as the limit; and it leaves a qualifying run out only when it returns as many runs as the
  limit allows, every one of them due no later.
\<close>

theorem list_overdue_correct:
  assumes "drs_ok w"
  shows "sorted (map deadline_key (list_overdue now tenant limit w)) \<and>
    length (list_overdue now tenant limit w) \<le> limit \<and>
    set (list_overdue now tenant limit w) \<subseteq> {r. overdue_run now tenant w r} \<and>
    (\<forall>r. overdue_run now tenant w r \<and> r \<notin> set (list_overdue now tenant limit w) \<longrightarrow>
       length (list_overdue now tenant limit w) = limit \<and>
       (\<forall>x\<in>set (list_overdue now tenant limit w). deadline_key x \<le> deadline_key r))"
proof -
  obtain rs where rs: "list_overdue now tenant limit w = take limit rs"
    "sorted (map deadline_key rs)" "set rs = {r. overdue_run now tenant w r}"
    using list_overdue_take[OF assms] .
  have "sorted (map deadline_key (take limit rs))"
    using sorted_wrt_take[OF rs(2), of limit] by (simp add: take_map)
  moreover have "set (take limit rs) \<subseteq> {r. overdue_run now tenant w r}"
    unfolding rs(3)[symmetric] by (rule set_take_subset)
  moreover have "length (take limit rs) = limit \<and>
      (\<forall>x\<in>set (take limit rs). deadline_key x \<le> deadline_key r)"
    if "overdue_run now tenant w r" "r \<notin> set (take limit rs)" for r
  proof
    from that rs(3) have r: "r \<in> set rs" by simp
    have "\<not> length rs \<le> limit" using that(2) r by (metis take_all)
    then show "length (take limit rs) = limit" by simp
    show "\<forall>x\<in>set (take limit rs). deadline_key x \<le> deadline_key r"
      using sorted_take_drop[OF rs(2) _ r that(2)] by blast
  qed
  ultimately show ?thesis unfolding rs(1) by (intro conjI allI impI) (simp | blast)+
qed

lemma list_overdue_correct_witness:
  "overdue_run 11 None (demo_world demo_turn0) demo_run \<and>
   demo_run \<in> set (list_overdue 11 None 5 (demo_world demo_turn0)) \<and>
   sorted (map deadline_key (list_overdue 11 None 5 (demo_world demo_turn0)))"
proof -
  have o: "overdue_run 11 None (demo_world demo_turn0) demo_run"
    by (simp add: overdue_run_def demo_world_reads demo_run_def get_run_def demo_world_def active_run_status_def)
  have "length (list_overdue 11 None 5 (demo_world demo_turn0)) \<noteq> 5"
    by (simp add: list_overdue_def demo_world_def)
  with o list_overdue_correct[OF demo_world_ok[of demo_turn0], of 11 None 5] show ?thesis by blast
qed


lemma timeout_over_terminal_turn:
  assumes ok: "drs_ok w" and none: "recorded_event w c = None"
    and r: "validate_timeout_run (get_run (dw_runs w) (cm_run c)) c = Inr r"
    and t: "command_turn w c = Some t" "turn_is_terminal (tn_status t)"
    and p: "\<not> str_set (cm_plan c)"
  shows "run_timeout fresh now c w =
      (case timeout_bundle fresh c r t None of
         Inl e \<Rightarrow> Inl e
       | Inr _ \<Rightarrow> Inl (Turn_Terminal_State ''terminal turn cannot be updated''), w)"
proof (cases "timeout_bundle fresh c r t None")
  case (Inl e)
  with none r t(1) p show ?thesis by (simp add: run_timeout_def command_plan_def)
next
  case (Inr b)
  from r have g: "get_run (dw_runs w) (cm_run c) = Some r" "run_matches r c"
    by (simp_all add: validate_timeout_run_Inr)
  have np: "bd_plan b = None" using timeout_bundle_sel(2)[OF Inr] by (simp add: map_plan_def)
  have cm: "commits RunTimedOut TurnTimedOut fresh c w r t b"
    using none g t(1) timeout_bundle_made[OF Inr stored_run_valid(1)[OF ok g(1)]] np
    by (simp add: commits_def plan_writable_def)
  then have fb: "bundle_for RunTimedOut TurnTimedOut r t (cm_event c) b"
    by (simp add: commits_def bundle_made_def)
  have half: "restore_logs w (restore_turn t (restore_run r (half_committed b w))) = w"
    using restored_half_noresult[OF ok fb _ _ timeout_bundle_sel(1)[OF Inr], of "cm_run c" "cm_turn c"]
      g(1) command_turn_Some[OF t(1)] np by (simp add: get_run_def with_plan_def)
  have "restore_keys w w = w" by (rule restore_keys_same) simp
  with commits_eq[OF ok cm] t none r p Inr half show ?thesis
    by (simp add: run_timeout_def command_plan_def and_then_def try_restore_def restore_plan_def)
qed

text \<open>
  A sweep of the timeout runtime does not get past a run whose turn is already terminal. If
  the first overdue run belongs to no plan, its turn is terminal and its timeout event is not yet
  recorded, then \<open>run_once\<close> raises and changes nothing: neither this run nor any run with a later
  deadline times out, and every later sweep starts with the same run again.
\<close>

theorem sweep_starved:
  assumes "drs_ok w" "list_overdue now None batch w = r # rs"
    "rn_turn r = Some i" "rn_tenant r = Some a" "rn_user r = Some u" "rn_plan r = None"
    "turn_get (dw_turns w) i a u = Some t" "turn_is_terminal (tn_status t)"
    "\<forall>e d. dget (dw_events w) (maintenance_prefix @ take 32 (hash (join_us [rn_id r, isofmt d]))) \<noteq> Some e"
  shows "\<exists>e. run_once hash isofmt fresh now clock batch w = (Inl e, w)"
proof (cases "service_overdue now None batch w")
  case (Inl e)
  then show ?thesis by (simp add: run_once_def)
next
  case (Inr xs)
  have "r \<in> set (list_overdue now None batch w)" using assms(2) by simp
  with list_overdue_take[OF assms(1), of now None batch] have "overdue_run now None w r"
    by (metis in_set_takeD mem_Collect_eq)
  then obtain d where o: "get_run (dw_runs w) (rn_id r) = Some r" "rn_delegated r"
    "active_run_status (rn_status r)" "rn_deadline r = Some d" "d \<le> now"
    by (auto simp: overdue_run_def)
  from Inr assms(2) obtain x ys where xs: "xs = x # ys" "run_reference_of (Some r) = Inr x"
    by (auto simp: service_overdue_def ebind_eq_Inr)
  then have x: "dr_run x = rn_id r" "dr_turn x = i" "dr_tenant x = a" "dr_user x = u"
    "dr_agent x = rn_agent r" "dr_plan x = None" "dr_step x = rn_step r" "dr_version x = rn_version r"
    "dr_deadline x = d"
    using assms(3-6) o(4) by (auto simp: run_reference_of_def split: option.splits)
  define c where "c = timeout_command_for hash isofmt now x"
  have c: "cm_run c = rn_id r" "cm_turn c = i" "cm_tenant c = a" "cm_user c = u" "cm_agent c = rn_agent r"
    "cm_plan c = None" "cm_step c = rn_step r" "cm_version c = rn_version r" "cm_at c = now"
    "cm_event c = maintenance_prefix @ take 32 (hash (join_us [rn_id r, isofmt d]))"
    using x by (simp_all add: c_def timeout_command_for_def timeout_event_id_def)
  have "\<not> terminal_run_status (rn_status r)"
    using o(3) by (auto simp: active_run_status_def terminal_run_status_def)
  then have m: "run_matches r c"
    using c(1-8) o(2) assms(3-6) by (simp add: run_matches_def)
  have "recorded_event w c = None"
    using assms(9) c(10) by (auto simp: recorded_event_def get_event_def split: option.splits)
  from timeout_over_terminal_turn[OF assms(1) this, of r t "fresh 0" clock] m o c assms(7,8)
  have t: "run_timeout (fresh 0) clock c w =
      (case timeout_bundle (fresh 0) c r t None of
         Inl e \<Rightarrow> Inl e
       | Inr _ \<Rightarrow> Inl (Turn_Terminal_State ''terminal turn cannot be updated''), w)"
    by (simp add: validate_timeout_run_Inr command_turn_def)
  have "\<exists>e. run_timeout (fresh 0) clock c w = (Inl e, w) \<and> (\<forall>m. e \<noteq> Start_Conflict m)"
  proof (cases "timeout_bundle (fresh 0) c r t None")
    case (Inl e)
    then have "\<forall>m. e \<noteq> Start_Conflict m"
      by (auto simp: timeout_bundle_def Let_def map_plan_def ebind_def validate_event_def
          split: sum.splits option.splits)
    with t Inl show ?thesis by simp
  next
    case Inr
    with t show ?thesis by simp
  qed
  then obtain e where e: "run_timeout (fresh 0) clock c w = (Inl e, w)" "\<forall>m. e \<noteq> Start_Conflict m"
    by blast
  then show ?thesis
    using Inr xs(1) by (cases e) (auto simp: run_once_def c_def[symmetric] Let_def service_timeout_def and_then_def)
qed

lemma sweep_starved_witness:
  "\<exists>e. run_once id (\<lambda>_. ''z'') (\<lambda>_. ''o'') 11 11 10 (demo_world (demo_turn0\<lparr>tn_status := TurnCompleted\<rparr>)) =
     (Inl e, demo_world (demo_turn0\<lparr>tn_status := TurnCompleted\<rparr>))"
proof -
  let ?t = "demo_turn0\<lparr>tn_status := TurnCompleted\<rparr>"
  have l: "list_overdue 11 None 10 (demo_world ?t) = [demo_run]"
    by (simp add: list_overdue_def demo_world_def demo_run_def active_run_status_def)
  show ?thesis
    by (rule sweep_starved[OF demo_world_ok l, where i = "''t1''" and a = "''a''" and u = "''u''" and t = ?t])
      (simp_all add: demo_run_def demo_world_reads turn_get_iff demo_world_def demo_turn0_def turn_is_terminal_def)
qed


text \<open>
  A completion does not test whether its turn is terminal before it writes. When it raises and
  yet leaves a changed state, the turn was terminal and the one thing changed is the plan: its step
  is recorded as completed and the plan moved on, while the run is still active, without a result,
  an event or an outbox entry.
\<close>

theorem complete_over_terminal_turn:
  assumes "drs_ok w" "run_complete fresh now c w = (Inl e, w')" "w' \<noteq> w"
  shows "\<exists>t r ps p p'. e = Turn_Terminal_State ''terminal turn cannot be updated'' \<and>
    command_turn w c = Some t \<and> turn_is_terminal (tn_status t) \<and>
    get_run (dw_runs w') (cm_run c) = Some r \<and> \<not> terminal_run_status (rn_status r) \<and>
    dw_plans w = Some ps \<and> plan_get ps (the (cm_plan c)) (cm_tenant c) (cm_user c) = Some p \<and>
    complete_plan_step p c = Inr p' \<and> w' = w\<lparr>dw_plans := Some (store_plan p' False ps)\<rparr>"
proof -
  from run_complete_outcome[OF assms(1), of fresh now c] assms(2,3)
  obtain r t p b where b: "completion_bundle fresh c r t p = Inr b" "reads_plan w c p"
    and cm: "commits RunCompleted TurnCompleted fresh c w r t b" and t: "turn_is_terminal (tn_status t)"
    and e: "e = Turn_Terminal_State ''terminal turn cannot be updated''"
    and w': "w' = w\<lparr>dw_plans := with_plan (bd_plan b) (dw_plans w)\<rparr>"
    by (auto split: if_splits)
  have "bd_plan b \<noteq> None"
  proof
    assume "bd_plan b = None"
    then have "with_plan (bd_plan b) (dw_plans w) = dw_plans w" by (simp add: with_plan_def)
    with w' assms(3) show False by simp
  qed
  then obtain x p' where p: "p = Some x" "complete_plan_step x c = Inr p'" "bd_plan b = Some p'"
    using completion_bundle_sel[OF b(1)] by (cases p) (auto simp: map_plan_def ebind_eq_Inr)
  from b(2) p(1) obtain ps where ps: "dw_plans w = Some ps"
    "plan_get ps (the (cm_plan c)) (cm_tenant c) (cm_user c) = Some x" by (auto dest: reads_plan_Some)
  from cm have r: "command_turn w c = Some t" "get_run (dw_runs w) (cm_run c) = Some r"
    "\<not> terminal_run_status (rn_status r)" by (simp_all add: commits_def run_matches_def)
  have "w' = w\<lparr>dw_plans := Some (store_plan p' False ps)\<rparr>"
    using w' p(3) ps(1) by (simp add: with_plan_def)
  then show ?thesis using e t p r ps by (intro exI conjI) simp_all
qed

definition demo_plan :: plan where
  "demo_plan = \<lparr>pl_id = ''p1'', pl_user = ''u'', pl_tenant = ''a'', pl_session = Some ''s'',
     pl_status = Running, pl_current = Some ''s1'', pl_policy = None, pl_next_action = None,
     pl_last_event = None, pl_version = 1, pl_updated = 0, pl_formation = ''update'',
     pl_steps = [\<lparr>st_id = ''s1'', st_agent = ''ag'', st_description = [], st_status = Running,
                  st_depends_on = [], st_artifacts = []\<rparr>]\<rparr>"

definition demo_plan_run :: agent_run where
  "demo_plan_run = demo_run\<lparr>rn_plan := Some ''p1'', rn_step := Some ''s1''\<rparr>"

definition demo_plan_world :: "turn \<Rightarrow> drs" where
  "demo_plan_world t = (demo_world t)\<lparr>dw_runs := \<lparr>rr_runs = [(''run1'', demo_plan_run)], rr_published = []\<rparr>,
     dw_plans := Some (empty_plan_store\<lparr>ps_plans := [(''p1'', demo_plan)]\<rparr>)\<rparr>"

definition demo_plan_complete :: complete_command where
  "demo_plan_complete = demo_complete\<lparr>cm_plan := Some ''p1'', cm_step := Some ''s1''\<rparr>"

lemma demo_plan_world_ok: "drs_ok (demo_plan_world t)"
proof -
  have "validate_run demo_plan_run = Inr demo_plan_run"
    by (simp add: validate_run_def demo_plan_run_def demo_run_def sanitize_opt_def)
  moreover have "steps_wf (pl_steps demo_plan)"
  proof -
    have "dep_rel (plan_graph (pl_steps demo_plan)) = {}"
      by (auto simp: demo_plan_def plan_graph_def dep_rel_def split: if_splits)
    then show ?thesis
      by (simp add: steps_wf_def acyclic_def)
        (simp add: demo_plan_def plan_graph_def step_ids_def graph_closed_def)
  qed
  ultimately show ?thesis
    by (simp add: drs_ok_def demo_plan_world_def demo_world_def runs_ok_def events_ok_def
        turn_store_ok_def turn_indexed_def outbox_ok_def empty_outbox_def plan_store_ok_def
        demo_plan_run_def empty_plan_store_def demo_run_def demo_plan_def)
qed

lemma complete_over_terminal_turn_witness:
  "\<exists>e w' r. run_complete ''o1'' 12 demo_plan_complete
      (demo_plan_world (demo_turn0\<lparr>tn_status := TurnFailed\<rparr>)) = (Inl e, w') \<and>
     dw_plans w' \<noteq> dw_plans (demo_plan_world (demo_turn0\<lparr>tn_status := TurnFailed\<rparr>)) \<and>
     get_run (dw_runs w') ''run1'' = Some r \<and> \<not> terminal_run_status (rn_status r)"
proof -
  let ?w = "demo_plan_world (demo_turn0\<lparr>tn_status := TurnFailed\<rparr>)"
  have "\<exists>e w'. run_complete ''o1'' 12 demo_plan_complete ?w = (Inl e, w') \<and> dw_plans w' \<noteq> dw_plans ?w"
    by (simp add: run_complete_def demo_complete_def demo_plan_complete_def demo_world_def
        demo_plan_world_def demo_plan_run_def get_run_def
        validate_final_run_def completion_bundle_def validate_result_def demo_eval empty_outbox_def
        empty_plan_store_def owner_request_key_def demo_plan_def plan_get_def complete_plan_step_def
        require_step_def mark_step_def plan_state_after_completion_def step_of_agent_def plan_save_def
        store_plan_def suppress_formation_def half_committed_def restore_logs_def restore_results_def
        restore_turn_def restore_run_def)
  then obtain e w' where e: "run_complete ''o1'' 12 demo_plan_complete ?w = (Inl e, w')"
    "dw_plans w' \<noteq> dw_plans ?w" by blast
  then have "w' \<noteq> ?w" by auto
  from complete_over_terminal_turn[OF demo_plan_world_ok e(1) this] e show ?thesis
    by (auto simp: demo_plan_complete_def demo_complete_def)
qed

text \<open>A completion with an output and a plan: the plan of one step is completed with it.\<close>

definition demo_plan_answer :: complete_command where
  "demo_plan_answer = demo_plan_complete\<lparr>cc_output := Some (JObj [(''answer'', JStr ''yes'')])\<rparr>"

lemma demo_plan_answer_eq:
  "case run_complete ''o1'' 13 demo_plan_answer (demo_plan_world demo_turn0) of
     (Inr (r, res, t, replay), w') \<Rightarrow> \<not> replay | _ \<Rightarrow> False"
  by code_simp

lemma run_complete_correct_witness:
  "\<exists>r res t w' r1. run_complete ''o1'' 13 demo_plan_answer (demo_plan_world demo_turn0) = (Inr (r, res, t, False), w') \<and>
     get_run (dw_runs w') ''run1'' = Some r1 \<and> rn_status r1 = RunCompleted \<and>
     rn_output r1 = Some (JObj [(''answer'', JStr ''yes'')]) \<and> rs_id res = ''res1'' \<and>
     (\<exists>ps ps'. dw_plans w' = Some ps' \<and> plan_completed demo_plan_answer demo_plan ps ps')"
proof -
  obtain r res t w' where c: "run_complete ''o1'' 13 demo_plan_answer (demo_plan_world demo_turn0) =
      (Inr (r, res, t, False), w')"
    using demo_plan_answer_eq by (auto split: prod.splits sum.splits)
  have plan: "(if str_set (cm_plan demo_plan_answer)
      then plan_get (the (dw_plans (demo_plan_world demo_turn0))) (the (cm_plan demo_plan_answer))
        (cm_tenant demo_plan_answer) (cm_user demo_plan_answer) else None) = Some demo_plan"
    "sanitize_opt (cc_output demo_plan_answer) = Some (Some (JObj [(''answer'', JStr ''yes'')]))"
    "cm_run demo_plan_answer = ''run1''" "cc_result demo_plan_answer = ''res1''"
    by code_simp+
  from run_complete_correct[OF demo_plan_world_ok c] plan
  obtain r1 ps ps' where "get_run (dw_runs w') ''run1'' = Some r1" "rn_status r1 = RunCompleted"
    "rn_output r1 = Some (JObj [(''answer'', JStr ''yes'')])" "rs_id res = ''res1''"
    "dw_plans w' = Some ps'" "plan_completed demo_plan_answer demo_plan ps ps'"
    by auto
  with c show ?thesis by blast
qed

end
