(* ===== verification/Agent_Events.thy ===== *)
theory Agent_Events
  imports Ticket_Service Delegated_Properties Plan_Service "HOL-Library.Sublist"
begin

text \<open>
  Events reported by agents (\<open>app/services/agent_event_service.py\<close>, \<open>app/services/event_service.py\<close>).
  \<open>record_native_event\<close> is \<open>NativeAgentEventService.record\<close>: an external agent proves with its ticket
  which run it may report about; the event becomes a command of the delegated-run service and the
  ticket is released or consumed. \<open>record_trusted_event\<close> is the path for events from inside the
  process, which reach the event repository and the plan.
\<close>

subsection \<open>Rejections\<close>

datatype rejection_category = Unauthorized | Event_Conflict | Invalid_Event | Event_Not_Found

text \<open>\<open>AgentEventRejected\<close>, or an exception that nobody translates.\<close>

datatype event_error = Rejected rejection_category string | Escaped py_exn

record event_response =
  er_event :: ident
  er_duplicate :: bool
  er_text :: string

subsection \<open>Checking an event against the ticket\<close>

definition event_purpose :: string where
  "event_purpose = ''agent_event''"

definition agrees :: "string option \<Rightarrow> string option \<Rightarrow> bool" where
  "agrees supplied claimed \<longleftrightarrow> supplied = None \<or> supplied = claimed"

definition or_option :: "string option \<Rightarrow> string option \<Rightarrow> string option" where
  "or_option x y = (if str_set x then x else y)"

text \<open>\<open>_validate_ticket_correlation\<close>: both tests raise the same rejection.\<close>

definition ticket_correlates :: "agent_event \<Rightarrow> ident option \<Rightarrow> ticket_claims \<Rightarrow> bool" where
  "ticket_correlates e path c \<longleftrightarrow>
     \<not> (str_set path \<and> str_set (ev_run e) \<and> path \<noteq> ev_run e) \<and>
     agrees (or_option path (ev_run e)) (Some (tcl_run c)) \<and>
     agrees (ev_request e) (Some (tcl_request c)) \<and> agrees (ev_turn e) (Some (tcl_turn c)) \<and>
     agrees (ev_tenant e) (Some (tcl_tenant c)) \<and> agrees (ev_user e) (Some (tcl_user c)) \<and>
     agrees (Some (ev_agent e)) (Some (tcl_agent c)) \<and> agrees (ev_plan e) (tcl_plan c) \<and>
     agrees (ev_step e) (tcl_step c)"

definition run_matches_claims :: "agent_event \<Rightarrow> ticket_claims \<Rightarrow> agent_run \<Rightarrow> bool" where
  "run_matches_claims e c r \<longleftrightarrow>
     rn_delegated r \<and> rn_request r = Some (tcl_request c) \<and> rn_turn r = Some (tcl_turn c) \<and>
     rn_tenant r = Some (tcl_tenant c) \<and> rn_user r = Some (tcl_user c) \<and> rn_agent r = tcl_agent c \<and>
     rn_plan r = tcl_plan c \<and> rn_step r = tcl_step c \<and> rn_session r = ev_session e"

definition terminal_event_types :: "agent_event_type set" where
  "terminal_event_types = {Agent_Result_Event, Agent_Error, Agent_Cancelled}"

text \<open>
  \<open>_resolve_event_occurrence\<close>: the time of the event, or \<open>None\<close> where the code raises a conflict. The
  clock is read when the event carries no time. Stored runs carry both times.
\<close>

definition event_occurrence :: "time \<Rightarrow> agent_event \<Rightarrow> ticket \<Rightarrow> agent_run \<Rightarrow> time option" where
  "event_occurrence clock e k r =
     (let created = the (rn_created r)
      in if ev_type e \<in> terminal_event_types \<and> rn_terminal_event r = Some (ev_id e) then
           (if ev_run_version e \<noteq> None \<and> ev_run_version e \<noteq> Some (tk_version k) then None
            else if ev_sequence e \<noteq> None \<and> ev_sequence e \<noteq> Some (rn_sequence r) then None
            else
              let canonical = the (rn_updated r)
              in if ev_created e \<noteq> None \<and> max (the (ev_created e)) created \<noteq> canonical then None
                 else Some canonical)
         else
           let expected = (case ev_sequence e of
                             None \<Rightarrow> Some (int (tk_version k))
                           | Some n \<Rightarrow>
                               if n = tk_sequence k then Some (int (tk_version k) - 1)
                               else if n = tk_sequence k + 1 then Some (int (tk_version k))
                               else None)
           in case expected of
                None \<Rightarrow> None
              | Some v \<Rightarrow>
                  if ev_run_version e \<noteq> None \<and> int (the (ev_run_version e)) \<noteq> v then None
                  else Some (max (case ev_created e of Some t \<Rightarrow> t | None \<Rightarrow> clock) created))"

subsection \<open>The command of an event\<close>

definition payload_items :: "agent_event \<Rightarrow> (string \<times> json) list" where
  "payload_items e = (case ev_payload e of JObj kvs \<Rightarrow> kvs | _ \<Rightarrow> [])"

text \<open>\<open>str(payload.get(k) or d)\<close>\<close>

definition text_or :: "json \<Rightarrow> string \<Rightarrow> string" where
  "text_or v d = (if truthy v then py_str v else d)"

definition event_step_sequence :: "agent_event \<Rightarrow> ticket \<Rightarrow> nat" where
  "event_step_sequence e k =
     (case ev_sequence e of Some n \<Rightarrow> if n = 0 then tk_sequence k + 1 else n | None \<Rightarrow> tk_sequence k + 1)"

definition command_base :: "agent_event \<Rightarrow> ticket \<Rightarrow> time \<Rightarrow> event_command" where
  "command_base e k at =
     (let c = tk_claims k
      in \<lparr>cm_event = ev_id e, cm_run = tcl_run c, cm_turn = tcl_turn c, cm_tenant = tcl_tenant c,
          cm_user = tcl_user c, cm_agent = tcl_agent c, cm_plan = tcl_plan c, cm_step = tcl_step c,
          cm_version = tk_version k, cm_at = at\<rparr>)"

definition progress_of :: "agent_event \<Rightarrow> ticket \<Rightarrow> time \<Rightarrow> progress_command" where
  "progress_of e k at =
     event_command.extend (command_base e k at)
       (progress_command.fields (ev_type e) (event_step_sequence e k)
          (if ev_type e = Agent_Clarify then ''blocked'' else ''running'') (ev_payload e))"

definition complete_of :: "agent_event \<Rightarrow> ticket \<Rightarrow> time \<Rightarrow> complete_command" where
  "complete_of e k at =
     (let p = payload_items e
      in event_command.extend (command_base e k at)
           (complete_command.fields
              (text_or (jget p ''result_id'') (''result_'' @ ev_id e))
              (let m = jget p ''message''; t = jget p ''response_text''
               in if truthy m then py_str m else text_or t [])
              (Some (if is_obj (jget p ''output'') then jget p ''output'' else ev_payload e))
              (case jget p ''artifact_refs'' of JList xs \<Rightarrow> filter is_obj xs | _ \<Rightarrow> [])))"

definition fail_of :: "agent_event \<Rightarrow> ticket \<Rightarrow> time \<Rightarrow> fail_command" where
  "fail_of e k at =
     event_command.extend (command_base e k at)
       (fail_command.fields
          (let v = jget (payload_items e) ''error'' in if is_obj v then v else ev_payload e))"

definition cancel_of :: "agent_event \<Rightarrow> ticket \<Rightarrow> time \<Rightarrow> cancel_command" where
  "cancel_of e k at =
     event_command.extend (command_base e k at)
       (cancel_command.fields (text_or (jget (payload_items e) ''reason'') ''execution_cancelled''))"

definition cancel_command_ok :: "cancel_command \<Rightarrow> bool" where
  "cancel_command_ok c \<longleftrightarrow> event_command_ok c \<and> id_ok 500 (xc_reason c)"

definition invalid_command :: py_exn where
  "invalid_command = Value_Error ''command''"

text \<open>\<open>_apply_delegated_event\<close>: the flag tells whether the event ends the run.\<close>

definition apply_delegated_event ::
    "ident \<Rightarrow> time \<Rightarrow> agent_event \<Rightarrow> ticket \<Rightarrow> time \<Rightarrow> (command_result \<times> bool) act" where
  "apply_delegated_event fresh now e k at w =
     (if ev_type e \<in> {Agent_Started, Agent_Progress, Agent_Clarify} then
        (if \<not> progress_command_ok (progress_of e k at) then (Inl invalid_command, w)
         else and_then (service_progress now (progress_of e k at)) (\<lambda>r v. (Inr (r, False), v)) w)
      else if ev_type e = Agent_Result_Event then
        (if \<not> complete_command_ok (complete_of e k at) then (Inl invalid_command, w)
         else and_then (service_complete fresh now (complete_of e k at)) (\<lambda>r v. (Inr (r, True), v)) w)
      else if ev_type e = Agent_Error then
        (if \<not> event_command_ok (fail_of e k at) then (Inl invalid_command, w)
         else and_then (service_fail fresh now (fail_of e k at)) (\<lambda>r v. (Inr (r, True), v)) w)
      else
        (if \<not> cancel_command_ok (cancel_of e k at) then (Inl invalid_command, w)
         else and_then (service_cancel fresh now (cancel_of e k at)) (\<lambda>r v. (Inr (r, True), v)) w))"


subsection \<open>Recording an event of an external agent\<close>

record event_world =
  ew_tickets :: ticket_store
  ew_runs :: drs

text \<open>
  The environment of one call: the digest and secret of the ticket service, the fresh lease token and
  outbox identifier, the successive readings of the clock, what other tasks do inside the \<open>n\<close>-th
  ticket operation and before the \<open>n\<close>-th operation.
\<close>

record event_env =
  vn_hash :: "string \<Rightarrow> string"
  vn_secret :: "string option"
  vn_token :: string
  vn_fresh :: ident
  vn_lease :: int
  vn_time :: "nat \<Rightarrow> time"
  vn_inside :: "nat \<Rightarrow> nat \<Rightarrow> ticket_store \<Rightarrow> ticket_store"
  vn_others :: "nat \<Rightarrow> event_world \<Rightarrow> event_world"

definition event_owner :: "agent_event \<Rightarrow> string" where
  "event_owner e = ''native-agent-event:'' @ ev_id e"

definition on_tickets ::
    "(ticket_store \<Rightarrow> 'r \<times> ticket_store) \<Rightarrow> event_world \<Rightarrow> 'r \<times> event_world" where
  "on_tickets f w = (case f (ew_tickets w) of (r, s) \<Rightarrow> (r, w\<lparr>ew_tickets := s\<rparr>))"

definition on_runs :: "'a act \<Rightarrow> event_world \<Rightarrow> (py_exn + 'a) \<times> event_world" where
  "on_runs f w = (case f (ew_runs w) of (r, s) \<Rightarrow> (r, w\<lparr>ew_runs := s\<rparr>))"

definition resolve_event_ticket ::
    "event_env \<Rightarrow> string \<Rightarrow> event_world \<Rightarrow> (py_exn + ticket) \<times> event_world" where
  "resolve_event_ticket env token =
     on_tickets (ticket_resolve_bound (vn_inside env 0) (vn_hash env) (vn_secret env) token
                   event_purpose (vn_time env 0))"

definition claim_event_ticket ::
    "event_env \<Rightarrow> string \<Rightarrow> agent_event \<Rightarrow> ticket_claims \<Rightarrow> event_world \<Rightarrow>
     (py_exn + ticket \<times> bool) \<times> event_world" where
  "claim_event_ticket env token e c =
     on_tickets (ticket_service_claim (vn_inside env 1) (vn_hash env) (vn_secret env) token
                   (tcl_tenant c) (tcl_user c) event_purpose (event_owner e) (vn_token env)
                   (vn_lease env) (vn_time env 1))"

text \<open>The end of the claim: consumed by a final event, released with the new cursor otherwise.\<close>

definition settle_ticket ::
    "event_env \<Rightarrow> string \<Rightarrow> agent_event \<Rightarrow> ticket \<Rightarrow> command_result \<Rightarrow> bool \<Rightarrow> event_world \<Rightarrow>
     (py_exn + ticket) \<times> event_world" where
  "settle_ticket env h e k res terminal =
     (let owner = event_owner e; lease = the (tk_token k); at = vn_time env 4;
          inside = vn_inside env 4; version = dr_version (rr_run res); n = event_step_sequence e k
      in if terminal then on_tickets (ticket_consume inside h (ev_id e) owner lease at)
         else if rr_duplicate res then
           (if tk_version k < version \<and> tk_sequence k < n
            then on_tickets (release_after_progress inside h owner lease version n at)
            else if version = tk_version k \<and> n = tk_sequence k
            then on_tickets (ticket_release inside h owner lease at)
            else (\<lambda>w. (Inl (Ticket_Error ''Execution ticket cursor conflict''), w)))
         else on_tickets (release_after_progress inside h owner lease version n at))"

definition translated :: "py_exn \<Rightarrow> bool" where
  "translated x \<longleftrightarrow> is_value_error x \<or> (case x of Ticket_Error m \<Rightarrow> True | _ \<Rightarrow> False)"

definition conflict_or :: "py_exn \<Rightarrow> event_error" where
  "conflict_or x = (if translated x then Rejected Event_Conflict ''agent_event_conflict'' else Escaped x)"

text \<open>\<open>_validate_consumed_replay\<close>\<close>

definition consumed_replay ::
    "event_env \<Rightarrow> agent_event \<Rightarrow> ticket \<Rightarrow> time \<Rightarrow> event_world \<Rightarrow>
     (event_error + event_response) \<times> event_world" where
  "consumed_replay env e k at w =
     (if tk_event k \<noteq> Some (ev_id e)
      then (Inl (Rejected Event_Conflict ''execution_ticket_consumed''), w)
      else case on_runs (apply_delegated_event (vn_fresh env) (vn_time env 3) e k at) (vn_others env 3 w) of
        (Inl x, w') \<Rightarrow> (Inl (conflict_or x), w')
      | (Inr (res, terminal), w') \<Rightarrow>
          if \<not> terminal \<or> \<not> rr_duplicate res
          then (Inl (Rejected Event_Conflict ''agent_event_conflict''), w')
          else (Inr \<lparr>er_event = ev_id e, er_duplicate = True,
                     er_text = ''Agent event already committed''\<rparr>, w'))"

text \<open>The part of \<open>record\<close> in the \<open>try\<close> block and its handler.\<close>

definition commit_event ::
    "event_env \<Rightarrow> string \<Rightarrow> agent_event \<Rightarrow> ticket \<Rightarrow> time \<Rightarrow> event_world \<Rightarrow>
     (event_error + event_response) \<times> event_world" where
  "commit_event env h e k at w =
     (let release = (\<lambda>v. snd (on_tickets (ticket_release (vn_inside env 5) h (event_owner e)
                                 (the (tk_token k)) (vn_time env 5)) (vn_others env 5 v)));
          failed = (\<lambda>x v. (Inl (conflict_or x), if translated x then release v else v))
      in case on_runs (apply_delegated_event (vn_fresh env) (vn_time env 3) e k at) (vn_others env 3 w) of
           (Inl x, w1) \<Rightarrow> failed x w1
         | (Inr (res, terminal), w1) \<Rightarrow>
             (case settle_ticket env h e k res terminal (vn_others env 4 w1) of
                (Inl x, w2) \<Rightarrow> failed x w2
              | (Inr _, w2) \<Rightarrow>
                  (Inr \<lparr>er_event = ev_id e, er_duplicate = rr_duplicate res,
                        er_text = ''Agent event committed''\<rparr>, w2)))"

definition record_native_event ::
    "event_env \<Rightarrow> agent_event \<Rightarrow> string option \<Rightarrow> ident option \<Rightarrow> event_world \<Rightarrow>
     (event_error + event_response) \<times> event_world" where
  "record_native_event env e ticket path w0 =
     (if \<not> str_set ticket then (Inl (Rejected Unauthorized ''execution_ticket_required''), w0)
      else let token = the ticket; h = vn_hash env token in
      case resolve_event_ticket env token w0 of
        (Inl _, w) \<Rightarrow> (Inl (Rejected Unauthorized ''execution_ticket_invalid''), w)
      | (Inr resolved, w) \<Rightarrow>
          let c = tk_claims resolved;
              identity = Rejected Event_Conflict ''agent_event_identity_conflict''
          in if \<not> ticket_correlates e path c then (Inl identity, w)
             else let w1 = vn_others env 1 w
             in case get_run (dw_runs (ew_runs w1)) (tcl_run c) of
                  None \<Rightarrow> (Inl identity, w1)
                | Some r \<Rightarrow>
                    if \<not> run_matches_claims e c r then (Inl identity, w1)
                    else (case event_step_status (ev_status e) (ev_type e) of
                      Inl _ \<Rightarrow> (Inl (Rejected Invalid_Event ''agent_event_status_conflict''), w1)
                    | Inr _ \<Rightarrow>
                        (case claim_event_ticket env token e c (vn_others env 2 w1) of
                           (Inl x, w2) \<Rightarrow>
                             (Inl (Rejected (if sublist ''claimed'' (py_lower (case x of Ticket_Error m \<Rightarrow> m | _ \<Rightarrow> []))
                                             then Event_Conflict else Unauthorized)
                                ''execution_ticket_unavailable''), w2)
                         | (Inr (k, duplicate), w2) \<Rightarrow>
                             (case event_occurrence (vn_time env 2) e k r of
                                None \<Rightarrow> (Inl (Rejected Event_Conflict ''agent_event_conflict''), w2)
                              | Some at \<Rightarrow>
                                  if duplicate then consumed_replay env e k at w2
                                  else if \<not> str_set (tk_token k)
                                  then (Inl (Rejected Event_Conflict ''execution_ticket_claim_invalid''), w2)
                                  else commit_event env h e k at w2))))"

subsection \<open>Events from inside the process\<close>

text \<open>
  \<open>record_trusted_agent_event\<close>, with the event repository as part of the runs' state and the plan
  service over its plans. The owner of the event is that of the plan or of the run.
\<close>

record trusted_world =
  uw_runs :: drs
  uw_plan_log :: "publication list"

definition trusted_plans :: "trusted_world \<Rightarrow> plan_world" where
  "trusted_plans w = \<lparr>pw_store = (case dw_plans (uw_runs w) of None \<Rightarrow> empty_plan_store | Some s \<Rightarrow> s),
                      pw_log = uw_plan_log w\<rparr>"

definition set_trusted_plans :: "plan_world \<Rightarrow> trusted_world \<Rightarrow> trusted_world" where
  "set_trusted_plans p w = w\<lparr>uw_runs := (uw_runs w)\<lparr>dw_plans := Some (pw_store p)\<rparr>, uw_plan_log := pw_log p\<rparr>"

text \<open>\<open>MemoryEventRepository.get_event\<close> with an owner that may be absent.\<close>

definition event_of_owner ::
    "event_store \<Rightarrow> ident \<Rightarrow> ident option \<Rightarrow> ident option \<Rightarrow> agent_event option" where
  "event_of_owner s i tenant user =
     (case dget s i of
        None \<Rightarrow> None
      | Some e \<Rightarrow> if ev_tenant e \<noteq> tenant \<or> ev_user e \<noteq> user then None else Some e)"

definition plan_event_target ::
    "agent_event \<Rightarrow> trusted_world \<Rightarrow> event_error + plan \<times> agent_run" where
  "plan_event_target e w =
     (let missing = Inl (Rejected Event_Not_Found ''Plan not found'')
      in if \<not> str_set (ev_run e)
         then Inl (Rejected Invalid_Event ''Trusted Run association is required'')
         else case get_run (dw_runs (uw_runs w)) (the (ev_run e)) of
           None \<Rightarrow> missing
         | Some r \<Rightarrow>
             if \<not> str_set (rn_user r) \<or> \<not> str_set (rn_tenant r) \<or> rn_session r \<noteq> ev_session e \<or>
                rn_agent r \<noteq> ev_agent e \<or> rn_plan r \<noteq> ev_plan e \<or> rn_step r \<noteq> ev_step e
             then missing
             else case plan_get (pw_store (trusted_plans w)) (the (ev_plan e)) (the (rn_tenant r))
                         (the (rn_user r)) of
               None \<Rightarrow> missing
             | Some p \<Rightarrow>
                 if pl_session p \<noteq> Some (ev_session e) \<or>
                    \<not> list_ex (\<lambda>s. Some (st_id s) = ev_step e \<and> st_agent s = ev_agent e) (pl_steps p)
                 then missing else Inr (p, r))"

definition bind_event_owner ::
    "agent_event \<Rightarrow> plan option \<Rightarrow> trusted_world \<Rightarrow> event_error + agent_event" where
  "bind_event_owner e p w =
     (case p of
        Some x \<Rightarrow> Inr (e\<lparr>ev_user := Some (pl_user x), ev_tenant := Some (pl_tenant x)\<rparr>)
      | None \<Rightarrow>
          if \<not> str_set (ev_run e) then Inr (e\<lparr>ev_user := None, ev_tenant := None\<rparr>)
          else case get_run (dw_runs (uw_runs w)) (the (ev_run e)) of
            None \<Rightarrow> Inl (Rejected Event_Not_Found ''Run not found'')
          | Some r \<Rightarrow>
              if rn_session r \<noteq> ev_session e \<or> rn_agent r \<noteq> ev_agent e
              then Inl (Rejected Event_Not_Found ''Run not found'')
              else Inr (e\<lparr>ev_user := rn_user r, ev_tenant := rn_tenant r\<rparr>))"

definition same_event_identity :: "agent_event \<Rightarrow> agent_event \<Rightarrow> bool" where
  "same_event_identity a b \<longleftrightarrow>
     ev_run a = ev_run b \<and> ev_session a = ev_session b \<and> ev_agent a = ev_agent b \<and>
     ev_user a = ev_user b \<and> ev_tenant a = ev_tenant b \<and> ev_plan a = ev_plan b \<and>
     ev_step a = ev_step b \<and> ev_type a = ev_type b \<and> ev_status a = ev_status b"

definition record_trusted_event ::
    "plan_config \<Rightarrow> interference \<Rightarrow> time \<Rightarrow> agent_event \<Rightarrow> trusted_world \<Rightarrow>
     (event_error + event_response) \<times> trusted_world" where
  "record_trusted_event cfg others now e w =
     (case event_step_status (ev_status e) (ev_type e) of
        Inl _ \<Rightarrow> (Inl (Rejected Invalid_Event ''Agent event status conflicts with event_type''), w)
      | Inr _ \<Rightarrow>
          (case (if str_set (ev_plan e)
                 then ebind (plan_event_target e w) (\<lambda>(p, r). Inr (Some p, rn_suppressed r))
                 else Inr (None, False)) of
             Inl x \<Rightarrow> (Inl x, w)
           | Inr (target, hidden) \<Rightarrow>
               (case bind_event_owner e target w of
                  Inl x \<Rightarrow> (Inl x, w)
                | Inr bound \<Rightarrow>
                    (case add_agent_event now bound (dw_events (uw_runs w)) of
                       ((saved, duplicate), s) \<Rightarrow>
                         let w1 = w\<lparr>uw_runs := (uw_runs w)\<lparr>dw_events := s\<rparr>\<rparr>;
                             answer = \<lparr>er_event = ev_id saved, er_duplicate = duplicate, er_text = []\<rparr>;
                             clash = Rejected Event_Conflict ''Agent event identity conflict''
                         in case event_of_owner s (ev_id bound) (ev_tenant bound) (ev_user bound) of
                              None \<Rightarrow> (Inl clash, w1)
                            | Some stored \<Rightarrow>
                                if \<not> same_event_identity stored bound then (Inl clash, w1)
                                else case target of
                                  None \<Rightarrow> (Inr answer, w1)
                                | Some p \<Rightarrow>
                                    (case apply_agent_event cfg others stored (pl_tenant p) (pl_user p)
                                            (\<not> hidden) now (trusted_plans w1) of
                                       (Inl x, pw) \<Rightarrow> (Inl (Escaped x), set_trusted_plans pw w1)
                                     | (Inr _, pw) \<Rightarrow> (Inr answer, set_trusted_plans pw w1))))))"


subsection \<open>What an accepted event has passed\<close>

text \<open>Between the operations of a call, other callers only use the ticket service.\<close>

definition ticket_only :: "event_env \<Rightarrow> bool" where
  "ticket_only env \<longleftrightarrow>
     (\<forall>n. ticket_interference (vn_inside env n)) \<and>
     (\<forall>n w. ew_runs (vn_others env n w) = ew_runs w \<and>
            ticket_steps (ew_tickets w) (ew_tickets (vn_others env n w)))"

lemma on_tickets_runs: "on_tickets f w = (r, w') \<Longrightarrow> ew_runs w' = ew_runs w"
  by (auto simp: on_tickets_def split: prod.splits)

lemma on_tickets_eq: "on_tickets f w = (r, w') \<longleftrightarrow> (\<exists>s. f (ew_tickets w) = (r, s) \<and> w' = w\<lparr>ew_tickets := s\<rparr>)"
  by (auto simp: on_tickets_def split: prod.splits)

lemma on_runs_eq: "on_runs f w = (r, w') \<longleftrightarrow> (\<exists>s. f (ew_runs w) = (r, s) \<and> w' = w\<lparr>ew_runs := s\<rparr>)"
  by (auto simp: on_runs_def split: prod.splits)

lemma ticket_service_claim_evolves:
  assumes ok: "ticket_store_ok s" and i: "ticket_interference others"
    and c: "ticket_service_claim others hash secret ticket tenant user purpose owner token lease now s = (r, s')"
  shows "ticket_steps s s'"
proof -
  have res: "ticket_steps s s1"
    if "ticket_resolve others hash secret ticket tenant user purpose now s = (x, s1)" for x s1
    using that ticket_resolve_bound_steps[OF i]
    by (auto simp: ticket_resolve_def split: prod.splits sum.splits if_splits)
  have more: "ticket_steps s v \<Longrightarrow> ticket_steps s (others n v)" for v n
    using ticket_interferenceD[OF i, of v n] by (meson rtranclp_trans)
  have cl: "ticket_steps s v \<Longrightarrow> ticket_claim k owner token now u v = (y, v') \<Longrightarrow> ticket_steps s v'" for k u v y v'
    using ticket_step.claim by (meson rtranclp.rtrancl_into_rtrancl)
  show ?thesis
    using c by (auto simp: ticket_service_claim_def split: if_splits prod.splits sum.splits option.splits
        dest!: res intro: more dest: cl[OF more])
qed

lemma commit_event_runs:
  assumes q: "\<And>n w. ew_runs (vn_others env n w) = ew_runs w"
    and c: "commit_event env h e k at w = (r, w')"
  shows "\<exists>x. apply_delegated_event (vn_fresh env) (vn_time env 3) e k at (ew_runs w) = (x, ew_runs w')"
proof -
  obtain x w1 where x: "on_runs (apply_delegated_event (vn_fresh env) (vn_time env 3) e k at)
      (vn_others env 3 w) = (x, w1)" by fastforce
  have rel: "ew_runs (snd (on_tickets f (vn_others env 5 v))) = ew_runs v" for f v
    using on_tickets_runs[of f "vn_others env 5 v"] q by (metis prod.collapse)
  have st: "settle_ticket env h e k res t v = (y, v') \<Longrightarrow> ew_runs v' = ew_runs v" for res t v y v'
    by (auto simp: settle_ticket_def Let_def dest: on_tickets_runs split: if_splits)
  have "ew_runs w' = ew_runs w1"
    using c x q by (auto simp: commit_event_def Let_def rel dest!: st split: sum.splits prod.splits if_splits)
  with x q show ?thesis by (auto simp: on_runs_eq)
qed


lemma resolve_bound_Inr:
  assumes "ticket_resolve_bound others hash secret t purpose now s = (Inr k, s')"
  shows "s' = s \<and> dget s (hash t) = Some k \<and> valid_token hash t secret \<and>
    now < tcl_expires (tk_claims k) \<and> tcl_purpose (tk_claims k) = purpose"
  using assms by (auto simp: ticket_resolve_bound_def ticket_get_def split: option.splits if_splits)

lemma record_native_passed:
  assumes env: "ticket_only env" and ok: "ticket_store_ok (ew_tickets w)"
    and rec: "record_native_event env e ticket path w = (res, w')"
    and eff: "(\<exists>a. res = Inr a) \<or> ew_runs w' \<noteq> ew_runs w"
  obtains t k0 c r k dup at w2 where "ticket = Some t"
    "dget (ew_tickets w) (vn_hash env t) = Some k0" "c = tk_claims k0"
    "valid_token (vn_hash env) t (vn_secret env)" "vn_time env 0 < tcl_expires c"
    "tcl_purpose c = event_purpose" "ticket_correlates e path c"
    "get_run (dw_runs (ew_runs w)) (tcl_run c) = Some r" "run_matches_claims e c r"
    "dget (ew_tickets w2) (vn_hash env t) = Some k" "tk_claims k = c"
    "if dup then tk_status k = Ticket_Consumed else claim_owned k (event_owner e) (vn_token env) (vn_time env 1)"
    "ticket_store_ok (ew_tickets w2)" "ew_runs w2 = ew_runs w"
    "event_occurrence (vn_time env 2) e k r = Some at"
    "(if dup then consumed_replay env e k at w2
      else commit_event env (vn_hash env t) e k at w2) = (res, w')"
proof -
  have q: "ew_runs (vn_others env n v) = ew_runs v"
    "ticket_steps (ew_tickets v) (ew_tickets (vn_others env n v))" "ticket_interference (vn_inside env n)" for n v
    using env by (simp_all add: ticket_only_def)
  obtain t where t: "ticket = Some t" "str_set ticket"
    using rec eff by (cases ticket) (auto simp: record_native_event_def str_set_iff split: if_splits)
  obtain x w0 where x: "resolve_event_ticket env t w = (x, w0)" by fastforce
  have r0: "ew_runs w0 = ew_runs w" using x by (auto simp: resolve_event_ticket_def dest: on_tickets_runs)
  obtain k0 where k0: "x = Inr k0"
    using rec eff t x r0 by (cases x) (auto simp: record_native_event_def Let_def)
  let ?c = "tk_claims k0"
  have b: "w0 = w" "dget (ew_tickets w) (vn_hash env t) = Some k0"
    "valid_token (vn_hash env) t (vn_secret env)" "vn_time env 0 < tcl_expires ?c" "tcl_purpose ?c = event_purpose"
    using x k0 by (auto simp: resolve_event_ticket_def on_tickets_eq dest!: resolve_bound_Inr)
  let ?w1 = "vn_others env 1 w" and ?w2 = "vn_others env 2 (vn_others env 1 w)"
  have r1: "ew_runs ?w1 = ew_runs w" "ew_runs ?w2 = ew_runs w" using q by simp_all
  have cor: "ticket_correlates e path ?c"
    using rec eff t x k0 b(1) by (auto simp: record_native_event_def Let_def split: if_splits)
  obtain r where r: "get_run (dw_runs (ew_runs w)) (tcl_run ?c) = Some r"
    using rec eff t x k0 b(1) cor r1 by (auto simp: record_native_event_def Let_def split: option.splits)
  have rm: "run_matches_claims e ?c r"
    using rec eff t x k0 b(1) cor r r1 by (auto simp: record_native_event_def Let_def split: if_splits)
  obtain y w2 where y: "claim_event_ticket env t e ?c ?w2 = (y, w2)" by fastforce
  have r2: "ew_runs w2 = ew_runs w" using y r1 by (auto simp: claim_event_ticket_def dest: on_tickets_runs)
  obtain st where st: "event_step_status (ev_status e) (ev_type e) = Inr st"
    using rec eff t x k0 b(1) cor r rm r1 by (auto simp: record_native_event_def Let_def split: sum.splits)
  obtain k dup where k: "y = Inr (k, dup)"
    using rec eff t x k0 b(1) cor r rm r1 st y r2
    by (cases y) (auto simp: record_native_event_def Let_def split: prod.splits)
  have s2: "ticket_steps (ew_tickets w) (ew_tickets ?w2)" using q(2) by (meson rtranclp_trans)
  then have ok2: "ticket_store_ok (ew_tickets ?w2)" using ok ticket_steps_ok by blast
  from y k have cl: "ticket_service_claim (vn_inside env 1) (vn_hash env) (vn_secret env) t (tcl_tenant ?c)
      (tcl_user ?c) event_purpose (event_owner e) (vn_token env) (vn_lease env) (vn_time env 1)
      (ew_tickets ?w2) = (Inr (k, dup), ew_tickets w2)"
    by (auto simp: claim_event_ticket_def on_tickets_eq)
  note cp = ticket_service_claim_Inr[OF ok2 q(3) cl]
  have s3: "ticket_steps (ew_tickets w) (ew_tickets w2)"
    using s2 ticket_service_claim_evolves[OF ok2 q(3) cl] by (meson rtranclp_trans)
  have kc: "tk_claims k = ?c"
    using ticket_steps_evolve[OF s3 b(2)] cp by (auto simp: ticket_evolves_def)
  obtain at where at: "event_occurrence (vn_time env 2) e k r = Some at"
    using rec eff t x k0 b(1) cor r rm r1 st y k r2
    by (auto simp: record_native_event_def Let_def split: option.splits)
  have fin: "(if dup then consumed_replay env e k at w2
      else commit_event env (vn_hash env t) e k at w2) = (res, w')"
    using rec eff t x k0 b(1) cor r rm r1 st y k r2 at
    by (auto simp: record_native_event_def Let_def split: if_splits)
  show ?thesis
    using t b cor r rm cp kc at fin r2 ticket_steps_ok[OF s3 ok]
    by (intro that[of t k0 ?c r w2 k dup at]) (auto split: if_splits)
qed

lemma consumed_replay_runs:
  assumes q: "\<And>n w. ew_runs (vn_others env n w) = ew_runs w"
    and c: "consumed_replay env e k at w = (r, w')"
  shows "(\<exists>x. apply_delegated_event (vn_fresh env) (vn_time env 3) e k at (ew_runs w) = (x, ew_runs w')) \<or>
    (\<exists>y. r = Inl y) \<and> ew_runs w' = ew_runs w"
proof -
  obtain x w1 where x: "on_runs (apply_delegated_event (vn_fresh env) (vn_time env 3) e k at)
      (vn_others env 3 w) = (x, w1)" by fastforce
  with c q show ?thesis
    by (auto simp: consumed_replay_def on_runs_eq split: if_splits sum.splits prod.splits)
qed

text \<open>
  C3: an event acts only on what its ticket names. Whatever other callers do to the tickets in the
  meantime, if a call is accepted or changes anything in the delegated-run stores, then it carried a
  ticket of the right purpose with a valid signature that had not expired, every identifier the event
  supplies is the one in the ticket, the run named by the ticket is delegated and belongs to the same
  tenant, user, agent, turn, request, plan and step, and the change is exactly that of the
  delegated-run service for one command built from the ticket's identifiers.
\<close>

theorem agent_event_authorized:
  assumes env: "ticket_only env" and ok: "ticket_store_ok (ew_tickets w)"
    and rec: "record_native_event env e ticket path w = (res, w')"
    and eff: "(\<exists>a. res = Inr a) \<or> ew_runs w' \<noteq> ew_runs w"
  shows "\<exists>t k0 c r k at x. ticket = Some t \<and> dget (ew_tickets w) (vn_hash env t) = Some k0 \<and>
    c = tk_claims k0 \<and> valid_token (vn_hash env) t (vn_secret env) \<and> vn_time env 0 < tcl_expires c \<and>
    tcl_purpose c = ''agent_event'' \<and> ticket_correlates e path c \<and>
    get_run (dw_runs (ew_runs w)) (tcl_run c) = Some r \<and> rn_delegated r \<and>
    rn_tenant r = Some (tcl_tenant c) \<and> rn_user r = Some (tcl_user c) \<and> rn_agent r = tcl_agent c \<and>
    rn_turn r = Some (tcl_turn c) \<and> rn_request r = Some (tcl_request c) \<and> rn_plan r = tcl_plan c \<and>
    rn_step r = tcl_step c \<and> tk_claims k = c \<and>
    apply_delegated_event (vn_fresh env) (vn_time env 3) e k at (ew_runs w) = (x, ew_runs w')"
proof -
  have q: "\<And>n v. ew_runs (vn_others env n v) = ew_runs v" using env by (simp add: ticket_only_def)
  obtain t k0 c r k dup at w2 where a: "ticket = Some t"
    "dget (ew_tickets w) (vn_hash env t) = Some k0" "c = tk_claims k0"
    "valid_token (vn_hash env) t (vn_secret env)" "vn_time env 0 < tcl_expires c"
    "tcl_purpose c = event_purpose" "ticket_correlates e path c"
    "get_run (dw_runs (ew_runs w)) (tcl_run c) = Some r" "run_matches_claims e c r"
    "tk_claims k = c" "ew_runs w2 = ew_runs w"
    and fin: "(if dup then consumed_replay env e k at w2
      else commit_event env (vn_hash env t) e k at w2) = (res, w')"
    by (rule record_native_passed[OF env ok rec eff])
  have "\<exists>x. apply_delegated_event (vn_fresh env) (vn_time env 3) e k at (ew_runs w2) = (x, ew_runs w')"
  proof (cases dup)
    case True
    then have "consumed_replay env e k at w2 = (res, w')" using fin by simp
    with consumed_replay_runs[OF q this] eff a(11) show ?thesis by auto
  next
    case False
    with fin commit_event_runs[OF q] show ?thesis by simp
  qed
  moreover have "rn_delegated r" "rn_tenant r = Some (tcl_tenant c)" "rn_user r = Some (tcl_user c)"
    "rn_agent r = tcl_agent c" "rn_turn r = Some (tcl_turn c)" "rn_request r = Some (tcl_request c)"
    "rn_plan r = tcl_plan c" "rn_step r = tcl_step c"
    using a(9) by (simp_all add: run_matches_claims_def)
  ultimately show ?thesis using a unfolding event_purpose_def by metis
qed

text \<open>
  C4: an accepted event closes its ticket's claim. After an accepted final event (result, error or
  cancellation) the ticket is consumed by exactly this event; after an accepted progress event it is
  issued again, so the next event can claim it. No accepted event leaves a lease behind.
\<close>

theorem agent_event_closes_claim:
  assumes env: "ticket_only env" and ok: "ticket_store_ok (ew_tickets w)"
    and rec: "record_native_event env e (Some t) path w = (Inr a, w')"
  shows "\<exists>k. dget (ew_tickets w') (vn_hash env t) = Some k \<and>
    (if ev_type e \<in> terminal_event_types then tk_status k = Ticket_Consumed \<and> tk_event k = Some (ev_id e)
     else tk_status k = Ticket_Issued \<and> tk_owner k = None) \<and> er_event a = ev_id e"
proof -
  have q: "ticket_steps (ew_tickets v) (ew_tickets (vn_others env n v))" "ticket_interference (vn_inside env n)"
    for n v using env by (simp_all add: ticket_only_def)
  have eff: "(\<exists>b. Inr a = (Inr b :: event_error + event_response)) \<or> ew_runs w' \<noteq> ew_runs w" by simp
  obtain c k dup at w2 where k: "dget (ew_tickets w2) (vn_hash env t) = Some k"
    "if dup then tk_status k = Ticket_Consumed else claim_owned k (event_owner e) (vn_token env) (vn_time env 1)"
    "ticket_store_ok (ew_tickets w2)"
    and fin: "(if dup then consumed_replay env e k at w2
      else commit_event env (vn_hash env t) e k at w2) = (Inr a, w')"
    by (rule record_native_passed[OF env ok rec eff]) auto
  have final: "snd y \<longleftrightarrow> ev_type e \<in> terminal_event_types"
    if "apply_delegated_event f n e k at v = (Inr y, v')" for f n v y v'
    using that by (cases "ev_type e") (auto simp: apply_delegated_event_def terminal_event_types_def and_then_def
        split: if_splits prod.splits sum.splits)
  show ?thesis
  proof (cases dup)
    case True
    with fin have c: "consumed_replay env e k at w2 = (Inr a, w')" by simp
    then obtain y v where y: "on_runs (apply_delegated_event (vn_fresh env) (vn_time env 3) e k at)
        (vn_others env 3 w2) = (Inr y, v)" "snd y" "w' = v" "tk_event k = Some (ev_id e)" "er_event a = ev_id e"
      by (auto simp: consumed_replay_def split: if_splits prod.splits sum.splits)
    have "ticket_closed k" using True k(2) by (simp add: ticket_closed_def)
    then have "dget (ew_tickets (vn_others env 3 w2)) (vn_hash env t) = Some k"
      using ticket_steps_evolve[OF q(1) k(1), of 3] by (auto simp: ticket_evolves_def)
    moreover have "ew_tickets w' = ew_tickets (vn_others env 3 w2)" using y by (auto simp: on_runs_eq)
    moreover have "ev_type e \<in> terminal_event_types" using y(1,2) final by (cases y) (auto simp: on_runs_eq)
    ultimately show ?thesis using True k(2) y by auto
  next
    case False
    with fin have c: "commit_event env (vn_hash env t) e k at w2 = (Inr a, w')" by simp
    then obtain res terminal v z where y: "on_runs (apply_delegated_event (vn_fresh env) (vn_time env 3) e k at)
        (vn_others env 3 w2) = (Inr (res, terminal), v)"
      "settle_ticket env (vn_hash env t) e k res terminal (vn_others env 4 v) = (Inr z, w')"
      "er_event a = ev_id e"
      by (auto simp: commit_event_def Let_def split: prod.splits sum.splits)
    have tm: "terminal \<longleftrightarrow> ev_type e \<in> terminal_event_types" using y(1) final by (force simp: on_runs_eq)
    have s: "ticket_steps (ew_tickets w2) (ew_tickets (vn_others env 4 v))"
      using q(1)[of w2 3] q(1)[of v 4] y(1) by (auto simp: on_runs_eq)
    have okv: "ticket_store_ok (ew_tickets (vn_others env 4 v))" by (rule ticket_steps_ok[OF s k(3)])
    show ?thesis
    proof (cases terminal)
      case True
      then show ?thesis
        using y(2,3) tm ticket_consume_Inr[OF okv q(2)]
        by (auto simp: settle_ticket_def Let_def on_tickets_eq)
    next
      case nt: False
      obtain rc u s' where f: "finalize_claim (vn_inside env 4) rc (event_owner e) (the (tk_token k))
          (vn_time env 4) u (ew_tickets (vn_others env 4 v)) = (Inr z, s')"
        and u: "u = released \<or> (\<exists>m n. u = progressed m n)"
        and g: "dget (ew_tickets (vn_others env 4 v)) (vn_hash env t) = rc"
        and w': "w' = vn_others env 4 v\<lparr>ew_tickets := s'\<rparr>"
        using y(2) nt
        by (fastforce simp: settle_ticket_def Let_def on_tickets_eq release_after_progress_def
            ticket_release_def ticket_get_def split: if_splits option.splits)
      then obtain rd where rd: "rc = Some rd" by (cases rc) (auto simp: finalize_claim_def)
      have "tk_hash rd = vn_hash env t" using ticket_store_okD(2)[OF okv] g rd by simp
      then have "tk_status z = Ticket_Issued \<and> tk_owner z = None \<and> dget (ew_tickets w') (vn_hash env t) = Some z"
        using finalize_claim_Inr[OF f[unfolded rd]] u w' by (auto simp: released_def progressed_def)
      then show ?thesis using tm nt y(3) by simp
    qed
  qed
qed


subsection \<open>A wrong cursor blocks the ticket\<close>

definition quiet_events :: "event_env \<Rightarrow> bool" where
  "quiet_events env \<longleftrightarrow> (\<forall>n w. vn_others env n w = w) \<and> (\<forall>n m s. vn_inside env n m s = s)"

lemma quiet_events_ticket_only: "quiet_events env \<Longrightarrow> ticket_only env"
  by (simp add: quiet_events_def ticket_only_def ticket_interference_def)

text \<open>An event that passes every test before the claim.\<close>

definition presentable :: "event_env \<Rightarrow> agent_event \<Rightarrow> string \<Rightarrow> ident option \<Rightarrow> ticket \<Rightarrow> agent_run \<Rightarrow>
    event_world \<Rightarrow> bool" where
  "presentable env e t path k r w \<longleftrightarrow>
     t \<noteq> [] \<and> dget (ew_tickets w) (vn_hash env t) = Some k \<and> tk_hash k = vn_hash env t \<and>
     valid_token (vn_hash env) t (vn_secret env) \<and> vn_time env 0 < tcl_expires (tk_claims k) \<and>
     vn_time env 1 < tcl_expires (tk_claims k) \<and> tcl_purpose (tk_claims k) = event_purpose \<and>
     ticket_correlates e path (tk_claims k) \<and>
     get_run (dw_runs (ew_runs w)) (tcl_run (tk_claims k)) = Some r \<and>
     run_matches_claims e (tk_claims k) r \<and> (\<exists>st. event_step_status (ev_status e) (ev_type e) = Inr st) \<and>
     0 < vn_lease env"

lemma record_native_presentable:
  assumes q: "quiet_events env" and p: "presentable env e t path k r w"
    and st: "tk_status k \<in> {Ticket_Issued, Ticket_Claimed}"
  shows "record_native_event env e (Some t) path w =
    (case claim_event_ticket env t e (tk_claims k) w of
       (Inl x, w2) \<Rightarrow>
         (Inl (Rejected (if sublist ''claimed'' (py_lower (case x of Ticket_Error m \<Rightarrow> m | _ \<Rightarrow> []))
                         then Event_Conflict else Unauthorized)
                ''execution_ticket_unavailable''), w2)
     | (Inr (c, duplicate), w2) \<Rightarrow>
         (case event_occurrence (vn_time env 2) e c r of
            None \<Rightarrow> (Inl (Rejected Event_Conflict ''agent_event_conflict''), w2)
          | Some at \<Rightarrow>
              if duplicate then consumed_replay env e c at w2
              else if \<not> str_set (tk_token c)
              then (Inl (Rejected Event_Conflict ''execution_ticket_claim_invalid''), w2)
              else commit_event env (vn_hash env t) e c at w2))"
proof -
  have "resolve_event_ticket env t w = (Inr k, w)"
    using p st by (auto simp: resolve_event_ticket_def on_tickets_def ticket_resolve_bound_def presentable_def
        ticket_get_def)
  with p q show ?thesis
    by (auto simp: record_native_event_def Let_def presentable_def quiet_events_def str_set_iff)
qed

lemma claim_event_ticket_quiet:
  assumes q: "quiet_events env" and p: "presentable env e t path k r w"
    and st: "tk_status k \<in> {Ticket_Issued, Ticket_Claimed}"
  shows "claim_event_ticket env t e (tk_claims k) w =
    (if ticket_claimable k (vn_time env 1)
     then let c = k\<lparr>tk_status := Ticket_Claimed, tk_owner := Some (event_owner e),
                     tk_token := Some (vn_token env), tk_lease := Some (vn_time env 1 + vn_lease env)\<rparr>
          in (Inr (c, False), w\<lparr>ew_tickets := dput (vn_hash env t) c (ew_tickets w)\<rparr>)
     else (Inl (Ticket_Error ''Execution ticket is claimed''), w))"
proof -
  have "ticket_resolve (vn_inside env 1) (vn_hash env) (vn_secret env) t (tcl_tenant (tk_claims k))
      (tcl_user (tk_claims k)) event_purpose (vn_time env 1) (ew_tickets w) = (Inr k, ew_tickets w)"
    using p st by (auto simp: ticket_resolve_def ticket_resolve_bound_def presentable_def ticket_get_def)
  moreover have "tk_status k \<noteq> Ticket_Consumed" using st by auto
  moreover have "vn_inside env 1 n s = s" for n s using q by (simp add: quiet_events_def)
  ultimately show ?thesis
    using p by (simp add: claim_event_ticket_def on_tickets_def ticket_service_claim_def presentable_def
        ticket_claim_def ticket_get_def Let_def)
qed

text \<open>
  An event with a wrong sequence or version blocks its run. The cursor of the event is compared
  after the ticket was claimed and outside of the handler that releases the claim: such an event is
  rejected with the claim still in place, nothing else having changed, and until the lease ends
  every event for this run, correct or not, is rejected as unavailable.
\<close>

theorem cursor_conflict_keeps_claim:
  assumes q: "quiet_events env" and p: "presentable env e t path k r w" and st: "tk_status k = Ticket_Issued"
    and cursor: "event_occurrence (vn_time env 2) e
      (k\<lparr>tk_status := Ticket_Claimed, tk_owner := Some (event_owner e), tk_token := Some (vn_token env),
         tk_lease := Some (vn_time env 1 + vn_lease env)\<rparr>) r = None"
    and rec: "record_native_event env e (Some t) path w = (res, w')"
  shows "res = Inl (Rejected Event_Conflict ''agent_event_conflict'') \<and> ew_runs w' = ew_runs w \<and>
    (\<exists>c. dget (ew_tickets w') (vn_hash env t) = Some c \<and> tk_status c = Ticket_Claimed \<and>
       (\<forall>env2 e2 path2. quiet_events env2 \<longrightarrow> presentable env2 e2 t path2 c r w' \<longrightarrow>
          vn_time env2 1 < vn_time env 1 + vn_lease env \<longrightarrow>
          record_native_event env2 e2 (Some t) path2 w' =
            (Inl (Rejected Event_Conflict ''execution_ticket_unavailable''), w')))"
proof -
  let ?c = "k\<lparr>tk_status := Ticket_Claimed, tk_owner := Some (event_owner e), tk_token := Some (vn_token env),
         tk_lease := Some (vn_time env 1 + vn_lease env)\<rparr>"
  have "ticket_claimable k (vn_time env 1)" using st by (simp add: ticket_claimable_def)
  then have "claim_event_ticket env t e (tk_claims k) w =
      (Inr (?c, False), w\<lparr>ew_tickets := dput (vn_hash env t) ?c (ew_tickets w)\<rparr>)"
    using claim_event_ticket_quiet[OF q p] st by (simp add: Let_def)
  then have out: "res = Inl (Rejected Event_Conflict ''agent_event_conflict'')"
    "w' = w\<lparr>ew_tickets := dput (vn_hash env t) ?c (ew_tickets w)\<rparr>"
    using record_native_presentable[OF q p] st cursor rec by simp_all
  have "record_native_event env2 e2 (Some t) path2 w' =
      (Inl (Rejected Event_Conflict ''execution_ticket_unavailable''), w')"
    if h: "quiet_events env2" "presentable env2 e2 t path2 ?c r w'" "vn_time env2 1 < vn_time env 1 + vn_lease env"
    for env2 e2 path2
  proof -
    have "\<not> ticket_claimable ?c (vn_time env2 1)" using h(3) by (simp add: ticket_claimable_def)
    then have "claim_event_ticket env2 t e2 (tk_claims ?c) w' =
        (Inl (Ticket_Error ''Execution ticket is claimed''), w')"
      using claim_event_ticket_quiet[OF h(1,2)] by simp
    moreover have "sublist ''claimed'' (py_lower ''Execution ticket is claimed'')" by code_simp
    ultimately show ?thesis using record_native_presentable[OF h(1,2)] by simp
  qed
  moreover have "dget (ew_tickets w') (vn_hash env t) = Some ?c" "ew_runs w' = ew_runs w" using out by simp_all
  ultimately show ?thesis using out(1) by (intro conjI exI[of _ ?c]) auto
qed


subsection \<open>A concrete call\<close>

definition demo_event_env :: event_env where
  "demo_event_env = \<lparr>vn_hash = (\<lambda>_. ''k''), vn_secret = None, vn_token = ''lease'', vn_fresh = ''ob'',
     vn_lease = 30, vn_time = (\<lambda>n. 5), vn_inside = (\<lambda>_ _ s. s), vn_others = (\<lambda>_ w. w)\<rparr>"

definition demo_event :: "agent_event_type \<Rightarrow> nat option \<Rightarrow> agent_event" where
  "demo_event typ sequence = \<lparr>ev_id = ''e1'', ev_run = Some ''run1'', ev_request = None, ev_session = ''s'',
     ev_agent = ''ag'', ev_user = None, ev_tenant = None, ev_turn = None, ev_agent_session = None,
     ev_type = typ, ev_status = None, ev_plan = None, ev_step = None, ev_sequence = sequence,
     ev_run_version = None, ev_payload = JObj [(''message'', JStr ''done'')], ev_created = None\<rparr>"

definition demo_event_world :: event_world where
  "demo_event_world = \<lparr>ew_tickets = demo_tickets, ew_runs = demo_world demo_turn0\<rparr>"

lemma demo_event_env_quiet: "quiet_events demo_event_env"
  by (simp add: quiet_events_def demo_event_env_def)

lemma demo_event_accepted:
  "\<exists>a w'. record_native_event demo_event_env (demo_event Agent_Result_Event None) (Some ''tok'') None
     demo_event_world = (Inr a, w')"
proof -
  have "case record_native_event demo_event_env (demo_event Agent_Result_Event None) (Some ''tok'') None
     demo_event_world of (Inl _, _) \<Rightarrow> False | (Inr _, _) \<Rightarrow> True" by code_simp
  then show ?thesis by (auto split: prod.splits sum.splits)
qed

lemma agent_event_authorized_witness:
  "\<exists>a w'. record_native_event demo_event_env (demo_event Agent_Result_Event None) (Some ''tok'') None
     demo_event_world = (Inr a, w') \<and>
   (\<exists>k0. dget (ew_tickets demo_event_world) ''k'' = Some k0 \<and> tcl_purpose (tk_claims k0) = ''agent_event'')"
proof -
  obtain a w' where r: "record_native_event demo_event_env (demo_event Agent_Result_Event None)
      (Some ''tok'') None demo_event_world = (Inr a, w')" using demo_event_accepted by blast
  have "ticket_store_ok (ew_tickets demo_event_world)" by (simp add: demo_event_world_def)
  from agent_event_authorized[OF quiet_events_ticket_only[OF demo_event_env_quiet] this r]
  have "\<exists>k0. dget (ew_tickets demo_event_world) (vn_hash demo_event_env ''tok'') = Some k0 \<and>
      tcl_purpose (tk_claims k0) = ''agent_event''" by blast
  with r show ?thesis by (auto simp: demo_event_env_def)
qed

lemma agent_event_closes_claim_witness:
  "\<exists>a w' k. record_native_event demo_event_env (demo_event Agent_Result_Event None) (Some ''tok'') None
     demo_event_world = (Inr a, w') \<and> dget (ew_tickets w') ''k'' = Some k \<and>
   tk_status k = Ticket_Consumed \<and> tk_event k = Some ''e1''"
proof -
  obtain a w' where r: "record_native_event demo_event_env (demo_event Agent_Result_Event None)
      (Some ''tok'') None demo_event_world = (Inr a, w')" using demo_event_accepted by blast
  have "ticket_store_ok (ew_tickets demo_event_world)" by (simp add: demo_event_world_def)
  from agent_event_closes_claim[OF quiet_events_ticket_only[OF demo_event_env_quiet] this r] r
  show ?thesis by (auto simp: demo_event_env_def demo_event_def terminal_event_types_def)
qed

lemma cursor_conflict_keeps_claim_witness:
  "\<exists>w' c. record_native_event demo_event_env (demo_event Agent_Progress (Some 7)) (Some ''tok'') None
     demo_event_world = (Inl (Rejected Event_Conflict ''agent_event_conflict''), w') \<and>
   dget (ew_tickets w') ''k'' = Some c \<and> tk_status c = Ticket_Claimed"
proof -
  let ?e = "demo_event Agent_Progress (Some 7)" and ?k = "new_ticket ''k'' demo_claims"
  have p: "presentable demo_event_env ?e ''tok'' None ?k demo_run demo_event_world"
    by (simp add: presentable_def demo_event_env_def demo_event_def demo_event_world_def demo_tickets_def
        new_ticket_def demo_claims_def valid_token_def py_isspace_def event_purpose_def
        ticket_correlates_def agrees_def or_option_def str_set_iff demo_world_def get_run_def
        run_matches_claims_def demo_run_def event_step_status_def)
  have st: "tk_status ?k = Ticket_Issued" by (simp add: new_ticket_def)
  have c: "event_occurrence (vn_time demo_event_env 2) ?e
      (?k\<lparr>tk_status := Ticket_Claimed, tk_owner := Some (event_owner ?e),
          tk_token := Some (vn_token demo_event_env),
          tk_lease := Some (vn_time demo_event_env 1 + vn_lease demo_event_env)\<rparr>) demo_run = None"
    by (simp add: event_occurrence_def demo_event_def new_ticket_def terminal_event_types_def)
  obtain res w' where r: "record_native_event demo_event_env ?e (Some ''tok'') None demo_event_world = (res, w')"
    by fastforce
  from cursor_conflict_keeps_claim[OF demo_event_env_quiet p st c r] r
  show ?thesis by (auto simp: demo_event_env_def)
qed

end
