(* ===== verification/Retry_Queue.thy ===== *)
theory Retry_Queue
  imports Oir_Prelude
begin

text \<open>
  What the program promises of its retrying work queues, as an abstract specification: the queue of
  formation jobs (\<open>app/repositories/memory_formation.py\<close>) and the outbox of the memory index
  (\<open>app/repositories/memory_index_operations.py\<close>) hand out jobs under leases, count the attempts
  and give up when they are used up. The theories of the two refine this specification; its
  consequences are proved once and reach them through the locale \<open>retry_queue\<close>.
\<close>

subsection \<open>The specification\<close>

text \<open>
  A job waits (until a time, after a failure), is leased to an owner by a token until a time, or has
  ended. Owner, token and end are optional because the stored columns are.
\<close>

datatype phase =
    Waiting "time option"
  | Leased "ident option" "string option" "time option"
  | Finished
  | Dead

record job_state =
  js_phase :: phase
  js_attempts :: nat
  js_limit :: nat

type_synonym job_queue = "ident \<Rightarrow> job_state option"

definition lease_over :: "time \<Rightarrow> phase \<Rightarrow> bool" where
  "lease_over now p = (case p of Leased _ _ (Some e) \<Rightarrow> e \<le> now | _ \<Rightarrow> False)"

definition job_due :: "time \<Rightarrow> job_state \<Rightarrow> bool" where
  "job_due now j \<longleftrightarrow>
     js_attempts j < js_limit j \<and>
     ((case js_phase j of Waiting None \<Rightarrow> True | Waiting (Some t) \<Rightarrow> t \<le> now | _ \<Rightarrow> False) \<or>
      lease_over now (js_phase j))"

definition job_spent :: "time \<Rightarrow> job_state \<Rightarrow> bool" where
  "job_spent now j \<longleftrightarrow> js_limit j \<le> js_attempts j \<and> lease_over now (js_phase j)"

definition job_ended :: "job_state \<Rightarrow> bool" where
  "job_ended j \<longleftrightarrow> js_phase j \<in> {Finished, Dead}"

definition held_by :: "ident \<Rightarrow> string \<Rightarrow> time \<Rightarrow> job_state \<Rightarrow> bool" where
  "held_by owner token now j \<longleftrightarrow>
     (\<exists>e. js_phase j = Leased (Some owner) (Some token) (Some e) \<and> now < e)"

datatype queue_event =
    Enqueued ident
  | Given_Up ident
  | Granted ident ident string time time
  | Succeeded ident ident string time
  | Failed ident ident string time
  | Requeued ident

inductive queue_step :: "job_queue \<Rightarrow> queue_event \<Rightarrow> job_queue \<Rightarrow> bool" where
  enqueue: "q k = None \<Longrightarrow> js_phase j = Waiting None \<Longrightarrow> js_attempts j = 0 \<Longrightarrow> 0 < js_limit j \<Longrightarrow>
    queue_step q (Enqueued k) (q(k \<mapsto> j))"
| give_up: "q k = Some j \<Longrightarrow> job_spent now j \<Longrightarrow>
    queue_step q (Given_Up k) (q(k \<mapsto> j\<lparr>js_phase := Dead\<rparr>))"
| grant: "q k = Some j \<Longrightarrow> job_due now j \<Longrightarrow>
    queue_step q (Granted k owner token now until)
      (q(k \<mapsto> j\<lparr>js_phase := Leased (Some owner) (Some token) (Some until),
              js_attempts := js_attempts j + 1\<rparr>))"
| succeed: "q k = Some j \<Longrightarrow> held_by owner token now j \<Longrightarrow>
    queue_step q (Succeeded k owner token now) (q(k \<mapsto> j\<lparr>js_phase := Finished\<rparr>))"
| fail: "q k = Some j \<Longrightarrow> held_by owner token now j \<Longrightarrow>
    queue_step q (Failed k owner token now)
      (q(k \<mapsto> j\<lparr>js_phase := (if js_limit j \<le> js_attempts j then Dead else Waiting (Some retry_at))\<rparr>))"
| requeue: "q k = Some j \<Longrightarrow>
    queue_step q (Requeued k) (q(k \<mapsto> j\<lparr>js_phase := Waiting None, js_attempts := 0\<rparr>))"

inductive queue_run :: "job_queue \<Rightarrow> queue_event list \<Rightarrow> job_queue \<Rightarrow> bool" where
  nil: "queue_run q [] q"
| cons: "queue_step q e q' \<Longrightarrow> queue_run q' es q'' \<Longrightarrow> queue_run q (e # es) q''"

inductive_simps queue_run_Nil [simp]: "queue_run q [] q'"
inductive_simps queue_run_Cons: "queue_run q (e # es) q'"
inductive_cases queue_stepE: "queue_step q e q'"

lemma queue_run_append: "queue_run q (es @ fs) q'' \<longleftrightarrow> (\<exists>q'. queue_run q es q' \<and> queue_run q' fs q'')"
  by (induction es arbitrary: q) (auto simp: queue_run_Cons)

lemma queue_run_snoc:
  "queue_run q es q' \<Longrightarrow> queue_step q' e q'' \<Longrightarrow> queue_run q (es @ [e]) q''"
  by (auto simp: queue_run_append queue_run_Cons)

subsection \<open>Its consequences\<close>

fun event_key :: "queue_event \<Rightarrow> ident" where
  "event_key (Enqueued k) = k"
| "event_key (Given_Up k) = k"
| "event_key (Granted k _ _ _ _) = k"
| "event_key (Succeeded k _ _ _) = k"
| "event_key (Failed k _ _ _) = k"
| "event_key (Requeued k) = k"

fun is_grant :: "ident \<Rightarrow> queue_event \<Rightarrow> bool" where
  "is_grant k (Granted k' _ _ _ _) = (k' = k)"
| "is_grant k _ = False"

definition grants_of :: "ident \<Rightarrow> queue_event list \<Rightarrow> nat" where
  "grants_of k es = length (filter (is_grant k) es)"

lemma grants_of_simps [simp]:
  "grants_of k [] = 0"
  "grants_of k (e # es) = (if is_grant k e then 1 else 0) + grants_of k es"
  "grants_of k (es @ fs) = grants_of k es + grants_of k fs"
  by (simp_all add: grants_of_def)

lemma queue_step_frame: "queue_step q e q' \<Longrightarrow> event_key e \<noteq> k \<Longrightarrow> q' k = q k"
  by (auto elim: queue_stepE)

text \<open>The attempts never exceed the limit, which never changes.\<close>

definition queue_bounded :: "job_queue \<Rightarrow> bool" where
  "queue_bounded q \<longleftrightarrow> (\<forall>k j. q k = Some j \<longrightarrow> js_attempts j \<le> js_limit j)"

lemma queue_step_bounded: "queue_step q e q' \<Longrightarrow> queue_bounded q \<Longrightarrow> queue_bounded q'"
  by (erule queue_stepE) (auto simp: queue_bounded_def job_due_def)

lemma queue_run_bounded: "queue_run q es q' \<Longrightarrow> queue_bounded q \<Longrightarrow> queue_bounded q'"
  by (induction rule: queue_run.induct) (auto dest: queue_step_bounded)

lemma queue_step_limit: "queue_step q e q' \<Longrightarrow> q k = Some j \<Longrightarrow> \<exists>j'. q' k = Some j' \<and> js_limit j' = js_limit j"
  by (erule queue_stepE) auto

text \<open>Every grant uses one attempt, and only a requeue gives attempts back.\<close>

lemma queue_step_attempts:
  assumes "queue_step q e q'" "q k = Some j" "e \<noteq> Requeued k"
  shows "\<exists>j'. q' k = Some j' \<and> js_limit j' = js_limit j \<and>
    js_attempts j' = js_attempts j + (if is_grant k e then 1 else 0)"
  using assms by (cases rule: queue_step.cases) auto

lemma grants_use_attempts:
  assumes "queue_run q es q'" "q k = Some j" "Requeued k \<notin> set es"
  shows "\<exists>j'. q' k = Some j' \<and> js_limit j' = js_limit j \<and> js_attempts j' = js_attempts j + grants_of k es"
  using assms
proof (induction arbitrary: j rule: queue_run.induct)
  case (nil q)
  then show ?case by simp
next
  case (cons q e q' es q'')
  then have "e \<noteq> Requeued k" by auto
  with queue_step_attempts[OF cons.hyps(1)] cons.prems(1) obtain j' where
    j': "q' k = Some j'" "js_limit j' = js_limit j"
    "js_attempts j' = js_attempts j + (if is_grant k e then 1 else 0)"
    by meson
  from cons.IH[OF j'(1)] cons.prems(2) j' show ?case by fastforce
qed

lemma grants_bounded:
  assumes r: "queue_run q es q'" and k: "q k = Some j" and n: "Requeued k \<notin> set es" and b: "queue_bounded q"
  shows "js_attempts j + grants_of k es \<le> js_limit j"
proof -
  obtain j' where "q' k = Some j'" "js_limit j' = js_limit j" "js_attempts j' = js_attempts j + grants_of k es"
    using grants_use_attempts[OF r k n] by blast
  moreover from this(1) have "js_attempts j' \<le> js_limit j'"
    using queue_run_bounded[OF r b] by (auto simp: queue_bounded_def)
  ultimately show ?thesis by simp
qed

text \<open>An ended job stays as it is.\<close>

lemma ended_step:
  assumes "queue_step q e q'" "q k = Some j" "job_ended j" "e \<noteq> Requeued k"
  shows "q' k = Some j \<and> \<not> is_grant k e"
  using assms
  by (cases rule: queue_step.cases)
    (auto simp: job_ended_def job_spent_def job_due_def held_by_def lease_over_def)

lemma ended_final:
  assumes "queue_run q es q'" "q k = Some j" "job_ended j" "Requeued k \<notin> set es"
  shows "q' k = Some j \<and> grants_of k es = 0"
  using assms by (induction rule: queue_run.induct) (auto dest: ended_step)

text \<open>
  Fencing: as long as a lease is not granted anew, the job is in the hands of its holder, waits after
  the holder failed, or has ended; so only the latest holder can end it, and only before its lease
  runs out.
\<close>

lemma lease_step:
  assumes st: "queue_step q e q'" and k: "q k = Some j" "js_phase j = Leased (Some owner) (Some token) (Some until)"
    and no: "\<not> is_grant k e" "e \<noteq> Requeued k"
  shows "\<exists>j'. q' k = Some j' \<and> (js_phase j' = js_phase j \<or> job_ended j' \<or>
    (\<exists>now t. e = Failed k owner token now \<and> js_phase j' = Waiting (Some t)))"
proof (cases "event_key e = k")
  case False
  with queue_step_frame[OF st] k show ?thesis by simp
next
  case True
  from st True k no show ?thesis
    by (cases rule: queue_step.cases) (auto simp: job_ended_def held_by_def)
qed

lemma lease_kept:
  assumes "queue_run q es q'" "grants_of k es = 0" "Requeued k \<notin> set es"
    "q k = Some j" "js_phase j = Leased (Some owner) (Some token) (Some until)"
  shows "\<exists>j'. q' k = Some j' \<and>
    (js_phase j' = js_phase j \<or> job_ended j' \<or>
     (\<exists>now t. Failed k owner token now \<in> set es \<and> js_phase j' = Waiting (Some t)))"
  using assms
proof (induction arbitrary: j rule: queue_run.induct)
  case (nil q)
  then show ?case by auto
next
  case (cons q e q' es q'')
  note st = cons.hyps(1)
  have no: "\<not> is_grant k e" "e \<noteq> Requeued k" "grants_of k es = 0" "Requeued k \<notin> set es"
    using cons.prems(1,2) by (auto split: if_splits)
  have waits: "\<exists>j'. q'' k = Some j' \<and> js_phase j' = Waiting (Some t)"
    if "queue_run q' es q''" "q' k = Some j'" "js_phase j' = Waiting (Some t)" for j' t
    using that no(3,4)
  proof (induction arbitrary: j' rule: queue_run.induct)
    case (cons p f p' fs p'')
    from cons.hyps(1) have "\<exists>i. p' k = Some i \<and> js_phase i = Waiting (Some t)"
      using cons.prems by (cases rule: queue_step.cases)
        (auto simp: job_spent_def held_by_def lease_over_def split: if_splits)
    with cons show ?case by (auto split: if_splits)
  qed simp
  consider (same) j' where "q' k = Some j'" "js_phase j' = js_phase j"
    | (ended) j' where "q' k = Some j'" "job_ended j'"
    | (failed) now j' t where "e = Failed k owner token now" "q' k = Some j'" "js_phase j' = Waiting (Some t)"
    using lease_step[OF st cons.prems(3,4) no(1,2)] by blast
  then show ?case
  proof cases
    case same
    with cons.IH[OF no(3,4) same(1)] cons.prems(4) show ?thesis by auto
  next
    case ended
    with ended_final[OF cons.hyps(2) ended no(4)] show ?thesis by auto
  next
    case failed
    with waits[OF cons.hyps(2) failed(2,3)] show ?thesis by auto
  qed
qed

lemma ends_by_holder:
  assumes r: "queue_run q (es @ Granted k owner token at until # fs @ [e]) q'"
    and e: "e = Succeeded k owner' token' now \<or> e = Failed k owner' token' now"
    and no: "grants_of k fs = 0" "Requeued k \<notin> set fs"
  shows "owner' = owner \<and> token' = token \<and> now < until"
proof -
  obtain q1 q2 where r: "queue_step q1 (Granted k owner token at until) q2" "queue_run q2 (fs @ [e]) q'"
    using r by (auto simp: queue_run_append queue_run_Cons)
  then obtain j where j: "q2 k = Some j" "js_phase j = Leased (Some owner) (Some token) (Some until)"
    by (auto elim: queue_stepE)
  obtain q3 where q3: "queue_run q2 fs q3" "queue_step q3 e q'"
    using r(2) by (auto simp: queue_run_append queue_run_Cons)
  obtain j' where j': "q3 k = Some j'" and c: "js_phase j' = js_phase j \<or> job_ended j' \<or>
     (\<exists>now t. Failed k owner token now \<in> set fs \<and> js_phase j' = Waiting (Some t))"
    using lease_kept[OF q3(1) no j] by blast
  have "held_by owner' token' now j'" using q3(2) e j' by (auto elim: queue_stepE)
  with c j(2) show ?thesis by (auto simp: held_by_def job_ended_def)
qed

subsection \<open>Jobs kept in a table\<close>

text \<open>Both components keep their jobs in a dictionary; the steps of the queue are writes to it.\<close>

definition table_queue :: "('v \<Rightarrow> job_state) \<Rightarrow> (ident, 'v) dict \<Rightarrow> job_queue" where
  "table_queue f d i = map_option f (dget d i)"

lemma table_queue_put: "table_queue f (dput i v d) = (table_queue f d)(i \<mapsto> f v)"
  by (rule ext) (simp add: table_queue_def)

lemma table_queue_Some: "dget d i = Some v \<Longrightarrow> table_queue f d i = Some (f v)"
  by (simp add: table_queue_def)

lemma table_queue_same: "dget d i = Some v \<Longrightarrow> f v' = f v \<Longrightarrow> table_queue f (dput i v' d) = table_queue f d"
  by (rule ext) (simp add: table_queue_def)

lemma table_enqueue:
  assumes "dget d i = None" "js_phase (f v) = Waiting None" "js_attempts (f v) = 0" "0 < js_limit (f v)"
  shows "queue_step (table_queue f d) (Enqueued i) (table_queue f (dput i v d))"
  unfolding table_queue_put by (rule queue_step.enqueue) (use assms in \<open>simp_all add: table_queue_def\<close>)

lemma table_give_up:
  assumes "dget d i = Some v" "job_spent now (f v)" "f v' = (f v)\<lparr>js_phase := Dead\<rparr>"
  shows "queue_step (table_queue f d) (Given_Up i) (table_queue f (dput i v' d))"
  unfolding table_queue_put assms(3) by (rule queue_step.give_up) (use assms in \<open>simp_all add: table_queue_def\<close>)

lemma table_grant:
  assumes "dget d i = Some v" "job_due now (f v)"
    "f v' = (f v)\<lparr>js_phase := Leased (Some owner) (Some token) (Some until), js_attempts := js_attempts (f v) + 1\<rparr>"
  shows "queue_step (table_queue f d) (Granted i owner token now until) (table_queue f (dput i v' d))"
  unfolding table_queue_put assms(3) by (rule queue_step.grant) (use assms in \<open>simp_all add: table_queue_def\<close>)

lemma table_succeed:
  assumes "dget d i = Some v" "held_by owner token now (f v)" "f v' = (f v)\<lparr>js_phase := Finished\<rparr>"
  shows "queue_step (table_queue f d) (Succeeded i owner token now) (table_queue f (dput i v' d))"
  unfolding table_queue_put assms(3) by (rule queue_step.succeed) (use assms in \<open>simp_all add: table_queue_def\<close>)

lemma table_fail:
  assumes "dget d i = Some v" "held_by owner token now (f v)"
    "f v' = (f v)\<lparr>js_phase := (if js_limit (f v) \<le> js_attempts (f v) then Dead else Waiting (Some retry_at))\<rparr>"
  shows "queue_step (table_queue f d) (Failed i owner token now) (table_queue f (dput i v' d))"
  unfolding table_queue_put assms(3) by (rule queue_step.fail) (use assms in \<open>simp_all add: table_queue_def\<close>)

lemma table_requeue:
  assumes "dget d i = Some v" "f v' = (f v)\<lparr>js_phase := Waiting None, js_attempts := 0\<rparr>"
  shows "queue_step (table_queue f d) (Requeued i) (table_queue f (dput i v' d))"
  unfolding table_queue_put assms(2) by (rule queue_step.requeue) (use assms in \<open>simp_all add: table_queue_def\<close>)

text \<open>The sweep that gives up several jobs at once.\<close>

lemma table_give_up_all:
  assumes "\<And>v. v \<in> set vs \<Longrightarrow> dget d (key v) = Some v \<and> job_spent now (f v)" "distinct (map key vs)"
    and g: "\<And>v. key (g v) = key v" "\<And>v. f (g v) = (f v)\<lparr>js_phase := Dead\<rparr>"
  shows "queue_run (table_queue f d) (map (Given_Up \<circ> key) vs) (table_queue f (put_all key (map g vs) d))"
  using assms(1,2)
proof (induction vs arbitrary: d)
  case (Cons v vs)
  let ?d = "dput (key v) (g v) d"
  have "queue_step (table_queue f d) (Given_Up (key v)) (table_queue f ?d)"
    by (rule table_give_up) (use Cons.prems(1)[of v] g in auto)
  moreover have "queue_run (table_queue f ?d) (map (Given_Up \<circ> key) vs) (table_queue f (put_all key (map g vs) ?d))"
  proof (rule Cons.IH)
    fix x assume x: "x \<in> set vs"
    then have "key x \<noteq> key v" using Cons.prems(2) by (metis distinct.simps(2) image_eqI list.set_map list.simps(9))
    with x Cons.prems(1)[of x] show "dget ?d (key x) = Some x \<and> job_spent now (f x)" by simp
  qed (use Cons.prems(2) in simp)
  ultimately have "queue_run (table_queue f d) (Given_Up (key v) # map (Given_Up \<circ> key) vs)
      (table_queue f (put_all key (map g vs) ?d))"
    by (rule queue_run.cons)
  then show ?case using g(1) by (simp add: comp_def)
qed simp

subsection \<open>Components that refine it\<close>

text \<open>
  A component with its steps, each of which shows a list of events; its histories; and the locale that
  carries the consequences over.
\<close>

inductive history :: "('s \<Rightarrow> queue_event list \<Rightarrow> 's \<Rightarrow> bool) \<Rightarrow> 's \<Rightarrow> queue_event list \<Rightarrow> 's \<Rightarrow> bool"
  for step where
  nil: "history step s [] s"
| cons: "step s es s' \<Longrightarrow> history step s' fs s'' \<Longrightarrow> history step s (es @ fs) s''"

lemma history_one: "step s es s' \<Longrightarrow> history step s es s'"
  using history.cons[of step s es s' "[]" s'] by (simp add: history.nil)

lemma history_two: "step s es s' \<Longrightarrow> step s' fs s'' \<Longrightarrow> history step s (es @ fs) s''"
  by (rule history.cons[of step s es s' fs s'']) (simp_all add: history_one)

locale retry_queue =
  fixes abs :: "'s \<Rightarrow> job_queue"
    and step :: "'s \<Rightarrow> queue_event list \<Rightarrow> 's \<Rightarrow> bool"
    and consistent :: "'s \<Rightarrow> bool"
  assumes step_consistent: "consistent s \<Longrightarrow> step s es s' \<Longrightarrow> consistent s'"
    and step_refines: "consistent s \<Longrightarrow> step s es s' \<Longrightarrow> queue_run (abs s) es (abs s')"
    and within_limits: "consistent s \<Longrightarrow> queue_bounded (abs s)"
begin

lemma history_refines:
  "history step s es s' \<Longrightarrow> consistent s \<Longrightarrow> consistent s' \<and> queue_run (abs s) es (abs s')"
  by (induction rule: history.induct)
    (auto simp: queue_run_append dest: step_consistent step_refines)

lemma history_grants_bounded:
  assumes "history step s es s'" "consistent s" "abs s k = Some j" "Requeued k \<notin> set es"
  shows "js_attempts j + grants_of k es \<le> js_limit j"
  using assms history_refines grants_bounded within_limits by meson

lemma history_ended_final:
  assumes "history step s es s'" "consistent s" "abs s k = Some j" "job_ended j" "Requeued k \<notin> set es"
  shows "abs s' k = Some j \<and> grants_of k es = 0"
  using assms history_refines ended_final by meson

lemma history_ends_by_holder:
  assumes "history step s (es @ Granted k owner token at until # fs @ [e]) s'" "consistent s"
    "e = Succeeded k owner' token' now \<or> e = Failed k owner' token' now"
    "grants_of k fs = 0" "Requeued k \<notin> set fs"
  shows "owner' = owner \<and> token' = token \<and> now < until"
  by (rule ends_by_holder[OF conjunct2[OF history_refines[OF assms(1,2)]] assms(3-5)])

end

end
