(* ===== verification/Formation_Jobs.thy ===== *)
theory Formation_Jobs
  imports Retry_Queue Knowledge_Sanitizer
begin

text \<open>
  The in-memory repository of memory formation, \<open>MemoryFormationTurnJobRepository\<close> of
  \<open>app/repositories/memory_formation.py\<close>, with the turn capsules and jobs of
  \<open>app/schemas/memory.py\<close>. Turns of a session are collected; a window of pending turns, or the idle
  time of the session, freezes a range of them as a job; workers claim jobs under leases; a
  watermark tells up to which turn a session has been formed. Every method holds the lock of the
  repository from its first read to its last write, so it is one step.
\<close>

subsection \<open>Turn capsules and jobs\<close>

datatype formation_trigger =
  Turn_Window | Idle_Session | Structured_Event | Manual_Trigger | Sweeper | Consolidation

datatype formation_mode = Mode_Off | Mode_Observe | Mode_Enforced

datatype formation_job_status =
  Job_Pending | Job_Claimed | Job_Retry | Job_Completed | Job_Dead_Letter | Job_Skipped

datatype formation_turn_status = Capsule_Pending | Capsule_Claimed | Capsule_Formed | Capsule_Skipped

record formation_turn =
  ft_id :: ident
  ft_request :: ident
  ft_session :: ident
  ft_run :: "ident option"
  ft_user :: ident
  ft_tenant :: ident
  ft_agent :: "ident option"
  ft_user_text :: string
  ft_assistant_text :: string
  ft_result_status :: string
  ft_results :: "ident list"
  ft_plans :: "ident list"
  ft_artifacts :: "ident list"
  ft_memories :: "ident list"
  ft_deadline :: "time option"
  ft_status :: formation_turn_status
  ft_job :: "ident option"
  ft_completed :: time
  ft_created :: time

record formation_job =
  fj_id :: ident
  fj_trigger :: formation_trigger
  fj_status :: formation_job_status
  fj_mode :: formation_mode
  fj_tenant :: ident
  fj_user :: ident
  fj_session :: "ident option"
  fj_first :: "ident option"
  fj_last :: "ident option"
  fj_sources :: "ident list"
  fj_key :: string
  fj_model :: string
  fj_prompt :: string
  fj_policy :: string
  fj_attempts :: nat
  fj_limit :: nat
  fj_owner :: "ident option"
  fj_token :: "string option"
  fj_expires :: "time option"
  fj_next :: "time option"
  fj_error :: "string option"
  fj_trace :: "(string, json) dict"
  fj_created :: time
  fj_updated :: time

text \<open>The identity of a session, and the state of the repository.\<close>

type_synonym session_key = "ident \<times> ident \<times> ident"

record formation_store =
  fo_turns :: "(ident, formation_turn) dict"
  fo_jobs :: "(ident, formation_job) dict"
  fo_keys :: "(string, ident) dict"
  fo_marks :: "(session_key, ident) dict"

definition empty_formation_store :: formation_store where
  "empty_formation_store = \<lparr>fo_turns = [], fo_jobs = [], fo_keys = [], fo_marks = []\<rparr>"

definition session_of :: "formation_turn \<Rightarrow> session_key" where
  "session_of t = (ft_tenant t, ft_user t, ft_session t)"

definition formation_pending :: "formation_turn \<Rightarrow> bool" where
  "formation_pending t \<longleftrightarrow> ft_status t = Capsule_Pending \<and> ft_job t = None"

definition turn_order :: "formation_turn \<Rightarrow> time \<times> ident" where
  "turn_order t = (ft_completed t, ft_id t)"

subsection \<open>Identity checks\<close>

definition same_capsule :: "formation_turn \<Rightarrow> formation_turn \<Rightarrow> bool" where
  "same_capsule a b \<longleftrightarrow> ft_id a = ft_id b \<and> ft_request a = ft_request b \<and> session_of a = session_of b"

definition same_job :: "formation_job \<Rightarrow> formation_job \<Rightarrow> bool" where
  "same_job a b \<longleftrightarrow>
     fj_trigger a = fj_trigger b \<and> fj_tenant a = fj_tenant b \<and> fj_user a = fj_user b \<and>
     fj_session a = fj_session b \<and> fj_sources a = fj_sources b \<and> fj_key a = fj_key b \<and>
     fj_model a = fj_model b \<and> fj_prompt a = fj_prompt b \<and> fj_policy a = fj_policy b"

definition same_command :: "formation_job \<Rightarrow> formation_job \<Rightarrow> bool" where
  "same_command a b = py_eq (jget (fj_trace a) ''command'') (jget (fj_trace b) ''command'')"

text \<open>\<open>_validate_job_identity\<close>\<close>

definition validate_job_identity :: "formation_job \<Rightarrow> formation_job \<Rightarrow> py_exn + unit" where
  "validate_job_identity old new =
     (if \<not> same_job old new then Inl (Value_Error ''Formation job identity conflict'')
      else if \<not> same_command old new then Inl (Value_Error ''Formation job command conflict'')
      else Inr ())"

subsection \<open>Jobs over a range of turns\<close>

text \<open>
  What the two methods that freeze a range take from the settings; \<open>rc_hash\<close> is the hexadecimal
  SHA-256 digest.
\<close>

record range_config =
  rc_hash :: "string \<Rightarrow> string"
  rc_mode :: formation_mode
  rc_model :: string
  rc_prompt :: string
  rc_policy :: string
  rc_limit :: nat

definition range_key :: "(string \<Rightarrow> string) \<Rightarrow> session_key \<Rightarrow> ident \<Rightarrow> ident \<Rightarrow> string \<Rightarrow> string" where
  "range_key hash sk first final policy =
     (case sk of (tenant, user, session) \<Rightarrow>
        ''formation-range:'' @ hash (join_us [tenant, user, session, first, final, policy]))"

definition ref_ok :: "ident \<Rightarrow> bool" where
  "ref_ok i \<longleftrightarrow> i \<noteq> [] \<and> length i \<le> 128"

definition job_valid :: "formation_job \<Rightarrow> bool" where
  "job_valid j \<longleftrightarrow>
     fj_tenant j \<noteq> [] \<and> fj_user j \<noteq> [] \<and> fj_key j \<noteq> [] \<and> fj_model j \<noteq> [] \<and> fj_prompt j \<noteq> [] \<and>
     fj_policy j \<noteq> [] \<and> 1 \<le> fj_limit j \<and> length (fj_sources j) \<le> 100 \<and> list_all ref_ok (fj_sources j)"

text \<open>The job over a non-empty range of turns of one session; both times come from the clock.\<close>

definition range_job ::
    "range_config \<Rightarrow> ident \<Rightarrow> time \<Rightarrow> formation_trigger \<Rightarrow> session_key \<Rightarrow> formation_turn list \<Rightarrow> formation_job" where
  "range_job cfg fresh now trigger sk ts =
     (let first = ft_id (hd ts); final = ft_id (List.last ts)
      in \<lparr>fj_id = fresh, fj_trigger = trigger, fj_status = Job_Pending, fj_mode = rc_mode cfg,
          fj_tenant = fst sk, fj_user = fst (snd sk), fj_session = Some (snd (snd sk)),
          fj_first = Some first, fj_last = Some final, fj_sources = map ft_id ts,
          fj_key = range_key (rc_hash cfg) sk first final (rc_policy cfg),
          fj_model = rc_model cfg, fj_prompt = rc_prompt cfg, fj_policy = rc_policy cfg,
          fj_attempts = 0, fj_limit = rc_limit cfg, fj_owner = None, fj_token = None,
          fj_expires = None, fj_next = None, fj_error = None, fj_trace = [],
          fj_created = now, fj_updated = now\<rparr>)"

definition build_range_job ::
    "range_config \<Rightarrow> ident \<Rightarrow> time \<Rightarrow> formation_trigger \<Rightarrow> formation_turn list \<Rightarrow> py_exn + formation_job" where
  "build_range_job cfg fresh now trigger ts =
     (if ts = [] then Inl (Runtime_Error ''IndexError'')
      else
        let j = range_job cfg fresh now trigger (session_of (hd ts)) ts
        in if job_valid j then Inr j else Inl (Value_Error ''MemoryFormationJob''))"

subsection \<open>Collecting turns\<close>

text \<open>The lookup of \<open>append_turn\<close>: by identifier, else by request within the session.\<close>

definition find_capsule :: "formation_turn \<Rightarrow> formation_store \<Rightarrow> formation_turn option" where
  "find_capsule t s =
     (case dget (fo_turns s) (ft_id t) of
        Some x \<Rightarrow> Some x
      | None \<Rightarrow> find (\<lambda>x. ft_request x = ft_request t \<and> session_of x = session_of t) (dvalues (fo_turns s)))"

definition append_turn ::
    "formation_turn \<Rightarrow> formation_store \<Rightarrow> (py_exn + formation_turn) \<times> formation_store" where
  "append_turn t s =
     (case find_capsule t s of
        Some x \<Rightarrow>
          (if same_capsule x t then Inr x else Inl (Value_Error ''Formation turn identity conflict''), s)
      | None \<Rightarrow> (Inr t, s\<lparr>fo_turns := dput (ft_id t) t (fo_turns s)\<rparr>))"

definition pending_of :: "session_key \<Rightarrow> formation_store \<Rightarrow> formation_turn list" where
  "pending_of sk s =
     sort_key turn_order (filter (\<lambda>t. session_of t = sk \<and> formation_pending t) (dvalues (fo_turns s)))"

definition list_turns_by_ids :: "ident list \<Rightarrow> ident \<Rightarrow> ident \<Rightarrow> formation_store \<Rightarrow> formation_turn list" where
  "list_turns_by_ids ids tenant user s =
     List.map_filter (\<lambda>i. case dget (fo_turns s) i of
         None \<Rightarrow> None
       | Some t \<Rightarrow> if ft_tenant t \<noteq> tenant \<or> ft_user t \<noteq> user then None else Some t) ids"

definition effective_deadline :: "formation_turn \<Rightarrow> formation_store \<Rightarrow> time option" where
  "effective_deadline t s =
     (let ds = List.map_filter ft_deadline
                 (filter (\<lambda>p. session_of p = session_of t \<and> formation_pending p) (dvalues (fo_turns s)))
      in if ds = [] then ft_deadline t else Some (Max (set ds)))"

definition extend_deadlines :: "formation_turn \<Rightarrow> formation_store \<Rightarrow> formation_store" where
  "extend_deadlines t s =
     s\<lparr>fo_turns := put_all ft_id
        (map (\<lambda>p. p\<lparr>ft_deadline := effective_deadline t s\<rparr>)
           (filter (\<lambda>p. session_of p = session_of t \<and> formation_pending p) (dvalues (fo_turns s))))
        (fo_turns s)\<rparr>"

definition claim_turns :: "ident \<Rightarrow> formation_turn list \<Rightarrow> formation_store \<Rightarrow> formation_store" where
  "claim_turns job ts s =
     s\<lparr>fo_turns := put_all ft_id
        (map (\<lambda>t. t\<lparr>ft_status := Capsule_Claimed, ft_job := Some job\<rparr>) ts) (fo_turns s)\<rparr>"

definition store_job :: "formation_job \<Rightarrow> formation_store \<Rightarrow> formation_store" where
  "store_job j s =
     s\<lparr>fo_jobs := dput (fj_id j) j (fo_jobs s), fo_keys := dput (fj_key j) (fj_id j) (fo_keys s)\<rparr>"

text \<open>
  \<open>append_turn_and_maybe_create_window_job\<close>. The turn is stored before the job is built, so an
  exception of the latter leaves the turn. The turn that is returned is the one before its deadline
  and status were updated.
\<close>

definition append_window ::
    "range_config \<Rightarrow> ident \<Rightarrow> time \<Rightarrow> nat \<Rightarrow> formation_turn \<Rightarrow> formation_store \<Rightarrow>
     (py_exn + formation_turn \<times> formation_job option) \<times> formation_store" where
  "append_window cfg fresh now window t s =
     (case find_capsule t s of
        Some x \<Rightarrow>
          (if same_capsule x t then Inr (x, None)
           else Inl (Value_Error ''Formation turn identity conflict''), s)
      | None \<Rightarrow>
          let s1 = extend_deadlines t (s\<lparr>fo_turns := dput (ft_id t) t (fo_turns s)\<rparr>);
              pending = pending_of (session_of t) s1;
              frozen = take window pending
          in if length pending < window then (Inr (t, None), s1)
             else (case build_range_job cfg fresh now Turn_Window frozen of
               Inl x \<Rightarrow> (Inl x, s1)
             | Inr j \<Rightarrow>
                 (case dget (fo_keys s1) (fj_key j) of
                    None \<Rightarrow> (Inr (t, Some j), claim_turns (fj_id j) frozen (store_job j s1))
                  | Some i \<Rightarrow>
                      (case dget (fo_jobs s1) i of
                         None \<Rightarrow> (Inl (Runtime_Error ''KeyError''), s1)
                       | Some old \<Rightarrow> (Inr (t, Some old), claim_turns (fj_id old) frozen s1)))))"

text \<open>\<open>create_job_for_pending\<close>, with the bound on the turns and the idle time as options.\<close>

definition create_job ::
    "range_config \<Rightarrow> ident \<Rightarrow> time \<Rightarrow> formation_trigger \<Rightarrow> session_key \<Rightarrow> nat option \<Rightarrow> time option \<Rightarrow>
     formation_store \<Rightarrow> (py_exn + formation_job option) \<times> formation_store" where
  "create_job cfg fresh now trigger sk max_turns idle_due s =
     (let pending = pending_of sk s;
          ts = (case max_turns of None \<Rightarrow> pending | Some n \<Rightarrow> take n pending)
      in if ts = [] then (Inr None, s)
         else if idle_due \<noteq> None \<and>
                 list_ex (\<lambda>t. case ft_deadline t of None \<Rightarrow> True | Some d \<Rightarrow> the idle_due < d) ts
         then (Inr None, s)
         else
           let j = range_job cfg fresh now trigger sk ts
           in case dget (fo_keys s) (fj_key j) of
                Some i \<Rightarrow>
                  (case dget (fo_jobs s) i of
                     None \<Rightarrow> (Inl (Runtime_Error ''KeyError''), s)
                   | Some old \<Rightarrow> (Inr (Some old), s))
              | None \<Rightarrow>
                  if \<not> job_valid j then (Inl (Value_Error ''MemoryFormationJob''), s)
                  else (Inr (Some j), claim_turns fresh ts (store_job j s)))"

definition add_job ::
    "formation_job \<Rightarrow> formation_store \<Rightarrow> (py_exn + formation_job) \<times> formation_store" where
  "add_job j s =
     (case dget (fo_keys s) (fj_key j) of
        Some i \<Rightarrow>
          (case dget (fo_jobs s) i of
             None \<Rightarrow> (Inl (Runtime_Error ''KeyError''), s)
           | Some old \<Rightarrow> (ebind (validate_job_identity old j) (\<lambda>_. Inr old), s))
      | None \<Rightarrow>
          (case dget (fo_jobs s) (fj_id j) of
             Some old \<Rightarrow> (ebind (validate_job_identity old j) (\<lambda>_. Inr old), s)
           | None \<Rightarrow> (Inr j, store_job j s)))"

subsection \<open>Working on jobs\<close>

definition no_lease :: "formation_job \<Rightarrow> formation_job" where
  "no_lease j = j\<lparr>fj_owner := None, fj_token := None, fj_expires := None\<rparr>"

definition job_expired :: "time \<Rightarrow> formation_job \<Rightarrow> bool" where
  "job_expired now j \<longleftrightarrow>
     fj_status j = Job_Claimed \<and> (case fj_expires j of None \<Rightarrow> False | Some e \<Rightarrow> e \<le> now)"

definition job_exhausted :: "time \<Rightarrow> formation_job \<Rightarrow> bool" where
  "job_exhausted now j \<longleftrightarrow> job_expired now j \<and> fj_limit j \<le> fj_attempts j"

definition dead_job :: "time \<Rightarrow> formation_job \<Rightarrow> formation_job" where
  "dead_job now j = (no_lease j)\<lparr>fj_status := Job_Dead_Letter,
     fj_error := Some ''lease_expired_attempts_exhausted'', fj_updated := now\<rparr>"

definition job_eligible :: "time \<Rightarrow> formation_job \<Rightarrow> bool" where
  "job_eligible now j \<longleftrightarrow>
     fj_attempts j < fj_limit j \<and>
     (fj_status j = Job_Pending \<or>
      fj_status j = Job_Retry \<and> (case fj_next j of None \<Rightarrow> True | Some t \<Rightarrow> t \<le> now) \<or>
      job_expired now j)"

definition claimed_job :: "ident \<Rightarrow> string \<Rightarrow> time \<Rightarrow> int \<Rightarrow> formation_job \<Rightarrow> formation_job" where
  "claimed_job owner token now lease j =
     j\<lparr>fj_status := Job_Claimed, fj_owner := Some owner, fj_token := Some token,
       fj_expires := Some (now + lease), fj_attempts := fj_attempts j + 1, fj_updated := now\<rparr>"

definition claim_job ::
    "ident \<Rightarrow> string \<Rightarrow> time \<Rightarrow> int \<Rightarrow> formation_store \<Rightarrow> formation_job option \<times> formation_store" where
  "claim_job owner token now lease s =
     (let s1 = s\<lparr>fo_jobs := put_all fj_id
                  (map (dead_job now) (filter (job_exhausted now) (dvalues (fo_jobs s)))) (fo_jobs s)\<rparr>;
          eligible = filter (job_eligible now) (dvalues (fo_jobs s1))
      in if eligible = [] then (None, s1)
         else
           let j = claimed_job owner token now lease
                     (arg_min_list (\<lambda>j. (fj_created j, fj_id j)) eligible)
           in (Some j, s1\<lparr>fo_jobs := dput (fj_id j) j (fo_jobs s1)\<rparr>))"

text \<open>\<open>_required_job\<close> and \<open>_validate_claim\<close>\<close>

definition held_job :: "ident \<Rightarrow> ident \<Rightarrow> string \<Rightarrow> time \<Rightarrow> formation_store \<Rightarrow> py_exn + formation_job" where
  "held_job i owner token now s =
     (case dget (fo_jobs s) i of
        None \<Rightarrow> Inl (Value_Error ''Formation job not found'')
      | Some j \<Rightarrow>
          if fj_status j \<noteq> Job_Claimed then Inl (Value_Error ''Formation job is not claimed'')
          else if fj_owner j \<noteq> Some owner \<or> fj_token j \<noteq> Some token
          then Inl (Value_Error ''Formation job lease ownership changed'')
          else if (case fj_expires j of None \<Rightarrow> True | Some e \<Rightarrow> e \<le> now)
          then Inl (Value_Error ''Formation job lease expired'')
          else Inr j)"

definition turns_of_session :: "session_key \<Rightarrow> formation_store \<Rightarrow> formation_turn list" where
  "turns_of_session sk s = sort_key turn_order (filter (\<lambda>t. session_of t = sk) (dvalues (fo_turns s)))"

definition turn_formed :: "formation_turn \<Rightarrow> bool" where
  "turn_formed t \<longleftrightarrow> ft_status t \<in> {Capsule_Formed, Capsule_Skipped}"

text \<open>\<open>_advance_contiguous_watermark\<close>\<close>

definition advance_watermark :: "session_key \<Rightarrow> formation_store \<Rightarrow> formation_store" where
  "advance_watermark sk s =
     (let formed = takeWhile turn_formed (turns_of_session sk s)
      in if formed = [] then s else s\<lparr>fo_marks := dput sk (ft_id (List.last formed)) (fo_marks s)\<rparr>)"

definition form_turns :: "ident list \<Rightarrow> formation_store \<Rightarrow> formation_store" where
  "form_turns ids s =
     s\<lparr>fo_turns := fold (\<lambda>i d. case dget d i of None \<Rightarrow> d
                              | Some t \<Rightarrow> dput i (t\<lparr>ft_status := Capsule_Formed\<rparr>) d) ids (fo_turns s)\<rparr>"

definition complete_job ::
    "ident \<Rightarrow> ident \<Rightarrow> string \<Rightarrow> time \<Rightarrow> (string, json) dict \<Rightarrow> formation_store \<Rightarrow>
     (py_exn + formation_job) \<times> formation_store" where
  "complete_job i owner token now summary s =
     (case held_job i owner token now s of
        Inl x \<Rightarrow> (Inl x, s)
      | Inr j \<Rightarrow>
          let done' = (no_lease j)\<lparr>fj_status := Job_Completed,
                        fj_trace := fold (\<lambda>(k, v). dput k v) summary (fj_trace j), fj_updated := now\<rparr>;
              s1 = form_turns (fj_sources j) (s\<lparr>fo_jobs := dput i done' (fo_jobs s)\<rparr>)
          in (Inr done', if str_set (fj_session j)
                         then advance_watermark (fj_tenant j, fj_user j, the (fj_session j)) s1 else s1))"

definition fail_job ::
    "ident \<Rightarrow> ident \<Rightarrow> string \<Rightarrow> time \<Rightarrow> string \<Rightarrow> time \<Rightarrow> formation_store \<Rightarrow>
     (py_exn + formation_job) \<times> formation_store" where
  "fail_job i owner token now code retry_at s =
     (case held_job i owner token now s of
        Inl x \<Rightarrow> (Inl x, s)
      | Inr j \<Rightarrow>
          let failed = (no_lease j)\<lparr>fj_status := (if fj_limit j \<le> fj_attempts j then Job_Dead_Letter
                                                   else Job_Retry),
                         fj_next := Some retry_at, fj_error := Some code, fj_updated := now\<rparr>
          in (Inr failed, s\<lparr>fo_jobs := dput i failed (fo_jobs s)\<rparr>))"

definition successful_watermark :: "session_key \<Rightarrow> formation_store \<Rightarrow> ident option" where
  "successful_watermark sk s = dget (fo_marks s) sk"

definition list_idle_sessions :: "time \<Rightarrow> nat \<Rightarrow> formation_store \<Rightarrow> session_key list" where
  "list_idle_sessions now limit s =
     (let deadlines = fold (\<lambda>t d.
            if \<not> formation_pending t then d
            else case ft_deadline t of
                   None \<Rightarrow> d
                 | Some e \<Rightarrow>
                     dput (session_of t)
                       (case dget d (session_of t) of None \<Rightarrow> e | Some x \<Rightarrow> max x e) d)
            (dvalues (fo_turns s)) []
      in take limit (sort (map fst (filter (\<lambda>(k, e). e \<le> now) deadlines))))"


subsection \<open>The repository refines the retrying queue\<close>

definition phase_of_job :: "formation_job \<Rightarrow> phase" where
  "phase_of_job j =
     (case fj_status j of
        Job_Pending \<Rightarrow> Waiting None
      | Job_Retry \<Rightarrow> Waiting (fj_next j)
      | Job_Claimed \<Rightarrow> Leased (fj_owner j) (fj_token j) (fj_expires j)
      | Job_Completed \<Rightarrow> Finished
      | Job_Skipped \<Rightarrow> Finished
      | Job_Dead_Letter \<Rightarrow> Dead)"

definition abs_job :: "formation_job \<Rightarrow> job_state" where
  "abs_job j = \<lparr>js_phase = phase_of_job j, js_attempts = fj_attempts j, js_limit = fj_limit j\<rparr>"

definition formation_abs :: "formation_store \<Rightarrow> job_queue" where
  "formation_abs s = table_queue abs_job (fo_jobs s)"

definition enqueued :: "ident \<Rightarrow> formation_store \<Rightarrow> formation_store \<Rightarrow> queue_event list" where
  "enqueued i s s' = (if dget (fo_jobs s') i = dget (fo_jobs s) i then [] else [Enqueued i])"

definition fresh_job :: "formation_job \<Rightarrow> bool" where
  "fresh_job j \<longleftrightarrow> fj_status j = Job_Pending \<and> fj_attempts j = 0 \<and> 1 \<le> fj_limit j"

definition is_range_key :: "string \<Rightarrow> bool" where
  "is_range_key k \<longleftrightarrow> take 16 k = ''formation-range:''"

definition plain :: "string \<Rightarrow> bool" where
  "plain s \<longleftrightarrow> unit_sep \<notin> set s"

definition plain_turn :: "formation_turn \<Rightarrow> bool" where
  "plain_turn t \<longleftrightarrow> plain (ft_id t) \<and> plain (ft_tenant t) \<and> plain (ft_user t) \<and> plain (ft_session t)"

text \<open>
  One rule per method that writes, with the events it shows. Job identifiers are fresh, new turns and
  jobs are in their initial state, identifiers are free of the separator of joined keys, and other
  jobs do not use the prefix of the keys of ranges.
\<close>

inductive formation_step ::
    "(string \<Rightarrow> string) \<Rightarrow> formation_store \<Rightarrow> queue_event list \<Rightarrow> formation_store \<Rightarrow> bool"
  for hash where
  append: "formation_pending t \<Longrightarrow> plain_turn t \<Longrightarrow> append_turn t s = (r, s') \<Longrightarrow> formation_step hash s [] s'"
| window: "formation_pending t \<Longrightarrow> plain_turn t \<Longrightarrow> rc_hash cfg = hash \<Longrightarrow> plain (rc_policy cfg) \<Longrightarrow>
    dget (fo_jobs s) fresh = None \<Longrightarrow> append_window cfg fresh now window t s = (r, s') \<Longrightarrow>
    formation_step hash s (enqueued fresh s s') s'"
| create: "rc_hash cfg = hash \<Longrightarrow> plain (rc_policy cfg) \<Longrightarrow> dget (fo_jobs s) fresh = None \<Longrightarrow>
    create_job cfg fresh now trigger sk max_turns idle_due s = (r, s') \<Longrightarrow>
    formation_step hash s (enqueued fresh s s') s'"
| add: "fresh_job j \<Longrightarrow> \<not> is_range_key (fj_key j) \<Longrightarrow> add_job j s = (r, s') \<Longrightarrow>
    formation_step hash s (enqueued (fj_id j) s s') s'"
| claim: "claim_job owner token now lease s = (r, s') \<Longrightarrow>
    formation_step hash s
      (map (Given_Up \<circ> fj_id) (filter (job_exhausted now) (dvalues (fo_jobs s))) @
       (case r of None \<Rightarrow> [] | Some j \<Rightarrow> [Granted (fj_id j) owner token now (now + lease)])) s'"
| complete: "complete_job i owner token now summary s = (Inr j, s') \<Longrightarrow>
    formation_step hash s [Succeeded i owner token now] s'"
| fail: "fail_job i owner token now code retry_at s = (Inr j, s') \<Longrightarrow>
    formation_step hash s [Failed i owner token now] s'"

text \<open>
  The invariant: turns and jobs are filed under their identifiers, the keys name the jobs that carry
  them, a turn is claimed by a job that names it as a source, and the turns of a range job name that
  job, so that the ranges are disjoint.
\<close>

definition range_of :: "(string \<Rightarrow> string) \<Rightarrow> formation_store \<Rightarrow> formation_job \<Rightarrow> bool" where
  "range_of hash s j \<longleftrightarrow>
     fj_sources j \<noteq> [] \<and> distinct (fj_sources j) \<and>
     (\<exists>sk policy.
        fj_key j = range_key hash sk (hd (fj_sources j)) (last (fj_sources j)) policy \<and>
        plain (fst sk) \<and> plain (fst (snd sk)) \<and> plain (snd (snd sk)) \<and> plain policy \<and>
        (\<forall>i\<in>set (fj_sources j). plain i \<and>
           (\<exists>t. dget (fo_turns s) i = Some t \<and> session_of t = sk \<and> ft_job t = Some (fj_id j))))"

definition turn_placed :: "formation_store \<Rightarrow> formation_turn \<Rightarrow> bool" where
  "turn_placed s t \<longleftrightarrow>
     (ft_status t = Capsule_Pending \<longrightarrow> ft_job t = None) \<and>
     (ft_status t = Capsule_Claimed \<longrightarrow> ft_job t \<noteq> None) \<and>
     (\<forall>i. ft_job t = Some i \<longrightarrow>
        (\<exists>j. dget (fo_jobs s) i = Some j \<and> is_range_key (fj_key j) \<and> ft_id t \<in> set (fj_sources j)))"

definition formation_ok :: "(string \<Rightarrow> string) \<Rightarrow> formation_store \<Rightarrow> bool" where
  "formation_ok hash s \<longleftrightarrow>
     filed ft_id (fo_turns s) \<and> filed fj_id (fo_jobs s) \<and>
     (\<forall>i j. dget (fo_jobs s) i = Some j \<longrightarrow>
        fj_attempts j \<le> fj_limit j \<and> dget (fo_keys s) (fj_key j) = Some i \<and>
        (is_range_key (fj_key j) \<longrightarrow> range_of hash s j)) \<and>
     (\<forall>k i. dget (fo_keys s) k = Some i \<longrightarrow> (\<exists>j. dget (fo_jobs s) i = Some j \<and> fj_key j = k)) \<and>
     (\<forall>i t. dget (fo_turns s) i = Some t \<longrightarrow> plain_turn t \<and> turn_placed s t)"

lemma formation_okD:
  assumes "formation_ok hash s"
  shows "filed ft_id (fo_turns s)" "filed fj_id (fo_jobs s)"
    "dget (fo_jobs s) i = Some j \<Longrightarrow> fj_attempts j \<le> fj_limit j"
    "dget (fo_jobs s) i = Some j \<Longrightarrow> dget (fo_keys s) (fj_key j) = Some i"
    "dget (fo_jobs s) i = Some j \<Longrightarrow> is_range_key (fj_key j) \<Longrightarrow> range_of hash s j"
    "dget (fo_keys s) k = Some i \<Longrightarrow> \<exists>j. dget (fo_jobs s) i = Some j \<and> fj_key j = k"
    "dget (fo_turns s) x = Some t \<Longrightarrow> plain_turn t" "dget (fo_turns s) x = Some t \<Longrightarrow> turn_placed s t"
  using assms unfolding formation_ok_def by blast+

lemma formation_ok_empty: "formation_ok hash empty_formation_store"
  by (simp add: formation_ok_def empty_formation_store_def)

subsection \<open>Changes of jobs\<close>

definition same_range :: "formation_job \<Rightarrow> formation_job \<Rightarrow> bool" where
  "same_range a b \<longleftrightarrow> fj_id a = fj_id b \<and> fj_key a = fj_key b \<and> fj_sources a = fj_sources b"

lemma is_range_key_range_key [simp]: "is_range_key (range_key hash sk f l p)"
  by (simp add: is_range_key_def range_key_def split: prod.splits)

lemma range_of_same_range: "same_range a b \<Longrightarrow> range_of hash s a \<longleftrightarrow> range_of hash s b"
  by (simp add: range_of_def same_range_def)

lemma range_of_turns: "fo_turns s' = fo_turns s \<Longrightarrow> range_of hash s' j = range_of hash s j"
  by (simp add: range_of_def)

lemma turn_placed_mono:
  assumes t: "turn_placed s t"
    and j: "\<And>i j. dget (fo_jobs s) i = Some j \<Longrightarrow>
      \<exists>j'. dget (fo_jobs s') i = Some j' \<and> fj_key j' = fj_key j \<and> fj_sources j' = fj_sources j"
  shows "turn_placed s' t"
proof -
  have "\<exists>j. dget (fo_jobs s') i = Some j \<and> is_range_key (fj_key j) \<and> ft_id t \<in> set (fj_sources j)"
    if i: "ft_job t = Some i" for i
  proof -
    obtain x where x: "dget (fo_jobs s) i = Some x" "is_range_key (fj_key x)" "ft_id t \<in> set (fj_sources x)"
      using t i by (auto simp: turn_placed_def)
    from j[OF x(1)] x(2,3) show ?thesis by auto
  qed
  with t show ?thesis by (simp add: turn_placed_def)
qed

text \<open>An update of jobs that keeps their identity, key and sources and stays within the limit.\<close>

lemma jobs_changed_ok:
  assumes ok: "formation_ok hash s" and f: "filed fj_id js"
    and j: "\<And>i. dget js i = map_option (g i) (dget (fo_jobs s) i)"
    and g: "\<And>i j. dget (fo_jobs s) i = Some j \<Longrightarrow> same_range (g i j) j \<and> fj_attempts (g i j) \<le> fj_limit (g i j)"
  shows "formation_ok hash (s\<lparr>fo_jobs := js\<rparr>)"
  unfolding formation_ok_def
proof (intro conjI allI impI)
  fix i j' assume "dget (fo_jobs (s\<lparr>fo_jobs := js\<rparr>)) i = Some j'"
  then obtain j where ij: "dget (fo_jobs s) i = Some j" "j' = g i j" using j by auto
  from g[OF ij(1)] ij(2) have same: "same_range j' j" "fj_attempts j' \<le> fj_limit j'" by simp_all
  then show "fj_attempts j' \<le> fj_limit j'" by simp
  show "dget (fo_keys (s\<lparr>fo_jobs := js\<rparr>)) (fj_key j') = Some i"
    using formation_okD(4)[OF ok ij(1)] same by (simp add: same_range_def)
  show "range_of hash (s\<lparr>fo_jobs := js\<rparr>) j'" if "is_range_key (fj_key j')"
  proof -
    have "range_of hash s j" using formation_okD(5)[OF ok ij(1)] that same(1) by (simp add: same_range_def)
    then have "range_of hash s j'" using range_of_same_range[OF same(1)] by blast
    then show ?thesis by (simp add: range_of_def)
  qed
next
  fix k i assume "dget (fo_keys (s\<lparr>fo_jobs := js\<rparr>)) k = Some i"
  then obtain j where "dget (fo_jobs s) i = Some j" "fj_key j = k" using formation_okD(6)[OF ok] by auto
  then show "\<exists>j. dget (fo_jobs (s\<lparr>fo_jobs := js\<rparr>)) i = Some j \<and> fj_key j = k"
    using j g by (auto simp: same_range_def)
next
  fix i t assume t: "dget (fo_turns (s\<lparr>fo_jobs := js\<rparr>)) i = Some t"
  then show "plain_turn t" using formation_okD(7)[OF ok] by simp
  from t have "turn_placed s t" using formation_okD(8)[OF ok] by simp
  then show "turn_placed (s\<lparr>fo_jobs := js\<rparr>) t"
  proof (rule turn_placed_mono)
    fix k x assume x: "dget (fo_jobs s) k = Some x"
    with g[OF x] j show "\<exists>j'. dget (fo_jobs (s\<lparr>fo_jobs := js\<rparr>)) k = Some j' \<and>
        fj_key j' = fj_key x \<and> fj_sources j' = fj_sources x"
      by (simp add: same_range_def)
  qed
qed (use formation_okD(1)[OF ok] f in simp_all)

lemma job_put_ok:
  assumes ok: "formation_ok hash s" and j: "dget (fo_jobs s) i = Some j"
    and j': "same_range j' j" "fj_attempts j' \<le> fj_limit j'"
  shows "formation_ok hash (s\<lparr>fo_jobs := dput i j' (fo_jobs s)\<rparr>)"
proof (rule jobs_changed_ok[OF ok, where g = "\<lambda>k x. if k = i then j' else x"])
  show "filed fj_id (dput i j' (fo_jobs s))"
    using formation_okD(2)[OF ok] filedD[OF formation_okD(2)[OF ok] j] j'
    by (intro filed_dput) (simp_all add: same_range_def)
qed (use j j' formation_okD(3)[OF ok] in \<open>auto simp: same_range_def option.map_ident\<close>)

end
