(* ===== verification/Formation_Ranges.thy ===== *)
theory Formation_Ranges
  imports Formation_Jobs "HOL-Library.Multiset"
begin

text \<open>
  The invariant of the formation repository is kept by every method, and every method is a run of the
  abstract retrying queue: what \<open>Formation_Properties\<close> rests on.
\<close>

subsection \<open>Changes of turns\<close>

lemma range_ofI:
  assumes "fj_sources j \<noteq> []" "distinct (fj_sources j)"
    "fj_key j = range_key hash sk (hd (fj_sources j)) (last (fj_sources j)) policy"
    "plain (fst sk)" "plain (fst (snd sk))" "plain (snd (snd sk))" "plain policy"
    "\<And>i. i \<in> set (fj_sources j) \<Longrightarrow> plain i \<and>
       (\<exists>t. dget (fo_turns s) i = Some t \<and> session_of t = sk \<and> ft_job t = Some (fj_id j))"
  shows "range_of hash s j"
  unfolding range_of_def using assms by blast

lemma range_ofE:
  assumes "range_of hash s j"
  obtains sk policy where "fj_sources j \<noteq> []" "distinct (fj_sources j)"
    "fj_key j = range_key hash sk (hd (fj_sources j)) (last (fj_sources j)) policy"
    "plain (fst sk)" "plain (fst (snd sk))" "plain (snd (snd sk))" "plain policy"
    "\<And>i. i \<in> set (fj_sources j) \<Longrightarrow> plain i"
    "\<And>i. i \<in> set (fj_sources j) \<Longrightarrow>
       \<exists>t. dget (fo_turns s) i = Some t \<and> session_of t = sk \<and> ft_job t = Some (fj_id j)"
  using assms unfolding range_of_def by blast

lemma range_of_keep:
  assumes r: "range_of hash s j"
    and keep: "\<And>i t. dget (fo_turns s) i = Some t \<Longrightarrow> \<exists>t'. dget (fo_turns s') i = Some t' \<and>
      session_of t' = session_of t \<and> (ft_job t \<noteq> None \<longrightarrow> ft_job t' = ft_job t)"
  shows "range_of hash s' j"
  using r
proof (cases rule: range_ofE)
  case (1 sk policy)
  show ?thesis
  proof (rule range_ofI[OF 1(1-7)])
    fix i assume i: "i \<in> set (fj_sources j)"
    obtain t where t: "dget (fo_turns s) i = Some t" "session_of t = sk" "ft_job t = Some (fj_id j)"
      using 1(9)[OF i] by blast
    from keep[OF t(1)] t(2,3) 1(8)[OF i]
    show "plain i \<and> (\<exists>t. dget (fo_turns s') i = Some t \<and> session_of t = sk \<and> ft_job t = Some (fj_id j))"
      by auto
  qed
qed

lemma turns_changed_ok:
  assumes ok: "formation_ok hash s" and f: "filed ft_id ts"
    and keep: "\<And>i t. dget (fo_turns s) i = Some t \<Longrightarrow> \<exists>t'. dget ts i = Some t' \<and> session_of t' = session_of t \<and>
      (ft_job t \<noteq> None \<longrightarrow> ft_job t' = ft_job t)"
    and new: "\<And>i t'. dget ts i = Some t' \<Longrightarrow> plain_turn t' \<and> turn_placed s t'"
  shows "formation_ok hash (s\<lparr>fo_turns := ts\<rparr>)"
proof -
  have range: "range_of hash (s\<lparr>fo_turns := ts\<rparr>) j" if "range_of hash s j" for j
    by (rule range_of_keep[OF that]) (use keep in simp)
  have placed: "turn_placed (s\<lparr>fo_turns := ts\<rparr>) t" if "turn_placed s t" for t
    using that by (simp add: turn_placed_def)
  show ?thesis
    unfolding formation_ok_def
  proof (intro conjI allI impI)
    fix i j assume j: "dget (fo_jobs (s\<lparr>fo_turns := ts\<rparr>)) i = Some j"
    then have j: "dget (fo_jobs s) i = Some j" by simp
    show "fj_attempts j \<le> fj_limit j" by (rule formation_okD(3)[OF ok j])
    show "dget (fo_keys (s\<lparr>fo_turns := ts\<rparr>)) (fj_key j) = Some i" using formation_okD(4)[OF ok j] by simp
    show "range_of hash (s\<lparr>fo_turns := ts\<rparr>) j" if "is_range_key (fj_key j)"
      by (rule range[OF formation_okD(5)[OF ok j that]])
  next
    fix k i assume "dget (fo_keys (s\<lparr>fo_turns := ts\<rparr>)) k = Some i"
    then show "\<exists>j. dget (fo_jobs (s\<lparr>fo_turns := ts\<rparr>)) i = Some j \<and> fj_key j = k"
      using formation_okD(6)[OF ok] by simp
  next
    fix i t assume t: "dget (fo_turns (s\<lparr>fo_turns := ts\<rparr>)) i = Some t"
    show "plain_turn t" "turn_placed (s\<lparr>fo_turns := ts\<rparr>) t"
      using new[of i t] placed t by simp_all
  qed (use f formation_okD(2)[OF ok] in simp_all)
qed

lemma turn_placed_pending: "formation_pending t \<Longrightarrow> turn_placed s t"
  by (simp add: turn_placed_def formation_pending_def)

lemma find_capsule_None: "find_capsule t s = None \<Longrightarrow> dget (fo_turns s) (ft_id t) = None"
  by (simp add: find_capsule_def split: option.splits)

lemma append_put_ok:
  assumes ok: "formation_ok hash s" and t: "formation_pending t" "plain_turn t" "find_capsule t s = None"
  shows "formation_ok hash (s\<lparr>fo_turns := dput (ft_id t) t (fo_turns s)\<rparr>)"
proof (rule turns_changed_ok[OF ok])
  show "filed ft_id (dput (ft_id t) t (fo_turns s))"
    using formation_okD(1)[OF ok] by (simp add: filed_dput)
  show "\<exists>t''. dget (dput (ft_id t) t (fo_turns s)) i = Some t'' \<and> session_of t'' = session_of t' \<and>
      (ft_job t' \<noteq> None \<longrightarrow> ft_job t'' = ft_job t')" if "dget (fo_turns s) i = Some t'" for i t'
    using that find_capsule_None[OF t(3)] by auto
  show "plain_turn t' \<and> turn_placed s t'" if "dget (dput (ft_id t) t (fo_turns s)) i = Some t'" for i t'
    using that t turn_placed_pending[OF t(1)] formation_okD(7,8)[OF ok, of i t'] by (auto split: if_splits)
qed

lemma extend_deadlines_get:
  assumes "filed ft_id (fo_turns s)"
  shows "dget (fo_turns (extend_deadlines t s)) i =
    map_option (\<lambda>p. if session_of p = session_of t \<and> formation_pending p
                    then p\<lparr>ft_deadline := effective_deadline t s\<rparr> else p) (dget (fo_turns s) i)"
  by (simp add: extend_deadlines_def dget_put_all_map[OF assms])

lemma extend_deadlines_ok:
  assumes ok: "formation_ok hash s"
  shows "formation_ok hash (extend_deadlines t s)"
proof -
  note f = formation_okD(1)[OF ok]
  let ?ts = "fo_turns (extend_deadlines t s)"
  have eq: "extend_deadlines t s = s\<lparr>fo_turns := ?ts\<rparr>" by (simp add: extend_deadlines_def)
  have "formation_ok hash (s\<lparr>fo_turns := ?ts\<rparr>)"
  proof (rule turns_changed_ok[OF ok])
    show "filed ft_id ?ts" using f by (simp add: extend_deadlines_def filed_put_all)
    show "\<exists>p'. dget ?ts i = Some p' \<and> session_of p' = session_of p \<and> (ft_job p \<noteq> None \<longrightarrow> ft_job p' = ft_job p)"
      if "dget (fo_turns s) i = Some p" for i p
      using that by (simp add: extend_deadlines_get[OF f] session_of_def)
    show "plain_turn p' \<and> turn_placed s p'" if "dget ?ts i = Some p'" for i p'
      using that formation_okD(7,8)[OF ok, of i]
      by (auto simp: extend_deadlines_get[OF f] turn_placed_def plain_turn_def split: if_splits)
  qed
  with eq show ?thesis by simp
qed

subsection \<open>New jobs\<close>

lemma store_job_sel [simp]:
  "fo_turns (store_job j s) = fo_turns s"
  "fo_jobs (store_job j s) = dput (fj_id j) j (fo_jobs s)"
  "fo_keys (store_job j s) = dput (fj_key j) (fj_id j) (fo_keys s)"
  by (simp_all add: store_job_def)

lemma claim_turns_sel [simp]:
  "fo_jobs (claim_turns i ts s) = fo_jobs s"
  "fo_keys (claim_turns i ts s) = fo_keys s"
  by (simp_all add: claim_turns_def)

lemma claim_turns_get:
  assumes "distinct (map ft_id ts)"
  shows "dget (fo_turns (claim_turns i ts s)) k =
    (case find (\<lambda>t. ft_id t = k) ts of
       None \<Rightarrow> dget (fo_turns s) k
     | Some t \<Rightarrow> Some (t\<lparr>ft_status := Capsule_Claimed, ft_job := Some i\<rparr>))"
proof -
  have "find (\<lambda>t. ft_id t = k) (map (\<lambda>t. t\<lparr>ft_status := Capsule_Claimed, ft_job := Some i\<rparr>) ts) =
      map_option (\<lambda>t. t\<lparr>ft_status := Capsule_Claimed, ft_job := Some i\<rparr>) (find (\<lambda>t. ft_id t = k) ts)"
    by (induction ts) auto
  moreover have "map ft_id (map (\<lambda>t. t\<lparr>ft_status := Capsule_Claimed, ft_job := Some i\<rparr>) ts) = map ft_id ts"
    by simp
  ultimately have "dget (put_all ft_id (map (\<lambda>t. t\<lparr>ft_status := Capsule_Claimed, ft_job := Some i\<rparr>) ts) (fo_turns s)) k =
      (case map_option (\<lambda>t. t\<lparr>ft_status := Capsule_Claimed, ft_job := Some i\<rparr>) (find (\<lambda>t. ft_id t = k) ts) of
         None \<Rightarrow> dget (fo_turns s) k | Some t \<Rightarrow> Some t)"
    using assms dget_put_all by metis
  then show ?thesis by (simp add: claim_turns_def split: option.splits)
qed

lemma range_key_inject:
  assumes "inj hash" "range_key hash sk f l p = range_key hash sk' f' l' p'"
    "plain (fst sk)" "plain (fst (snd sk))" "plain (snd (snd sk))" "plain f" "plain l" "plain p"
    "plain (fst sk')" "plain (fst (snd sk'))" "plain (snd (snd sk'))" "plain f'" "plain l'" "plain p'"
  shows "f = f'"
proof -
  obtain a b c a' b' c' where sk: "sk = (a, b, c)" "sk' = (a', b', c')" by (cases sk; cases sk') auto
  have "join_us [a, b, c, f, l, p] = join_us [a', b', c', f', l', p']"
    using assms(1,2) sk by (simp add: range_key_def inj_eq)
  then have "[a, b, c, f, l, p] = [a', b', c', f', l', p']"
    by (intro join_us_inject) (use assms sk in \<open>simp_all add: plain_def\<close>)
  then show ?thesis by simp
qed

text \<open>The turns a range is frozen from.\<close>

definition freezable :: "session_key \<Rightarrow> formation_turn list \<Rightarrow> formation_store \<Rightarrow> bool" where
  "freezable sk ts s \<longleftrightarrow>
     ts \<noteq> [] \<and> distinct (map ft_id ts) \<and>
     (\<forall>t\<in>set ts. dget (fo_turns s) (ft_id t) = Some t \<and> formation_pending t \<and> session_of t = sk)"

lemma freezable_plain:
  assumes ok: "formation_ok hash s" and f: "freezable sk ts s"
  shows "plain (fst sk)" "plain (fst (snd sk))" "plain (snd (snd sk))" "\<forall>t\<in>set ts. plain (ft_id t)"
proof -
  have p: "plain_turn t" if "t \<in> set ts" for t
    using f that formation_okD(7)[OF ok] by (auto simp: freezable_def)
  obtain t where "t \<in> set ts" "session_of t = sk" using f by (cases ts) (auto simp: freezable_def)
  with p[of t] show "plain (fst sk)" "plain (fst (snd sk))" "plain (snd (snd sk))"
    by (auto simp: plain_turn_def session_of_def)
  from p show "\<forall>t\<in>set ts. plain (ft_id t)" by (simp add: plain_turn_def)
qed

lemma range_job_sel [simp]:
  "fj_id (range_job cfg fresh now trigger sk ts) = fresh"
  "fj_sources (range_job cfg fresh now trigger sk ts) = map ft_id ts"
  "fj_key (range_job cfg fresh now trigger sk ts) =
     range_key (rc_hash cfg) sk (ft_id (hd ts)) (ft_id (List.last ts)) (rc_policy cfg)"
  "fj_attempts (range_job cfg fresh now trigger sk ts) = 0"
  "fj_status (range_job cfg fresh now trigger sk ts) = Job_Pending"
  "fj_limit (range_job cfg fresh now trigger sk ts) = rc_limit cfg"
  by (simp_all add: range_job_def Let_def)

text \<open>No job has the key of a range that is still pending.\<close>

lemma range_key_unused:
  assumes ok: "formation_ok hash s" and h: "inj hash" and f: "freezable sk ts s" and p: "plain policy"
  shows "dget (fo_keys s) (range_key hash sk (ft_id (hd ts)) (ft_id (List.last ts)) policy) = None"
proof (rule ccontr)
  let ?k = "range_key hash sk (ft_id (hd ts)) (ft_id (List.last ts)) policy"
  assume "dget (fo_keys s) ?k \<noteq> None"
  then obtain i j where j: "dget (fo_jobs s) i = Some j" "fj_key j = ?k"
    using formation_okD(6)[OF ok] by fast
  then have "range_of hash s j" using formation_okD(5)[OF ok j(1)] by simp
  then show False
  proof (cases rule: range_ofE)
    case r: (1 sk' policy')
    have ts: "hd ts \<in> set ts" "List.last ts \<in> set ts" using f by (auto simp: freezable_def)
    have "ft_id (hd ts) = hd (fj_sources j)"
      by (rule range_key_inject[OF h trans[OF j(2)[symmetric] r(3)]])
        (use freezable_plain[OF ok f] ts r(1,4-8) p in auto)
    moreover have "hd (fj_sources j) \<in> set (fj_sources j)" using r(1) by simp
    ultimately obtain t where "dget (fo_turns s) (ft_id (hd ts)) = Some t" "ft_job t = Some (fj_id j)"
      using r(9) by metis
    then show False using f ts(1) by (auto simp: freezable_def formation_pending_def)
  qed
qed

lemma frozen_range_ok:
  assumes ok: "formation_ok hash s" and h: "rc_hash cfg = hash" "inj hash" and p: "plain (rc_policy cfg)"
    and f: "freezable sk ts s" and new: "dget (fo_jobs s) fresh = None"
    and v: "job_valid (range_job cfg fresh now trigger sk ts)"
  shows "formation_ok hash (claim_turns fresh ts (store_job (range_job cfg fresh now trigger sk ts) s))"
    (is "formation_ok hash ?s")
proof -
  let ?j = "range_job cfg fresh now trigger sk ts" and ?c = "\<lambda>t. t\<lparr>ft_status := Capsule_Claimed, ft_job := Some fresh\<rparr>"
  have d: "distinct (map ft_id ts)" and ne: "ts \<noteq> []" using f by (auto simp: freezable_def)
  have get: "dget (fo_turns ?s) k = (case find (\<lambda>t. ft_id t = k) ts of None \<Rightarrow> dget (fo_turns s) k | Some t \<Rightarrow> Some (?c t))" for k
    by (simp only: claim_turns_get[OF d] store_job_sel)
  have jobs: "fo_jobs ?s = dput fresh ?j (fo_jobs s)" by simp
  have keys: "fo_keys ?s = dput (fj_key ?j) fresh (fo_keys s)" by simp
  have at: "dget (fo_turns ?s) (ft_id t) = Some (?c t)" if mem: "t \<in> set ts" for t
  proof -
    obtain t' where t': "find (\<lambda>x. ft_id x = ft_id t) ts = Some t'"
      using mem by (cases "find (\<lambda>x. ft_id x = ft_id t) ts") (auto simp: find_None_iff)
    then have "t' \<in> set ts" "ft_id t' = ft_id t" by (auto dest: find_Some_D)
    then have "t' = t" using f mem unfolding freezable_def by (metis option.inject)
    with get t' show ?thesis by simp
  qed
  have keep: "\<exists>t'. dget (fo_turns ?s) i = Some t' \<and> session_of t' = session_of t \<and> (ft_job t \<noteq> None \<longrightarrow> ft_job t' = ft_job t)"
    if "dget (fo_turns s) i = Some t" for i t
  proof (cases "find (\<lambda>x. ft_id x = i) ts")
    case (Some t')
    then have "t' \<in> set ts" "ft_id t' = i" by (auto dest: find_Some_D)
    then have "t' = t" "ft_job t = None" using f that by (auto simp: freezable_def formation_pending_def)
    with Some show ?thesis by (simp add: get session_of_def)
  qed (use that in \<open>simp add: get\<close>)
  have unused: "dget (fo_keys s) (fj_key ?j) = None"
    using range_key_unused[OF ok h(2) f p] h(1) by simp
  have new_range: "range_of hash ?s ?j"
  proof (rule range_ofI[where sk = sk and policy = "rc_policy cfg"])
    fix i assume "i \<in> set (fj_sources ?j)"
    then obtain t where t: "t \<in> set ts" "i = ft_id t" by auto
    have "session_of t = sk" using f t(1) by (simp add: freezable_def)
    then show "plain i \<and> (\<exists>t. dget (fo_turns ?s) i = Some t \<and> session_of t = sk \<and> ft_job t = Some (fj_id ?j))"
      using at[OF t(1)] freezable_plain(4)[OF ok f] t by (simp add: session_of_def)
  qed (use d ne p h(1) freezable_plain[OF ok f] in \<open>simp_all add: hd_map last_map\<close>)
  have old_range: "range_of hash ?s j" if "range_of hash s j" for j
    by (rule range_of_keep[OF that keep])
  have placed: "turn_placed ?s t" if "turn_placed s t" for t
    by (rule turn_placed_mono[OF that]) (use new in \<open>auto simp: jobs\<close>)
  show ?thesis
    unfolding formation_ok_def
  proof (intro conjI allI impI)
    show "filed ft_id (fo_turns ?s)"
      using formation_okD(1)[OF ok] by (simp add: claim_turns_def store_job_def filed_put_all)
    show "filed fj_id (fo_jobs ?s)" using formation_okD(2)[OF ok] by (simp add: jobs filed_dput)
    fix i j assume ij: "dget (fo_jobs ?s) i = Some j"
    show "fj_attempts j \<le> fj_limit j" using ij formation_okD(3)[OF ok, of i j] by (auto simp: jobs split: if_splits)
    show "dget (fo_keys ?s) (fj_key j) = Some i"
      using ij formation_okD(4)[OF ok, of i j] unused by (auto simp: jobs keys split: if_splits)
    show "range_of hash ?s j" if "is_range_key (fj_key j)"
      using ij that formation_okD(5)[OF ok, of i j] new_range old_range by (auto simp: jobs split: if_splits)
  next
    fix k i assume "dget (fo_keys ?s) k = Some i"
    then show "\<exists>j. dget (fo_jobs ?s) i = Some j \<and> fj_key j = k"
      using formation_okD(6)[OF ok, of k i] new by (auto simp: jobs keys split: if_splits)
  next
    fix i t assume t: "dget (fo_turns ?s) i = Some t"
    have "plain_turn t \<and> turn_placed ?s t"
    proof (cases "find (\<lambda>x. ft_id x = i) ts")
      case None
      with t have "dget (fo_turns s) i = Some t" by (simp add: get)
      with formation_okD(7,8)[OF ok this] placed show ?thesis by simp
    next
      case (Some t')
      then have t': "t' \<in> set ts" "t = ?c t'" using t by (auto simp: get dest: find_Some_D)
      then have "plain_turn t'" using f formation_okD(7)[OF ok] by (auto simp: freezable_def)
      with t' show ?thesis by (auto simp: plain_turn_def turn_placed_def jobs)
    qed
    then show "plain_turn t" "turn_placed ?s t" by simp_all
  qed
qed


subsection \<open>Every step keeps the invariant\<close>

definition form_turn :: "ident \<Rightarrow> (ident, formation_turn) dict \<Rightarrow> (ident, formation_turn) dict" where
  "form_turn i d = (case dget d i of None \<Rightarrow> d | Some t \<Rightarrow> dput i (t\<lparr>ft_status := Capsule_Formed\<rparr>) d)"

lemma form_turns_fold: "form_turns ids s = s\<lparr>fo_turns := fold form_turn ids (fo_turns s)\<rparr>"
  by (simp add: form_turns_def form_turn_def[abs_def])

lemma form_turn_get:
  "dget (form_turn i d) k = map_option (\<lambda>t. if k = i then t\<lparr>ft_status := Capsule_Formed\<rparr> else t) (dget d k)"
  by (cases "dget d i"; cases "k = i") (auto simp: form_turn_def option.map_ident)

lemma form_turns_get:
  "dget (fo_turns (form_turns ids s)) k =
     map_option (\<lambda>t. if k \<in> set ids then t\<lparr>ft_status := Capsule_Formed\<rparr> else t) (dget (fo_turns s) k)"
proof -
  have "dget (fold form_turn ids d) k =
      map_option (\<lambda>t. if k \<in> set ids then t\<lparr>ft_status := Capsule_Formed\<rparr> else t) (dget d k)" for d
  proof (induction ids arbitrary: d)
    case Nil
    then show ?case by (simp add: option.map_ident)
  next
    case (Cons i ids)
    then show ?case by (cases "dget d k") (auto simp: form_turn_get)
  qed
  then show ?thesis by (simp add: form_turns_fold)
qed

lemma form_turn_filed:
  assumes f: "filed ft_id d"
  shows "filed ft_id (form_turn i d)"
  using f by (cases "dget d i") (simp_all add: form_turn_def filed_dput filedD[OF f])

lemma form_turns_filed: "filed ft_id (fo_turns s) \<Longrightarrow> filed ft_id (fo_turns (form_turns ids s))"
proof -
  have "filed ft_id d \<Longrightarrow> filed ft_id (fold form_turn ids d)" for d
    by (induction ids arbitrary: d) (simp_all add: form_turn_filed)
  then show "filed ft_id (fo_turns s) \<Longrightarrow> filed ft_id (fo_turns (form_turns ids s))"
    by (simp add: form_turns_fold)
qed

lemma form_turns_ok:
  assumes ok: "formation_ok hash s"
  shows "formation_ok hash (form_turns ids s)"
proof -
  let ?ts = "fo_turns (form_turns ids s)"
  have eq: "form_turns ids s = s\<lparr>fo_turns := ?ts\<rparr>" by (simp add: form_turns_def)
  have "formation_ok hash (s\<lparr>fo_turns := ?ts\<rparr>)"
  proof (rule turns_changed_ok[OF ok form_turns_filed[OF formation_okD(1)[OF ok]]])
    show "\<exists>t'. dget ?ts i = Some t' \<and> session_of t' = session_of t \<and> (ft_job t \<noteq> None \<longrightarrow> ft_job t' = ft_job t)"
      if "dget (fo_turns s) i = Some t" for i t
      using that by (simp add: form_turns_get session_of_def)
    show "plain_turn t' \<and> turn_placed s t'" if "dget ?ts i = Some t'" for i t'
      using that formation_okD(7,8)[OF ok, of i]
      by (auto simp: form_turns_get turn_placed_def plain_turn_def split: if_splits)
  qed
  with eq show ?thesis by simp
qed

lemma marks_ok: "formation_ok hash s \<Longrightarrow> formation_ok hash (s\<lparr>fo_marks := m\<rparr>)"
  by (simp add: formation_ok_def range_of_def turn_placed_def)

lemma advance_watermark_ok: "formation_ok hash s \<Longrightarrow> formation_ok hash (advance_watermark sk s)"
  by (simp add: advance_watermark_def Let_def marks_ok)

lemma pending_freezable:
  assumes ok: "formation_ok hash s" and ne: "take n (pending_of sk s) \<noteq> []"
  shows "freezable sk (take n (pending_of sk s)) s"
proof -
  have sub: "t \<in> set (pending_of sk s)" if "t \<in> set (take n (pending_of sk s))" for t
    using that by (rule in_set_takeD)
  have "mset (map ft_id (pending_of sk s)) =
      mset (map ft_id (filter (\<lambda>t. session_of t = sk \<and> formation_pending t) (dvalues (fo_turns s))))"
    by (simp add: pending_of_def)
  moreover have "distinct (map ft_id (filter (\<lambda>t. session_of t = sk \<and> formation_pending t) (dvalues (fo_turns s))))"
    using filed_distinct[OF formation_okD(1)[OF ok]] by (rule distinct_map_filter)
  ultimately have "distinct (map ft_id (pending_of sk s))" by (metis mset_eq_imp_distinct_iff)
  then have "distinct (map ft_id (take n (pending_of sk s)))" by (simp only: take_map[symmetric] distinct_take)
  moreover have "dget (fo_turns s) (ft_id t) = Some t \<and> formation_pending t \<and> session_of t = sk"
    if "t \<in> set (pending_of sk s)" for t
    using that filed_get[OF formation_okD(1)[OF ok], of t] by (auto simp: pending_of_def)
  ultimately show ?thesis unfolding freezable_def using ne sub by blast
qed

lemma session_of_hd: "freezable sk ts s \<Longrightarrow> session_of (hd ts) = sk"
  by (auto simp: freezable_def)

text \<open>What the two methods that freeze a range can do in a store that satisfies the invariant.\<close>

lemma append_window_cases:
  assumes ok: "formation_ok hash s" and t: "formation_pending t" "plain_turn t"
    and cfg: "rc_hash cfg = hash" "inj hash" "plain (rc_policy cfg)"
    and w: "append_window cfg fresh now window t s = (r, s')"
  obtains (replayed) x where "find_capsule t s = Some x" "s' = s"
      "r = (if same_capsule x t then Inr (x, None) else Inl (Value_Error ''Formation turn identity conflict''))"
    | (stored) s1 where "find_capsule t s = None"
      "s1 = extend_deadlines t (s\<lparr>fo_turns := dput (ft_id t) t (fo_turns s)\<rparr>)" "formation_ok hash s1" "s' = s1"
      "length (pending_of (session_of t) s1) < window \<and> r = Inr (t, None) \<or>
       window \<le> length (pending_of (session_of t) s1) \<and> (\<exists>x. r = Inl x)"
    | (frozen) s1 j where "find_capsule t s = None"
      "s1 = extend_deadlines t (s\<lparr>fo_turns := dput (ft_id t) t (fo_turns s)\<rparr>)" "formation_ok hash s1"
      "freezable (session_of t) (take window (pending_of (session_of t) s1)) s1"
      "window \<le> length (pending_of (session_of t) s1)"
      "j = range_job cfg fresh now Turn_Window (session_of t) (take window (pending_of (session_of t) s1))"
      "job_valid j" "r = Inr (t, Some j)"
      "s' = claim_turns fresh (take window (pending_of (session_of t) s1)) (store_job j s1)"
proof (cases "find_capsule t s")
  case (Some x)
  with w have "s' = s" "r = (if same_capsule x t then Inr (x, None) else Inl (Value_Error ''Formation turn identity conflict''))"
    by (simp_all add: append_window_def)
  with Some replayed show thesis by blast
next
  case None
  define s1 where "s1 = extend_deadlines t (s\<lparr>fo_turns := dput (ft_id t) t (fo_turns s)\<rparr>)"
  have ok1: "formation_ok hash s1"
    unfolding s1_def by (intro extend_deadlines_ok append_put_ok ok t None)
  let ?p = "pending_of (session_of t) s1"
  let ?j = "range_job cfg fresh now Turn_Window (session_of t) (take window ?p)"
  have w1: "(r, s') = (if length ?p < window then (Inr (t, None), s1)
      else (case build_range_job cfg fresh now Turn_Window (take window ?p) of
        Inl x \<Rightarrow> (Inl x, s1)
      | Inr j \<Rightarrow> (case dget (fo_keys s1) (fj_key j) of
            None \<Rightarrow> (Inr (t, Some j), claim_turns (fj_id j) (take window ?p) (store_job j s1))
          | Some i \<Rightarrow> (case dget (fo_jobs s1) i of
                 None \<Rightarrow> (Inl (Runtime_Error ''KeyError''), s1)
               | Some old \<Rightarrow> (Inr (t, Some old), claim_turns (fj_id old) (take window ?p) s1)))))"
    using w None unfolding append_window_def Let_def s1_def by simp
  show thesis
  proof (cases "build_range_job cfg fresh now Turn_Window (take window ?p)")
    case (Inl x)
    with w1 show thesis using stored[OF None s1_def ok1] by (auto split: if_splits)
  next
    case (Inr j)
    then have ne: "take window ?p \<noteq> []" and v: "job_valid j"
      by (auto simp: build_range_job_def Let_def split: if_splits)
    have f: "freezable (session_of t) (take window ?p) s1" by (rule pending_freezable[OF ok1 ne])
    then have j: "j = ?j"
      using Inr ne session_of_hd[OF f] unfolding build_range_job_def Let_def by (simp split: if_splits)
    have "dget (fo_keys s1) (fj_key j) = None"
      using range_key_unused[OF ok1 cfg(2) f cfg(3)] cfg(1) j by simp
    then show thesis
      using w1 Inr stored[OF None s1_def ok1] frozen[OF None s1_def ok1 f _ j v] j
      by (auto split: if_splits)
  qed
qed

lemma create_job_cases:
  assumes ok: "formation_ok hash s" and cfg: "rc_hash cfg = hash" "inj hash" "plain (rc_policy cfg)"
    and c: "create_job cfg fresh now trigger sk max_turns idle_due s = (r, s')"
  obtains (unchanged) "s' = s" "r = Inr None \<or> (\<exists>x. r = Inl x)"
    | (frozen) ts j where "ts = (case max_turns of None \<Rightarrow> pending_of sk s | Some n \<Rightarrow> take n (pending_of sk s))"
      "freezable sk ts s" "j = range_job cfg fresh now trigger sk ts" "job_valid j" "r = Inr (Some j)"
      "s' = claim_turns fresh ts (store_job j s)"
proof -
  define ts where "ts = (case max_turns of None \<Rightarrow> pending_of sk s | Some n \<Rightarrow> take n (pending_of sk s))"
  obtain n where n: "ts = take n (pending_of sk s)"
    by (cases max_turns) (auto simp: ts_def intro: that[of "length (pending_of sk s)"])
  let ?j = "range_job cfg fresh now trigger sk ts"
  show thesis
  proof (cases "ts = [] \<or> s' = s \<and> r = Inr None")
    case True
    then have "s' = s" "r = Inr None" using c by (auto simp: create_job_def Let_def ts_def)
    with unchanged show thesis by blast
  next
    case False
    then have f: "freezable sk ts s" using pending_freezable[OF ok, of n sk] n by simp
    have "dget (fo_keys s) (fj_key ?j) = None"
      using range_key_unused[OF ok cfg(2) f cfg(3)] cfg(1) by simp
    then consider x where "s' = s" "r = Inl x"
      | "job_valid ?j" "r = Inr (Some ?j)" "s' = claim_turns fresh ts (store_job ?j s)"
      using c False unfolding create_job_def Let_def ts_def[symmetric]
      by (auto split: if_splits)
    then show thesis
      by cases (auto intro: unchanged frozen[OF ts_def f refl])
  qed
qed

lemma held_job_Inr:
  "held_job i owner token now s = Inr j \<longleftrightarrow>
     dget (fo_jobs s) i = Some j \<and> fj_status j = Job_Claimed \<and> fj_owner j = Some owner \<and>
     fj_token j = Some token \<and> (\<exists>e. fj_expires j = Some e \<and> now < e)"
  by (auto simp: held_job_def split: option.splits if_splits)

lemma no_lease_sel [simp]:
  "fj_id (no_lease j) = fj_id j" "fj_key (no_lease j) = fj_key j" "fj_sources (no_lease j) = fj_sources j"
  "fj_attempts (no_lease j) = fj_attempts j" "fj_limit (no_lease j) = fj_limit j"
  by (simp_all add: no_lease_def)

lemma dead_job_sel [simp]:
  "fj_id (dead_job now j) = fj_id j" "fj_status (dead_job now j) = Job_Dead_Letter"
  "fj_attempts (dead_job now j) = fj_attempts j" "fj_limit (dead_job now j) = fj_limit j"
  "same_range (dead_job now j) j"
  by (simp_all add: dead_job_def same_range_def)

lemma claimed_job_sel [simp]:
  "fj_id (claimed_job owner token now lease j) = fj_id j"
  "fj_attempts (claimed_job owner token now lease j) = fj_attempts j + 1"
  "fj_limit (claimed_job owner token now lease j) = fj_limit j"
  "same_range (claimed_job owner token now lease j) j"
  by (simp_all add: claimed_job_def same_range_def)

text \<open>The first phase of a claim: jobs whose lease ran out with no attempt left.\<close>

definition bury :: "time \<Rightarrow> formation_store \<Rightarrow> formation_store" where
  "bury now s = s\<lparr>fo_jobs := put_all fj_id
     (map (dead_job now) (filter (job_exhausted now) (dvalues (fo_jobs s)))) (fo_jobs s)\<rparr>"

lemma bury_get:
  assumes "formation_ok hash s"
  shows "dget (fo_jobs (bury now s)) i =
    map_option (\<lambda>j. if job_exhausted now j then dead_job now j else j) (dget (fo_jobs s) i)"
  by (simp add: bury_def dget_put_all_map[OF formation_okD(2)[OF assms]])

lemma bury_ok:
  assumes ok: "formation_ok hash s"
  shows "formation_ok hash (bury now s)"
proof -
  let ?js = "fo_jobs (bury now s)"
  have "formation_ok hash (s\<lparr>fo_jobs := ?js\<rparr>)"
  proof (rule jobs_changed_ok[OF ok, where g = "\<lambda>i j. if job_exhausted now j then dead_job now j else j"])
    show "filed fj_id ?js" using formation_okD(2)[OF ok] by (simp add: bury_def filed_put_all)
    show "dget ?js i = map_option (\<lambda>j. if job_exhausted now j then dead_job now j else j) (dget (fo_jobs s) i)" for i
      by (rule bury_get[OF ok])
  qed (use formation_okD(3)[OF ok] in \<open>auto simp: same_range_def dead_job_def\<close>)
  then show ?thesis by (simp add: bury_def)
qed

lemma claim_job_cases:
  assumes ok: "formation_ok hash s" and c: "claim_job owner token now lease s = (r, s')"
  obtains (none) "r = None" "s' = bury now s" "\<And>i j. dget (fo_jobs (bury now s)) i = Some j \<Longrightarrow> \<not> job_eligible now j"
    | (claimed) j where "dget (fo_jobs (bury now s)) (fj_id j) = Some j" "job_eligible now j"
      "r = Some (claimed_job owner token now lease j)"
      "s' = (bury now s)\<lparr>fo_jobs := dput (fj_id j) (claimed_job owner token now lease j) (fo_jobs (bury now s))\<rparr>"
      "\<And>i x. dget (fo_jobs (bury now s)) i = Some x \<Longrightarrow> job_eligible now x \<Longrightarrow>
         (fj_created j, fj_id j) \<le> (fj_created x, fj_id x)"
proof -
  let ?s = "bury now s" and ?f = "\<lambda>j. (fj_created j, fj_id j)"
  let ?e = "filter (job_eligible now) (dvalues (fo_jobs ?s))"
  have c: "(r, s') = (if ?e = [] then (None, ?s)
      else let j = claimed_job owner token now lease (arg_min_list ?f ?e)
           in (Some j, ?s\<lparr>fo_jobs := dput (fj_id j) j (fo_jobs ?s)\<rparr>))"
    using c unfolding claim_job_def bury_def Let_def by simp
  show thesis
  proof (cases "?e = []")
    case True
    then have "\<not> job_eligible now j" if "dget (fo_jobs ?s) i = Some j" for i j
      using dget_in_values[OF that] by (auto simp: filter_empty_conv)
    with c True none show thesis by simp
  next
    case False
    define j where "j = arg_min_list ?f ?e"
    note least = arg_min_filter[where f = ?f, OF False, folded j_def]
    have at: "dget (fo_jobs ?s) (fj_id j) = Some j"
      by (rule filed_get[OF formation_okD(2)[OF bury_ok[OF ok]] least(1)])
    have min: "?f j \<le> ?f x" if "dget (fo_jobs ?s) i = Some x" "job_eligible now x" for i x
      by (rule least(3)[OF dget_in_values[OF that(1)] that(2)])
    from c False have "r = Some (claimed_job owner token now lease j)"
      "s' = ?s\<lparr>fo_jobs := dput (fj_id j) (claimed_job owner token now lease j) (fo_jobs ?s)\<rparr>"
      by (simp_all add: j_def Let_def)
    from claimed[OF at least(2) this min] show thesis .
  qed
qed

lemma formation_step_ok:
  assumes st: "formation_step hash s es s'" and h: "inj hash" and ok: "formation_ok hash s"
  shows "formation_ok hash s'"
  using st
proof (cases rule: formation_step.cases)
  case (append t r)
  then show ?thesis
    using ok append_put_ok[OF ok append(2,3)] by (auto simp: append_turn_def split: option.splits)
next
  case (window t cfg fresh w r)
  from ok window(2,3,4) h window(5,7) show ?thesis
  proof (cases rule: append_window_cases)
    case (frozen s1 j)
    have "dget (fo_jobs s1) fresh = None" using window(6) frozen(2) by (simp add: extend_deadlines_def)
    with frozen show ?thesis
      using frozen_range_ok[OF frozen(3) window(4) h window(5) frozen(4)] by simp
  qed (use ok in simp_all)
next
  case (create cfg fresh now trigger sk m d r)
  from ok create(2) h create(3,5) show ?thesis
  proof (cases rule: create_job_cases)
    case (frozen ts j)
    then show ?thesis using frozen_range_ok[OF ok create(2) h create(3) frozen(2) create(4)] by simp
  qed (use ok in simp)
next
  case (add j r)
  show ?thesis
  proof (cases "s' = s")
    case False
    then have s': "s' = store_job j s" and new: "dget (fo_keys s) (fj_key j) = None" "dget (fo_jobs s) (fj_id j) = None"
      using add(4) by (auto simp: add_job_def split: option.splits)
    have "turn_placed s' t" if "turn_placed s t" for t
      by (rule turn_placed_mono[OF that]) (use new in \<open>auto simp: s'\<close>)
    moreover have "range_of hash s' x = range_of hash s x" for x by (simp add: range_of_def s')
    moreover have "fj_key x \<noteq> fj_key j" if "dget (fo_jobs s) i = Some x" for i x
      using formation_okD(4)[OF ok that] new(1) by auto
    moreover have "dget (fo_keys s) k \<noteq> Some (fj_id j)" for k
      using formation_okD(6)[OF ok, of k "fj_id j"] new(2) by auto
    ultimately show ?thesis
      using ok add(2,3) unfolding formation_ok_def s' store_job_sel
      by (auto simp: fresh_job_def filed_dput)
  qed (use ok in simp)
next
  case (claim owner token now lease r)
  from ok claim(2) show ?thesis
  proof (cases rule: claim_job_cases)
    case none
    then show ?thesis using bury_ok[OF ok] by simp
  next
    case (claimed j)
    then show ?thesis
      using job_put_ok[OF bury_ok[OF ok] claimed(1)] by (simp add: job_eligible_def)
  qed
next
  case (complete i owner token now summary j)
  then obtain j0 where j0: "held_job i owner token now s = Inr j0" and
    s': "s' = (let s1 = form_turns (fj_sources j0) (s\<lparr>fo_jobs := dput i j (fo_jobs s)\<rparr>)
      in if str_set (fj_session j0) then advance_watermark (fj_tenant j0, fj_user j0, the (fj_session j0)) s1 else s1)"
    and j: "same_range j j0" "fj_attempts j = fj_attempts j0" "fj_limit j = fj_limit j0"
    by (auto simp: complete_job_def Let_def same_range_def split: sum.splits)
  have "formation_ok hash (s\<lparr>fo_jobs := dput i j (fo_jobs s)\<rparr>)"
    using job_put_ok[OF ok _ j(1)] formation_okD(3)[OF ok] j0 j by (simp add: held_job_Inr)
  then show ?thesis by (simp add: s' Let_def form_turns_ok advance_watermark_ok)
next
  case (fail i owner token now code retry_at j)
  then obtain j0 where j0: "held_job i owner token now s = Inr j0" and s': "s' = s\<lparr>fo_jobs := dput i j (fo_jobs s)\<rparr>"
    and j: "same_range j j0" "fj_attempts j = fj_attempts j0" "fj_limit j = fj_limit j0"
    by (auto simp: fail_job_def Let_def same_range_def split: sum.splits)
  then show ?thesis
    using job_put_ok[OF ok _ j(1)] formation_okD(3)[OF ok] by (simp add: held_job_Inr)
qed


subsection \<open>Every step refines the queue\<close>

lemma formation_abs_cong: "fo_jobs s' = fo_jobs s \<Longrightarrow> formation_abs s' = formation_abs s"
  by (simp add: formation_abs_def)

lemma formation_abs_Some: "dget (fo_jobs s) i = Some j \<Longrightarrow> formation_abs s i = Some (abs_job j)"
  by (simp add: formation_abs_def table_queue_def)

lemma formation_abs_store:
  assumes "dget (fo_jobs s) (fj_id j) = None" "fresh_job j" "fo_jobs s' = dput (fj_id j) j (fo_jobs s)"
  shows "queue_run (formation_abs s) (enqueued (fj_id j) s s') (formation_abs s')"
proof -
  have "queue_step (formation_abs s) (Enqueued (fj_id j)) (formation_abs s')"
    unfolding formation_abs_def assms(3)
    by (rule table_enqueue) (use assms(1,2) in \<open>simp_all add: abs_job_def fresh_job_def phase_of_job_def\<close>)
  then show ?thesis using assms(1,3) by (simp add: enqueued_def queue_run_Cons)
qed

lemma lease_over_job: "lease_over now (phase_of_job j) \<longleftrightarrow> job_expired now j"
  by (cases "fj_status j") (auto simp: lease_over_def phase_of_job_def job_expired_def split: option.splits)

lemma job_spent_abs: "job_spent now (abs_job j) \<longleftrightarrow> job_exhausted now j"
  by (auto simp: job_spent_def abs_job_def job_exhausted_def lease_over_job)

lemma job_due_abs: "job_due now (abs_job j) \<longleftrightarrow> job_eligible now j"
  by (cases "fj_status j"; cases "fj_next j")
    (auto simp: job_due_def abs_job_def job_eligible_def lease_over_job phase_of_job_def job_expired_def lease_over_def
      split: option.splits)

lemma held_by_abs: "held_job i owner token now s = Inr j \<Longrightarrow> held_by owner token now (abs_job j)"
  by (auto simp: held_job_Inr held_by_def abs_job_def phase_of_job_def)

lemma claim_refines:
  assumes ok: "formation_ok hash s" and c: "claim_job owner token now lease s = (r, s')"
  shows "queue_run (formation_abs s)
    (map (Given_Up \<circ> fj_id) (filter (job_exhausted now) (dvalues (fo_jobs s))) @
     (case r of None \<Rightarrow> [] | Some j \<Rightarrow> [Granted (fj_id j) owner token now (now + lease)])) (formation_abs s')"
proof -
  let ?js = "filter (job_exhausted now) (dvalues (fo_jobs s))"
  note f = formation_okD(2)[OF ok]
  have "queue_run (table_queue abs_job (fo_jobs s)) (map (Given_Up \<circ> fj_id) ?js)
      (table_queue abs_job (put_all fj_id (map (dead_job now) ?js) (fo_jobs s)))"
  proof (rule table_give_up_all)
    show "distinct (map fj_id ?js)" by (rule distinct_map_filter[OF filed_distinct[OF f]])
    show "dget (fo_jobs s) (fj_id j) = Some j \<and> job_spent now (abs_job j)" if "j \<in> set ?js" for j
      using that filed_get[OF f, of j] by (auto simp: job_spent_abs)
  qed (simp_all add: abs_job_def phase_of_job_def)
  then have b: "queue_run (formation_abs s) (map (Given_Up \<circ> fj_id) ?js) (formation_abs (bury now s))"
    by (simp add: formation_abs_def bury_def)
  from ok c show ?thesis
  proof (cases rule: claim_job_cases)
    case none
    with b show ?thesis by simp
  next
    case (claimed j)
    have s': "fo_jobs s' = dput (fj_id j) (claimed_job owner token now lease j) (fo_jobs (bury now s))"
      by (simp add: claimed(4))
    have "queue_step (formation_abs (bury now s)) (Granted (fj_id j) owner token now (now + lease)) (formation_abs s')"
      unfolding formation_abs_def s'
      by (rule table_grant[where f = abs_job, OF claimed(1) job_due_abs[THEN iffD2, OF claimed(2)]])
        (simp add: abs_job_def phase_of_job_def claimed_job_def)
    with b claimed(3) show ?thesis by (simp add: queue_run_snoc)
  qed
qed

lemma formation_step_refines:
  assumes st: "formation_step hash s es s'" and h: "inj hash" and ok: "formation_ok hash s"
  shows "queue_run (formation_abs s) es (formation_abs s')"
  using st
proof (cases rule: formation_step.cases)
  case (append t r)
  then have "formation_abs s' = formation_abs s"
    by (intro formation_abs_cong) (auto simp: append_turn_def split: option.splits)
  with append(1) show ?thesis by simp
next
  case (window t cfg fresh w r)
  from ok window(2,3,4) h window(5,7) show ?thesis
  proof (cases rule: append_window_cases)
    case (frozen s1 j)
    have "fo_jobs s1 = fo_jobs s" using frozen(2) by (simp add: extend_deadlines_def)
    with frozen window(1,6) show ?thesis
      using formation_abs_store[of s j s'] by (simp add: fresh_job_def job_valid_def)
  next
    case (stored s1)
    then have same: "fo_jobs s' = fo_jobs s" by (simp add: extend_deadlines_def)
    with window(1) formation_abs_cong[OF same] show ?thesis by (simp add: enqueued_def)
  qed (use window(1) in \<open>simp add: enqueued_def\<close>)
next
  case (create cfg fresh now trigger sk m d r)
  from ok create(2) h create(3,5) show ?thesis
  proof (cases rule: create_job_cases)
    case (frozen ts j)
    with create(1,4) show ?thesis
      using formation_abs_store[of s j s'] by (simp add: fresh_job_def job_valid_def)
  qed (use create(1) in \<open>simp add: enqueued_def\<close>)
next
  case (add j r)
  show ?thesis
  proof (cases "s' = s")
    case False
    then have "s' = store_job j s" "dget (fo_jobs s) (fj_id j) = None"
      using add(4) by (auto simp: add_job_def split: option.splits)
    with add(1,2) show ?thesis using formation_abs_store[of s j s'] by simp
  qed (use add(1) in \<open>simp add: enqueued_def\<close>)
next
  case (claim owner token now lease r)
  with claim_refines[OF ok claim(2)] show ?thesis by simp
next
  case (complete i owner token now summary j)
  then obtain j0 where j0: "held_job i owner token now s = Inr j0"
    and s': "fo_jobs s' = dput i j (fo_jobs s)" and j: "abs_job j = (abs_job j0)\<lparr>js_phase := Finished\<rparr>"
    by (auto simp: complete_job_def Let_def abs_job_def phase_of_job_def form_turns_def advance_watermark_def
        split: sum.splits)
  have "queue_step (formation_abs s) (Succeeded i owner token now) (formation_abs s')"
    unfolding formation_abs_def s'
    by (rule table_succeed[where f = abs_job, OF _ held_by_abs[OF j0] j]) (use j0 in \<open>simp add: held_job_Inr\<close>)
  with complete(1) show ?thesis by (simp add: queue_run_Cons)
next
  case (fail i owner token now code retry_at j)
  then obtain j0 where j0: "held_job i owner token now s = Inr j0"
    and s': "fo_jobs s' = dput i j (fo_jobs s)"
    and j: "abs_job j = (abs_job j0)\<lparr>js_phase := (if js_limit (abs_job j0) \<le> js_attempts (abs_job j0) then Dead
                                                 else Waiting (Some retry_at))\<rparr>"
    by (auto simp: fail_job_def Let_def abs_job_def phase_of_job_def split: sum.splits)
  have "queue_step (formation_abs s) (Failed i owner token now) (formation_abs s')"
    unfolding formation_abs_def s'
    by (rule table_fail[where f = abs_job, OF _ held_by_abs[OF j0] j]) (use j0 in \<open>simp add: held_job_Inr\<close>)
  with fail(1) show ?thesis by (simp add: queue_run_Cons)
qed

interpretation formation_queue: retry_queue formation_abs "formation_step hash"
    "\<lambda>s. inj hash \<and> formation_ok hash s" for hash
proof unfold_locales
  fix s show "inj hash \<and> formation_ok hash s \<Longrightarrow> queue_bounded (formation_abs s)"
    by (auto simp: queue_bounded_def formation_abs_def table_queue_def abs_job_def formation_okD(3))
qed (simp_all add: formation_step_ok formation_step_refines)

end
