(* ===== verification/Formation_Properties.thy ===== *)
theory Formation_Properties
  imports Formation_Ranges
begin

text \<open>
  The properties of the formation repository: its jobs are a retrying queue, ranges of turns are
  disjoint, the window trigger, and the watermark.
\<close>

subsection \<open>Properties\<close>

text \<open>
  C15: the repository of formation jobs refines the abstract retrying queue: whatever a method does to
  the jobs is the effect of the events it shows, and the invariant of the store is kept.
\<close>

theorem formation_refines_queue:
  assumes "inj hash" "formation_ok hash s" "formation_step hash s es s'"
  shows "queue_run (formation_abs s) es (formation_abs s') \<and> formation_ok hash s'"
  using formation_queue.step_refines[OF conjI[OF assms(1,2)] assms(3)]
    formation_queue.step_consistent[OF conjI[OF assms(1,2)] assms(3)] by blast

text \<open>
  C16: every formation job is worked on finitely often: over any history, the attempts a job has used
  and the grants it still receives are at most its limit, and a job that is completed or dead is never
  handed out again.
\<close>

theorem formation_job_terminates:
  assumes h: "inj hash" and ok: "formation_ok hash s" and hist: "history (formation_step hash) s es s'"
    and k: "dget (fo_jobs s) k = Some j"
  shows "fj_attempts j + grants_of k es \<le> fj_limit j \<and>
    (fj_status j \<in> {Job_Completed, Job_Skipped, Job_Dead_Letter} \<longrightarrow> grants_of k es = 0)"
proof -
  have no: "Requeued k \<notin> set es"
    using hist
  proof (induction rule: history.induct)
    case (cons s es s' fs s'')
    from cons.hyps(1) have "Requeued k \<notin> set es"
      by (cases rule: formation_step.cases) (auto simp: enqueued_def split: option.splits)
    with cons.IH show ?case by simp
  qed simp
  note a = formation_abs_Some[of s k j, OF k]
  have "grants_of k es = 0" if "fj_status j \<in> {Job_Completed, Job_Skipped, Job_Dead_Letter}"
  proof -
    have "job_ended (abs_job j)" using that by (auto simp: job_ended_def abs_job_def phase_of_job_def)
    from formation_queue.history_ended_final[OF hist conjI[OF h ok] a this no] show ?thesis by blast
  qed
  moreover have "fj_attempts j + grants_of k es \<le> fj_limit j"
    using formation_queue.history_grants_bounded[OF hist conjI[OF h ok] a no] by (simp add: abs_job_def)
  ultimately show ?thesis by blast
qed

text \<open>
  C17: only the worker that was granted a formation job last ends it, with its own token and before
  its lease runs out: a worker whose lease was taken over can neither complete the job nor fail it.
\<close>

theorem formation_job_fenced:
  assumes h: "inj hash" and ok: "formation_ok hash s"
    and hist: "history (formation_step hash) s (es @ Granted k owner token at until # fs @ [e]) s'"
    and e: "e = Succeeded k owner' token' now \<or> e = Failed k owner' token' now" and no: "grants_of k fs = 0"
  shows "owner' = owner \<and> token' = token \<and> now < until"
proof -
  have "Requeued k \<notin> set xs" if "history (formation_step hash) u xs v" for u v xs
    using that
  proof (induction rule: history.induct)
    case (cons u xs v ys w)
    from cons.hyps(1) have "Requeued k \<notin> set xs"
      by (cases rule: formation_step.cases) (auto simp: enqueued_def split: option.splits)
    with cons.IH show ?case by simp
  qed simp
  from this[OF hist] have "Requeued k \<notin> set fs" by simp
  with formation_queue.history_ends_by_holder[OF hist conjI[OF h ok] e no] show ?thesis by blast
qed

lemma formation_history_ok:
  "history (formation_step hash) s es s' \<Longrightarrow> inj hash \<Longrightarrow> formation_ok hash s \<Longrightarrow> formation_ok hash s'"
  using formation_queue.history_refines by blast

text \<open>
  C18: in every store the repository can reach, the ranges of jobs partition the turns: two jobs over
  ranges never share a turn, a range lies in one session without repetition, and each turn that was
  claimed is a source of exactly the job it names. So no turn is formed by two ranges.
\<close>

theorem formation_ranges_disjoint:
  assumes h: "inj hash" and hist: "history (formation_step hash) empty_formation_store es s"
  shows "(\<forall>i j i' j'. dget (fo_jobs s) i = Some j \<and> dget (fo_jobs s) i' = Some j' \<and>
            is_range_key (fj_key j) \<and> is_range_key (fj_key j') \<and> i \<noteq> i' \<longrightarrow>
            set (fj_sources j) \<inter> set (fj_sources j') = {}) \<and>
         (\<forall>i j. dget (fo_jobs s) i = Some j \<and> is_range_key (fj_key j) \<longrightarrow> distinct (fj_sources j) \<and>
            (\<exists>sk. \<forall>x\<in>set (fj_sources j). \<exists>t. dget (fo_turns s) x = Some t \<and> session_of t = sk)) \<and>
         (\<forall>x t. dget (fo_turns s) x = Some t \<and> ft_status t = Capsule_Claimed \<longrightarrow>
            (\<exists>i j. ft_job t = Some i \<and> dget (fo_jobs s) i = Some j \<and> x \<in> set (fj_sources j)))"
proof (intro conjI allI impI)
  have ok: "formation_ok hash s" by (rule formation_history_ok[OF hist h formation_ok_empty])
  have src: "ft_job t = Some i" if "dget (fo_jobs s) i = Some j" "is_range_key (fj_key j)"
    "x \<in> set (fj_sources j)" "dget (fo_turns s) x = Some t" for i j x t
    using formation_okD(5)[OF ok that(1,2)] filedD[OF formation_okD(2)[OF ok] that(1)] that(3,4)
    by (auto elim!: range_ofE)
  have there: "\<exists>t. dget (fo_turns s) x = Some t" if "dget (fo_jobs s) i = Some j" "is_range_key (fj_key j)"
    "x \<in> set (fj_sources j)" for i j x
    using formation_okD(5)[OF ok that(1,2)] that(3) by (auto elim!: range_ofE)
  fix i j i' j'
  assume a: "dget (fo_jobs s) i = Some j \<and> dget (fo_jobs s) i' = Some j' \<and>
      is_range_key (fj_key j) \<and> is_range_key (fj_key j') \<and> i \<noteq> i'"
  show "set (fj_sources j) \<inter> set (fj_sources j') = {}"
  proof (rule ccontr)
    assume "set (fj_sources j) \<inter> set (fj_sources j') \<noteq> {}"
    then obtain x where x: "x \<in> set (fj_sources j)" "x \<in> set (fj_sources j')" by blast
    obtain t where "dget (fo_turns s) x = Some t" using there[of i j x] a x by blast
    with src[of i j x t] src[of i' j' x t] a x show False by auto
  qed
next
  have ok: "formation_ok hash s" by (rule formation_history_ok[OF hist h formation_ok_empty])
  fix i j assume a: "dget (fo_jobs s) i = Some j \<and> is_range_key (fj_key j)"
  then have r: "range_of hash s j" using formation_okD(5)[OF ok] by blast
  then show "distinct (fj_sources j)" by (elim range_ofE)
  show "\<exists>sk. \<forall>x\<in>set (fj_sources j). \<exists>t. dget (fo_turns s) x = Some t \<and> session_of t = sk"
    using r by (elim range_ofE) blast
next
  have ok: "formation_ok hash s" by (rule formation_history_ok[OF hist h formation_ok_empty])
  fix x t assume a: "dget (fo_turns s) x = Some t \<and> ft_status t = Capsule_Claimed"
  then have "turn_placed s t" "ft_id t = x"
    using formation_okD(8)[OF ok, of x t] filedD[OF formation_okD(1)[OF ok], of x t] by blast+
  with a show "\<exists>i j. ft_job t = Some i \<and> dget (fo_jobs s) i = Some j \<and> x \<in> set (fj_sources j)"
    by (auto simp: turn_placed_def)
qed

subsection \<open>Windows and watermarks\<close>

text \<open>The pending turns of a session in the order of their arrival.\<close>

definition collected :: "session_key \<Rightarrow> formation_store \<Rightarrow> formation_turn list" where
  "collected sk s = filter (\<lambda>t. session_of t = sk \<and> formation_pending t) (dvalues (fo_turns s))"

lemma pending_of_collected: "pending_of sk s = sort_key turn_order (collected sk s)"
  by (simp add: pending_of_def collected_def)

lemma collected_extended:
  assumes ok: "formation_ok hash s" and t: "formation_pending t" "find_capsule t s = None"
    and s1: "s1 = extend_deadlines t (s\<lparr>fo_turns := dput (ft_id t) t (fo_turns s)\<rparr>)"
  shows "\<exists>d. pending_of (session_of t) s1 =
    map (\<lambda>p. p\<lparr>ft_deadline := d\<rparr>) (sort_key turn_order (collected (session_of t) s @ [t]))"
proof -
  let ?s = "s\<lparr>fo_turns := dput (ft_id t) t (fo_turns s)\<rparr>"
  let ?d = "effective_deadline t ?s" and ?P = "\<lambda>p. session_of p = session_of t \<and> formation_pending p"
  let ?g = "\<lambda>p::formation_turn. p\<lparr>ft_deadline := ?d\<rparr>"
  have f: "filed ft_id (fo_turns ?s)" using formation_okD(1)[OF ok] by (simp add: filed_dput)
  have g: "?P (?g p) = ?P p" for p by (simp add: session_of_def formation_pending_def)
  have vals: "dvalues (fo_turns s1) = map (\<lambda>p. if ?P p then ?g p else p) (dvalues (fo_turns ?s))"
    unfolding s1 extend_deadlines_def using dvalues_put_all_map[OF f, of ?g ?P] by simp
  have filt: "filter ?P (map (\<lambda>p. if ?P p then ?g p else p) ps) = map ?g (filter ?P ps)" for ps
    by (rule filter_map_if) (rule g)
  have "filter ?P (dvalues (fo_turns ?s)) = collected (session_of t) s @ [t]"
    using dvalues_dput_new[OF find_capsule_None[OF t(2)]] t(1) by (simp add: collected_def)
  then have "collected (session_of t) s1 = map ?g (collected (session_of t) s @ [t])"
    unfolding collected_def vals filt by (simp only: collected_def)
  moreover have "turn_order \<circ> ?g = turn_order" by (rule ext) (simp add: turn_order_def)
  ultimately have "pending_of (session_of t) s1 = map ?g (sort_key turn_order (collected (session_of t) s @ [t]))"
    by (simp only: pending_of_collected sort_key_map)
  then show ?thesis by blast
qed

text \<open>
  C19: the window trigger: a new turn is stored; while fewer than \<open>window\<close> turns of its session are
  pending no job is made; as soon as there are enough, the job covers exactly the first \<open>window\<close> pending
  turns in the order of their completion, and they are claimed by it.
\<close>

theorem window_job_correct:
  assumes ok: "formation_ok hash s" and t: "formation_pending t" "plain_turn t" "find_capsule t s = None"
    and cfg: "rc_hash cfg = hash" "inj hash" "plain (rc_policy cfg)" and new: "dget (fo_jobs s) fresh = None"
    and w: "append_window cfg fresh now window t s = (Inr (stored, job), s')"
  shows "stored = t \<and> ft_id t \<in> fst ` set (fo_turns s') \<and>
    (case job of
       None \<Rightarrow> length (collected (session_of t) s) + 1 < window \<and> fo_jobs s' = fo_jobs s
     | Some j \<Rightarrow>
         window \<le> length (collected (session_of t) s) + 1 \<and> fo_jobs s' = dput fresh j (fo_jobs s) \<and>
         fj_sources j = take window (map ft_id (sort_key turn_order (collected (session_of t) s @ [t]))) \<and>
         list_all (\<lambda>i. \<exists>u. dget (fo_turns s') i = Some u \<and> ft_status u = Capsule_Claimed \<and>
                           ft_job u = Some fresh) (fj_sources j))"
proof -
  from ok t(1,2) cfg w show ?thesis
  proof (cases rule: append_window_cases)
    case (replayed x)
    with t(3) show ?thesis by simp
  next
    case (stored s1)
    obtain d where p: "pending_of (session_of t) s1 =
        map (\<lambda>p. p\<lparr>ft_deadline := d\<rparr>) (sort_key turn_order (collected (session_of t) s @ [t]))"
      using collected_extended[OF ok t(1,3) stored(2)] ..
    have "dget (fo_turns s1) (ft_id t) \<noteq> None"
      unfolding stored(2) extend_deadlines_get[OF formation_okD(1)[OF append_put_ok[OF ok t]]] by simp
    then have "ft_id t \<in> fst ` set (fo_turns s1)" by (simp add: map_of_eq_None_iff)
    moreover have "fo_jobs s1 = fo_jobs s" using stored(2) by (simp add: extend_deadlines_def)
    moreover have "length (pending_of (session_of t) s1) = length (collected (session_of t) s) + 1"
      by (simp add: p)
    moreover have "stored = t" "job = None" "length (pending_of (session_of t) s1) < window"
      using stored(5) by auto
    ultimately show ?thesis by (simp add: stored(4))
  next
    case (frozen s1 j)
    let ?ts = "take window (pending_of (session_of t) s1)"
    obtain d where p: "pending_of (session_of t) s1 =
        map (\<lambda>p. p\<lparr>ft_deadline := d\<rparr>) (sort_key turn_order (collected (session_of t) s @ [t]))"
      using collected_extended[OF ok t(1,3) frozen(2)] ..
    have d: "distinct (map ft_id ?ts)" using frozen(4) unfolding freezable_def by blast
    have claimed: "\<exists>u. dget (fo_turns s') (ft_id x) = Some u \<and> ft_status u = Capsule_Claimed \<and> ft_job u = Some fresh"
      if x: "x \<in> set ?ts" for x
    proof (cases "find (\<lambda>t. ft_id t = ft_id x) ?ts")
      case None
      with x show ?thesis by (auto simp: find_None_iff)
    next
      case (Some u)
      then show ?thesis unfolding frozen(9) using claim_turns_get[OF d] by simp
    qed
    have "dget (fo_turns s1) (ft_id t) \<noteq> None"
      unfolding frozen(2) extend_deadlines_get[OF formation_okD(1)[OF append_put_ok[OF ok t]]] by simp
    then have "dget (fo_turns s') (ft_id t) \<noteq> None"
      unfolding frozen(9) claim_turns_get[OF d] by (auto split: option.splits)
    then have at: "ft_id t \<in> fst ` set (fo_turns s')" by (simp add: map_of_eq_None_iff)
    have "fo_jobs s1 = fo_jobs s" using frozen(2) by (simp add: extend_deadlines_def)
    then have jobs: "fo_jobs s' = dput fresh j (fo_jobs s)" using frozen(6,9) by simp
    have "map ft_id ?ts = take window (map ft_id (sort_key turn_order (collected (session_of t) s @ [t])))"
      by (simp add: p take_map comp_def)
    then have src: "fj_sources j = take window (map ft_id (sort_key turn_order (collected (session_of t) s @ [t])))"
      using frozen(6) by simp
    have "list_all (\<lambda>i. \<exists>u. dget (fo_turns s') i = Some u \<and> ft_status u = Capsule_Claimed \<and>
        ft_job u = Some fresh) (fj_sources j)"
      using claimed frozen(6) by (auto simp: list_all_iff)
    moreover have "stored = t" "job = Some j" using frozen(8) by auto
    moreover have "window \<le> length (collected (session_of t) s) + 1" using frozen(5) by (simp add: p)
    ultimately show ?thesis using at jobs src by simp
  qed
qed

lemma turn_order_inject:
  assumes "filed ft_id d" "t \<in> set (dvalues d)" "u \<in> set (dvalues d)" "turn_order t = turn_order u"
  shows "t = u"
  using assms by (metis filed_get option.inject prod.inject turn_order_def)

text \<open>The longest formed prefix of a sorted list of turns.\<close>

lemma formed_prefix:
  assumes s: "sorted (map turn_order ts)" and inj: "inj_on turn_order (set ts)"
    and m: "takeWhile turn_formed ts \<noteq> []" "m = List.last (takeWhile turn_formed ts)"
  shows "m \<in> set ts" "\<And>t. t \<in> set ts \<Longrightarrow> turn_order t \<le> turn_order m \<Longrightarrow> turn_formed t"
    "\<And>u. u \<in> set ts \<Longrightarrow> turn_order m < turn_order u \<Longrightarrow>
       \<exists>v\<in>set ts. turn_order m < turn_order v \<and> turn_order v \<le> turn_order u \<and> \<not> turn_formed v"
proof -
  let ?a = "takeWhile turn_formed ts" and ?b = "dropWhile turn_formed ts"
  have mem: "m \<in> set ?a" using m by simp
  then show mt: "m \<in> set ts" by (rule set_takeWhileD[THEN conjunct1])
  have "sorted (map turn_order ?a @ map turn_order ?b)"
    using s by (metis map_append takeWhile_dropWhile_id)
  then have parts: "sorted (map turn_order ?a)" "sorted (map turn_order ?b)"
    "\<forall>x\<in>set (map turn_order ?a). \<forall>y\<in>set (map turn_order ?b). x \<le> y"
    unfolding sorted_append by blast+
  have ab: "turn_order x \<le> turn_order y" if "x \<in> set ?a" "y \<in> set ?b" for x y
    using that parts(3) by auto
  have split: "x \<in> set ?a \<or> x \<in> set ?b" if "x \<in> set ts" for x
    using that by (metis Un_iff set_append takeWhile_dropWhile_id)
  have sub: "x \<in> set ts" if "x \<in> set ?b" for x using that by (metis set_dropWhileD)
  show "turn_formed t" if t: "t \<in> set ts" "turn_order t \<le> turn_order m" for t
  proof (cases "t \<in> set ?a")
    case True
    then show ?thesis by (auto dest: set_takeWhileD)
  next
    case False
    then have "turn_order m \<le> turn_order t" using split[OF t(1)] ab[OF mem] by blast
    then have "t = m" using inj t mt by (auto simp: inj_on_def)
    with False mem show ?thesis by simp
  qed
  show "\<exists>v\<in>set ts. turn_order m < turn_order v \<and> turn_order v \<le> turn_order u \<and> \<not> turn_formed v"
    if u: "u \<in> set ts" "turn_order m < turn_order u" for u
  proof -
    have "u \<notin> set ?a"
    proof
      assume "u \<in> set ?a"
      have "?a = butlast ?a @ [m]" using m by simp
      then have "sorted (map turn_order (butlast ?a) @ [turn_order m])" "u = m \<or> u \<in> set (butlast ?a)"
        using parts(1) \<open>u \<in> set ?a\<close>
        by (metis map_append list.simps(8,9), metis Un_iff set_append set_ConsD empty_iff list.set(1))
      then have "turn_order u \<le> turn_order m" by (auto simp: sorted_append)
      with u(2) show False by simp
    qed
    then have ub: "u \<in> set ?b" using split[OF u(1)] by blast
    then obtain v bs where b: "?b = v # bs" by (cases ?b) auto
    then have v: "\<not> turn_formed v" by (simp add: dropWhile_eq_Cons_conv)
    have vb: "v \<in> set ?b" using b by simp
    have "turn_order v \<noteq> turn_order m"
      using inj mt sub[OF vb] v mem by (auto simp: inj_on_def dest: set_takeWhileD)
    moreover have "turn_order m \<le> turn_order v" by (rule ab[OF mem vb])
    moreover have "turn_order v \<le> turn_order u"
      using parts(2) ub b by auto
    ultimately show ?thesis using v sub[OF vb] by (intro bexI[of _ v]) auto
  qed
qed

lemma unformed_head:
  assumes "sorted (map turn_order ts)" "takeWhile turn_formed ts = []" "u \<in> set ts"
  shows "\<exists>t\<in>set ts. turn_order t \<le> turn_order u \<and> \<not> turn_formed t"
  using assms by (cases ts) (auto split: if_splits)

text \<open>
  C20: completing a job forms all its turns and advances the watermark of its session to the end of the
  longest formed prefix: no turn up to the watermark is unformed, and right after it comes an unformed
  turn or none. The watermark stays as it was exactly when there is no such prefix, that is when every turn
  of the session is or follows an unformed one; other sessions keep theirs.
\<close>

theorem complete_job_watermark:
  assumes ok: "formation_ok hash s" and c: "complete_job i owner token now summary s = (Inr j, s')"
    and sess: "fj_session j = Some sess" "sess \<noteq> []" and sk: "sk = (fj_tenant j, fj_user j, sess)"
  shows "(\<forall>x t. dget (fo_turns s') x = Some t \<and> x \<in> set (fj_sources j) \<longrightarrow> ft_status t = Capsule_Formed) \<and>
    (\<forall>k. k \<noteq> sk \<longrightarrow> dget (fo_marks s') k = dget (fo_marks s) k) \<and>
    (if \<forall>y u. dget (fo_turns s') y = Some u \<and> session_of u = sk \<longrightarrow>
          (\<exists>x t. dget (fo_turns s') x = Some t \<and> session_of t = sk \<and> turn_order t \<le> turn_order u \<and> \<not> turn_formed t)
     then dget (fo_marks s') sk = dget (fo_marks s) sk
     else \<exists>m. dget (fo_marks s') sk = Some (ft_id m) \<and> dget (fo_turns s') (ft_id m) = Some m \<and> session_of m = sk \<and>
        (\<forall>x t. dget (fo_turns s') x = Some t \<and> session_of t = sk \<and> turn_order t \<le> turn_order m \<longrightarrow> turn_formed t) \<and>
        (\<forall>y u. dget (fo_turns s') y = Some u \<and> session_of u = sk \<and> turn_order m < turn_order u \<longrightarrow>
           (\<exists>x t. dget (fo_turns s') x = Some t \<and> session_of t = sk \<and> turn_order m < turn_order t \<and>
              turn_order t \<le> turn_order u \<and> \<not> turn_formed t)))"
proof -
  obtain j0 where j0: "held_job i owner token now s = Inr j0"
    and s1: "s' = advance_watermark sk (form_turns (fj_sources j) (s\<lparr>fo_jobs := dput i j (fo_jobs s)\<rparr>))"
    using c sess sk by (auto simp: complete_job_def Let_def no_lease_def split: sum.splits)
  define s2 where "s2 = form_turns (fj_sources j) (s\<lparr>fo_jobs := dput i j (fo_jobs s)\<rparr>)"
  have turns: "fo_turns s' = fo_turns s2" by (simp add: s1 s2_def[symmetric] advance_watermark_def Let_def)
  have filed: "filed ft_id (fo_turns s2)"
    unfolding s2_def by (rule form_turns_filed) (use formation_okD(1)[OF ok] in simp)
  have formed: "ft_status t = Capsule_Formed" if "dget (fo_turns s') x = Some t" "x \<in> set (fj_sources j)" for x t
    using that by (auto simp: turns s2_def form_turns_get)
  have marks2: "fo_marks s2 = fo_marks s" by (simp add: s2_def form_turns_def)
  let ?ts = "turns_of_session sk s2"
  have set: "t \<in> set ?ts \<longleftrightarrow> dget (fo_turns s') (ft_id t) = Some t \<and> session_of t = sk" for t
    using filed_values[OF filed, of t] by (auto simp: turns_of_session_def turns)
  have sorted: "sorted (map turn_order ?ts)" by (simp add: turns_of_session_def)
  have inj: "inj_on turn_order (set ?ts)"
  proof (rule inj_onI)
    fix x y assume "x \<in> set ?ts" "y \<in> set ?ts" "turn_order x = turn_order y"
    then show "x = y" by (intro turn_order_inject[OF filed]) (auto simp: turns_of_session_def)
  qed
  have others: "dget (fo_marks s') k = dget (fo_marks s) k" if "k \<noteq> sk" for k
    using that by (simp add: s1 s2_def[symmetric] advance_watermark_def Let_def marks2)
  have key: "t \<in> set ?ts" if "dget (fo_turns s') x = Some t" "session_of t = sk" for x t
    using that filedD[OF filed, of x t] by (simp add: set turns)
  show ?thesis
  proof (cases "takeWhile turn_formed ?ts = []")
    case True
    then have marks: "fo_marks s' = fo_marks s"
      by (simp add: s1 s2_def[symmetric] advance_watermark_def Let_def marks2)
    have stuck: "\<forall>y u. dget (fo_turns s') y = Some u \<and> session_of u = sk \<longrightarrow>
        (\<exists>x t. dget (fo_turns s') x = Some t \<and> session_of t = sk \<and> turn_order t \<le> turn_order u \<and> \<not> turn_formed t)"
      using unformed_head[OF sorted True key] set by blast
    show ?thesis unfolding if_P[OF stuck] marks using formed by blast
  next
    case False
    define m where "m = List.last (takeWhile turn_formed ?ts)"
    note p = formed_prefix[OF sorted inj False m_def]
    have mark: "dget (fo_marks s') sk = Some (ft_id m)"
      using False by (simp add: s1 s2_def[symmetric] advance_watermark_def Let_def m_def)
    have low: "turn_formed t" if "dget (fo_turns s') x = Some t" "session_of t = sk" "turn_order t \<le> turn_order m" for x t
      by (rule p(2)[OF key[OF that(1,2)] that(3)])
    have high: "\<exists>x t. dget (fo_turns s') x = Some t \<and> session_of t = sk \<and> turn_order m < turn_order t \<and>
        turn_order t \<le> turn_order u \<and> \<not> turn_formed t"
      if "dget (fo_turns s') y = Some u" "session_of u = sk" "turn_order m < turn_order u" for y u
      using p(3)[OF key[OF that(1,2)] that(3)] set by blast
    have m: "dget (fo_turns s') (ft_id m) = Some m" "session_of m = sk" using p(1) set by auto
    then have "\<not> (\<forall>y u. dget (fo_turns s') y = Some u \<and> session_of u = sk \<longrightarrow>
        (\<exists>x t. dget (fo_turns s') x = Some t \<and> session_of t = sk \<and> turn_order t \<le> turn_order u \<and> \<not> turn_formed t))"
      using low by blast
    then show ?thesis using formed others mark low high m by (simp only: if_False) blast
  qed
qed

subsection \<open>A concrete history\<close>

definition demo_capsule :: "ident \<Rightarrow> time \<Rightarrow> formation_turn" where
  "demo_capsule i at = \<lparr>ft_id = i, ft_request = i, ft_session = ''s'', ft_run = None, ft_user = ''u'',
     ft_tenant = ''t'', ft_agent = None, ft_user_text = [], ft_assistant_text = [],
     ft_result_status = ''completed'', ft_results = [], ft_plans = [], ft_artifacts = [],
     ft_memories = [], ft_deadline = Some (at + 30), ft_status = Capsule_Pending, ft_job = None,
     ft_completed = at, ft_created = at\<rparr>"

definition demo_range_config :: range_config where
  "demo_range_config = \<lparr>rc_hash = (\<lambda>x. x), rc_mode = Mode_Enforced, rc_model = ''m'', rc_prompt = ''p'',
     rc_policy = ''v'', rc_limit = 2\<rparr>"

definition demo_collecting :: formation_store where
  "demo_collecting = snd (append_window demo_range_config ''j'' 0 2 (demo_capsule ''a'' 1) empty_formation_store)"

definition demo_window :: formation_store where
  "demo_window = snd (append_window demo_range_config ''j'' 0 2 (demo_capsule ''b'' 2) demo_collecting)"

definition demo_working :: formation_store where
  "demo_working = snd (claim_job ''w'' ''tok'' 10 60 demo_window)"

definition demo_formed :: formation_store where
  "demo_formed = snd (complete_job ''j'' ''w'' ''tok'' 20 [] demo_working)"

definition demo_summary :: "formation_store \<Rightarrow> (ident \<times> formation_job_status \<times> ident list) list" where
  "demo_summary s = map (\<lambda>(i, j). (i, fj_status j, fj_sources j)) (fo_jobs s)"

lemma demo_capsule_fresh: "formation_pending (demo_capsule i at)" "plain i \<Longrightarrow> plain_turn (demo_capsule i at)"
  by (simp_all add: demo_capsule_def formation_pending_def plain_turn_def plain_def unit_sep_def)

lemma plain_letters [simp]: "plain ''a''" "plain ''b''" "plain ''v''"
  by (simp_all add: plain_def unit_sep_def)

lemma demo_range_config_sel [simp]: "rc_hash demo_range_config = (\<lambda>x. x)" "plain (rc_policy demo_range_config)"
  by (simp_all add: demo_range_config_def)

lemma demo_collecting_step:
  "append_window demo_range_config ''j'' 0 2 (demo_capsule ''a'' 1) empty_formation_store =
     (Inr (demo_capsule ''a'' 1, None), demo_collecting)"
  by code_simp

lemma demo_window_step:
  "\<exists>j. append_window demo_range_config ''j'' 0 2 (demo_capsule ''b'' 2) demo_collecting =
     (Inr (demo_capsule ''b'' 2, Some j), demo_window) \<and> fj_sources j = [''a'', ''b'']"
proof -
  let ?j = "range_job demo_range_config ''j'' 0 Turn_Window (''t'', ''u'', ''s'') [demo_capsule ''a'' 1, demo_capsule ''b'' 2]"
  have "append_window demo_range_config ''j'' 0 2 (demo_capsule ''b'' 2) demo_collecting =
     (Inr (demo_capsule ''b'' 2, Some ?j), demo_window) \<and> fj_sources ?j = [''a'', ''b'']" by code_simp
  then show ?thesis by blast
qed

lemma demo_fresh:
  "dget (fo_jobs demo_collecting) ''j'' = None" "find_capsule (demo_capsule ''b'' 2) demo_collecting = None"
  by code_simp+

lemma demo_working_step:
  "\<exists>j. claim_job ''w'' ''tok'' 10 60 demo_window = (Some j, demo_working) \<and> fj_id j = ''j''"
proof -
  have "case claim_job ''w'' ''tok'' 10 60 demo_window of (Some j, s) \<Rightarrow> s = demo_working \<and> fj_id j = ''j'' | _ \<Rightarrow> False"
    by code_simp
  then show ?thesis by (auto split: prod.splits option.splits)
qed

lemma demo_formed_step:
  "\<exists>j. complete_job ''j'' ''w'' ''tok'' 20 [] demo_working = (Inr j, demo_formed) \<and>
     fj_session j = Some ''s'' \<and> fj_tenant j = ''t'' \<and> fj_user j = ''u''"
proof -
  have "case complete_job ''j'' ''w'' ''tok'' 20 [] demo_working of
      (Inr j, s) \<Rightarrow> s = demo_formed \<and> fj_session j = Some ''s'' \<and> fj_tenant j = ''t'' \<and> fj_user j = ''u'' | _ \<Rightarrow> False"
    by code_simp
  then show ?thesis by (auto split: prod.splits sum.splits)
qed

lemma demo_no_exhausted: "filter (job_exhausted 10) (dvalues (fo_jobs demo_window)) = []"
  by code_simp

lemma demo_new_job: "enqueued ''j'' demo_collecting demo_window = [Enqueued ''j'']"
proof -
  have "dget (fo_jobs demo_collecting) ''j'' = None" "dget (fo_jobs demo_window) ''j'' \<noteq> None" by code_simp+
  then show ?thesis by (simp add: enqueued_def)
qed

lemma demo_history:
  "history (formation_step (\<lambda>x. x)) empty_formation_store [Enqueued ''j''] demo_window"
  "history (formation_step (\<lambda>x. x)) demo_window
     ([] @ Granted ''j'' ''w'' ''tok'' 10 70 # [] @ [Succeeded ''j'' ''w'' ''tok'' 20]) demo_formed"
proof -
  obtain j where w: "append_window demo_range_config ''j'' 0 2 (demo_capsule ''b'' 2) demo_collecting =
     (Inr (demo_capsule ''b'' 2, Some j), demo_window)" using demo_window_step by blast
  have a: "formation_step (\<lambda>x. x) empty_formation_store (enqueued ''j'' empty_formation_store demo_collecting) demo_collecting"
    by (rule formation_step.window[OF demo_capsule_fresh(1) demo_capsule_fresh(2) _ _ _ demo_collecting_step])
      (simp_all add: empty_formation_store_def)
  have "fo_jobs demo_collecting = []" by code_simp
  then have none: "enqueued ''j'' empty_formation_store demo_collecting = []"
    by (simp add: enqueued_def empty_formation_store_def)
  have b: "formation_step (\<lambda>x. x) demo_collecting [Enqueued ''j''] demo_window"
    using formation_step.window[OF demo_capsule_fresh(1) demo_capsule_fresh(2) _ _ demo_fresh(1) w]
    by (simp add: demo_new_job)
  show "history (formation_step (\<lambda>x. x)) empty_formation_store [Enqueued ''j''] demo_window"
    using history_two[of "formation_step (\<lambda>x. x)", OF a[unfolded none] b] by simp
  obtain c where c: "claim_job ''w'' ''tok'' 10 60 demo_window = (Some c, demo_working)" "fj_id c = ''j''"
    using demo_working_step by blast
  have s1: "formation_step (\<lambda>x. x) demo_window [Granted ''j'' ''w'' ''tok'' 10 70] demo_working"
    using formation_step.claim[where hash = "\<lambda>x. x", OF c(1)] c(2) by (simp add: demo_no_exhausted)
  obtain f where "complete_job ''j'' ''w'' ''tok'' 20 [] demo_working = (Inr f, demo_formed)"
    using demo_formed_step by blast
  then have s2: "formation_step (\<lambda>x. x) demo_working [Succeeded ''j'' ''w'' ''tok'' 20] demo_formed"
    by (rule formation_step.complete)
  show "history (formation_step (\<lambda>x. x)) demo_window
     ([] @ Granted ''j'' ''w'' ''tok'' 10 70 # [] @ [Succeeded ''j'' ''w'' ''tok'' 20]) demo_formed"
    using history_two[of "formation_step (\<lambda>x. x)", OF s1 s2] by simp
qed

lemma inj_same [simp]: "inj (\<lambda>x. x)"
  by (simp add: inj_def)

lemma demo_window_ok: "formation_ok (\<lambda>x. x) demo_window"
  by (rule formation_history_ok[OF demo_history(1) inj_same formation_ok_empty])

lemma demo_collecting_ok: "formation_ok (\<lambda>x. x) demo_collecting"
proof -
  have "formation_step (\<lambda>x. x) empty_formation_store (enqueued ''j'' empty_formation_store demo_collecting) demo_collecting"
    by (rule formation_step.window[OF demo_capsule_fresh(1) demo_capsule_fresh(2) _ _ _ demo_collecting_step])
      (simp_all add: empty_formation_store_def)
  from formation_step_ok[OF this inj_same formation_ok_empty] show ?thesis .
qed

lemma formation_refines_queue_witness:
  "queue_run (formation_abs demo_collecting) [Enqueued ''j''] (formation_abs demo_window)"
proof -
  obtain j where w: "append_window demo_range_config ''j'' 0 2 (demo_capsule ''b'' 2) demo_collecting =
     (Inr (demo_capsule ''b'' 2, Some j), demo_window)" using demo_window_step by blast
  have "formation_step (\<lambda>x. x) demo_collecting [Enqueued ''j''] demo_window"
    using formation_step.window[OF demo_capsule_fresh(1) demo_capsule_fresh(2) _ _ demo_fresh(1) w]
    by (simp add: demo_new_job)
  from formation_refines_queue[OF inj_same demo_collecting_ok this] show ?thesis by blast
qed

lemma formation_job_terminates_witness:
  "\<exists>j. dget (fo_jobs demo_window) ''j'' = Some j \<and>
     fj_attempts j + grants_of ''j'' [Granted ''j'' ''w'' ''tok'' 10 70, Succeeded ''j'' ''w'' ''tok'' 20] \<le> fj_limit j"
proof -
  have "dget (fo_jobs demo_window) ''j'' \<noteq> None" by code_simp
  then obtain j where j: "dget (fo_jobs demo_window) ''j'' = Some j" by blast
  from formation_job_terminates[OF inj_same demo_window_ok demo_history(2) j] j show ?thesis by auto
qed

lemma formation_job_fenced_witness:
  "history (formation_step (\<lambda>x. x)) demo_window
     ([] @ Granted ''j'' ''w'' ''tok'' 10 70 # [] @ [Succeeded ''j'' ''w'' ''tok'' 20]) demo_formed \<and>
   (\<nexists>s. history (formation_step (\<lambda>x. x)) demo_window
     ([] @ Granted ''j'' ''w'' ''tok'' 10 70 # [] @ [Succeeded ''j'' ''x'' ''tok'' 20]) s)"
proof -
  have "''x'' = ''w''" if "history (formation_step (\<lambda>x. x)) demo_window
     ([] @ Granted ''j'' ''w'' ''tok'' 10 70 # [] @ [Succeeded ''j'' ''x'' ''tok'' 20]) s" for s
    using formation_job_fenced[OF inj_same demo_window_ok that disjI1[OF refl]] by simp
  then show ?thesis using demo_history(2) by blast
qed

lemma formation_ranges_disjoint_witness:
  "\<exists>t i j. dget (fo_turns demo_window) ''a'' = Some t \<and> ft_job t = Some i \<and>
     dget (fo_jobs demo_window) i = Some j \<and> ''a'' \<in> set (fj_sources j)"
proof -
  have "case dget (fo_turns demo_window) ''a'' of None \<Rightarrow> False | Some t \<Rightarrow> ft_status t = Capsule_Claimed" by code_simp
  then obtain t where t: "dget (fo_turns demo_window) ''a'' = Some t" "ft_status t = Capsule_Claimed"
    by (auto split: option.splits)
  from formation_ranges_disjoint[OF inj_same demo_history(1), THEN conjunct2, THEN conjunct2] t
  show ?thesis by blast
qed

lemma window_job_correct_witness:
  "\<exists>j. append_window demo_range_config ''j'' 0 2 (demo_capsule ''b'' 2) demo_collecting =
     (Inr (demo_capsule ''b'' 2, Some j), demo_window) \<and>
   fo_jobs demo_window = dput ''j'' j (fo_jobs demo_collecting) \<and>
   fj_sources j = take 2 (map ft_id (sort_key turn_order (collected (''t'', ''u'', ''s'') demo_collecting @ [demo_capsule ''b'' 2])))"
proof -
  obtain j where w: "append_window demo_range_config ''j'' 0 2 (demo_capsule ''b'' 2) demo_collecting =
     (Inr (demo_capsule ''b'' 2, Some j), demo_window)" using demo_window_step by blast
  have "session_of (demo_capsule ''b'' 2) = (''t'', ''u'', ''s'')" by (simp add: session_of_def demo_capsule_def)
  with window_job_correct[OF demo_collecting_ok demo_capsule_fresh(1) demo_capsule_fresh(2) demo_fresh(2)
      _ inj_same _ demo_fresh(1) w] w
  show ?thesis by simp
qed

lemma complete_job_watermark_witness:
  "\<exists>j s'. complete_job ''j'' ''w'' ''tok'' 20 [] demo_working = (Inr j, s') \<and>
     dget (fo_marks s') (''t'', ''u'', ''s'') = Some ''b'' \<and>
     dget (fo_marks s') (''t'', ''u'', ''x'') = dget (fo_marks demo_working) (''t'', ''u'', ''x'')"
proof -
  obtain j where j: "complete_job ''j'' ''w'' ''tok'' 20 [] demo_working = (Inr j, demo_formed)"
    "fj_session j = Some ''s''" "fj_tenant j = ''t''" "fj_user j = ''u''" using demo_formed_step by blast
  obtain c where c: "claim_job ''w'' ''tok'' 10 60 demo_window = (Some c, demo_working)"
    using demo_working_step by blast
  have ok: "formation_ok (\<lambda>x. x) demo_working"
    by (rule formation_step_ok[OF formation_step.claim[OF c] inj_same demo_window_ok])
  have "dget (fo_marks demo_formed) (''t'', ''u'', ''s'') = Some ''b''" by code_simp
  moreover have "dget (fo_marks demo_formed) (''t'', ''u'', ''x'') = dget (fo_marks demo_working) (''t'', ''u'', ''x'')"
    using complete_job_watermark[OF ok j(1,2) _ refl, THEN conjunct2, THEN conjunct1] j(3,4) by simp
  ultimately show ?thesis using j(1) by blast
qed

end
