(* ===== verification/Index_Outbox.thy ===== *)
theory Index_Outbox
  imports Retry_Queue Knowledge_Sanitizer
begin

text \<open>
  The in-memory outbox of the memory index, \<open>MemoryIndexOutboxRepository\<close> of
  \<open>app/repositories/memory_index_operations.py\<close>: operations that an external memory provider still has
  to carry out, claimed under leases, retried with a limit, and requeued by governance.
\<close>

subsection \<open>Operations of the index\<close>

datatype index_operation_type = Index_Add | Index_Update | Index_Delete

datatype index_status = Index_Pending | Index_Claimed | Index_Retry | Index_Completed | Index_Dead_Letter

fun index_status_name :: "index_status \<Rightarrow> string" where
  "index_status_name Index_Pending = ''pending''"
| "index_status_name Index_Claimed = ''claimed''"
| "index_status_name Index_Retry = ''retry''"
| "index_status_name Index_Completed = ''completed''"
| "index_status_name Index_Dead_Letter = ''dead_letter''"

record index_operation =
  ix_id :: ident
  ix_key :: string
  ix_type :: index_operation_type
  ix_memory :: ident
  ix_revision :: "ident option"
  ix_tenant :: ident
  ix_external :: "ident option"
  ix_status :: index_status
  ix_attempts :: nat
  ix_limit :: nat
  ix_owner :: "ident option"
  ix_token :: "string option"
  ix_expires :: "time option"
  ix_next :: "time option"
  ix_error :: "string option"
  ix_meta :: "(string, json) dict"
  ix_created :: time
  ix_updated :: time

record index_outbox =
  xo_ops :: "(ident, index_operation) dict"
  xo_keys :: "(string, ident) dict"

definition empty_index_outbox :: index_outbox where
  "empty_index_outbox = \<lparr>xo_ops = [], xo_keys = []\<rparr>"

definition same_index_operation :: "index_operation \<Rightarrow> index_operation \<Rightarrow> bool" where
  "same_index_operation a b \<longleftrightarrow>
     ix_tenant a = ix_tenant b \<and> ix_memory a = ix_memory b \<and> ix_revision a = ix_revision b \<and> ix_type a = ix_type b"

subsection \<open>Adding and reading\<close>

text \<open>The identifier itself is not looked up: an operation with a new key replaces one of the same identifier.\<close>

definition index_add ::
    "index_operation \<Rightarrow> index_outbox \<Rightarrow> (py_exn + index_operation) \<times> index_outbox" where
  "index_add e s =
     (case dget (xo_keys s) (ix_key e) of
        Some i \<Rightarrow>
          (case dget (xo_ops s) i of
             None \<Rightarrow> (Inl (Runtime_Error ''KeyError''), s)
           | Some old \<Rightarrow>
               (if same_index_operation old e then Inr old
                else Inl (Value_Error ''Index operation identity conflict''), s))
      | None \<Rightarrow> (Inr e, s\<lparr>xo_ops := dput (ix_id e) e (xo_ops s), xo_keys := dput (ix_key e) (ix_id e) (xo_keys s)\<rparr>))"

definition index_get :: "ident \<Rightarrow> ident \<Rightarrow> index_outbox \<Rightarrow> index_operation option" where
  "index_get i tenant s =
     (case dget (xo_ops s) i of
        None \<Rightarrow> None
      | Some e \<Rightarrow> if ix_tenant e \<noteq> tenant then None else Some e)"

definition index_list_for_memory :: "ident \<Rightarrow> ident \<Rightarrow> nat \<Rightarrow> index_outbox \<Rightarrow> index_operation list" where
  "index_list_for_memory memory tenant limit s =
     take limit (sort_key (\<lambda>e. - ix_updated e)
       (filter (\<lambda>e. ix_memory e = memory \<and> ix_tenant e = tenant) (dvalues (xo_ops s))))"

definition recency :: "index_operation \<Rightarrow> time \<times> ident" where
  "recency e = (ix_updated e, ix_id e)"

definition index_latest_deletes :: "ident list \<Rightarrow> ident \<Rightarrow> index_outbox \<Rightarrow> (ident, index_operation) dict" where
  "index_latest_deletes memories tenant s =
     fold (\<lambda>e d. if ix_tenant e = tenant \<and> ix_memory e \<in> set memories \<and> ix_type e = Index_Delete \<and>
                    dget d (ix_memory e) = None
                 then dput (ix_memory e) e d else d)
       (rev (sort_key recency (rev (dvalues (xo_ops s))))) []"

definition index_repair_candidates :: "ident \<Rightarrow> string list \<Rightarrow> nat \<Rightarrow> index_outbox \<Rightarrow> index_operation list" where
  "index_repair_candidates tenant statuses limit s =
     take limit (sort_key ix_updated
       (filter (\<lambda>e. ix_tenant e = tenant \<and> index_status_name (ix_status e) \<in> set statuses) (dvalues (xo_ops s))))"

subsection \<open>Claiming and ending\<close>

definition index_expired :: "time \<Rightarrow> index_operation \<Rightarrow> bool" where
  "index_expired now e \<longleftrightarrow>
     ix_status e = Index_Claimed \<and> (case ix_expires e of None \<Rightarrow> False | Some t \<Rightarrow> t \<le> now)"

definition index_in_tenant :: "ident option \<Rightarrow> index_operation \<Rightarrow> bool" where
  "index_in_tenant tenant e \<longleftrightarrow> tenant = None \<or> Some (ix_tenant e) = tenant"

definition index_exhausted :: "ident option \<Rightarrow> time \<Rightarrow> index_operation \<Rightarrow> bool" where
  "index_exhausted tenant now e \<longleftrightarrow> index_in_tenant tenant e \<and> index_expired now e \<and> ix_limit e \<le> ix_attempts e"

definition index_no_lease :: "index_operation \<Rightarrow> index_operation" where
  "index_no_lease e = e\<lparr>ix_owner := None, ix_token := None, ix_expires := None\<rparr>"

definition index_dead :: "time \<Rightarrow> index_operation \<Rightarrow> index_operation" where
  "index_dead now e = (index_no_lease e)\<lparr>ix_status := Index_Dead_Letter,
     ix_error := Some ''lease_expired_attempts_exhausted'', ix_updated := now\<rparr>"

definition index_eligible :: "ident option \<Rightarrow> time \<Rightarrow> index_operation \<Rightarrow> bool" where
  "index_eligible tenant now e \<longleftrightarrow>
     index_in_tenant tenant e \<and> ix_attempts e < ix_limit e \<and>
     (ix_status e = Index_Pending \<or>
      ix_status e = Index_Retry \<and> (case ix_next e of None \<Rightarrow> True | Some t \<Rightarrow> t \<le> now) \<or>
      index_expired now e)"

definition index_leased :: "ident \<Rightarrow> string \<Rightarrow> time \<Rightarrow> int \<Rightarrow> index_operation \<Rightarrow> index_operation" where
  "index_leased owner token now lease e =
     e\<lparr>ix_status := Index_Claimed, ix_attempts := ix_attempts e + 1, ix_owner := Some owner,
       ix_token := Some token, ix_expires := Some (now + lease), ix_updated := now\<rparr>"

definition index_bury :: "ident option \<Rightarrow> time \<Rightarrow> index_outbox \<Rightarrow> index_outbox" where
  "index_bury tenant now s = s\<lparr>xo_ops := put_all ix_id
     (map (index_dead now) (filter (index_exhausted tenant now) (dvalues (xo_ops s)))) (xo_ops s)\<rparr>"

definition index_claim ::
    "ident \<Rightarrow> string \<Rightarrow> time \<Rightarrow> int \<Rightarrow> ident option \<Rightarrow> index_outbox \<Rightarrow> index_operation option \<times> index_outbox" where
  "index_claim owner token now lease tenant s =
     (let s1 = index_bury tenant now s;
          eligible = filter (index_eligible tenant now) (dvalues (xo_ops s1))
      in if eligible = [] then (None, s1)
         else
           let e = index_leased owner token now lease (arg_min_list (\<lambda>e. (ix_created e, ix_id e)) eligible)
           in (Some e, s1\<lparr>xo_ops := dput (ix_id e) e (xo_ops s1)\<rparr>))"

definition index_claimed ::
    "ident \<Rightarrow> ident \<Rightarrow> string \<Rightarrow> time \<Rightarrow> index_outbox \<Rightarrow> py_exn + index_operation" where
  "index_claimed i owner token now s =
     (case dget (xo_ops s) i of
        None \<Rightarrow> Inl (Value_Error ''Index operation not found'')
      | Some e \<Rightarrow>
          if ix_status e \<noteq> Index_Claimed then Inl (Value_Error ''Index operation is not claimed'')
          else if ix_owner e \<noteq> Some owner \<or> ix_token e \<noteq> Some token
          then Inl (Value_Error ''Index operation lease ownership changed'')
          else if (case ix_expires e of None \<Rightarrow> True | Some t \<Rightarrow> t \<le> now)
          then Inl (Value_Error ''Index operation lease expired'')
          else Inr e)"

definition index_merge :: "(string, json) dict \<Rightarrow> (string, json) dict \<Rightarrow> (string, json) dict" where
  "index_merge old new = fold (\<lambda>(k, v). dput k v) new old"

definition index_complete ::
    "ident \<Rightarrow> ident \<Rightarrow> string \<Rightarrow> time \<Rightarrow> ident option \<Rightarrow> (string, json) dict \<Rightarrow> index_outbox \<Rightarrow>
     (py_exn + index_operation) \<times> index_outbox" where
  "index_complete i owner token now external meta s =
     (case index_claimed i owner token now s of
        Inl x \<Rightarrow> (Inl x, s)
      | Inr e \<Rightarrow>
          let done' = (index_no_lease e)\<lparr>ix_status := Index_Completed,
                        ix_external := or_else external (ix_external e),
                        ix_meta := index_merge (ix_meta e) meta, ix_updated := now\<rparr>
          in (Inr done', s\<lparr>xo_ops := dput i done' (xo_ops s)\<rparr>))"

definition index_fail ::
    "ident \<Rightarrow> ident \<Rightarrow> string \<Rightarrow> time \<Rightarrow> string \<Rightarrow> time \<Rightarrow> index_outbox \<Rightarrow>
     (py_exn + index_operation) \<times> index_outbox" where
  "index_fail i owner token now code retry_at s =
     (case index_claimed i owner token now s of
        Inl x \<Rightarrow> (Inl x, s)
      | Inr e \<Rightarrow>
          let failed = (index_no_lease e)\<lparr>ix_status := (if ix_limit e \<le> ix_attempts e then Index_Dead_Letter
                                                          else Index_Retry),
                         ix_next := Some retry_at, ix_error := Some code, ix_updated := now\<rparr>
          in (Inr failed, s\<lparr>xo_ops := dput i failed (xo_ops s)\<rparr>))"

subsection \<open>Repairs by governance\<close>

definition opt_json :: "string option \<Rightarrow> json" where
  "opt_json x = (case x of None \<Rightarrow> JNull | Some s \<Rightarrow> JStr s)"

text \<open>
  \<open>accept_governance_repair\<close>: the result tells whether the request was already accepted. A repair that
  does not requeue only marks the operation as taken.
\<close>

definition index_requeued :: "index_operation \<Rightarrow> index_operation" where
  "index_requeued e = (index_no_lease e)\<lparr>ix_status := Index_Pending, ix_attempts := 0, ix_next := None, ix_error := None\<rparr>"

definition index_repair ::
    "ident \<Rightarrow> ident \<Rightarrow> index_status \<Rightarrow> string \<Rightarrow> time \<Rightarrow> bool \<Rightarrow> string option \<Rightarrow> string option \<Rightarrow> index_outbox \<Rightarrow>
     (py_exn + index_operation \<times> bool) \<times> index_outbox" where
  "index_repair i tenant expected key now requeue version anomaly s =
     (case index_get i tenant s of
        None \<Rightarrow> (Inl (Value_Error ''Governance repair target not found''), s)
      | Some e \<Rightarrow>
          let previous = jget (ix_meta e) ''governance_repair_key''
          in if previous = JStr key then
               (if jget (ix_meta e) ''governance_expected_version'' \<noteq> opt_json version \<or>
                   jget (ix_meta e) ''governance_expected_anomaly'' \<noteq> opt_json anomaly
                then Inl (Value_Error ''Governance repair request identity changed'')
                else Inr (e, True), s)
             else if \<not> requeue \<and> truthy previous
             then (Inl (Value_Error ''Canonical governance repair is already claimed''), s)
             else if ix_status e \<noteq> expected then (Inl (Value_Error ''Governance repair status changed''), s)
             else
               let meta = index_merge (ix_meta e)
                            [(''governance_repair_key'', JStr key),
                             (''governance_expected_version'', opt_json version),
                             (''governance_expected_anomaly'', opt_json anomaly)];
                   e' = (if requeue then index_requeued e else e)\<lparr>ix_meta := meta, ix_updated := now\<rparr>
               in (Inr (e', False), s\<lparr>xo_ops := dput i e' (xo_ops s)\<rparr>))"

subsection \<open>The outbox refines the retrying queue\<close>

definition index_phase :: "index_operation \<Rightarrow> phase" where
  "index_phase e =
     (case ix_status e of
        Index_Pending \<Rightarrow> Waiting None
      | Index_Retry \<Rightarrow> Waiting (ix_next e)
      | Index_Claimed \<Rightarrow> Leased (ix_owner e) (ix_token e) (ix_expires e)
      | Index_Completed \<Rightarrow> Finished
      | Index_Dead_Letter \<Rightarrow> Dead)"

definition abs_operation :: "index_operation \<Rightarrow> job_state" where
  "abs_operation e = \<lparr>js_phase = index_phase e, js_attempts = ix_attempts e, js_limit = ix_limit e\<rparr>"

definition index_abs :: "index_outbox \<Rightarrow> job_queue" where
  "index_abs s = table_queue abs_operation (xo_ops s)"

text \<open>One rule per method that writes; new operations are fresh.\<close>

inductive index_step :: "index_outbox \<Rightarrow> queue_event list \<Rightarrow> index_outbox \<Rightarrow> bool" where
  add: "dget (xo_ops s) (ix_id e) = None \<Longrightarrow> ix_status e = Index_Pending \<Longrightarrow> ix_attempts e = 0 \<Longrightarrow>
    1 \<le> ix_limit e \<Longrightarrow> index_add e s = (r, s') \<Longrightarrow>
    index_step s (if s' = s then [] else [Enqueued (ix_id e)]) s'"
| claim: "index_claim owner token now lease tenant s = (r, s') \<Longrightarrow>
    index_step s
      (map (Given_Up \<circ> ix_id) (filter (index_exhausted tenant now) (dvalues (xo_ops s))) @
       (case r of None \<Rightarrow> [] | Some e \<Rightarrow> [Granted (ix_id e) owner token now (now + lease)])) s'"
| complete: "index_complete i owner token now external meta s = (Inr e, s') \<Longrightarrow>
    index_step s [Succeeded i owner token now] s'"
| fail: "index_fail i owner token now code retry_at s = (Inr e, s') \<Longrightarrow>
    index_step s [Failed i owner token now] s'"
| repair: "index_repair i tenant expected key now requeue version anomaly s = (Inr (e, repeated), s') \<Longrightarrow>
    index_step s (if requeue \<and> \<not> repeated then [Requeued i] else []) s'"

definition index_ok :: "index_outbox \<Rightarrow> bool" where
  "index_ok s \<longleftrightarrow>
     filed ix_id (xo_ops s) \<and>
     (\<forall>i e. dget (xo_ops s) i = Some e \<longrightarrow> ix_attempts e \<le> ix_limit e \<and> 1 \<le> ix_limit e \<and>
        dget (xo_keys s) (ix_key e) = Some i) \<and>
     (\<forall>k i. dget (xo_keys s) k = Some i \<longrightarrow> (\<exists>e. dget (xo_ops s) i = Some e \<and> ix_key e = k))"

lemma index_okD:
  assumes "index_ok s"
  shows "filed ix_id (xo_ops s)" "dget (xo_ops s) i = Some e \<Longrightarrow> ix_attempts e \<le> ix_limit e"
    "dget (xo_ops s) i = Some e \<Longrightarrow> 1 \<le> ix_limit e"
    "dget (xo_ops s) i = Some e \<Longrightarrow> dget (xo_keys s) (ix_key e) = Some i"
    "dget (xo_keys s) k = Some i \<Longrightarrow> \<exists>e. dget (xo_ops s) i = Some e \<and> ix_key e = k"
  using assms unfolding index_ok_def by blast+

lemma index_ok_empty: "index_ok empty_index_outbox"
  by (simp add: index_ok_def empty_index_outbox_def)

subsection \<open>Every step keeps the invariant and refines the queue\<close>

definition same_entry :: "index_operation \<Rightarrow> index_operation \<Rightarrow> bool" where
  "same_entry a b \<longleftrightarrow> ix_id a = ix_id b \<and> ix_key a = ix_key b \<and> ix_limit a = ix_limit b"

lemma ops_changed_ok:
  assumes ok: "index_ok s" and f: "filed ix_id os"
    and j: "\<And>i. dget os i = map_option (g i) (dget (xo_ops s) i)"
    and g: "\<And>i e. dget (xo_ops s) i = Some e \<Longrightarrow> same_entry (g i e) e \<and> ix_attempts (g i e) \<le> ix_limit e"
  shows "index_ok (s\<lparr>xo_ops := os\<rparr>)"
  unfolding index_ok_def
proof (intro conjI allI impI)
  fix i e' assume "dget (xo_ops (s\<lparr>xo_ops := os\<rparr>)) i = Some e'"
  then obtain e where e: "dget (xo_ops s) i = Some e" "e' = g i e" using j by auto
  from g[OF e(1)] e(2) have same: "same_entry e' e" "ix_attempts e' \<le> ix_limit e" by simp_all
  then show "ix_attempts e' \<le> ix_limit e'" "1 \<le> ix_limit e'"
    "dget (xo_keys (s\<lparr>xo_ops := os\<rparr>)) (ix_key e') = Some i"
    using index_okD(3,4)[OF ok e(1)] by (simp_all add: same_entry_def)
next
  fix k i assume "dget (xo_keys (s\<lparr>xo_ops := os\<rparr>)) k = Some i"
  then obtain e where "dget (xo_ops s) i = Some e" "ix_key e = k" using index_okD(5)[OF ok] by auto
  with g[OF this(1)] show "\<exists>e. dget (xo_ops (s\<lparr>xo_ops := os\<rparr>)) i = Some e \<and> ix_key e = k"
    by (simp add: j same_entry_def)
qed (use f in simp)

lemma op_put_ok:
  assumes ok: "index_ok s" and e: "dget (xo_ops s) i = Some e" and e': "same_entry e' e" "ix_attempts e' \<le> ix_limit e"
  shows "index_ok (s\<lparr>xo_ops := dput i e' (xo_ops s)\<rparr>)"
proof (rule ops_changed_ok[OF ok, where g = "\<lambda>k x. if k = i then e' else x"])
  show "filed ix_id (dput i e' (xo_ops s))"
    using index_okD(1)[OF ok] filedD[OF index_okD(1)[OF ok] e] e' by (simp add: same_entry_def filed_dput)
qed (use e e' index_okD(2)[OF ok] in \<open>auto simp: same_entry_def option.map_ident\<close>)

lemma index_no_lease_sel [simp]:
  "ix_id (index_no_lease e) = ix_id e" "ix_key (index_no_lease e) = ix_key e"
  "ix_attempts (index_no_lease e) = ix_attempts e" "ix_limit (index_no_lease e) = ix_limit e"
  "ix_meta (index_no_lease e) = ix_meta e"
  by (simp_all add: index_no_lease_def)

lemma index_claimed_Inr:
  "index_claimed i owner token now s = Inr e \<longleftrightarrow>
     dget (xo_ops s) i = Some e \<and> ix_status e = Index_Claimed \<and> ix_owner e = Some owner \<and>
     ix_token e = Some token \<and> (\<exists>t. ix_expires e = Some t \<and> now < t)"
  by (auto simp: index_claimed_def split: option.splits if_splits)

lemma index_dead_sel [simp]:
  "ix_id (index_dead now e) = ix_id e" "ix_limit (index_dead now e) = ix_limit e" "ix_attempts (index_dead now e) = ix_attempts e"
  "ix_key (index_dead now e) = ix_key e" "same_entry (index_dead now e) e" "abs_operation (index_dead now e) = (abs_operation e)\<lparr>js_phase := Dead\<rparr>"
  by (simp_all add: index_dead_def same_entry_def abs_operation_def index_phase_def)

lemma index_bury_ok:
  assumes ok: "index_ok s"
  shows "index_ok (index_bury tenant now s)"
proof -
  let ?os = "xo_ops (index_bury tenant now s)"
  have "index_ok (s\<lparr>xo_ops := ?os\<rparr>)"
  proof (rule ops_changed_ok[OF ok, where g = "\<lambda>i e. if index_exhausted tenant now e then index_dead now e else e"])
    show "filed ix_id ?os" using index_okD(1)[OF ok] by (simp add: index_bury_def filed_put_all)
    show "dget ?os i = map_option (\<lambda>e. if index_exhausted tenant now e then index_dead now e else e) (dget (xo_ops s) i)" for i
      by (simp add: index_bury_def dget_put_all_map[OF index_okD(1)[OF ok]])
  qed (use index_okD(2)[OF ok] in \<open>auto simp: same_entry_def option.map_ident\<close>)
  then show ?thesis by (simp add: index_bury_def)
qed

lemma index_claim_cases:
  assumes ok: "index_ok s" and c: "index_claim owner token now lease tenant s = (r, s')"
  obtains (none) "r = None" "s' = index_bury tenant now s"
    | (claimed) e where "dget (xo_ops (index_bury tenant now s)) (ix_id e) = Some e" "index_eligible tenant now e"
      "r = Some (index_leased owner token now lease e)"
      "s' = (index_bury tenant now s)\<lparr>xo_ops :=
         dput (ix_id e) (index_leased owner token now lease e) (xo_ops (index_bury tenant now s))\<rparr>"
proof -
  let ?s = "index_bury tenant now s" and ?f = "\<lambda>e. (ix_created e, ix_id e)"
  let ?e = "filter (index_eligible tenant now) (dvalues (xo_ops ?s))"
  have c: "(r, s') = (if ?e = [] then (None, ?s)
      else let e = index_leased owner token now lease (arg_min_list ?f ?e)
           in (Some e, ?s\<lparr>xo_ops := dput (ix_id e) e (xo_ops ?s)\<rparr>))"
    using c unfolding index_claim_def Let_def by simp
  show thesis
  proof (cases "?e = []")
    case True
    with c none show thesis by simp
  next
    case False
    define e where "e = arg_min_list ?f ?e"
    note least = arg_min_filter[where f = ?f, OF False, folded e_def]
    have at: "dget (xo_ops ?s) (ix_id e) = Some e"
      by (rule filed_get[OF index_okD(1)[OF index_bury_ok[OF ok]] least(1)])
    have "ix_id (index_leased owner token now lease e) = ix_id e" by (simp add: index_leased_def)
    with c False have "r = Some (index_leased owner token now lease e)"
      "s' = ?s\<lparr>xo_ops := dput (ix_id e) (index_leased owner token now lease e) (xo_ops ?s)\<rparr>"
      by (simp_all add: e_def Let_def)
    from claimed[OF at least(2) this] show thesis .
  qed
qed

lemma lease_over_index: "lease_over now (index_phase e) \<longleftrightarrow> index_expired now e"
  by (cases "ix_status e") (auto simp: lease_over_def index_phase_def index_expired_def split: option.splits)

lemma index_spent_abs: "index_exhausted tenant now e \<Longrightarrow> job_spent now (abs_operation e)"
  by (auto simp: job_spent_def abs_operation_def index_exhausted_def lease_over_index)

lemma index_due_abs: "index_eligible tenant now e \<Longrightarrow> job_due now (abs_operation e)"
  by (cases "ix_status e"; cases "ix_next e")
    (auto simp: job_due_def abs_operation_def index_eligible_def lease_over_index index_phase_def index_expired_def
      lease_over_def split: option.splits)

lemma index_held_abs: "index_claimed i owner token now s = Inr e \<Longrightarrow> held_by owner token now (abs_operation e)"
  by (auto simp: index_claimed_Inr held_by_def abs_operation_def index_phase_def)

lemma index_get_Some: "index_get i tenant s = Some e \<longleftrightarrow> dget (xo_ops s) i = Some e \<and> ix_tenant e = tenant"
  by (auto simp: index_get_def split: option.splits)

lemma index_repair_cases:
  assumes "index_repair i tenant expected key now requeue version anomaly s = (Inr (e, repeated), s')"
  obtains (again) "repeated" "s' = s" "dget (xo_ops s) i = Some e"
      "jget (ix_meta e) ''governance_repair_key'' = JStr key"
    | (accepted) old where "\<not> repeated" "dget (xo_ops s) i = Some old" "ix_tenant old = tenant" "ix_status old = expected"
      "e = (if requeue then index_requeued old else old)\<lparr>ix_meta := index_merge (ix_meta old)
             [(''governance_repair_key'', JStr key), (''governance_expected_version'', opt_json version),
              (''governance_expected_anomaly'', opt_json anomaly)], ix_updated := now\<rparr>"
      "s' = s\<lparr>xo_ops := dput i e (xo_ops s)\<rparr>"
  using assms unfolding index_repair_def Let_def
  by (auto split: option.splits if_splits simp: index_get_Some)

lemma index_step_ok:
  assumes st: "index_step s es s'" and ok: "index_ok s"
  shows "index_ok s'"
  using st
proof (cases rule: index_step.cases)
  case (add e r)
  show ?thesis
  proof (cases "s' = s")
    case False
    then have s': "s' = s\<lparr>xo_ops := dput (ix_id e) e (xo_ops s), xo_keys := dput (ix_key e) (ix_id e) (xo_keys s)\<rparr>"
      and new: "dget (xo_keys s) (ix_key e) = None"
      using add(6) by (auto simp: index_add_def split: option.splits if_splits)
    have "ix_key x \<noteq> ix_key e" if "dget (xo_ops s) i = Some x" for i x
      using index_okD(4)[OF ok that] new by auto
    moreover have "dget (xo_keys s) k \<noteq> Some (ix_id e)" for k
      using index_okD(5)[OF ok, of k "ix_id e"] add(2) by auto
    ultimately show ?thesis
      using ok add(4,5) unfolding index_ok_def s' by (auto simp: filed_dput)
  qed (use ok in simp)
next
  case (claim owner token now lease tenant r)
  from ok claim(2) show ?thesis
  proof (cases rule: index_claim_cases)
    case (claimed e)
    then show ?thesis
      using op_put_ok[OF index_bury_ok[OF ok] claimed(1), of "index_leased owner token now lease e"]
      by (simp add: index_eligible_def index_leased_def same_entry_def)
  qed (use index_bury_ok[OF ok] in simp)
next
  case (complete i owner token now external meta e)
  then obtain e0 where e0: "index_claimed i owner token now s = Inr e0"
    and s': "s' = s\<lparr>xo_ops := dput i e (xo_ops s)\<rparr>" and e: "same_entry e e0" "ix_attempts e = ix_attempts e0"
    by (auto simp: index_complete_def Let_def same_entry_def split: sum.splits)
  have at: "dget (xo_ops s) i = Some e0" using e0 by (simp add: index_claimed_Inr)
  show ?thesis unfolding s' by (rule op_put_ok[OF ok at e(1)]) (simp add: e(2) index_okD(2)[OF ok at])
next
  case (fail i owner token now code retry_at e)
  then obtain e0 where e0: "index_claimed i owner token now s = Inr e0"
    and s': "s' = s\<lparr>xo_ops := dput i e (xo_ops s)\<rparr>" and e: "same_entry e e0" "ix_attempts e = ix_attempts e0"
    by (auto simp: index_fail_def Let_def same_entry_def split: sum.splits)
  have at: "dget (xo_ops s) i = Some e0" using e0 by (simp add: index_claimed_Inr)
  show ?thesis unfolding s' by (rule op_put_ok[OF ok at e(1)]) (simp add: e(2) index_okD(2)[OF ok at])
next
  case (repair i tenant expected key now requeue version anomaly e repeated)
  from repair(2) show ?thesis
  proof (cases rule: index_repair_cases)
    case (accepted old)
    then show ?thesis
      using op_put_ok[OF ok accepted(2), of e] index_okD(2)[OF ok accepted(2)]
      by (simp add: same_entry_def index_requeued_def)
  qed (use ok in simp)
qed

lemma index_step_refines:
  assumes st: "index_step s es s'" and ok: "index_ok s"
  shows "queue_run (index_abs s) es (index_abs s')"
  using st
proof (cases rule: index_step.cases)
  case (add e r)
  show ?thesis
  proof (cases "s' = s")
    case False
    then have s': "xo_ops s' = dput (ix_id e) e (xo_ops s)"
      using add(6) by (auto simp: index_add_def split: option.splits if_splits)
    have "queue_step (index_abs s) (Enqueued (ix_id e)) (index_abs s')"
      unfolding index_abs_def s' by (rule table_enqueue) (use add in \<open>simp_all add: abs_operation_def index_phase_def\<close>)
    with False add(1) show ?thesis by (simp add: queue_run_Cons)
  qed (use add(1) in simp)
next
  case (claim owner token now lease tenant r)
  let ?es = "filter (index_exhausted tenant now) (dvalues (xo_ops s))"
  note f = index_okD(1)[OF ok]
  have "queue_run (table_queue abs_operation (xo_ops s)) (map (Given_Up \<circ> ix_id) ?es)
      (table_queue abs_operation (put_all ix_id (map (index_dead now) ?es) (xo_ops s)))"
  proof (rule table_give_up_all)
    show "distinct (map ix_id ?es)" by (rule distinct_map_filter[OF filed_distinct[OF f]])
    show "dget (xo_ops s) (ix_id e) = Some e \<and> job_spent now (abs_operation e)" if "e \<in> set ?es" for e
      using that filed_get[OF f, of e] by (auto simp: index_spent_abs)
  qed simp_all
  then have b: "queue_run (index_abs s) (map (Given_Up \<circ> ix_id) ?es) (index_abs (index_bury tenant now s))"
    by (simp add: index_abs_def index_bury_def)
  from ok claim(2) show ?thesis
  proof (cases rule: index_claim_cases)
    case none
    with b claim(1) show ?thesis by simp
  next
    case (claimed e)
    have s': "xo_ops s' = dput (ix_id e) (index_leased owner token now lease e) (xo_ops (index_bury tenant now s))"
      by (simp add: claimed(4))
    have "queue_step (index_abs (index_bury tenant now s)) (Granted (ix_id e) owner token now (now + lease)) (index_abs s')"
      unfolding index_abs_def s'
      by (rule table_grant[where f = abs_operation, OF claimed(1) index_due_abs[OF claimed(2)]])
        (simp add: abs_operation_def index_phase_def index_leased_def)
    with b claimed(3) claim(1) show ?thesis by (simp add: queue_run_snoc index_leased_def)
  qed
next
  case (complete i owner token now external meta e)
  then obtain e0 where e0: "index_claimed i owner token now s = Inr e0" and s': "xo_ops s' = dput i e (xo_ops s)"
    and e: "abs_operation e = (abs_operation e0)\<lparr>js_phase := Finished\<rparr>"
    by (auto simp: index_complete_def Let_def abs_operation_def index_phase_def split: sum.splits)
  have "queue_step (index_abs s) (Succeeded i owner token now) (index_abs s')"
    unfolding index_abs_def s'
    by (rule table_succeed[where f = abs_operation, OF _ index_held_abs[OF e0] e]) (use e0 in \<open>simp add: index_claimed_Inr\<close>)
  with complete(1) show ?thesis by (simp add: queue_run_Cons)
next
  case (fail i owner token now code retry_at e)
  then obtain e0 where e0: "index_claimed i owner token now s = Inr e0" and s': "xo_ops s' = dput i e (xo_ops s)"
    and e: "abs_operation e = (abs_operation e0)\<lparr>js_phase := (if js_limit (abs_operation e0) \<le> js_attempts (abs_operation e0)
                                                 then Dead else Waiting (Some retry_at))\<rparr>"
    by (auto simp: index_fail_def Let_def abs_operation_def index_phase_def split: sum.splits)
  have "queue_step (index_abs s) (Failed i owner token now) (index_abs s')"
    unfolding index_abs_def s'
    by (rule table_fail[where f = abs_operation, OF _ index_held_abs[OF e0] e]) (use e0 in \<open>simp add: index_claimed_Inr\<close>)
  with fail(1) show ?thesis by (simp add: queue_run_Cons)
next
  case (repair i tenant expected key now requeue version anomaly e repeated)
  from repair(2) show ?thesis
  proof (cases rule: index_repair_cases)
    case again
    with repair(1) show ?thesis by simp
  next
    case (accepted old)
    have s': "xo_ops s' = dput i e (xo_ops s)" by (simp add: accepted(6))
    show ?thesis
    proof (cases requeue)
      case True
      have "queue_step (index_abs s) (Requeued i) (index_abs s')"
        unfolding index_abs_def s' by (rule table_requeue[where f = abs_operation, OF accepted(2)])
          (simp add: accepted(5) True abs_operation_def index_requeued_def index_phase_def)
      with repair(1) accepted(1) True show ?thesis by (simp add: queue_run_Cons)
    next
      case False
      have "index_abs s' = index_abs s"
        unfolding index_abs_def s' by (rule table_queue_same[OF accepted(2)])
          (simp add: accepted(5) False abs_operation_def index_phase_def split: index_status.split)
      with repair(1) False show ?thesis by simp
    qed
  qed
qed

interpretation index_queue: retry_queue index_abs index_step index_ok
proof unfold_locales
  fix s show "index_ok s \<Longrightarrow> queue_bounded (index_abs s)"
    by (auto simp: queue_bounded_def index_abs_def table_queue_def abs_operation_def index_okD(2))
qed (simp_all add: index_step_ok index_step_refines)


subsection \<open>Properties\<close>

text \<open>
  C21: the outbox of the memory index refines the abstract retrying queue, on all its methods: adding,
  claiming (for all tenants or one), completing, failing and the repairs of governance, and keeps its
  invariant. A repair that requeues is the only step that gives attempts back.
\<close>

theorem index_refines_queue:
  assumes "index_ok s" "index_step s es s'"
  shows "queue_run (index_abs s) es (index_abs s') \<and> index_ok s'"
  using index_queue.step_refines[OF assms] index_queue.step_consistent[OF assms] by blast

lemma index_merge_Cons [simp]: "index_merge d ((k, v) # kvs) = index_merge (dput k v d) kvs"
  by (simp add: index_merge_def)

lemma index_merge_Nil [simp]: "index_merge d [] = d"
  by (simp add: index_merge_def)

text \<open>
  A request that was accepted on the operation \<open>i\<close>: the operation carries its key and its expectations.
\<close>

definition request_marked :: "ident \<Rightarrow> ident \<Rightarrow> string \<Rightarrow> string option \<Rightarrow> string option \<Rightarrow> index_outbox \<Rightarrow> bool" where
  "request_marked i tenant key version anomaly s \<longleftrightarrow>
     (\<exists>e. dget (xo_ops s) i = Some e \<and> ix_tenant e = tenant \<and>
        jget (ix_meta e) ''governance_repair_key'' = JStr key \<and>
        jget (ix_meta e) ''governance_expected_version'' = opt_json version \<and>
        jget (ix_meta e) ''governance_expected_anomaly'' = opt_json anomaly)"

definition governance_fields :: "string set" where
  "governance_fields = {''governance_repair_key'', ''governance_expected_version'', ''governance_expected_anomaly''}"

text \<open>
  What can happen in between: all methods on all operations, except a completion that writes the fields of
  governance itself, and except that another request requeues the same operation.
\<close>

inductive unrelated_step :: "ident \<Rightarrow> string \<Rightarrow> index_outbox \<Rightarrow> index_outbox \<Rightarrow> bool" for i key where
  un_add: "dget (xo_ops s) (ix_id e) = None \<Longrightarrow> ix_status e = Index_Pending \<Longrightarrow> ix_attempts e = 0 \<Longrightarrow>
    1 \<le> ix_limit e \<Longrightarrow> index_add e s = (r, s') \<Longrightarrow> unrelated_step i key s s'"
| un_claim: "index_claim owner token now lease tenant s = (r, s') \<Longrightarrow> unrelated_step i key s s'"
| un_complete: "index_complete k owner token now external meta s = (Inr e, s') \<Longrightarrow>
    k \<noteq> i \<or> fst ` set meta \<inter> governance_fields = {} \<Longrightarrow> unrelated_step i key s s'"
| un_fail: "index_fail k owner token now code retry_at s = (Inr e, s') \<Longrightarrow> unrelated_step i key s s'"
| un_repair: "index_repair k tenant expected key' now requeue version anomaly s = (Inr (e, repeated), s') \<Longrightarrow>
    k \<noteq> i \<or> key' = key \<or> \<not> requeue \<and> key \<noteq> [] \<Longrightarrow> unrelated_step i key s s'"

lemma unrelated_index_step: "unrelated_step i key s s' \<Longrightarrow> \<exists>es. index_step s es s'"
  by (induction rule: unrelated_step.induct) (blast intro: index_step.intros)+

lemma index_merge_other: "k \<notin> fst ` set kvs \<Longrightarrow> jget (index_merge d kvs) k = jget d k"
  unfolding index_merge_def by (induction kvs arbitrary: d) (auto simp: jget_def)

lemma unrelated_keeps:
  assumes st: "unrelated_step i key s s'" and ok: "index_ok s" and m: "request_marked i tenant key version anomaly s"
  shows "request_marked i tenant key version anomaly s'"
proof -
  obtain e0 where e0: "dget (xo_ops s) i = Some e0" "ix_tenant e0 = tenant"
    "jget (ix_meta e0) ''governance_repair_key'' = JStr key"
    "jget (ix_meta e0) ''governance_expected_version'' = opt_json version"
    "jget (ix_meta e0) ''governance_expected_anomaly'' = opt_json anomaly"
    using m by (auto simp: request_marked_def)
  have kept: "request_marked i tenant key version anomaly t"
    if "dget (xo_ops t) i = Some x" "ix_tenant x = tenant" "\<forall>k\<in>governance_fields. jget (ix_meta x) k = jget (ix_meta e0) k"
    for x t
    using that e0 by (simp add: request_marked_def governance_fields_def)
  from st show ?thesis
  proof cases
    case (un_add e r)
    then have "dget (xo_ops s') i = Some e0" using e0(1) by (auto simp: index_add_def split: option.splits if_splits)
    then show ?thesis by (rule kept) (use e0 in simp_all)
  next
    case (un_claim owner token now lease t r)
    have b: "dget (xo_ops (index_bury t now s)) i = Some (if index_exhausted t now e0 then index_dead now e0 else e0)"
      using e0(1) by (simp add: index_bury_def dget_put_all_map[OF index_okD(1)[OF ok]])
    define x where "x = (if index_exhausted t now e0 then index_dead now e0 else e0)"
    have x: "ix_tenant x = tenant" "ix_meta x = ix_meta e0"
      using e0(2) by (auto simp: x_def index_dead_def index_no_lease_def)
    from ok un_claim show ?thesis
    proof (cases rule: index_claim_cases)
      case none
      show ?thesis by (rule kept[of _ x]) (use b x none in \<open>simp_all add: x_def\<close>)
    next
      case (claimed e)
      show ?thesis
      proof (cases "ix_id e = i")
        case True
        then have "e = x" using claimed(1) b by (simp add: x_def)
        then show ?thesis
          by (intro kept[of _ "index_leased owner token now lease x"])
            (use x True claimed in \<open>simp_all add: index_leased_def\<close>)
      next
        case False
        show ?thesis by (rule kept[of _ x]) (use b x claimed False in \<open>simp_all add: x_def\<close>)
      qed
    qed
  next
    case (un_complete k owner token now external meta e)
    show ?thesis
    proof (cases "k = i")
      case True
      have fields: "jget (index_merge (ix_meta e0) meta) f = jget (ix_meta e0) f" if "f \<in> governance_fields" for f
        by (rule index_merge_other) (use un_complete(2) True that in blast)
      show ?thesis
        by (rule kept[of _ e])
          (use un_complete(1) True e0(1,2) fields in \<open>auto simp: index_complete_def index_claimed_Inr index_no_lease_def Let_def split: sum.splits\<close>)
    next
      case False
      show ?thesis
        by (rule kept[of _ e0]) (use un_complete(1) False e0 in \<open>auto simp: index_complete_def Let_def split: sum.splits\<close>)
    qed
  next
    case (un_fail k owner token now code retry_at e)
    show ?thesis
    proof (cases "k = i")
      case True
      show ?thesis
        by (rule kept[of _ e])
          (use un_fail True e0(1,2) in \<open>auto simp: index_fail_def index_claimed_Inr index_no_lease_def Let_def split: sum.splits\<close>)
    next
      case False
      show ?thesis
        by (rule kept[of _ e0]) (use un_fail False e0 in \<open>auto simp: index_fail_def Let_def split: sum.splits\<close>)
    qed
  next
    case (un_repair k t expected key' now requeue v a e repeated)
    show ?thesis
    proof (cases "k = i")
      case False
      show ?thesis
        by (rule kept[of _ e0]) (use un_repair(1) False e0 in \<open>auto simp: index_repair_def Let_def split: option.splits if_splits\<close>)
    next
      case True
      then have "s' = s"
        using un_repair e0(1,3) by (auto simp: index_repair_def index_get_Some Let_def split: option.splits if_splits)
      with m show ?thesis by simp
    qed
  qed
qed

lemma unrelated_steps_keep:
  assumes "(unrelated_step i key)\<^sup>*\<^sup>* s v" "index_ok s" "request_marked i tenant key version anomaly s"
  shows "request_marked i tenant key version anomaly v"
proof -
  from assms(1) have "index_ok v \<and> request_marked i tenant key version anomaly v"
  proof (induction rule: rtranclp_induct)
    case (step u v)
    then show ?case using unrelated_index_step index_step_ok unrelated_keeps by blast
  qed (use assms in simp)
  then show ?thesis ..
qed

lemma opt_json_inject: "opt_json x = opt_json y \<longleftrightarrow> x = y"
  by (cases x; cases y) (simp_all add: opt_json_def)

lemma request_marked_repeat:
  assumes "request_marked i tenant key version anomaly v"
  shows "(\<exists>x. dget (xo_ops v) i = Some x \<and>
      index_repair i tenant expected key now requeue version anomaly v = (Inr (x, True), v)) \<and>
    (version' \<noteq> version \<or> anomaly' \<noteq> anomaly \<longrightarrow>
       index_repair i tenant expected key now requeue version' anomaly' v =
         (Inl (Value_Error ''Governance repair request identity changed''), v))"
  using assms opt_json_inject unfolding request_marked_def index_repair_def Let_def
  by (auto simp: index_get_def)

lemma accepted_marked:
  assumes r: "index_repair i tenant expected key now requeue version anomaly s = (Inr (e, False), s')"
  shows "request_marked i tenant key version anomaly s'"
  using r
proof (cases rule: index_repair_cases)
  case (accepted old)
  then show ?thesis
    by (auto simp: request_marked_def index_requeued_def index_no_lease_def jget_def)
qed simp

text \<open>
  C22: governance requests are idempotent. Once a repair was accepted, the same request is answered as a
  duplicate and changes nothing, and with other expectations it is refused. That holds at once and after any
  further steps of the workers and of other requests, whatever the status of the operation has become,
  unless another request has requeued the same operation in between or a completion has overwritten the
  fields of governance. An accepted requeue takes the operation from whoever works on it: it waits again
  with all its attempts, and the former worker can neither complete nor fail it. Other operations stay.
\<close>

theorem governance_repair_once:
  assumes ok: "index_ok s"
    and r: "index_repair i tenant expected key now requeue version anomaly s = (Inr (e, False), s')"
    and later: "(unrelated_step i key)\<^sup>*\<^sup>* s' v"
  shows "(\<exists>x. dget (xo_ops v) i = Some x \<and>
       index_repair i tenant expected' key now' requeue' version anomaly v = (Inr (x, True), v)) \<and>
    (version' \<noteq> version \<or> anomaly' \<noteq> anomaly \<longrightarrow>
       index_repair i tenant expected' key now' requeue' version' anomaly' v =
         (Inl (Value_Error ''Governance repair request identity changed''), v)) \<and>
    dget (xo_ops s') i = Some e \<and> (\<forall>k. k \<noteq> i \<longrightarrow> dget (xo_ops s') k = dget (xo_ops s) k) \<and>
    (requeue \<longrightarrow> ix_status e = Index_Pending \<and> ix_attempts e = 0 \<and>
       index_complete i owner token now' external meta s' =
         (Inl (Value_Error ''Index operation is not claimed''), s') \<and>
       index_fail i owner token now' code retry_at s' =
         (Inl (Value_Error ''Index operation is not claimed''), s'))"
  using r
proof (cases rule: index_repair_cases)
  case (accepted old)
  have "index_ok s'" using index_step_ok[OF index_step.repair[OF r] ok] .
  then have "request_marked i tenant key version anomaly v"
    using unrelated_steps_keep[OF later] accepted_marked[OF r] by blast
  note again = request_marked_repeat[OF this]
  have "ix_status e = Index_Pending \<and> ix_attempts e = 0" if requeue
    using that by (simp add: accepted(5) index_requeued_def)
  then show ?thesis
    using again accepted(6) by (simp add: index_complete_def index_fail_def index_claimed_def)
qed simp

text \<open>
  The exception is real: the operation remembers one request only. When a second request requeues the same
  operation, the first one, repeated with the status it then finds, is accepted and requeues it once more.
\<close>

lemma governance_repair_forgotten:
  assumes "index_repair i tenant ex key now True version anomaly s = (Inr (e, False), s')" and "key2 \<noteq> key"
    and r2: "index_repair i tenant ex2 key2 now2 True version2 anomaly2 s' = (Inr (e2, False), s'')"
  shows "\<exists>x t. index_repair i tenant Index_Pending key now3 True version anomaly s'' = (Inr (x, False), t)"
  using r2
proof (cases rule: index_repair_cases)
  case (accepted old)
  have "jget (ix_meta e2) ''governance_repair_key'' = JStr key2" "ix_status e2 = Index_Pending" "ix_tenant e2 = tenant"
    using accepted(3) by (simp_all add: accepted(5) jget_def index_requeued_def index_no_lease_def)
  then show ?thesis using assms(2) by (simp add: accepted(6) index_repair_def index_get_def Let_def)
qed simp

lemma fold_first:
  "dget (fold (\<lambda>e d. if P e \<and> dget d (f e) = None then dput (f e) e d else d) es d) k =
     (case dget d k of Some e \<Rightarrow> Some e | None \<Rightarrow> find (\<lambda>e. P e \<and> f e = k) es)"
  by (induction es arbitrary: d) (auto split: option.splits)

lemma find_max:
  assumes s: "sorted (map g (rev es))" and f: "find P es = Some e"
  shows "e \<in> set es \<and> P e \<and> (\<forall>x\<in>set es. P x \<longrightarrow> g x \<le> g e)"
  using assms
proof (induction es)
  case (Cons x es)
  then have "\<forall>y\<in>set es. g y \<le> g x" "sorted (map g (rev es))" by (auto simp: sorted_append)
  with Cons show ?case by (auto split: if_splits)
qed simp

text \<open>
  The latest deletion of each requested memory: the answer has an entry for a memory exactly when it
  was requested and a deletion of it is stored for the tenant, and the entry is the most recent one,
  the identifier deciding between equal times.
\<close>

theorem latest_deletes_correct:
  assumes ok: "index_ok s"
  shows "dget (index_latest_deletes memories tenant s) m = Some e \<longleftrightarrow>
    m \<in> set memories \<and> dget (xo_ops s) (ix_id e) = Some e \<and> ix_tenant e = tenant \<and> ix_memory e = m \<and>
    ix_type e = Index_Delete \<and>
    (\<forall>i x. dget (xo_ops s) i = Some x \<and> ix_tenant x = tenant \<and> ix_memory x = m \<and> ix_type x = Index_Delete \<longrightarrow>
       recency x \<le> recency e)"
proof -
  let ?P = "\<lambda>x. (ix_tenant x = tenant \<and> ix_memory x \<in> set memories \<and> ix_type x = Index_Delete) \<and> ix_memory x = m"
  let ?es = "rev (sort_key recency (rev (dvalues (xo_ops s))))"
  note f = index_okD(1)[OF ok]
  have eq: "dget (index_latest_deletes memories tenant s) m = find ?P ?es"
    unfolding index_latest_deletes_def
    using fold_first[of "\<lambda>x. ix_tenant x = tenant \<and> ix_memory x \<in> set memories \<and> ix_type x = Index_Delete" ix_memory ?es "[]" m]
    by (simp add: conj_assoc)
  have mem: "x \<in> set ?es \<longleftrightarrow> dget (xo_ops s) (ix_id x) = Some x" for x
    using filed_values[OF f, of x] by simp
  have key: "dget (xo_ops s) (ix_id x) = Some x" if "dget (xo_ops s) i = Some x" for i x
    using that filedD[OF f that] by simp
  have srt: "sorted (map recency (rev ?es))" by simp
  show ?thesis
  proof
    assume "dget (index_latest_deletes memories tenant s) m = Some e"
    with eq have "find ?P ?es = Some e" by (rule trans[OF sym])
    note e = find_max[OF srt this]
    have "recency x \<le> recency e"
      if x: "dget (xo_ops s) i = Some x" "ix_tenant x = tenant" "ix_memory x = m" "ix_type x = Index_Delete" for i x
    proof -
      have "x \<in> set ?es" using mem key[OF x(1)] by simp
      moreover have "m \<in> set memories" using e by blast
      then have "?P x" using x by simp
      ultimately show ?thesis using e \<open>?P x\<close> by blast
    qed
    moreover have "dget (xo_ops s) (ix_id e) = Some e" using e mem by blast
    ultimately show "m \<in> set memories \<and> dget (xo_ops s) (ix_id e) = Some e \<and> ix_tenant e = tenant \<and> ix_memory e = m \<and>
        ix_type e = Index_Delete \<and> (\<forall>i x. dget (xo_ops s) i = Some x \<and> ix_tenant x = tenant \<and> ix_memory x = m \<and>
        ix_type x = Index_Delete \<longrightarrow> recency x \<le> recency e)"
      using e by blast
  next
    assume e: "m \<in> set memories \<and> dget (xo_ops s) (ix_id e) = Some e \<and> ix_tenant e = tenant \<and> ix_memory e = m \<and>
        ix_type e = Index_Delete \<and> (\<forall>i x. dget (xo_ops s) i = Some x \<and> ix_tenant x = tenant \<and> ix_memory x = m \<and>
        ix_type x = Index_Delete \<longrightarrow> recency x \<le> recency e)"
    then have at: "dget (xo_ops s) (ix_id e) = Some e" and "?P e" by auto
    have "e \<in> set ?es" by (rule mem[THEN iffD2, OF at])
    then obtain x where x: "find ?P ?es = Some x"
      using \<open>?P e\<close> by (cases "find ?P ?es") (auto simp: find_None_iff simp del: set_rev set_sort)
    note x' = find_max[OF srt x]
    then have "recency e \<le> recency x" using \<open>e \<in> set ?es\<close> \<open>?P e\<close> by blast
    moreover have sx: "dget (xo_ops s) (ix_id x) = Some x" by (rule mem[THEN iffD1]) (use x' in blast)
    have "ix_tenant x = tenant \<and> ix_memory x = m \<and> ix_type x = Index_Delete" using x' by blast
    with sx e have "recency x \<le> recency e" by blast
    ultimately have "recency x = recency e" by simp
    then have "ix_id x = ix_id e" by (simp add: recency_def)
    with sx at have "x = e" by (metis option.inject)
    with trans[OF eq x] show "dget (index_latest_deletes memories tenant s) m = Some e" by metis
  qed
qed

subsection \<open>A concrete outbox\<close>

definition demo_operation :: "ident \<Rightarrow> time \<Rightarrow> index_operation" where
  "demo_operation i at = \<lparr>ix_id = i, ix_key = i, ix_type = Index_Delete, ix_memory = ''m'', ix_revision = None,
     ix_tenant = ''t'', ix_external = None, ix_status = Index_Pending, ix_attempts = 0, ix_limit = 3,
     ix_owner = None, ix_token = None, ix_expires = None, ix_next = None, ix_error = None, ix_meta = [],
     ix_created = at, ix_updated = at\<rparr>"

definition demo_outbox :: index_outbox where
  "demo_outbox = snd (index_add (demo_operation ''y'' 2) (snd (index_add (demo_operation ''x'' 1) empty_index_outbox)))"

definition demo_claimed :: index_outbox where
  "demo_claimed = snd (index_claim ''w'' ''tok'' 10 60 None demo_outbox)"

lemma demo_outbox_ok: "index_ok demo_outbox"
proof -
  have a: "index_add (demo_operation ''x'' 1) empty_index_outbox =
      (Inr (demo_operation ''x'' 1), snd (index_add (demo_operation ''x'' 1) empty_index_outbox))" (is "_ = (_, ?s)")
    by code_simp
  have s: "index_ok ?s"
    by (rule index_step_ok[OF index_step.add[OF _ _ _ _ a] index_ok_empty])
      (simp_all add: empty_index_outbox_def demo_operation_def)
  have b: "index_add (demo_operation ''y'' 2) ?s = (Inr (demo_operation ''y'' 2), demo_outbox)" by code_simp
  have "dget (xo_ops ?s) (ix_id (demo_operation ''y'' 2)) = None" by code_simp
  from index_step_ok[OF index_step.add[OF this _ _ _ b] s] show ?thesis by (simp add: demo_operation_def)
qed

lemma demo_claim_step: "index_step demo_outbox [Granted ''x'' ''w'' ''tok'' 10 70] demo_claimed"
proof -
  have "index_claim ''w'' ''tok'' 10 60 None demo_outbox =
      (Some (index_leased ''w'' ''tok'' 10 60 (demo_operation ''x'' 1)), demo_claimed)" by code_simp
  moreover have "filter (index_exhausted None 10) (dvalues (xo_ops demo_outbox)) = []" by code_simp
  ultimately show ?thesis
    using index_step.claim[of "''w''" "''tok''" 10 60 None demo_outbox] by (fastforce simp: index_leased_def demo_operation_def)
qed

lemma index_refines_queue_witness:
  "queue_run (index_abs demo_outbox) [Granted ''x'' ''w'' ''tok'' 10 70] (index_abs demo_claimed)"
  using index_refines_queue[OF demo_outbox_ok demo_claim_step] by blast

lemma governance_repair_once_witness:
  "\<exists>e s' x v. index_repair ''x'' ''t'' Index_Claimed ''g'' 20 True None None demo_claimed = (Inr (e, False), s') \<and>
     ix_attempts e = 0 \<and> v = snd (index_claim ''w2'' ''tok2'' 25 60 None s') \<and> v \<noteq> s' \<and>
     index_repair ''x'' ''t'' Index_Pending ''g'' 30 True None None v = (Inr (x, True), v) \<and>
     index_complete ''x'' ''w'' ''tok'' 30 None [] s' = (Inl (Value_Error ''Index operation is not claimed''), s')"
proof -
  let ?r = "index_repair ''x'' ''t'' Index_Claimed ''g'' 20 True None None demo_claimed"
  have "case ?r of (Inl _, _) \<Rightarrow> False
      | (Inr z, t) \<Rightarrow> \<not> snd z \<and> map ix_attempts (dvalues (xo_ops (snd (index_claim ''w2'' ''tok2'' 25 60 None t)))) \<noteq>
          map ix_attempts (dvalues (xo_ops t))" by code_simp
  then obtain e s' where r: "?r = (Inr (e, False), s')"
    and differ: "map ix_attempts (dvalues (xo_ops (snd (index_claim ''w2'' ''tok2'' 25 60 None s')))) \<noteq>
      map ix_attempts (dvalues (xo_ops s'))"
    by (cases ?r) (auto split: sum.split_asm)
  from differ have ne: "snd (index_claim ''w2'' ''tok2'' 25 60 None s') \<noteq> s'" by (rule contrapos_nn) simp
  define v where "v = snd (index_claim ''w2'' ''tok2'' 25 60 None s')"
  have "unrelated_step ''x'' ''g'' s' v"
    by (rule un_claim) (unfold v_def, rule prod.collapse[symmetric])
  then have later: "(unrelated_step ''x'' ''g'')\<^sup>*\<^sup>* s' v" by (rule r_into_rtranclp)
  have ok: "index_ok demo_claimed" by (rule index_step_ok[OF demo_claim_step demo_outbox_ok])
  note once = governance_repair_once[OF ok r later]
  obtain x where x: "index_repair ''x'' ''t'' Index_Pending ''g'' 30 True None None v = (Inr (x, True), v)"
    using once[THEN conjunct1] by blast
  have t: "True \<longrightarrow> ix_status e = Index_Pending \<and> ix_attempts e = 0 \<and>
      index_complete ''x'' ''w'' ''tok'' 30 None [] s' = (Inl (Value_Error ''Index operation is not claimed''), s') \<and>
      index_fail ''x'' ''w'' ''tok'' 30 [] 0 s' = (Inl (Value_Error ''Index operation is not claimed''), s')"
    by (rule once[THEN conjunct2, THEN conjunct2, THEN conjunct2, THEN conjunct2])
  show ?thesis
    by (intro exI[of _ e] exI[of _ s'] exI[of _ x] exI[of _ v] conjI)
      (rule r, rule t[THEN mp, OF TrueI, THEN conjunct2, THEN conjunct1], rule v_def, unfold v_def, rule ne,
       rule x[unfolded v_def], rule t[THEN mp, OF TrueI, THEN conjunct2, THEN conjunct2, THEN conjunct1])
qed

end
