(* ===== verification/Turn_Service.thy ===== *)
theory Turn_Service
  imports Turn_Store
begin

text \<open>
  \<open>TurnService\<close> of \<open>app/services/turn_service.py\<close> over the in-memory repositories: starting a
  turn idempotently, completing it from the router, attaching runs and plans, and completing it
  with an agent result.

  Between two awaited repository calls other tasks may run. The functions take that interference
  as a parameter \<open>others\<close> (and \<open>others'\<close> before a re-read), an arbitrary function on the world
  applied at that point; a run without concurrency is the instance \<open>id\<close>. The clock and the
  fresh identifiers are parameters as well.
\<close>

definition validate_replay ::
    "turn \<Rightarrow> ident \<Rightarrow> ident \<Rightarrow> ident \<Rightarrow> string \<Rightarrow> user_input \<Rightarrow> py_exn + unit" where
  "validate_replay existing tenant user session source input =
     ensure (Turn_Idempotency_Conflict ''request identity or semantic input conflicts'')
       (\<not> (tn_tenant existing \<noteq> tenant \<or> tn_user existing \<noteq> user \<or>
            tn_session existing \<noteq> session \<or> tn_source existing \<noteq> source \<or>
            \<not> input_eq (tn_input existing) input))"

definition start_turn ::
    "(turn_store \<Rightarrow> turn_store) \<Rightarrow> ident \<Rightarrow> time \<Rightarrow> ident \<Rightarrow> ident \<Rightarrow> ident \<Rightarrow> ident \<Rightarrow> string \<Rightarrow>
     user_input \<Rightarrow> turn_store \<Rightarrow> (py_exn + turn \<times> bool) \<times> turn_store" where
  "start_turn others fresh now tenant user session request source input s =
     (case turn_find_by_request s request of
        Some owner \<Rightarrow>
          (ebind (validate_replay owner tenant user session source input)
             (\<lambda>_. Inr (owner, False)), s)
      | None \<Rightarrow>
          if source = [] \<or> 64 < length source then (Inl (Value_Error ''source''), s)
          else
            let t = \<lparr>tn_id = fresh, tn_tenant = tenant, tn_user = user, tn_session = session,
                     tn_request = request, tn_source = source, tn_status = TurnPending,
                     tn_version = 1, tn_input = input, tn_refs = empty_refs, tn_response = None,
                     tn_created = now, tn_updated = now, tn_completed = None\<rparr>;
                s1 = others s
            in (case turn_create t s1 of
                  Inl (Turn_Ownership_Conflict m) \<Rightarrow>
                    (Inl (Turn_Idempotency_Conflict
                       ''request identity conflicts with existing turn''), s1)
                | Inl e \<Rightarrow> (Inl e, s1)
                | Inr ((stored, created), s2) \<Rightarrow>
                    (ebind (validate_replay stored tenant user session source input)
                       (\<lambda>_. Inr (stored, created)), s2)))"

definition completed_turn :: "turn \<Rightarrow> turn_refs \<Rightarrow> semantic_response \<Rightarrow> time \<Rightarrow> turn" where
  "completed_turn t refs response now =
     t\<lparr>tn_status := TurnCompleted, tn_version := tn_version t + 1, tn_refs := refs,
       tn_response := Some response, tn_updated := now, tn_completed := Some now\<rparr>"

definition already_completed :: "turn \<Rightarrow> semantic_response \<Rightarrow> bool" where
  "already_completed t response \<longleftrightarrow>
     tn_status t = TurnCompleted \<and> response_opt_eq (tn_response t) response"

text \<open>The write of a completion: with its outbox event when a completion store is configured.\<close>

definition route_write ::
    "bool \<Rightarrow> turn \<Rightarrow> nat \<Rightarrow> outbox_event \<Rightarrow> turn_world \<Rightarrow> (py_exn + turn option) \<times> turn_world" where
  "route_write with_outbox t expected e w =
     (if with_outbox then route_completion t expected e w
      else case turn_update_if_version t expected (tw_turns w) of
        Inl err \<Rightarrow> (Inl err, w)
      | Inr (r, ts) \<Rightarrow> (Inr r, w\<lparr>tw_turns := ts\<rparr>))"

definition turn_completed_event :: "ident \<Rightarrow> turn \<Rightarrow> time \<Rightarrow> outbox_event" where
  "turn_completed_event fresh t now =
     new_outbox fresh (tn_id t) ''turn.completed'' (''turn.completed:'' @ tn_id t)
       (JObj [(''turn_id'', JStr (tn_id t)), (''tenant_id'', JStr (tn_tenant t)),
              (''user_id'', JStr (tn_user t)), (''request_id'', JStr (tn_request t)),
              (''state_version'', JNum (int (tn_version t)))]) now"

text \<open>What follows the write: a lost race is a success when the winner stored the same response.\<close>

definition settle_route ::
    "(turn_world \<Rightarrow> turn_world) \<Rightarrow> ident \<Rightarrow> ident \<Rightarrow> ident \<Rightarrow> semantic_response \<Rightarrow>
     (py_exn + turn option) \<times> turn_world \<Rightarrow> (py_exn + turn) \<times> turn_world" where
  "settle_route others' tenant user request response ow =
     (case ow of
        (Inl e, w) \<Rightarrow> (Inl e, w)
      | (Inr (Some stored), w) \<Rightarrow> (Inr stored, w)
      | (Inr None, w) \<Rightarrow>
          (case turn_get_by_request (tw_turns (others' w)) tenant user request of
             Some c \<Rightarrow>
               if already_completed c response then (Inr c, others' w)
               else (Inl (Turn_Terminal_State ''turn completion conflicted''), others' w)
           | None \<Rightarrow> (Inl (Turn_Terminal_State ''turn completion conflicted''), others' w)))"

definition complete_route_only ::
    "(turn_world \<Rightarrow> turn_world) \<Rightarrow> (turn_world \<Rightarrow> turn_world) \<Rightarrow> bool \<Rightarrow> ident \<Rightarrow> time \<Rightarrow>
     ident \<Rightarrow> ident \<Rightarrow> ident \<Rightarrow> response_kind \<Rightarrow> string \<Rightarrow> json option \<Rightarrow> turn_world \<Rightarrow>
     (py_exn + turn) \<times> turn_world" where
  "complete_route_only others others' with_outbox fresh now tenant user request kind text error w =
     (if kind \<notin> {Kind_Reply, Kind_Clarify, Kind_Unsupported, Kind_Silent}
      then (Inl (Value_Error ''route-only completion requires a direct response kind''), w)
      else case turn_get_by_request (tw_turns w) tenant user request of
        None \<Rightarrow> (Inl (Value_Error ''canonical turn not found''), w)
      | Some existing \<Rightarrow>
          let response = \<lparr>sr_kind = kind, sr_text = text, sr_output = None, sr_error = error\<rparr>
          in if 20000 < length text then (Inl (Value_Error ''text is too long''), w)
             else if turn_is_terminal (tn_status existing) then
               (if already_completed existing response then (Inr existing, w)
                else (Inl (Turn_Terminal_State ''terminal turn cannot be completed again''), w))
             else
               let completed = completed_turn existing
                     (empty_refs\<lparr>tr_decision := Some (''route_decision:'' @ request)\<rparr>) response now
               in settle_route others' tenant user request response
                    (route_write with_outbox completed (tn_version existing)
                       (turn_completed_event fresh completed now) (others w)))"

definition owned_turn ::
    "turn_store \<Rightarrow> ident \<Rightarrow> ident \<Rightarrow> ident \<Rightarrow> py_exn + turn" where
  "owned_turn s tenant user request =
     (case turn_get_by_request s tenant user request of
        None \<Rightarrow> Inl (Value_Error ''canonical turn not found'')
      | Some t \<Rightarrow> Inr t)"

definition store_transition ::
    "turn \<Rightarrow> turn \<Rightarrow> turn_store \<Rightarrow> (py_exn + turn) \<times> turn_store" where
  "store_transition existing updated s =
     (case turn_update_if_version updated (tn_version existing) s of
        Inl e \<Rightarrow> (Inl e, s)
      | Inr (None, s') \<Rightarrow> (Inl (Turn_Terminal_State ''turn state changed concurrently''), s')
      | Inr (Some t, s') \<Rightarrow> (Inr t, s'))"

definition append_new :: "'a \<Rightarrow> 'a list \<Rightarrow> 'a list" where
  "append_new x xs = (if x \<in> set xs then xs else xs @ [x])"

definition with_run :: "turn_refs \<Rightarrow> ident option \<Rightarrow> turn_refs" where
  "with_run refs run_id =
     (if str_set run_id then refs\<lparr>tr_runs := append_new (the run_id) (tr_runs refs)\<rparr> else refs)"

definition attach_activity ::
    "(turn_store \<Rightarrow> turn_store) \<Rightarrow> time \<Rightarrow> ident \<Rightarrow> ident \<Rightarrow> ident \<Rightarrow> ident option \<Rightarrow>
     ident option \<Rightarrow> bool \<Rightarrow> turn_store \<Rightarrow> (py_exn + turn) \<times> turn_store" where
  "attach_activity others now tenant user request run_id plan_id blocked s =
     (if \<not> str_set run_id \<and> \<not> str_set plan_id
      then (Inl (Value_Error ''turn activity requires a Run or Plan reference''), s)
      else case owned_turn s tenant user request of
        Inl e \<Rightarrow> (Inl e, s)
      | Inr existing \<Rightarrow>
          if turn_is_terminal (tn_status existing)
          then (Inl (Turn_Terminal_State ''terminal turn cannot attach activity''), s)
          else
            let refs = with_run (tn_refs existing) run_id
            in if str_set plan_id \<and> str_set (tr_plan refs) \<and> tr_plan refs \<noteq> plan_id
               then (Inl (Turn_Idempotency_Conflict ''turn is already bound to another plan''), s)
               else
                 let bound = refs\<lparr>tr_plan := (if str_set plan_id then plan_id else tr_plan refs)\<rparr>;
                     updated = existing\<lparr>tn_status := (if blocked then TurnBlocked else TurnRunning),
                                        tn_version := tn_version existing + 1, tn_refs := bound,
                                        tn_updated := now\<rparr>
                 in store_transition existing updated (others s))"

definition complete_with_result ::
    "(turn_store \<Rightarrow> turn_store) \<Rightarrow> (turn_store \<Rightarrow> turn_store) \<Rightarrow> time \<Rightarrow> ident \<Rightarrow> ident \<Rightarrow> ident \<Rightarrow>
     ident \<Rightarrow> ident \<Rightarrow> string \<Rightarrow> ident option \<Rightarrow> turn_store \<Rightarrow> (py_exn + turn) \<times> turn_store" where
  "complete_with_result others others' now tenant user request run_id result_id text plan_id s =
     (case owned_turn s tenant user request of
        Inl e \<Rightarrow> (Inl e, s)
      | Inr existing \<Rightarrow>
          let response = \<lparr>sr_kind = Kind_Agent_Result, sr_text = text, sr_output = None,
                          sr_error = None\<rparr>;
              same = (\<lambda>t. already_completed t response \<and> result_id \<in> set (tr_results (tn_refs t)))
          in if 20000 < length text then (Inl (Value_Error ''text is too long''), s)
             else if turn_is_terminal (tn_status existing) then
               (if same existing then (Inr existing, s)
                else (Inl (Turn_Terminal_State ''terminal turn cannot accept another result''), s))
             else if run_id \<notin> set (tr_runs (tn_refs existing))
             then (Inl (Turn_Idempotency_Conflict ''result Run does not match the active turn''), s)
             else if str_set plan_id \<and> tr_plan (tn_refs existing) \<noteq> plan_id
             then (Inl (Turn_Idempotency_Conflict ''result Plan does not match the active turn''), s)
             else
               let refs = (tn_refs existing)\<lparr>tr_results :=
                             append_new result_id (tr_results (tn_refs existing))\<rparr>;
                   completed = completed_turn existing refs response now;
                   s1 = others s
               in (case turn_update_if_version completed (tn_version existing) s1 of
                     Inl e \<Rightarrow> (Inl e, s1)
                   | Inr (Some stored, s2) \<Rightarrow> (Inr stored, s2)
                   | Inr (None, s2) \<Rightarrow>
                       (case owned_turn (others' s2) tenant user request of
                            Inl e \<Rightarrow> (Inl e, others' s2)
                          | Inr c \<Rightarrow>
                              if same c then (Inr c, others' s2)
                              else (Inl (Turn_Terminal_State ''turn result completion conflicted''),
                                    others' s2))))"

subsection \<open>Interference\<close>

text \<open>
  What other tasks may do to the turns between two repository calls: any sequence of the
  repository's own transitions. Every service operation is itself such a sequence.
\<close>

definition turn_interference :: "(turn_store \<Rightarrow> turn_store) \<Rightarrow> bool" where
  "turn_interference f \<longleftrightarrow> (\<forall>s. turn_store_steps s (f s))"

definition world_interference :: "(turn_world \<Rightarrow> turn_world) \<Rightarrow> bool" where
  "world_interference f \<longleftrightarrow> (\<forall>w. turn_store_steps (tw_turns w) (tw_turns (f w)))"

lemma interference_id [simp]: "turn_interference id" "turn_interference (\<lambda>s. s)"
  "world_interference id" "world_interference (\<lambda>w. w)"
  by (simp_all add: turn_interference_def world_interference_def)

lemma turn_interferenceD: "turn_interference f \<Longrightarrow> turn_store_steps s (f s)"
  by (simp add: turn_interference_def)

lemma world_interferenceD:
  "world_interference f \<Longrightarrow> turn_store_steps (tw_turns w) (tw_turns (f w))"
  by (simp add: world_interference_def)

lemma steps_create: "turn_create t s = Inr (r, s') \<Longrightarrow> turn_store_steps s s'"
  by (blast intro: turn_store_step.create)

lemma steps_update: "turn_update_if_version t n s = Inr (r, s') \<Longrightarrow> turn_store_steps s s'"
  by (blast intro: turn_store_step.update)

lemmas turn_steps_intros = steps_create steps_update turn_interferenceD world_interferenceD

lemma start_turn_steps:
  assumes "turn_interference others"
  shows "turn_store_steps s (snd (start_turn others fresh now t u ss rq src inp s))"
proof -
  have o: "turn_store_steps s (others s)" using assms by (rule turn_interferenceD)
  have "turn_store_steps s s2" if "turn_create x (others s) = Inr (r, s2)" for x r s2
    using o steps_create[OF that] by simp
  with o show ?thesis
    by (auto simp: start_turn_def Let_def split: option.splits sum.splits py_exn.splits prod.splits)
qed

lemma store_transition_steps: "turn_store_steps s (snd (store_transition a b s))"
  by (auto simp: store_transition_def intro: steps_update split: sum.splits prod.splits option.splits)

lemma route_completion_steps:
  assumes "route_completion t n e w = (r, w')"
  shows "turn_store_steps (tw_turns w) (tw_turns w')"
  using assms
  by (auto simp: route_completion_def intro: steps_update
      split: sum.splits prod.splits option.splits)

lemma route_write_steps:
  "route_write b t n e w = (r, w') \<Longrightarrow> turn_store_steps (tw_turns w) (tw_turns w')"
  by (auto simp: route_write_def intro: steps_update dest: route_completion_steps
      split: sum.splits prod.splits if_splits)

lemma attach_activity_steps:
  assumes "turn_interference others"
  shows "turn_store_steps s (snd (attach_activity others now t u rq run plan blocked s))"
proof -
  have o: "turn_store_steps s (others s)" using assms by (rule turn_interferenceD)
  have "turn_store_steps s (snd (store_transition a b (others s)))" for a b
    using o store_transition_steps[of "others s" a b] by simp
  then show ?thesis
    by (simp add: attach_activity_def Let_def split: sum.splits)
qed

lemma complete_with_result_steps:
  assumes "turn_interference others" "turn_interference others'"
  shows "turn_store_steps s
    (snd (complete_with_result others others' now t u rq run res text plan s))"
proof -
  have o: "turn_store_steps s (others s)" using assms(1) by (rule turn_interferenceD)
  have s2: "turn_store_steps s s2" if "turn_update_if_version x n (others s) = Inr (r, s2)"
    for x n r s2
    using o steps_update[OF that] by simp
  have "turn_store_steps s (others' s2)"
    if "turn_update_if_version x n (others s) = Inr (r, s2)" for x n r s2
    using s2[OF that] turn_interferenceD[OF assms(2), of s2] by simp
  with o s2 show ?thesis
    by (simp add: complete_with_result_def Let_def
        split: sum.splits option.splits prod.splits)
qed

lemma complete_route_only_steps:
  assumes "world_interference others" "world_interference others'"
    "complete_route_only others others' ob fresh now t u rq kind text err w = (r, w')"
  shows "turn_store_steps (tw_turns w) (tw_turns w')"
proof -
  have o: "turn_store_steps (tw_turns w) (tw_turns (others w))"
    using assms(1) by (rule world_interferenceD)
  have fin: "turn_store_steps (tw_turns w) (tw_turns w')"
    if "settle_route others' t u rq resp (route_write b x n e (others w)) = (r, w')" for resp b x n e
  proof -
    obtain out w2 where wr: "route_write b x n e (others w) = (out, w2)" by fastforce
    then have "turn_store_steps (tw_turns w) (tw_turns w2)" using o route_write_steps by fastforce
    moreover have "w' = w2 \<or> w' = others' w2"
      using that wr
      by (auto simp: settle_route_def split: sum.splits option.splits if_splits)
    ultimately show ?thesis using world_interferenceD[OF assms(2), of w2] by auto
  qed
  from assms(3) show ?thesis
    by (auto simp: complete_route_only_def Let_def dest: fin split: option.splits if_splits)
qed

subsection \<open>What the operations establish\<close>

lemma response_opt_eq_Some [simp]: "response_opt_eq (Some r) r"
  by (simp add: response_opt_eq_def response_eq_def)

lemma input_eq_refl [simp]: "input_eq i i"
  by (simp add: input_eq_def)

lemma already_completed_completed [simp]:
  "already_completed (completed_turn t refs r now) r"
  by (simp add: already_completed_def completed_turn_def)

lemma validate_replay_Inr [oir_elim]:
  "validate_replay x t u ss src inp = Inr z \<longleftrightarrow>
     tn_tenant x = t \<and> tn_user x = u \<and> tn_session x = ss \<and> tn_source x = src \<and>
     input_eq (tn_input x) inp"
  by (auto simp: validate_replay_def ensure_eq_Inr)

lemma validate_replay_cases:
  "validate_replay x t u ss src inp =
     (if tn_tenant x = t \<and> tn_user x = u \<and> tn_session x = ss \<and> tn_source x = src \<and>
         input_eq (tn_input x) inp
      then Inr ()
      else Inl (Turn_Idempotency_Conflict ''request identity or semantic input conflicts''))"
  by (simp add: validate_replay_def ensure_def)

text \<open>A successful start leaves the returned turn stored and owned by the caller.\<close>

lemma start_turn_Inr:
  assumes ok: "turn_store_ok s" and i: "turn_interference others"
    and st: "start_turn others fresh now t u ss rq src inp s = (Inr (x, c), s')"
  shows "dget (ts_turns s') (tn_id x) = Some x \<and> owner_request_key x = (t, u, rq) \<and>
    tn_session x = ss \<and> tn_source x = src \<and> input_eq (tn_input x) inp"
proof (cases "turn_find_by_request s rq")
  case (Some y)
  with st have "x = y" "s' = s" "validate_replay x t u ss src inp = Inr ()"
    by (auto simp: start_turn_def ebind_eq_Inr)
  moreover from Some obtain i where "dget (ts_turns s) i = Some y" "tn_request y = rq"
    using turn_find_by_request_iff[OF ok] by blast
  ultimately show ?thesis
    using turn_store_okD(2)[OF ok] by (auto simp: validate_replay_Inr owner_request_key_def)
next
  case None
  let ?t = "\<lparr>tn_id = fresh, tn_tenant = t, tn_user = u, tn_session = ss,
                     tn_request = rq, tn_source = src, tn_status = TurnPending,
                     tn_version = 1, tn_input = inp, tn_refs = empty_refs, tn_response = None,
                     tn_created = now, tn_updated = now, tn_completed = None\<rparr>"
  from None st have c: "turn_create ?t (others s) = Inr ((x, c), s')"
    and v: "validate_replay x t u ss src inp = Inr ()"
    by (auto simp: start_turn_def Let_def ebind_eq_Inr
        split: if_splits sum.splits py_exn.splits)
  have ok': "turn_store_ok (others s)"
    using turn_store_steps_ok[OF turn_interferenceD[OF i] ok] .
  show ?thesis
  proof (cases c)
    case True
    with c have "x = ?t" "dget (ts_turns s') fresh = Some ?t"
      by (auto elim!: turn_create_fresh)
    with v show ?thesis by (simp add: owner_request_key_def)
  next
    case False
    with c obtain j where "s' = others s" "dget (ts_turns s') j = Some x"
      "dget (ts_owner_requests s') (owner_request_key ?t) = Some j"
      by (auto elim!: turn_create_existing)
    with v turn_store_okD(2,4)[OF ok'] show ?thesis
      by (fastforce simp: validate_replay_Inr owner_request_key_def)
  qed
qed

lemma start_turn_replay:
  assumes ok: "turn_store_ok s" and x: "dget (ts_turns s) i = Some x"
    and own: "owner_request_key x = (t, u, rq)" "tn_session x = ss" "tn_source x = src"
  shows "start_turn others fresh now t u ss rq src inp s =
    (if input_eq (tn_input x) inp then Inr (x, False)
     else Inl (Turn_Idempotency_Conflict ''request identity or semantic input conflicts''), s)"
proof -
  have "turn_find_by_request s rq = Some x"
    using turn_find_by_request_iff[OF ok, of rq x] x own by (auto simp: owner_request_key_def)
  with own show ?thesis
    by (simp add: start_turn_def validate_replay_cases owner_request_key_def)
qed

lemma turn_update_stored:
  assumes "turn_update_if_version x n s = Inr (Some y, s')"
  shows "y = x" "dget (ts_turns s') (tn_id x) = Some x"
  using assms by (auto elim!: turn_update_Some)

lemma by_request_stored:
  assumes "turn_store_ok s" "turn_get_by_request s t u rq = Some x"
  shows "dget (ts_turns s) (tn_id x) = Some x" "owner_request_key x = (t, u, rq)"
  using assms turn_by_request_iff[OF assms(1)] turn_store_okD(2)[OF assms(1)] by auto

lemma owned_turn_Inr [oir_elim]:
  "owned_turn s t u rq = Inr x \<longleftrightarrow> turn_get_by_request s t u rq = Some x"
  by (auto simp: owned_turn_def split: option.splits)

lemma route_completion_Some:
  assumes "route_completion x n e w = (Inr (Some y), w')"
  obtains r where "turn_update_if_version x n (tw_turns w) = Inr (Some y, tw_turns w')"
    "outbox_add e (tw_outbox w) = Inr (r, tw_outbox w')"
  using assms
  by (auto simp: route_completion_def split: sum.splits prod.splits option.splits)

lemma route_write_Some:
  assumes "route_write b x n e w = (Inr (Some y), w')"
  shows "y = x" "dget (ts_turns (tw_turns w')) (tn_id x) = Some x"
proof -
  have "turn_update_if_version x n (tw_turns w) = Inr (Some y, tw_turns w')"
    using assms by (cases b) (auto simp: route_write_def elim!: route_completion_Some
        split: sum.splits prod.splits)
  from turn_update_stored[OF this] show "y = x" "dget (ts_turns (tw_turns w')) (tn_id x) = Some x"
    by simp_all
qed

lemma complete_route_only_Inr:
  assumes ok: "turn_store_ok (tw_turns w)"
    and i: "world_interference others" "world_interference others'"
    and c: "complete_route_only others others' ob fresh now t u rq kind text err w = (Inr x, w')"
  shows "dget (ts_turns (tw_turns w')) (tn_id x) = Some x \<and> owner_request_key x = (t, u, rq) \<and>
    kind \<in> {Kind_Reply, Kind_Clarify, Kind_Unsupported, Kind_Silent} \<and> length text \<le> 20000 \<and>
    already_completed x \<lparr>sr_kind = kind, sr_text = text, sr_output = None, sr_error = err\<rparr>"
proof -
  let ?r = "\<lparr>sr_kind = kind, sr_text = text, sr_output = None, sr_error = err\<rparr>"
  have kind: "kind \<in> {Kind_Reply, Kind_Clarify, Kind_Unsupported, Kind_Silent}"
    using c by (auto simp: complete_route_only_def split: if_splits)
  with c obtain old where old: "turn_get_by_request (tw_turns w) t u rq = Some old"
    by (auto simp: complete_route_only_def split: option.splits)
  have short: "\<not> 20000 < length text"
    using c kind old by (auto simp: complete_route_only_def Let_def split: if_splits)
  note oldD = by_request_stored[OF ok old]
  show ?thesis
  proof (cases "turn_is_terminal (tn_status old)")
    case True
    with c kind old have "x = old" "w' = w" "already_completed old ?r"
      by (auto simp: complete_route_only_def Let_def split: if_splits)
    with oldD kind short show ?thesis by simp
  next
    case False
    define refs where "refs = empty_refs\<lparr>tr_decision := Some (''route_decision:'' @ rq)\<rparr>"
    define new where "new = completed_turn old refs ?r now"
    have own: "owner_request_key new = (t, u, rq)" "already_completed new ?r"
      using oldD by (simp_all add: new_def completed_turn_def owner_request_key_def
          already_completed_def)
    obtain out w2 where wr: "route_write ob new (tn_version old) (turn_completed_event fresh new now)
        (others w) = (out, w2)" by fastforce
    from False c kind old wr short have fin: "settle_route others' t u rq ?r (out, w2) = (Inr x, w')"
      by (cases kind) (simp_all add: complete_route_only_def Let_def new_def refs_def)
    show ?thesis
    proof (cases "out = Inr None")
      case True
      with fin have lost: "w' = others' w2" "turn_get_by_request (tw_turns w') t u rq = Some x"
        "already_completed x ?r"
        by (simp_all add: settle_route_def split: option.splits if_splits)
      have "turn_store_steps (tw_turns w) (tw_turns w')"
        using world_interferenceD[OF i(1), of w] route_write_steps[OF wr]
          world_interferenceD[OF i(2), of w2] lost(1) by simp
      from by_request_stored[OF turn_store_steps_ok[OF this ok] lost(2)] lost(3) kind short
      show ?thesis by simp
    next
      case False
      with fin have "out = Inr (Some x)" "w' = w2"
        by (auto simp: settle_route_def split: sum.splits option.splits)
      with route_write_Some[of ob new "tn_version old" "turn_completed_event fresh new now" "others w" x w'] wr own kind short
      show ?thesis by simp
    qed
  qed
qed

lemma store_transition_Inr:
  assumes "store_transition a b s = (Inr x, s')"
  shows "x = b" "dget (ts_turns s') (tn_id b) = Some b"
proof -
  from assms have "turn_update_if_version b (tn_version a) s = Inr (Some x, s')"
    by (auto simp: store_transition_def split: sum.splits option.splits prod.splits)
  from turn_update_stored[OF this] show "x = b" "dget (ts_turns s') (tn_id b) = Some b" by simp_all
qed

lemma set_append_new [simp]: "set (append_new x xs) = insert x (set xs)"
  by (auto simp: append_new_def)

lemma distinct_append_new [simp]: "distinct xs \<Longrightarrow> distinct (append_new x xs)"
  by (simp add: append_new_def)

text \<open>What an attached run or plan does to the turn.\<close>

definition activity_attached ::
    "turn \<Rightarrow> turn \<Rightarrow> ident option \<Rightarrow> ident option \<Rightarrow> bool \<Rightarrow> bool" where
  "activity_attached old new run_id plan_id blocked \<longleftrightarrow>
     \<not> turn_is_terminal (tn_status old) \<and>
     tn_status new = (if blocked then TurnBlocked else TurnRunning) \<and>
     tn_version new = tn_version old + 1 \<and>
     set (tr_runs (tn_refs old)) \<subseteq> set (tr_runs (tn_refs new)) \<and>
     (str_set run_id \<longrightarrow> the run_id \<in> set (tr_runs (tn_refs new))) \<and>
     (distinct (tr_runs (tn_refs old)) \<longrightarrow> distinct (tr_runs (tn_refs new))) \<and>
     (str_set plan_id \<longrightarrow> tr_plan (tn_refs new) = plan_id) \<and>
     (str_set (tr_plan (tn_refs old)) \<longrightarrow> tr_plan (tn_refs new) = tr_plan (tn_refs old)) \<and>
     tr_results (tn_refs new) = tr_results (tn_refs old)"

lemma attach_activity_Inr:
  assumes ok: "turn_store_ok s" and i: "turn_interference others"
    and a: "attach_activity others now t u rq run plan blocked s = (Inr x, s')"
  shows "\<exists>old. turn_get_by_request s t u rq = Some old \<and> activity_attached old x run plan blocked \<and>
    dget (ts_turns s') (tn_id old) = Some x"
proof -
  from a obtain old where old: "turn_get_by_request s t u rq = Some old"
    and nt: "\<not> turn_is_terminal (tn_status old)"
    by (auto simp: attach_activity_def owned_turn_def split: if_splits option.splits)
  define refs where "refs = with_run (tn_refs old) run"
  define new where "new = old\<lparr>tn_status := (if blocked then TurnBlocked else TurnRunning),
      tn_version := tn_version old + 1,
      tn_refs := refs\<lparr>tr_plan := (if str_set plan then plan else tr_plan refs)\<rparr>,
      tn_updated := now\<rparr>"
  from a old nt have "if str_set plan \<and> str_set (tr_plan refs) \<and> tr_plan refs \<noteq> plan
      then (Inl (Turn_Idempotency_Conflict ''turn is already bound to another plan''), s) = (Inr x, s')
      else store_transition old new (others s) = (Inr x, s')"
    unfolding attach_activity_def owned_turn_def Let_def new_def refs_def
    by (auto split: if_split_asm)
  then have b: "\<not> (str_set plan \<and> str_set (tr_plan refs) \<and> tr_plan refs \<noteq> plan)"
    and st: "store_transition old new (others s) = (Inr x, s')"
    by (simp_all split: if_splits)
  from store_transition_Inr[OF st] have "x = new" "dget (ts_turns s') (tn_id old) = Some new"
    by (simp_all add: new_def)
  moreover have "activity_attached old new run plan blocked"
    using nt b by (auto simp: activity_attached_def new_def refs_def with_run_def)
  ultimately show ?thesis using old by blast
qed

lemma complete_with_result_Inr:
  assumes ok: "turn_store_ok s" and i: "turn_interference others" "turn_interference others'"
    and c: "complete_with_result others others' now t u rq run res text plan s = (Inr x, s')"
  shows "dget (ts_turns s') (tn_id x) = Some x \<and> owner_request_key x = (t, u, rq) \<and>
    tn_status x = TurnCompleted \<and> res \<in> set (tr_results (tn_refs x)) \<and>
    already_completed x \<lparr>sr_kind = Kind_Agent_Result, sr_text = text, sr_output = None,
      sr_error = None\<rparr>"
proof -
  let ?r = "\<lparr>sr_kind = Kind_Agent_Result, sr_text = text, sr_output = None, sr_error = None\<rparr>"
  have done': "tn_status y = TurnCompleted" if "already_completed y ?r" for y
    using that by (simp add: already_completed_def)
  from c obtain old where old: "turn_get_by_request s t u rq = Some old"
    by (auto simp: complete_with_result_def owned_turn_def split: option.splits)
  note oldD = by_request_stored[OF ok old]
  show ?thesis
  proof (cases "turn_is_terminal (tn_status old)")
    case True
    with c old have "x = old" "s' = s" "already_completed old ?r"
      "res \<in> set (tr_results (tn_refs old))"
      by (auto simp: complete_with_result_def owned_turn_def Let_def split: if_splits)
    with oldD done' show ?thesis by simp
  next
    case False
    define new where "new = completed_turn old ((tn_refs old)\<lparr>tr_results :=
        append_new res (tr_results (tn_refs old))\<rparr>) ?r now"
    have own: "owner_request_key new = (t, u, rq)" "already_completed new ?r"
        "res \<in> set (tr_results (tn_refs new))" "tn_status new = TurnCompleted"
      using oldD by (simp_all add: new_def completed_turn_def owner_request_key_def
          already_completed_def)
    obtain up where up: "turn_update_if_version new (tn_version old) (others s) = up" by simp
    from c old False up have "(case up of Inl e \<Rightarrow> (Inl e, others s)
        | Inr (Some stored, s2) \<Rightarrow> (Inr stored, s2)
        | Inr (None, s2) \<Rightarrow>
            (case owned_turn (others' s2) t u rq of Inl e \<Rightarrow> (Inl e, others' s2)
             | Inr c \<Rightarrow> if already_completed c ?r \<and> res \<in> set (tr_results (tn_refs c))
                       then (Inr c, others' s2)
                       else (Inl (Turn_Terminal_State ''turn result completion conflicted''),
                             others' s2))) = (Inr x, s')"
      by (simp add: complete_with_result_def owned_turn_def[of s] Let_def new_def[symmetric]
          split: if_splits)
    then consider (won) "up = Inr (Some x, s')"
      | (lost) s2 where "up = Inr (None, s2)" "s' = others' s2"
          "turn_get_by_request s' t u rq = Some x" "already_completed x ?r"
          "res \<in> set (tr_results (tn_refs x))"
      by (auto simp: owned_turn_Inr split: sum.splits prod.splits option.splits if_splits)
    then show ?thesis
    proof cases
      case won
      with turn_update_stored[OF up[unfolded won]] own show ?thesis by simp
    next
      case lost
      have "turn_store_steps s s'"
        using turn_interferenceD[OF i(1), of s] steps_update[OF up[unfolded lost(1)]]
          turn_interferenceD[OF i(2), of s2] lost(2) by simp
      from by_request_stored[OF turn_store_steps_ok[OF this ok] lost(3)] lost(4,5) done'
      show ?thesis by simp
    qed
  qed
qed

subsection \<open>Properties\<close>

text \<open>The service over the repository, one rule per operation, each with interference.\<close>

inductive turn_service_step :: "turn_world \<Rightarrow> turn_world \<Rightarrow> bool" where
  repository: "turn_store_step (tw_turns w) s \<Longrightarrow> turn_service_step w (w\<lparr>tw_turns := s\<rparr>)"
| start: "turn_interference f \<Longrightarrow>
    start_turn f fresh now t u ss rq src inp (tw_turns w) = (r1, s) \<Longrightarrow>
    turn_service_step w (w\<lparr>tw_turns := s\<rparr>)"
| attach: "turn_interference f \<Longrightarrow>
    attach_activity f now t u rq run plan blocked (tw_turns w) = (r2, s) \<Longrightarrow>
    turn_service_step w (w\<lparr>tw_turns := s\<rparr>)"
| result: "turn_interference f \<Longrightarrow> turn_interference g \<Longrightarrow>
    complete_with_result f g now t u rq run_id res text plan (tw_turns w) = (r3, s) \<Longrightarrow>
    turn_service_step w (w\<lparr>tw_turns := s\<rparr>)"
| route: "world_interference f' \<Longrightarrow> world_interference g' \<Longrightarrow>
    complete_route_only f' g' ob fresh now t u rq kind text err w = (r4, w') \<Longrightarrow>
    turn_service_step w w'"

lemma turn_service_step_turns:
  assumes "turn_service_step w w'"
  shows "turn_store_steps (tw_turns w) (tw_turns w')"
  using assms
proof cases
  case (start f fresh now t u ss rq src inp r1 s)
  with start_turn_steps[OF start(2), of "tw_turns w" fresh now t u ss rq src inp] show ?thesis
    by simp
next
  case (attach f now t u rq run plan blocked r2 s)
  with attach_activity_steps[OF attach(2), of "tw_turns w" now t u rq run plan blocked]
  show ?thesis by simp
next
  case (result f g now t u rq run_id res msg plan r3 s)
  with complete_with_result_steps[OF result(2,3), of "tw_turns w" now t u rq run_id res msg plan]
  show ?thesis by simp
qed (auto intro: complete_route_only_steps)

lemma turn_service_steps_turns:
  "turn_service_step\<^sup>*\<^sup>* w w' \<Longrightarrow> turn_store_steps (tw_turns w) (tw_turns w')"
  by (induction rule: rtranclp_induct) (auto dest: turn_service_step_turns)

text \<open>A small store for the concrete instances: one turn with one run, running or completed.\<close>

definition demo_input :: user_input where
  "demo_input = \<lparr>ui_text = ''hi'', ui_metadata = JObj []\<rparr>"

definition demo_turn :: turn where
  "demo_turn = \<lparr>tn_id = ''t1'', tn_tenant = ''a'', tn_user = ''u'', tn_session = ''s'',
     tn_request = ''r1'', tn_source = ''user'', tn_status = TurnRunning, tn_version = 2,
     tn_input = demo_input, tn_refs = empty_refs\<lparr>tr_runs := [''run1'']\<rparr>, tn_response = None,
     tn_created = 0, tn_updated = 1, tn_completed = None\<rparr>"

definition demo_reply :: semantic_response where
  "demo_reply = \<lparr>sr_kind = Kind_Reply, sr_text = ''ok'', sr_output = None, sr_error = None\<rparr>"

definition demo_done :: turn where
  "demo_done = completed_turn demo_turn (empty_refs\<lparr>tr_decision := Some ''route_decision:r1''\<rparr>)
     demo_reply 5"

definition store_of :: "turn \<Rightarrow> turn_store" where
  "store_of t = \<lparr>ts_turns = [(tn_id t, t)], ts_owner_requests = [(owner_request_key t, tn_id t)],
     ts_request_ids = [(tn_request t, tn_id t)]\<rparr>"

lemma store_of_ok [simp]: "turn_store_ok (store_of t)"
  by (simp add: turn_store_ok_def store_of_def turn_indexed_def)

text \<open>
  C29: over any history of turn-service calls and repository writes, with other tasks interleaved
  at every suspension point, a turn never changes its identity, its version never goes back, and
  once its status is terminal it never changes again in any field.
\<close>

theorem turn_history:
  assumes "turn_service_step\<^sup>*\<^sup>* w w'" "dget (ts_turns (tw_turns w)) i = Some a"
  shows "\<exists>b. dget (ts_turns (tw_turns w')) i = Some b \<and> tn_id b = tn_id a \<and>
    owner_request_key b = owner_request_key a \<and> tn_session b = tn_session a \<and>
    tn_source b = tn_source a \<and> tn_version a \<le> tn_version b \<and>
    (turn_is_terminal (tn_status a) \<longrightarrow> b = a)"
  using turn_store_steps_evolve[OF turn_service_steps_turns[OF assms(1)] assms(2)]
  by (fastforce simp: turn_evolves_def)

lemma turn_history_witness:
  "let w = \<lparr>tw_turns = store_of demo_done, tw_outbox = empty_outbox\<rparr>;
       w' = snd (complete_route_only id id False ''o'' 9 ''a'' ''u'' ''r1'' Kind_Clarify ''x'' None w)
   in dget (ts_turns (tw_turns w)) ''t1'' = Some demo_done \<and>
      (\<exists>b. dget (ts_turns (tw_turns w')) ''t1'' = Some b \<and> b = demo_done)"
proof -
  let ?w = "\<lparr>tw_turns = store_of demo_done, tw_outbox = empty_outbox\<rparr>"
  let ?r = "complete_route_only id id False ''o'' 9 ''a'' ''u'' ''r1'' Kind_Clarify ''x'' None ?w"
  have at: "dget (ts_turns (tw_turns ?w)) ''t1'' = Some demo_done"
    by (simp add: store_of_def demo_done_def completed_turn_def demo_turn_def)
  have "turn_service_step ?w (snd ?r)"
    by (rule turn_service_step.route[OF _ _ prod.collapse[symmetric]]) simp_all
  then have "turn_service_step\<^sup>*\<^sup>* ?w (snd ?r)" by simp
  from turn_history[OF this at] at show ?thesis
    by (auto simp: Let_def demo_done_def completed_turn_def turn_is_terminal_def)
qed

text \<open>
  Starting a turn is idempotent across any concurrent activity. Once a start has returned
  turn \<open>x\<close>, every later start of the same request by the same owner, session and source changes
  nothing; it returns that same turn as it is by then, marked as a duplicate, if the semantic
  input equals the stored one, and the idempotency conflict if it does not.
\<close>

theorem start_turn_idempotent:
  assumes "turn_store_ok s" "turn_interference f"
    "start_turn f fresh now t u ss rq src inp s = (Inr (x, c), s1)"
    "turn_store_steps s1 s2"
  shows "\<exists>y. dget (ts_turns s2) (tn_id x) = Some y \<and> turn_evolves x y \<and>
    start_turn g fresh' now' t u ss rq src inp' s2 =
      (if input_eq (tn_input y) inp' then Inr (y, False)
       else Inl (Turn_Idempotency_Conflict ''request identity or semantic input conflicts''), s2)"
proof -
  note x = start_turn_Inr[OF assms(1-3)]
  have "turn_store_steps s s1" using start_turn_steps[OF assms(2), of s] assms(3) by (metis snd_conv)
  then have ok2: "turn_store_ok s2"
    using turn_store_steps_ok[OF _ assms(1)] turn_store_steps_ok[OF assms(4)] by blast
  from x turn_store_steps_evolve[OF assms(4)] obtain y where
    y: "dget (ts_turns s2) (tn_id x) = Some y" "turn_evolves x y" by blast
  with x start_turn_replay[OF ok2 y(1), of t u rq ss src g fresh' now' inp'] show ?thesis
    by (auto simp: turn_evolves_def)
qed

lemma start_turn_idempotent_witness:
  "\<exists>x s1. start_turn id ''t1'' 0 ''a'' ''u'' ''s'' ''r1'' ''user'' demo_input empty_turn_store
       = (Inr (x, True), s1) \<and>
     (\<exists>y. dget (ts_turns s1) (tn_id x) = Some y \<and> turn_evolves x y \<and>
        start_turn id ''t2'' 7 ''a'' ''u'' ''s'' ''r1'' ''user'' demo_input s1 =
          (if input_eq (tn_input y) demo_input then Inr (y, False)
           else Inl (Turn_Idempotency_Conflict ''request identity or semantic input conflicts''), s1))"
proof -
  obtain x s1 where st: "start_turn id ''t1'' 0 ''a'' ''u'' ''s'' ''r1'' ''user'' demo_input
      empty_turn_store = (Inr (x, True), s1)"
    by (simp add: start_turn_def turn_find_by_request_def empty_turn_store_def Let_def
        turn_create_def owner_request_key_def validate_replay_def)
  from start_turn_idempotent[OF empty_turn_store_ok _ st rtranclp.rtrancl_refl, of id "''t2''" 7
      demo_input] st
  show ?thesis by (intro exI[of _ x] exI[of _ s1]) simp
qed


text \<open>
  A router completion that returns a turn has completed it: the returned turn is the stored
  one, belongs to the caller's request, is completed and carries exactly the given response; and
  from then on the same call returns it again and changes nothing, whatever happened in between.
\<close>

theorem complete_route_only_correct:
  assumes "turn_store_ok (tw_turns w)" "world_interference f" "world_interference g"
    "complete_route_only f g ob fresh now t u rq kind msg err w = (Inr x, w')"
    "turn_store_steps (tw_turns w') (tw_turns w2)"
  shows "dget (ts_turns (tw_turns w2)) (tn_id x) = Some x \<and> owner_request_key x = (t, u, rq) \<and>
    tn_status x = TurnCompleted \<and>
    response_opt_eq (tn_response x) \<lparr>sr_kind = kind, sr_text = msg, sr_output = None, sr_error = err\<rparr> \<and>
    complete_route_only f' g' ob' fresh' now' t u rq kind msg err w2 = (Inr x, w2)"
proof -
  note x = complete_route_only_Inr[OF assms(1-4)]
  have ok2: "turn_store_ok (tw_turns w2)"
    using turn_store_steps_ok[OF complete_route_only_steps[OF assms(2-4)] assms(1)]
      turn_store_steps_ok[OF assms(5)] by blast
  have ended: "turn_is_terminal (tn_status x)"
    using x by (simp add: already_completed_def turn_is_terminal_def)
  with x turn_store_steps_evolve[OF assms(5), of "tn_id x" x]
  have at: "dget (ts_turns (tw_turns w2)) (tn_id x) = Some x"
    by (auto dest: turn_evolves_terminal)
  then have "turn_get_by_request (tw_turns w2) t u rq = Some x"
    using turn_by_request_iff[OF ok2] x by auto
  with x ended have "complete_route_only f' g' ob' fresh' now' t u rq kind msg err w2 = (Inr x, w2)"
    by (auto simp: complete_route_only_def Let_def)
  with x at show ?thesis by (simp add: already_completed_def)
qed

lemma complete_route_only_correct_witness:
  "let w = \<lparr>tw_turns = store_of demo_turn, tw_outbox = empty_outbox\<rparr>
   in \<exists>x w'. complete_route_only id id True ''o'' 5 ''a'' ''u'' ''r1'' Kind_Reply ''ok'' None w
        = (Inr x, w') \<and> x = demo_done \<and>
      complete_route_only id id True ''o2'' 9 ''a'' ''u'' ''r1'' Kind_Reply ''ok'' None w' = (Inr x, w')"
proof -
  let ?w = "\<lparr>tw_turns = store_of demo_turn, tw_outbox = empty_outbox\<rparr>"
  obtain w' where c: "complete_route_only id id True ''o'' 5 ''a'' ''u'' ''r1'' Kind_Reply ''ok'' None ?w
      = (Inr demo_done, w')"
    by (simp add: complete_route_only_def store_of_def demo_turn_def turn_get_by_request_def
        owner_request_key_def turn_is_terminal_def route_write_def route_completion_def
        turn_update_if_version_def turn_validate_update_def outbox_add_def empty_outbox_def
        completed_turn_def settle_route_def turn_completed_event_def new_outbox_def demo_done_def
        demo_reply_def Let_def empty_refs_def)
  from complete_route_only_correct[OF _ _ _ c rtranclp.rtrancl_refl, of id id True "''o2''" 9] c
  show ?thesis by (auto simp: Let_def)
qed

text \<open>
  C30: completing a turn with an agent result that returns a turn has completed it: the turn is
  the stored one of the caller's request, is completed with the agent-result response, and its
  result list names the result; it was either already so, or the run is one attached to the turn
  and a given plan is the plan the turn is bound to.
\<close>

theorem complete_with_result_correct:
  assumes "turn_store_ok s" "turn_interference f" "turn_interference g"
    "complete_with_result f g now t u rq run res msg plan s = (Inr x, s')"
  shows "dget (ts_turns s') (tn_id x) = Some x \<and> owner_request_key x = (t, u, rq) \<and>
    tn_status x = TurnCompleted \<and> res \<in> set (tr_results (tn_refs x)) \<and> length msg \<le> 20000 \<and>
    response_opt_eq (tn_response x) \<lparr>sr_kind = Kind_Agent_Result, sr_text = msg, sr_output = None,
      sr_error = None\<rparr> \<and>
    (turn_get_by_request s t u rq = Some x \<or>
     (\<exists>old. turn_get_by_request s t u rq = Some old \<and> \<not> turn_is_terminal (tn_status old) \<and>
        run \<in> set (tr_runs (tn_refs old)) \<and>
        (str_set plan \<longrightarrow> tr_plan (tn_refs old) = plan)))"
proof -
  from assms(4) obtain old where old: "turn_get_by_request s t u rq = Some old"
    by (auto simp: complete_with_result_def owned_turn_def split: option.splits)
  moreover have "length msg \<le> 20000"
    using assms(4) by (auto simp: complete_with_result_def owned_turn_def[of s] Let_def old split: if_splits)
  moreover have "turn_get_by_request s t u rq = Some x \<or> \<not> turn_is_terminal (tn_status old) \<and>
      run \<in> set (tr_runs (tn_refs old)) \<and> (str_set plan \<longrightarrow> tr_plan (tn_refs old) = plan)"
    using assms(4) old
    by (auto simp: complete_with_result_def owned_turn_def[of s] Let_def split: if_splits)
  ultimately show ?thesis using old complete_with_result_Inr[OF assms] by (auto simp: already_completed_def)
qed

lemma complete_with_result_correct_witness:
  "\<exists>x s'. complete_with_result id id 5 ''a'' ''u'' ''r1'' ''run1'' ''res1'' ''done'' None (store_of demo_turn)
      = (Inr x, s') \<and> tn_status x = TurnCompleted \<and> ''res1'' \<in> set (tr_results (tn_refs x))"
proof -
  obtain x s' where c: "complete_with_result id id 5 ''a'' ''u'' ''r1'' ''run1'' ''res1'' ''done'' None
      (store_of demo_turn) = (Inr x, s')"
    by (simp add: complete_with_result_def owned_turn_def store_of_def demo_turn_def
        turn_get_by_request_def owner_request_key_def turn_is_terminal_def empty_refs_def
        turn_update_if_version_def turn_validate_update_def completed_turn_def append_new_def Let_def)
  from complete_with_result_correct[OF _ _ _ c] c show ?thesis by auto
qed

text \<open>
  Attaching a run or a plan to a turn that succeeds applies to a turn that was not terminal,
  raises its version by one, sets it blocked or running, adds the run to its run list without
  dropping or repeating one, and never rebinds a turn that is bound to another plan.
\<close>

theorem attach_activity_correct:
  assumes "turn_store_ok s" "turn_interference f"
    "attach_activity f now t u rq run plan blocked s = (Inr x, s')"
  shows "\<exists>old. turn_get_by_request s t u rq = Some old \<and> dget (ts_turns s') (tn_id old) = Some x \<and>
    \<not> turn_is_terminal (tn_status old) \<and>
    tn_status x = (if blocked then TurnBlocked else TurnRunning) \<and>
    tn_version x = tn_version old + 1 \<and>
    set (tr_runs (tn_refs old)) \<subseteq> set (tr_runs (tn_refs x)) \<and>
    (str_set run \<longrightarrow> the run \<in> set (tr_runs (tn_refs x))) \<and>
    (distinct (tr_runs (tn_refs old)) \<longrightarrow> distinct (tr_runs (tn_refs x))) \<and>
    (str_set plan \<longrightarrow> tr_plan (tn_refs x) = plan) \<and>
    (str_set (tr_plan (tn_refs old)) \<longrightarrow> tr_plan (tn_refs x) = tr_plan (tn_refs old))"
  using attach_activity_Inr[OF assms] unfolding activity_attached_def by blast

lemma attach_activity_correct_witness:
  "\<exists>x s'. attach_activity id 5 ''a'' ''u'' ''r1'' (Some ''run2'') (Some ''p1'') True (store_of demo_turn)
      = (Inr x, s') \<and> tn_status x = TurnBlocked \<and> ''run2'' \<in> set (tr_runs (tn_refs x))"
proof -
  obtain x s' where c: "attach_activity id 5 ''a'' ''u'' ''r1'' (Some ''run2'') (Some ''p1'') True
      (store_of demo_turn) = (Inr x, s')"
    by (simp add: attach_activity_def owned_turn_def store_of_def demo_turn_def with_run_def
        turn_get_by_request_def owner_request_key_def turn_is_terminal_def empty_refs_def
        turn_update_if_version_def turn_validate_update_def append_new_def store_transition_def Let_def)
  from attach_activity_correct[OF _ _ c] c show ?thesis by auto
qed

subsection \<open>Properties of the repositories\<close>

text \<open>
  In every reachable turn repository a request identifier names at most one turn, that turn
  is what the lookups by request return to its owner and to nobody else, and of several writers
  that update one turn expecting the same version at most one succeeds.
\<close>

theorem turn_repository_sound:
  assumes "turn_store_steps empty_turn_store s"
  shows "(dget (ts_turns s) i = Some a \<and> dget (ts_turns s) j = Some b \<and> tn_request a = tn_request b
      \<longrightarrow> i = j) \<and>
    (turn_get_by_request s t u rq = Some x \<longleftrightarrow>
      dget (ts_turns s) (tn_id x) = Some x \<and> tn_tenant x = t \<and> tn_user x = u \<and> tn_request x = rq) \<and>
    ((\<forall>v\<in>set vs. tn_id v = k \<and> tn_version v \<noteq> n) \<longrightarrow>
      length (filter id (race turn_cas n vs s)) \<le> 1)"
proof -
  have ok: "turn_store_ok s" using turn_store_steps_ok[OF assms empty_turn_store_ok] .
  have "i = j" if "dget (ts_turns s) i = Some a" "dget (ts_turns s) j = Some b"
    "tn_request a = tn_request b"
    using that turn_store_okD(2,3)[OF ok, of i a] turn_store_okD(2,3)[OF ok, of j b]
    by (simp add: turn_indexed_def)
  moreover have "turn_get_by_request s t u rq = Some x \<longleftrightarrow>
      dget (ts_turns s) (tn_id x) = Some x \<and> tn_tenant x = t \<and> tn_user x = u \<and> tn_request x = rq"
    unfolding turn_by_request_iff[OF ok] using turn_store_okD(2)[OF ok]
    by (auto simp: owner_request_key_def)
  ultimately show ?thesis using turn_versioned.race_at_most_one[of vs k n s] by blast
qed

lemma turn_repository_sound_witness:
  "turn_get_by_request (store_of demo_turn) ''a'' ''u'' ''r1'' = Some demo_turn \<and>
   length (filter id (race turn_cas 2 [demo_turn\<lparr>tn_version := 3\<rparr>, demo_turn\<lparr>tn_version := 3\<rparr>]
     (store_of demo_turn))) \<le> 1"
proof -
  have "turn_store_step empty_turn_store (store_of demo_turn)"
    by (rule turn_store_step.create[of demo_turn _ "(demo_turn, True)"])
      (simp add: turn_create_def empty_turn_store_def store_of_def)
  then have "turn_store_steps empty_turn_store (store_of demo_turn)" by simp
  from turn_repository_sound[OF this, of _ _ _ _ "''a''" "''u''" "''r1''" demo_turn
      "[demo_turn\<lparr>tn_version := 3\<rparr>, demo_turn\<lparr>tn_version := 3\<rparr>]" "tn_id demo_turn" 2]
  show ?thesis by (simp add: store_of_def demo_turn_def)
qed

text \<open>Running the outbox: the identifier of the event a claim may take next.\<close>

definition demo_event :: outbox_event where
  "demo_event = new_outbox ''o1'' ''t1'' ''turn.completed'' ''turn.completed:t1'' (JObj []) 0"

definition demo_outbox :: outbox where
  "demo_outbox = \<lparr>ox_events = [(''o1'', demo_event)], ox_keys = [(''turn.completed:t1'', ''o1'')]\<rparr>"

lemma demo_outbox_reachable: "outbox_reachable demo_outbox"
proof -
  have "outbox_step empty_outbox demo_outbox"
    by (rule outbox_step.add[of demo_event _ "(demo_event, True)"])
      (simp_all add: demo_event_def demo_outbox_def outbox_add_def empty_outbox_def new_outbox_def)
  then show ?thesis by (blast intro: outbox_reachable.intros)
qed

text \<open>
  From any reachable outbox, however many workers claim events with positive lease times, two
  grants of the same event never overlap: a later grant starts at or after the expiry of every
  earlier one.
\<close>

theorem outbox_grants_disjoint:
  assumes "outbox_reachable s" "\<forall>(r, k, now, until)\<in>set as. now < until"
  shows "sorted_wrt (\<lambda>(k, now, until) (k', now', until'). k = k' \<longrightarrow> until \<le> now')
    (grants outbox_lease_claim as s)"
  using outbox_leases.grants_disjoint[OF _ assms(2), of s] outbox_reachable_ok[OF assms(1)] by blast

lemma outbox_grants_disjoint_witness:
  "sorted_wrt (\<lambda>(k, now, until) (k', now', until'). k = k' \<longrightarrow> until \<le> now')
    (grants outbox_lease_claim [((''w1'', ''l1''), ''o1'', 1, 5), ((''w2'', ''l2''), ''o1'', 3, 9),
       ((''w2'', ''l3''), ''o1'', 6, 9)] demo_outbox)"
  by (rule outbox_grants_disjoint[OF demo_outbox_reachable]) simp

text \<open>
  In every reachable outbox the retry bound holds: no event has more failed attempts than
  allowed, an event is a dead letter exactly when its attempts are used up, and a dead letter is
  never granted again.
\<close>

theorem outbox_attempts_bounded:
  assumes "outbox_reachable s" "dget (ox_events s) i = Some e"
  shows "ob_attempts e \<le> ob_max_attempts e \<and>
    (ob_status e = Outbox_Dead_Letter \<longleftrightarrow> ob_attempts e = ob_max_attempts e) \<and>
    (ob_status e = Outbox_Dead_Letter \<longrightarrow> outbox_lease_claim r i now until s = None)"
proof -
  note ok = outbox_reachable_ok[OF assms(1)]
  have "outbox_lease_claim r i now until s = None" if d: "ob_status e = Outbox_Dead_Letter"
  proof (rule ccontr)
    assume "outbox_lease_claim r i now until s \<noteq> None"
    then obtain s' where "outbox_lease_claim r i now until s = Some s'" by blast
    from outbox_lease_claim_Some[OF conjunct1[OF ok] this] assms(2) d show False
      by (metis (no_types, lifting) insertE singletonD option.inject outbox_claimable_def
          outbox_status.distinct(13,17) outbox_status.distinct(7))
  qed
  with attempts_okD[OF conjunct2[OF ok] assms(2)] show ?thesis by blast
qed

lemma outbox_attempts_bounded_witness:
  "dget (ox_events demo_outbox) ''o1'' = Some demo_event \<and>
   ob_attempts demo_event \<le> ob_max_attempts demo_event"
  using outbox_attempts_bounded[OF demo_outbox_reachable, of "''o1''" demo_event]
  by (simp add: demo_outbox_def)

text \<open>
  Completing an event is final only for further completions. A completed event can be failed
  by anyone, whatever owner and token are given: \<open>fail\<close> accepts it, counts an attempt and puts it
  back to retry (or to the dead letters), from where it is published again.
\<close>

theorem outbox_fail_reopens_completed:
  assumes "dget (ox_events s) i = Some e" "ob_status e = Outbox_Completed"
  shows "\<exists>x s'. outbox_fail i owner token now retry_at code s = Inr (x, s') \<and>
    dget (ox_events s') i = Some x \<and> ob_attempts x = ob_attempts e + 1 \<and>
    ob_status x = (if ob_attempts e + 1 \<ge> ob_max_attempts e then Outbox_Dead_Letter else Outbox_Retry) \<and>
    outbox_complete i owner token now s = Inr (e, s)"
  using assms
  by (simp add: outbox_fail_def outbox_complete_def outbox_claimed_def Let_def)

lemma outbox_fail_reopens_completed_witness:
  "let s = demo_outbox\<lparr>ox_events := [(''o1'', demo_event\<lparr>ob_status := Outbox_Completed\<rparr>)]\<rparr>
   in \<exists>x s'. outbox_fail ''o1'' ''anyone'' ''none'' 1 2 ''err'' s = Inr (x, s') \<and>
        ob_status x = Outbox_Retry"
  using outbox_fail_reopens_completed[of
      "demo_outbox\<lparr>ox_events := [(''o1'', demo_event\<lparr>ob_status := Outbox_Completed\<rparr>)]\<rparr>" "''o1''"
      "demo_event\<lparr>ob_status := Outbox_Completed\<rparr>" "''anyone''" "''none''" 1 2 "''err''"]
  by (auto simp: Let_def demo_event_def new_outbox_def)

end
