(* ===== verification/Memory_Model.thy ===== *)
theory Memory_Model
  imports Complex_Main Index_Outbox Formation_Jobs Py_Text
begin

text \<open>
  The data of the memory subsystem (\<open>app/schemas/memory.py\<close>): candidates a model or an event
  proposes, the lifecycle operations that are decided, and the memory items, revisions and events
  that are stored, with the state the in-memory repositories share. A Python float is the rational
  it denotes; a scope is its string.
\<close>

subsection \<open>Enumerations and their string values\<close>

datatype memory_operation =
  Op_Add | Op_Update | Op_Delete | Op_Noop | Op_Reject | Op_Pending | Op_Ignore | Op_Consolidate

fun operation_value :: "memory_operation \<Rightarrow> string" where
  "operation_value Op_Add = ''add''"
| "operation_value Op_Update = ''update''"
| "operation_value Op_Delete = ''delete''"
| "operation_value Op_Noop = ''noop''"
| "operation_value Op_Reject = ''reject''"
| "operation_value Op_Pending = ''pending''"
| "operation_value Op_Ignore = ''ignore''"
| "operation_value Op_Consolidate = ''consolidate''"

datatype candidate_operation = Propose_Add | Propose_Update | Propose_Delete | Propose_Ignore

fun proposal_value :: "candidate_operation \<Rightarrow> string" where
  "proposal_value Propose_Add = ''add''"
| "proposal_value Propose_Update = ''update''"
| "proposal_value Propose_Delete = ''delete''"
| "proposal_value Propose_Ignore = ''ignore''"

datatype semantic_target =
  About_User | About_Response | About_Task | About_Artifact | About_Session | About_Memory | About_Unknown

fun target_value :: "semantic_target \<Rightarrow> string" where
  "target_value About_User = ''user_profile''"
| "target_value About_Response = ''assistant_response''"
| "target_value About_Task = ''task''"
| "target_value About_Artifact = ''artifact''"
| "target_value About_Session = ''session''"
| "target_value About_Memory = ''memory''"
| "target_value About_Unknown = ''unknown''"

datatype temporal_scope = Current_Turn | Session_Time | Long_Term | Canonical_Time | Time_Unknown

fun temporal_value :: "temporal_scope \<Rightarrow> string" where
  "temporal_value Current_Turn = ''current_turn''"
| "temporal_value Session_Time = ''session''"
| "temporal_value Long_Term = ''long_term''"
| "temporal_value Canonical_Time = ''canonical''"
| "temporal_value Time_Unknown = ''unknown''"

datatype polarity = Affirmed | Negated | Polarity_Unknown

fun polarity_value :: "polarity \<Rightarrow> string" where
  "polarity_value Affirmed = ''affirmed''"
| "polarity_value Negated = ''negated''"
| "polarity_value Polarity_Unknown = ''unknown''"

datatype certainty = Certain | Uncertain

fun certainty_value :: "certainty \<Rightarrow> string" where
  "certainty_value Certain = ''certain''"
| "certainty_value Uncertain = ''uncertain''"

datatype verifier_verdict = Verdict_Confirmed | Verdict_Contradicted | Verdict_Uncertain

fun verdict_value :: "verifier_verdict \<Rightarrow> string" where
  "verdict_value Verdict_Confirmed = ''confirmed''"
| "verdict_value Verdict_Contradicted = ''contradicted''"
| "verdict_value Verdict_Uncertain = ''uncertain''"

datatype change_intent = Intend_Set | Intend_Replace | Intend_Delete | Intend_None | Intend_Unknown

fun intent_value :: "change_intent \<Rightarrow> string" where
  "intent_value Intend_Set = ''set''"
| "intent_value Intend_Replace = ''replace''"
| "intent_value Intend_Delete = ''delete''"
| "intent_value Intend_None = ''none''"
| "intent_value Intend_Unknown = ''unknown''"

datatype revision_operation = Revision_Add | Revision_Update | Revision_Consolidate

datatype decision_status =
  Decision_Accepted | Decision_Rejected | Decision_Pending | Decision_Noop | Decision_Observed |
  Decision_Resolved

fun decision_value :: "decision_status \<Rightarrow> string" where
  "decision_value Decision_Accepted = ''accepted''"
| "decision_value Decision_Rejected = ''rejected''"
| "decision_value Decision_Pending = ''pending''"
| "decision_value Decision_Noop = ''noop''"
| "decision_value Decision_Observed = ''observed''"
| "decision_value Decision_Resolved = ''resolved''"

datatype lifecycle_status = Memory_Active | Memory_Deletion_Pending | Memory_Deleted

fun lifecycle_value :: "lifecycle_status \<Rightarrow> string" where
  "lifecycle_value Memory_Active = ''active''"
| "lifecycle_value Memory_Deletion_Pending = ''deletion_pending''"
| "lifecycle_value Memory_Deleted = ''deleted''"

datatype memory_index_status =
  Indexing_Pending | Indexing_Ready | Indexing_Out_Of_Sync | Indexing_Deletion_Pending |
  Indexing_Deleted | Indexing_Dead_Letter

fun indexing_value :: "memory_index_status \<Rightarrow> string" where
  "indexing_value Indexing_Pending = ''pending''"
| "indexing_value Indexing_Ready = ''ready''"
| "indexing_value Indexing_Out_Of_Sync = ''out_of_sync''"
| "indexing_value Indexing_Deletion_Pending = ''deletion_pending''"
| "indexing_value Indexing_Deleted = ''deleted''"
| "indexing_value Indexing_Dead_Letter = ''dead_letter''"

datatype formation_reason =
  Accepted_New | Accepted_Update | Authorized_Delete | Same_Value | Duplicate_Candidate |
  Confidence_Pending | Confidence_Low | Ambiguous_Conflict | Ambiguous_Delete |
  Current_Turn_Override | Assistant_Only_Evidence | Recalled_Memory_Repetition | Sensitive_Content |
  Invalid_Evidence | Invalid_Scope | Identity_Mismatch | Temporary_Request | Ttl_Expired | Provider_Error

fun reason_value :: "formation_reason \<Rightarrow> string" where
  "reason_value Accepted_New = ''accepted_new''"
| "reason_value Accepted_Update = ''accepted_update''"
| "reason_value Authorized_Delete = ''authorized_delete''"
| "reason_value Same_Value = ''same_value''"
| "reason_value Duplicate_Candidate = ''duplicate_candidate''"
| "reason_value Confidence_Pending = ''confidence_pending''"
| "reason_value Confidence_Low = ''confidence_low''"
| "reason_value Ambiguous_Conflict = ''ambiguous_conflict''"
| "reason_value Ambiguous_Delete = ''ambiguous_delete''"
| "reason_value Current_Turn_Override = ''current_turn_override''"
| "reason_value Assistant_Only_Evidence = ''assistant_only_evidence''"
| "reason_value Recalled_Memory_Repetition = ''recalled_memory_repetition''"
| "reason_value Sensitive_Content = ''sensitive_content''"
| "reason_value Invalid_Evidence = ''invalid_evidence''"
| "reason_value Invalid_Scope = ''invalid_scope''"
| "reason_value Identity_Mismatch = ''identity_mismatch''"
| "reason_value Temporary_Request = ''temporary_request''"
| "reason_value Ttl_Expired = ''ttl_expired''"
| "reason_value Provider_Error = ''provider_error''"

datatype evidence_role = By_User | By_Assistant | By_Agent | By_System | By_Canonical

fun role_value :: "evidence_role \<Rightarrow> string" where
  "role_value By_User = ''user''"
| "role_value By_Assistant = ''assistant''"
| "role_value By_Agent = ''agent''"
| "role_value By_System = ''system''"
| "role_value By_Canonical = ''canonical''"

subsection \<open>Candidates\<close>

record evidence_ref =
  er_turn :: "ident option"
  er_event :: "ident option"
  er_role :: evidence_role
  er_quote :: "string option"
  er_hash :: "string option"

record candidate_semantics =
  sm_target :: semantic_target
  sm_slot :: string
  sm_value :: json
  sm_time :: temporal_scope
  sm_polarity :: polarity
  sm_certainty :: certainty
  sm_intent :: change_intent

record candidate =
  cd_id :: ident
  cd_operation :: candidate_operation
  cd_scope :: string
  cd_content :: string
  cd_value :: "(string, json) dict"
  cd_semantic :: "candidate_semantics option"
  cd_subject_type :: string
  cd_subject :: "ident option"
  cd_tenant :: "ident option"
  cd_key :: "string option"
  cd_target :: "ident option"
  cd_confidence :: rat
  cd_importance :: rat
  cd_sensitivity :: string
  cd_evidence :: "evidence_ref list"
  cd_reason :: string

subsection \<open>Decisions\<close>

record lifecycle_op =
  lo_id :: ident
  lo_operation :: memory_operation
  lo_status :: decision_status
  lo_reason :: formation_reason
  lo_tenant :: ident
  lo_user :: ident
  lo_subject_type :: string
  lo_subject :: ident
  lo_agent :: "ident option"
  lo_source :: "string option"
  lo_meta :: "(string, json) dict"
  lo_key :: string
  lo_hash :: string
  lo_memory :: "ident option"
  lo_revision :: "ident option"
  lo_job :: "ident option"
  lo_refs :: "string list"

subsection \<open>What is stored\<close>

record memory_item =
  mi_id :: ident
  mi_scope :: string
  mi_subject_type :: string
  mi_subject :: ident
  mi_user :: "ident option"
  mi_tenant :: "ident option"
  mi_agent :: "ident option"
  mi_content :: string
  mi_value :: "(string, json) dict"
  mi_source :: string
  mi_confidence :: rat
  mi_importance :: rat
  mi_visibility :: string
  mi_expires :: "time option"
  mi_meta :: "(string, json) dict"
  mi_key :: "string option"
  mi_hash :: "string option"
  mi_revision :: "ident option"
  mi_revision_no :: "nat option"
  mi_job :: "ident option"
  mi_status :: lifecycle_status
  mi_index :: "memory_index_status option"
  mi_refs :: "string list"
  mi_created :: time
  mi_updated :: time

record memory_revision =
  mr_id :: ident
  mr_memory :: ident
  mr_no :: nat
  mr_key :: string
  mr_operation :: revision_operation
  mr_content :: string
  mr_value :: "(string, json) dict"
  mr_evidence :: "evidence_ref list"
  mr_confidence :: rat
  mr_policy :: string
  mr_supersedes :: "ident option"
  mr_job :: "ident option"
  mr_created :: time

record memory_event =
  me_id :: ident
  me_type :: string
  me_memory :: "ident option"
  me_user :: "ident option"
  me_tenant :: "ident option"
  me_agent :: "ident option"
  me_request :: "ident option"
  me_session :: "ident option"
  me_turn :: "ident option"
  me_run :: "ident option"
  me_job :: "ident option"
  me_key :: "string option"
  me_decision :: "string option"
  me_decision_id :: "ident option"
  me_scope :: "string option"
  me_payload :: "(string, json) dict"
  me_created :: time

text \<open>
  The state of \<open>MemoryItemRepository\<close> (items, events) and \<open>MemoryRevisionLedgerRepository\<close>
  (revisions), with the index outbox and, when it is configured, the formation repository that the
  lifecycle store also writes.
\<close>

record memory_world =
  mw_items :: "(ident, memory_item) dict"
  mw_events :: "memory_event list"
  mw_revisions :: "(ident, memory_revision list) dict"
  mw_index :: index_outbox
  mw_formation :: "formation_store option"

definition empty_memory :: memory_world where
  "empty_memory =
     \<lparr>mw_items = [], mw_events = [], mw_revisions = [], mw_index = empty_index_outbox, mw_formation = None\<rparr>"

subsection \<open>Text of JSON values\<close>

text \<open>
  \<open>json.dumps\<close> with the options the code passes. Every value in a dictionary of the models is a JSON
  value, so \<open>default=str\<close> is never used.
\<close>

record json_style =
  js_ascii :: bool
  js_sorted :: bool
  js_item :: string
  js_key :: string

definition plain_style :: json_style where
  "plain_style = \<lparr>js_ascii = False, js_sorted = False, js_item = '', '', js_key = '': ''\<rparr>"

definition compact_style :: json_style where
  "compact_style = \<lparr>js_ascii = False, js_sorted = False, js_item = '','', js_key = '':''\<rparr>"

definition canonical_style :: json_style where
  "canonical_style = \<lparr>js_ascii = False, js_sorted = True, js_item = '','', js_key = '':''\<rparr>"

definition ordering_style :: json_style where
  "ordering_style = \<lparr>js_ascii = True, js_sorted = True, js_item = '', '', js_key = '': ''\<rparr>"

definition json_char :: "bool \<Rightarrow> char \<Rightarrow> string" where
  "json_char asc c =
     (let n = (of_char c :: nat)
      in if n = 34 \<or> n = 92 then [CHR 0x5C, c]
         else if n = 8 then [CHR 0x5C, CHR ''b'']
         else if n = 9 then [CHR 0x5C, CHR ''t'']
         else if n = 10 then [CHR 0x5C, CHR ''n'']
         else if n = 12 then [CHR 0x5C, CHR ''f'']
         else if n = 13 then [CHR 0x5C, CHR ''r'']
         else if n < 32 \<or> asc \<and> 126 < n
         then CHR 0x5C # ''u00'' @ [hex_digit (n div 16), hex_digit (n mod 16)]
         else [c])"

definition json_string :: "bool \<Rightarrow> string \<Rightarrow> string" where
  "json_string asc s = CHR 0x22 # concat (map (json_char asc) s) @ [CHR 0x22]"

fun join_with :: "string \<Rightarrow> string list \<Rightarrow> string" where
  "join_with sep [] = []"
| "join_with sep [s] = s"
| "join_with sep (s # t # ss) = s @ sep @ join_with sep (t # ss)"

fun json_dumps :: "json_style \<Rightarrow> json \<Rightarrow> string"
  and json_dumps_list :: "json_style \<Rightarrow> json list \<Rightarrow> string list"
  and json_dumps_items :: "json_style \<Rightarrow> (string \<times> json) list \<Rightarrow> (string \<times> string) list" where
  "json_dumps st JNull = ''null''"
| "json_dumps st (JBool b) = (if b then ''true'' else ''false'')"
| "json_dumps st (JNum n) = int_str n"
| "json_dumps st (JStr s) = json_string (js_ascii st) s"
| "json_dumps st (JList xs) = ''['' @ join_with (js_item st) (json_dumps_list st xs) @ '']''"
| "json_dumps st (JObj kvs) =
     (let items = json_dumps_items st kvs;
          ordered = (if js_sorted st then sort_key fst items else items)
      in ''{'' @ join_with (js_item st) (map (\<lambda>(k, v). json_string (js_ascii st) k @ js_key st @ v) ordered) @ ''}'')"
| "json_dumps_list st [] = []"
| "json_dumps_list st (x # xs) = json_dumps st x # json_dumps_list st xs"
| "json_dumps_items st [] = []"
| "json_dumps_items st ((k, v) # kvs) = (k, json_dumps st v) # json_dumps_items st kvs"

text \<open>The length of the UTF-8 encoding of a text.\<close>

definition utf8_length :: "string \<Rightarrow> nat" where
  "utf8_length s = sum_list (map (\<lambda>c. if (of_char c :: nat) < 128 then 1 else 2) s)"

subsection \<open>Words and case folding\<close>

text \<open>
  \<open>casefold\<close> on the characters up to \<open>0xFF\<close>. The one character whose folding lies outside that range
  (the micro sign) is kept; no other character folds to the same, so comparisons are unaffected.
\<close>

definition fold_char :: "char \<Rightarrow> string" where
  "fold_char c = (if (of_char c :: nat) = 223 then ''ss'' else [lower_char c])"

definition py_casefold :: "string \<Rightarrow> string" where
  "py_casefold s = concat (map fold_char s)"

text \<open>\<open>s.split()\<close>: the maximal pieces without white space.\<close>

fun split_words :: "string \<Rightarrow> string \<Rightarrow> string list" where
  "split_words w [] = (if w = [] then [] else [w])"
| "split_words w (c # cs) =
     (if py_isspace c then (if w = [] then [] else [w]) @ split_words [] cs
      else split_words (w @ [c]) cs)"

definition normalized_content :: "string \<Rightarrow> string" where
  "normalized_content s = py_casefold (join_with '' '' (split_words [] s))"

text \<open>\<open>s.rsplit(":", 1)[-1]\<close>\<close>

definition after_last_colon :: "string \<Rightarrow> string" where
  "after_last_colon s = rev (takeWhile (\<lambda>c. c \<noteq> CHR '':'') (rev s))"

end
