(* ===== verification/Memory_Items.thy ===== *)
theory Memory_Items
  imports Memory_Model
begin

text \<open>
  The in-memory repositories of memory items and events (\<open>MemoryItemRepository\<close> of
  \<open>app/repositories/context_stores.py\<close>) and of revisions (\<open>MemoryRevisionLedgerRepository\<close> of
  \<open>app/repositories/memory_revisions.py\<close>). No method suspends between its reads and its writes, so
  each is one step. Offsets and limits are natural numbers; a method that reads the clock once per
  item reads it once here.
\<close>

subsection \<open>Visibility\<close>

text \<open>\<open>_memory_active\<close> and \<open>_memory_visible_for_lifecycle_query\<close>\<close>

definition unexpired :: "time \<Rightarrow> memory_item \<Rightarrow> bool" where
  "unexpired now m \<longleftrightarrow> (case mi_expires m of None \<Rightarrow> True | Some e \<Rightarrow> now < e)"

definition memory_live :: "time \<Rightarrow> memory_item \<Rightarrow> bool" where
  "memory_live now m \<longleftrightarrow> mi_status m = Memory_Active \<and> unexpired now m"

definition memory_visible :: "time \<Rightarrow> memory_item \<Rightarrow> bool" where
  "memory_visible now m \<longleftrightarrow> mi_status m \<noteq> Memory_Active \<or> unexpired now m"

text \<open>Most recently updated first; \<open>sorted(\<dots>, reverse=True)\<close> is stable.\<close>

definition newest_first :: "memory_item list \<Rightarrow> memory_item list" where
  "newest_first ms = rev (sort_key (\<lambda>m. (mi_updated m, mi_id m)) (rev ms))"

definition page :: "nat \<Rightarrow> nat \<Rightarrow> 'a list \<Rightarrow> 'a list" where
  "page offset limit xs = take limit (drop offset xs)"

subsection \<open>Items\<close>

definition same_active_key :: "memory_item \<Rightarrow> memory_item \<Rightarrow> bool" where
  "same_active_key a m \<longleftrightarrow>
     mi_id a \<noteq> mi_id m \<and> mi_status a = Memory_Active \<and> mi_tenant a = mi_tenant m \<and>
     mi_subject_type a = mi_subject_type m \<and> mi_subject a = mi_subject m \<and>
     mi_scope a = mi_scope m \<and> mi_key a = mi_key m"

definition key_conflict :: "memory_item \<Rightarrow> memory_world \<Rightarrow> bool" where
  "key_conflict m w \<longleftrightarrow>
     str_set (mi_key m) \<and> mi_status m = Memory_Active \<and>
     find (\<lambda>a. same_active_key a m) (dvalues (mw_items w)) \<noteq> None"

definition put_item :: "memory_item \<Rightarrow> memory_world \<Rightarrow> memory_world" where
  "put_item m w = w\<lparr>mw_items := dput (mi_id m) m (mw_items w)\<rparr>"

definition items_add :: "memory_item \<Rightarrow> memory_world \<Rightarrow> (py_exn + memory_item) \<times> memory_world" where
  "items_add m w =
     (if key_conflict m w then (Inl (Value_Error ''Active memory key already exists''), w)
      else (Inr m, put_item m w))"

record item_query =
  iq_user :: "ident option"
  iq_tenant :: "ident option"
  iq_scopes :: "string list"
  iq_subject_type :: "string option"
  iq_subject :: "ident option"
  iq_agent :: "ident option"
  iq_lifecycle :: "string list"
  iq_indexing :: "string list"

text \<open>A filter that is \<open>None\<close> or empty is not applied.\<close>

definition when_set :: "string option \<Rightarrow> (string \<Rightarrow> bool) \<Rightarrow> bool" where
  "when_set x p \<longleftrightarrow> \<not> str_set x \<or> p (the x)"

definition item_matches :: "time \<Rightarrow> item_query \<Rightarrow> memory_item \<Rightarrow> bool" where
  "item_matches now q m \<longleftrightarrow>
     when_set (iq_user q) (\<lambda>u. mi_user m = None \<or> mi_user m = Some u) \<and>
     when_set (iq_tenant q) (\<lambda>t. mi_tenant m = None \<or> mi_tenant m = Some t) \<and>
     (iq_scopes q = [] \<or> mi_scope m \<in> set (iq_scopes q)) \<and>
     when_set (iq_subject_type q) (\<lambda>t. mi_subject_type m = t) \<and>
     when_set (iq_subject q) (\<lambda>i. mi_subject m = i) \<and>
     when_set (iq_agent q) (\<lambda>a. mi_agent m = None \<or> mi_agent m = Some a) \<and>
     lifecycle_value (mi_status m) \<in> set (if iq_lifecycle q = [] then [''active''] else iq_lifecycle q) \<and>
     (iq_indexing q = [] \<or>
        (case mi_index m of None \<Rightarrow> False | Some s \<Rightarrow> indexing_value s \<in> set (iq_indexing q))) \<and>
     memory_visible now m"

definition list_active :: "time \<Rightarrow> item_query \<Rightarrow> nat \<Rightarrow> nat \<Rightarrow> memory_world \<Rightarrow> memory_item list" where
  "list_active now q offset limit w =
     page offset limit (newest_first (filter (item_matches now q) (dvalues (mw_items w))))"

definition list_user_page ::
    "time \<Rightarrow> ident \<Rightarrow> ident \<Rightarrow> string list \<Rightarrow> nat \<Rightarrow> nat \<Rightarrow> memory_world \<Rightarrow> memory_item list \<times> nat" where
  "list_user_page now tenant user scopes offset limit w =
     (let ms = newest_first (filter (\<lambda>m. mi_tenant m = Some tenant \<and> mi_user m = Some user \<and>
                 mi_subject_type m = ''user'' \<and> mi_subject m = user \<and> mi_scope m \<in> set scopes \<and>
                 mi_status m = Memory_Active \<and> memory_visible now m) (dvalues (mw_items w)))
      in (page offset limit ms, length ms))"

definition get_current_by_key ::
    "time \<Rightarrow> ident \<Rightarrow> string \<Rightarrow> ident \<Rightarrow> ident option \<Rightarrow> string \<Rightarrow> string \<Rightarrow> bool \<Rightarrow> memory_world \<Rightarrow> memory_item option" where
  "get_current_by_key now tenant stype subject user scope key expired w =
     (case find (\<lambda>m. mi_tenant m = Some tenant \<and> mi_subject_type m = stype \<and> mi_subject m = subject \<and>
              (user = None \<or> mi_user m = user) \<and> mi_scope m = scope \<and> mi_key m = Some key \<and>
              mi_status m = Memory_Active) (dvalues (mw_items w)) of
        None \<Rightarrow> None
      | Some m \<Rightarrow> if \<not> expired \<and> \<not> memory_live now m then None else Some m)"

definition get_active_by_ids ::
    "time \<Rightarrow> ident list \<Rightarrow> ident \<Rightarrow> string \<Rightarrow> ident \<Rightarrow> ident option \<Rightarrow> string list \<Rightarrow> memory_world \<Rightarrow>
     memory_item list" where
  "get_active_by_ids now ids tenant stype subject user scopes w =
     List.map_filter (\<lambda>i. case dget (mw_items w) i of
         None \<Rightarrow> None
       | Some m \<Rightarrow>
           if mi_tenant m = Some tenant \<and> mi_subject_type m = stype \<and> mi_subject m = subject \<and>
              (user = None \<or> mi_user m = user) \<and> (scopes = [] \<or> mi_scope m \<in> set scopes) \<and>
              memory_live now m
           then Some m else None) ids"

definition get_item :: "ident \<Rightarrow> ident \<Rightarrow> memory_world \<Rightarrow> memory_item option" where
  "get_item i tenant w =
     (case dget (mw_items w) i of
        None \<Rightarrow> None
      | Some m \<Rightarrow> if mi_tenant m \<noteq> Some tenant then None else Some m)"

definition list_indexable ::
    "time \<Rightarrow> ident \<Rightarrow> nat \<Rightarrow> nat \<Rightarrow> ident option \<Rightarrow> memory_world \<Rightarrow> memory_item list" where
  "list_indexable now tenant limit offset after w =
     page offset limit (sort_key mi_id (filter (\<lambda>m. mi_tenant m = Some tenant \<and> memory_live now m \<and>
       (case after of None \<Rightarrow> True | Some a \<Rightarrow> a < mi_id m)) (dvalues (mw_items w))))"

definition set_index_state ::
    "ident \<Rightarrow> ident \<Rightarrow> ident option \<Rightarrow> memory_index_status \<Rightarrow> ident option \<Rightarrow> time \<Rightarrow> memory_world \<Rightarrow>
     memory_item option \<times> memory_world" where
  "set_index_state i tenant expected status external stamp w =
     (case dget (mw_items w) i of
        None \<Rightarrow> (None, w)
      | Some m \<Rightarrow>
          if mi_tenant m \<noteq> Some tenant \<or> mi_status m \<noteq> Memory_Active \<or> mi_revision m \<noteq> expected
          then (None, w)
          else
            let meta = (if str_set external then dput ''mem0_memory_id'' (JStr (the external)) (mi_meta m)
                        else mi_meta m);
                m' = m\<lparr>mi_index := Some status, mi_meta := meta, mi_updated := stamp\<rparr>
            in (Some m', w\<lparr>mw_items := dput i m' (mw_items w)\<rparr>))"

definition same_memory :: "memory_item \<Rightarrow> memory_item \<Rightarrow> bool" where
  "same_memory a b \<longleftrightarrow>
     mi_tenant a = mi_tenant b \<and> mi_user a = mi_user b \<and> mi_subject_type a = mi_subject_type b \<and>
     mi_subject a = mi_subject b \<and> mi_scope a = mi_scope b \<and> mi_key a = mi_key b"

definition compare_and_set_current :: "memory_item \<Rightarrow> ident option \<Rightarrow> memory_world \<Rightarrow> bool \<times> memory_world" where
  "compare_and_set_current m expected w =
     (case dget (mw_items w) (mi_id m) of
        None \<Rightarrow> (False, w)
      | Some old \<Rightarrow>
          if \<not> same_memory old m \<or> mi_status old \<noteq> Memory_Active \<or> mi_revision old \<noteq> expected
          then (False, w)
          else (True, put_item m w))"

definition expired_at :: "time \<Rightarrow> memory_item \<Rightarrow> bool" where
  "expired_at now m \<longleftrightarrow> (case mi_expires m of None \<Rightarrow> False | Some e \<Rightarrow> e \<le> now)"

definition expire_before :: "time \<Rightarrow> memory_world \<Rightarrow> ident list \<times> memory_world" where
  "expire_before now w =
     (let gone = map fst (filter (\<lambda>(i, m). expired_at now m) (mw_items w))
      in (gone, w\<lparr>mw_items := fold dpop gone (mw_items w)\<rparr>))"

definition items_expired :: "time \<Rightarrow> memory_world \<Rightarrow> memory_item list" where
  "items_expired now w = filter (expired_at now) (dvalues (mw_items w))"

subsection \<open>Events\<close>

definition same_payload :: "memory_event \<Rightarrow> memory_event \<Rightarrow> bool" where
  "same_payload a b = py_eq (JObj (me_payload a)) (JObj (me_payload b))"

definition same_event :: "memory_event \<Rightarrow> memory_event \<Rightarrow> bool" where
  "same_event a b \<longleftrightarrow>
     me_type a = me_type b \<and> me_memory a = me_memory b \<and> me_user a = me_user b \<and>
     me_tenant a = me_tenant b \<and> me_agent a = me_agent b \<and> me_request a = me_request b \<and>
     me_session a = me_session b \<and> me_turn a = me_turn b \<and> me_run a = me_run b \<and> me_job a = me_job b \<and>
     me_key a = me_key b \<and> me_decision a = me_decision b \<and> me_decision_id a = me_decision_id b \<and>
     me_scope a = me_scope b \<and> same_payload a b"

definition find_event :: "ident \<Rightarrow> memory_world \<Rightarrow> memory_event option" where
  "find_event i w = find (\<lambda>e. me_id e = i) (mw_events w)"

definition log_event :: "memory_event \<Rightarrow> memory_world \<Rightarrow> memory_world" where
  "log_event e w = w\<lparr>mw_events := mw_events w @ [e]\<rparr>"

definition memory_event_add :: "memory_event \<Rightarrow> memory_world \<Rightarrow> (py_exn + memory_event) \<times> memory_world" where
  "memory_event_add e w =
     (case find_event (me_id e) w of
        Some old \<Rightarrow>
          (if same_event old e then Inr old else Inl (Value_Error ''Memory event identity cannot be changed''), w)
      | None \<Rightarrow> (Inr e, log_event e w))"

definition memory_event_get :: "ident \<Rightarrow> ident \<Rightarrow> ident option \<Rightarrow> memory_world \<Rightarrow> memory_event option" where
  "memory_event_get i tenant user w =
     find (\<lambda>e. me_id e = i \<and> me_tenant e = Some tenant \<and> (user = None \<or> me_user e = user)) (mw_events w)"

record event_query =
  eq_user :: "ident option"
  eq_tenant :: "ident option"
  eq_agent :: "ident option"
  eq_fields :: "((memory_event \<Rightarrow> string option) \<times> string option) list"
  eq_decision :: "string option"

definition event_fields ::
    "ident option \<Rightarrow> ident option \<Rightarrow> ident option \<Rightarrow> ident option \<Rightarrow> ident option \<Rightarrow> ident option \<Rightarrow>
     string option \<Rightarrow> string option \<Rightarrow> string option \<Rightarrow> ((memory_event \<Rightarrow> string option) \<times> string option) list" where
  "event_fields memory request session turn run job key decision scope =
     [(me_memory, memory), (me_request, request), (me_session, session), (me_turn, turn), (me_run, run),
      (me_job, job), (me_key, key), (me_decision, decision), (me_scope, scope)]"

definition memory_event_matches :: "event_query \<Rightarrow> memory_event \<Rightarrow> bool" where
  "memory_event_matches q e \<longleftrightarrow>
     when_set (eq_user q) (\<lambda>u. me_user e = Some u) \<and> when_set (eq_tenant q) (\<lambda>t. me_tenant e = Some t) \<and>
     when_set (eq_agent q) (\<lambda>a. me_agent e = None \<or> me_agent e = Some a) \<and>
     list_all (\<lambda>(field, x). when_set x (\<lambda>v. field e = Some v)) (eq_fields q)"

definition terminal_memory_types :: "string list" where
  "terminal_memory_types = [''memory_pending_confirm'', ''memory_pending_reject'', ''memory_pending_conflict'']"

text \<open>The decision a terminal event resolves; a list or an object cannot enter the set of them.\<close>

definition resolved_id :: "memory_event \<Rightarrow> py_exn + json" where
  "resolved_id e =
     (let v = (if str_set (me_decision_id e) then JStr (the (me_decision_id e))
               else jget (me_payload e) ''decision_id'')
      in case v of JList _ \<Rightarrow> Inl Type_Error | JObj _ \<Rightarrow> Inl Type_Error | _ \<Rightarrow> Inr v)"

fun each_resolved :: "memory_event list \<Rightarrow> py_exn + json list" where
  "each_resolved [] = Inr []"
| "each_resolved (e # es) = ebind (resolved_id e) (\<lambda>v. ebind (each_resolved es) (\<lambda>vs. Inr (v # vs)))"

definition open_decisions :: "memory_event list \<Rightarrow> json list \<Rightarrow> memory_event list" where
  "open_decisions es resolved =
     filter (\<lambda>e. take 16 (me_type e) = ''memory_decision_'' \<and> JStr (me_id e) \<notin> set resolved) es"

definition memory_events_list :: "event_query \<Rightarrow> nat \<Rightarrow> memory_world \<Rightarrow> py_exn + memory_event list" where
  "memory_events_list q limit w =
     (let es = filter (memory_event_matches q) (mw_events w);
          newest = (\<lambda>xs. take limit (rev (sort_key me_created (rev xs))))
      in if eq_decision q = Some ''pending''
         then ebind (each_resolved (filter (\<lambda>e. me_type e \<in> set terminal_memory_types) (mw_events w)))
                (\<lambda>resolved. Inr (newest (open_decisions es resolved)))
         else Inr (newest es))"

subsection \<open>Revisions\<close>

definition memory_owned :: "ident \<Rightarrow> ident \<Rightarrow> string \<Rightarrow> ident \<Rightarrow> memory_item option \<Rightarrow> bool" where
  "memory_owned tenant user stype subject x \<longleftrightarrow>
     (case x of None \<Rightarrow> False | Some m \<Rightarrow>
        mi_tenant m = Some tenant \<and> mi_user m = Some user \<and> mi_subject_type m = stype \<and> mi_subject m = subject)"

definition revisions_of :: "ident \<Rightarrow> memory_world \<Rightarrow> memory_revision list" where
  "revisions_of i w = (case dget (mw_revisions w) i of None \<Rightarrow> [] | Some rs \<Rightarrow> rs)"

text \<open>The last \<open>limit\<close> revisions, at least one and at most 100.\<close>

definition list_revisions ::
    "ident \<Rightarrow> ident \<Rightarrow> ident \<Rightarrow> string \<Rightarrow> ident \<Rightarrow> int \<Rightarrow> memory_world \<Rightarrow> memory_revision list" where
  "list_revisions i tenant user stype subject limit w =
     (if \<not> memory_owned tenant user stype subject (dget (mw_items w) i) then []
      else let n = nat (max 1 (min limit 100)); rs = revisions_of i w in drop (length rs - n) rs)"

definition revision_target ::
    "memory_item option \<Rightarrow> memory_revision \<Rightarrow> ident \<Rightarrow> ident \<Rightarrow> string \<Rightarrow> ident \<Rightarrow> ident option \<Rightarrow> py_exn + memory_item" where
  "revision_target x r tenant user stype subject expected =
     (case x of
        None \<Rightarrow> Inl (Value_Error ''Memory revision target not found'')
      | Some m \<Rightarrow>
          if \<not> memory_owned tenant user stype subject x then Inl (Value_Error ''Memory revision target not found'')
          else if mi_status m \<noteq> Memory_Active then Inl (Value_Error ''Memory revision target is not active'')
          else if mi_key m \<noteq> Some (mr_key r) then Inl (Value_Error ''Memory revision key mismatch'')
          else if mi_revision m \<noteq> expected then Inl (Value_Error ''Memory current revision changed'')
          else Inr m)"

definition next_revision :: "memory_item \<Rightarrow> memory_revision \<Rightarrow> memory_world \<Rightarrow> memory_revision" where
  "next_revision m r w =
     r\<lparr>mr_no := length (revisions_of (mr_memory r) w) + 1, mr_supersedes := mi_revision m\<rparr>"

definition revise :: "memory_revision \<Rightarrow> memory_item \<Rightarrow> memory_item" where
  "revise r m = m\<lparr>mi_content := mr_content r, mi_value := mr_value r, mi_revision := Some (mr_id r),
     mi_revision_no := Some (mr_no r), mi_index := Some Indexing_Pending, mi_updated := mr_created r\<rparr>"

text \<open>\<open>append_revision_and_set_current\<close>; the list of the memory is created before the duplicate test.\<close>

definition append_revision ::
    "memory_revision \<Rightarrow> ident \<Rightarrow> ident \<Rightarrow> string \<Rightarrow> ident \<Rightarrow> ident option \<Rightarrow> memory_world \<Rightarrow>
     (py_exn + memory_revision \<times> memory_item) \<times> memory_world" where
  "append_revision r tenant user stype subject expected w =
     (case revision_target (dget (mw_items w) (mr_memory r)) r tenant user stype subject expected of
        Inl x \<Rightarrow> (Inl x, w)
      | Inr m \<Rightarrow>
          let i = mr_memory r; rs = revisions_of i w; r' = next_revision m r w;
              m' = (revise r' m)\<lparr>mi_job := mr_job r'\<rparr>
          in if list_ex (\<lambda>x. mr_id x = mr_id r') rs
             then (Inl (Value_Error ''Memory revision already exists''), w\<lparr>mw_revisions := dput i rs (mw_revisions w)\<rparr>)
             else (Inr (r', m'), w\<lparr>mw_revisions := dput i (rs @ [r']) (mw_revisions w),
                                   mw_items := dput (mi_id m) m' (mw_items w)\<rparr>))"

end
