(* ===== verification/Lifecycle_Store.thy ===== *)
theory Lifecycle_Store
  imports Memory_Items "HOL-Library.Sublist"
begin

text \<open>
  \<open>MemoryLifecycleStore\<close> of \<open>app/repositories/memory_lifecycle_store.py\<close>: the transactions that change
  a memory together with its revisions, its events and the index outbox, each with its replay. A method
  holds the lock of the store, and the lock of the formation repository is never held across a
  suspension, so every method is one step.
\<close>

subsection \<open>Scrubbing\<close>

definition sensitive_keys :: "string list" where
  "sensitive_keys =
     [''api_key'', ''apikey'', ''authorization'', ''access_token'', ''token'', ''secret'', ''password'',
      ''x-api-key'', ''credential'', ''credentials'', ''connection_string'', ''database_url'', ''dsn'',
      ''prompt'', ''quote'', ''candidate_quote'', ''user_text'', ''assistant_text'']"

definition is_sensitive_key :: "string \<Rightarrow> bool" where
  "is_sensitive_key k =
     (let n = py_lower k
      in n \<in> set sensitive_keys \<or> suffix ''_dsn'' n \<or>
         list_ex (\<lambda>x. suffix x n) [''_token'', ''_prompt'', ''_quote''] \<or>
         list_ex (\<lambda>x. sublist x n) [''api_key'', ''apikey'', ''password'', ''secret'', ''credential''])"

definition content_keys :: "string list" where
  "content_keys =
     [''content'', ''content_preview'', ''quote'', ''prompt'', ''user_text'', ''assistant_text'',
      ''structured_value'', ''pending_candidate'']"

definition scrubbed_key :: "string \<Rightarrow> bool" where
  "scrubbed_key k \<longleftrightarrow> is_sensitive_key k \<or> py_lower k \<in> set content_keys"

fun scrub_json :: "json \<Rightarrow> json"
  and scrub_list :: "json list \<Rightarrow> json list"
  and scrub_items :: "(string \<times> json) list \<Rightarrow> (string \<times> json) list" where
  "scrub_json (JObj kvs) = JObj (scrub_items kvs)"
| "scrub_json (JList xs) = JList (scrub_list xs)"
| "scrub_json v = v"
| "scrub_list [] = []"
| "scrub_list (x # xs) = scrub_json x # scrub_list xs"
| "scrub_items [] = []"
| "scrub_items ((k, v) # kvs) =
     (k, if scrubbed_key k then JStr ''[redacted]'' else scrub_json v) # scrub_items kvs"

fun json_contains :: "json \<Rightarrow> string \<Rightarrow> bool"
  and list_contains :: "json list \<Rightarrow> string \<Rightarrow> bool"
  and items_contain :: "(string \<times> json) list \<Rightarrow> string \<Rightarrow> bool" where
  "json_contains (JObj kvs) s = items_contain kvs s"
| "json_contains (JList xs) s = list_contains xs s"
| "json_contains v s = (v = JStr s)"
| "list_contains [] s = False"
| "list_contains (x # xs) s = (json_contains x s \<or> list_contains xs s)"
| "items_contain [] s = False"
| "items_contain ((k, v) # kvs) s = (json_contains v s \<or> items_contain kvs s)"

definition external_of :: "memory_item \<Rightarrow> ident option" where
  "external_of m = (case jget (mi_meta m) ''mem0_memory_id'' of JStr s \<Rightarrow> Some s | _ \<Rightarrow> None)"

definition scrubbed_item :: "memory_item \<Rightarrow> memory_item" where
  "scrubbed_item m = m\<lparr>mi_content := [], mi_value := [],
     mi_meta := (case external_of m of None \<Rightarrow> [] | Some s \<Rightarrow> [(''mem0_memory_id'', JStr s)]),
     mi_hash := None, mi_refs := [], mi_job := None\<rparr>"

definition scrub_revision :: "memory_revision \<Rightarrow> memory_revision" where
  "scrub_revision r = r\<lparr>mr_content := [], mr_value := [], mr_evidence := []\<rparr>"

definition open_turn :: "formation_turn \<Rightarrow> bool" where
  "open_turn t \<longleftrightarrow> ft_status t = Capsule_Pending \<or> ft_status t = Capsule_Claimed"

definition open_job :: "formation_job \<Rightarrow> bool" where
  "open_job j \<longleftrightarrow> fj_status j \<in> {Job_Pending, Job_Claimed, Job_Retry}"

definition turn_affected :: "lifecycle_op \<Rightarrow> ident \<Rightarrow> formation_turn \<Rightarrow> bool" where
  "turn_affected op memory t \<longleftrightarrow>
     ft_tenant t = lo_tenant op \<and> ft_user t = lo_user op \<and> open_turn t \<and>
     (ft_id t \<in> set (lo_refs op) \<or> memory \<in> set (ft_memories t))"

definition scrub_turn :: "ident \<Rightarrow> formation_turn \<Rightarrow> formation_turn" where
  "scrub_turn memory t = t\<lparr>ft_user_text := [], ft_assistant_text := [],
     ft_memories := filter (\<lambda>i. i \<noteq> memory) (ft_memories t)\<rparr>"

definition scrub_pending :: "lifecycle_op \<Rightarrow> ident \<Rightarrow> formation_store \<Rightarrow> formation_store" where
  "scrub_pending op memory s =
     (let matched = map ft_id (filter (turn_affected op memory) (dvalues (fo_turns s)));
          job_hit = (\<lambda>j. fj_tenant j = lo_tenant op \<and> fj_user j = lo_user op \<and> open_job j \<and>
             (list_ex (\<lambda>i. i \<in> set matched) (fj_sources j) \<or> items_contain (fj_trace j) memory))
      in s\<lparr>fo_turns := map (\<lambda>(i, t). (i, if turn_affected op memory t then scrub_turn memory t else t)) (fo_turns s),
           fo_jobs := map (\<lambda>(i, j). (i, if job_hit j then j\<lparr>fj_trace := scrub_items (fj_trace j)\<rparr> else j)) (fo_jobs s)\<rparr>)"

definition event_affected :: "lifecycle_op \<Rightarrow> ident \<Rightarrow> memory_event \<Rightarrow> bool" where
  "event_affected op memory e \<longleftrightarrow>
     me_memory e = Some memory \<and> me_tenant e = Some (lo_tenant op) \<and> me_user e = Some (lo_user op)"

definition scrub_events :: "lifecycle_op \<Rightarrow> ident \<Rightarrow> memory_world \<Rightarrow> memory_world" where
  "scrub_events op memory w = w\<lparr>mw_events :=
     map (\<lambda>e. if event_affected op memory e then e\<lparr>me_payload := scrub_items (me_payload e)\<rparr> else e) (mw_events w)\<rparr>"

subsection \<open>Checks\<close>

definition required_memory :: "lifecycle_op \<Rightarrow> py_exn + ident" where
  "required_memory op =
     (if str_set (lo_memory op) then Inr (the (lo_memory op))
      else Inl (Value_Error ''Memory lifecycle operation requires memory_id''))"

definition legacy_key :: "string \<Rightarrow> bool" where
  "legacy_key k \<longleftrightarrow> Sublist.prefix ''legacy-memory:'' k"

definition key_matches :: "string option \<Rightarrow> string \<Rightarrow> bool" where
  "key_matches stored expected \<longleftrightarrow> stored = Some expected \<or> stored = None \<and> legacy_key expected"

definition operation_target :: "memory_item option \<Rightarrow> lifecycle_op \<Rightarrow> bool \<Rightarrow> py_exn + memory_item" where
  "operation_target x op require_active =
     (case x of
        None \<Rightarrow> Inl (Value_Error ''Memory lifecycle target not found'')
      | Some m \<Rightarrow>
          if mi_tenant m \<noteq> Some (lo_tenant op) \<or> mi_user m \<noteq> Some (lo_user op) \<or>
             mi_subject_type m \<noteq> lo_subject_type op \<or> mi_subject m \<noteq> lo_subject op \<or>
             \<not> key_matches (mi_key m) (lo_key op)
          then Inl (Value_Error ''Memory lifecycle target not found'')
          else if require_active \<and> mi_status m \<noteq> Memory_Active
          then Inl (Value_Error ''Memory lifecycle target is not active'')
          else Inr m)"

definition active_key_taken :: "memory_item \<Rightarrow> memory_world \<Rightarrow> bool" where
  "active_key_taken m w \<longleftrightarrow>
     list_ex (\<lambda>a. mi_status a = Memory_Active \<and> mi_tenant a = mi_tenant m \<and>
        mi_subject_type a = mi_subject_type m \<and> mi_subject a = mi_subject m \<and> mi_scope a = mi_scope m \<and>
        mi_key a = mi_key m) (dvalues (mw_items w))"

definition index_identity :: "index_operation \<Rightarrow> memory_world \<Rightarrow> py_exn + unit" where
  "index_identity x w =
     (case dget (xo_keys (mw_index w)) (ix_key x) of
        None \<Rightarrow> Inr ()
      | Some i \<Rightarrow>
          (case dget (xo_ops (mw_index w)) i of
             None \<Rightarrow> Inl (Runtime_Error ''KeyError'')
           | Some old \<Rightarrow>
               if same_index_operation old x then Inr ()
               else Inl (Value_Error ''Index operation identity conflict'')))"

definition put_index :: "index_operation \<Rightarrow> memory_world \<Rightarrow> memory_world" where
  "put_index x w = w\<lparr>mw_index := \<lparr>xo_ops = dput (ix_id x) x (xo_ops (mw_index w)),
     xo_keys = dput (ix_key x) (ix_id x) (xo_keys (mw_index w))\<rparr>\<rparr>"

subsection \<open>Replays\<close>

definition replay_conflict :: py_exn where
  "replay_conflict = Value_Error ''Memory lifecycle replay identity conflict''"

definition same_item_identity :: "memory_item \<Rightarrow> memory_item \<Rightarrow> bool" where
  "same_item_identity a b \<longleftrightarrow>
     mi_id a = mi_id b \<and> mi_tenant a = mi_tenant b \<and> mi_user a = mi_user b \<and>
     mi_subject_type a = mi_subject_type b \<and> mi_subject a = mi_subject b \<and> mi_agent a = mi_agent b \<and>
     mi_scope a = mi_scope b \<and> mi_key a = mi_key b \<and> mi_source a = mi_source b \<and>
     py_eq (JObj (mi_meta a)) (JObj (mi_meta b))"

definition same_memory_event :: "memory_event \<Rightarrow> memory_event \<Rightarrow> bool" where
  "same_memory_event a b \<longleftrightarrow>
     me_id a = me_id b \<and> me_type a = me_type b \<and> me_memory a = me_memory b \<and> me_tenant a = me_tenant b \<and>
     me_user a = me_user b \<and> me_agent a = me_agent b \<and> me_job a = me_job b \<and> me_key a = me_key b \<and>
     me_decision a = me_decision b \<and> me_scope a = me_scope b \<and> same_payload a b"

definition same_revision_identity :: "memory_revision \<Rightarrow> memory_revision \<Rightarrow> bool" where
  "same_revision_identity a b \<longleftrightarrow>
     mr_id a = mr_id b \<and> mr_memory a = mr_memory b \<and> mr_key a = mr_key b \<and> mr_operation a = mr_operation b \<and>
     mr_content a = mr_content b \<and> py_eq (JObj (mr_value a)) (JObj (mr_value b)) \<and>
     mr_evidence a = mr_evidence b \<and> mr_confidence a = mr_confidence b \<and> mr_policy a = mr_policy b \<and>
     mr_job a = mr_job b"

definition same_index_identity :: "index_operation \<Rightarrow> index_operation \<Rightarrow> bool" where
  "same_index_identity a b \<longleftrightarrow>
     ix_id a = ix_id b \<and> ix_key a = ix_key b \<and> ix_type a = ix_type b \<and> ix_memory a = ix_memory b \<and>
     ix_revision a = ix_revision b \<and> ix_tenant a = ix_tenant b"

type_synonym lifecycle_commit = "memory_item \<times> memory_revision \<times> memory_event \<times> index_operation \<times> bool"

text \<open>
  \<open>_load_replay\<close>; the last check is that of the item of an addition or of the operation of an update.
\<close>

definition load_replay ::
    "memory_event \<Rightarrow> memory_revision \<Rightarrow> index_operation \<Rightarrow> (memory_item \<Rightarrow> py_exn + unit) \<Rightarrow> memory_world \<Rightarrow>
     py_exn + lifecycle_commit option" where
  "load_replay e r x check w =
     (case find_event (me_id e) w of
        None \<Rightarrow> Inr None
      | Some old \<Rightarrow>
          (case (dget (mw_items w) (mr_memory r),
                 find (\<lambda>v. mr_id v = mr_id r) (revisions_of (mr_memory r) w),
                 find (\<lambda>v. ix_memory v = mr_memory r \<and> ix_revision v = Some (mr_id r))
                   (dvalues (xo_ops (mw_index w)))) of
             (Some m, Some r', Some x') \<Rightarrow>
               ebind (ensure replay_conflict (same_memory_event old e)) (\<lambda>_.
               ebind (ensure replay_conflict (same_revision_identity r' r)) (\<lambda>_.
               ebind (ensure replay_conflict (same_index_identity x' x)) (\<lambda>_.
               ebind (check m) (\<lambda>_. Inr (Some (m, r', old, x', True))))))
           | _ \<Rightarrow> Inl (Value_Error ''Incomplete lifecycle replay state'')))"

subsection \<open>Transactions\<close>

definition commit_add ::
    "memory_item \<Rightarrow> memory_revision \<Rightarrow> memory_event \<Rightarrow> index_operation \<Rightarrow> memory_world \<Rightarrow>
     (py_exn + lifecycle_commit) \<times> memory_world" where
  "commit_add m r e x w =
     (case load_replay e r x (\<lambda>old. ensure replay_conflict (same_item_identity old m)) w of
        Inl err \<Rightarrow> (Inl err, w)
      | Inr (Some c) \<Rightarrow> (Inr c, w)
      | Inr None \<Rightarrow>
          if dget (mw_items w) (mi_id m) \<noteq> None
          then (Inl (Value_Error ''Memory lifecycle ADD identity already exists''), w)
          else if active_key_taken m w then (Inl (Value_Error ''Active memory key already exists''), w)
          else (case index_identity x w of
              Inl err \<Rightarrow> (Inl err, w)
            | Inr _ \<Rightarrow>
                let r' = r\<lparr>mr_no := 1, mr_supersedes := None\<rparr>;
                    m' = m\<lparr>mi_revision := Some (mr_id r'), mi_revision_no := Some 1,
                           mi_index := Some Indexing_Pending\<rparr>
                in (Inr (m', r', e, x, False),
                    put_index x (log_event e ((put_item m' w)
                      \<lparr>mw_revisions := dput (mi_id m') [r'] (mw_revisions w)\<rparr>)))))"

definition updated_item :: "lifecycle_op \<Rightarrow> memory_revision \<Rightarrow> string \<Rightarrow> rat \<Rightarrow> rat \<Rightarrow> string list \<Rightarrow> memory_item \<Rightarrow> memory_item" where
  "updated_item op r hash confidence importance refs m =
     (revise r m)\<lparr>mi_hash := Some hash, mi_confidence := confidence, mi_importance := importance,
        mi_job := lo_job op, mi_refs := refs\<rparr>"

definition commit_update ::
    "lifecycle_op \<Rightarrow> memory_revision \<Rightarrow> memory_event \<Rightarrow> index_operation \<Rightarrow> string \<Rightarrow> rat \<Rightarrow> rat \<Rightarrow> string list \<Rightarrow>
     memory_world \<Rightarrow> (py_exn + lifecycle_commit) \<times> memory_world" where
  "commit_update op r e x hash confidence importance refs w =
     (case required_memory op of
        Inl err \<Rightarrow> (Inl err, w)
      | Inr i \<Rightarrow>
          (case load_replay e r x (\<lambda>old. map_sum id (\<lambda>_. ()) (operation_target (Some old) op False)) w of
             Inl err \<Rightarrow> (Inl err, w)
           | Inr (Some c) \<Rightarrow> (Inr c, w)
           | Inr None \<Rightarrow>
               (case operation_target (dget (mw_items w) i) op True of
                  Inl err \<Rightarrow> (Inl err, w)
                | Inr m \<Rightarrow>
                    if mi_revision m \<noteq> lo_revision op
                    then (Inl (Value_Error ''Memory lifecycle precondition changed''), w)
                    else (case index_identity x w of
                        Inl err \<Rightarrow> (Inl err, w)
                      | Inr _ \<Rightarrow>
                          let rs = revisions_of i w;
                              r' = r\<lparr>mr_no := length rs + 1, mr_supersedes := mi_revision m\<rparr>;
                              m' = updated_item op r' hash confidence importance refs m
                          in (Inr (m', r', e, x, False),
                              put_index x (log_event e (w\<lparr>mw_items := dput i m' (mw_items w),
                                mw_revisions := dput i (rs @ [r']) (mw_revisions w)\<rparr>)))))))"

definition record_decision :: "memory_event \<Rightarrow> memory_world \<Rightarrow> (py_exn + memory_event \<times> bool) \<times> memory_world" where
  "record_decision e w =
     (case find_event (me_id e) w of
        Some old \<Rightarrow>
          (if same_memory_event old e then Inr (old, True) else Inl replay_conflict, w)
      | None \<Rightarrow> (Inr (e, False), log_event e w))"

text \<open>The replay of a deletion request.\<close>

definition delete_replay ::
    "lifecycle_op \<Rightarrow> ident \<Rightarrow> memory_event \<Rightarrow> memory_event \<Rightarrow> index_operation \<Rightarrow> memory_world \<Rightarrow>
     py_exn + memory_item option \<times> memory_event \<times> index_operation \<times> bool" where
  "delete_replay op i old e x w =
     (case dget (xo_ops (mw_index w)) (case dget (xo_keys (mw_index w)) (ix_key x) of None \<Rightarrow> [] | Some k \<Rightarrow> k) of
        None \<Rightarrow> Inl (Value_Error ''Incomplete deletion replay state'')
      | Some x' \<Rightarrow>
          ebind (ensure replay_conflict (same_memory_event old e)) (\<lambda>_.
          ebind (ensure replay_conflict (same_index_identity x' x)) (\<lambda>_.
            case dget (mw_items w) i of
              Some m \<Rightarrow>
                ebind (operation_target (Some m) op False) (\<lambda>_.
                  if mi_revision m \<noteq> lo_revision op then Inl replay_conflict
                  else Inr (Some m, old, x', True))
            | None \<Rightarrow>
                if ix_status x' \<noteq> Index_Completed then Inl (Value_Error ''Incomplete deletion replay state'')
                else Inr (None, old, x', True))))"

definition deleting_item :: "time \<Rightarrow> memory_item \<Rightarrow> memory_item" where
  "deleting_item now m = m\<lparr>mi_status := Memory_Deletion_Pending, mi_index := Some Indexing_Deletion_Pending,
     mi_updated := now\<rparr>"

definition scrub_formation :: "lifecycle_op \<Rightarrow> ident \<Rightarrow> memory_world \<Rightarrow> memory_world" where
  "scrub_formation op memory w = w\<lparr>mw_formation := map_option (scrub_pending op memory) (mw_formation w)\<rparr>"

definition request_delete ::
    "lifecycle_op \<Rightarrow> memory_event \<Rightarrow> index_operation \<Rightarrow> memory_world \<Rightarrow>
     (py_exn + memory_item option \<times> memory_event \<times> index_operation \<times> bool) \<times> memory_world" where
  "request_delete op e x w =
     (case required_memory op of
        Inl err \<Rightarrow> (Inl err, w)
      | Inr i \<Rightarrow>
          (case find_event (me_id e) w of
             Some old \<Rightarrow> (delete_replay op i old e x w, w)
           | None \<Rightarrow>
               (case operation_target (dget (mw_items w) i) op True of
                  Inl err \<Rightarrow> (Inl err, w)
                | Inr m \<Rightarrow>
                    if mi_revision m \<noteq> lo_revision op
                    then (Inl (Value_Error ''Memory lifecycle precondition changed''), w)
                    else (case index_identity x w of
                        Inl err \<Rightarrow> (Inl err, w)
                      | Inr _ \<Rightarrow>
                          let x' = x\<lparr>ix_external := external_of m\<rparr>;
                              m' = deleting_item (me_created e) m
                          in (Inr (Some m', e, x', False),
                              scrub_events op i (scrub_formation op i (put_index x' (log_event e
                                (w\<lparr>mw_items := dput i m' (mw_items w)\<rparr>)))))))))"

definition forget :: "ident \<Rightarrow> memory_event \<Rightarrow> memory_world \<Rightarrow> memory_world" where
  "forget i tombstone w =
     log_event tombstone (w\<lparr>mw_revisions := dpop i (mw_revisions w), mw_items := dpop i (mw_items w)\<rparr>)"

definition delete_completed :: "index_operation option \<Rightarrow> ident option \<Rightarrow> ident option \<Rightarrow> ident \<Rightarrow> bool" where
  "delete_completed x memory revision tenant \<longleftrightarrow>
     (case x of None \<Rightarrow> False | Some x \<Rightarrow>
        ix_type x = Index_Delete \<and> ix_status x = Index_Completed \<and> Some (ix_memory x) = memory \<and>
        ix_revision x = revision \<and> ix_tenant x = tenant)"

definition complete_delete ::
    "lifecycle_op \<Rightarrow> memory_event \<Rightarrow> ident \<Rightarrow> memory_world \<Rightarrow> (py_exn + memory_event \<times> bool) \<times> memory_world" where
  "complete_delete op tombstone index w =
     (case find_event (me_id tombstone) w of
        Some old \<Rightarrow>
          (if same_memory_event old tombstone then Inr (old, True) else Inl replay_conflict, w)
      | None \<Rightarrow>
          (case required_memory op of
             Inl err \<Rightarrow> (Inl err, w)
           | Inr i \<Rightarrow>
               if \<not> delete_completed (dget (xo_ops (mw_index w)) index) (lo_memory op) (lo_revision op) (lo_tenant op)
               then (Inl (Value_Error ''Provider delete operation is not completed''), w)
               else (case operation_target (dget (mw_items w) i) op False of
                   Inl err \<Rightarrow> (Inl err, w)
                 | Inr m \<Rightarrow>
                     if mi_status m \<noteq> Memory_Deletion_Pending
                     then (Inl (Value_Error ''Memory deletion is not pending''), w)
                     else (Inr (tombstone, False), forget i tombstone w))))"

text \<open>What a failed deletion stores; a dead letter loses its content and that of its revisions.\<close>

definition failed_item :: "bool \<Rightarrow> time \<Rightarrow> memory_item \<Rightarrow> memory_item" where
  "failed_item dead now m =
     (if dead then (scrubbed_item m)\<lparr>mi_index := Some Indexing_Dead_Letter, mi_updated := now\<rparr>
      else m\<lparr>mi_index := Some Indexing_Deletion_Pending, mi_updated := now\<rparr>)"

definition fail_deletion :: "ident \<Rightarrow> bool \<Rightarrow> memory_event \<Rightarrow> memory_item \<Rightarrow> time \<Rightarrow> memory_world \<Rightarrow> memory_world" where
  "fail_deletion i dead e m now w =
     log_event e (w\<lparr>mw_items := dput i (failed_item dead now m) (mw_items w),
       mw_revisions := (if dead then dput i (map scrub_revision (revisions_of i w)) (mw_revisions w)
                        else mw_revisions w)\<rparr>)"

definition record_delete_failure ::
    "lifecycle_op \<Rightarrow> memory_event \<Rightarrow> bool \<Rightarrow> memory_world \<Rightarrow>
     (py_exn + memory_item \<times> memory_event \<times> bool) \<times> memory_world" where
  "record_delete_failure op e dead w =
     (case required_memory op of
        Inl err \<Rightarrow> (Inl err, w)
      | Inr i \<Rightarrow>
          (case operation_target (dget (mw_items w) i) op False of
             Inl err \<Rightarrow> (Inl err, w)
           | Inr m \<Rightarrow>
               if mi_status m \<noteq> Memory_Deletion_Pending
               then (Inl (Value_Error ''Memory deletion is not pending''), w)
               else (case find_event (me_id e) w of
                   Some old \<Rightarrow> (Inr (m, old, True), w)
                 | None \<Rightarrow> (Inr (failed_item dead (me_created e) m, e, False),
                            fail_deletion i dead e m (me_created e) w))))"

definition store_expired :: "time \<Rightarrow> nat \<Rightarrow> memory_world \<Rightarrow> memory_item list" where
  "store_expired now limit w =
     take limit (sort_key (\<lambda>m. (the (mi_expires m), mi_id m))
       (filter (\<lambda>m. mi_status m = Memory_Active \<and> expired_at now m) (dvalues (mw_items w))))"

subsection \<open>Deletions driven by the index worker\<close>

definition index_event_id :: "(string \<Rightarrow> string) \<Rightarrow> index_operation \<Rightarrow> string \<Rightarrow> ident" where
  "index_event_id hash x sfx = ''mevt_'' @ take 32 (hash (ix_id x @ '':'' @ sfx))"

definition pending_deletion :: "memory_item option \<Rightarrow> index_operation \<Rightarrow> py_exn + memory_item" where
  "pending_deletion y x =
     (case y of
        None \<Rightarrow> Inl (Value_Error ''Memory deletion is not pending'')
      | Some m \<Rightarrow>
          if mi_id m \<noteq> ix_memory x \<or> mi_tenant m \<noteq> Some (ix_tenant x) \<or>
             mi_status m \<noteq> Memory_Deletion_Pending \<or> mi_revision m \<noteq> ix_revision x
          then Inl (Value_Error ''Memory deletion is not pending'') else Inr m)"

definition delete_provider_status :: "index_operation \<Rightarrow> string option \<Rightarrow> string" where
  "delete_provider_status x explicit =
     (if str_set explicit then the explicit
      else (case jget (ix_meta x) ''provider_status'' of
              JStr s \<Rightarrow> if s \<in> {''success'', ''not_found''} then s else ''completed''
            | _ \<Rightarrow> ''completed''))"

definition delete_request_event :: "ident \<Rightarrow> memory_world \<Rightarrow> memory_event option" where
  "delete_request_event i w =
     find (\<lambda>e. me_memory e = Some i \<and> me_type e = ''memory_deletion_requested'') (rev (mw_events w))"

definition delete_index_event ::
    "(string \<Rightarrow> string) \<Rightarrow> index_operation \<Rightarrow> memory_item \<Rightarrow> memory_event option \<Rightarrow> ident \<Rightarrow> string \<Rightarrow> string \<Rightarrow>
     time \<Rightarrow> string \<Rightarrow> memory_event" where
  "delete_index_event hash x m request i type status now error =
     (let payload = (case request of None \<Rightarrow> [] | Some e \<Rightarrow> me_payload e);
          stored = (\<lambda>k d. case dget payload k of None \<Rightarrow> d | Some v \<Rightarrow> v)
      in \<lparr>me_id = i, me_type = type, me_memory = Some (ix_memory x), me_user = mi_user m,
          me_tenant = Some (ix_tenant x), me_agent = mi_agent m, me_request = None, me_session = None,
          me_turn = None, me_run = None, me_job = mi_job m, me_key = None,
          me_decision = (case request of None \<Rightarrow> None | Some e \<Rightarrow> me_decision e), me_decision_id = None,
          me_scope = Some (mi_scope m),
          me_payload = [(''operation'', JStr ''delete''), (''provider_status'', JStr status),
             (''reason_code'', stored ''reason_code'' (JStr ''provider_error'')),
             (''target_hash'', stored ''target_hash'' (JStr (''sha256:'' @ hash (ix_memory x))))] @
             (if error = [] then [] else [(''error_code'', JStr (take 128 error))]),
          me_created = now\<rparr>)"

definition complete_delete_from_index ::
    "(string \<Rightarrow> string) \<Rightarrow> index_operation \<Rightarrow> time \<Rightarrow> string option \<Rightarrow> memory_world \<Rightarrow>
     (py_exn + memory_event \<times> bool) \<times> memory_world" where
  "complete_delete_from_index hash x now status w =
     (if \<not> delete_completed (dget (xo_ops (mw_index w)) (ix_id x)) (Some (ix_memory x)) (ix_revision x) (ix_tenant x) \<or>
         map_option ix_id (dget (xo_ops (mw_index w)) (ix_id x)) \<noteq> Some (ix_id x)
      then (Inl (Value_Error ''Completed delete index operation required''), w)
      else
        let i = index_event_id hash x ''delete-completed''
        in case find_event i w of
             Some old \<Rightarrow> (Inr (old, True), w)
           | None \<Rightarrow>
               (case pending_deletion (dget (mw_items w) (ix_memory x)) x of
                  Inl err \<Rightarrow> (Inl err, w)
                | Inr m \<Rightarrow>
                    let tombstone = delete_index_event hash x m (delete_request_event (ix_memory x) w) i
                          ''memory_deleted_tombstone'' (delete_provider_status x status) now []
                    in (Inr (tombstone, False), forget (ix_memory x) tombstone w)))"

definition record_delete_index_failure ::
    "(string \<Rightarrow> string) \<Rightarrow> index_operation \<Rightarrow> string \<Rightarrow> bool \<Rightarrow> time \<Rightarrow> memory_world \<Rightarrow>
     (py_exn + memory_item \<times> memory_event \<times> bool) \<times> memory_world" where
  "record_delete_index_failure hash x error dead now w =
     (case pending_deletion (dget (mw_items w) (ix_memory x)) x of
        Inl err \<Rightarrow> (Inl err, w)
      | Inr m \<Rightarrow>
          let word = (if dead then ''dead-letter'' else ''retry'');
              i = index_event_id hash x (''delete-'' @ word @ '':'' @ nat_str (ix_attempts x))
          in case find_event i w of
               Some old \<Rightarrow> (Inr (m, old, True), w)
             | None \<Rightarrow>
                 let e = delete_index_event hash x m (delete_request_event (ix_memory x) w) i
                       (if dead then ''memory_deletion_dead_letter'' else ''memory_deletion_retry'')
                       (if dead then ''dead_letter'' else ''retry'') now error
                 in (Inr (failed_item dead now m, e, False), fail_deletion (ix_memory x) dead e m now w))"

end
