(* ===== verification/Candidate_Rules.thy ===== *)
theory Candidate_Rules
  imports Memory_Items "HOL-Library.Sublist"
begin

text \<open>
  The hard rules every memory candidate passes first (\<open>app/services/memory_candidate_hard_rules.py\<close>):
  the key under which a memory is filed, the hash of a candidate, the checks of its identity, evidence
  and sensitivity, the memory it would change, and the record of a decision. The values come from a
  language model or an event, so a field may have any JSON type; where the code looks such a value up
  in a set or a dictionary, a list or an object raises \<open>TypeError\<close>.
\<close>

subsection \<open>What the rules are given\<close>

text \<open>
  \<open>pc_hash\<close> is the hexadecimal SHA-256 digest, \<open>pc_sensitive\<close> tells whether one of the patterns
  \<open>_SENSITIVE_PATTERNS\<close> is found in a text; \<open>pc_world n\<close> is what the memory repository holds at the
  \<open>n\<close>-th read of an evaluation and \<open>pc_time n\<close> the clock then, as other tasks run between the reads.
\<close>

record policy_env =
  pc_hash :: "string \<Rightarrow> string"
  pc_sensitive :: "string \<Rightarrow> bool"
  pc_world :: "nat \<Rightarrow> memory_world"
  pc_time :: "nat \<Rightarrow> time"

definition allowed_scopes :: "string set" where
  "allowed_scopes =
     {''user_preference'', ''stable_fact'', ''task_memory'', ''artifact_reference'', ''session_summary''}"

definition trusted_triggers :: "formation_trigger set" where
  "trusted_triggers = {Structured_Event, Sweeper, Consolidation, Manual_Trigger}"

text \<open>\<open>value in {\<dots>}\<close>: hashing comes first, then equality with the strings.\<close>

fun hashable :: "json \<Rightarrow> bool" where
  "hashable (JList _) = False"
| "hashable (JObj _) = False"
| "hashable _ = True"

definition in_strings :: "json \<Rightarrow> string set \<Rightarrow> py_exn + bool" where
  "in_strings v ss =
     (if \<not> hashable v then Inl Type_Error
      else Inr (case v of JStr s \<Rightarrow> s \<in> ss | _ \<Rightarrow> False))"

subsection \<open>The key of a memory\<close>

definition upper_hex :: "nat \<Rightarrow> char" where
  "upper_hex n = (if n < 10 then char_of (n + 48) else char_of (n + 55))"

definition utf8 :: "char \<Rightarrow> nat list" where
  "utf8 c = (let n = (of_char c :: nat) in if n < 128 then [n] else [192 + n div 64, 128 + n mod 64])"

definition unreserved :: "char \<Rightarrow> bool" where
  "unreserved c \<longleftrightarrow> c \<in> set (alnum_chars @ ''-_.~'')"

text \<open>\<open>urllib.parse.quote(value, safe="-_.~")\<close>\<close>

definition quote_char :: "char \<Rightarrow> string" where
  "quote_char c =
     (if unreserved c then [c]
      else concat (map (\<lambda>b. [CHR ''%'', upper_hex (b div 16), upper_hex (b mod 16)]) (utf8 c)))"

definition quote :: "string \<Rightarrow> string" where
  "quote s = concat (map quote_char s)"

definition key_segment :: "(string \<Rightarrow> string) \<Rightarrow> string \<Rightarrow> string \<Rightarrow> string" where
  "key_segment hash kind v =
     (let e = quote v in if length e \<le> 128 then e else kind @ ''-sha256-'' @ hash v)"

fun canonical_contract :: "string \<Rightarrow> string \<Rightarrow> (string \<times> string) option" where
  "canonical_contract scope object =
     (if scope = ''task_memory'' \<and> object = ''plan'' then Some (''plan_id'', ''task_status'')
      else if scope = ''task_memory'' \<and> object = ''run'' then Some (''run_id'', ''execution_status'')
      else if scope = ''task_memory'' \<and> object = ''result'' then Some (''result_id'', ''result_status'')
      else if scope = ''artifact_reference'' \<and> object = ''artifact'' then Some (''artifact_id'', ''reference'')
      else None)"

declare canonical_contract.simps [simp del]

definition canonical_key ::
    "(string \<Rightarrow> string) \<Rightarrow> string \<Rightarrow> string \<Rightarrow> (string, json) dict \<Rightarrow> py_exn + string option" where
  "canonical_key hash owner scope value =
     (let object = jget value ''object_type''
      in if \<not> hashable object then Inl Type_Error
         else Inr (case object of
             JStr t \<Rightarrow>
               (case canonical_contract scope t of
                  None \<Rightarrow> None
                | Some (field, slot) \<Rightarrow>
                    (case jget value field of
                       JStr i \<Rightarrow>
                         if py_strip i = [] \<or> 128 < length i then None
                         else Some (owner @ t @ '':'' @ key_segment hash t i @ '':'' @ slot)
                     | _ \<Rightarrow> None))
           | _ \<Rightarrow> None))"

definition owner_prefix :: "(string \<Rightarrow> string) \<Rightarrow> ident \<Rightarrow> ident \<Rightarrow> string" where
  "owner_prefix hash tenant user =
     ''tenant:'' @ key_segment hash ''tenant'' tenant @ '':user:'' @ key_segment hash ''user'' user @ '':''"

definition memory_kind :: "string \<Rightarrow> string" where
  "memory_kind scope =
     (if scope = ''user_preference'' then ''preference''
      else if scope = ''stable_fact'' then ''fact''
      else if scope = ''task_memory'' then ''task''
      else if scope = ''artifact_reference'' then ''artifact''
      else if scope = ''session_summary'' then ''session_summary''
      else ''invalid'')"

text \<open>\<open>str(structured.get("slot") or hint or structured.get("object_type") or "general")\<close>\<close>

definition raw_slot :: "string option \<Rightarrow> (string, json) dict \<Rightarrow> string" where
  "raw_slot hint value =
     (if truthy (jget value ''slot'') then py_str (jget value ''slot'')
      else if str_set hint then the hint
      else if truthy (jget value ''object_type'') then py_str (jget value ''object_type'')
      else ''general'')"

definition slot_chars :: string where
  "slot_chars = lower_digits @ ''_.~-''"

definition key_slot :: "(string \<Rightarrow> string) \<Rightarrow> string \<Rightarrow> string" where
  "key_slot hash raw =
     (let slot = py_lower (py_strip (after_last_colon raw))
      in if slot \<noteq> [] \<and> length slot \<le> 128 \<and> list_all (\<lambda>c. c \<in> set slot_chars) slot then slot
         else ''sha256-'' @ hash raw)"

definition build_memory_key ::
    "(string \<Rightarrow> string) \<Rightarrow> ident \<Rightarrow> ident \<Rightarrow> string \<Rightarrow> string option \<Rightarrow> (string, json) dict \<Rightarrow> bool \<Rightarrow>
     py_exn + string" where
  "build_memory_key hash tenant user scope hint value canonical =
     (let owner = owner_prefix hash tenant user
      in ebind (canonical_key hash owner scope value) (\<lambda>ck.
           case (canonical, ck) of
             (True, Some k) \<Rightarrow> Inr k
           | _ \<Rightarrow>
               let slot = key_slot hash (raw_slot hint value);
                   k = owner @ memory_kind scope @ '':'' @ slot
               in Inr (if 512 < length k
                       then ''owner-sha256:'' @ hash (join_us [tenant, user]) @ '':'' @ memory_kind scope @ '':'' @ slot
                       else k)))"

subsection \<open>The hash of a candidate\<close>

definition semantics_json :: "candidate_semantics \<Rightarrow> (string, json) dict" where
  "semantics_json s =
     [(''target'', JStr (target_value (sm_target s))), (''slot'', JStr (sm_slot s)), (''value'', sm_value s),
      (''temporal_scope'', JStr (temporal_value (sm_time s))),
      (''polarity'', JStr (polarity_value (sm_polarity s))),
      (''certainty'', JStr (certainty_value (sm_certainty s))),
      (''change_intent'', JStr (intent_value (sm_intent s)))]"

definition evidence_json :: "evidence_ref \<Rightarrow> (string, json) dict" where
  "evidence_json r =
     [(''turn_id'', opt_json (er_turn r)), (''event_id'', opt_json (er_event r)),
      (''role'', JStr (role_value (er_role r))), (''quote'', opt_json (er_quote r)),
      (''content_hash'', opt_json (er_hash r))]"

definition candidate_hash :: "(string \<Rightarrow> string) \<Rightarrow> candidate \<Rightarrow> string" where
  "candidate_hash hash c =
     ''sha256:'' @ hash (json_dumps canonical_style (JObj
        [(''operation'', JStr (proposal_value (cd_operation c))), (''scope'', JStr (cd_scope c)),
         (''content'', JStr (normalized_content (cd_content c))), (''structured_value'', JObj (cd_value c)),
         (''semantic'', (case cd_semantic c of None \<Rightarrow> JNull | Some s \<Rightarrow> JObj (semantics_json s))),
         (''evidence_refs'', JList (sort_key (json_dumps ordering_style)
             (map (JObj \<circ> evidence_json) (cd_evidence c))))]))"

text \<open>\<open>_semantic_structured_value\<close> and \<open>same_value\<close>\<close>

definition control_fields :: "string list" where
  "control_fields =
     [''change_intent'', ''delete_intent'', ''lifecycle_reason'', ''privacy_subject'', ''temporal_scope'',
      ''consolidation_kind'', ''duplicate_of'', ''potential_duplicate_id'', ''compacted_into'',
      ''source_memory_ids'']"

definition value_fields :: "(string, json) dict \<Rightarrow> (string, json) dict" where
  "value_fields v = filter (\<lambda>(k, _). k \<notin> set control_fields) v"

definition same_value :: "memory_item \<Rightarrow> candidate \<Rightarrow> bool" where
  "same_value m c \<longleftrightarrow>
     normalized_content (mi_content m) = normalized_content (cd_content c) \<and>
     py_eq (JObj (value_fields (mi_value m))) (JObj (value_fields (cd_value c)))"

subsection \<open>Checks that need no repository\<close>

definition contains_sensitive :: "(string \<Rightarrow> bool) \<Rightarrow> candidate \<Rightarrow> bool" where
  "contains_sensitive sensitive c \<longleftrightarrow>
     py_lower (cd_sensitivity c) \<notin> {''normal'', ''low'', ''none''} \<or>
     jget (cd_value c) ''privacy_subject'' = JStr ''third_party'' \<or>
     sensitive (join_with [CHR 0x0A]
       ([cd_content c, cd_id c, cd_reason c, (case cd_key c of None \<Rightarrow> [] | Some k \<Rightarrow> k),
         (case cd_target c of None \<Rightarrow> [] | Some t \<Rightarrow> t),
         json_dumps plain_style (JObj (cd_value c)),
         json_dumps plain_style (JObj (case cd_semantic c of None \<Rightarrow> [] | Some s \<Rightarrow> semantics_json s))] @
        map (\<lambda>r. case er_quote r of None \<Rightarrow> [] | Some q \<Rightarrow> q) (cd_evidence c)))"

text \<open>\<open>v not in {None, owner}\<close>\<close>

definition foreign_owner :: "json \<Rightarrow> ident \<Rightarrow> py_exn + bool" where
  "foreign_owner v owner =
     (if \<not> hashable v then Inl Type_Error else Inr (v \<noteq> JNull \<and> v \<noteq> JStr owner))"

definition identity_mismatch :: "formation_job \<Rightarrow> candidate \<Rightarrow> py_exn + bool" where
  "identity_mismatch j c =
     (if str_set (cd_tenant c) \<and> cd_tenant c \<noteq> Some (fj_tenant j) \<or>
         str_set (cd_subject c) \<and> cd_subject c \<noteq> Some (fj_user j) \<or> cd_subject_type c \<noteq> ''user''
      then Inr True
      else ebind (foreign_owner (jget (cd_value c) ''tenant_id'') (fj_tenant j)) (\<lambda>foreign.
             if foreign then Inr True else foreign_owner (jget (cd_value c) ''user_id'') (fj_user j)))"

definition validate_structured ::
    "(string \<Rightarrow> string) \<Rightarrow> formation_job \<Rightarrow> candidate \<Rightarrow> string \<Rightarrow> py_exn + formation_reason option" where
  "validate_structured hash j c key =
     ebind (canonical_key hash [] (cd_scope c) (cd_value c)) (\<lambda>contract.
       Inr (if fj_trigger j \<noteq> Structured_Event \<and> contract = None then None
            else if cd_scope c \<notin> {''task_memory'', ''artifact_reference''} then Some Invalid_Scope
            else if contract = None then Some Invalid_Evidence
            else if cd_key c \<noteq> Some key then Some Identity_Mismatch
            else None))"

text \<open>One reference to evidence; the result is whether the reference is unusable.\<close>

definition bad_evidence :: "formation_job \<Rightarrow> formation_turn list \<Rightarrow> evidence_ref \<Rightarrow> bool" where
  "bad_evidence j ts r =
     (if er_role r = By_Canonical
      then fj_trigger j \<notin> trusted_triggers \<or> er_event r \<notin> Some ` set (fj_sources j)
      else
        (case er_turn r of
           None \<Rightarrow> True
         | Some i \<Rightarrow>
             (case find (\<lambda>t. ft_id t = i) (rev ts) of
                None \<Rightarrow> True
              | Some t \<Rightarrow>
                  i \<notin> set (fj_sources j) \<or>
                  (if er_role r = By_User
                   then \<not> str_set (er_quote r) \<or> \<not> sublist (the (er_quote r)) (ft_user_text t)
                   else str_set (er_quote r) \<and> \<not> sublist (the (er_quote r)) (ft_assistant_text t)))))"

definition has_role :: "evidence_role \<Rightarrow> candidate \<Rightarrow> bool" where
  "has_role role c \<longleftrightarrow> list_ex (\<lambda>r. er_role r = role) (cd_evidence c)"

definition validate_evidence ::
    "formation_job \<Rightarrow> candidate \<Rightarrow> formation_turn list \<Rightarrow> formation_reason option" where
  "validate_evidence j c ts =
     (let user = has_role By_User c; canonical = has_role By_Canonical c
      in if list_ex (\<lambda>t. ft_tenant t \<noteq> fj_tenant j \<or> ft_user t \<noteq> fj_user j \<or>
               fj_session j \<noteq> None \<and> Some (ft_session t) \<noteq> fj_session j) ts
         then Some Identity_Mismatch
         else if list_ex (bad_evidence j ts) (cd_evidence c) then Some Invalid_Evidence
         else if \<not> user \<and> \<not> canonical \<and> list_ex (\<lambda>t. ft_memories t \<noteq> []) ts
         then Some Recalled_Memory_Repetition
         else if \<not> user \<and> \<not> canonical then Some Assistant_Only_Evidence
         else if fj_trigger j = Consolidation \<and> cd_scope c \<in> {''user_preference'', ''stable_fact''} \<and> \<not> user \<and>
              \<not> (str_set (cd_target c) \<and>
                 (let kind = jget (cd_value c) ''consolidation_kind''
                  in kind = JStr ''exact_duplicate'' \<and> cd_operation c = Propose_Delete \<or>
                     kind = JStr ''semantic_duplicate'' \<and> cd_operation c = Propose_Update))
         then Some Invalid_Evidence
         else None)"

text \<open>\<open>_authorized_user_delete\<close>\<close>

definition authorized_delete :: "candidate \<Rightarrow> memory_item option \<Rightarrow> bool" where
  "authorized_delete c current \<longleftrightarrow>
     (case (current, cd_semantic c) of
        (Some m, Some s) \<Rightarrow>
          cd_target c = Some (mi_id m) \<and>
          list_ex (\<lambda>r. er_role r = By_User \<and> str_set (er_quote r)) (cd_evidence c) \<and>
          sm_intent s = Intend_Delete \<and> sm_time s = Long_Term \<and> sm_polarity s = Affirmed \<and>
          sm_certainty s = Certain
      | _ \<Rightarrow> False)"

subsection \<open>The evaluation\<close>

record hard_terminal =
  ht_operation :: memory_operation
  ht_status :: decision_status
  ht_reason :: formation_reason

record hard_evaluation =
  he_candidate :: candidate
  he_key :: string
  he_hash :: string
  he_current :: "memory_item option"
  he_terminal :: "hard_terminal option"
  he_authorized :: bool
  he_redacted :: bool

definition ends ::
    "policy_env \<Rightarrow> candidate \<Rightarrow> string \<Rightarrow> string \<Rightarrow> formation_reason \<Rightarrow> memory_operation \<Rightarrow> decision_status \<Rightarrow>
     memory_item option \<Rightarrow> bool \<Rightarrow> hard_evaluation" where
  "ends env c key hash reason operation status current redacted =
     \<lparr>he_candidate = c, he_key = key, he_hash = hash, he_current = current,
      he_terminal = Some \<lparr>ht_operation = operation, ht_status = status, ht_reason = reason\<rparr>,
      he_authorized = False, he_redacted = redacted \<or> contains_sensitive (pc_sensitive env) c\<rparr>"

definition rejects :: "policy_env \<Rightarrow> candidate \<Rightarrow> string \<Rightarrow> string \<Rightarrow> formation_reason \<Rightarrow> memory_item option \<Rightarrow> bool \<Rightarrow> hard_evaluation" where
  "rejects env c key hash reason current redacted =
     ends env c key hash reason Op_Reject Decision_Rejected current redacted"

text \<open>\<open>_is_recalled_memory_repetition\<close>: the read is skipped when no memory was recalled.\<close>

definition recalled_repetition ::
    "policy_env \<Rightarrow> nat \<Rightarrow> formation_job \<Rightarrow> candidate \<Rightarrow> formation_turn list \<Rightarrow> bool" where
  "recalled_repetition env n j c ts \<longleftrightarrow>
     (let used = dedupe (concat (map ft_memories ts))
      in used \<noteq> [] \<and> \<not> has_role By_User c \<and>
         list_ex (\<lambda>m. normalized_content (mi_content m) = normalized_content (cd_content c))
           (get_active_by_ids (pc_time env n) used (fj_tenant j) ''user'' (fj_user j) (Some (fj_user j)) []
              (pc_world env n)))"

definition consolidation_target :: "candidate \<Rightarrow> formation_job \<Rightarrow> py_exn + bool" where
  "consolidation_target c j =
     (if fj_trigger j \<noteq> Consolidation \<or> \<not> str_set (cd_target c) then Inr False
      else in_strings (jget (cd_value c) ''consolidation_kind'')
             {''exact_duplicate'', ''semantic_duplicate'', ''session_summary''})"

text \<open>The key of the memory a consolidation names; \<open>None\<close> when it does not name exactly that memory.\<close>

definition consolidation_key :: "policy_env \<Rightarrow> nat \<Rightarrow> formation_job \<Rightarrow> candidate \<Rightarrow> string option" where
  "consolidation_key env n j c =
     (case get_active_by_ids (pc_time env n) [the (cd_target c)] (fj_tenant j) ''user'' (fj_user j)
             (Some (fj_user j)) [cd_scope c] (pc_world env n) of
        [m] \<Rightarrow> if str_set (mi_key m) \<and> cd_key c = mi_key m then mi_key m else None
      | _ \<Rightarrow> None)"

definition canonical_delete ::
    "policy_env \<Rightarrow> nat \<Rightarrow> formation_job \<Rightarrow> candidate \<Rightarrow> memory_item option \<Rightarrow> py_exn + hard_terminal option" where
  "canonical_delete env n j c current =
     (case current of
        None \<Rightarrow> Inr None
      | Some m \<Rightarrow>
          if cd_operation c \<noteq> Propose_Delete then Inr None
          else
            ebind (if fj_trigger j = Consolidation \<and> has_role By_Canonical c
                   then in_strings (jget (cd_value c) ''lifecycle_reason'') {''exact_duplicate'', ''session_compacted''}
                   else Inr False) (\<lambda>duplicate.
              Inr (if duplicate
                   then Some \<lparr>ht_operation = Op_Delete, ht_status = Decision_Accepted, ht_reason = Duplicate_Candidate\<rparr>
                   else if fj_trigger j = Sweeper \<and> jget (cd_value c) ''lifecycle_reason'' = JStr ''ttl_expired''
                   then Some (if \<not> expired_at (pc_time env n) m
                        then \<lparr>ht_operation = Op_Reject, ht_status = Decision_Rejected, ht_reason = Invalid_Evidence\<rparr>
                        else \<lparr>ht_operation = Op_Delete, ht_status = Decision_Accepted, ht_reason = Ttl_Expired\<rparr>)
                   else None)))"

text \<open>
  The second half of \<open>evaluate\<close>: the memory the candidate is about, read after the target of a
  consolidation.
\<close>

definition hard_rules_current ::
    "policy_env \<Rightarrow> nat \<Rightarrow> formation_job \<Rightarrow> candidate \<Rightarrow> string \<Rightarrow> string \<Rightarrow> py_exn + hard_evaluation" where
  "hard_rules_current env n j c key hash =
     (let current = get_current_by_key (pc_time env n) (fj_tenant j) ''user'' (fj_user j) (Some (fj_user j))
                      (cd_scope c) key True (pc_world env n)
      in if str_set (cd_target c) \<and> map_option mi_id current \<noteq> cd_target c
         then Inr (rejects env c key hash Identity_Mismatch current False)
         else if cd_operation c \<noteq> Propose_Delete \<and>
              (case current of None \<Rightarrow> False | Some m \<Rightarrow> mi_hash m = Some hash \<or> same_value m c)
         then Inr (ends env c key hash Same_Value Op_Noop Decision_Noop current False)
         else if cd_operation c = Propose_Ignore
         then Inr (ends env c key hash Duplicate_Candidate Op_Noop Decision_Noop current False)
         else ebind (canonical_delete env (n + 1) j c current) (\<lambda>t.
                Inr \<lparr>he_candidate = c, he_key = key, he_hash = hash, he_current = current, he_terminal = t,
                     he_authorized = (t = None \<and> authorized_delete c current),
                     he_redacted = contains_sensitive (pc_sensitive env) c\<rparr>))"

text \<open>With a target of a consolidation, the key is that of the memory it names.\<close>

definition hard_rules_target ::
    "policy_env \<Rightarrow> nat \<Rightarrow> formation_job \<Rightarrow> candidate \<Rightarrow> string \<Rightarrow> string \<Rightarrow> py_exn + hard_evaluation" where
  "hard_rules_target env n j c key hash =
     ebind (consolidation_target c j) (\<lambda>target.
       if \<not> target then hard_rules_current env (n + 2) j c key hash
       else (case consolidation_key env (n + 1) j c of
          None \<Rightarrow> Inr (rejects env c key hash Identity_Mismatch None False)
        | Some k \<Rightarrow> hard_rules_current env (n + 2) j c k hash))"

definition hard_rules_evidence ::
    "policy_env \<Rightarrow> nat \<Rightarrow> formation_job \<Rightarrow> candidate \<Rightarrow> formation_turn list \<Rightarrow> string \<Rightarrow> string \<Rightarrow>
     py_exn + hard_evaluation" where
  "hard_rules_evidence env n j c ts key hash =
     (case validate_evidence j c ts of
        Some reason \<Rightarrow> Inr (rejects env c key hash reason None False)
      | None \<Rightarrow>
          if recalled_repetition env n j c ts
          then Inr (rejects env c key hash Recalled_Memory_Repetition None False)
          else if contains_sensitive (pc_sensitive env) c \<and> cd_operation c \<noteq> Propose_Delete
          then Inr (rejects env c key hash Sensitive_Content None True)
          else hard_rules_target env n j c key hash)"

definition hard_rules_identity ::
    "policy_env \<Rightarrow> nat \<Rightarrow> formation_job \<Rightarrow> candidate \<Rightarrow> formation_turn list \<Rightarrow> string \<Rightarrow> string \<Rightarrow>
     py_exn + hard_evaluation" where
  "hard_rules_identity env n j c ts key hash =
     ebind (validate_structured (pc_hash env) j c key) (\<lambda>structured.
       case structured of
         Some reason \<Rightarrow> Inr (rejects env c key hash reason None False)
       | None \<Rightarrow>
           ebind (identity_mismatch j c) (\<lambda>mismatch.
             if mismatch then Inr (rejects env c key hash Identity_Mismatch None False)
             else if cd_scope c \<notin> allowed_scopes then Inr (rejects env c key hash Invalid_Scope None False)
             else hard_rules_evidence env n j c ts key hash))"

definition candidate_key :: "policy_env \<Rightarrow> formation_job \<Rightarrow> candidate \<Rightarrow> py_exn + string" where
  "candidate_key env j c =
     build_memory_key (pc_hash env) (fj_tenant j) (fj_user j) (cd_scope c)
       (case cd_semantic c of Some s \<Rightarrow> Some (sm_slot s) | None \<Rightarrow> cd_key c) (cd_value c)
       (fj_trigger j \<in> trusted_triggers)"

definition hard_rules ::
    "policy_env \<Rightarrow> nat \<Rightarrow> formation_job \<Rightarrow> candidate \<Rightarrow> formation_turn list \<Rightarrow> py_exn + hard_evaluation" where
  "hard_rules env n j c ts =
     ebind (candidate_key env j c) (\<lambda>key.
       hard_rules_identity env n j c ts key (candidate_hash (pc_hash env) c))"

subsection \<open>The record of a decision\<close>

record policy_result =
  pr_candidate :: candidate
  pr_operation :: lifecycle_op
  pr_trace :: "(string, json) dict"

definition redacted_ref :: "(string \<Rightarrow> string) \<Rightarrow> string \<Rightarrow> string" where
  "redacted_ref hash s = ''redacted:sha256:'' @ hash s"

definition safe_source_ref :: "policy_env \<Rightarrow> string \<Rightarrow> string" where
  "safe_source_ref env s =
     (if pc_sensitive env s then redacted_ref (pc_hash env) s
      else if length s \<le> 128 then s else ''sha256:'' @ pc_hash env s)"

definition bounded_source_refs :: "policy_env \<Rightarrow> string list \<Rightarrow> string list" where
  "bounded_source_refs env refs =
     (let vs = map (safe_source_ref env) refs
      in if length vs \<le> 20 then vs
         else take 20 vs @ [''omitted:'' @ nat_str (length vs - 20) @ '':sha256:'' @
                pc_hash env (json_dumps compact_style (JList (map JStr (drop 20 vs))))])"

definition policy_outcome ::
    "policy_env \<Rightarrow> formation_job \<Rightarrow> hard_evaluation \<Rightarrow> memory_operation \<Rightarrow> decision_status \<Rightarrow> formation_reason \<Rightarrow>
     string \<Rightarrow> string option \<Rightarrow> policy_result" where
  "policy_outcome env j h operation status reason semantic verifier =
     (let c = he_candidate h; current = he_current h;
          redacted = (he_redacted h \<or> contains_sensitive (pc_sensitive env) c);
          refs = bounded_source_refs env (fj_sources j);
          verified = (case verifier of None \<Rightarrow> [] | Some v \<Rightarrow> [(''semantic_verifier'', JStr v)])
      in \<lparr>pr_candidate = c,
          pr_operation =
            \<lparr>lo_id = ''mfop_'' @ take 32 (pc_hash env (join_us [fj_id j, he_key h, he_hash h,
                operation_value operation, decision_value status, reason_value reason])),
             lo_operation = operation, lo_status = status, lo_reason = reason, lo_tenant = fj_tenant j,
             lo_user = fj_user j, lo_subject_type = ''user'', lo_subject = fj_user j, lo_agent = None,
             lo_source = None,
             lo_meta = [(''semantic_contract_version'', JStr ''v1''), (''semantic_validation'', JStr semantic)] @ verified,
             lo_key = he_key h, lo_hash = he_hash h, lo_memory = map_option mi_id current,
             lo_revision = (case current of None \<Rightarrow> None | Some m \<Rightarrow> mi_revision m),
             lo_job = Some (fj_id j), lo_refs = refs\<rparr>,
          pr_trace =
            [(''candidate_id'', JStr (if redacted then redacted_ref (pc_hash env) (cd_id c) else cd_id c)),
             (''candidate_hash'', JStr (he_hash h)), (''operation'', JStr (operation_value operation)),
             (''decision_status'', JStr (decision_value status)), (''reason_code'', JStr (reason_value reason)),
             (''scope'', JStr (cd_scope c)),
             (''memory_key'', JStr (if redacted then redacted_ref (pc_hash env) (he_key h) else he_key h)),
             (''memory_id'', opt_json (map_option mi_id current)), (''source_refs'', JList (map JStr refs)),
             (''content_redacted'', JBool redacted), (''semantic_contract_version'', JStr ''v1''),
             (''semantic_validation'', JStr semantic)] @ verified\<rparr>)"

end
