(* ===== verification/Candidate_Policy.thy ===== *)
theory Candidate_Policy
  imports Candidate_Rules
begin

text \<open>
  The decision about a memory candidate: the semantics of trusted structured candidates
  (\<open>app/services/memory_candidate_compatibility.py\<close>), the semantic validator
  (\<open>memory_candidate_semantics.py\<close>), the language guard (\<open>memory_candidate_safety_filter.py\<close>) and
  \<open>MemoryCandidatePolicy.evaluate\<close> (\<open>memory_candidate_policy.py\<close>).
\<close>

subsection \<open>Semantics of structured candidates\<close>

definition identifier_start :: string where
  "identifier_start = ''abcdefghijklmnopqrstuvwxyz''"

text \<open>\<open>[a-z][a-z0-9_.~-]{0,127}\<close>\<close>

definition slot_pattern :: "string \<Rightarrow> bool" where
  "slot_pattern s =
     (case s of [] \<Rightarrow> False
      | c # cs \<Rightarrow> c \<in> set identifier_start \<and> length cs \<le> 127 \<and> list_all (\<lambda>d. d \<in> set slot_chars) cs)"

text \<open>The schema of the semantics: a slot of that shape, and at most 8192 bytes of value.\<close>

definition semantics_valid :: "candidate_semantics \<Rightarrow> bool" where
  "semantics_valid s \<longleftrightarrow>
     slot_pattern (sm_slot s) \<and> utf8_length (json_dumps canonical_style (sm_value s)) \<le> 8192"

definition adapted_slot :: "(string \<Rightarrow> string) \<Rightarrow> candidate \<Rightarrow> string" where
  "adapted_slot hash c =
     (let v = cd_value c;
          hint = (if sublist '':explicit:'' (case cd_key c of None \<Rightarrow> [] | Some k \<Rightarrow> k) then Some ''explicit_memory''
                  else cd_key c);
          raw = after_last_colon
                  (if truthy (jget v ''slot'') then py_str (jget v ''slot'')
                   else if truthy (jget v ''object_type'') then py_str (jget v ''object_type'')
                   else if str_set hint then the hint else ''general'')
      in if slot_pattern raw then raw else ''field_'' @ take 32 (hash raw))"

definition adapted_target :: "string \<Rightarrow> semantic_target" where
  "adapted_target scope =
     (if scope \<in> {''user_preference'', ''stable_fact''} then About_User
      else if scope = ''task_memory'' then About_Task
      else if scope = ''artifact_reference'' then About_Artifact
      else if scope = ''session_summary'' then About_Session
      else About_Unknown)"

definition adapted_time :: "string \<Rightarrow> temporal_scope" where
  "adapted_time scope =
     (if scope \<in> {''task_memory'', ''artifact_reference''} then Canonical_Time
      else if scope = ''session_summary'' then Session_Time else Long_Term)"

fun expected_intent :: "candidate_operation \<Rightarrow> change_intent" where
  "expected_intent Propose_Add = Intend_Set"
| "expected_intent Propose_Update = Intend_Replace"
| "expected_intent Propose_Delete = Intend_Delete"
| "expected_intent Propose_Ignore = Intend_None"

definition artifact_value :: "(string, json) dict \<Rightarrow> json" where
  "artifact_value v = JObj [(''artifact_id'', jget v ''artifact_id''), (''uri'', jget v ''uri'')]"

text \<open>\<open>structured.get("value", content)\<close>\<close>

definition stated_value :: "candidate \<Rightarrow> json" where
  "stated_value c = (case dget (cd_value c) ''value'' of None \<Rightarrow> JStr (cd_content c) | Some v \<Rightarrow> v)"

definition adapted_value :: "candidate \<Rightarrow> json" where
  "adapted_value c =
     (if cd_scope c = ''task_memory'' then jget (cd_value c) ''status''
      else if cd_scope c = ''artifact_reference'' then artifact_value (cd_value c)
      else stated_value c)"

definition adapt_candidate :: "(string \<Rightarrow> string) \<Rightarrow> candidate \<Rightarrow> formation_trigger \<Rightarrow> py_exn + candidate" where
  "adapt_candidate hash c trigger =
     (if cd_semantic c \<noteq> None \<or> trigger \<notin> trusted_triggers then Inr c
      else
        let s = \<lparr>sm_target = adapted_target (cd_scope c), sm_slot = adapted_slot hash c,
                 sm_value = adapted_value c, sm_time = adapted_time (cd_scope c), sm_polarity = Affirmed,
                 sm_certainty = Certain, sm_intent = expected_intent (cd_operation c)\<rparr>
        in if semantics_valid s then Inr (c\<lparr>cd_semantic := Some s\<rparr>)
           else Inl (Value_Error ''MemoryCandidateSemantics''))"

subsection \<open>The semantic validator\<close>

datatype semantic_status = Semantics_Confirmed | Semantics_Pending | Semantics_Current_Turn

fun semantic_status_value :: "semantic_status \<Rightarrow> string" where
  "semantic_status_value Semantics_Confirmed = ''confirmed''"
| "semantic_status_value Semantics_Pending = ''pending''"
| "semantic_status_value Semantics_Current_Turn = ''current_turn''"

definition allowed_targets :: "string \<Rightarrow> semantic_target set" where
  "allowed_targets scope =
     (if scope = ''user_preference'' then {About_Response, About_User}
      else if scope = ''stable_fact'' then {About_User}
      else if scope = ''task_memory'' then {About_Task}
      else if scope = ''artifact_reference'' then {About_Artifact}
      else if scope = ''session_summary'' then {About_Session}
      else {})"

definition allowed_times :: "string \<Rightarrow> temporal_scope set" where
  "allowed_times scope =
     (if scope \<in> {''user_preference'', ''stable_fact''} then {Long_Term}
      else if scope \<in> {''task_memory'', ''artifact_reference''} then {Canonical_Time}
      else if scope = ''session_summary'' then {Session_Time, Canonical_Time}
      else {})"

text \<open>Whether the value the semantics state is not the one in the structured fields.\<close>

definition value_differs :: "candidate \<Rightarrow> candidate_semantics \<Rightarrow> bool" where
  "value_differs c s =
     (if cd_scope c \<in> {''user_preference'', ''stable_fact''}
      then (case dget (cd_value c) ''value'' of None \<Rightarrow> False | Some v \<Rightarrow> \<not> py_eq v (sm_value s))
      else if cd_scope c = ''task_memory'' then \<not> py_eq (jget (cd_value c) ''status'') (sm_value s)
      else if cd_scope c = ''artifact_reference'' then \<not> py_eq (sm_value s) (artifact_value (cd_value c))
      else if cd_scope c = ''session_summary'' then \<not> py_eq (sm_value s) (stated_value c)
      else False)"

definition semantic_validate :: "candidate \<Rightarrow> memory_item option \<Rightarrow> semantic_status" where
  "semantic_validate c current =
     (case cd_semantic c of
        None \<Rightarrow> Semantics_Pending
      | Some s \<Rightarrow>
          if sm_time s = Current_Turn then Semantics_Current_Turn
          else if sm_target s = About_Unknown \<or> sm_time s = Time_Unknown \<or> sm_polarity s = Polarity_Unknown \<or>
                  sm_certainty s = Uncertain \<or> sm_intent s = Intend_Unknown
          then Semantics_Pending
          else if \<not> (sm_target s \<in> allowed_targets (cd_scope c) \<or>
                     cd_operation c = Propose_Delete \<and> sm_target s = About_Memory)
          then Semantics_Pending
          else if sm_time s \<notin> allowed_times (cd_scope c) then Semantics_Pending
          else if sm_polarity s \<noteq> Affirmed then Semantics_Pending
          else if sm_intent s \<noteq> expected_intent (cd_operation c) then Semantics_Pending
          else if (case jget (cd_value c) ''slot'' of JStr t \<Rightarrow> t \<noteq> sm_slot s | _ \<Rightarrow> False) then Semantics_Pending
          else if value_differs c s then Semantics_Pending
          else if cd_operation c = Propose_Update \<and> current = None \<and> sm_time s \<noteq> Canonical_Time
          then Semantics_Pending
          else if cd_operation c = Propose_Add \<and> current \<noteq> None \<and> sm_time s \<noteq> Canonical_Time
          then Semantics_Pending
          else Semantics_Confirmed)"

subsection \<open>The language guard\<close>

text \<open>
  \<open>lg_language\<close> is \<open>_normalized_language\<close> of a semantic value and \<open>lg_instructed\<close> is
  \<open>_instruction_target_language\<close> of a quote: tables and patterns over Chinese, Japanese and other
  scripts.
\<close>

record language_guard =
  lg_language :: "json \<Rightarrow> string option"
  lg_instructed :: "string \<Rightarrow> string option"

definition user_quotes :: "candidate \<Rightarrow> string list" where
  "user_quotes c =
     List.map_filter (\<lambda>r. if er_role r = By_User \<and> str_set (er_quote r) then er_quote r else None) (cd_evidence c)"

text \<open>The result is \<open>(downgrade, filter_id)\<close>.\<close>

definition safety_filter :: "language_guard \<Rightarrow> candidate \<Rightarrow> bool \<times> string option" where
  "safety_filter g c =
     (case cd_semantic c of
        None \<Rightarrow> (False, None)
      | Some s \<Rightarrow>
          if cd_scope c \<noteq> ''user_preference'' \<or> sm_slot s \<noteq> ''response_language'' \<or>
             cd_operation c \<notin> {Propose_Add, Propose_Update}
          then (False, None)
          else
            let expected = lg_language g (sm_value s);
                actual = set (List.map_filter (lg_instructed g) (user_quotes c))
            in ((case expected of None \<Rightarrow> True | Some l \<Rightarrow> actual \<noteq> {l}), Some ''temporary_response_language_guard''))"

subsection \<open>The policy\<close>

text \<open>
  What the policy is configured with. The verifier, when there is one, is a language model whose
  answer may be an exception or not be a verdict, both \<open>None\<close>.
\<close>

record policy_config =
  pp_pending :: rat
  pp_auto :: rat
  pp_guard :: language_guard
  pp_verifier :: "(candidate \<Rightarrow> formation_turn list \<Rightarrow> verifier_verdict option) option"

definition terminal_result ::
    "policy_env \<Rightarrow> formation_job \<Rightarrow> hard_evaluation \<Rightarrow> string option \<Rightarrow> policy_result option" where
  "terminal_result env j h verifier =
     map_option (\<lambda>t. policy_outcome env j h (ht_operation t) (ht_status t) (ht_reason t) ''not_evaluated'' verifier)
       (he_terminal h)"

definition confirmed_copy :: "candidate \<Rightarrow> candidate" where
  "confirmed_copy c = c\<lparr>cd_semantic := map_option (\<lambda>s. s\<lparr>sm_certainty := Certain\<rparr>) (cd_semantic c)\<rparr>"

text \<open>\<open>_verify_pending\<close>: after a confirmation the hard rules run again, on later reads.\<close>

definition verify_pending ::
    "policy_config \<Rightarrow> policy_env \<Rightarrow> nat \<Rightarrow> formation_job \<Rightarrow> hard_evaluation \<Rightarrow> formation_turn list \<Rightarrow>
     py_exn + hard_evaluation \<times> semantic_status \<times> string" where
  "verify_pending cfg env n j h ts =
     (let same = (h, semantic_validate (he_candidate h) (he_current h))
      in case pp_verifier cfg of
           None \<Rightarrow> Inr (fst same, snd same, ''not_configured'')
         | Some verify \<Rightarrow>
             (case verify (he_candidate h) ts of
                None \<Rightarrow> Inr (fst same, snd same, ''error'')
              | Some v \<Rightarrow>
                  if v \<noteq> Verdict_Confirmed then Inr (fst same, snd same, verdict_value v)
                  else ebind (hard_rules env n j (he_candidate h) ts) (\<lambda>again.
                         Inr (again, semantic_validate (confirmed_copy (he_candidate again)) (he_current again),
                              verdict_value v))))"

text \<open>The end of \<open>evaluate\<close>, once the semantics are confirmed.\<close>

definition decide ::
    "policy_config \<Rightarrow> policy_env \<Rightarrow> formation_job \<Rightarrow> hard_evaluation \<Rightarrow> candidate \<Rightarrow> string option \<Rightarrow> policy_result" where
  "decide cfg env j h c verifier =
     (let out = (\<lambda>operation status reason. policy_outcome env j h operation status reason ''confirmed'' verifier)
      in if cd_confidence c < pp_auto cfg then out Op_Pending Decision_Pending Confidence_Pending
         else if cd_operation c = Propose_Delete
         then (if \<not> he_authorized h then out Op_Pending Decision_Pending Ambiguous_Delete
               else out Op_Delete Decision_Accepted Authorized_Delete)
         else if he_current h = None then out Op_Add Decision_Accepted Accepted_New
         else out Op_Update Decision_Accepted Accepted_Update)"

definition evaluate ::
    "policy_config \<Rightarrow> policy_env \<Rightarrow> formation_job \<Rightarrow> candidate \<Rightarrow> formation_turn list \<Rightarrow> py_exn + policy_result" where
  "evaluate cfg env j c0 ts =
     ebind (adapt_candidate (pc_hash env) c0 (fj_trigger j)) (\<lambda>c.
     ebind (hard_rules env 0 j c ts) (\<lambda>h.
       case terminal_result env j h None of
         Some r \<Rightarrow> Inr r
       | None \<Rightarrow>
           let status = semantic_validate c (he_current h); label = semantic_status_value status;
               guard = safety_filter (pp_guard cfg) c
           in if status = Semantics_Current_Turn
              then Inr (policy_outcome env j h Op_Noop Decision_Noop Current_Turn_Override label None)
              else if cd_confidence c < pp_pending cfg
              then Inr (policy_outcome env j h Op_Reject Decision_Rejected Confidence_Low label None)
              else if fst guard
              then Inr (policy_outcome env j h Op_Pending Decision_Pending Ambiguous_Conflict label (snd guard))
              else if status \<noteq> Semantics_Pending then Inr (decide cfg env j h c None)
              else ebind (verify_pending cfg env 4 j h ts) (\<lambda>(h2, status2, verifier).
                case terminal_result env j h2 (Some verifier) of
                  Some r \<Rightarrow> Inr r
                | None \<Rightarrow>
                    if status2 \<noteq> Semantics_Confirmed
                    then Inr (policy_outcome env j h2 Op_Pending Decision_Pending
                           (if cd_operation c = Propose_Delete then Ambiguous_Delete
                            else if status2 = Semantics_Current_Turn then Current_Turn_Override
                            else Ambiguous_Conflict) (semantic_status_value status2) (Some verifier))
                    else Inr (decide cfg env j h2 c (Some verifier)))))"

end
