(* ===== verification/Memory_Lifecycle.thy ===== *)
theory Memory_Lifecycle
  imports Lifecycle_Store Candidate_Policy
begin

text \<open>
  \<open>MemoryLifecycleService\<close> and \<open>MemoryTtlSweeper\<close> of \<open>app/services/memory_lifecycle.py\<close>: how a decision of
  the policy becomes a transaction of the lifecycle store, with identifiers derived from the decision so
  that applying it again is a replay. The service suspends only at the store and at the cache
  invalidation that follows it.
\<close>

subsection \<open>Configuration and redaction\<close>

text \<open>
  \<open>lv_mask\<close> is the substitution of the secret patterns in a text, \<open>lv_location\<close> the redaction of a
  connection string (both regular expressions and URL parsing), \<open>lv_number\<close> the JSON number of a float.
\<close>

record lifecycle_env =
  lv_hash :: "string \<Rightarrow> string"
  lv_mask :: "string \<Rightarrow> string"
  lv_location :: "string \<Rightarrow> string"
  lv_number :: "rat \<Rightarrow> json"
  lv_policy :: string
  lv_attempts :: nat
  lv_task_ttl :: int
  lv_summary_ttl :: int
  lv_artifact_ttl :: int

definition redact_text :: "lifecycle_env \<Rightarrow> nat \<Rightarrow> string \<Rightarrow> string" where
  "redact_text env limit s =
     (let r = lv_mask env s in if limit < length r then take limit r @ ''...[truncated]'' else r)"

definition location_key :: "string \<Rightarrow> bool" where
  "location_key k \<longleftrightarrow> list_ex (\<lambda>x. suffix x (py_lower k)) [''_uri'', ''_url'', ''base_url'']"

fun redact_json :: "lifecycle_env \<Rightarrow> json \<Rightarrow> json"
  and redact_list :: "lifecycle_env \<Rightarrow> json list \<Rightarrow> json list"
  and redact_items :: "lifecycle_env \<Rightarrow> (string \<times> json) list \<Rightarrow> (string \<times> json) list" where
  "redact_json env (JObj kvs) = JObj (redact_items env kvs)"
| "redact_json env (JList xs) = JList (redact_list env xs)"
| "redact_json env (JStr s) = JStr (lv_mask env s)"
| "redact_json env v = v"
| "redact_list env [] = []"
| "redact_list env (x # xs) = redact_json env x # redact_list env xs"
| "redact_items env [] = []"
| "redact_items env ((k, v) # kvs) =
     (k, if is_sensitive_key k then JStr ''***REDACTED***''
         else (case v of
             JStr s \<Rightarrow> if location_key k then JStr (lv_location env s) else redact_json env v
           | _ \<Rightarrow> redact_json env v)) # redact_items env kvs"

subsection \<open>The records a decision produces\<close>

definition stable_id :: "lifecycle_env \<Rightarrow> string \<Rightarrow> string \<Rightarrow> ident" where
  "stable_id env kind v = kind @ ''_'' @ take 32 (lv_hash env v)"

definition event_id_of :: "lifecycle_env \<Rightarrow> ident \<Rightarrow> string \<Rightarrow> ident" where
  "event_id_of env i sfx = stable_id env ''mevt'' (i @ '':'' @ sfx)"

definition target_hash :: "lifecycle_env \<Rightarrow> lifecycle_op \<Rightarrow> string" where
  "target_hash env op =
     ''sha256:'' @ lv_hash env (join_us [lo_tenant op, lo_user op, lo_subject_type op, lo_subject op, lo_key op,
       lo_hash op, (case lo_memory op of None \<Rightarrow> [] | Some i \<Rightarrow> i),
       (case lo_revision op of None \<Rightarrow> [] | Some i \<Rightarrow> i)])"

definition operation_json :: "lifecycle_op \<Rightarrow> (string, json) dict" where
  "operation_json op =
     [(''operation_id'', JStr (lo_id op)), (''operation'', JStr (operation_value (lo_operation op))),
      (''decision_status'', JStr (decision_value (lo_status op))),
      (''reason_code'', JStr (reason_value (lo_reason op))), (''tenant_id'', JStr (lo_tenant op)),
      (''user_id'', JStr (lo_user op)), (''subject_type'', JStr (lo_subject_type op)),
      (''subject_id'', JStr (lo_subject op)), (''agent_id'', opt_json (lo_agent op)),
      (''source'', opt_json (lo_source op)), (''metadata'', JObj (lo_meta op)), (''memory_key'', JStr (lo_key op)),
      (''candidate_hash'', JStr (lo_hash op)), (''memory_id'', opt_json (lo_memory op)),
      (''revision_id'', opt_json (lo_revision op)), (''formation_job_id'', opt_json (lo_job op)),
      (''canonical_refs'', JList (map JStr (lo_refs op)))]"

definition lifecycle_event ::
    "lifecycle_env \<Rightarrow> lifecycle_op \<Rightarrow> string \<Rightarrow> ident \<Rightarrow> time \<Rightarrow> (string, json) dict \<Rightarrow> string option \<Rightarrow> bool \<Rightarrow> memory_event" where
  "lifecycle_event env op type i now payload scope with_key =
     \<lparr>me_id = i, me_type = type, me_memory = lo_memory op, me_user = Some (lo_user op),
      me_tenant = Some (lo_tenant op), me_agent = lo_agent op, me_request = None, me_session = None,
      me_turn = None, me_run = None, me_job = lo_job op, me_key = (if with_key then Some (lo_key op) else None),
      me_decision = Some (decision_value (lo_status op)), me_decision_id = None, me_scope = scope,
      me_payload = payload @ [(''target_hash'', JStr (target_hash env op))], me_created = now\<rparr>"

definition pending_snapshot :: "lifecycle_env \<Rightarrow> candidate \<Rightarrow> json" where
  "pending_snapshot env c = JObj
     [(''candidate_id'', JStr (cd_id c)), (''proposed_operation'', JStr (proposal_value (cd_operation c))),
      (''scope'', JStr (cd_scope c)), (''content'', JStr (redact_text env 2000 (cd_content c))),
      (''structured_value'', JObj (redact_items env (cd_value c))),
      (''semantic'', (case cd_semantic c of None \<Rightarrow> JNull | Some s \<Rightarrow> JObj (semantics_json s))),
      (''subject_type'', JStr (cd_subject_type c)), (''subject_id_hint'', opt_json (cd_subject c)),
      (''tenant_id_hint'', opt_json (cd_tenant c)), (''memory_key_hint'', opt_json (cd_key c)),
      (''target_memory_id'', opt_json (cd_target c)), (''confidence'', lv_number env (cd_confidence c)),
      (''importance'', lv_number env (cd_importance c)), (''sensitivity'', JStr (cd_sensitivity c)),
      (''evidence_refs'', JList (map (\<lambda>r. JObj (evidence_json (r\<lparr>er_quote := None\<rparr>))) (take 20 (cd_evidence c)))),
      (''reason'', JStr (redact_text env 500 (cd_reason c)))]"

text \<open>\<open>_decision_event\<close>: the content of a sensitive candidate and its key are kept out of the event.\<close>

definition event_operation :: "lifecycle_env \<Rightarrow> lifecycle_op \<Rightarrow> candidate \<Rightarrow> lifecycle_op" where
  "event_operation env op c =
     (if lo_reason op = Sensitive_Content
      then op\<lparr>lo_key := redacted_ref (lv_hash env) (lo_key op),
              lo_meta := [(''scope'', JStr (cd_scope c)), (''content_redacted'', JBool True)]\<rparr>
      else op\<lparr>lo_meta := [(''scope'', JStr (cd_scope c)),
                 (''content_preview'', JStr (redact_text env 300 (cd_content c))), (''content_redacted'', JBool False)]\<rparr>)"

definition decision_event :: "lifecycle_env \<Rightarrow> lifecycle_op \<Rightarrow> candidate \<Rightarrow> time \<Rightarrow> memory_event" where
  "decision_event env op c now =
     (let sensitive = (lo_reason op = Sensitive_Content); shown = event_operation env op c
      in lifecycle_event env shown (''memory_decision_'' @ operation_value (lo_operation op))
           (event_id_of env (lo_id op) ''decision'') now
           ([(''reason_code'', JStr (reason_value (lo_reason op))), (''candidate_hash'', JStr (lo_hash op)),
             (''confidence'', lv_number env (cd_confidence c)), (''importance'', lv_number env (cd_importance c)),
             (''operation'', JObj (redact_items env (operation_json shown))), (''content_redacted'', JBool sensitive),
             (''semantic_contract_version'', jget (lo_meta op) ''semantic_contract_version''),
             (''semantic_validation'', jget (lo_meta op) ''semantic_validation''),
             (''semantic_verifier'', jget (lo_meta op) ''semantic_verifier'')] @
            (if lo_status op = Decision_Pending \<and> \<not> sensitive
             then [(''pending_candidate'', pending_snapshot env c)] else []))
           (Some (cd_scope c)) True)"

fun index_type_value :: "index_operation_type \<Rightarrow> string" where
  "index_type_value Index_Add = ''add''"
| "index_type_value Index_Update = ''update''"
| "index_type_value Index_Delete = ''delete''"

definition index_operation_for ::
    "lifecycle_env \<Rightarrow> lifecycle_op \<Rightarrow> ident \<Rightarrow> index_operation_type \<Rightarrow> ident option \<Rightarrow> time \<Rightarrow> index_operation" where
  "index_operation_for env op memory type revision now =
     (let identity = lo_id op @ '':'' @ index_type_value type @ '':'' @
            (if str_set revision then the revision else ''none'')
      in \<lparr>ix_id = stable_id env ''midxop'' identity, ix_key = ''lifecycle:'' @ lv_hash env identity,
          ix_type = type, ix_memory = memory, ix_revision = revision, ix_tenant = lo_tenant op, ix_external = None,
          ix_status = Index_Pending, ix_attempts = 0, ix_limit = lv_attempts env, ix_owner = None, ix_token = None,
          ix_expires = None, ix_next = None, ix_error = None, ix_meta = [], ix_created = now, ix_updated = now\<rparr>)"

definition revision_for ::
    "lifecycle_env \<Rightarrow> lifecycle_op \<Rightarrow> candidate \<Rightarrow> ident \<Rightarrow> ident \<Rightarrow> revision_operation \<Rightarrow> time \<Rightarrow> memory_revision" where
  "revision_for env op c memory i rop now =
     \<lparr>mr_id = i, mr_memory = memory, mr_no = 1, mr_key = lo_key op, mr_operation = rop,
      mr_content = cd_content c, mr_value = cd_value c, mr_evidence = cd_evidence c,
      mr_confidence = cd_confidence c, mr_policy = lv_policy env, mr_supersedes = None, mr_job = lo_job op,
      mr_created = now\<rparr>"

text \<open>\<open>default_expiration_for_scope\<close>, with the days as microseconds.\<close>

definition expiration_for :: "lifecycle_env \<Rightarrow> string \<Rightarrow> time \<Rightarrow> time option" where
  "expiration_for env scope now =
     (if scope = ''task_memory'' then Some (now + lv_task_ttl env)
      else if scope = ''session_summary'' then Some (now + lv_summary_ttl env)
      else if scope = ''artifact_reference'' then Some (now + lv_artifact_ttl env)
      else None)"

definition item_for :: "lifecycle_env \<Rightarrow> lifecycle_op \<Rightarrow> candidate \<Rightarrow> ident \<Rightarrow> time \<Rightarrow> memory_item" where
  "item_for env op c memory now =
     \<lparr>mi_id = memory, mi_scope = cd_scope c, mi_subject_type = lo_subject_type op, mi_subject = lo_subject op,
      mi_user = Some (lo_user op), mi_tenant = Some (lo_tenant op), mi_agent = lo_agent op,
      mi_content = cd_content c, mi_value = cd_value c,
      mi_source = (if str_set (lo_source op) then the (lo_source op) else ''formation''),
      mi_confidence = cd_confidence c, mi_importance = cd_importance c, mi_visibility = ''user'',
      mi_expires = expiration_for env (cd_scope c) now, mi_meta = lo_meta op, mi_key = Some (lo_key op),
      mi_hash = Some (lo_hash op), mi_revision = None, mi_revision_no = None, mi_job = lo_job op,
      mi_status = Memory_Active, mi_index = Some Indexing_Pending, mi_refs = lo_refs op, mi_created = now,
      mi_updated = now\<rparr>"

subsection \<open>The service\<close>

record lifecycle_result =
  lr_operation :: lifecycle_op
  lr_item :: "memory_item option"
  lr_revision :: "memory_revision option"
  lr_event :: "memory_event option"
  lr_index :: "index_operation option"
  lr_replay :: bool

type_synonym lifecycle_outcome = "(py_exn + lifecycle_result) \<times> memory_world"

definition committed_result :: "lifecycle_op \<Rightarrow> (py_exn + lifecycle_commit) \<times> memory_world \<Rightarrow> lifecycle_outcome" where
  "committed_result op out =
     (case out of
        (Inl err, w) \<Rightarrow> (Inl err, w)
      | (Inr (m, r, e, x, replay), w) \<Rightarrow>
          (Inr \<lparr>lr_operation = op, lr_item = Some m, lr_revision = Some r, lr_event = Some e,
                lr_index = Some x, lr_replay = replay\<rparr>, w))"

definition require_accepted :: "lifecycle_op \<Rightarrow> memory_operation \<Rightarrow> py_exn + unit" where
  "require_accepted op expected =
     ensure (Value_Error ''Lifecycle requires an accepted decision'')
       (lo_operation op = expected \<and> lo_status op = Decision_Accepted)"

definition add_memory_id :: "lifecycle_env \<Rightarrow> lifecycle_op \<Rightarrow> ident" where
  "add_memory_id env op = stable_id env ''mem'' (lo_id op)"

definition add_revision_id :: "lifecycle_env \<Rightarrow> lifecycle_op \<Rightarrow> ident" where
  "add_revision_id env op = stable_id env ''mrev'' (lo_id op @ '':revision:1'')"

definition update_revision_id :: "lifecycle_env \<Rightarrow> lifecycle_op \<Rightarrow> ident" where
  "update_revision_id env op = stable_id env ''mrev'' (lo_id op @ '':revision'')"

definition lifecycle_add :: "lifecycle_env \<Rightarrow> time \<Rightarrow> lifecycle_op \<Rightarrow> candidate \<Rightarrow> memory_world \<Rightarrow> lifecycle_outcome" where
  "lifecycle_add env now op c w =
     (case require_accepted op Op_Add of
        Inl err \<Rightarrow> (Inl err, w)
      | Inr _ \<Rightarrow>
          let memory = add_memory_id env op; revision = add_revision_id env op;
              applied = op\<lparr>lo_memory := Some memory, lo_revision := Some revision\<rparr>
          in committed_result applied
               (commit_add (item_for env op c memory now)
                  (revision_for env op c memory revision Revision_Add now) (decision_event env applied c now)
                  (index_operation_for env applied memory Index_Add (Some revision) now) w))"

definition lifecycle_update :: "lifecycle_env \<Rightarrow> time \<Rightarrow> lifecycle_op \<Rightarrow> candidate \<Rightarrow> memory_world \<Rightarrow> lifecycle_outcome" where
  "lifecycle_update env now op c w =
     (if lo_status op \<noteq> Decision_Accepted
      then (Inl (Value_Error ''Lifecycle UPDATE requires an accepted decision''), w)
      else (case required_memory op of
          Inl err \<Rightarrow> (Inl err, w)
        | Inr memory \<Rightarrow>
            let revision = update_revision_id env op; applied = op\<lparr>lo_revision := Some revision\<rparr>
            in committed_result applied
                 (commit_update op
                    (revision_for env op c memory revision
                       (if lo_operation op = Op_Consolidate then Revision_Consolidate else Revision_Update) now)
                    (decision_event env applied c now)
                    (index_operation_for env applied memory Index_Update (Some revision) now)
                    (lo_hash op) (cd_confidence c) (cd_importance c) (lo_refs op) w)))"

definition decided_result :: "lifecycle_op \<Rightarrow> (py_exn + memory_event \<times> bool) \<times> memory_world \<Rightarrow> lifecycle_outcome" where
  "decided_result op out =
     (case out of
        (Inl err, w) \<Rightarrow> (Inl err, w)
      | (Inr (e, replay), w) \<Rightarrow>
          (Inr \<lparr>lr_operation = op, lr_item = None, lr_revision = None, lr_event = Some e, lr_index = None,
                lr_replay = replay\<rparr>, w))"

definition lifecycle_decision :: "lifecycle_env \<Rightarrow> time \<Rightarrow> lifecycle_op \<Rightarrow> candidate \<Rightarrow> memory_world \<Rightarrow> lifecycle_outcome" where
  "lifecycle_decision env now op c w =
     (if lo_operation op \<notin> {Op_Noop, Op_Reject, Op_Pending, Op_Ignore}
      then (Inl (Value_Error ''Unsupported lifecycle decision''), w)
      else decided_result op (record_decision (decision_event env op c now) w))"

definition lifecycle_observe :: "lifecycle_env \<Rightarrow> time \<Rightarrow> policy_result \<Rightarrow> memory_world \<Rightarrow> lifecycle_outcome" where
  "lifecycle_observe env now r w =
     (let op = (pr_operation r)\<lparr>lo_status := Decision_Observed,
            lo_meta := dput ''observed_operation'' (JStr (operation_value (lo_operation (pr_operation r))))
              (lo_meta (pr_operation r))\<rparr>
      in decided_result op (record_decision (decision_event env op (pr_candidate r) now) w))"

definition delete_event :: "lifecycle_env \<Rightarrow> lifecycle_op \<Rightarrow> time \<Rightarrow> memory_event" where
  "delete_event env op now =
     lifecycle_event env op ''memory_deletion_requested'' (event_id_of env (lo_id op) ''delete-requested'') now
       [(''reason_code'', JStr (reason_value (lo_reason op))), (''provider_status'', JStr ''pending'')] None True"

definition delete_index :: "lifecycle_env \<Rightarrow> lifecycle_op \<Rightarrow> ident \<Rightarrow> time \<Rightarrow> index_operation" where
  "delete_index env op memory now = index_operation_for env op memory Index_Delete (lo_revision op) now"

definition lifecycle_request_delete :: "lifecycle_env \<Rightarrow> time \<Rightarrow> lifecycle_op \<Rightarrow> memory_world \<Rightarrow> lifecycle_outcome" where
  "lifecycle_request_delete env now op w =
     (case ebind (require_accepted op Op_Delete) (\<lambda>_. required_memory op) of
        Inl err \<Rightarrow> (Inl err, w)
      | Inr memory \<Rightarrow>
          (case request_delete op (delete_event env op now) (delete_index env op memory now) w of
             (Inl err, w') \<Rightarrow> (Inl err, w')
           | (Inr (m, e, x, replay), w') \<Rightarrow>
               (Inr \<lparr>lr_operation = op, lr_item = m, lr_revision = None, lr_event = Some e,
                     lr_index = Some x, lr_replay = replay\<rparr>, w')))"

definition lifecycle_apply :: "lifecycle_env \<Rightarrow> time \<Rightarrow> policy_result \<Rightarrow> memory_world \<Rightarrow> lifecycle_outcome" where
  "lifecycle_apply env now r w =
     (let op = pr_operation r; c = pr_candidate r
      in if lo_operation op = Op_Add then lifecycle_add env now op c w
         else if lo_operation op \<in> {Op_Update, Op_Consolidate} then lifecycle_update env now op c w
         else if lo_operation op = Op_Delete then lifecycle_request_delete env now op w
         else lifecycle_decision env now op c w)"

definition lifecycle_complete_delete ::
    "lifecycle_env \<Rightarrow> time \<Rightarrow> lifecycle_op \<Rightarrow> memory_world \<Rightarrow> lifecycle_outcome" where
  "lifecycle_complete_delete env now op w =
     (case ebind (require_accepted op Op_Delete) (\<lambda>_. required_memory op) of
        Inl err \<Rightarrow> (Inl err, w)
      | Inr memory \<Rightarrow>
          decided_result op (complete_delete op
            (lifecycle_event env op ''memory_deleted_tombstone'' (event_id_of env (lo_id op) ''delete-completed'') now
               [(''reason_code'', JStr (reason_value (lo_reason op))), (''operation'', JStr ''delete''),
                (''provider_status'', JStr ''completed'')] None False)
            (ix_id (delete_index env op memory now)) w))"

text \<open>
  An error code is kept when it is short and alphanumeric up to underscores. \<open>isalnum\<close> also holds of the
  letters, digits and numeric signs beyond ASCII.
\<close>

definition py_isalnum :: "char \<Rightarrow> bool" where
  "py_isalnum c \<longleftrightarrow>
     c \<in> set alnum_chars \<or>
     (let n = (of_char c :: nat) in n \<in> {170, 178, 179, 181, 185, 186, 188, 189, 190} \<or> 192 \<le> n \<and> n \<noteq> 215 \<and> n \<noteq> 247)"

definition safe_error :: "string \<Rightarrow> string" where
  "safe_error s =
     (let t = filter (\<lambda>c. c \<noteq> CHR ''_'') s
      in if s \<noteq> [] \<and> length s \<le> 128 \<and> t \<noteq> [] \<and> list_all py_isalnum t then s else ''provider_delete_error'')"

definition lifecycle_delete_failure ::
    "lifecycle_env \<Rightarrow> time \<Rightarrow> lifecycle_op \<Rightarrow> string \<Rightarrow> bool \<Rightarrow> memory_world \<Rightarrow> lifecycle_outcome" where
  "lifecycle_delete_failure env now op error dead w =
     (case require_accepted op Op_Delete of
        Inl err \<Rightarrow> (Inl err, w)
      | Inr _ \<Rightarrow>
          let code = safe_error error
          in case record_delete_failure op
                 (lifecycle_event env op (if dead then ''memory_deletion_dead_letter'' else ''memory_deletion_retry'')
                    (event_id_of env (lo_id op) (''delete-'' @ (if dead then ''dead-letter'' else ''retry'') @ '':'' @ code))
                    now [(''reason_code'', JStr (reason_value Provider_Error)),
                         (''provider_status'', JStr (if dead then ''dead_letter'' else ''retry'')),
                         (''error_code'', JStr code)] None True) dead w of
               (Inl err, w') \<Rightarrow> (Inl err, w')
             | (Inr (m, e, replay), w') \<Rightarrow>
                 (Inr \<lparr>lr_operation = op, lr_item = Some m, lr_revision = None, lr_event = Some e,
                       lr_index = None, lr_replay = replay\<rparr>, w'))"

subsection \<open>The sweep of expired memories\<close>

text \<open>
  The operation the sweeper builds; \<open>None\<close> when the schema refuses it, which demands a tenant, a user, a
  subject type and a subject.
\<close>

definition ttl_operation :: "lifecycle_env \<Rightarrow> memory_item \<Rightarrow> lifecycle_op option" where
  "ttl_operation env m =
     (let tenant = (case mi_tenant m of None \<Rightarrow> [] | Some t \<Rightarrow> t);
          user = (if str_set (mi_user m) then the (mi_user m) else mi_subject m);
          identity = join_us [tenant, mi_id m, ''ttl_expired'']
      in if tenant = [] \<or> user = [] \<or> mi_subject_type m = [] \<or> mi_subject m = [] then None
         else Some \<lparr>lo_id = stable_id env ''mfop'' identity, lo_operation = Op_Delete, lo_status = Decision_Accepted,
            lo_reason = Ttl_Expired, lo_tenant = tenant, lo_user = user, lo_subject_type = mi_subject_type m,
            lo_subject = mi_subject m, lo_agent = None, lo_source = None, lo_meta = [],
            lo_key = (if str_set (mi_key m) then the (mi_key m) else ''legacy-memory:'' @ mi_id m),
            lo_hash = (if str_set (mi_hash m) then the (mi_hash m) else ''sha256:'' @ lv_hash env identity),
            lo_memory = Some (mi_id m), lo_revision = mi_revision m, lo_job = None, lo_refs = mi_refs m\<rparr>)"

text \<open>
  The loop of \<open>run_once\<close>; \<open>others n\<close> is what other tasks do during the cache invalidation of the \<open>n\<close>-th
  deletion. An exception ends the sweep.
\<close>

fun sweep_items ::
    "lifecycle_env \<Rightarrow> (nat \<Rightarrow> time) \<Rightarrow> (nat \<Rightarrow> memory_world \<Rightarrow> memory_world) \<Rightarrow> nat \<Rightarrow> memory_item list \<Rightarrow> memory_world \<Rightarrow>
     (py_exn + lifecycle_result list) \<times> memory_world" where
  "sweep_items env clock others n [] w = (Inr [], w)"
| "sweep_items env clock others n (m # ms) w =
     (case ttl_operation env m of
        None \<Rightarrow> (Inl (Value_Error ''MemoryLifecycleOperation''), w)
      | Some op \<Rightarrow>
          (case lifecycle_request_delete env (clock n) op w of
             (Inl err, w') \<Rightarrow> (Inl err, w')
           | (Inr r, w') \<Rightarrow>
               (case sweep_items env clock others (n + 1) ms (others n w') of
                  (Inl err, w'') \<Rightarrow> (Inl err, w'')
                | (Inr rs, w'') \<Rightarrow> (Inr (r # rs), w''))))"

definition ttl_sweep ::
    "lifecycle_env \<Rightarrow> (nat \<Rightarrow> time) \<Rightarrow> (nat \<Rightarrow> memory_world \<Rightarrow> memory_world) \<Rightarrow> nat \<Rightarrow> memory_world \<Rightarrow>
     (py_exn + lifecycle_result list) \<times> memory_world" where
  "ttl_sweep env clock others limit w =
     sweep_items env clock others 1 (store_expired (clock 0) limit w) w"

end
