(* ===== verification/Candidate_Properties.thy ===== *)
theory Candidate_Properties
  imports Candidate_Policy
begin

text \<open>
  What the candidate policy guarantees: memory keys are bounded and separate the owners, every accepted
  operation rests on evidence of the owner's own turns or on canonical evidence, deletions are
  authorised, and the semantics built for structured candidates pass the validator.
\<close>

subsection \<open>Percent encoding\<close>

definition percent :: "nat \<Rightarrow> string" where
  "percent b = [CHR ''%'', upper_hex (b div 16), upper_hex (b mod 16)]"

lemma of_char_small: "n < 256 \<Longrightarrow> (of_char (char_of n :: char) :: nat) = n"
  by simp

lemma upper_hex_inject: "m < 16 \<Longrightarrow> n < 16 \<Longrightarrow> upper_hex m = upper_hex n \<longleftrightarrow> m = n"
proof -
  have code: "(of_char (upper_hex k) :: nat) = (if k < 10 then k + 48 else k + 55)" if "k < 16" for k
    using that by (simp add: upper_hex_def)
  assume mn: "m < 16" "n < 16"
  have "m = n" if u: "upper_hex m = upper_hex n"
  proof -
    have "(if m < 10 then m + 48 else m + 55) = (if n < 10 then n + 48 else n + 55)"
      using code[OF mn(1)] code[OF mn(2)] u by metis
    then show ?thesis using mn by (simp split: if_splits)
  qed
  then show ?thesis by blast
qed

lemma percent_append:
  assumes "b < 256" "b' < 256"
  shows "percent b @ xs = percent b' @ ys \<longleftrightarrow> b = b' \<and> xs = ys"
proof -
  have "b div 16 < 16" "b' div 16 < 16" "b mod 16 < 16" "b' mod 16 < 16" using assms by auto
  then have "percent b @ xs = percent b' @ ys \<longleftrightarrow>
      b div 16 = b' div 16 \<and> b mod 16 = b' mod 16 \<and> xs = ys"
    by (simp add: percent_def upper_hex_inject)
  also have "\<dots> \<longleftrightarrow> b = b' \<and> xs = ys" by (metis div_mult_mod_eq)
  finally show ?thesis .
qed

lemma quote_char_cases:
  obtains (plain) "quote_char c = [c]" "unreserved c"
  | (one) "quote_char c = percent (of_char c)" "(of_char c :: nat) < 128"
  | (two) "quote_char c = percent (192 + of_char c div 64) @ percent (128 + of_char c mod 64)"
      "128 \<le> (of_char c :: nat)"
  by (cases "unreserved c"; cases "(of_char c :: nat) < 128")
    (auto simp: quote_char_def utf8_def Let_def percent_def)

lemma of_char_less: "(of_char (c :: char) :: nat) < 256"
  by (metis of_char_mod_256 mod_less_divisor zero_less_numeral)

lemma of_char_div: "(of_char (c :: char) :: nat) div 64 < 4"
  by (rule less_mult_imp_div_less) (use of_char_less[of c] in simp)

lemma percent_Cons: "percent b = CHR ''%'' # [upper_hex (b div 16), upper_hex (b mod 16)]"
  by (simp add: percent_def)

lemma reserved_percent [simp]: "\<not> unreserved (CHR ''%'')"
  by (simp add: unreserved_def alnum_chars_def lower_digits_def)

lemma quote_char_append: "quote_char c @ xs = quote_char d @ ys \<Longrightarrow> c = d \<and> xs = ys"
proof -
  assume eq: "quote_char c @ xs = quote_char d @ ys"
  have c: "(of_char c :: nat) < 256" and d: "(of_char d :: nat) < 256" by (rule of_char_less)+
  have two: "192 + of_char c div 64 < (256 :: nat)" "192 + of_char d div 64 < (256 :: nat)"
    "128 + of_char c mod 64 < (256 :: nat)" "128 + of_char d mod 64 < (256 :: nat)"
    using of_char_div[of c] of_char_div[of d] by simp_all
  have sep: "unreserved e \<Longrightarrow> e # zs \<noteq> percent b @ zs'" for e zs b zs'
    by (auto simp: percent_Cons)
  have inj: "(of_char c :: nat) = of_char d \<Longrightarrow> c = d" by simp
  show ?thesis
  proof (cases c rule: quote_char_cases)
    case c1: plain
    show ?thesis
    proof (cases d rule: quote_char_cases)
      case plain
      with c1 eq show ?thesis by simp
    next
      case one
      with c1 eq sep[of c xs] show ?thesis by simp
    next
      case two
      with c1 eq sep[of c xs] show ?thesis by simp
    qed
  next
    case c1: one
    show ?thesis
    proof (cases d rule: quote_char_cases)
      case plain
      with c1 eq sep[of d ys "of_char c" xs] show ?thesis by simp
    next
      case one
      with c1 eq have "percent (of_char c) @ xs = percent (of_char d) @ ys" by simp
      then show ?thesis using percent_append[OF c d] inj by blast
    next
      case d2: two
      with c1 eq have "percent (of_char c) @ xs =
          percent (192 + of_char d div 64) @ percent (128 + of_char d mod 64) @ ys" by simp
      then have "of_char c = 192 + of_char d div (64 :: nat)"
        using percent_append[OF c two(2)] by blast
      with c1 show ?thesis by simp
    qed
  next
    case c2: two
    show ?thesis
    proof (cases d rule: quote_char_cases)
      case plain
      with c2 eq sep[of d ys "192 + of_char c div 64" "percent (128 + of_char c mod 64) @ xs"]
      show ?thesis by simp
    next
      case d1: one
      with c2 eq have "percent (192 + of_char c div 64) @ percent (128 + of_char c mod 64) @ xs =
          percent (of_char d) @ ys" by simp
      then have "192 + of_char c div (64 :: nat) = of_char d"
        using percent_append[OF two(1) d] by blast
      with d1 show ?thesis by simp
    next
      case d2: two
      with c2 eq have "percent (192 + of_char c div 64) @ percent (128 + of_char c mod 64) @ xs =
          percent (192 + of_char d div 64) @ percent (128 + of_char d mod 64) @ ys" by simp
      then have e: "of_char c div (64 :: nat) = of_char d div 64" "of_char c mod (64 :: nat) = of_char d mod 64"
        and "xs = ys"
        using percent_append two by auto
      then have "(of_char c :: nat) = of_char d" by (metis div_mult_mod_eq)
      with \<open>xs = ys\<close> inj show ?thesis by blast
    qed
  qed
qed

lemma quote_char_not_Nil: "quote_char c \<noteq> []"
  by (cases c rule: quote_char_cases) (simp_all add: percent_def)

lemma quote_inject: "quote s = quote t \<Longrightarrow> s = t"
proof (induction s arbitrary: t)
  case Nil
  then show ?case by (cases t) (auto simp: quote_def quote_char_not_Nil)
next
  case (Cons c s)
  then obtain d t' where t: "t = d # t'" by (cases t) (auto simp: quote_def quote_char_not_Nil)
  with Cons.prems have "quote_char c @ quote s = quote_char d @ quote t'" by (simp add: quote_def)
  from quote_char_append[OF this] Cons.IH t show ?case by simp
qed

lemma upper_hex_colon: "n < 16 \<Longrightarrow> upper_hex n \<noteq> CHR '':''"
proof -
  assume "n < 16"
  then have "(of_char (upper_hex n) :: nat) = (if n < 10 then n + 48 else n + 55)"
    by (simp add: upper_hex_def)
  moreover have "(of_char (CHR '':'') :: nat) = 58" by simp
  ultimately show ?thesis using \<open>n < 16\<close> by (auto split: if_splits)
qed

lemma percent_colon:
  assumes "b < 256"
  shows "CHR '':'' \<notin> set (percent b)"
proof -
  have "b div 16 < 16" by (rule less_mult_imp_div_less) (use assms in simp)
  then show ?thesis using upper_hex_colon[of "b div 16"] upper_hex_colon[of "b mod 16"]
    by (auto simp: percent_def)
qed

lemma quote_char_colon: "CHR '':'' \<notin> set (quote_char c)"
proof (cases c rule: quote_char_cases)
  case plain
  then show ?thesis by (auto simp: unreserved_def alnum_chars_def lower_digits_def)
next
  case one
  then show ?thesis by (simp add: percent_colon)
next
  case two
  then show ?thesis using of_char_div[of c] by (simp add: percent_colon)
qed

lemma quote_colon: "CHR '':'' \<notin> set (quote s)"
  by (induction s) (simp_all add: quote_def quote_char_colon)

subsection \<open>Memory keys\<close>

lemma key_segment_bound:
  "length (hash v) = 64 \<Longrightarrow> length kind \<le> 56 \<Longrightarrow> length (key_segment hash kind v) \<le> 128"
  by (simp add: key_segment_def Let_def)

lemma canonical_key_length:
  assumes "canonical_key hash owner scope value = Inr (Some k)" "\<And>s. length (hash s) = 64"
  shows "length k \<le> length owner + 160"
proof -
  obtain t field slot i where o: "jget value ''object_type'' = JStr t"
    "canonical_contract scope t = Some (field, slot)"
    and k: "k = owner @ t @ '':'' @ key_segment hash t i @ '':'' @ slot"
    using assms(1) by (auto simp: canonical_key_def Let_def split: if_splits json.splits option.splits)
  from o(2) have "length t \<le> 8" "length slot \<le> 16"
    by (auto simp: canonical_contract.simps split: if_splits)
  with k key_segment_bound[of hash i t] assms(2) show ?thesis by simp
qed

lemma owner_prefix_length:
  assumes "\<And>s. length (hash s) = 64"
  shows "length (owner_prefix hash tenant user) \<le> 270"
  using key_segment_bound[of hash tenant "''tenant''"] key_segment_bound[of hash user "''user''"] assms
  by (simp add: owner_prefix_def)

lemma memory_kind_length: "length (memory_kind scope) \<le> 15"
  by (simp add: memory_kind_def)

lemma key_slot_length: "length (hash raw) = 64 \<Longrightarrow> length (key_slot hash raw) \<le> 128"
  by (simp add: key_slot_def Let_def)

text \<open>With a digest of 64 characters every key starts with its owner: the 512 characters never run out.\<close>

lemma build_memory_key_owner:
  assumes h: "\<And>s. length (hash s) = 64"
    and k: "build_memory_key hash tenant user scope hint value canonical = Inr k"
  shows "\<exists>r. k = owner_prefix hash tenant user @ r \<and> length r \<le> 160"
proof -
  let ?owner = "owner_prefix hash tenant user" and ?slot = "key_slot hash (raw_slot hint value)"
  let ?plain = "memory_kind scope @ '':'' @ ?slot"
  have plain: "length ?plain \<le> 160"
    using memory_kind_length[of scope] key_slot_length[of hash "raw_slot hint value"] h by simp
  with owner_prefix_length[of hash tenant user] h have short: "\<not> 512 < length (?owner @ ?plain)"
    by simp
  obtain ck where ck: "canonical_key hash ?owner scope value = Inr ck"
    using k by (auto simp: build_memory_key_def Let_def ebind_eq_Inr)
  have "k = ?owner @ ?plain \<or> ck = Some k"
    using k ck short by (auto simp: build_memory_key_def Let_def split: bool.splits option.splits)
  then show ?thesis
  proof
    assume "ck = Some k"
    with ck obtain r where r: "k = ?owner @ r"
      by (auto simp: canonical_key_def Let_def split: if_splits json.splits option.splits)
    with canonical_key_length[of hash ?owner scope "value" k] ck \<open>ck = Some k\<close> h show ?thesis by auto
  next
    assume "k = ?owner @ ?plain"
    with plain show ?thesis by blast
  qed
qed

text \<open>
  C11: memory keys are bounded. With a digest of 64 characters, the key built for a candidate, canonical
  or not, whatever the model put into the candidate, has at most 430 of the 512 characters the schema
  allows, so the fallback of \<open>build_memory_key\<close> that hashes the owner is never used.
\<close>

theorem memory_key_bounded:
  assumes "\<And>s. length (hash s) = 64"
    and "build_memory_key hash tenant user scope hint value canonical = Inr k"
  shows "length k \<le> 430 \<and> take (length (owner_prefix hash tenant user)) k = owner_prefix hash tenant user"
proof -
  obtain r where r: "k = owner_prefix hash tenant user @ r" "length r \<le> 160"
    using build_memory_key_owner[OF assms] by blast
  with owner_prefix_length[of hash tenant user] assms(1) show ?thesis by simp
qed

text \<open>
  C12: memory keys separate the owners. If the identifiers of two owners fit their segments (at most 128
  characters once percent-encoded), then a key built for one owner, from any candidate, is never a key
  built for the other.
\<close>

theorem memory_key_isolated:
  assumes h: "\<And>s. length (hash s) = 64"
    and fit: "list_all (\<lambda>i. length (quote i) \<le> 128) [tenant, user, tenant', user']"
    and k: "build_memory_key hash tenant user scope hint value canonical = Inr k"
    and k': "build_memory_key hash tenant' user' scope' hint' value' canonical' = Inr k"
  shows "tenant = tenant' \<and> user = user'"
proof -
  obtain r r' where "k = owner_prefix hash tenant user @ r" "k = owner_prefix hash tenant' user' @ r'"
    using build_memory_key_owner[OF h k] build_memory_key_owner[OF h k'] by blast
  then have "quote tenant @ CHR '':'' # ''user:'' @ quote user @ CHR '':'' # r =
      quote tenant' @ CHR '':'' # ''user:'' @ quote user' @ CHR '':'' # r'"
    using fit by (simp add: owner_prefix_def key_segment_def)
  then have "quote tenant = quote tenant'" "quote user @ CHR '':'' # r = quote user' @ CHR '':'' # r'"
    using split_at_sep[OF quote_colon quote_colon] by auto
  then show ?thesis using split_at_sep[OF quote_colon quote_colon] quote_inject by blast
qed

subsection \<open>What an accepted decision went through\<close>

definition cleared :: "policy_env \<Rightarrow> formation_job \<Rightarrow> candidate \<Rightarrow> formation_turn list \<Rightarrow> bool" where
  "cleared env j c ts \<longleftrightarrow>
     identity_mismatch j c = Inr False \<and> cd_scope c \<in> allowed_scopes \<and> validate_evidence j c ts = None \<and>
     (contains_sensitive (pc_sensitive env) c \<longrightarrow> cd_operation c = Propose_Delete)"

text \<open>The memory the rules looked at, filed under the key of the decision.\<close>

definition looked_up :: "policy_env \<Rightarrow> formation_job \<Rightarrow> candidate \<Rightarrow> hard_evaluation \<Rightarrow> bool" where
  "looked_up env j c h \<longleftrightarrow>
     (\<exists>k. he_current h = get_current_by_key (pc_time env k) (fj_tenant j) ''user'' (fj_user j)
        (Some (fj_user j)) (cd_scope c) (he_key h) True (pc_world env k))"

definition refused :: "hard_evaluation \<Rightarrow> bool" where
  "refused h \<longleftrightarrow> (\<exists>t. he_terminal h = Some t \<and> ht_status t \<noteq> Decision_Accepted)"

lemma ends_sel [simp]:
  "he_candidate (ends env c key hash reason op st cur red) = c"
  "he_key (ends env c key hash reason op st cur red) = key"
  "he_current (ends env c key hash reason op st cur red) = cur"
  "he_authorized (ends env c key hash reason op st cur red) = False"
  "he_terminal (ends env c key hash reason op st cur red) =
     Some \<lparr>ht_operation = op, ht_status = st, ht_reason = reason\<rparr>"
  by (simp_all add: ends_def)

lemma refused_ends [simp]: "refused (ends env c key hash reason op st cur red) \<longleftrightarrow> st \<noteq> Decision_Accepted"
  by (simp add: refused_def)

lemma refused_rejects [simp]: "refused (rejects env c key hash reason cur red)"
  by (simp add: rejects_def)

lemma rejects_candidate [simp]: "he_candidate (rejects env c key hash reason cur red) = c"
  by (simp add: rejects_def)

lemma hard_rules_current_Inr:
  assumes "hard_rules_current env n j c key hash = Inr h"
  shows "he_candidate h = c \<and> (refused h \<or>
    he_key h = key \<and> looked_up env j c h \<and>
    (str_set (cd_target c) \<longrightarrow> map_option mi_id (he_current h) = cd_target c) \<and>
    cd_operation c \<noteq> Propose_Ignore \<and>
    canonical_delete env (n + 1) j c (he_current h) = Inr (he_terminal h) \<and>
    (he_authorized h \<longrightarrow> authorized_delete c (he_current h)))"
proof -
  let ?cur = "get_current_by_key (pc_time env n) (fj_tenant j) ''user'' (fj_user j) (Some (fj_user j))
    (cd_scope c) key True (pc_world env n)"
  consider "h = rejects env c key hash Identity_Mismatch ?cur False"
    | "h = ends env c key hash Same_Value Op_Noop Decision_Noop ?cur False"
    | "h = ends env c key hash Duplicate_Candidate Op_Noop Decision_Noop ?cur False"
    | (current) t where "\<not> (str_set (cd_target c) \<and> map_option mi_id ?cur \<noteq> cd_target c)"
        "cd_operation c \<noteq> Propose_Ignore" "canonical_delete env (n + 1) j c ?cur = Inr t"
        "h = \<lparr>he_candidate = c, he_key = key, he_hash = hash, he_current = ?cur, he_terminal = t,
              he_authorized = (t = None \<and> authorized_delete c ?cur),
              he_redacted = contains_sensitive (pc_sensitive env) c\<rparr>"
    using assms unfolding hard_rules_current_def Let_def
    by (auto simp: ebind_eq_Inr split: if_splits)
  then show ?thesis
  proof cases
    case current
    then show ?thesis by (auto simp: looked_up_def)
  qed simp_all
qed

lemma hard_rules_target_Inr:
  "hard_rules_target env n j c key hash = Inr h \<Longrightarrow>
   he_candidate h = c \<and> (refused h \<or> (\<exists>k m. hard_rules_current env m j c k hash = Inr h))"
  unfolding hard_rules_target_def ebind_eq_Inr
  by (auto split: if_splits option.splits dest: hard_rules_current_Inr)

lemma hard_rules_evidence_Inr:
  "hard_rules_evidence env n j c ts key hash = Inr h \<Longrightarrow>
   he_candidate h = c \<and> (refused h \<or> (validate_evidence j c ts = None \<and>
     (contains_sensitive (pc_sensitive env) c \<longrightarrow> cd_operation c = Propose_Delete) \<and>
     (\<exists>k m. hard_rules_current env m j c k hash = Inr h)))"
  unfolding hard_rules_evidence_def
  by (auto split: if_splits option.splits dest: hard_rules_target_Inr)

lemma hard_rules_identity_Inr:
  "hard_rules_identity env n j c ts key hash = Inr h \<Longrightarrow>
   he_candidate h = c \<and> refused h \<or>
   identity_mismatch j c = Inr False \<and> cd_scope c \<in> allowed_scopes \<and>
   hard_rules_evidence env n j c ts key hash = Inr h"
  unfolding hard_rules_identity_def ebind_eq_Inr
  by (auto simp: ebind_eq_Inr split: if_splits option.splits)

lemma hard_rules_Inr:
  assumes "hard_rules env n j c ts = Inr h"
  shows "he_candidate h = c \<and> (refused h \<or>
    (cleared env j c ts \<and> (\<exists>key hash m. hard_rules_current env m j c key hash = Inr h)))"
proof -
  obtain key where "hard_rules_identity env n j c ts key (candidate_hash (pc_hash env) c) = Inr h"
    using assms unfolding hard_rules_def ebind_eq_Inr by blast
  from hard_rules_identity_Inr[OF this] show ?thesis
    unfolding cleared_def using hard_rules_evidence_Inr by metis
qed

lemma terminal_result_Some:
  "terminal_result env j h v = Some r \<longleftrightarrow>
   (\<exists>t. he_terminal h = Some t \<and>
      r = policy_outcome env j h (ht_operation t) (ht_status t) (ht_reason t) ''not_evaluated'' v)"
  by (auto simp: terminal_result_def)

lemma terminal_result_None: "terminal_result env j h v = None \<longleftrightarrow> he_terminal h = None"
  by (simp add: terminal_result_def)

lemma policy_outcome_sel [simp]:
  "pr_candidate (policy_outcome env j h op st reason sem v) = he_candidate h"
  "lo_operation (pr_operation (policy_outcome env j h op st reason sem v)) = op"
  "lo_status (pr_operation (policy_outcome env j h op st reason sem v)) = st"
  "lo_reason (pr_operation (policy_outcome env j h op st reason sem v)) = reason"
  "lo_tenant (pr_operation (policy_outcome env j h op st reason sem v)) = fj_tenant j"
  "lo_user (pr_operation (policy_outcome env j h op st reason sem v)) = fj_user j"
  "lo_subject (pr_operation (policy_outcome env j h op st reason sem v)) = fj_user j"
  "lo_key (pr_operation (policy_outcome env j h op st reason sem v)) = he_key h"
  "lo_memory (pr_operation (policy_outcome env j h op st reason sem v)) = map_option mi_id (he_current h)"
  by (simp_all add: policy_outcome_def Let_def)

text \<open>
  The semantics of a decided candidate: confirmed by the validator, or pending and confirmed by the
  verifier, with the validator passing the candidate as certain.
\<close>

definition semantics_settled ::
    "policy_config \<Rightarrow> candidate \<Rightarrow> formation_turn list \<Rightarrow> memory_item option \<Rightarrow> bool" where
  "semantics_settled cfg c ts current \<longleftrightarrow>
     semantic_validate c current = Semantics_Confirmed \<or>
     (\<exists>verify. pp_verifier cfg = Some verify \<and> verify c ts = Some Verdict_Confirmed \<and>
        semantic_validate (confirmed_copy c) current = Semantics_Confirmed)"

lemma verify_pending_Inr:
  assumes "verify_pending cfg env n j h ts = Inr (h2, st2, v)"
  shows "h2 = h \<and> st2 = semantic_validate (he_candidate h) (he_current h) \<or>
    hard_rules env n j (he_candidate h) ts = Inr h2 \<and>
    st2 = semantic_validate (confirmed_copy (he_candidate h2)) (he_current h2) \<and>
    (\<exists>verify. pp_verifier cfg = Some verify \<and> verify (he_candidate h) ts = Some Verdict_Confirmed)"
  using assms unfolding verify_pending_def Let_def
  by (auto simp: ebind_eq_Inr split: option.splits if_splits)

lemma decide_accepted:
  assumes "lo_status (pr_operation (decide cfg env j h c v)) = Decision_Accepted"
  shows "pp_auto cfg \<le> cd_confidence c \<and>
    (if cd_operation c = Propose_Delete
     then he_authorized h \<and> decide cfg env j h c v =
       policy_outcome env j h Op_Delete Decision_Accepted Authorized_Delete ''confirmed'' v
     else \<exists>reason. decide cfg env j h c v = policy_outcome env j h
       (if he_current h = None then Op_Add else Op_Update) Decision_Accepted reason ''confirmed'' v)"
  using assms by (auto simp: decide_def Let_def not_less split: if_splits)

text \<open>
  The two ways to an accepted decision: a terminal of the hard rules, which only a deletion can be, or a
  decision once the semantics are settled.
\<close>

lemma evaluate_accepted:
  assumes e: "evaluate cfg env j c0 ts = Inr r" and acc: "lo_status (pr_operation r) = Decision_Accepted"
  obtains (terminal) c h n v t where "adapt_candidate (pc_hash env) c0 (fj_trigger j) = Inr c"
      "hard_rules env n j c ts = Inr h" "he_terminal h = Some t" "ht_status t = Decision_Accepted"
      "r = policy_outcome env j h (ht_operation t) (ht_status t) (ht_reason t) ''not_evaluated'' v"
  | (decided) c h n v where "adapt_candidate (pc_hash env) c0 (fj_trigger j) = Inr c"
      "hard_rules env n j c ts = Inr h" "he_terminal h = None" "r = decide cfg env j h c v"
      "pp_pending cfg \<le> cd_confidence c" "\<not> fst (safety_filter (pp_guard cfg) c)"
      "semantics_settled cfg c ts (he_current h)"
proof -
  obtain c where c: "adapt_candidate (pc_hash env) c0 (fj_trigger j) = Inr c"
    using e unfolding evaluate_def ebind_eq_Inr by blast
  obtain h where h: "hard_rules env 0 j c ts = Inr h"
    using e c unfolding evaluate_def by (auto simp: ebind_eq_Inr)
  have hc: "he_candidate h = c" using hard_rules_Inr[OF h] by simp
  let ?st = "semantic_validate c (he_current h)"
  show thesis
  proof (cases "he_terminal h")
    case (Some t)
    then have "r = policy_outcome env j h (ht_operation t) (ht_status t) (ht_reason t) ''not_evaluated'' None"
      using e c h by (simp add: evaluate_def terminal_result_def)
    with acc show thesis by (intro terminal[OF c h Some]) simp_all
  next
    case None
    then have tn: "terminal_result env j h None = None" by (simp add: terminal_result_def)
    have ne: "?st \<noteq> Semantics_Current_Turn" "pp_pending cfg \<le> cd_confidence c"
        "\<not> fst (safety_filter (pp_guard cfg) c)"
      using e acc c h tn by (auto simp: evaluate_def Let_def not_less split: if_splits)
    show thesis
    proof (cases "?st = Semantics_Pending")
      case False
      then have "?st = Semantics_Confirmed" using ne(1) by (cases ?st) auto
      moreover have "r = decide cfg env j h c None"
        using e c h tn ne False by (simp add: evaluate_def Let_def not_less[symmetric])
      ultimately show thesis using ne
        by (intro decided[OF c h None]) (simp_all add: semantics_settled_def)
    next
      case True
      obtain h2 st2 v where vp: "verify_pending cfg env 4 j h ts = Inr (h2, st2, v)"
        and rest: "(case terminal_result env j h2 (Some v) of
             Some r \<Rightarrow> Inr r
           | None \<Rightarrow>
               if st2 \<noteq> Semantics_Confirmed
               then Inr (policy_outcome env j h2 Op_Pending Decision_Pending
                      (if cd_operation c = Propose_Delete then Ambiguous_Delete
                       else if st2 = Semantics_Current_Turn then Current_Turn_Override
                       else Ambiguous_Conflict) (semantic_status_value st2) (Some v))
               else Inr (decide cfg env j h2 c (Some v))) = (Inr r :: py_exn + policy_result)"
        using e c h tn ne True by (auto simp: evaluate_def Let_def ebind_eq_Inr not_less[symmetric])
      show thesis
      proof (cases "h2 = h \<and> st2 = ?st")
        case True
        with rest acc tn None \<open>?st = Semantics_Pending\<close> show thesis
          by (auto simp: terminal_result_def)
      next
        case False
        with verify_pending_Inr[OF vp] hc obtain verify where h2: "hard_rules env 4 j c ts = Inr h2"
          and st2: "st2 = semantic_validate (confirmed_copy c) (he_current h2)"
          and vf: "pp_verifier cfg = Some verify" "verify c ts = Some Verdict_Confirmed"
          using hard_rules_Inr by metis
        show thesis
        proof (cases "he_terminal h2")
          case (Some t)
          then have "r = policy_outcome env j h2 (ht_operation t) (ht_status t) (ht_reason t) ''not_evaluated'' (Some v)"
            using rest by (simp add: terminal_result_def)
          with acc show thesis by (intro terminal[OF c h2 Some]) simp_all
        next
          case None
          then have "st2 = Semantics_Confirmed" "r = decide cfg env j h2 c (Some v)"
            using rest acc by (auto simp: terminal_result_def split: if_splits)
          with st2 vf ne show thesis
            by (intro decided[OF c h2 None]) (auto simp: semantics_settled_def)
        qed
      qed
    qed
  qed
qed

subsection \<open>Evidence\<close>

text \<open>A quote of the user, word for word in a turn of the owner that the job names.\<close>

definition quoted_by_user :: "formation_job \<Rightarrow> candidate \<Rightarrow> formation_turn list \<Rightarrow> bool" where
  "quoted_by_user j c ts \<longleftrightarrow>
     (\<exists>r\<in>set (cd_evidence c). er_role r = By_User \<and>
        (\<exists>t\<in>set ts. er_turn r = Some (ft_id t) \<and> ft_id t \<in> set (fj_sources j) \<and>
           ft_tenant t = fj_tenant j \<and> ft_user t = fj_user j \<and>
           (fj_session j = None \<or> fj_session j = Some (ft_session t)) \<and>
           (\<exists>q. er_quote r = Some q \<and> q \<noteq> [] \<and> sublist q (ft_user_text t))))"

definition canonically_backed :: "formation_job \<Rightarrow> candidate \<Rightarrow> bool" where
  "canonically_backed j c \<longleftrightarrow>
     fj_trigger j \<in> trusted_triggers \<and>
     (\<exists>r\<in>set (cd_evidence c). er_role r = By_Canonical \<and> er_event r \<in> Some ` set (fj_sources j))"

lemma evidence_checked:
  assumes "validate_evidence j c ts = None"
  shows "has_role By_User c \<or> has_role By_Canonical c"
    "r \<in> set (cd_evidence c) \<Longrightarrow> \<not> bad_evidence j ts r"
    "t \<in> set ts \<Longrightarrow> ft_tenant t = fj_tenant j \<and> ft_user t = fj_user j \<and>
       (fj_session j = None \<or> fj_session j = Some (ft_session t))"
  using assms unfolding validate_evidence_def Let_def
  by (auto simp: list_ex_iff split: if_splits)

lemma user_evidence:
  assumes v: "validate_evidence j c ts = None" and r: "r \<in> set (cd_evidence c)" "er_role r = By_User"
  shows "quoted_by_user j c ts"
proof -
  have "\<not> bad_evidence j ts r" by (rule evidence_checked(2)[OF v r(1)])
  then obtain i t where "er_turn r = Some i" and f: "find (\<lambda>t. ft_id t = i) (rev ts) = Some t"
      "i \<in> set (fj_sources j)" "str_set (er_quote r)" "sublist (the (er_quote r)) (ft_user_text t)"
    using r(2) by (auto simp: bad_evidence_def split: option.splits)
  moreover have "t \<in> set ts" "ft_id t = i" using find_Some_D[OF f(1)] by simp_all
  moreover note evidence_checked(3)[OF v \<open>t \<in> set ts\<close>]
  ultimately show ?thesis unfolding quoted_by_user_def using r by (fastforce simp: str_set_iff)
qed

lemma canonical_evidence:
  assumes v: "validate_evidence j c ts = None" and "has_role By_Canonical c"
  shows "canonically_backed j c"
proof -
  obtain r where r: "r \<in> set (cd_evidence c)" "er_role r = By_Canonical"
    using assms(2) by (auto simp: has_role_def list_ex_iff)
  with evidence_checked(2)[OF v r(1)] show ?thesis
    by (auto simp: bad_evidence_def canonically_backed_def)
qed

lemma evidence_grounded:
  "validate_evidence j c ts = None \<Longrightarrow> quoted_by_user j c ts \<or> canonically_backed j c"
  using evidence_checked(1)[of j c ts] user_evidence[of j c ts] canonical_evidence[of j c ts]
  by (auto simp: has_role_def list_ex_iff)

lemma get_current_by_key_Some:
  assumes "get_current_by_key now tenant stype subject user scope key expired w = Some m"
  shows "m \<in> set (dvalues (mw_items w)) \<and> mi_tenant m = Some tenant \<and> mi_subject_type m = stype \<and>
    mi_subject m = subject \<and> (user = None \<or> mi_user m = user) \<and> mi_scope m = scope \<and> mi_key m = Some key \<and>
    mi_status m = Memory_Active"
proof -
  have "find (\<lambda>m. mi_tenant m = Some tenant \<and> mi_subject_type m = stype \<and> mi_subject m = subject \<and>
      (user = None \<or> mi_user m = user) \<and> mi_scope m = scope \<and> mi_key m = Some key \<and>
      mi_status m = Memory_Active) (dvalues (mw_items w)) = Some m"
    using assms unfolding get_current_by_key_def by (simp split: option.splits if_splits)
  from find_Some_D[OF this] show ?thesis by simp
qed

lemma looked_up_owned:
  assumes "looked_up env j c h" "he_current h = Some m"
  shows "\<exists>k. m \<in> set (dvalues (mw_items (pc_world env k))) \<and> mi_tenant m = Some (fj_tenant j) \<and>
    mi_user m = Some (fj_user j) \<and> mi_subject m = fj_user j \<and> mi_scope m = cd_scope c \<and>
    mi_key m = Some (he_key h) \<and> mi_status m = Memory_Active"
proof -
  obtain k where "get_current_by_key (pc_time env k) (fj_tenant j) ''user'' (fj_user j)
      (Some (fj_user j)) (cd_scope c) (he_key h) True (pc_world env k) = Some m"
    using assms unfolding looked_up_def by metis
  from get_current_by_key_Some[OF this] show ?thesis by auto
qed

text \<open>
  C5: an accepted addition or update is grounded. If the policy accepts one, then the candidate has an
  allowed scope, names no other owner, holds nothing sensitive and reaches both confidence thresholds; it
  quotes the user word for word from a turn of the owner that the job names, or rests on canonical
  evidence of a trusted job; its semantics were confirmed by the validator, or by the verifier and then by
  the validator; and it is an addition exactly when no active memory of the owner has its key.
\<close>

theorem accepted_write_grounded:
  assumes e: "evaluate cfg env j c0 ts = Inr r"
    and acc: "lo_status (pr_operation r) = Decision_Accepted" and op: "lo_operation (pr_operation r) \<noteq> Op_Delete"
  shows "\<exists>c current k. adapt_candidate (pc_hash env) c0 (fj_trigger j) = Inr c \<and> pr_candidate r = c \<and>
    cd_scope c \<in> allowed_scopes \<and> identity_mismatch j c = Inr False \<and>
    \<not> contains_sensitive (pc_sensitive env) c \<and> cd_operation c \<in> {Propose_Add, Propose_Update} \<and>
    pp_pending cfg \<le> cd_confidence c \<and> pp_auto cfg \<le> cd_confidence c \<and>
    (quoted_by_user j c ts \<or> canonically_backed j c) \<and> semantics_settled cfg c ts current \<and>
    lo_tenant (pr_operation r) = fj_tenant j \<and> lo_user (pr_operation r) = fj_user j \<and>
    current = get_current_by_key (pc_time env k) (fj_tenant j) ''user'' (fj_user j) (Some (fj_user j))
      (cd_scope c) (lo_key (pr_operation r)) True (pc_world env k) \<and>
    lo_memory (pr_operation r) = map_option mi_id current \<and>
    lo_operation (pr_operation r) = (if current = None then Op_Add else Op_Update)"
  using e acc
proof (cases rule: evaluate_accepted)
  case (terminal c h n v t)
  then have "\<not> refused h" by (simp add: refused_def)
  then obtain key hash m where "hard_rules_current env m j c key hash = Inr h"
    using hard_rules_Inr[OF terminal(2)] by blast
  with \<open>\<not> refused h\<close> have "canonical_delete env (m + 1) j c (he_current h) = Inr (Some t)"
    using hard_rules_current_Inr terminal(3) by metis
  with terminal(4) have "ht_operation t = Op_Delete"
    unfolding canonical_delete_def ebind_eq_Inr by (auto simp: ebind_eq_Inr split: option.splits if_splits)
  with terminal op show ?thesis by simp
next
  case (decided c h n v)
  then have "\<not> refused h" by (simp add: refused_def)
  then obtain key hash m where cl: "cleared env j c ts" and cur: "hard_rules_current env m j c key hash = Inr h"
    using hard_rules_Inr[OF decided(2)] by blast
  have hc: "looked_up env j c h" "cd_operation c \<noteq> Propose_Ignore" "he_candidate h = c"
    using hard_rules_current_Inr[OF cur] \<open>\<not> refused h\<close> by blast+
  have dec: "pp_auto cfg \<le> cd_confidence c" "cd_operation c \<noteq> Propose_Delete" and
    "\<exists>reason. r = policy_outcome env j h (if he_current h = None then Op_Add else Op_Update)
       Decision_Accepted reason ''confirmed'' v"
    using decide_accepted[of cfg env j h c v] acc op decided(4) by (auto split: if_splits)
  then obtain reason where r: "r = policy_outcome env j h
      (if he_current h = None then Op_Add else Op_Update) Decision_Accepted reason ''confirmed'' v"
    by blast
  obtain k where k: "he_current h = get_current_by_key (pc_time env k) (fj_tenant j) ''user'' (fj_user j)
      (Some (fj_user j)) (cd_scope c) (he_key h) True (pc_world env k)"
    using hc(1) by (auto simp: looked_up_def)
  have "cd_operation c \<in> {Propose_Add, Propose_Update}"
    using hc(2) dec(2) by (cases "cd_operation c") auto
  moreover have "quoted_by_user j c ts \<or> canonically_backed j c"
    using cl evidence_grounded by (simp add: cleared_def)
  ultimately show ?thesis
    using cl dec decided(1,5,7) k hc(3)
    by (intro exI[of _ c] exI[of _ "he_current h"] exI[of _ k]) (auto simp: r cleared_def)
qed

text \<open>The two deletions that the hard rules accept themselves.\<close>

lemma in_strings_Inr: "in_strings v ss = Inr b \<Longrightarrow> b \<longleftrightarrow> (\<exists>s\<in>ss. v = JStr s)"
  by (auto simp: in_strings_def split: if_splits json.splits)

lemma canonical_delete_accepted:
  assumes "canonical_delete env n j c current = Inr (Some t)" "ht_status t = Decision_Accepted"
  obtains m where "current = Some m" "cd_operation c = Propose_Delete"
    "ht_reason t = Duplicate_Candidate \<and> fj_trigger j = Consolidation \<and> has_role By_Canonical c \<and>
       jget (cd_value c) ''lifecycle_reason'' \<in> {JStr ''exact_duplicate'', JStr ''session_compacted''} \<or>
     ht_reason t = Ttl_Expired \<and> fj_trigger j = Sweeper \<and>
       jget (cd_value c) ''lifecycle_reason'' = JStr ''ttl_expired'' \<and> expired_at (pc_time env n) m"
  using assms unfolding canonical_delete_def ebind_eq_Inr
  by (auto simp: ebind_eq_Inr split: option.splits if_splits dest!: in_strings_Inr)

text \<open>
  C6: an accepted deletion is authorised. It concerns an active memory of the job's own owner, found under
  the key of the decision, and its reason is one of three. \<open>Authorized_Delete\<close>: the candidate names that
  memory, quotes the user word for word, and its certain, long-term semantics are to delete.
  \<open>Duplicate_Candidate\<close>: a consolidation job with canonical evidence, whose candidate states that the memory
  is an exact duplicate or was compacted with its session. \<open>Ttl_Expired\<close>: the sweeper, whose candidate
  states that the time to live of the memory is over, and it is over.
\<close>

theorem accepted_delete_authorized:
  assumes e: "evaluate cfg env j c0 ts = Inr r"
    and acc: "lo_status (pr_operation r) = Decision_Accepted" and op: "lo_operation (pr_operation r) = Op_Delete"
  shows "\<exists>c m k. adapt_candidate (pc_hash env) c0 (fj_trigger j) = Inr c \<and> cd_operation c = Propose_Delete \<and>
    m \<in> set (dvalues (mw_items (pc_world env k))) \<and> mi_tenant m = Some (fj_tenant j) \<and>
    mi_user m = Some (fj_user j) \<and> mi_subject m = fj_user j \<and> mi_scope m = cd_scope c \<and>
    mi_key m = Some (lo_key (pr_operation r)) \<and> mi_status m = Memory_Active \<and>
    lo_memory (pr_operation r) = Some (mi_id m) \<and>
    (lo_reason (pr_operation r) = Authorized_Delete \<and>
       cd_target c = Some (mi_id m) \<and> quoted_by_user j c ts \<and> pp_auto cfg \<le> cd_confidence c \<and>
       (\<exists>s. cd_semantic c = Some s \<and> sm_intent s = Intend_Delete \<and> sm_time s = Long_Term \<and>
          sm_polarity s = Affirmed \<and> sm_certainty s = Certain) \<or>
     lo_reason (pr_operation r) = Duplicate_Candidate \<and>
       fj_trigger j = Consolidation \<and> canonically_backed j c \<and>
       jget (cd_value c) ''lifecycle_reason'' \<in> {JStr ''exact_duplicate'', JStr ''session_compacted''} \<or>
     lo_reason (pr_operation r) = Ttl_Expired \<and>
       fj_trigger j = Sweeper \<and> jget (cd_value c) ''lifecycle_reason'' = JStr ''ttl_expired'' \<and>
       (\<exists>n. expired_at (pc_time env n) m))"
  using e acc
proof (cases rule: evaluate_accepted)
  case (terminal c h n v t)
  then have nr: "\<not> refused h" by (simp add: refused_def)
  then obtain key hash i where cl: "cleared env j c ts" and cur: "hard_rules_current env i j c key hash = Inr h"
    using hard_rules_Inr[OF terminal(2)] by blast
  have hc: "looked_up env j c h" "canonical_delete env (i + 1) j c (he_current h) = Inr (Some t)"
    using hard_rules_current_Inr[OF cur] nr terminal(3) by auto
  then obtain m where m: "he_current h = Some m" "cd_operation c = Propose_Delete"
    and why: "ht_reason t = Duplicate_Candidate \<and> fj_trigger j = Consolidation \<and> has_role By_Canonical c \<and>
        jget (cd_value c) ''lifecycle_reason'' \<in> {JStr ''exact_duplicate'', JStr ''session_compacted''} \<or>
      ht_reason t = Ttl_Expired \<and> fj_trigger j = Sweeper \<and>
        jget (cd_value c) ''lifecycle_reason'' = JStr ''ttl_expired'' \<and> expired_at (pc_time env (i + 1)) m"
    using canonical_delete_accepted terminal(4) by metis
  moreover have "canonically_backed j c" if "has_role By_Canonical c"
    using canonical_evidence[of j c ts] that cl by (simp add: cleared_def)
  ultimately show ?thesis
    using looked_up_owned[OF hc(1) m(1)] terminal(1,5) m why by auto
next
  case (decided c h n v)
  then have nr: "\<not> refused h" by (simp add: refused_def)
  then obtain key hash i where cl: "cleared env j c ts" and cur: "hard_rules_current env i j c key hash = Inr h"
    using hard_rules_Inr[OF decided(2)] by blast
  have del: "cd_operation c = Propose_Delete" "he_authorized h" "pp_auto cfg \<le> cd_confidence c"
    "r = policy_outcome env j h Op_Delete Decision_Accepted Authorized_Delete ''confirmed'' v"
    using decide_accepted[of cfg env j h c v] acc op decided(4) by (auto split: if_splits)
  have hc: "looked_up env j c h" "authorized_delete c (he_current h)"
    using hard_rules_current_Inr[OF cur] nr del(2) by blast+
  from hc(2) obtain m s q where m: "he_current h = Some m" "cd_semantic c = Some s"
    "cd_target c = Some (mi_id m)" "sm_intent s = Intend_Delete" "sm_time s = Long_Term"
    "sm_polarity s = Affirmed" "sm_certainty s = Certain" "q \<in> set (cd_evidence c)" "er_role q = By_User"
    unfolding authorized_delete_def by (auto simp: list_ex_iff split: option.splits)
  have "quoted_by_user j c ts" using user_evidence m(8,9) cl by (auto simp: cleared_def)
  with looked_up_owned[OF hc(1) m(1)] decided(1) del m show ?thesis by auto
qed

subsection \<open>Structured candidates\<close>

lemma slot_pattern_colon:
  assumes "slot_pattern s"
  shows "CHR '':'' \<notin> set s"
proof -
  obtain c cs where s: "s = c # cs" "c \<in> set identifier_start" "list_all (\<lambda>d. d \<in> set slot_chars) cs"
    using assms by (cases s) (simp_all add: slot_pattern_def)
  have "CHR '':'' \<notin> set identifier_start" "CHR '':'' \<notin> set slot_chars" by code_simp+
  moreover have "set cs \<subseteq> set slot_chars" using s(3) by (auto simp: list_all_iff)
  ultimately show ?thesis using s by auto
qed

lemma after_last_colon_id: "CHR '':'' \<notin> set s \<Longrightarrow> after_last_colon s = s"
  unfolding after_last_colon_def by (subst takeWhile_eq_all_conv[THEN iffD2]) auto

lemma adapted_slot_stated:
  assumes "jget (cd_value c) ''slot'' = JStr t" "slot_pattern t"
  shows "adapted_slot hash c = t"
proof -
  have "t \<noteq> []" using assms(2) by (auto simp: slot_pattern_def)
  with assms show ?thesis
    by (simp add: adapted_slot_def Let_def after_last_colon_id slot_pattern_colon)
qed

lemma stated_value_semantic [simp]: "stated_value (c\<lparr>cd_semantic := x\<rparr>) = stated_value c"
  by (cases "dget (cd_value c) ''value''") (simp_all add: stated_value_def)

lemma value_differs_semantic [simp]: "value_differs (c\<lparr>cd_semantic := x\<rparr>) s = value_differs c s"
proof -
  have "cd_scope (c\<lparr>cd_semantic := x\<rparr>) = cd_scope c" "cd_value (c\<lparr>cd_semantic := x\<rparr>) = cd_value c"
    by simp_all
  then show ?thesis by (simp only: value_differs_def stated_value_semantic)
qed

lemma adapted_allowed:
  assumes "scope \<in> allowed_scopes"
  shows "adapted_target scope \<in> allowed_targets scope" "adapted_target scope \<noteq> About_Unknown"
    "adapted_time scope \<in> allowed_times scope" "adapted_time scope \<noteq> Current_Turn"
    "adapted_time scope \<noteq> Time_Unknown"
    "adapted_time scope = Canonical_Time \<longleftrightarrow> scope \<in> {''task_memory'', ''artifact_reference''}"
  using assms unfolding allowed_scopes_def
  by (elim insertE emptyE; simp add: adapted_target_def allowed_targets_def adapted_time_def allowed_times_def)+

lemma semantic_validate_known:
  assumes "cd_semantic c = Some s" "sm_time s \<noteq> Current_Turn" "sm_time s \<noteq> Time_Unknown"
    "sm_target s \<noteq> About_Unknown" "sm_target s \<in> allowed_targets (cd_scope c)"
    "sm_time s \<in> allowed_times (cd_scope c)" "sm_polarity s = Affirmed" "sm_certainty s = Certain"
    "sm_intent s \<noteq> Intend_Unknown" "sm_intent s = expected_intent (cd_operation c)"
    "\<not> (case jget (cd_value c) ''slot'' of JStr t \<Rightarrow> t \<noteq> sm_slot s | _ \<Rightarrow> False)" "\<not> value_differs c s"
  shows "semantic_validate c current =
    (if sm_time s \<noteq> Canonical_Time \<and>
        (cd_operation c = Propose_Update \<and> current = None \<or> cd_operation c = Propose_Add \<and> current \<noteq> None)
     then Semantics_Pending else Semantics_Confirmed)"
  using assms by (simp add: semantic_validate_def)

text \<open>
  Structured candidates reach the decision without a model. The semantics built for a candidate of a
  trusted job, in an allowed scope and with a well-formed slot if it states one, pass the validator,
  unless it updates a preference, a fact or a summary that does not exist, or adds one that does.
\<close>

theorem adapted_candidate_confirmed:
  assumes a: "adapt_candidate hash c trigger = Inr c'" and n: "cd_semantic c = None"
    and tr: "trigger \<in> trusted_triggers" and sc: "cd_scope c \<in> allowed_scopes"
    and slot: "\<And>t. jget (cd_value c) ''slot'' = JStr t \<Longrightarrow> slot_pattern t"
  shows "semantic_validate c' current =
    (if cd_scope c \<notin> {''task_memory'', ''artifact_reference''} \<and>
        (cd_operation c = Propose_Update \<and> current = None \<or> cd_operation c = Propose_Add \<and> current \<noteq> None)
     then Semantics_Pending else Semantics_Confirmed)"
proof -
  define s where "s = \<lparr>sm_target = adapted_target (cd_scope c), sm_slot = adapted_slot hash c,
    sm_value = adapted_value c, sm_time = adapted_time (cd_scope c), sm_polarity = Affirmed,
    sm_certainty = Certain, sm_intent = expected_intent (cd_operation c)\<rparr>"
  have c': "c' = c\<lparr>cd_semantic := Some s\<rparr>"
    using a n tr by (auto simp: adapt_candidate_def Let_def s_def split: if_splits)
  have same: "\<not> (case jget (cd_value c) ''slot'' of JStr t \<Rightarrow> t \<noteq> adapted_slot hash c | _ \<Rightarrow> False)"
    using slot adapted_slot_stated[of c] by (auto split: json.splits)
  have intent: "expected_intent (cd_operation c) \<noteq> Intend_Unknown" by (cases "cd_operation c") simp_all
  have "\<not> value_differs c s"
    using sc by (auto simp: value_differs_def s_def adapted_value_def stated_value_def split: option.splits)
  then have differs: "\<not> value_differs c' s" by (simp add: c')
  have sel: "sm_time s = adapted_time (cd_scope c)" "sm_target s = adapted_target (cd_scope c)"
    "sm_slot s = adapted_slot hash c" "sm_intent s = expected_intent (cd_operation c)"
    "sm_polarity s = Affirmed" "sm_certainty s = Certain"
    by (simp_all add: s_def)
  have fields: "cd_semantic c' = Some s" "cd_scope c' = cd_scope c" "cd_value c' = cd_value c"
    "cd_operation c' = cd_operation c"
    by (simp_all add: c')
  moreover have "semantic_validate c' current =
    (if sm_time s \<noteq> Canonical_Time \<and>
        (cd_operation c' = Propose_Update \<and> current = None \<or> cd_operation c' = Propose_Add \<and> current \<noteq> None)
     then Semantics_Pending else Semantics_Confirmed)"
    using adapted_allowed[OF sc] same intent differs
    by (intro semantic_validate_known) (simp_all only: fields sel simp_thms)
  ultimately show ?thesis using adapted_allowed(6)[OF sc] unfolding sel by presburger
qed

subsection \<open>Values of the wrong type\<close>

text \<open>A list or an object as the object type of a candidate is an exception, not a rejection.\<close>

lemma candidate_type_error:
  assumes "cd_semantic c \<noteq> None" "\<not> hashable (jget (cd_value c) ''object_type'')"
  shows "evaluate cfg env j c ts = Inl Type_Error"
  using assms by (simp add: evaluate_def adapt_candidate_def hard_rules_def candidate_key_def
    build_memory_key_def canonical_key_def Let_def)

subsection \<open>Examples\<close>

definition demo_turn :: formation_turn where
  "demo_turn = \<lparr>ft_id = ''t1'', ft_request = ''q1'', ft_session = ''s1'', ft_run = None, ft_user = ''u1'',
     ft_tenant = ''n1'', ft_agent = None, ft_user_text = ''forget my nickname'', ft_assistant_text = [],
     ft_result_status = ''ok'', ft_results = [], ft_plans = [], ft_artifacts = [], ft_memories = [],
     ft_deadline = None, ft_status = Capsule_Claimed, ft_job = Some ''j1'', ft_completed = 0, ft_created = 0\<rparr>"

definition demo_policy_job :: "formation_trigger \<Rightarrow> formation_job" where
  "demo_policy_job trigger = \<lparr>fj_id = ''j1'', fj_trigger = trigger, fj_status = Job_Claimed,
     fj_mode = Mode_Enforced, fj_tenant = ''n1'', fj_user = ''u1'', fj_session = Some ''s1'', fj_first = Some ''t1'',
     fj_last = Some ''t1'', fj_sources = [''t1''], fj_key = ''k'', fj_model = ''m'', fj_prompt = ''p'',
     fj_policy = ''v1'', fj_attempts = 1, fj_limit = 5, fj_owner = None, fj_token = None, fj_expires = None,
     fj_next = None, fj_error = None, fj_trace = [], fj_created = 0, fj_updated = 0\<rparr>"

definition demo_candidate :: "candidate_operation \<Rightarrow> change_intent \<Rightarrow> ident option \<Rightarrow> candidate" where
  "demo_candidate op intent target = \<lparr>cd_id = ''c1'', cd_operation = op, cd_scope = ''user_preference'',
     cd_content = ''likes tea'', cd_value = [], cd_semantic = Some \<lparr>sm_target = About_User, sm_slot = ''nickname'',
       sm_value = JStr ''tea'', sm_time = Long_Term, sm_polarity = Affirmed, sm_certainty = Certain,
       sm_intent = intent\<rparr>,
     cd_subject_type = ''user'', cd_subject = None, cd_tenant = None, cd_key = None, cd_target = target,
     cd_confidence = 1, cd_importance = 1, cd_sensitivity = ''normal'',
     cd_evidence = [\<lparr>er_turn = Some ''t1'', er_event = None, er_role = By_User, er_quote = Some ''forget'',
       er_hash = None\<rparr>], cd_reason = []\<rparr>"

definition demo_key :: string where
  "demo_key = ''tenant:n1:user:u1:preference:nickname''"

definition demo_memory :: memory_item where
  "demo_memory = \<lparr>mi_id = ''m1'', mi_scope = ''user_preference'', mi_subject_type = ''user'', mi_subject = ''u1'',
     mi_user = Some ''u1'', mi_tenant = Some ''n1'', mi_agent = None, mi_content = ''Bob'', mi_value = [],
     mi_source = ''formation'', mi_confidence = 1, mi_importance = 1, mi_visibility = ''user'', mi_expires = None,
     mi_meta = [], mi_key = Some demo_key, mi_hash = None, mi_revision = Some ''r1'', mi_revision_no = Some 1,
     mi_job = None, mi_status = Memory_Active, mi_index = None, mi_refs = [], mi_created = 0, mi_updated = 0\<rparr>"

definition demo_policy_env :: "memory_item list \<Rightarrow> policy_env" where
  "demo_policy_env ms = \<lparr>pc_hash = \<lambda>_. replicate 64 CHR ''0'', pc_sensitive = \<lambda>_. False,
     pc_world = \<lambda>_. empty_memory\<lparr>mw_items := map (\<lambda>m. (mi_id m, m)) ms\<rparr>, pc_time = \<lambda>_. 0\<rparr>"

definition demo_policy :: policy_config where
  "demo_policy = \<lparr>pp_pending = 0, pp_auto = 1,
     pp_guard = \<lparr>lg_language = \<lambda>_. None, lg_instructed = \<lambda>_. None\<rparr>, pp_verifier = None\<rparr>"

definition demo_outcome :: "memory_item list \<Rightarrow> candidate \<Rightarrow> (decision_status \<times> memory_operation \<times> ident option) option" where
  "demo_outcome ms c =
     (case evaluate demo_policy (demo_policy_env ms) (demo_policy_job Turn_Window) c [demo_turn] of
        Inl _ \<Rightarrow> None
      | Inr r \<Rightarrow> Some (lo_status (pr_operation r), lo_operation (pr_operation r), lo_memory (pr_operation r)))"

lemma demo_outcome_Some:
  "demo_outcome ms c = Some (st, op, i) \<Longrightarrow>
   \<exists>r. evaluate demo_policy (demo_policy_env ms) (demo_policy_job Turn_Window) c [demo_turn] = Inr r \<and>
     lo_status (pr_operation r) = st \<and> lo_operation (pr_operation r) = op \<and> lo_memory (pr_operation r) = i"
  by (auto simp: demo_outcome_def split: sum.splits)

lemma demo_add_outcome:
  "demo_outcome [] (demo_candidate Propose_Add Intend_Set None) = Some (Decision_Accepted, Op_Add, None)"
  by code_simp

lemma demo_delete_outcome:
  "demo_outcome [demo_memory] (demo_candidate Propose_Delete Intend_Delete (Some ''m1'')) =
     Some (Decision_Accepted, Op_Delete, Some ''m1'')"
  by code_simp

lemma accepted_write_grounded_witness:
  "\<exists>r. evaluate demo_policy (demo_policy_env []) (demo_policy_job Turn_Window)
       (demo_candidate Propose_Add Intend_Set None) [demo_turn] = Inr r \<and>
     lo_operation (pr_operation r) = Op_Add \<and> lo_tenant (pr_operation r) = ''n1''"
proof -
  obtain r where r: "evaluate demo_policy (demo_policy_env []) (demo_policy_job Turn_Window)
      (demo_candidate Propose_Add Intend_Set None) [demo_turn] = Inr r"
    "lo_status (pr_operation r) = Decision_Accepted" "lo_operation (pr_operation r) = Op_Add"
    using demo_outcome_Some[OF demo_add_outcome] by blast
  have "lo_tenant (pr_operation r) = fj_tenant (demo_policy_job Turn_Window)"
    using accepted_write_grounded[OF r(1,2)] r(3) by auto
  with r show ?thesis by (simp add: demo_policy_job_def)
qed

lemma accepted_delete_authorized_witness:
  "\<exists>r. evaluate demo_policy (demo_policy_env [demo_memory]) (demo_policy_job Turn_Window)
       (demo_candidate Propose_Delete Intend_Delete (Some ''m1'')) [demo_turn] = Inr r \<and>
     lo_operation (pr_operation r) = Op_Delete \<and> lo_reason (pr_operation r) = Authorized_Delete \<and>
     quoted_by_user (demo_policy_job Turn_Window) (demo_candidate Propose_Delete Intend_Delete (Some ''m1'')) [demo_turn]"
proof -
  let ?c = "demo_candidate Propose_Delete Intend_Delete (Some ''m1'')" and ?j = "demo_policy_job Turn_Window"
  obtain r where r: "evaluate demo_policy (demo_policy_env [demo_memory]) ?j ?c [demo_turn] = Inr r"
    "lo_status (pr_operation r) = Decision_Accepted" "lo_operation (pr_operation r) = Op_Delete"
    using demo_outcome_Some[OF demo_delete_outcome] by blast
  have "fj_trigger ?j = Turn_Window" by (simp add: demo_policy_job_def)
  moreover have "adapt_candidate (pc_hash (demo_policy_env [demo_memory])) ?c (fj_trigger ?j) = Inr ?c"
    by (simp add: adapt_candidate_def demo_candidate_def)
  ultimately have "quoted_by_user ?j ?c [demo_turn] \<and> lo_reason (pr_operation r) = Authorized_Delete"
    using accepted_delete_authorized[OF r] by auto
  with r show ?thesis by blast
qed

lemma memory_key_bounded_witness:
  "\<exists>k. build_memory_key (\<lambda>_. replicate 64 CHR ''0'') ''n1'' ''u1'' ''user_preference'' (Some ''nickname'') [] False = Inr k \<and>
     length k \<le> 430"
proof -
  obtain k where k: "build_memory_key (\<lambda>_. replicate 64 CHR ''0'') ''n1'' ''u1'' ''user_preference'' (Some ''nickname'') [] False = Inr k"
    by (simp add: build_memory_key_def canonical_key_def jget_def Let_def)
  then show ?thesis using memory_key_bounded[OF _ k] by auto
qed

lemma memory_key_isolated_witness:
  "build_memory_key (\<lambda>_. replicate 64 CHR ''0'') ''n1'' ''u1'' ''user_preference'' (Some ''nickname'') [] False \<noteq>
   build_memory_key (\<lambda>_. replicate 64 CHR ''0'') ''n1'' ''u2'' ''user_preference'' (Some ''nickname'') [] True"
proof
  assume eq: "build_memory_key (\<lambda>_. replicate 64 CHR ''0'') ''n1'' ''u1'' ''user_preference'' (Some ''nickname'') [] False =
    build_memory_key (\<lambda>_. replicate 64 CHR ''0'') ''n1'' ''u2'' ''user_preference'' (Some ''nickname'') [] True"
  obtain k where k: "build_memory_key (\<lambda>_. replicate 64 CHR ''0'') ''n1'' ''u1'' ''user_preference'' (Some ''nickname'') [] False = Inr k"
    by (simp add: build_memory_key_def canonical_key_def jget_def Let_def)
  have "list_all (\<lambda>i. length (quote i) \<le> 128) [''n1'', ''u1'', ''n1'', ''u2'']" by code_simp
  from memory_key_isolated[OF _ this k k[unfolded eq]] show False by simp
qed

lemma adapted_candidate_confirmed_witness:
  "\<exists>c'. adapt_candidate (\<lambda>_. []) ((demo_candidate Propose_Add Intend_Set None)\<lparr>cd_semantic := None\<rparr>) Manual_Trigger = Inr c' \<and>
     semantic_validate c' None = Semantics_Confirmed"
proof -
  let ?c = "(demo_candidate Propose_Add Intend_Set None)\<lparr>cd_semantic := None\<rparr>"
  have "adapt_candidate (\<lambda>_. []) ?c Manual_Trigger \<noteq> Inl (Value_Error ''MemoryCandidateSemantics'')"
    by code_simp
  then obtain c' where c': "adapt_candidate (\<lambda>_. []) ?c Manual_Trigger = Inr c'"
    by (auto simp: adapt_candidate_def Let_def split: if_splits)
  have "semantic_validate c' None = Semantics_Confirmed"
    by (subst adapted_candidate_confirmed[OF c'])
      (simp_all add: demo_candidate_def trusted_triggers_def allowed_scopes_def jget_def)
  with c' show ?thesis by blast
qed

subsection \<open>Well-formed operations\<close>

text \<open>The schema \<open>MemoryLifecycleOperation\<close>.\<close>

definition lifecycle_op_valid :: "lifecycle_op \<Rightarrow> bool" where
  "lifecycle_op_valid op \<longleftrightarrow>
     lo_tenant op \<noteq> [] \<and> lo_user op \<noteq> [] \<and> lo_subject_type op \<noteq> [] \<and> lo_subject op \<noteq> [] \<and>
     length (case lo_agent op of None \<Rightarrow> [] | Some a \<Rightarrow> a) \<le> 128 \<and>
     length (case lo_source op of None \<Rightarrow> [] | Some s \<Rightarrow> s) \<le> 128 \<and>
     length (lo_meta op) \<le> 50 \<and> lo_key op \<noteq> [] \<and> lo_hash op \<noteq> []"

definition bounded_refs :: "string list \<Rightarrow> bool" where
  "bounded_refs refs \<longleftrightarrow> length refs \<le> 21 \<and> list_all (\<lambda>s. length s \<le> 128) (take 20 refs)"

lemma safe_source_ref_length: "(\<And>s. length (pc_hash env s) = 64) \<Longrightarrow> length (safe_source_ref env s) \<le> 128"
  by (simp add: safe_source_ref_def redacted_ref_def)

lemma bounded_source_refs_bounded:
  assumes "\<And>s. length (pc_hash env s) = 64"
  shows "bounded_refs (bounded_source_refs env refs)"
proof -
  have all: "list_all (\<lambda>s. length s \<le> 128) (map (safe_source_ref env) refs)"
    using safe_source_ref_length[of env, OF assms] by (simp add: list_all_iff)
  then have "list_all (\<lambda>s. length s \<le> 128) (take k (map (safe_source_ref env) refs))" for k
    by (auto simp: list_all_iff dest!: in_set_takeD)
  with all show ?thesis by (simp add: bounded_refs_def bounded_source_refs_def Let_def)
qed

definition named :: "hard_evaluation \<Rightarrow> bool" where
  "named h \<longleftrightarrow> he_key h \<noteq> [] \<and> he_hash h \<noteq> []"

lemma named_ends [simp]: "named (ends env c key hash reason op st cur red) \<longleftrightarrow> key \<noteq> [] \<and> hash \<noteq> []"
  by (simp add: named_def ends_def)

lemma named_rejects [simp]: "named (rejects env c key hash reason cur red) \<longleftrightarrow> key \<noteq> [] \<and> hash \<noteq> []"
  by (simp add: rejects_def)

lemma named_evaluation [simp]:
  "named \<lparr>he_candidate = c, he_key = key, he_hash = hash, he_current = cur, he_terminal = t,
     he_authorized = a, he_redacted = red\<rparr> \<longleftrightarrow> key \<noteq> [] \<and> hash \<noteq> []"
  by (simp add: named_def)

lemma named_current: "hard_rules_current env n j c key hash = Inr h \<Longrightarrow> key \<noteq> [] \<Longrightarrow> hash \<noteq> [] \<Longrightarrow> named h"
  unfolding hard_rules_current_def Let_def
  by (auto simp: ebind_eq_Inr split: if_splits)

lemma consolidation_key_named: "consolidation_key env n j c = Some k \<Longrightarrow> k \<noteq> []"
  by (auto simp: consolidation_key_def split: list.splits if_splits)

lemma named_target: "hard_rules_target env n j c key hash = Inr h \<Longrightarrow> key \<noteq> [] \<Longrightarrow> hash \<noteq> [] \<Longrightarrow> named h"
  unfolding hard_rules_target_def ebind_eq_Inr
  by (auto split: if_splits option.splits dest: named_current consolidation_key_named)

lemma named_evidence: "hard_rules_evidence env n j c ts key hash = Inr h \<Longrightarrow> key \<noteq> [] \<Longrightarrow> hash \<noteq> [] \<Longrightarrow> named h"
  unfolding hard_rules_evidence_def by (auto split: if_splits option.splits dest: named_target)

lemma named_identity: "hard_rules_identity env n j c ts key hash = Inr h \<Longrightarrow> key \<noteq> [] \<Longrightarrow> hash \<noteq> [] \<Longrightarrow> named h"
  unfolding hard_rules_identity_def ebind_eq_Inr
  by (auto simp: ebind_eq_Inr split: if_splits option.splits dest: named_evidence)

lemma build_memory_key_named:
  assumes "build_memory_key hash tenant user scope hint value canonical = Inr k"
  shows "k \<noteq> []"
proof -
  let ?owner = "owner_prefix hash tenant user"
  obtain ck where ck: "canonical_key hash ?owner scope value = Inr ck"
    using assms by (auto simp: build_memory_key_def Let_def ebind_eq_Inr)
  have "ck = Some k \<or> (\<exists>x. k = ?owner @ x) \<or> (\<exists>x. k = ''owner-sha256:'' @ x)"
    using assms ck by (auto simp: build_memory_key_def Let_def split: bool.splits option.splits if_splits)
  moreover have "\<exists>x. k = ?owner @ x" if "ck = Some k"
    using ck that by (auto simp: canonical_key_def Let_def split: if_splits json.splits option.splits)
  ultimately show ?thesis by (auto simp: owner_prefix_def)
qed

lemma candidate_key_named: "candidate_key env j c = Inr k \<Longrightarrow> k \<noteq> []"
  unfolding candidate_key_def by (rule build_memory_key_named)

lemma hard_rules_named: "hard_rules env n j c ts = Inr h \<Longrightarrow> named h"
  unfolding hard_rules_def ebind_eq_Inr
  by (auto simp: candidate_hash_def dest!: named_identity candidate_key_named)

definition sound_result :: "policy_env \<Rightarrow> py_exn + policy_result \<Rightarrow> bool" where
  "sound_result env x \<longleftrightarrow>
     (case x of Inl _ \<Rightarrow> True
      | Inr r \<Rightarrow> lifecycle_op_valid (pr_operation r) \<and> bounded_refs (lo_refs (pr_operation r)))"

lemma sound_ebind: "(\<And>a. m = Inr a \<Longrightarrow> sound_result env (f a)) \<Longrightarrow> sound_result env (ebind m f)"
  by (cases m) (simp_all add: sound_result_def ebind_def)

lemma sound_outcome:
  assumes "named h" "fj_tenant j \<noteq> []" "fj_user j \<noteq> []" "\<And>s. length (pc_hash env s) = 64"
  shows "sound_result env (Inr (policy_outcome env j h op st reason sem v))"
  using assms bounded_source_refs_bounded[of env "fj_sources j"]
  by (simp add: sound_result_def lifecycle_op_valid_def named_def policy_outcome_def Let_def split: option.split)

lemma verify_pending_named:
  assumes "verify_pending cfg env n j h ts = Inr (h', st, v)" "named h"
  shows "named h'"
  using assms unfolding verify_pending_def Let_def
  by (auto simp: ebind_eq_Inr hard_rules_named split: option.splits if_splits)

text \<open>
  C13: every decision is a valid operation. For a job with an owner, whatever the policy decides about a
  candidate, the lifecycle operation it builds satisfies its schema, and it carries at most 21 source
  references, of which the first 20 have at most 128 characters.
\<close>

theorem decision_well_formed:
  assumes job: "fj_tenant j \<noteq> []" "fj_user j \<noteq> []" and hash: "\<And>s. length (pc_hash env s) = 64"
    and e: "evaluate cfg env j c ts = Inr r"
  shows "lifecycle_op_valid (pr_operation r) \<and> length (lo_refs (pr_operation r)) \<le> 21 \<and>
    list_all (\<lambda>s. length s \<le> 128) (take 20 (lo_refs (pr_operation r)))"
proof -
  note outcome = sound_outcome[OF _ job hash]
  have decided: "sound_result env (Inr (decide cfg env j h c' v))" if "named h" for h c' v
    using outcome[OF that] by (simp add: decide_def Let_def)
  have unless: "sound_result env (case terminal_result env j h v of Some r' \<Rightarrow> Inr r' | None \<Rightarrow> x)"
    if "named h" "sound_result env x" for h v x
    using that outcome[OF that(1)] by (auto simp: terminal_result_Some split: option.split)
  have verified: "named h2" if "verify_pending cfg env m j h ts = Inr (h2, st, v)" "hard_rules env n j c' ts = Inr h" for n c' h m h2 st v
    by (rule verify_pending_named[OF that(1) hard_rules_named[OF that(2)]])
  have "sound_result env (evaluate cfg env j c ts)"
    unfolding evaluate_def Let_def
    by (rule sound_ebind, rule sound_ebind, rule unless, erule hard_rules_named)
      (auto split: if_split prod.split intro!: outcome decided sound_ebind unless
        intro: hard_rules_named; rule verified; assumption)
  then show ?thesis using e by (simp add: sound_result_def bounded_refs_def)
qed

lemma decision_well_formed_witness:
  "\<exists>r. evaluate demo_policy (demo_policy_env []) (demo_policy_job Turn_Window)
       (demo_candidate Propose_Add Intend_Set None) [demo_turn] = Inr r \<and> lifecycle_op_valid (pr_operation r)"
proof -
  obtain r where r: "evaluate demo_policy (demo_policy_env []) (demo_policy_job Turn_Window)
      (demo_candidate Propose_Add Intend_Set None) [demo_turn] = Inr r"
    using demo_outcome_Some[OF demo_add_outcome] by blast
  have "fj_tenant (demo_policy_job Turn_Window) \<noteq> []" "fj_user (demo_policy_job Turn_Window) \<noteq> []"
    by (simp_all add: demo_policy_job_def)
  from decision_well_formed[OF this _ r] have "lifecycle_op_valid (pr_operation r)" by (simp add: demo_policy_env_def)
  with r show ?thesis by blast
qed

end
