(* ===== verification/Lifecycle_Properties.thy ===== *)
theory Lifecycle_Properties
  imports Memory_Lifecycle Candidate_Properties
begin

text \<open>
  What the lifecycle store keeps: active memories have distinct keys, the revisions of a memory are a
  numbered chain that ends in its current revision, a memory disappears only after the provider has
  deleted it, a transaction changes one memory of its own owner, and applying a decision twice has the
  effect of applying it once.
\<close>

subsection \<open>Invariant\<close>

definition chained :: "memory_revision list \<Rightarrow> bool" where
  "chained rs \<longleftrightarrow>
     (\<forall>k<length rs. mr_no (rs ! k) = k + 1 \<and>
        (0 < k \<longrightarrow> mr_supersedes (rs ! k) = Some (mr_id (rs ! (k - 1)))))"

definition at_head :: "memory_revision list \<Rightarrow> memory_item \<Rightarrow> bool" where
  "at_head rs m \<longleftrightarrow>
     (rs \<noteq> [] \<longrightarrow> mi_revision m = Some (mr_id (last rs)) \<and> mi_revision_no m = Some (length rs))"

definition same_slot :: "memory_item \<Rightarrow> memory_item \<Rightarrow> bool" where
  "same_slot a b \<longleftrightarrow>
     mi_tenant a = mi_tenant b \<and> mi_subject_type a = mi_subject_type b \<and> mi_subject a = mi_subject b \<and>
     mi_scope a = mi_scope b \<and> mi_key a = mi_key b \<and> str_set (mi_key a)"

definition distinct_keys :: "(ident, memory_item) dict \<Rightarrow> bool" where
  "distinct_keys d \<longleftrightarrow>
     (\<forall>i j a b. dget d i = Some a \<longrightarrow> dget d j = Some b \<longrightarrow> mi_status a = Memory_Active \<longrightarrow>
        mi_status b = Memory_Active \<longrightarrow> same_slot a b \<longrightarrow> i = j)"

definition memory_ok :: "memory_world \<Rightarrow> bool" where
  "memory_ok w \<longleftrightarrow>
     filed mi_id (mw_items w) \<and> distinct_keys (mw_items w) \<and>
     (\<forall>i. chained (revisions_of i w)) \<and>
     (\<forall>i m. dget (mw_items w) i = Some m \<longrightarrow> at_head (revisions_of i w) m)"

lemma memory_okD:
  assumes "memory_ok w"
  shows "filed mi_id (mw_items w)" "distinct_keys (mw_items w)" "chained (revisions_of i w)"
    "dget (mw_items w) i = Some m \<Longrightarrow> at_head (revisions_of i w) m"
  using assms by (simp_all add: memory_ok_def)

lemma memory_ok_empty: "memory_ok empty_memory"
  by (simp add: memory_ok_def empty_memory_def distinct_keys_def revisions_of_def chained_def)

lemma chained_snoc:
  assumes "chained rs" "mr_no r = length rs + 1" "rs \<noteq> [] \<Longrightarrow> mr_supersedes r = Some (mr_id (last rs))"
  shows "chained (rs @ [r])"
  using assms unfolding chained_def
  by (auto simp: nth_append less_Suc_eq last_conv_nth)

lemma chained_one: "mr_no r = 1 \<Longrightarrow> chained [r]"
  by (simp add: chained_def)

lemma chained_map:
  assumes "chained rs" "\<And>r. mr_no (f r) = mr_no r \<and> mr_supersedes (f r) = mr_supersedes r \<and> mr_id (f r) = mr_id r"
  shows "chained (map f rs)"
  using assms by (simp add: chained_def)

lemma revisions_of_sel [simp]:
  "revisions_of i (w\<lparr>mw_items := x\<rparr>) = revisions_of i w"
  "revisions_of i (w\<lparr>mw_events := y\<rparr>) = revisions_of i w"
  "revisions_of i (w\<lparr>mw_index := z\<rparr>) = revisions_of i w"
  "revisions_of i (w\<lparr>mw_formation := f\<rparr>) = revisions_of i w"
  by (simp_all add: revisions_of_def)

lemma revisions_of_put [simp]:
  "revisions_of i (w\<lparr>mw_revisions := dput j rs (mw_revisions w)\<rparr>) = (if i = j then rs else revisions_of i w)"
  "revisions_of i (w\<lparr>mw_items := x, mw_revisions := dput j rs (mw_revisions w)\<rparr>) = (if i = j then rs else revisions_of i w)"
  "revisions_of i (w\<lparr>mw_revisions := dput j rs (mw_revisions w), mw_items := x\<rparr>) = (if i = j then rs else revisions_of i w)"
  "revisions_of i (w\<lparr>mw_revisions := dpop j (mw_revisions w)\<rparr>) = (if i = j then [] else revisions_of i w)"
  by (simp_all add: revisions_of_def)

lemma log_event_sel [simp]:
  "mw_items (log_event e w) = mw_items w" "revisions_of i (log_event e w) = revisions_of i w"
  "mw_index (log_event e w) = mw_index w" "mw_revisions (log_event e w) = mw_revisions w"
  "mw_events (log_event e w) = mw_events w @ [e]" "mw_formation (log_event e w) = mw_formation w"
  by (simp_all add: log_event_def)

lemma put_index_sel [simp]:
  "mw_items (put_index x w) = mw_items w" "revisions_of i (put_index x w) = revisions_of i w"
  "mw_events (put_index x w) = mw_events w" "mw_revisions (put_index x w) = mw_revisions w"
  by (simp_all add: put_index_def)

lemma scrub_sel [simp]:
  "mw_items (scrub_events op i w) = mw_items w" "revisions_of j (scrub_events op i w) = revisions_of j w"
  "mw_index (scrub_events op i w) = mw_index w"
  "mw_items (scrub_formation op i w) = mw_items w" "revisions_of j (scrub_formation op i w) = revisions_of j w"
  "mw_events (scrub_formation op i w) = mw_events w" "mw_index (scrub_formation op i w) = mw_index w"
  by (simp_all add: scrub_events_def scrub_formation_def)

lemma put_item_sel [simp]:
  "mw_items (put_item m w) = dput (mi_id m) m (mw_items w)" "revisions_of i (put_item m w) = revisions_of i w"
  by (simp_all add: put_item_def)

text \<open>Only items and revisions matter to the invariant.\<close>

lemma memory_ok_cong:
  assumes "memory_ok w" "mw_items w' = mw_items w" "\<And>i. revisions_of i w' = revisions_of i w"
  shows "memory_ok w'"
  using assms by (simp add: memory_ok_def)

text \<open>Storing one item with its revisions.\<close>

lemma memory_ok_put:
  assumes w: "memory_ok w" and i: "mi_id m = i"
    and items: "mw_items w' = dput i m (mw_items w)"
    and revs: "\<And>j. revisions_of j w' = (if j = i then rs else revisions_of j w)"
    and rs: "chained rs" "at_head rs m"
    and key: "mi_status m = Memory_Active \<Longrightarrow> \<forall>j a. j \<noteq> i \<longrightarrow> dget (mw_items w) j = Some a \<longrightarrow>
      mi_status a = Memory_Active \<longrightarrow> \<not> same_slot a m \<and> \<not> same_slot m a"
  shows "memory_ok w'"
  unfolding memory_ok_def
proof (intro conjI allI impI)
  show "filed mi_id (mw_items w')" using memory_okD(1)[OF w] i items by auto
  show "distinct_keys (mw_items w')"
    using memory_okD(2)[OF w] key unfolding distinct_keys_def items by auto
  show "chained (revisions_of j w')" for j using revs rs(1) memory_okD(3)[OF w] by simp
  show "at_head (revisions_of j w') a" if "dget (mw_items w') j = Some a" for j a
    using that revs rs(2) memory_okD(4)[OF w] items by (auto split: if_splits)
qed

text \<open>Replacing an item by one that is in the same slot and not active when the old one was not.\<close>

lemma memory_ok_replace:
  assumes w: "memory_ok w" and old: "dget (mw_items w) i = Some m"
    and items: "mw_items w' = dput i m' (mw_items w)"
    and revs: "\<And>j. revisions_of j w' = (if j = i then rs else revisions_of j w)"
    and rs: "chained rs" "at_head rs m'"
    and same: "mi_id m' = mi_id m" "mi_tenant m' = mi_tenant m" "mi_subject_type m' = mi_subject_type m"
      "mi_subject m' = mi_subject m" "mi_scope m' = mi_scope m" "mi_key m' = mi_key m"
    and active: "mi_status m' = Memory_Active \<Longrightarrow> mi_status m = Memory_Active"
  shows "memory_ok w'"
proof (rule memory_ok_put[OF w _ items revs rs])
  show "mi_id m' = i" using same(1) filedD[OF memory_okD(1)[OF w] old] by simp
  assume "mi_status m' = Memory_Active"
  then have "mi_status m = Memory_Active" by (rule active)
  then show "\<forall>j a. j \<noteq> i \<longrightarrow> dget (mw_items w) j = Some a \<longrightarrow> mi_status a = Memory_Active \<longrightarrow>
      \<not> same_slot a m' \<and> \<not> same_slot m' a"
    using memory_okD(2)[OF w] old unfolding distinct_keys_def same_slot_def same by metis
qed

lemma memory_ok_forget: "memory_ok w \<Longrightarrow> memory_ok (forget i e w)"
proof -
  assume w: "memory_ok w"
  have "filed mi_id (dpop i (mw_items w))"
    using memory_okD(1)[OF w] by (auto simp: filed_def)
  moreover have "distinct_keys (dpop i (mw_items w))"
    using memory_okD(2)[OF w] unfolding distinct_keys_def by auto
  moreover have "revisions_of j (forget i e w) = (if j = i then [] else revisions_of j w)" for j
    by (simp add: forget_def)
  ultimately show ?thesis
    using memory_okD(3,4)[OF w] by (simp add: memory_ok_def forget_def chained_def at_head_def)
qed

subsection \<open>What the transactions do\<close>

lemma operation_target_Inr:
  "operation_target x op act = Inr m \<longleftrightarrow>
   x = Some m \<and> mi_tenant m = Some (lo_tenant op) \<and> mi_user m = Some (lo_user op) \<and>
   mi_subject_type m = lo_subject_type op \<and> mi_subject m = lo_subject op \<and> key_matches (mi_key m) (lo_key op) \<and>
   (act \<longrightarrow> mi_status m = Memory_Active)"
  by (auto simp: operation_target_def split: option.splits)

lemma required_memory_Inr: "required_memory op = Inr i \<longleftrightarrow> lo_memory op = Some i \<and> i \<noteq> []"
  by (cases "lo_memory op") (auto simp: required_memory_def)

lemma commit_add_cases:
  assumes "commit_add m r e x w = (res, w')"
  shows "w' = w \<or> res = Inr (m\<lparr>mi_revision := Some (mr_id r), mi_revision_no := Some 1, mi_index := Some Indexing_Pending\<rparr>,
      r\<lparr>mr_no := 1, mr_supersedes := None\<rparr>, e, x, False) \<and> find_event (me_id e) w = None \<and>
    dget (mw_items w) (mi_id m) = None \<and> \<not> active_key_taken m w \<and>
    w' = put_index x (log_event e ((put_item (m\<lparr>mi_revision := Some (mr_id r), mi_revision_no := Some 1,
        mi_index := Some Indexing_Pending\<rparr>) w)
      \<lparr>mw_revisions := dput (mi_id m) [r\<lparr>mr_no := 1, mr_supersedes := None\<rparr>] (mw_revisions w)\<rparr>))"
  using assms unfolding commit_add_def Let_def
  by (auto simp: load_replay_def ebind_eq_Inr split: sum.splits option.splits if_splits)

lemma commit_update_cases:
  assumes "commit_update op r e x hash cf im refs w = (res, w')"
  shows "w' = w \<or> (\<exists>i m. lo_memory op = Some i \<and> find_event (me_id e) w = None \<and>
    operation_target (dget (mw_items w) i) op True = Inr m \<and> mi_revision m = lo_revision op \<and>
    (let rs = revisions_of i w; r' = r\<lparr>mr_no := length rs + 1, mr_supersedes := mi_revision m\<rparr>;
         m' = updated_item op r' hash cf im refs m
     in res = Inr (m', r', e, x, False) \<and>
        w' = put_index x (log_event e (w\<lparr>mw_items := dput i m' (mw_items w),
               mw_revisions := dput i (rs @ [r']) (mw_revisions w)\<rparr>))))"
  using assms unfolding commit_update_def Let_def
  by (auto simp: load_replay_def ebind_eq_Inr required_memory_Inr split: sum.splits option.splits if_splits)

lemma request_delete_cases:
  assumes "request_delete op e x w = (res, w')"
  shows "w' = w \<or> (\<exists>i m. lo_memory op = Some i \<and> i \<noteq> [] \<and> find_event (me_id e) w = None \<and>
    operation_target (dget (mw_items w) i) op True = Inr m \<and> mi_revision m = lo_revision op \<and>
    (let x' = x\<lparr>ix_external := external_of m\<rparr>; m' = deleting_item (me_created e) m
     in res = Inr (Some m', e, x', False) \<and>
        w' = scrub_events op i (scrub_formation op i (put_index x' (log_event e
               (w\<lparr>mw_items := dput i m' (mw_items w)\<rparr>))))))"
  using assms unfolding request_delete_def Let_def
  by (auto simp: required_memory_Inr split: sum.splits option.splits if_splits)

lemma complete_delete_cases:
  assumes "complete_delete op e index w = (res, w')"
  shows "w' = w \<or> (\<exists>i m. lo_memory op = Some i \<and>
    delete_completed (dget (xo_ops (mw_index w)) index) (Some i) (lo_revision op) (lo_tenant op) \<and>
    operation_target (dget (mw_items w) i) op False = Inr m \<and> mi_status m = Memory_Deletion_Pending \<and>
    w' = forget i e w)"
  using assms unfolding complete_delete_def
  by (auto simp: required_memory_Inr split: sum.splits option.splits if_splits)

lemma record_delete_failure_cases:
  assumes "record_delete_failure op e dead w = (res, w')"
  shows "w' = w \<or> (\<exists>i m. operation_target (dget (mw_items w) i) op False = Inr m \<and>
    mi_status m = Memory_Deletion_Pending \<and> w' = fail_deletion i dead e m (me_created e) w)"
  using assms unfolding record_delete_failure_def
  by (auto simp: required_memory_Inr split: sum.splits option.splits if_splits)

lemma pending_deletion_Inr:
  "pending_deletion y x = Inr m \<longleftrightarrow>
   y = Some m \<and> mi_id m = ix_memory x \<and> mi_tenant m = Some (ix_tenant x) \<and>
   mi_status m = Memory_Deletion_Pending \<and> mi_revision m = ix_revision x"
  by (auto simp: pending_deletion_def split: option.splits)

lemma complete_delete_from_index_cases:
  assumes "complete_delete_from_index hash x now st w = (res, w')"
  shows "w' = w \<or> (\<exists>m e. pending_deletion (dget (mw_items w) (ix_memory x)) x = Inr m \<and>
    delete_completed (dget (xo_ops (mw_index w)) (ix_id x)) (Some (ix_memory x)) (ix_revision x) (ix_tenant x) \<and>
    w' = forget (ix_memory x) e w)"
  using assms unfolding complete_delete_from_index_def Let_def
  by (auto split: sum.splits option.splits if_splits)

lemma record_delete_index_failure_cases:
  assumes "record_delete_index_failure hash x err dead now w = (res, w')"
  shows "w' = w \<or> (\<exists>m e. pending_deletion (dget (mw_items w) (ix_memory x)) x = Inr m \<and>
    w' = fail_deletion (ix_memory x) dead e m now w)"
  using assms unfolding record_delete_index_failure_def Let_def
  by (auto split: sum.splits option.splits)

subsection \<open>Steps\<close>

text \<open>
  The steps of all tasks on the memory: transactions of the store, items that are added directly under a
  fresh identifier, the index state and the outbox as the index worker changes them.
\<close>

inductive memory_step :: "memory_world \<Rightarrow> memory_world \<Rightarrow> bool" where
  step_add: "commit_add m r e x w = (res, w') \<Longrightarrow> memory_step w w'"
| step_update: "commit_update op r e x hash cf im refs w = (res, w') \<Longrightarrow> memory_step w w'"
| step_decide: "record_decision e w = (res, w') \<Longrightarrow> memory_step w w'"
| step_request: "request_delete op e x w = (res, w') \<Longrightarrow> memory_step w w'"
| step_complete: "complete_delete op e i w = (res, w') \<Longrightarrow> memory_step w w'"
| step_fail: "record_delete_failure op e dead w = (res, w') \<Longrightarrow> memory_step w w'"
| step_index_complete: "complete_delete_from_index hash x now st w = (res, w') \<Longrightarrow> memory_step w w'"
| step_index_fail: "record_delete_index_failure hash x err dead now w = (res, w') \<Longrightarrow> memory_step w w'"
| step_index_state: "set_index_state i tenant expected status external now w = (y, w') \<Longrightarrow> memory_step w w'"
| step_store: "items_add m w = (res, w') \<Longrightarrow> dget (mw_items w) (mi_id m) = None \<Longrightarrow>
    revisions_of (mi_id m) w = [] \<Longrightarrow> memory_step w w'"
| step_event: "memory_event_add e w = (res, w') \<Longrightarrow> memory_step w w'"
| step_revise: "append_revision r tenant user stype subject expected w = (res2, w') \<Longrightarrow> memory_step w w'"
| step_outbox: "index_step (mw_index w) evs x \<Longrightarrow> memory_step w (w\<lparr>mw_index := x\<rparr>)"

abbreviation memory_steps :: "memory_world \<Rightarrow> memory_world \<Rightarrow> bool" where
  "memory_steps \<equiv> memory_step\<^sup>*\<^sup>*"

lemma commit_add_ok:
  assumes "commit_add m r e x w = (res, w')" and w: "memory_ok w"
  shows "memory_ok w'"
  using commit_add_cases[OF assms(1)]
proof (elim disjE conjE)
  let ?m = "m\<lparr>mi_revision := Some (mr_id r), mi_revision_no := Some 1, mi_index := Some Indexing_Pending\<rparr>"
  let ?r = "r\<lparr>mr_no := 1, mr_supersedes := None\<rparr>"
  assume fresh: "dget (mw_items w) (mi_id m) = None" and free: "\<not> active_key_taken m w"
    and w': "w' = put_index x (log_event e ((put_item ?m w)\<lparr>mw_revisions := dput (mi_id m) [?r] (mw_revisions w)\<rparr>))"
  show ?thesis
  proof (rule memory_ok_put[OF w, where i = "mi_id m" and m = ?m and rs = "[?r]"])
    show "mw_items w' = dput (mi_id m) ?m (mw_items w)" by (simp add: w')
    show "revisions_of j w' = (if j = mi_id m then [?r] else revisions_of j w)" for j
      by (simp add: w' put_item_def)
    show "chained [?r]" by (simp add: chained_one)
    show "\<forall>j a. j \<noteq> mi_id m \<longrightarrow> dget (mw_items w) j = Some a \<longrightarrow> mi_status a = Memory_Active \<longrightarrow>
        \<not> same_slot a ?m \<and> \<not> same_slot ?m a"
    proof (intro allI impI)
      fix j a
      assume "dget (mw_items w) j = Some a" "mi_status a = Memory_Active"
      then have "\<not> (mi_tenant a = mi_tenant m \<and> mi_subject_type a = mi_subject_type m \<and>
          mi_subject a = mi_subject m \<and> mi_scope a = mi_scope m \<and> mi_key a = mi_key m)"
        using free dget_in_values[of "mw_items w" j a] unfolding active_key_taken_def list_ex_iff by blast
      then show "\<not> same_slot a ?m \<and> \<not> same_slot ?m a" by (auto simp: same_slot_def)
    qed
  qed (simp_all add: at_head_def)
qed (use w in simp)

lemma revise_sel [simp]:
  "mi_id (revise r m) = mi_id m" "mi_tenant (revise r m) = mi_tenant m" "mi_user (revise r m) = mi_user m"
  "mi_subject_type (revise r m) = mi_subject_type m" "mi_subject (revise r m) = mi_subject m"
  "mi_scope (revise r m) = mi_scope m" "mi_key (revise r m) = mi_key m" "mi_status (revise r m) = mi_status m"
  "mi_revision (revise r m) = Some (mr_id r)" "mi_revision_no (revise r m) = Some (mr_no r)"
  by (simp_all add: revise_def)

lemma updated_item_sel [simp]:
  "mi_id (updated_item op r h cf im refs m) = mi_id m" "mi_tenant (updated_item op r h cf im refs m) = mi_tenant m"
  "mi_user (updated_item op r h cf im refs m) = mi_user m"
  "mi_subject_type (updated_item op r h cf im refs m) = mi_subject_type m"
  "mi_subject (updated_item op r h cf im refs m) = mi_subject m"
  "mi_scope (updated_item op r h cf im refs m) = mi_scope m" "mi_key (updated_item op r h cf im refs m) = mi_key m"
  "mi_status (updated_item op r h cf im refs m) = mi_status m"
  "mi_revision (updated_item op r h cf im refs m) = Some (mr_id r)"
  "mi_revision_no (updated_item op r h cf im refs m) = Some (mr_no r)"
  by (simp_all add: updated_item_def)

lemma snoc_revision:
  assumes w: "memory_ok w" and m: "dget (mw_items w) i = Some m"
    and r: "mr_no r = length (revisions_of i w) + 1" "mr_supersedes r = mi_revision m"
  shows "chained (revisions_of i w @ [r])"
  using chained_snoc[OF memory_okD(3)[OF w, of i] r(1)] memory_okD(4)[OF w m] r(2)
  by (simp add: at_head_def)

lemma commit_update_ok:
  assumes "commit_update op r e x hash cf im refs w = (res, w')" and w: "memory_ok w"
  shows "memory_ok w'"
proof (cases "w' = w")
  case False
  then obtain i m where t: "operation_target (dget (mw_items w) i) op True = Inr m"
    and w': "w' = (let rs = revisions_of i w; r' = r\<lparr>mr_no := length rs + 1, mr_supersedes := mi_revision m\<rparr>;
         m' = updated_item op r' hash cf im refs m
     in put_index x (log_event e (w\<lparr>mw_items := dput i m' (mw_items w),
               mw_revisions := dput i (rs @ [r']) (mw_revisions w)\<rparr>)))"
    using commit_update_cases[OF assms(1)] by (auto simp: Let_def)
  let ?r = "r\<lparr>mr_no := length (revisions_of i w) + 1, mr_supersedes := mi_revision m\<rparr>"
  have m: "dget (mw_items w) i = Some m" using t by (simp add: operation_target_Inr)
  show ?thesis
  proof (rule memory_ok_replace[OF w m, where m' = "updated_item op ?r hash cf im refs m" and
        rs = "revisions_of i w @ [?r]"])
    show "chained (revisions_of i w @ [?r])" by (rule snoc_revision[OF w m]) simp_all
  qed (simp_all add: w' Let_def at_head_def)
qed (use w in simp)

lemma append_revision_ok:
  assumes a: "append_revision r tenant user stype subject expected w = (res, w')" and w: "memory_ok w"
  shows "memory_ok w'"
proof (cases "revision_target (dget (mw_items w) (mr_memory r)) r tenant user stype subject expected")
  case (Inl err)
  then show ?thesis using a w by (simp add: append_revision_def)
next
  case (Inr m)
  let ?i = "mr_memory r"
  let ?r = "next_revision m r w"
  have m: "dget (mw_items w) ?i = Some m"
    using Inr by (auto simp: revision_target_def split: option.splits if_splits)
  then have mi: "mi_id m = ?i" by (rule filedD[OF memory_okD(1)[OF w]])
  show ?thesis
  proof (cases "list_ex (\<lambda>x. mr_id x = mr_id ?r) (revisions_of ?i w)")
    case True
    then have "w' = w\<lparr>mw_revisions := dput ?i (revisions_of ?i w) (mw_revisions w)\<rparr>"
      using a Inr by (simp add: append_revision_def Let_def)
    then show ?thesis using memory_ok_cong[OF w, of w'] by simp
  next
    case False
    then have w': "w' = w\<lparr>mw_revisions := dput ?i (revisions_of ?i w @ [?r]) (mw_revisions w),
        mw_items := dput (mi_id m) ((revise ?r m)\<lparr>mi_job := mr_job ?r\<rparr>) (mw_items w)\<rparr>"
      using a Inr by (simp add: append_revision_def Let_def)
    show ?thesis
    proof (rule memory_ok_replace[OF w m, where m' = "(revise ?r m)\<lparr>mi_job := mr_job ?r\<rparr>" and
          rs = "revisions_of ?i w @ [?r]"])
      show "chained (revisions_of ?i w @ [?r])"
        by (rule snoc_revision[OF w m]) (simp_all add: next_revision_def)
    qed (simp_all add: w' mi at_head_def next_revision_def)
  qed
qed

lemma request_delete_ok:
  assumes "request_delete op e x w = (res, w')" and w: "memory_ok w"
  shows "memory_ok w'"
proof (cases "w' = w")
  case False
  then obtain i m x' where t: "operation_target (dget (mw_items w) i) op True = Inr m"
    and w': "w' = scrub_events op i (scrub_formation op i (put_index x' (log_event e
               (w\<lparr>mw_items := dput i (deleting_item (me_created e) m) (mw_items w)\<rparr>))))"
    using request_delete_cases[OF assms(1)] by (auto simp: Let_def)
  have m: "dget (mw_items w) i = Some m" using t by (simp add: operation_target_Inr)
  show ?thesis
    by (rule memory_ok_replace[OF w m, where m' = "deleting_item (me_created e) m" and rs = "revisions_of i w"])
      (use memory_okD(3)[OF w] memory_okD(4)[OF w m] in \<open>simp_all add: w' deleting_item_def at_head_def\<close>)
qed (use w in simp)

lemma failed_item_sel [simp]:
  "mi_id (failed_item dead now m) = mi_id m" "mi_tenant (failed_item dead now m) = mi_tenant m"
  "mi_user (failed_item dead now m) = mi_user m"
  "mi_subject_type (failed_item dead now m) = mi_subject_type m" "mi_subject (failed_item dead now m) = mi_subject m"
  "mi_scope (failed_item dead now m) = mi_scope m" "mi_key (failed_item dead now m) = mi_key m"
  "mi_status (failed_item dead now m) = mi_status m" "mi_revision (failed_item dead now m) = mi_revision m"
  "mi_revision_no (failed_item dead now m) = mi_revision_no m"
  by (simp_all add: failed_item_def scrubbed_item_def)

lemma fail_deletion_ok:
  assumes w: "memory_ok w" and m: "dget (mw_items w) i = Some m"
  shows "memory_ok (fail_deletion i dead e m now w)"
  by (rule memory_ok_replace[OF w m, where m' = "failed_item dead now m" and
        rs = "if dead then map scrub_revision (revisions_of i w) else revisions_of i w"])
    (use memory_okD(3)[OF w] memory_okD(4)[OF w m] in
      \<open>auto simp: fail_deletion_def at_head_def scrub_revision_def last_map intro!: chained_map\<close>)

lemma set_index_state_cases:
  assumes "set_index_state i tenant expected status external now w = (y, w')"
  shows "w' = w \<or> (\<exists>m meta. dget (mw_items w) i = Some m \<and>
    w' = w\<lparr>mw_items := dput i (m\<lparr>mi_index := Some status, mi_meta := meta, mi_updated := now\<rparr>) (mw_items w)\<rparr>)"
proof (cases "dget (mw_items w) i")
  case None
  then show ?thesis using assms by (simp add: set_index_state_def)
next
  case (Some m)
  let ?meta = "if str_set external then dput ''mem0_memory_id'' (JStr (the external)) (mi_meta m) else mi_meta m"
  show ?thesis
  proof (cases "mi_tenant m \<noteq> Some tenant \<or> mi_status m \<noteq> Memory_Active \<or> mi_revision m \<noteq> expected")
    case True
    then show ?thesis using assms Some by (simp add: set_index_state_def)
  next
    case False
    then have "w' = w\<lparr>mw_items := dput i (m\<lparr>mi_index := Some status, mi_meta := ?meta, mi_updated := now\<rparr>) (mw_items w)\<rparr>"
      using assms Some unfolding set_index_state_def Let_def by simp
    with Some show ?thesis by blast
  qed
qed

lemma set_index_state_ok:
  assumes "set_index_state i tenant expected status external now w = (y, w')" and w: "memory_ok w"
  shows "memory_ok w'"
proof (cases "w' = w")
  case False
  then obtain m meta where m: "dget (mw_items w) i = Some m"
    and w': "w' = w\<lparr>mw_items := dput i (m\<lparr>mi_index := Some status, mi_meta := meta, mi_updated := now\<rparr>) (mw_items w)\<rparr>"
    using set_index_state_cases[OF assms(1)] by blast
  show ?thesis
    by (rule memory_ok_replace[OF w m, where rs = "revisions_of i w" and
          m' = "m\<lparr>mi_index := Some status, mi_meta := meta, mi_updated := now\<rparr>"])
      (use memory_okD(3)[OF w] memory_okD(4)[OF w m] in \<open>simp_all add: w' at_head_def\<close>)
qed (use w in simp)

lemma items_add_ok:
  assumes a: "items_add m w = (res, w')" and w: "memory_ok w"
    and fresh: "dget (mw_items w) (mi_id m) = None" "revisions_of (mi_id m) w = []"
  shows "memory_ok w'"
proof (cases "key_conflict m w")
  case True
  then show ?thesis using a w by (simp add: items_add_def)
next
  case False
  then have w': "w' = put_item m w" using a by (simp add: items_add_def)
  show ?thesis
  proof (rule memory_ok_put[OF w, where i = "mi_id m" and m = m and rs = "[]"])
    assume act: "mi_status m = Memory_Active"
    show "\<forall>j a. j \<noteq> mi_id m \<longrightarrow> dget (mw_items w) j = Some a \<longrightarrow> mi_status a = Memory_Active \<longrightarrow>
        \<not> same_slot a m \<and> \<not> same_slot m a"
    proof (intro allI impI)
      fix j a
      assume j: "j \<noteq> mi_id m" and a: "dget (mw_items w) j = Some a" "mi_status a = Memory_Active"
      have "\<not> same_active_key a m" if k: "str_set (mi_key m)"
      proof -
        have "find (\<lambda>a. same_active_key a m) (dvalues (mw_items w)) = None"
          using False act k by (simp add: key_conflict_def)
        then show ?thesis using dget_in_values[OF a(1)] unfolding find_eq_None by blast
      qed
      moreover have "mi_id a \<noteq> mi_id m" using filedD[OF memory_okD(1)[OF w] a(1)] j by simp
      ultimately show "\<not> same_slot a m \<and> \<not> same_slot m a"
        using a(2) unfolding same_slot_def same_active_key_def by metis
    qed
  qed (simp_all add: w' fresh chained_def at_head_def)
qed

lemma memory_step_ok: "memory_step w w' \<Longrightarrow> memory_ok w \<Longrightarrow> memory_ok w'"
proof (induction rule: memory_step.induct)
  case (step_add m r e x w res w')
  then show ?case by (blast intro: commit_add_ok)
next
  case (step_update op r e x hash cf im refs w res w')
  then show ?case by (blast intro: commit_update_ok)
next
  case (step_decide e w res w')
  then show ?case
    using memory_ok_cong[of w w'] by (auto simp: record_decision_def split: option.splits)
next
  case (step_request op e x w res w')
  then show ?case by (blast intro: request_delete_ok)
next
  case (step_complete op e i w res w')
  then show ?case using complete_delete_cases memory_ok_forget by metis
next
  case (step_fail op e dead w res w')
  then show ?case using record_delete_failure_cases fail_deletion_ok operation_target_Inr by metis
next
  case (step_index_complete hash x now st w res w')
  then show ?case using complete_delete_from_index_cases memory_ok_forget by metis
next
  case (step_index_fail hash x err dead now w res w')
  then show ?case using record_delete_index_failure_cases fail_deletion_ok pending_deletion_Inr by metis
next
  case (step_index_state i tenant expected status external now w y w')
  then show ?case by (blast intro: set_index_state_ok)
next
  case (step_store m w res w')
  then show ?case by (blast intro: items_add_ok)
next
  case (step_event e w res w')
  then show ?case
    using memory_ok_cong[of w w'] by (auto simp: memory_event_add_def split: option.splits)
next
  case (step_revise r tenant user stype subject expected w res w')
  then show ?case by (blast intro: append_revision_ok)
next
  case (step_outbox w evs x)
  then show ?case using memory_ok_cong[of w "w\<lparr>mw_index := x\<rparr>"] by simp
qed

lemma memory_steps_ok: "memory_steps w w' \<Longrightarrow> memory_ok w \<Longrightarrow> memory_ok w'"
  by (induction rule: rtranclp_induct) (auto intro: memory_step_ok)

text \<open>
  C8: memory histories. Starting from empty repositories, whatever the tasks do, two active memories of one
  owner and scope never share a key; the revisions of every memory are numbered from 1 without gaps, each
  superseding the one before; and a memory that has revisions is current at the last of them.
\<close>

theorem memory_history:
  assumes "memory_steps empty_memory w"
  shows "distinct_keys (mw_items w) \<and>
    (\<forall>i. chained (revisions_of i w)) \<and>
    (\<forall>i m. dget (mw_items w) i = Some m \<longrightarrow> revisions_of i w \<noteq> [] \<longrightarrow>
       mi_revision m = Some (mr_id (last (revisions_of i w))) \<and> mi_revision_no m = Some (length (revisions_of i w)))"
  using memory_steps_ok[OF assms memory_ok_empty] by (simp add: memory_ok_def at_head_def)

subsection \<open>Deletion\<close>

definition provider_deleted :: "memory_world \<Rightarrow> ident \<Rightarrow> memory_item \<Rightarrow> bool" where
  "provider_deleted w i m \<longleftrightarrow>
     (\<exists>k x. dget (xo_ops (mw_index w)) k = Some x \<and> ix_type x = Index_Delete \<and> ix_status x = Index_Completed \<and>
        ix_memory x = i \<and> mi_tenant m = Some (ix_tenant x))"

definition item_next :: "memory_world \<Rightarrow> ident \<Rightarrow> memory_item \<Rightarrow> memory_item option \<Rightarrow> bool" where
  "item_next w i m y \<longleftrightarrow>
     (case y of
        None \<Rightarrow> mi_status m = Memory_Deletion_Pending \<and> provider_deleted w i m
      | Some m' \<Rightarrow> same_memory m m' \<and> (mi_status m = Memory_Deletion_Pending \<longrightarrow> mi_status m' = Memory_Deletion_Pending))"

lemma item_next_refl: "item_next w i m (Some m)"
  by (simp add: item_next_def same_memory_def)

lemma item_next_put:
  assumes "dget (mw_items w) i = Some m" "mw_items w' = dput k m' (mw_items w)"
    and "k = i \<Longrightarrow> item_next w i m (Some m')"
  shows "item_next w i m (dget (mw_items w') i)"
  using assms by (auto simp: item_next_refl)

lemma item_next_forget:
  assumes "dget (mw_items w) i = Some m"
    and "k = i \<Longrightarrow> mi_status m = Memory_Deletion_Pending \<and> provider_deleted w i m"
  shows "item_next w i m (dget (mw_items (forget k e w)) i)"
  using assms by (auto simp: item_next_refl forget_def) (simp add: item_next_def)

lemma delete_completed_iff:
  "delete_completed y memory revision tenant \<longleftrightarrow>
   (\<exists>x. y = Some x \<and> ix_type x = Index_Delete \<and> ix_status x = Index_Completed \<and> Some (ix_memory x) = memory \<and>
      ix_revision x = revision \<and> ix_tenant x = tenant)"
  by (auto simp: delete_completed_def split: option.splits)

lemma commit_update_items:
  assumes "commit_update op r e x hash cf im refs w = (res, w')"
  shows "w' = w \<or> (\<exists>k n r'. operation_target (dget (mw_items w) k) op True = Inr n \<and>
    mw_items w' = dput k (updated_item op r' hash cf im refs n) (mw_items w))"
  using commit_update_cases[OF assms] unfolding Let_def
  by (elim disjE exE conjE) (simp, rule disjI2, (rule exI)+, rule conjI, assumption, simp)

lemma request_delete_items:
  assumes "request_delete op e x w = (res, w')"
  shows "w' = w \<or> (\<exists>k n. operation_target (dget (mw_items w) k) op True = Inr n \<and>
    mw_items w' = dput k (deleting_item (me_created e) n) (mw_items w))"
  using request_delete_cases[OF assms] unfolding Let_def
  by (elim disjE exE conjE) (simp, rule disjI2, (rule exI)+, rule conjI, assumption, simp)

lemma append_revision_items:
  assumes "append_revision r tenant user stype subject expected w = (res, w')"
  shows "mw_items w' = mw_items w \<or>
    (\<exists>n r'. revision_target (dget (mw_items w) (mr_memory r)) r tenant user stype subject expected = Inr n \<and>
      mw_items w' = dput (mi_id n) ((revise r' n)\<lparr>mi_job := mr_job r'\<rparr>) (mw_items w))"
proof (cases "revision_target (dget (mw_items w) (mr_memory r)) r tenant user stype subject expected")
  case (Inr n)
  let ?r = "next_revision n r w"
  have "mw_items w' = mw_items w \<or> mw_items w' = dput (mi_id n) ((revise ?r n)\<lparr>mi_job := mr_job ?r\<rparr>) (mw_items w)"
    using assms Inr by (auto simp: append_revision_def Let_def split: if_splits)
  with Inr show ?thesis by blast
qed (use assms in \<open>simp add: append_revision_def\<close>)

lemma same_memory_failed: "same_memory m (failed_item dead now m)"
  by (simp add: same_memory_def)

lemma fail_deletion_items: "mw_items (fail_deletion i dead e m now w) = dput i (failed_item dead now m) (mw_items w)"
  by (simp add: fail_deletion_def)

text \<open>
  C7: deletion is staged. A step of any task on a stored memory keeps its owner, its scope and its key; a
  memory whose deletion was requested never becomes active again; and a memory disappears only when its
  deletion was requested before and the provider has completed a delete operation for it.
\<close>

theorem memory_deletion_staged:
  assumes step: "memory_step w w'" and w: "memory_ok w" and m: "dget (mw_items w) i = Some m"
  shows "case dget (mw_items w') i of
      None \<Rightarrow> mi_status m = Memory_Deletion_Pending \<and> provider_deleted w i m
    | Some m' \<Rightarrow> same_memory m m' \<and> (mi_status m = Memory_Deletion_Pending \<longrightarrow> mi_status m' = Memory_Deletion_Pending)"
proof -
  have same: "item_next w i m (dget (mw_items v) i)" if "mw_items v = mw_items w" for v
    using m that by (simp add: item_next_refl)
  have failed: "item_next w i m (dget (mw_items (fail_deletion k dead e n now w)) i)"
    if "dget (mw_items w) k = Some n" "mi_status n = Memory_Deletion_Pending" for k dead e n now
    using that m by (intro item_next_put[OF m fail_deletion_items])
      (auto simp: item_next_def same_memory_failed)
  have gone: "item_next w i m (dget (mw_items (forget k e w)) i)"
    if "dget (mw_items w) k = Some n" "mi_status n = Memory_Deletion_Pending"
      "delete_completed (dget (xo_ops (mw_index w)) x) (Some k) rev tenant" "mi_tenant n = Some tenant"
    for k e n x rev tenant
    using that m by (intro item_next_forget[OF m]) (auto simp: provider_deleted_def delete_completed_iff)
  have "item_next w i m (dget (mw_items w') i)"
    using step
  proof cases
    case (step_add m' r e x res)
    then show ?thesis using commit_add_cases[OF step_add] same m by (auto simp: item_next_refl)
  next
    case (step_update op r e x hash cf im refs res)
    show ?thesis
    proof (cases "w' = w")
      case False
      then obtain k n r' where n: "operation_target (dget (mw_items w) k) op True = Inr n"
        and it: "mw_items w' = dput k (updated_item op r' hash cf im refs n) (mw_items w)"
        using commit_update_items[OF step_update] by blast
      show ?thesis
        by (rule item_next_put[OF m it]) (use n m in \<open>auto simp: item_next_def same_memory_def operation_target_Inr\<close>)
    qed (simp add: same)
  next
    case (step_decide e res)
    then show ?thesis by (intro same) (auto simp: record_decision_def split: option.splits)
  next
    case (step_request op e x res)
    show ?thesis
    proof (cases "w' = w")
      case False
      then obtain k n where n: "operation_target (dget (mw_items w) k) op True = Inr n"
        and it: "mw_items w' = dput k (deleting_item (me_created e) n) (mw_items w)"
        using request_delete_items[OF step_request] by blast
      show ?thesis
        by (rule item_next_put[OF m it])
          (use n m in \<open>auto simp: item_next_def same_memory_def operation_target_Inr deleting_item_def\<close>)
    qed (simp add: same)
  next
    case (step_complete op e k res)
    then show ?thesis
      using complete_delete_cases[OF step_complete] same gone by (auto simp: operation_target_Inr)
  next
    case (step_fail op e dead res)
    then show ?thesis
      using record_delete_failure_cases[OF step_fail] same failed by (auto simp: operation_target_Inr)
  next
    case (step_index_complete hash x now st res)
    then show ?thesis
      using complete_delete_from_index_cases[OF step_index_complete] same gone by (auto simp: pending_deletion_Inr)
  next
    case (step_index_fail hash x err dead now res)
    then show ?thesis
      using record_delete_index_failure_cases[OF step_index_fail] same failed by (auto simp: pending_deletion_Inr)
  next
    case (step_index_state k tenant expected status external now y)
    show ?thesis
    proof (cases "w' = w")
      case False
      then obtain n meta where n: "dget (mw_items w) k = Some n"
        and it: "mw_items w' = dput k (n\<lparr>mi_index := Some status, mi_meta := meta, mi_updated := now\<rparr>) (mw_items w)"
        using set_index_state_cases[OF step_index_state] by auto
      show ?thesis
        by (rule item_next_put[OF m it]) (use n m in \<open>auto simp: item_next_def same_memory_def\<close>)
    qed (simp add: same)
  next
    case (step_store n res)
    then have "mw_items w' = mw_items w \<or> mw_items w' = dput (mi_id n) n (mw_items w)"
      by (auto simp: items_add_def split: if_splits)
    then show ?thesis using same step_store(2) m by (auto simp: item_next_refl)
  next
    case (step_event e res)
    then show ?thesis by (intro same) (auto simp: memory_event_add_def split: option.splits)
  next
    case (step_revise r tenant user stype subject expected res)
    show ?thesis
    proof (cases "mw_items w' = mw_items w")
      case False
      then obtain n r' where n: "revision_target (dget (mw_items w) (mr_memory r)) r tenant user stype subject expected = Inr n"
        and it: "mw_items w' = dput (mi_id n) ((revise r' n)\<lparr>mi_job := mr_job r'\<rparr>) (mw_items w)"
        using append_revision_items[OF step_revise] by blast
      have k: "dget (mw_items w) (mr_memory r) = Some n"
        using n by (auto simp: revision_target_def split: option.splits if_splits)
      then have "mi_id n = mr_memory r" by (rule filedD[OF memory_okD(1)[OF w]])
      then show ?thesis
        using k m by (intro item_next_put[OF m it]) (auto simp: item_next_def same_memory_def)
    qed (simp add: same)
  next
    case (step_outbox evs x)
    then show ?thesis by (intro same) simp
  qed
  then show ?thesis by (simp add: item_next_def)
qed

subsection \<open>Isolation\<close>

definition owned_result :: "formation_job \<Rightarrow> py_exn + policy_result \<Rightarrow> bool" where
  "owned_result j x \<longleftrightarrow>
     (case x of Inl _ \<Rightarrow> True
      | Inr r \<Rightarrow> lo_tenant (pr_operation r) = fj_tenant j \<and> lo_user (pr_operation r) = fj_user j)"

lemma owned_ebind: "(\<And>a. m = Inr a \<Longrightarrow> owned_result j (f a)) \<Longrightarrow> owned_result j (ebind m f)"
  by (cases m) (simp_all add: owned_result_def ebind_def)

lemma owned_decide [simp]: "owned_result j (Inr (decide cfg penv j h c v))"
  by (simp add: owned_result_def decide_def Let_def)

lemma owned_outcome [simp]: "owned_result j (Inr (policy_outcome env j h op st reason sem v))"
  by (simp add: owned_result_def)

lemma owned_terminal: "terminal_result env j h v = Some r \<Longrightarrow> owned_result j (Inr r)"
  by (auto simp: terminal_result_Some)

lemma policy_owner:
  assumes "evaluate cfg penv j c0 ts = Inr r"
  shows "lo_tenant (pr_operation r) = fj_tenant j \<and> lo_user (pr_operation r) = fj_user j"
proof -
  have "owned_result j (evaluate cfg penv j c0 ts)"
    unfolding evaluate_def Let_def
    by (intro owned_ebind) (auto split: option.split if_split prod.split intro!: owned_ebind dest: owned_terminal)
  then show ?thesis using assms by (simp add: owned_result_def)
qed

lemma snd_committed [simp]: "snd (committed_result op out) = snd out"
  by (auto simp: committed_result_def split: prod.split sum.split)

lemma snd_decided [simp]: "snd (decided_result op out) = snd out"
  by (auto simp: decided_result_def split: prod.split sum.split)

lemma lifecycle_add_commit:
  assumes "lifecycle_add env now op c w = (out, w')"
  shows "w' = w \<or> (\<exists>r e x res. commit_add (item_for env op c (add_memory_id env op) now) r e x w = (res, w'))"
proof (cases "require_accepted op Op_Add")
  case (Inr u)
  with arg_cong[OF assms, of snd] show ?thesis
    unfolding lifecycle_add_def Let_def by (simp add: prod_eq_iff) blast
qed (use assms in \<open>simp add: lifecycle_add_def\<close>)

lemma lifecycle_update_commit:
  assumes "lifecycle_update env now op c w = (out, w')"
  shows "w' = w \<or> (\<exists>r e x hash cf im refs res. commit_update op r e x hash cf im refs w = (res, w'))"
proof (cases "lo_status op = Decision_Accepted")
  case True
  show ?thesis
  proof (cases "required_memory op")
    case (Inr i)
    with True arg_cong[OF assms, of snd] show ?thesis
      unfolding lifecycle_update_def Let_def by (simp add: prod_eq_iff) blast
  qed (use True assms in \<open>simp add: lifecycle_update_def\<close>)
qed (use assms in \<open>simp add: lifecycle_update_def\<close>)

lemma lifecycle_delete_commit:
  assumes "lifecycle_request_delete env now op w = (out, w')"
  shows "w' = w \<or> (\<exists>e x res. request_delete op e x w = (res, w'))"
  using assms unfolding lifecycle_request_delete_def
  by (auto split: sum.splits prod.splits)

lemma lifecycle_decision_items:
  assumes "lifecycle_decision env now op c w = (out, w')"
  shows "mw_items w' = mw_items w"
proof -
  have "mw_items (snd (record_decision e w)) = mw_items w" for e
    by (simp add: record_decision_def split: option.split)
  with arg_cong[OF assms, of snd] show ?thesis
    unfolding lifecycle_decision_def by (auto split: if_splits)
qed

text \<open>
  C10: a formation job changes only its own user's memory. Whatever decision the policy made for a candidate
  of a job, when the lifecycle service applies it, every memory that is added or changed belongs to the
  tenant and the user of the job, before and after.
\<close>

theorem formation_isolated:
  assumes e: "evaluate cfg penv j c0 ts = Inr r" and a: "lifecycle_apply env now r w = (out, w')"
    and changed: "dget (mw_items w') i \<noteq> dget (mw_items w) i"
  shows "\<exists>m'. dget (mw_items w') i = Some m' \<and> mi_tenant m' = Some (fj_tenant j) \<and> mi_user m' = Some (fj_user j) \<and>
    (case dget (mw_items w) i of None \<Rightarrow> True
     | Some m \<Rightarrow> mi_tenant m = Some (fj_tenant j) \<and> mi_user m = Some (fj_user j))"
proof -
  let ?op = "pr_operation r"
  have own: "lo_tenant ?op = fj_tenant j" "lo_user ?op = fj_user j" using policy_owner[OF e] by simp_all
  have ne: "w' \<noteq> w" using changed by auto
  consider (add) "lifecycle_add env now ?op (pr_candidate r) w = (out, w')"
    | (update) "lifecycle_update env now ?op (pr_candidate r) w = (out, w')"
    | (delete) "lifecycle_request_delete env now ?op w = (out, w')"
    | (decision) "lifecycle_decision env now ?op (pr_candidate r) w = (out, w')"
    using a by (auto simp: lifecycle_apply_def Let_def split: if_splits)
  then show ?thesis
  proof cases
    case add
    then obtain r' ev x res where c: "commit_add (item_for env ?op (pr_candidate r) (add_memory_id env ?op) now) r' ev x w = (res, w')"
      using ne lifecycle_add_commit[OF add] by blast
    from commit_add_cases[OF c] ne changed own show ?thesis
      by (auto simp: item_for_def split: if_splits)
  next
    case update
    then obtain r' ev x res h cf im refs where c: "commit_update ?op r' ev x h cf im refs w = (res, w')"
      using ne lifecycle_update_commit[OF update] by blast
    then obtain k n r' where "operation_target (dget (mw_items w) k) ?op True = Inr n"
        "mw_items w' = dput k (updated_item ?op r' h cf im refs n) (mw_items w)"
      using commit_update_items[OF c] ne by blast
    with changed own show ?thesis by (auto simp: operation_target_Inr split: if_splits)
  next
    case delete
    then obtain ev x res where c: "request_delete ?op ev x w = (res, w')"
      using ne lifecycle_delete_commit[OF delete] by blast
    then obtain k n where "operation_target (dget (mw_items w) k) ?op True = Inr n"
        "mw_items w' = dput k (deleting_item (me_created ev) n) (mw_items w)"
      using request_delete_items[OF c] ne by blast
    with changed own show ?thesis
      by (auto simp: operation_target_Inr deleting_item_def split: if_splits)
  next
    case decision
    with changed show ?thesis by (simp add: lifecycle_decision_items[OF decision])
  qed
qed

subsection \<open>Applying a decision again\<close>

lemma find_values_dput:
  assumes "P v" and "\<And>x. x \<in> set (dvalues d) \<Longrightarrow> \<not> P x"
  shows "find P (dvalues (dput k v d)) = Some v"
  using assms(2)
proof (induction d)
  case (Cons kv d)
  obtain j u where kv: "kv = (j, u)" by (cases kv)
  then have "\<not> P u" using Cons.prems[of u] by simp
  moreover have "find P (dvalues d) = None" using Cons.prems by (auto simp: find_None_iff)
  ultimately show ?case using Cons.IH Cons.prems kv assms(1) by auto
qed (simp add: assms(1))

lemma find_snoc: "find P (xs @ [x]) = (case find P xs of None \<Rightarrow> if P x then Some x else None | Some y \<Rightarrow> Some y)"
  by (induction xs) auto

lemma find_event_log: "find_event i w = None \<Longrightarrow> me_id e = i \<Longrightarrow> find_event i (log_event e w) = Some e"
  by (simp add: find_event_def find_snoc)

text \<open>Nothing is stored under the identifiers that the service derives from the operation.\<close>

definition unapplied :: "lifecycle_env \<Rightarrow> lifecycle_op \<Rightarrow> memory_world \<Rightarrow> bool" where
  "unapplied env op w \<longleftrightarrow>
     (let add = (lo_operation op = Op_Add);
          memory = (if add then add_memory_id env op else the (lo_memory op));
          revision = (if add then add_revision_id env op else update_revision_id env op)
      in (\<forall>v\<in>set (revisions_of memory w). mr_id v \<noteq> revision) \<and>
         (\<forall>x\<in>set (dvalues (xo_ops (mw_index w))). ix_memory x \<noteq> memory \<or> ix_revision x \<noteq> Some revision))"

lemma decision_event_again:
  "same_memory_event (decision_event env op c now) (decision_event env op c later)"
  "me_id (decision_event env op c now) = me_id (decision_event env op c later)"
  by (simp_all add: same_memory_event_def decision_event_def lifecycle_event_def same_payload_def Let_def)

lemma same_event_time:
  assumes "same_memory_event a (decision_event env op c now)"
  shows "same_memory_event a (decision_event env op c later)"
  using assms
  by (simp add: same_memory_event_def decision_event_def lifecycle_event_def same_payload_def Let_def)

lemma item_for_again: "same_item_identity x (item_for env op c i now) = same_item_identity x (item_for env op c i later)"
  by (simp add: same_item_identity_def item_for_def)

lemma index_for_again:
  "same_index_identity x (index_operation_for env op i type rv now) = same_index_identity x (index_operation_for env op i type rv later)"
  by (simp add: same_index_identity_def index_operation_for_def Let_def)

lemma revision_for_again:
  "same_revision_identity x (revision_for env op c i rid rop now) = same_revision_identity x (revision_for env op c i rid rop later)"
  by (simp add: same_revision_identity_def revision_for_def)

lemma decision_event_iff:
  "same_memory_event a (decision_event env op c now) = same_memory_event a (decision_event env op c later)"
  using same_event_time by blast

lemma load_replay_cong:
  assumes "me_id e' = me_id e" "\<And>a. same_memory_event a e' = same_memory_event a e"
    and "mr_id r' = mr_id r" "mr_memory r' = mr_memory r" "\<And>a. same_revision_identity a r' = same_revision_identity a r"
    and "\<And>a. same_index_identity a x' = same_index_identity a x" "\<And>a. check' a = check a"
  shows "load_replay e' r' x' check' w = load_replay e r x check w"
  using assms by (simp add: load_replay_def split: option.split)

lemma load_replay_flag: "load_replay e r x check w = Inr (Some (m, r', old, x', replay)) \<Longrightarrow> replay"
  by (auto simp: load_replay_def ebind_eq_Inr split: option.splits)

lemma load_replay_found:
  assumes "find_event (me_id e) w = Some old" "dget (mw_items w) (mr_memory r) = Some m"
    "find (\<lambda>v. mr_id v = mr_id r) (revisions_of (mr_memory r) w) = Some r'"
    "find (\<lambda>v. ix_memory v = mr_memory r \<and> ix_revision v = Some (mr_id r)) (dvalues (xo_ops (mw_index w))) = Some x'"
    "same_memory_event old e" "same_revision_identity r' r" "same_index_identity x' x" "check m = Inr ()"
  shows "load_replay e r x check w = Inr (Some (m, r', old, x', True))"
  using assms by (simp add: load_replay_def ensure_def)

lemma put_index_ops: "xo_ops (mw_index (put_index x w)) = dput (ix_id x) x (xo_ops (mw_index w))"
  by (simp add: put_index_def)

lemma find_event_put_index [simp]: "find_event i (put_index x w) = find_event i w"
  by (simp add: find_event_def)

lemma committed_result_Inr:
  "committed_result op p = (Inr res, w') \<longleftrightarrow>
   (\<exists>m r e x replay. p = (Inr (m, r, e, x, replay), w') \<and>
      res = \<lparr>lr_operation = op, lr_item = Some m, lr_revision = Some r, lr_event = Some e, lr_index = Some x,
             lr_replay = replay\<rparr>)"
  by (auto simp: committed_result_def split: prod.splits sum.splits)

lemma add_again:
  assumes a: "lifecycle_add env now op c w = (Inr res, w')" and add: "lo_operation op = Op_Add"
    and fresh: "\<not> lr_replay res \<Longrightarrow> unapplied env op w"
  shows "lifecycle_add env later op c w' = (Inr (res\<lparr>lr_replay := True\<rparr>), w')"
proof -
  let ?i = "add_memory_id env op" and ?rid = "add_revision_id env op"
  let ?op = "op\<lparr>lo_memory := Some ?i, lo_revision := Some ?rid\<rparr>"
  let ?m = "item_for env op c ?i" and ?r = "revision_for env op c ?i ?rid Revision_Add"
  let ?e = "decision_event env ?op c" and ?x = "index_operation_for env ?op ?i Index_Add (Some ?rid)"
  let ?load = "\<lambda>t. load_replay (?e t) (?r t) (?x t) (\<lambda>old. ensure replay_conflict (same_item_identity old (?m t)))"
  have ok: "require_accepted op Op_Add = Inr ()"
    using a by (cases "require_accepted op Op_Add") (auto simp: lifecycle_add_def)
  have run: "lifecycle_add env t op c v = committed_result ?op (commit_add (?m t) (?r t) (?e t) (?x t) v)" for t v
    by (simp add: lifecycle_add_def ok Let_def)
  obtain m r e x replay where c: "commit_add (?m now) (?r now) (?e now) (?x now) w = (Inr (m, r, e, x, replay), w')"
    and res: "res = \<lparr>lr_operation = ?op, lr_item = Some m, lr_revision = Some r, lr_event = Some e, lr_index = Some x,
      lr_replay = replay\<rparr>"
    using a unfolding run committed_result_Inr by blast
  have ids: "mr_memory (?r t) = ?i" "mr_id (?r t) = ?rid" "mi_id (?m t) = ?i" "ix_memory (?x t) = ?i"
      "ix_revision (?x t) = Some ?rid" for t
    by (simp_all add: revision_for_def item_for_def index_operation_for_def Let_def)
  have "?load later w' = Inr (Some (m, r, e, x, True))"
  proof (cases "?load now w")
    case (Inr y)
    show ?thesis
    proof (cases y)
      case (Some cc)
      then have "cc = (m, r, e, x, replay)" "w' = w" using c Inr by (auto simp: commit_add_def)
      moreover have "?load later w = ?load now w"
        by (rule load_replay_cong)
          (simp_all add: decision_event_again(2)[of env ?op c later now] decision_event_iff[of _ env ?op c later now]
            revision_for_again[of _ env op c ?i ?rid Revision_Add later now] index_for_again[of _ env ?op ?i Index_Add "Some ?rid" later now]
            item_for_again[of _ env op c ?i later now] ids)
      ultimately show ?thesis using Inr Some load_replay_flag[of "?e now" "?r now" "?x now" _ w m r e x replay] by auto
    next
      case None
      let ?m' = "(?m now)\<lparr>mi_revision := Some ?rid, mi_revision_no := Some 1, mi_index := Some Indexing_Pending\<rparr>"
      let ?r' = "(?r now)\<lparr>mr_no := 1, mr_supersedes := None\<rparr>"
      have none: "find_event (me_id (?e now)) w = None"
        using Inr None by (auto simp: load_replay_def ebind_eq_Inr split: option.splits)
      have new: "w' = put_index (?x now) (log_event (?e now) ((put_item ?m' w)\<lparr>mw_revisions := dput ?i [?r'] (mw_revisions w)\<rparr>))"
        and out: "m = ?m'" "r = ?r'" "e = ?e now" "x = ?x now" "\<not> replay"
        using c Inr None ids unfolding commit_add_def Let_def by (auto split: if_splits sum.splits)
      have un: "unapplied env op w" using fresh out(5) res by simp
      have revs: "revisions_of ?i w' = [?r']" by (simp add: new put_item_def)
      show ?thesis unfolding out
      proof (rule load_replay_found)
        show "find (\<lambda>v. mr_id v = mr_id (?r later)) (revisions_of (mr_memory (?r later)) w') = Some ?r'"
          by (simp add: ids revs)
        show "find_event (me_id (?e later)) w' = Some (?e now)"
          unfolding new find_event_put_index
          by (rule find_event_log)
            (use none in \<open>simp_all add: find_event_def put_item_def decision_event_again(2)[of env ?op c later now]\<close>)
        show "find (\<lambda>v. ix_memory v = mr_memory (?r later) \<and> ix_revision v = Some (mr_id (?r later)))
            (dvalues (xo_ops (mw_index w'))) = Some (?x now)"
          unfolding new put_index_ops
          by (rule find_values_dput) (use un add in \<open>auto simp: ids put_item_def unapplied_def Let_def\<close>)
      qed (simp_all add: new ids decision_event_again same_revision_identity_def same_index_identity_def
          same_item_identity_def revision_for_def index_operation_for_def item_for_def Let_def ensure_def)
    qed
  next
    case (Inl err)
    then show ?thesis using c by (simp add: commit_add_def)
  qed
  then show ?thesis unfolding run by (simp add: commit_add_def committed_result_def res)
qed

lemma update_again:
  assumes a: "lifecycle_update env now op c w = (Inr res, w')" and upd: "lo_operation op \<noteq> Op_Add"
    and fresh: "\<not> lr_replay res \<Longrightarrow> unapplied env op w"
  shows "lifecycle_update env later op c w' = (Inr (res\<lparr>lr_replay := True\<rparr>), w')"
proof -
  have ok: "lo_status op = Decision_Accepted" using a by (auto simp: lifecycle_update_def split: if_splits)
  obtain i where i: "required_memory op = Inr i"
    using a ok by (cases "required_memory op") (auto simp: lifecycle_update_def)
  let ?rid = "update_revision_id env op"
  let ?op = "op\<lparr>lo_revision := Some ?rid\<rparr>"
  let ?rop = "if lo_operation op = Op_Consolidate then Revision_Consolidate else Revision_Update"
  let ?r = "revision_for env op c i ?rid ?rop"
  let ?e = "decision_event env ?op c" and ?x = "index_operation_for env ?op i Index_Update (Some ?rid)"
  let ?check = "\<lambda>old. map_sum id (\<lambda>_. ()) (operation_target (Some old) op False)"
  let ?load = "\<lambda>t. load_replay (?e t) (?r t) (?x t) ?check"
  let ?commit = "\<lambda>t. commit_update op (?r t) (?e t) (?x t) (lo_hash op) (cd_confidence c) (cd_importance c) (lo_refs op)"
  have run: "lifecycle_update env t op c v = committed_result ?op (?commit t v)" for t v
    by (simp add: lifecycle_update_def ok i Let_def)
  obtain m r e x replay where c: "?commit now w = (Inr (m, r, e, x, replay), w')"
    and res: "res = \<lparr>lr_operation = ?op, lr_item = Some m, lr_revision = Some r, lr_event = Some e, lr_index = Some x,
      lr_replay = replay\<rparr>"
    using a unfolding run committed_result_Inr by blast
  have ids: "mr_memory (?r t) = i" "mr_id (?r t) = ?rid" "ix_memory (?x t) = i" "ix_revision (?x t) = Some ?rid" for t
    by (simp_all add: revision_for_def index_operation_for_def Let_def)
  have "?load later w' = Inr (Some (m, r, e, x, True))"
  proof (cases "?load now w")
    case (Inr y)
    show ?thesis
    proof (cases y)
      case (Some cc)
      then have "cc = (m, r, e, x, replay)" "w' = w" using c i Inr by (auto simp: commit_update_def)
      moreover have "?load later w = ?load now w"
        by (rule load_replay_cong)
          (simp_all add: decision_event_again(2)[of env ?op c later now] decision_event_iff[of _ env ?op c later now]
            revision_for_again[of _ env op c i ?rid ?rop later now] index_for_again[of _ env ?op i Index_Update "Some ?rid" later now]
            ids)
      ultimately show ?thesis using Inr Some load_replay_flag[of "?e now" "?r now" "?x now" _ w m r e x replay] by auto
    next
      case None
      have none: "find_event (me_id (?e now)) w = None"
        using Inr None by (auto simp: load_replay_def ebind_eq_Inr split: option.splits)
      obtain m0 where t: "operation_target (dget (mw_items w) i) op True = Inr m0"
        using c Inr None i by (cases "operation_target (dget (mw_items w) i) op True") (auto simp: commit_update_def)
      let ?r' = "(?r now)\<lparr>mr_no := length (revisions_of i w) + 1, mr_supersedes := mi_revision m0\<rparr>"
      let ?m' = "updated_item op ?r' (lo_hash op) (cd_confidence c) (cd_importance c) (lo_refs op) m0"
      have new: "w' = put_index (?x now) (log_event (?e now) (w\<lparr>mw_items := dput i ?m' (mw_items w),
               mw_revisions := dput i (revisions_of i w @ [?r']) (mw_revisions w)\<rparr>))"
        and out: "m = ?m'" "r = ?r'" "e = ?e now" "x = ?x now" "\<not> replay"
        using c Inr None i t unfolding commit_update_def Let_def by (auto split: if_splits sum.splits)
      have un: "unapplied env op w" using fresh out(5) res by simp
      have mem: "lo_memory op = Some i" using i by (simp add: required_memory_Inr)
      show ?thesis unfolding out
      proof (rule load_replay_found)
        show "find_event (me_id (?e later)) w' = Some (?e now)"
          unfolding new find_event_put_index
          by (rule find_event_log)
            (use none in \<open>simp_all add: find_event_def decision_event_again(2)[of env ?op c later now]\<close>)
        show "find (\<lambda>v. ix_memory v = mr_memory (?r later) \<and> ix_revision v = Some (mr_id (?r later)))
            (dvalues (xo_ops (mw_index w'))) = Some (?x now)"
          unfolding new put_index_ops
          by (rule find_values_dput) (use un upd mem in \<open>auto simp: ids unapplied_def Let_def\<close>)
        have "find (\<lambda>v. mr_id v = ?rid) (revisions_of i w) = None"
          using un upd mem by (auto simp: unapplied_def Let_def find_None_iff)
        then show "find (\<lambda>v. mr_id v = mr_id (?r later)) (revisions_of (mr_memory (?r later)) w') = Some ?r'"
          by (simp add: new ids find_snoc)
        have "operation_target (Some ?m') op False = Inr ?m'" using t by (simp add: operation_target_Inr)
        then show "map_sum id (\<lambda>_. ()) (operation_target (Some ?m') op False) = Inr ()" by simp
      qed (simp_all add: new ids decision_event_again same_revision_identity_def same_index_identity_def
          revision_for_def index_operation_for_def Let_def)
    qed
  next
    case (Inl err)
    then show ?thesis using c i by (simp add: commit_update_def)
  qed
  then show ?thesis unfolding run by (simp add: commit_update_def i committed_result_def res)
qed

lemma decision_again:
  assumes "lifecycle_decision env now op c w = (Inr res, w')"
  shows "lifecycle_decision env later op c w' = (Inr (res\<lparr>lr_replay := True\<rparr>), w')"
proof (cases "find_event (me_id (decision_event env op c now)) w")
  case None
  then have "find_event (me_id (decision_event env op c later)) (log_event (decision_event env op c now) w) =
      Some (decision_event env op c now)"
    by (intro find_event_log) (simp_all add: decision_event_again(2)[of env op c later now])
  moreover have "w' = log_event (decision_event env op c now) w"
    "res = \<lparr>lr_operation = op, lr_item = None, lr_revision = None, lr_event = Some (decision_event env op c now),
      lr_index = None, lr_replay = False\<rparr>"
    using assms None by (auto simp: lifecycle_decision_def record_decision_def decided_result_def split: if_splits)
  ultimately show ?thesis using assms
    by (auto simp: lifecycle_decision_def record_decision_def decided_result_def decision_event_again(1) split: if_splits)
next
  case (Some old)
  then show ?thesis using assms decision_event_again(2)[of env op c now later] decision_event_iff[of old env op c now later]
    by (auto simp: lifecycle_decision_def record_decision_def decided_result_def split: if_splits)
qed

text \<open>The event of a deletion request keeps its payload when the events of the memory are scrubbed.\<close>

lemma scrub_delete_payload:
  "scrub_items (me_payload (delete_event env op now)) = me_payload (delete_event env op now)"
proof -
  have "\<not> scrubbed_key ''reason_code''" "\<not> scrubbed_key ''provider_status''" "\<not> scrubbed_key ''target_hash''"
    by code_simp+
  then show ?thesis by (simp add: delete_event_def lifecycle_event_def)
qed

lemma scrub_delete_event:
  "(if event_affected op i (delete_event env op now)
    then (delete_event env op now)\<lparr>me_payload := scrub_items (me_payload (delete_event env op now))\<rparr>
    else delete_event env op now) = delete_event env op now"
  by (simp add: scrub_delete_payload)

lemma find_event_scrub:
  "find_event i (scrub_events op k w) =
   map_option (\<lambda>e. if event_affected op k e then e\<lparr>me_payload := scrub_items (me_payload e)\<rparr> else e) (find_event i w)"
proof -
  have "find (\<lambda>e. me_id e = i) (map (\<lambda>e. if event_affected op k e then e\<lparr>me_payload := scrub_items (me_payload e)\<rparr> else e) es) =
    map_option (\<lambda>e. if event_affected op k e then e\<lparr>me_payload := scrub_items (me_payload e)\<rparr> else e)
      (find (\<lambda>e. me_id e = i) es)" for es
    by (induction es) auto
  then show ?thesis by (simp add: find_event_def scrub_events_def)
qed

lemma delete_event_again:
  "same_memory_event a (delete_event env op now) = same_memory_event a (delete_event env op later)"
  "same_memory_event (delete_event env op now) (delete_event env op later)"
  "me_id (delete_event env op now) = me_id (delete_event env op later)"
  by (simp_all add: same_memory_event_def delete_event_def lifecycle_event_def same_payload_def Let_def)

lemma delete_replay_cong:
  assumes "same_memory_event old e' = same_memory_event old e" "ix_key x' = ix_key x"
    "\<And>y. same_index_identity y x' = same_index_identity y x"
  shows "delete_replay op i old e' x' w = delete_replay op i old e x w"
  unfolding delete_replay_def assms ..

lemma delete_replay_flag: "delete_replay op i old e x w = Inr (m, e', x', replay) \<Longrightarrow> replay"
  by (auto simp: delete_replay_def ebind_eq_Inr split: option.splits if_splits)

lemma delete_again:
  assumes a: "lifecycle_request_delete env now op w = (Inr res, w')"
  shows "lifecycle_request_delete env later op w' = (Inr (res\<lparr>lr_replay := True\<rparr>), w')"
proof -
  obtain i where i: "ebind (require_accepted op Op_Delete) (\<lambda>_. required_memory op) = Inr i"
    using a by (cases "ebind (require_accepted op Op_Delete) (\<lambda>_. required_memory op)")
      (auto simp: lifecycle_request_delete_def)
  let ?e = "delete_event env op" and ?x = "delete_index env op i"
  have mem: "required_memory op = Inr i" using i by (auto simp: ebind_eq_Inr)
  obtain m e x replay where c: "request_delete op (?e now) (?x now) w = (Inr (m, e, x, replay), w')"
    and res: "res = \<lparr>lr_operation = op, lr_item = m, lr_revision = None, lr_event = Some e, lr_index = Some x,
      lr_replay = replay\<rparr>"
    using a i by (auto simp: lifecycle_request_delete_def split: prod.splits sum.splits)
  have key: "ix_key (?x later) = ix_key (?x now)"
    and same: "same_index_identity y (?x later) = same_index_identity y (?x now)" for y
    by (simp_all add: delete_index_def index_operation_for_def same_index_identity_def Let_def)
  have "request_delete op (?e later) (?x later) w' = (Inr (m, e, x, True), w')"
  proof (cases "find_event (me_id (?e now)) w")
    case (Some old)
    then have r: "delete_replay op i old (?e now) (?x now) w = Inr (m, e, x, replay)" and w': "w' = w"
      using c mem by (auto simp: request_delete_def)
    have "delete_replay op i old (?e later) (?x later) w = Inr (m, e, x, replay)"
      by (rule trans[OF delete_replay_cong[OF delete_event_again(1) key same] r])
    then show ?thesis
      using Some mem w' delete_replay_flag[OF r] delete_event_again(3)[of env op later now]
      by (simp add: request_delete_def)
  next
    case None
    obtain m0 where t: "operation_target (dget (mw_items w) i) op True = Inr m0"
      using c None mem by (cases "operation_target (dget (mw_items w) i) op True") (auto simp: request_delete_def)
    let ?m = "deleting_item (me_created (?e now)) m0" and ?y = "(?x now)\<lparr>ix_external := external_of m0\<rparr>"
    have new: "w' = scrub_events op i (scrub_formation op i (put_index ?y (log_event (?e now)
        (w\<lparr>mw_items := dput i ?m (mw_items w)\<rparr>))))"
      and out: "m = Some ?m" "e = ?e now" "x = ?y" and rev: "mi_revision m0 = lo_revision op"
      using c None mem t unfolding request_delete_def Let_def by (auto split: if_splits sum.splits)
    have ev: "find_event (me_id (?e later)) w' = Some (?e now)"
    proof -
      have "find_event (me_id (?e later)) (log_event (?e now) (w\<lparr>mw_items := dput i ?m (mw_items w)\<rparr>)) = Some (?e now)"
        using None delete_event_again(3)[of env op later now]
        by (intro find_event_log) (simp_all add: find_event_def)
      then show ?thesis
        unfolding new find_event_scrub
        by (simp add: scrub_formation_def find_event_def scrub_delete_event put_index_def)
    qed
    have it: "dget (mw_items w') i = Some ?m" by (simp add: new)
    have target: "operation_target (Some ?m) op False = Inr ?m" "mi_revision ?m = lo_revision op"
      using t rev by (simp_all add: operation_target_Inr deleting_item_def)
    have ix: "dget (xo_keys (mw_index w')) (ix_key (?x now)) = Some (ix_id (?x now))"
        "dget (xo_ops (mw_index w')) (ix_id (?x now)) = Some ?y" "same_index_identity ?y (?x now)"
      by (simp_all add: new put_index_def same_index_identity_def)
    have "delete_replay op i (?e now) (?e later) (?x later) w' = Inr (Some ?m, ?e now, ?y, True)"
      by (simp add: delete_replay_def it target key same delete_event_again(2) ensure_def ix)
    then show ?thesis using ev mem by (simp add: request_delete_def out)
  qed
  then show ?thesis using i by (simp add: lifecycle_request_delete_def res)
qed

subsection \<open>Events stay\<close>

text \<open>No step removes an event; scrubbing changes its payload only.\<close>

lemma find_event_log_any: "find_event i (log_event e w) = None \<longleftrightarrow> find_event i w = None \<and> me_id e \<noteq> i"
  by (simp add: find_event_def find_snoc split: option.split)

lemma find_event_cong: "mw_events w' = mw_events w \<Longrightarrow> find_event i w' = find_event i w"
  by (simp add: find_event_def)

lemma set_index_state_events:
  "set_index_state i tenant expected status external now w = (y, w') \<Longrightarrow> mw_events w' = mw_events w"
  using set_index_state_cases by fastforce

lemma append_revision_events:
  "append_revision r tenant user stype subject expected w = (res, w') \<Longrightarrow> mw_events w' = mw_events w"
  by (auto simp: append_revision_def Let_def split: sum.splits if_splits)

lemma items_add_events: "items_add m w = (res, w') \<Longrightarrow> mw_events w' = mw_events w"
  by (auto simp: items_add_def put_item_def split: if_splits)

lemma commit_add_events:
  "commit_add m r e x w = (res, w') \<Longrightarrow> mw_events w' = mw_events w \<or> mw_events w' = mw_events w @ [e]"
  using commit_add_cases[of m r e x w res w'] by (auto simp: put_item_def)

lemma commit_update_events:
  "commit_update op r e x hash cf im refs w = (res, w') \<Longrightarrow> mw_events w' = mw_events w \<or> mw_events w' = mw_events w @ [e]"
  using commit_update_cases[of op r e x hash cf im refs w res w'] by (auto simp: Let_def)

lemma find_event_snoc:
  "find_event i w \<noteq> None \<Longrightarrow> mw_events w' = mw_events w \<or> mw_events w' = mw_events w @ [e] \<Longrightarrow> find_event i w' \<noteq> None"
  by (auto simp: find_event_def find_snoc split: option.splits)

lemma request_delete_events:
  assumes "request_delete op e x w = (res, w')" "find_event i w \<noteq> None"
  shows "find_event i w' \<noteq> None"
proof (cases "w' = w")
  case False
  then obtain k m x' where "w' = scrub_events op k (scrub_formation op k (put_index x' (log_event e
      (w\<lparr>mw_items := dput k m (mw_items w)\<rparr>))))"
    using request_delete_cases[OF assms(1)] by (auto simp: Let_def)
  moreover have "find_event i (scrub_formation op k v) = find_event i v" for v
    by (rule find_event_cong) (simp add: scrub_formation_def)
  moreover have "find_event i (w\<lparr>mw_items := d\<rparr>) = find_event i w" for d
    by (rule find_event_cong) simp
  ultimately show ?thesis using assms(2) by (simp add: find_event_scrub find_event_log_any)
qed (use assms in simp)

lemma forget_event: "find_event i w \<noteq> None \<Longrightarrow> find_event i (forget k e w) \<noteq> None"
  by (simp add: forget_def find_event_log_any) (simp add: find_event_def)

lemma fail_deletion_event: "find_event i w \<noteq> None \<Longrightarrow> find_event i (fail_deletion k dead e m now w) \<noteq> None"
  by (simp add: fail_deletion_def find_event_log_any) (simp add: find_event_def)

lemma memory_step_event: "memory_step w w' \<Longrightarrow> find_event i w \<noteq> None \<Longrightarrow> find_event i w' \<noteq> None"
proof (induction rule: memory_step.induct)
  case (step_add m r e x w res w')
  then show ?case using commit_add_events find_event_snoc by metis
next
  case (step_update op r e x hash cf im refs w res w')
  then show ?case using commit_update_events find_event_snoc by metis
next
  case (step_decide e w res w')
  then have "mw_events w' = mw_events w \<or> mw_events w' = mw_events w @ [e]"
    by (auto simp: record_decision_def split: option.splits)
  then show ?case using step_decide.prems find_event_snoc by blast
next
  case (step_request op e x w res w')
  then show ?case using request_delete_events by blast
next
  case (step_complete op e k w res w')
  then show ?case using complete_delete_cases forget_event by metis
next
  case (step_fail op e dead w res w')
  then show ?case using record_delete_failure_cases fail_deletion_event by metis
next
  case (step_index_complete hash x now st w res w')
  then show ?case using complete_delete_from_index_cases forget_event by metis
next
  case (step_index_fail hash x err dead now w res w')
  then show ?case using record_delete_index_failure_cases fail_deletion_event by metis
next
  case (step_index_state k tenant expected status external now w y w')
  then show ?case using set_index_state_events find_event_cong by metis
next
  case (step_store m w res w')
  then show ?case using items_add_events find_event_cong by metis
next
  case (step_event e w res w')
  then have "mw_events w' = mw_events w \<or> mw_events w' = mw_events w @ [e]"
    by (auto simp: memory_event_add_def split: option.splits)
  then show ?case using step_event.prems find_event_snoc by blast
next
  case (step_revise r tenant user stype subject expected w res2 w')
  then show ?case using append_revision_events find_event_cong by metis
next
  case (step_outbox w evs x)
  then show ?case by (simp add: find_event_def)
qed

lemma memory_steps_event: "memory_steps w w' \<Longrightarrow> find_event i w \<noteq> None \<Longrightarrow> find_event i w' \<noteq> None"
  by (induction rule: rtranclp_induct) (auto dest: memory_step_event)

text \<open>The event under which the service finds a decision again.\<close>

definition applied_event :: "lifecycle_env \<Rightarrow> lifecycle_op \<Rightarrow> ident" where
  "applied_event env op =
     event_id_of env (lo_id op) (if lo_operation op = Op_Delete then ''delete-requested'' else ''decision'')"

lemma decision_event_id:
  "me_id (decision_event env op c now) = event_id_of env (lo_id op) ''decision''"
  "me_id (delete_event env op now) = event_id_of env (lo_id op) ''delete-requested''"
  by (simp_all add: decision_event_def delete_event_def lifecycle_event_def event_operation_def Let_def)

lemma load_replay_none: "find_event (me_id e) w \<noteq> None \<Longrightarrow> load_replay e r x check w \<noteq> Inr None"
  by (auto simp: load_replay_def ebind_eq_Inr split: option.splits)

lemma add_after_event:
  assumes "find_event (event_id_of env (lo_id op) ''decision'') w \<noteq> None"
  shows "\<exists>out. lifecycle_add env now op c w = (out, w) \<and> (\<forall>res. out = Inr res \<longrightarrow> lr_replay res \<and>
    lr_operation res = op\<lparr>lo_memory := Some (add_memory_id env op), lo_revision := Some (add_revision_id env op)\<rparr>)"
proof -
  let ?i = "add_memory_id env op" and ?rid = "add_revision_id env op"
  let ?op = "op\<lparr>lo_memory := Some ?i, lo_revision := Some ?rid\<rparr>"
  let ?m = "item_for env op c ?i now" and ?r = "revision_for env op c ?i ?rid Revision_Add now"
  let ?e = "decision_event env ?op c now" and ?x = "index_operation_for env ?op ?i Index_Add (Some ?rid) now"
  let ?load = "load_replay ?e ?r ?x (\<lambda>old. ensure replay_conflict (same_item_identity old ?m)) w"
  have "find_event (me_id ?e) w \<noteq> None" using assms by (simp add: decision_event_id)
  then have "?load \<noteq> Inr None" by (rule load_replay_none)
  moreover have "replay" if "?load = Inr (Some (m, r', old, x', replay))" for m r' old x' replay
    using load_replay_flag that .
  ultimately show ?thesis
    by (auto simp: lifecycle_add_def Let_def commit_add_def committed_result_def split: sum.split option.split prod.split)
qed

lemma update_after_event:
  assumes "find_event (event_id_of env (lo_id op) ''decision'') w \<noteq> None"
  shows "\<exists>out. lifecycle_update env now op c w = (out, w) \<and> (\<forall>res. out = Inr res \<longrightarrow> lr_replay res \<and>
    lr_operation res = op\<lparr>lo_revision := Some (update_revision_id env op)\<rparr>)"
proof -
  let ?op = "op\<lparr>lo_revision := Some (update_revision_id env op)\<rparr>"
  have "find_event (me_id (decision_event env ?op c now)) w \<noteq> None" using assms by (simp add: decision_event_id)
  then have "load_replay (decision_event env ?op c now) r x check w \<noteq> Inr None" for r x check
    by (rule load_replay_none)
  then show ?thesis
    by (auto simp: lifecycle_update_def Let_def commit_update_def committed_result_def dest: load_replay_flag
        split: sum.split option.split prod.split)
qed

lemma delete_after_event:
  assumes "find_event (event_id_of env (lo_id op) ''delete-requested'') w \<noteq> None"
  shows "\<exists>out. lifecycle_request_delete env now op w = (out, w) \<and>
    (\<forall>res. out = Inr res \<longrightarrow> lr_replay res \<and> lr_operation res = op)"
proof -
  obtain old where "find_event (me_id (delete_event env op now)) w = Some old"
    using assms by (auto simp: decision_event_id)
  then show ?thesis
    by (auto simp: lifecycle_request_delete_def request_delete_def ebind_eq_Inr dest: delete_replay_flag
        split: sum.split prod.split)
qed

lemma decision_after_event:
  assumes "find_event (event_id_of env (lo_id op) ''decision'') w \<noteq> None"
  shows "\<exists>out. lifecycle_decision env now op c w = (out, w) \<and>
    (\<forall>res. out = Inr res \<longrightarrow> lr_replay res \<and> lr_operation res = op)"
proof -
  obtain old where "find_event (me_id (decision_event env op c now)) w = Some old"
    using assms by (auto simp: decision_event_id)
  then show ?thesis by (auto simp: lifecycle_decision_def record_decision_def decided_result_def)
qed

text \<open>The operation in the result of an application.\<close>

definition applied_operation :: "lifecycle_env \<Rightarrow> lifecycle_op \<Rightarrow> lifecycle_op" where
  "applied_operation env op =
     (if lo_operation op = Op_Add
      then op\<lparr>lo_memory := Some (add_memory_id env op), lo_revision := Some (add_revision_id env op)\<rparr>
      else if lo_operation op \<in> {Op_Update, Op_Consolidate} then op\<lparr>lo_revision := Some (update_revision_id env op)\<rparr>
      else op)"

lemma apply_after_event:
  assumes "find_event (applied_event env (pr_operation r)) w \<noteq> None"
  shows "\<exists>out. lifecycle_apply env now r w = (out, w) \<and> (\<forall>res. out = Inr res \<longrightarrow> lr_replay res \<and>
    lr_operation res = applied_operation env (pr_operation r))"
  using add_after_event update_after_event delete_after_event decision_after_event assms
  unfolding lifecycle_apply_def applied_event_def applied_operation_def Let_def
  by (cases "lo_operation (pr_operation r)") simp_all

text \<open>An application that succeeds has left its event behind.\<close>

lemma find_event_logged: "\<exists>y. find_event (me_id e) (log_event e w) = Some y"
  using find_event_log_any[of "me_id e" e w] by auto

lemma find_event_upd [simp]:
  "find_event i (w\<lparr>mw_items := a\<rparr>) = find_event i w" "find_event i (w\<lparr>mw_revisions := b\<rparr>) = find_event i w"
  "find_event i (put_item m w) = find_event i w" "find_event i (scrub_formation op k w) = find_event i w"
  by (simp_all add: find_event_def put_item_def scrub_formation_def)

lemma load_replay_empty: "find_event (me_id e) w = None \<Longrightarrow> load_replay e r x check w = Inr None"
  by (simp add: load_replay_def)

lemma commit_add_event:
  assumes "commit_add m r e x w = (Inr y, w')"
  shows "find_event (me_id e) w' \<noteq> None"
proof (cases "find_event (me_id e) w")
  case None
  then show ?thesis using assms
    by (auto simp: find_event_logged commit_add_def load_replay_empty Let_def split: if_splits sum.splits)
next
  case (Some old)
  then have "w' = w" using commit_add_cases[OF assms] by auto
  with Some show ?thesis by simp
qed

lemma commit_update_event:
  assumes "commit_update op r e x hash cf im refs w = (Inr y, w')"
  shows "find_event (me_id e) w' \<noteq> None"
proof (cases "find_event (me_id e) w")
  case None
  then show ?thesis using assms
    by (auto simp: find_event_logged commit_update_def load_replay_empty Let_def split: if_splits sum.splits)
next
  case (Some old)
  then have "w' = w" using commit_update_cases[OF assms] by auto
  with Some show ?thesis by simp
qed

lemma request_delete_event:
  assumes "request_delete op e x w = (Inr y, w')"
  shows "find_event (me_id e) w' \<noteq> None"
proof (cases "find_event (me_id e) w")
  case None
  then show ?thesis using assms
    by (auto simp: find_event_logged request_delete_def find_event_scrub Let_def split: if_splits sum.splits)
next
  case (Some old)
  then have "w' = w" using request_delete_cases[OF assms] by auto
  with Some show ?thesis by simp
qed

lemma record_decision_event: "record_decision e w = (Inr y, w') \<Longrightarrow> find_event (me_id e) w' \<noteq> None"
  by (auto simp: record_decision_def find_event_logged split: option.splits if_splits)

lemma decided_result_Inr:
  "decided_result op p = (Inr res, w') \<longleftrightarrow>
   (\<exists>e replay. p = (Inr (e, replay), w') \<and>
      res = \<lparr>lr_operation = op, lr_item = None, lr_revision = None, lr_event = Some e, lr_index = None,
             lr_replay = replay\<rparr>)"
  by (auto simp: decided_result_def split: prod.splits sum.splits)

lemma apply_event:
  assumes "lifecycle_apply env now r w = (Inr res, w')"
  shows "find_event (applied_event env (pr_operation r)) w' \<noteq> None \<and>
    lr_operation res = applied_operation env (pr_operation r)"
proof -
  let ?op = "pr_operation r" and ?c = "pr_candidate r"
  consider (add) "lo_operation ?op = Op_Add" "lifecycle_add env now ?op ?c w = (Inr res, w')"
    | (update) "lo_operation ?op \<in> {Op_Update, Op_Consolidate}" "lifecycle_update env now ?op ?c w = (Inr res, w')"
    | (delete) "lo_operation ?op = Op_Delete" "lifecycle_request_delete env now ?op w = (Inr res, w')"
    | (decide) "lo_operation ?op \<notin> {Op_Add, Op_Update, Op_Consolidate, Op_Delete}"
        "lifecycle_decision env now ?op ?c w = (Inr res, w')"
    using assms by (auto simp: lifecycle_apply_def Let_def split: if_splits)
  then show ?thesis
  proof cases
    case add
    then show ?thesis
      by (auto simp: lifecycle_add_def Let_def committed_result_Inr applied_event_def applied_operation_def
          decision_event_id simp del: not_None_eq dest!: commit_add_event split: sum.splits)
  next
    case update
    then show ?thesis
      by (auto simp: lifecycle_update_def Let_def committed_result_Inr applied_event_def applied_operation_def
          decision_event_id simp del: not_None_eq dest!: commit_update_event split: sum.splits if_splits)
  next
    case delete
    then show ?thesis
      by (auto simp: lifecycle_request_delete_def applied_event_def applied_operation_def decision_event_id
          simp del: not_None_eq dest!: request_delete_event split: sum.splits prod.splits)
  next
    case decide
    then show ?thesis
      by (auto simp: lifecycle_decision_def decided_result_Inr applied_event_def applied_operation_def
          decision_event_id simp del: not_None_eq dest!: record_decision_event split: if_splits)
  qed
qed

text \<open>
  C9: a decision is applied once. When applying a decision of the policy has succeeded, applying it again at
  once is a replay: it succeeds with the same operation, memory, revision, event and index operation and
  changes nothing; for a write that is new, this needs that no revision and no index operation was stored
  under the identifiers that are derived from the decision. Applying it again later, after any steps of all
  tasks, still changes nothing: it reports a replay of the same operation, or it raises an exception, as it
  does once the memory has been changed so that it no longer is what the decision stored.
\<close>

theorem lifecycle_apply_idempotent:
  assumes "lifecycle_apply env now r w = (Inr res, w')"
    and "\<not> lr_replay res \<Longrightarrow> unapplied env (pr_operation r) w"
    and "memory_steps w' v"
  shows "lifecycle_apply env later r w' = (Inr (res\<lparr>lr_replay := True\<rparr>), w') \<and>
    (\<exists>out. lifecycle_apply env later r v = (out, v) \<and>
       (\<forall>again. out = Inr again \<longrightarrow> lr_replay again \<and> lr_operation again = lr_operation res))"
proof
  show "lifecycle_apply env later r w' = (Inr (res\<lparr>lr_replay := True\<rparr>), w')"
    using assms(1,2) add_again update_again delete_again decision_again
    unfolding lifecycle_apply_def Let_def by (auto split: if_splits)
  have "find_event (applied_event env (pr_operation r)) v \<noteq> None"
    using apply_event[OF assms(1)] memory_steps_event[OF assms(3)] by blast
  then show "\<exists>out. lifecycle_apply env later r v = (out, v) \<and>
      (\<forall>again. out = Inr again \<longrightarrow> lr_replay again \<and> lr_operation again = lr_operation res)"
    using apply_after_event apply_event[OF assms(1)] by metis
qed

subsection \<open>The sweep of expired memories\<close>

lemma ttl_operation_Some:
  assumes "ttl_operation env m = Some op"
  shows "mi_tenant m = Some (lo_tenant op) \<and> lo_memory op = Some (mi_id m) \<and> (mi_user m = None \<longrightarrow> lo_user op = mi_subject m)"
  using assms by (cases "mi_tenant m") (auto simp: ttl_operation_def Let_def split: if_splits)

lemma request_delete_other_user:
  assumes "dget (mw_items w) i = Some m" "lo_memory op = Some i" "mi_user m \<noteq> Some (lo_user op)"
  shows "\<exists>err. request_delete op e x w = (Inl err, w)"
proof (cases "required_memory op")
  case (Inr k)
  then have k: "k = i" using assms(2) by (simp add: required_memory_Inr)
  have no: "operation_target (dget (mw_items w) i) op act = Inl (Value_Error ''Memory lifecycle target not found'')" for act
    using assms by (simp add: operation_target_def)
  show ?thesis
  proof (cases "find_event (me_id e) w")
    case (Some old)
    have "\<exists>err. delete_replay op i old e x w = Inl err"
    proof (cases "delete_replay op i old e x w")
      case (Inr p)
      then show ?thesis using no[of False] assms(1)
        by (auto simp: delete_replay_def ebind_eq_Inr split: option.splits if_splits)
    qed simp
    then show ?thesis using Inr k Some by (auto simp: request_delete_def)
  qed (use Inr k no in \<open>simp add: request_delete_def\<close>)
qed (simp add: request_delete_def)

text \<open>
  C14: an expired memory without an owner blocks the sweep. When the first expired memory of the batch has no
  tenant or no user, the sweep ends with an exception before it has changed anything: neither that memory
  nor any that expired after it is deleted, and the next sweep meets the same memory.
\<close>

theorem ttl_sweep_blocked:
  assumes "memory_ok w" and batch: "store_expired (clock 0) limit w = m # ms"
    and "mi_tenant m = None \<or> mi_user m = None"
  shows "\<exists>err. ttl_sweep env clock others limit w = (Inl err, w)"
proof (cases "ttl_operation env m")
  case (Some op)
  have "m \<in> set (store_expired (clock 0) limit w)" using batch by simp
  then have "m \<in> set (dvalues (mw_items w))"
    unfolding store_expired_def by (auto dest: in_set_takeD)
  then have "dget (mw_items w) (mi_id m) = Some m" by (rule filed_get[OF memory_okD(1)[OF assms(1)]])
  moreover have "mi_user m \<noteq> Some (lo_user op)" "lo_memory op = Some (mi_id m)"
    using ttl_operation_Some[OF Some] assms(3) by auto
  ultimately have no: "\<exists>err. request_delete op e x w = (Inl err, w)" for e x
    by (intro request_delete_other_user)
  have "\<exists>err. lifecycle_request_delete env (clock 1) op w = (Inl err, w)"
  proof (cases "ebind (require_accepted op Op_Delete) (\<lambda>_. required_memory op)")
    case (Inr i)
    obtain err where "request_delete op (delete_event env op (clock 1)) (delete_index env op i (clock 1)) w = (Inl err, w)"
      using no by blast
    then show ?thesis by (simp add: lifecycle_request_delete_def Inr)
  qed (simp add: lifecycle_request_delete_def)
  then show ?thesis using batch Some by (auto simp: ttl_sweep_def)
qed (simp add: ttl_sweep_def batch)

subsection \<open>Examples\<close>

definition demo_lifecycle :: lifecycle_env where
  "demo_lifecycle = \<lparr>lv_hash = (\<lambda>s. s), lv_mask = (\<lambda>s. s), lv_location = (\<lambda>s. s), lv_number = (\<lambda>_. JNull),
     lv_policy = ''v1'', lv_attempts = 5, lv_task_ttl = 10, lv_summary_ttl = 20, lv_artifact_ttl = 30\<rparr>"

definition demo_decision :: "policy_result option" where
  "demo_decision =
     (case evaluate demo_policy (demo_policy_env []) (demo_policy_job Turn_Window)
             (demo_candidate Propose_Add Intend_Set None) [demo_turn] of
        Inl _ \<Rightarrow> None | Inr r \<Rightarrow> Some r)"

definition demo_applied :: "policy_result \<Rightarrow> bool" where
  "demo_applied r =
     (case lifecycle_apply demo_lifecycle 5 r empty_memory of
        (Inr res, w) \<Rightarrow> \<not> lr_replay res \<and> unapplied demo_lifecycle (pr_operation r) empty_memory \<and>
          map mi_content (dvalues (mw_items w)) = [''likes tea'']
      | _ \<Rightarrow> False)"

lemma demo_decision_applied: "case demo_decision of None \<Rightarrow> False | Some r \<Rightarrow> lo_operation (pr_operation r) = Op_Add \<and> demo_applied r"
  by code_simp

lemma demo_application:
  "\<exists>r res w. evaluate demo_policy (demo_policy_env []) (demo_policy_job Turn_Window)
       (demo_candidate Propose_Add Intend_Set None) [demo_turn] = Inr r \<and>
     lo_operation (pr_operation r) = Op_Add \<and>
     lifecycle_apply demo_lifecycle 5 r empty_memory = (Inr res, w) \<and> \<not> lr_replay res \<and>
     unapplied demo_lifecycle (pr_operation r) empty_memory \<and> map mi_content (dvalues (mw_items w)) = [''likes tea'']"
proof -
  obtain r where r: "evaluate demo_policy (demo_policy_env []) (demo_policy_job Turn_Window)
       (demo_candidate Propose_Add Intend_Set None) [demo_turn] = Inr r" "lo_operation (pr_operation r) = Op_Add" "demo_applied r"
    using demo_decision_applied unfolding demo_decision_def by (auto split: sum.splits)
  obtain out w where a: "lifecycle_apply demo_lifecycle 5 r empty_memory = (out, w)"
    by (cases "lifecycle_apply demo_lifecycle 5 r empty_memory")
  then show ?thesis using r unfolding demo_applied_def by (cases out) auto
qed

lemma demo_stored:
  "map mi_content (dvalues (mw_items w)) = [''likes tea''] \<Longrightarrow> \<exists>i m. dget (mw_items w) i = Some m \<and> mi_content m = ''likes tea''"
  by (cases "mw_items w") (auto intro: exI[of _ "fst (hd (mw_items w))"])

lemma memory_history_witness:
  "\<exists>w. memory_steps empty_memory w \<and> distinct_keys (mw_items w) \<and> map mi_content (dvalues (mw_items w)) = [''likes tea'']"
proof -
  obtain r res w where r: "lo_operation (pr_operation r) = Op_Add"
    "lifecycle_apply demo_lifecycle 5 r empty_memory = (Inr res, w)" "map mi_content (dvalues (mw_items w)) = [''likes tea'']"
    using demo_application by (elim exE conjE) (rule that; assumption)
  have "w \<noteq> empty_memory" using r(3) by (auto simp: empty_memory_def)
  moreover have "lifecycle_add demo_lifecycle 5 (pr_operation r) (pr_candidate r) empty_memory = (Inr res, w)"
    using r(1,2) by (simp add: lifecycle_apply_def Let_def)
  ultimately have "\<exists>m v e x out. commit_add m v e x empty_memory = (out, w)"
    using lifecycle_add_commit by blast
  then have st: "memory_step empty_memory w" by (elim exE) (rule step_add)
  have s: "memory_steps empty_memory w" by (rule r_into_rtranclp[of memory_step, OF st])
  have "distinct_keys (mw_items w)" by (rule memory_history[OF s, THEN conjunct1])
  then show ?thesis by (intro exI[of _ w] conjI s r(3))
qed

lemma formation_isolated_witness:
  "\<exists>r out w i m. lifecycle_apply demo_lifecycle 5 r empty_memory = (out, w) \<and> dget (mw_items w) i = Some m \<and>
     mi_content m = ''likes tea'' \<and> mi_user m = Some ''u1''"
proof -
  obtain r res w where r: "evaluate demo_policy (demo_policy_env []) (demo_policy_job Turn_Window)
       (demo_candidate Propose_Add Intend_Set None) [demo_turn] = Inr r"
    "lifecycle_apply demo_lifecycle 5 r empty_memory = (Inr res, w)" "map mi_content (dvalues (mw_items w)) = [''likes tea'']"
    using demo_application by (elim exE conjE) (rule that; assumption)
  obtain i m where m: "dget (mw_items w) i = Some m" "mi_content m = ''likes tea''"
    using demo_stored[OF r(3)] by blast
  have "dget (mw_items w) i \<noteq> dget (mw_items empty_memory) i" using m by (simp add: empty_memory_def)
  from formation_isolated[OF r(1,2) this] m have "mi_user m = Some ''u1''" by (auto simp: demo_policy_job_def)
  with r m show ?thesis by blast
qed

lemma lifecycle_apply_idempotent_witness:
  "\<exists>r res w. lifecycle_apply demo_lifecycle 5 r empty_memory = (Inr res, w) \<and> w \<noteq> empty_memory \<and>
     lifecycle_apply demo_lifecycle 9 r w = (Inr (res\<lparr>lr_replay := True\<rparr>), w) \<and>
     (let v = snd (set_index_state (add_memory_id demo_lifecycle (pr_operation r)) ''n1'' None Indexing_Ready None 6 w)
      in \<exists>out. lifecycle_apply demo_lifecycle 9 r v = (out, v))"
proof -
  obtain r res w where r: "lifecycle_apply demo_lifecycle 5 r empty_memory = (Inr res, w)"
    "unapplied demo_lifecycle (pr_operation r) empty_memory" "map mi_content (dvalues (mw_items w)) = [''likes tea'']"
    using demo_application by (elim exE conjE) (rule that; assumption)
  let ?i = "set_index_state (add_memory_id demo_lifecycle (pr_operation r)) ''n1'' None Indexing_Ready None 6 w"
  have "memory_step w (snd ?i)" by (rule step_index_state) (rule prod.collapse[symmetric])
  then have later: "memory_steps w (snd ?i)" by (rule r_into_rtranclp)
  have "lifecycle_apply demo_lifecycle 9 r w = (Inr (res\<lparr>lr_replay := True\<rparr>), w) \<and>
    (\<exists>out. lifecycle_apply demo_lifecycle 9 r (snd ?i) = (out, snd ?i) \<and>
       (\<forall>again. out = Inr again \<longrightarrow> lr_replay again \<and> lr_operation again = lr_operation res))"
    by (rule lifecycle_apply_idempotent[OF r(1) _ later]) (rule r(2))
  moreover have "w \<noteq> empty_memory" using r(3) by (auto simp: empty_memory_def)
  ultimately show ?thesis using r(1) unfolding Let_def by blast
qed

text \<open>
  The exception of the later replay is not hypothetical: as soon as the index worker has stored the
  provider's identifier in the metadata of a new memory, applying the addition again is an identity conflict.
\<close>

definition demo_replayed :: "policy_result \<Rightarrow> (py_exn + bool) option" where
  "demo_replayed r =
     (case lifecycle_apply demo_lifecycle 5 r empty_memory of
        (Inr res, w) \<Rightarrow>
          (let i = add_memory_id demo_lifecycle (pr_operation r);
               (_, w') = set_index_state i ''n1'' (Some (add_revision_id demo_lifecycle (pr_operation r)))
                 Indexing_Ready (Some ''x1'') 6 w
           in Some (map_sum id lr_replay (fst (lifecycle_apply demo_lifecycle 9 r w'))))
      | _ \<Rightarrow> None)"

lemma replay_after_indexing_conflicts:
  "case demo_decision of None \<Rightarrow> False | Some r \<Rightarrow> demo_replayed r = Some (Inl replay_conflict)"
  by code_simp

definition demo_expired :: "ident \<Rightarrow> time \<Rightarrow> ident option \<Rightarrow> memory_item" where
  "demo_expired i t user = demo_memory\<lparr>mi_id := i, mi_user := user, mi_expires := Some t, mi_key := None\<rparr>"

lemma ttl_sweep_blocked_witness:
  "\<exists>err w. store_expired 9 10 w = [demo_expired ''a'' 1 None, demo_expired ''b'' 2 (Some ''u1'')] \<and>
     ttl_sweep demo_lifecycle (\<lambda>_. 9) (\<lambda>_ w. w) 10 w = (Inl err, w)"
proof -
  let ?w = "empty_memory\<lparr>mw_items := [(''a'', demo_expired ''a'' 1 None), (''b'', demo_expired ''b'' 2 (Some ''u1''))]\<rparr>"
  have ok: "memory_ok ?w"
    by (auto simp: memory_ok_def filed_def dict_ok_def distinct_keys_def demo_expired_def same_slot_def empty_memory_def revisions_of_def
        chained_def at_head_def split: if_splits)
  have batch: "store_expired 9 10 ?w = [demo_expired ''a'' 1 None, demo_expired ''b'' 2 (Some ''u1'')]"
    by code_simp
  have "\<exists>err. ttl_sweep demo_lifecycle (\<lambda>_. 9) (\<lambda>_ w. w) 10 ?w = (Inl err, ?w)"
    by (rule ttl_sweep_blocked[OF ok, of "\<lambda>_. 9"]) (rule batch, simp add: demo_expired_def demo_memory_def)
  with batch show ?thesis by blast
qed

definition demo_deletion :: index_operation where
  "demo_deletion = \<lparr>ix_id = ''x1'', ix_key = ''k1'', ix_type = Index_Delete, ix_memory = ''m1'',
     ix_revision = Some ''r1'', ix_tenant = ''n1'', ix_external = None, ix_status = Index_Completed, ix_attempts = 1,
     ix_limit = 5, ix_owner = None, ix_token = None, ix_expires = None, ix_next = None, ix_error = None,
     ix_meta = [], ix_created = 0, ix_updated = 0\<rparr>"

lemma memory_deletion_staged_witness:
  "\<exists>w w'. memory_step w w' \<and> dget (mw_items w) ''m1'' \<noteq> None \<and> dget (mw_items w') ''m1'' = None \<and>
     provider_deleted w ''m1'' (demo_memory\<lparr>mi_status := Memory_Deletion_Pending\<rparr>)"
proof -
  let ?m = "demo_memory\<lparr>mi_status := Memory_Deletion_Pending\<rparr>"
  let ?w = "empty_memory\<lparr>mw_items := [(''m1'', ?m)], mw_index := \<lparr>xo_ops = [(''x1'', demo_deletion)], xo_keys = []\<rparr>\<rparr>"
  obtain res w' where c: "complete_delete_from_index (\<lambda>s. s) demo_deletion 5 None ?w = (res, w')" by (cases "complete_delete_from_index (\<lambda>s. s) demo_deletion 5 None ?w")
  have gone: "dget (mw_items w') ''m1'' = None"
    using c by (auto simp: complete_delete_from_index_def demo_deletion_def demo_memory_def delete_completed_def Let_def
        find_event_def empty_memory_def pending_deletion_def forget_def)
  have ok: "memory_ok ?w"
    by (auto simp: memory_ok_def filed_def dict_ok_def distinct_keys_def demo_memory_def empty_memory_def revisions_of_def
        chained_def at_head_def split: if_splits)
  have step: "memory_step ?w w'" using c by (rule step_index_complete)
  have "dget (mw_items ?w) ''m1'' = Some ?m" by simp
  from memory_deletion_staged[OF step ok this] gone have "provider_deleted ?w ''m1'' ?m" by simp
  with step gone show ?thesis by fastforce
qed

end
