(* ===== verification/Spec2Isabelle.thy ===== *)
theory Spec2Isabelle
  imports Plan_Properties Plan_Execution Agent_Events Formation_Properties Index_Outbox Formation_Publishing Agent_Registry Canonical_Invocations Turn_Service Ticket_Service Delegated_Properties Lifecycle_Properties
begin

text \<open>
  A verification development for the core of the open intent router (a Python service under
  \<open>app/\<close>): the state it keeps about conversational turns, agent plans, delegated runs and the
  tickets that authorise them, the services that change that state, and the filter that
  reduces retrieved knowledge to references before it is stored.

  \<^bold>\<open>How the program works.\<close> A host opens a \<^emph>\<open>turn\<close> for each request of a user
  (\<open>app/services/turn_service.py\<close>). The router either answers it or assigns it to agents, directly
  or through a \<^emph>\<open>plan\<close> of dependent steps (\<open>app/schemas/plans.py\<close>,
  \<open>app/services/plan_service.py\<close>). An agent that works outside the process is started as a
  \<^emph>\<open>delegated run\<close> (\<open>app/services/delegated_run_service.py\<close>) and reports its progress and its
  end later; each end also settles the turn, the plan step, the result and an outbox event, as one
  transaction. An agent proves its right to act by an \<^emph>\<open>execution ticket\<close>
  (\<open>app/services/execution_ticket_service.py\<close>). Everything that is written passes the knowledge
  filter (\<open>app/schemas/knowledge_persistence.py\<close>).

  \<^bold>\<open>The storage.\<close> The repositories exist twice, in memory and over SQLAlchemy, chosen by the
  setting \<open>STORAGE_BACKEND\<close>. The in-memory classes are modelled: they are plain Python, each of
  their methods runs without an await between reading and writing, and they state the contract in
  full. The validators and the pure projections that both variants share are part of the model.

  \<^bold>\<open>Conventions.\<close> A Python object is a record, a \<open>Literal\<close> is a datatype, a dictionary is
  an association list in insertion order (\<open>dget\<close>, \<open>dput\<close>, \<open>dpop\<close>), an exception is the left
  side of a sum over \<open>py_exn\<close>, Python integers are \<open>nat\<close> or \<open>int\<close>, a time is an integer. What
  the code reads from outside (the clock, fresh identifiers, a hash, a signature) is an argument.
  A method that mutates its object returns the new store. Where other tasks of the event loop can
  run between two accesses (at an \<open>await\<close>), the model takes a function \<open>interference\<close> that
  changes the store at that point in any way; a property either holds for all of them or says which
  it allows.

  \<^bold>\<open>The theories.\<close>
  \<^item> \<open>Oir_Prelude\<close>: dictionaries, errors and their case rules, JSON values, list lemmas and the
    collections the proofs share.
  \<^item> \<open>Store_Contracts\<close>: the interfaces as locales: a store of records that belong to a tenant and
    a user, a writer with an optimistic version, a store of leases. The component theories interpret
    them on the definitions of the model, so that lease disjointness and the single winner of a
    race are proved once.
  \<^item> \<open>Knowledge_Sanitizer\<close>: the recursive filter; every object it leaves under
    \<open>knowledge_context\<close>, at any depth, holds only status words, references and error codes, and applying
    it again changes nothing. A string or a list under that key is kept.
  \<^item> \<open>Plan_Model\<close>, \<open>Plan_Store\<close>, \<open>Plan_Properties\<close>: the schema with the cycle check
    (a depth-first search with fuel \<open>the number of steps + 1\<close>, enough because a path visits each step
    at most once; the lemmas show that it decides acyclicity), the transition of steps, and
    \<open>MemoryPlanRepository\<close> with its execution claims. Properties: acceptance is exactly
    well-formedness, an accepted plan always has an executable step until it ends, claims fence
    writes.
  \<^item> \<open>Plan_Service\<close>: \<open>PlanService\<close> over that repository, with the publication of states; the
    \<open>for _ in range(3)\<close> loops are recursions with the literal bound 3.
  \<^item> \<open>Run_Store\<close>, \<open>Turn_Store\<close>: the repositories of runs, results, agent events and turns, the
    outbox and the combined store of route completions.
  \<^item> \<open>Turn_Service\<close>: the life of a turn; its statuses form a state machine whose terminal states
    are final over any history, starting is idempotent per request.
  \<^item> \<open>Ticket_Store\<close>, \<open>Ticket_Service\<close>: tickets with claims and leases, signed tokens; a ticket is
    consumed at most once.
  \<^item> \<open>Delegated_Model\<close>, \<open>Delegated_Runs\<close>: the commands, validators, projections and the six
    stores of delegated runs with the handlers that undo a failed transaction step by step;
    \<open>Delegated_Lifecycle\<close>: the invariant and the abstract life cycle of a run;
    \<open>Delegated_Service\<close>: the service and one sweep of the timeout runtime;
    \<open>Delegated_Properties\<close>: all-or-nothing, idempotence and history of the commands, and the
    situations in which the code departs from them.
  \<^item> \<open>Py_Text\<close>: the string methods of Python that several parts use.
  \<^item> \<open>Canonical_Invocations\<close>: the store of direct invocations, start and completion as transactions.
  \<^item> \<open>Agent_Registry\<close>: users, policies, definitions, the repository with its audit trail, which
    accounts for the agents that are changed by audited mutations only, and the registry service.
  \<^item> \<open>Formation_Publishing\<close>: the sweep that publishes states that were not published in time: what it
    hands over, in which order, and what it marks.
  \<^item> \<open>Invocation\<close>, \<open>Invocation_Steps\<close>: \<open>InvocationService\<close> over all of these stores, and that an answer
    is only returned when the step of the plan was settled.
  \<^item> \<open>Plan_Executor\<close>, \<open>Plan_Execution\<close>: \<open>PlanExecutor\<close>; the loop over \<open>max_steps\<close> is a recursion over
    that number. With reliable agents as many iterations as pending steps complete the plan.
  \<^item> \<open>Agent_Events\<close>: the events that agents report: what an accepted event has proved with its
    ticket, how the ticket is left, and an event that blocks its run.
  \<^item> \<open>Retry_Queue\<close>: the abstract specification of a queue whose jobs are leased, retried a bounded
    number of times and fenced by tokens, and the locale through which its consequences reach the two
    queues that refine it.
  \<^item> \<open>Formation_Jobs\<close>, \<open>Formation_Ranges\<close>, \<open>Formation_Properties\<close>: the repository of memory formation.
    Its jobs refine the queue; the ranges of turns they cover are disjoint.
  \<^item> \<open>Index_Outbox\<close>: the outbox of the memory index, the second queue, with the repairs of governance: a
    request is accepted once, until another one requeues the same operation.
  \<^item> \<open>Memory_Model\<close>, \<open>Memory_Items\<close>: the schemas of long-term memory, \<open>json.dumps\<close> and the repositories
    of memories, their events and their revisions.
  \<^item> \<open>Candidate_Rules\<close>, \<open>Candidate_Policy\<close>, \<open>Candidate_Properties\<close>: what may be remembered. The rules read
    the repository at several moments, so the environment gives a time and a store for each; digests and
    patterns of sensitive text are functions of the environment. Properties: an accepted write is quoted
    from the user or canonical, an accepted deletion is authorised, decisions are well-formed, the keys
    of memories are bounded and separate the owners.
  \<^item> \<open>Lifecycle_Store\<close>, \<open>Memory_Lifecycle\<close>, \<open>Lifecycle_Properties\<close>: the transactions on a memory with its
    revisions, events and index operations, the service that derives their identifiers from the decision,
    and the sweep of expired memories. Properties: distinct keys and chained revisions over any history,
    staged deletion, a decision that is applied again changes nothing, isolation of the users, and an
    expired memory that blocks the sweep.
  \<^item> \<open>Spec2Isabelle\<close> (this theory): properties that span components.

  \<^bold>\<open>Not modelled.\<close> The SQLAlchemy repositories (\<open>app/repositories/database.py\<close> and the
  \<open>Database*\<close> classes beside the in-memory ones): their effect rests on isolation levels and SQL
  of the database. The router (\<open>app/services/router_service.py\<close>), the extraction of memory
  candidates by a language model, the vector index behind the memory and the assembly of context, which
  mostly prepare input for a model and interpret its output. The administration, the metrics and the
  consolidation of memories. The HTTP layer, configuration, host adapters and host applications, which
  are bindings. An exception of the cache invalidation that follows a committed deletion.
  Background tasks are modelled as single sweeps, not as schedules.
\<close>

subsection \<open>Properties that span the components\<close>

lemma validated_run_objects_safe:
  assumes "validate_run r = Inr r"
  shows "context_objects_safe (rn_input r)" "rn_output r = Some x \<Longrightarrow> context_objects_safe x"
    "rn_error r = Some x \<Longrightarrow> context_objects_safe x"
proof -
  obtain i out err where s: "sanitize (rn_input r) = Some i" "sanitize_opt (rn_output r) = Some out"
    "sanitize_opt (rn_error r) = Some err"
    and r: "r = r\<lparr>rn_input := i, rn_output := out, rn_error := err\<rparr>"
    using assms by (auto simp: validate_run_def split: option.splits if_splits)
  have e: "i = rn_input r" "out = rn_output r" "err = rn_error r"
    using arg_cong[OF r, of rn_input] arg_cong[OF r, of rn_output] arg_cong[OF r, of rn_error]
    by simp_all
  show "context_objects_safe (rn_input r)" using s(1) e(1) sanitize_objects_safe_all(1) by blast
  show "context_objects_safe x" if "rn_output r = Some x"
    using s(2) e(2) that sanitize_objects_safe_all(1) by (auto simp: sanitize_opt_def)
  show "context_objects_safe x" if "rn_error r = Some x"
    using s(3) e(3) that sanitize_objects_safe_all(1) by (auto simp: sanitize_opt_def)
qed

text \<open>
  C40: the objects of a knowledge context never reach the run repository unprojected. After any history
  of delegated-run operations, every object that the input, output or error of a stored run has under the
  key \<open>knowledge_context\<close>, at every depth of the document, holds no strings but status words, references
  and error codes. It is about objects only: a string or a list under that key is kept, and only the
  objects inside it that have the key themselves are projected.
\<close>

theorem stored_context_objects_safe:
  assumes "drs_ok w" "drs_steps w w'" "get_run (dw_runs w') i = Some r"
  shows "context_objects_safe (rn_input r) \<and> (\<forall>x. rn_output r = Some x \<longrightarrow> context_objects_safe x) \<and>
    (\<forall>x. rn_error r = Some x \<longrightarrow> context_objects_safe x)"
  using validated_run_objects_safe[OF stored_run_valid(1)[OF drs_steps_ok[OF assms(2,1)] assms(3)]]
  by blast

lemma stored_context_objects_safe_witness:
  "\<exists>r. get_run (dw_runs (demo_world demo_turn0)) ''run1'' = Some r \<and> context_objects_safe (rn_input r)"
  using stored_context_objects_safe[OF demo_world_ok rtranclp.rtrancl_refl demo_world_reads(1)]
    demo_world_reads(1) by blast

end
